(* ===== verification/Prelude.thy ===== *)
theory Prelude
  imports Main "HOL-Library.Word"
begin

text \<open>
  Shared vocabulary of the development: the types of identifiers, times and 64-bit
  counters; the model of a MySQL table as the list of its rows with the operations the
  ODB library gives the DAO classes (\<open>persist\<close> with a unique index, \<open>query_one\<close>,
  \<open>update\<close> of the rows a condition selects); the call oracle that says which
  middleware calls of a request complete; reachable states of a step relation.
  The lemmas on these carry the component proofs.
\<close>

named_theorems frame_simps \<open>fields an operation leaves unchanged\<close>
named_theorems dao_defs \<open>definitions of the DAO operations\<close>

section \<open>Types\<close>

type_synonym uid = string
type_synonym cid = string
type_synonym time = int  \<comment> \<open>milliseconds, the precision of the DATETIME(3) columns\<close>
type_synonym u64 = "64 word"

text \<open>
  A middleware call can raise (connection lost, timeout, open circuit breaker), and every
  DAO method has a catch branch for it. A request is run against an oracle: call \<open>k\<close>,
  iteration \<open>i\<close> of the loop it stands in, completes when \<open>up k i\<close> holds. Theorems
  quantify over the oracle, so they hold for every pattern of failures.
\<close>

type_synonym calls = "nat \<Rightarrow> nat \<Rightarrow> bool"

definition all_up :: calls where
  "all_up = (\<lambda>_ _. True)"

lemma all_up_simp [simp]: "all_up k i"
  by (simp add: all_up_def)

section \<open>Tables\<close>

definition query_one :: "('r \<Rightarrow> bool) \<Rightarrow> 'r list \<Rightarrow> 'r option" where
  "query_one P rs = find P rs"

definition update_where :: "('r \<Rightarrow> bool) \<Rightarrow> ('r \<Rightarrow> 'r) \<Rightarrow> 'r list \<Rightarrow> 'r list" where
  "update_where P f rs = map (\<lambda>r. if P r then f r else r) rs"

text \<open>\<open>persist\<close> on a table with a unique index on \<open>key\<close>: a duplicate key raises.\<close>

definition persist :: "('r \<Rightarrow> 'k) \<Rightarrow> 'r \<Rightarrow> 'r list \<Rightarrow> 'r list option" where
  "persist key r rs = (if key r \<in> key ` set rs then None else Some (rs @ [r]))"

fun persist_all :: "('r \<Rightarrow> 'k) \<Rightarrow> 'r list \<Rightarrow> 'r list \<Rightarrow> 'r list option" where
  "persist_all key [] rs = Some rs"
| "persist_all key (x # xs) rs =
     (case persist key x rs of None \<Rightarrow> None | Some rs' \<Rightarrow> persist_all key xs rs')"

lemma query_one_Some: "query_one P rs = Some r \<Longrightarrow> r \<in> set rs \<and> P r"
  by (auto simp: query_one_def find_Some_iff)

lemma query_one_None: "query_one P rs = None \<longleftrightarrow> (\<forall>r \<in> set rs. \<not> P r)"
  by (auto simp: query_one_def find_None_iff)

lemma query_one_not_None: "query_one P rs \<noteq> None \<longleftrightarrow> (\<exists>r \<in> set rs. P r)"
  by (simp add: query_one_None)

lemma query_one_ex: "(\<exists>r. query_one P rs = Some r) \<longleftrightarrow> (\<exists>r \<in> set rs. P r)"
  using query_one_not_None [of P rs] by simp

lemma query_one_Nil [simp]: "query_one P [] = None"
  by (simp add: query_one_def)

lemma query_one_Cons [simp]: "query_one P (r # rs) = (if P r then Some r else query_one P rs)"
  by (simp add: query_one_def)

lemma query_one_append: "query_one P (xs @ ys) =
    (case query_one P xs of None \<Rightarrow> query_one P ys | Some r \<Rightarrow> Some r)"
  by (induction xs) auto

lemma update_where_Nil [simp]: "update_where P f [] = []"
  by (simp add: update_where_def)

lemma update_where_Cons [simp]:
  "update_where P f (r # rs) = (if P r then f r else r) # update_where P f rs"
  by (simp add: update_where_def)

lemma length_update_where [simp]: "length (update_where P f rs) = length rs"
  by (simp add: update_where_def)

lemma set_update_where: "set (update_where P f rs) = (\<lambda>r. if P r then f r else r) ` set rs"
  by (simp add: update_where_def)

lemma map_key_update_where:
  assumes "\<And>r. key (f r) = key r"
  shows "map key (update_where P f rs) = map key rs"
  using assms by (simp add: update_where_def)

lemma update_where_none: "(\<And>r. r \<in> set rs \<Longrightarrow> \<not> P r) \<Longrightarrow> update_where P f rs = rs"
  by (induction rs) auto

lemma query_one_update_where_same:
  assumes "\<And>r. P (f r) = P r"
  shows "query_one P (update_where P f rs) = map_option f (query_one P rs)"
  using assms by (induction rs) auto

lemma query_one_update_where_other:
  assumes "\<And>r. Q (f r) = Q r" and "\<And>r. Q r \<Longrightarrow> \<not> P r"
  shows "query_one Q (update_where P f rs) = query_one Q rs"
  using assms by (induction rs) auto

lemma filter_update_where_other:
  assumes "\<And>r. Q (f r) = Q r" and "\<And>r. Q r \<Longrightarrow> \<not> P r"
  shows "filter Q (update_where P f rs) = filter Q rs"
  using assms by (induction rs) auto

lemma length_filter_update_where:
  assumes "\<And>r. P (f r) \<Longrightarrow> P r"
  shows "length (filter P (update_where Q f rs)) \<le> length (filter P rs)"
  using assms by (induction rs) (auto intro: le_SucI)

lemma persist_SomeD: "persist key r rs = Some rs' \<Longrightarrow> rs' = rs @ [r] \<and> key r \<notin> key ` set rs"
  by (auto simp: persist_def split: if_splits)

lemma persist_None: "persist key r rs = None \<longleftrightarrow> key r \<in> key ` set rs"
  by (simp add: persist_def)

lemma persist_all_SomeD: "persist_all key xs rs = Some rs' \<Longrightarrow> rs' = rs @ xs"
  by (induction xs arbitrary: rs) (fastforce split: option.splits dest: persist_SomeD)+

lemma persist_all_Some_iff:
  "persist_all key xs rs = Some rs' \<longleftrightarrow>
     rs' = rs @ xs \<and> distinct (map key xs) \<and> key ` set xs \<inter> key ` set rs = {}"
proof (induction xs arbitrary: rs)
  case Nil
  then show ?case by auto
next
  case (Cons x xs)
  show ?case
  proof (cases "key x \<in> key ` set rs")
    case True
    then show ?thesis by (auto simp: persist_def)
  next
    case False
    then show ?thesis by (auto simp: persist_def Cons.IH)
  qed
qed

lemma persist_all_None_iff:
  "persist_all key xs rs = None \<longleftrightarrow>
     \<not> (distinct (map key xs) \<and> key ` set xs \<inter> key ` set rs = {})"
  using persist_all_Some_iff [of key xs rs "rs @ xs"]
  by (metis not_Some_eq persist_all_Some_iff)

section \<open>Tables with a unique index\<close>

text \<open>
  What a client of a table relies on: rows are found by key, an insert is visible at its
  own key only, an update reaches one key only, and no operation makes a key occur
  twice. The client lemmas below are proved once from these laws.
\<close>

locale unique_table =
  fixes key :: "'r \<Rightarrow> 'k"
    and wf :: "'r list \<Rightarrow> bool"
    and sel :: "'k \<Rightarrow> 'r list \<Rightarrow> 'r option"
    and ins :: "'r \<Rightarrow> 'r list \<Rightarrow> 'r list option"
    and upd :: "'k \<Rightarrow> ('r \<Rightarrow> 'r) \<Rightarrow> 'r list \<Rightarrow> 'r list"
  assumes wf_empty: "wf []"
    and wf_ins: "\<And>r rs rs'. wf rs \<Longrightarrow> ins r rs = Some rs' \<Longrightarrow> wf rs'"
    and wf_upd: "\<And>k f rs. wf rs \<Longrightarrow> (\<And>r. key (f r) = key r) \<Longrightarrow> wf (upd k f rs)"
    and ins_fails: "\<And>r rs. ins r rs = None \<longleftrightarrow> sel (key r) rs \<noteq> None"
    and sel_ins: "\<And>r rs rs' k. ins r rs = Some rs' \<Longrightarrow>
        sel k rs' = (if k = key r then Some r else sel k rs)"
    and sel_upd: "\<And>k k' f rs. (\<And>r. key (f r) = key r) \<Longrightarrow>
        sel k' (upd k f rs) = (if k' = k then map_option f (sel k rs) else sel k' rs)"
    and sel_key: "\<And>k rs r. sel k rs = Some r \<Longrightarrow> key r = k \<and> r \<in> set rs"
    and sel_mem: "\<And>rs r. wf rs \<Longrightarrow> r \<in> set rs \<Longrightarrow> sel (key r) rs = Some r"
begin

lemma ins_twice_fails: "ins r rs = Some rs' \<Longrightarrow> key r' = key r \<Longrightarrow> ins r' rs' = None"
  by (simp add: ins_fails sel_ins)

lemma upd_keeps_keys: "(\<And>r. key (f r) = key r) \<Longrightarrow>
    sel k' (upd k f rs) = None \<longleftrightarrow> sel k' rs = None"
  by (auto simp: sel_upd)

lemma upd_blocks_ins: "(\<And>r. key (f r) = key r) \<Longrightarrow>
    ins r' (upd k f rs) = None \<longleftrightarrow> ins r' rs = None"
  by (simp add: ins_fails upd_keeps_keys)

lemma unique_row: "wf rs \<Longrightarrow> r \<in> set rs \<Longrightarrow> r' \<in> set rs \<Longrightarrow> key r = key r' \<Longrightarrow> r = r'"
  by (metis option.inject sel_mem)

end

text \<open>Every table of the model is an instance: rows in a list, distinct keys.\<close>

definition keys_distinct :: "('r \<Rightarrow> 'k) \<Rightarrow> 'r list \<Rightarrow> bool" where
  "keys_distinct key rs = distinct (map key rs)"

definition select_key :: "('r \<Rightarrow> 'k) \<Rightarrow> 'k \<Rightarrow> 'r list \<Rightarrow> 'r option" where
  "select_key key k rs = query_one (\<lambda>r. key r = k) rs"

definition update_key :: "('r \<Rightarrow> 'k) \<Rightarrow> 'k \<Rightarrow> ('r \<Rightarrow> 'r) \<Rightarrow> 'r list \<Rightarrow> 'r list" where
  "update_key key k f rs = update_where (\<lambda>r. key r = k) f rs"

lemma keys_distinct_Nil [simp]: "keys_distinct key []"
  by (simp add: keys_distinct_def)

lemma keys_distinct_snoc:
  "keys_distinct key (rs @ [r]) \<longleftrightarrow> keys_distinct key rs \<and> key r \<notin> key ` set rs"
  by (auto simp: keys_distinct_def)

lemma keys_distinct_update_where:
  "(\<And>r. key (f r) = key r) \<Longrightarrow> keys_distinct key (update_where P f rs) = keys_distinct key rs"
  by (simp add: keys_distinct_def map_key_update_where)

lemma keys_distinct_filter: "keys_distinct key rs \<Longrightarrow> keys_distinct key (filter P rs)"
  by (simp add: keys_distinct_def distinct_map_filter)

lemma keys_distinct_persist_all:
  "keys_distinct key rs \<Longrightarrow> persist_all key xs rs = Some rs' \<Longrightarrow> keys_distinct key rs'"
  by (auto simp: persist_all_Some_iff keys_distinct_def)

lemma select_key_Nil [simp]: "select_key key k [] = None"
  by (simp add: select_key_def)

lemma select_key_Cons [simp]:
  "select_key key k (r # rs) = (if key r = k then Some r else select_key key k rs)"
  by (simp add: select_key_def)

lemma select_key_mem:
  "keys_distinct key rs \<Longrightarrow> r \<in> set rs \<Longrightarrow> select_key key (key r) rs = Some r"
proof (induction rs)
  case Nil
  then show ?case by simp
next
  case (Cons x xs)
  then show ?case
    by (auto simp: select_key_def keys_distinct_def)
qed

lemma select_key_append: "select_key key k (xs @ ys) =
    (case select_key key k xs of None \<Rightarrow> select_key key k ys | Some r \<Rightarrow> Some r)"
  by (simp add: select_key_def query_one_append split: option.splits)

lemma select_key_None: "select_key key k rs = None \<longleftrightarrow> k \<notin> key ` set rs"
  by (auto simp: select_key_def query_one_None)

lemma select_key_SomeD: "select_key key k rs = Some r \<Longrightarrow> key r = k \<and> r \<in> set rs"
  by (auto simp: select_key_def dest: query_one_Some)

lemma unique_table_list:
  "unique_table key (keys_distinct key) (select_key key) (persist key) (update_key key)"
proof
  show "keys_distinct key []" by simp
next
  fix r rs rs'
  assume "keys_distinct key rs" and "persist key r rs = Some rs'"
  then show "keys_distinct key rs'"
    by (auto simp: keys_distinct_snoc dest!: persist_SomeD)
next
  fix k and f :: "'a \<Rightarrow> 'a" and rs
  assume "keys_distinct key rs" and "\<And>r. key (f r) = key r"
  then show "keys_distinct key (update_key key k f rs)"
    by (simp add: update_key_def keys_distinct_update_where)
next
  fix r rs
  show "persist key r rs = None \<longleftrightarrow> select_key key (key r) rs \<noteq> None"
    by (simp add: persist_None select_key_None)
next
  fix r rs rs' k
  assume "persist key r rs = Some rs'"
  then have rs': "rs' = rs @ [r]" and new: "select_key key (key r) rs = None"
    by (auto simp: select_key_None dest: persist_SomeD)
  show "select_key key k rs' = (if k = key r then Some r else select_key key k rs)"
  proof (cases "k = key r")
    case True
    with rs' new show ?thesis by (simp add: select_key_append)
  next
    case False
    with rs' show ?thesis by (simp add: select_key_append split: option.splits)
  qed
next
  fix k k' and f :: "'a \<Rightarrow> 'a" and rs
  assume keep: "\<And>r. key (f r) = key r"
  show "select_key key k' (update_key key k f rs) =
      (if k' = k then map_option f (select_key key k rs) else select_key key k' rs)"
    using keep by (induction rs) (auto simp: select_key_def update_key_def)
next
  fix k rs r
  assume "select_key key k rs = Some r"
  then show "key r = k \<and> r \<in> set rs" by (rule select_key_SomeD)
next
  fix rs r
  assume "keys_distinct key rs" and "r \<in> set rs"
  then show "select_key key (key r) rs = Some r" by (rule select_key_mem)
qed

text \<open>
  \<open>_db->update(*row)\<close>: ODB writes the whole row back at its primary key.
\<close>

definition put_row :: "('r \<Rightarrow> 'k) \<Rightarrow> 'r \<Rightarrow> 'r list \<Rightarrow> 'r list" where
  "put_row key r rs = map (\<lambda>x. if key x = key r then r else x) rs"

lemma put_row_Nil [simp]: "put_row key r [] = []"
  by (simp add: put_row_def)

lemma put_row_Cons [simp]:
  "put_row key r (x # xs) = (if key x = key r then r else x) # put_row key r xs"
  by (simp add: put_row_def)

lemma map_key_put_row [simp]: "map key (put_row key r rs) = map key rs"
  by (induction rs) auto

lemma keys_distinct_put_row [simp]: "keys_distinct key (put_row key r rs) = keys_distinct key rs"
  by (simp add: keys_distinct_def)

lemma select_key_put_row:
  "select_key key k (put_row key r rs) =
     (if k = key r \<and> select_key key k rs \<noteq> None then Some r else select_key key k rs)"
  by (induction rs) auto

lemma put_row_absent: "select_key key (key r) rs = None \<Longrightarrow> put_row key r rs = rs"
  by (induction rs) (auto split: if_splits)

lemma filter_put_row_other:
  assumes "\<not> P r" and "\<And>x. x \<in> set rs \<Longrightarrow> key x = key r \<Longrightarrow> \<not> P x"
  shows "filter P (put_row key r rs) = filter P rs"
  using assms by (induction rs) auto

lemma length_filter_put_row:
  assumes "keys_distinct key rs" and "select_key key (key r) rs = Some x"
  shows "length (filter P (put_row key r rs)) + of_bool (P x) = length (filter P rs) + of_bool (P r)"
  using assms
proof (induction rs)
  case Nil
  then show ?case by simp
next
  case (Cons y ys)
  show ?case
  proof (cases "key y = key r")
    case True
    with Cons.prems have "y = x" and "select_key key (key r) ys = None"
      by (auto simp: keys_distinct_def select_key_None)
    with True show ?thesis by (simp add: put_row_absent)
  next
    case False
    with Cons show ?thesis by (simp add: keys_distinct_def)
  qed
qed

lemma set_put_rowD: "x \<in> set (put_row key r rs) \<Longrightarrow> x = r \<or> x \<in> set rs"
  by (auto simp: put_row_def split: if_splits)

section \<open>Reachable states\<close>

inductive reach :: "('s \<Rightarrow> bool) \<Rightarrow> ('s \<Rightarrow> 's \<Rightarrow> bool) \<Rightarrow> 's \<Rightarrow> bool"
  for init :: "'s \<Rightarrow> bool" and step :: "'s \<Rightarrow> 's \<Rightarrow> bool" where
  reach_init: "init s \<Longrightarrow> reach init step s"
| reach_step: "reach init step s \<Longrightarrow> step s t \<Longrightarrow> reach init step t"

locale invariant_system =
  fixes init :: "'s \<Rightarrow> bool" and step :: "'s \<Rightarrow> 's \<Rightarrow> bool" and inv :: "'s \<Rightarrow> bool"
  assumes inv_init: "\<And>s. init s \<Longrightarrow> inv s"
    and inv_step: "\<And>s t. inv s \<Longrightarrow> step s t \<Longrightarrow> inv t"
begin

lemma inv_reach: "reach init step s \<Longrightarrow> inv s"
  by (induction rule: reach.induct) (auto intro: inv_init inv_step)

end

section \<open>Lists\<close>

lemma image_filter_key: "f ` {x \<in> S. f x \<noteq> k} = f ` S - {k}"
  by blast

text \<open>\<open>LIMIT n OFFSET m\<close>.\<close>

definition page :: "nat \<Rightarrow> nat \<Rightarrow> 'a list \<Rightarrow> 'a list" where
  "page offset limit xs = take limit (drop offset xs)"

lemma page_split: "page offset limit xs @ drop (offset + limit) xs = drop offset xs"
  by (simp add: page_def) (metis add.commute append_take_drop_id drop_drop)

lemma set_page: "set (page offset limit xs) \<subseteq> set xs"
  unfolding page_def by (meson order_trans set_drop_subset set_take_subset)

lemma length_page: "length (page offset limit xs) = min limit (length xs - offset)"
  by (simp add: page_def min.commute)

end
