(* ===== verification/Cpp_Strings.thy ===== *)
theory Cpp_Strings
  imports Prelude
begin

text \<open>
  The C++ library's conversions between integers and decimal strings, as the services use
  them for page cursors and cache keys: \<open>std::to_string\<close> and \<open>std::stoi\<close>
  (leading white space, an optional sign, the longest run of digits; no digit raises
  \<open>invalid_argument\<close>, a value outside 32-bit \<open>int\<close> raises \<open>out_of_range\<close>).
  Shown: \<open>stoi\<close> reads back what \<open>to_string\<close> writes, for every 32-bit value.
\<close>

definition digit_char :: "nat \<Rightarrow> char" where
  "digit_char d = char_of (48 + d)"

definition is_digit :: "char \<Rightarrow> bool" where
  "is_digit c = (48 \<le> (of_char c :: nat) \<and> (of_char c :: nat) \<le> 57)"

definition digit_val :: "char \<Rightarrow> nat" where
  "digit_val c = of_char c - 48"

fun nat_to_string :: "nat \<Rightarrow> string" where
  "nat_to_string n =
     (if n < 10 then [digit_char n] else nat_to_string (n div 10) @ [digit_char (n mod 10)])"

declare nat_to_string.simps [simp del]

definition int_to_string :: "int \<Rightarrow> string" where
  "int_to_string i = (if i < 0 then CHR ''-'' # nat_to_string (nat (- i)) else nat_to_string (nat i))"

datatype stoi_error = Invalid_argument | Out_of_range

definition is_space :: "char \<Rightarrow> bool" where
  "is_space c = ((of_char c :: nat) = 32 \<or> (9 \<le> (of_char c :: nat) \<and> (of_char c :: nat) \<le> 13))"

definition digits_val :: "string \<Rightarrow> nat" where
  "digits_val ds = foldl (\<lambda>n c. n * 10 + digit_val c) 0 ds"

definition int32_min :: int where "int32_min = - 2147483648"
definition int32_max :: int where "int32_max = 2147483647"

definition stoi_unsigned :: "int \<Rightarrow> string \<Rightarrow> stoi_error + int" where
  "stoi_unsigned sign s =
     (let ds = takeWhile is_digit s; v = sign * int (digits_val ds)
      in if ds = [] then Inl Invalid_argument
         else if v < int32_min \<or> int32_max < v then Inl Out_of_range
         else Inr v)"

definition stoi :: "string \<Rightarrow> stoi_error + int" where
  "stoi s =
     (case dropWhile is_space s of
        [] \<Rightarrow> Inl Invalid_argument
      | c # cs \<Rightarrow> if c = CHR ''-'' then stoi_unsigned (- 1) cs
                  else if c = CHR ''+'' then stoi_unsigned 1 cs
                  else stoi_unsigned 1 (c # cs))"

lemma of_char_digit [simp]: "d < 10 \<Longrightarrow> (of_char (digit_char d) :: nat) = 48 + d"
  by (simp add: digit_char_def)

lemma is_digit_digit_char [simp]: "d < 10 \<Longrightarrow> is_digit (digit_char d)"
  by (simp add: is_digit_def)

lemma digit_val_digit_char [simp]: "d < 10 \<Longrightarrow> digit_val (digit_char d) = d"
  by (simp add: digit_val_def)

lemma digits_val_snoc: "digits_val (ds @ [c]) = digits_val ds * 10 + digit_val c"
  by (simp add: digits_val_def)

lemma nat_to_string_digits: "list_all is_digit (nat_to_string n)"
proof (induction n rule: nat_to_string.induct)
  case (1 n)
  then show ?case
    by (cases "n < 10") (simp_all add: nat_to_string.simps [of n])
qed

lemma nat_to_string_nonempty [simp]: "nat_to_string n \<noteq> []"
  by (simp add: nat_to_string.simps [of n])

lemma digits_val_nat_to_string [simp]: "digits_val (nat_to_string n) = n"
proof (induction n rule: nat_to_string.induct)
  case (1 n)
  show ?case
  proof (cases "n < 10")
    case True
    then show ?thesis by (simp add: nat_to_string.simps [of n] digits_val_def)
  next
    case False
    with "1.IH" show ?thesis
      by (simp add: nat_to_string.simps [of n] digits_val_snoc)
  qed
qed

lemma takeWhile_digits [simp]: "takeWhile is_digit (nat_to_string n) = nat_to_string n"
  using nat_to_string_digits [of n] by (simp add: list_all_iff)

lemma not_space_digit: "is_digit c \<Longrightarrow> \<not> is_space c \<and> c \<noteq> CHR ''-'' \<and> c \<noteq> CHR ''+''"
  by (auto simp: is_digit_def is_space_def)

lemma nat_to_string_hd: "nat_to_string n = c # cs \<Longrightarrow> is_digit c"
  using nat_to_string_digits [of n] by simp

lemma dropWhile_space_digits [simp]: "dropWhile is_space (nat_to_string n) = nat_to_string n"
proof (cases "nat_to_string n")
  case Nil
  then show ?thesis by simp
next
  case (Cons c cs)
  then show ?thesis using not_space_digit [OF nat_to_string_hd [OF Cons]] by simp
qed

lemma stoi_unsigned_nat_to_string:
  "int32_min \<le> sign * int n \<Longrightarrow> sign * int n \<le> int32_max \<Longrightarrow>
    stoi_unsigned sign (nat_to_string n) = Inr (sign * int n)"
  by (simp add: stoi_unsigned_def Let_def)

lemma stoi_int_to_string:
  assumes "int32_min \<le> i" and "i \<le> int32_max"
  shows "stoi (int_to_string i) = Inr i"
proof (cases "i < 0")
  case True
  have "\<not> is_space CHR ''-''" by (simp add: is_space_def)
  with True assms stoi_unsigned_nat_to_string [of "- 1" "nat (- i)"] show ?thesis
    by (simp add: stoi_def int_to_string_def)
next
  case False
  obtain c cs where c: "nat_to_string (nat i) = c # cs"
    by (metis nat_to_string_nonempty neq_Nil_conv)
  from stoi_unsigned_nat_to_string [of 1 "nat i"] False assms
  have "stoi_unsigned 1 (c # cs) = Inr i" by (simp add: c)
  then show ?thesis
    using False c not_space_digit [OF nat_to_string_hd [OF c]]
    by (simp add: stoi_def int_to_string_def)
qed

lemma digit_char_0: "digit_char 0 = CHR ''0''"
  by code_simp

lemma nat_to_string_0: "nat_to_string 0 = ''0''"
  by (simp add: nat_to_string.simps [of 0] digit_char_0)

lemma int_to_string_nonempty [simp]: "int_to_string i \<noteq> []"
  by (simp add: int_to_string_def)

lemma nat_to_string_inject: "nat_to_string m = nat_to_string n \<longleftrightarrow> m = n"
  by (metis digits_val_nat_to_string)

end
