(* ===== verification/Rpc.thy ===== *)
theory Rpc
  imports Cpp_Strings
begin

text \<open>
  The RPC scaffolding every service shares: the error codes of
  \<open>common/error/error_codes.hpp\<close>, the exceptions a handler body can raise
  (\<open>ServiceError\<close> and any other \<open>std::exception\<close>), \<open>extract_auth\<close> and the
  \<open>HANDLE_RPC\<close> macro, which turns a body into a response header. A handler body is a
  function \<open>auth \<Rightarrow> state \<Rightarrow> (exn + response) \<times> state\<close>: a raised exception keeps
  the state changes already committed, as the DAO calls commit their own transactions.
  The outcome of a call to another service is a value of \<open>rpc_outcome\<close>.
\<close>

section \<open>Error codes (error_codes.hpp)\<close>

definition kOK :: int where "kOK = 0"
definition kAuthInvalidCredentials :: int where "kAuthInvalidCredentials = 1001"
definition kAuthTokenExpired :: int where "kAuthTokenExpired = 1002"
definition kAuthTokenInvalid :: int where "kAuthTokenInvalid = 1003"
definition kAuthUserNotFound :: int where "kAuthUserNotFound = 1004"
definition kAuthUserAlreadyExists :: int where "kAuthUserAlreadyExists = 1005"
definition kAuthVerifyCodeInvalid :: int where "kAuthVerifyCodeInvalid = 1006"
definition kAuthVerifyCodeExpired :: int where "kAuthVerifyCodeExpired = 1007"
definition kAuthRefreshTokenReused :: int where "kAuthRefreshTokenReused = 1008"
definition kAuthDeviceRevoked :: int where "kAuthDeviceRevoked = 1009"
definition kRelationshipAlreadyFriends :: int where "kRelationshipAlreadyFriends = 2001"
definition kRelationshipNotFriends :: int where "kRelationshipNotFriends = 2002"
definition kRelationshipBlocked :: int where "kRelationshipBlocked = 2003"
definition kRelationshipRequestPending :: int where "kRelationshipRequestPending = 2004"
definition kConversationNotFound :: int where "kConversationNotFound = 3001"
definition kConversationNotMember :: int where "kConversationNotMember = 3002"
definition kConversationNoPermission :: int where "kConversationNoPermission = 3003"
definition kConversationMemberLimit :: int where "kConversationMemberLimit = 3004"
definition kMessageNotFound :: int where "kMessageNotFound = 4001"
definition kMessageRecallTimeout :: int where "kMessageRecallTimeout = 4002"
definition kMessageAlreadyRecalled :: int where "kMessageAlreadyRecalled = 4003"
definition kMessageContentInvalid :: int where "kMessageContentInvalid = 4004"
definition kSystemInternalError :: int where "kSystemInternalError = 9001"
definition kSystemUnavailable :: int where "kSystemUnavailable = 9002"
definition kSystemTimeout :: int where "kSystemTimeout = 9003"
definition kSystemInvalidArgument :: int where "kSystemInvalidArgument = 9004"
definition kNotImplemented :: int where "kNotImplemented = 9005"

lemmas error_code_defs =
  kOK_def kAuthInvalidCredentials_def kAuthTokenExpired_def kAuthTokenInvalid_def
  kAuthUserNotFound_def kAuthUserAlreadyExists_def kAuthVerifyCodeInvalid_def
  kAuthVerifyCodeExpired_def kAuthRefreshTokenReused_def kAuthDeviceRevoked_def
  kRelationshipAlreadyFriends_def kRelationshipNotFriends_def kRelationshipBlocked_def
  kRelationshipRequestPending_def kConversationNotFound_def kConversationNotMember_def
  kConversationNoPermission_def kConversationMemberLimit_def kMessageNotFound_def
  kMessageRecallTimeout_def kMessageAlreadyRecalled_def kMessageContentInvalid_def
  kSystemInternalError_def kSystemUnavailable_def kSystemTimeout_def
  kSystemInvalidArgument_def kNotImplemented_def

section \<open>Exceptions, authentication context, response header\<close>

datatype exn = ServiceError (code: int) (message: string) | StdException string

record rpc_metadata =
  md_user_id :: string
  md_device_id :: string
  md_trace_id :: string
  md_jwt_jti :: string

record auth_context =
  user_id :: string
  device_id :: string
  trace_id :: string
  jwt_jti :: string

record response_header =
  hdr_request_id :: string
  hdr_success :: bool
  hdr_error_code :: int
  hdr_error_message :: string

record page_request =
  pq_limit :: int
  pq_cursor :: string

record page_response =
  pr_has_more :: bool
  pr_next_cursor :: string
  pr_total_count :: int

record user_info =
  ui_user_id :: string
  ui_nickname :: string
  ui_bio :: string
  ui_phone :: string
  ui_avatar_url :: string

text \<open>
  \<open>extract_auth\<close>: the argument is what \<open>RpcMetadata::ParseFromString\<close> makes of the
  request attachment, \<open>None\<close> when it does not parse.
\<close>

definition extract_auth :: "rpc_metadata option \<Rightarrow> exn + auth_context" where
  "extract_auth md =
     (case md of
        None \<Rightarrow> Inl (ServiceError kSystemInternalError
                  ''missing auth metadata: user_id/device_id required'')
      | Some m \<Rightarrow>
          if md_user_id m = [] \<or> md_device_id m = []
          then Inl (ServiceError kSystemInternalError
                  ''missing auth metadata: user_id/device_id required'')
          else Inr \<lparr>user_id = md_user_id m, device_id = md_device_id m,
                    trace_id = md_trace_id m, jwt_jti = md_jwt_jti m\<rparr>)"

definition ok_header :: "string \<Rightarrow> response_header" where
  "ok_header rid = \<lparr>hdr_request_id = rid, hdr_success = True, hdr_error_code = kOK,
     hdr_error_message = []\<rparr>"

fun error_header :: "string \<Rightarrow> exn \<Rightarrow> response_header" where
  "error_header rid (ServiceError c msg) =
     \<lparr>hdr_request_id = rid, hdr_success = False, hdr_error_code = c, hdr_error_message = msg\<rparr>"
| "error_header rid (StdException w) =
     \<lparr>hdr_request_id = rid, hdr_success = False, hdr_error_code = kSystemInternalError,
      hdr_error_message = ''internal error''\<rparr>"

text \<open>
  \<open>HANDLE_RPC\<close>. The success header is written before the body runs, so an early
  \<open>return\<close> of the body keeps it; an exception overwrites it.
\<close>

definition handle_rpc ::
  "rpc_metadata option \<Rightarrow> string \<Rightarrow> (auth_context \<Rightarrow> 's \<Rightarrow> (exn + 'r) \<times> 's) \<Rightarrow> 's \<Rightarrow>
     (response_header \<times> 'r option) \<times> 's" where
  "handle_rpc md rid body s =
     (case extract_auth md of
        Inl e \<Rightarrow> ((error_header rid e, None), s)
      | Inr auth \<Rightarrow>
          (case body auth s of
             (Inl e, s') \<Rightarrow> ((error_header rid e, None), s')
           | (Inr r, s') \<Rightarrow> ((ok_header rid, Some r), s')))"

section \<open>Calls to other services\<close>

text \<open>
  A call through a \<open>ServiceManager\<close> channel: no channel can be chosen, the brpc call
  fails, or a reply arrives with its header.
\<close>

datatype 'a rpc_outcome = No_channel | Rpc_failed | Rpc_reply response_header 'a

fun rpc_ok :: "'a rpc_outcome \<Rightarrow> 'a option" where
  "rpc_ok No_channel = None"
| "rpc_ok Rpc_failed = None"
| "rpc_ok (Rpc_reply h a) = (if hdr_success h then Some a else None)"

section \<open>What HANDLE_RPC guarantees\<close>

lemma extract_auth_Inr:
  "extract_auth md = Inr a \<Longrightarrow> user_id a \<noteq> [] \<and> device_id a \<noteq> []"
  by (auto simp: extract_auth_def split: option.splits if_splits)

lemma handle_rpc_request_id: "hdr_request_id (fst (fst (handle_rpc md rid body s))) = rid"
proof -
  have "hdr_request_id (error_header rid e) = rid" for e by (cases e) auto
  then show ?thesis
    by (auto simp: handle_rpc_def ok_header_def split: sum.splits prod.splits)
qed

lemma handle_rpc_state:
  assumes "\<And>auth. P (snd (body auth s))" and "P s"
  shows "P (snd (handle_rpc md rid body s))"
  using assms by (auto simp: handle_rpc_def split: sum.splits prod.splits) (metis snd_conv)+

lemma handle_rpc_success:
  "hdr_success (fst (fst (handle_rpc md rid body s))) \<longleftrightarrow>
     (\<exists>auth r. extract_auth md = Inr auth \<and> fst (body auth s) = Inr r)"
proof -
  have "\<not> hdr_success (error_header rid e)" for e by (cases e) auto
  then show ?thesis
    by (auto simp: handle_rpc_def ok_header_def split: sum.splits prod.splits)
qed

lemma handle_rpc_unauthenticated:
  "extract_auth md = Inl e \<Longrightarrow> handle_rpc md rid body s = ((error_header rid e, None), s)"
  by (simp add: handle_rpc_def)

end
