(* ===== verification/Relation_Dao.thy ===== *)
theory Relation_Dao
  imports Rpc
begin

text \<open>
  The tables \<open>relation\<close>, \<open>friend_apply\<close> and \<open>user_block\<close> (odb/*.hxx) and their DAO
  classes (common/dao/mysql_relation.hpp, mysql_friend_apply.hpp, mysql_user_block.hpp).
  Every method takes the flag of its call oracle first: with the flag false the database
  raises inside the transaction and the method takes its catch branch. A transaction that
  raises leaves the tables unchanged.
\<close>

section \<open>Rows\<close>

datatype relation_status = Rel_NORMAL | Rel_BLOCKED | Rel_DELETED

record relation_row =
  rel_user_id :: uid
  rel_peer_id :: uid
  rel_remark :: "string option"
  rel_group_name :: "string option"
  rel_status :: relation_status
  rel_starred :: bool
  rel_create_time :: time
  rel_update_time :: time

datatype friend_apply_status = PENDING | ACCEPTED | REJECTED | CANCELED | EXPIRED

record friend_apply_row =
  fa_event_id :: string
  fa_user_id :: uid
  fa_peer_id :: uid
  fa_status :: friend_apply_status
  fa_create_time :: time
  fa_handle_time :: "time option"

record user_block_row =
  ub_blocker_id :: uid
  ub_blocked_id :: uid
  ub_create_time :: time

record rel_db =
  relations :: "relation_row list"
  friend_applies :: "friend_apply_row list"
  user_blocks :: "user_block_row list"

definition rel_key :: "relation_row \<Rightarrow> uid \<times> uid" where
  "rel_key r = (rel_user_id r, rel_peer_id r)"

definition ub_key :: "user_block_row \<Rightarrow> uid \<times> uid" where
  "ub_key r = (ub_blocker_id r, ub_blocked_id r)"

interpretation relation_table: unique_table rel_key "keys_distinct rel_key"
    "select_key rel_key" "persist rel_key" "update_key rel_key"
  by (rule unique_table_list)

interpretation apply_table: unique_table fa_event_id "keys_distinct fa_event_id"
    "select_key fa_event_id" "persist fa_event_id" "update_key fa_event_id"
  by (rule unique_table_list)

interpretation block_table: unique_table ub_key "keys_distinct ub_key"
    "select_key ub_key" "persist ub_key" "update_key ub_key"
  by (rule unique_table_list)

section \<open>RelationTable\<close>

definition new_relation :: "uid \<Rightarrow> uid \<Rightarrow> time \<Rightarrow> relation_row" where
  "new_relation a b now = \<lparr>rel_user_id = a, rel_peer_id = b, rel_remark = None,
     rel_group_name = None, rel_status = Rel_NORMAL, rel_starred = False,
     rel_create_time = now, rel_update_time = now\<rparr>"

definition RelationTable_insert :: "bool \<Rightarrow> time \<Rightarrow> uid \<Rightarrow> uid \<Rightarrow> rel_db \<Rightarrow> bool \<times> rel_db" where
  "RelationTable_insert ok now uid pid db =
     (let r1 = new_relation uid pid now; r2 = new_relation pid uid now
      in if \<not> ok then (False, db)
         else case persist_all rel_key [r1, r2] (relations db) of
                None \<Rightarrow> (False, db)
              | Some rs \<Rightarrow> (True, db\<lparr>relations := rs\<rparr>))"

definition soft_delete :: "time \<Rightarrow> uid \<Rightarrow> uid \<Rightarrow> relation_row list \<Rightarrow> relation_row list" where
  "soft_delete now a b rs =
     update_key rel_key (a, b) (\<lambda>r. r\<lparr>rel_status := Rel_DELETED, rel_update_time := now\<rparr>) rs"

definition RelationTable_remove :: "bool \<Rightarrow> time \<Rightarrow> uid \<Rightarrow> uid \<Rightarrow> rel_db \<Rightarrow> bool \<times> rel_db" where
  "RelationTable_remove ok now uid pid db =
     (if \<not> ok then (False, db)
      else (True, db\<lparr>relations := soft_delete now pid uid (soft_delete now uid pid (relations db))\<rparr>))"

definition normal_row :: "uid \<Rightarrow> uid \<Rightarrow> relation_row list \<Rightarrow> bool" where
  "normal_row a b rs =
     (query_one (\<lambda>r. rel_key r = (a, b) \<and> rel_status r = Rel_NORMAL) rs \<noteq> None)"

definition RelationTable_exists :: "bool \<Rightarrow> uid \<Rightarrow> uid \<Rightarrow> rel_db \<Rightarrow> bool" where
  "RelationTable_exists ok uid pid db =
     (ok \<and> normal_row uid pid (relations db) \<and> normal_row pid uid (relations db))"

definition RelationTable_friends :: "bool \<Rightarrow> uid \<Rightarrow> rel_db \<Rightarrow> uid list" where
  "RelationTable_friends ok uid db =
     (if \<not> ok then []
      else map rel_peer_id
        (filter (\<lambda>r. rel_user_id r = uid \<and> rel_status r = Rel_NORMAL) (relations db)))"

definition RelationTable_select :: "bool \<Rightarrow> uid \<Rightarrow> uid \<Rightarrow> rel_db \<Rightarrow> relation_row option" where
  "RelationTable_select ok uid pid db =
     (if \<not> ok then None else select_key rel_key (uid, pid) (relations db))"

definition RelationTable_update_meta ::
  "bool \<Rightarrow> time \<Rightarrow> uid \<Rightarrow> uid \<Rightarrow> string \<Rightarrow> string \<Rightarrow> bool \<Rightarrow> rel_db \<Rightarrow> bool \<times> rel_db" where
  "RelationTable_update_meta ok now uid pid rmk grp star db =
     (if \<not> ok then (False, db)
      else case select_key rel_key (uid, pid) (relations db) of
             None \<Rightarrow> (False, db)
           | Some r \<Rightarrow> (True, db\<lparr>relations := update_key rel_key (uid, pid)
               (\<lambda>r. r\<lparr>rel_remark := Some rmk, rel_group_name := Some grp, rel_starred := star,
                      rel_update_time := now\<rparr>) (relations db)\<rparr>))"

definition RelationTable_set_status ::
  "bool \<Rightarrow> time \<Rightarrow> uid \<Rightarrow> uid \<Rightarrow> relation_status \<Rightarrow> rel_db \<Rightarrow> bool \<times> rel_db" where
  "RelationTable_set_status ok now uid pid st db =
     (if \<not> ok then (False, db)
      else case select_key rel_key (uid, pid) (relations db) of
             None \<Rightarrow> (False, db)
           | Some r \<Rightarrow> (True, db\<lparr>relations := update_key rel_key (uid, pid)
               (\<lambda>r. r\<lparr>rel_status := st, rel_update_time := now\<rparr>) (relations db)\<rparr>))"

section \<open>FriendApplyTable\<close>

definition FriendApplyTable_insert ::
  "bool \<Rightarrow> time \<Rightarrow> friend_apply_row \<Rightarrow> rel_db \<Rightarrow> bool \<times> rel_db" where
  "FriendApplyTable_insert ok now ev db =
     (if \<not> ok then (False, db)
      else case persist fa_event_id (ev\<lparr>fa_create_time := now\<rparr>) (friend_applies db) of
             None \<Rightarrow> (False, db)
           | Some rs \<Rightarrow> (True, db\<lparr>friend_applies := rs\<rparr>))"

definition pending_of :: "uid \<Rightarrow> uid \<Rightarrow> friend_apply_row \<Rightarrow> bool" where
  "pending_of uid pid r = (fa_user_id r = uid \<and> fa_peer_id r = pid \<and> fa_status r = PENDING)"

definition FriendApplyTable_exists_pending :: "bool \<Rightarrow> uid \<Rightarrow> uid \<Rightarrow> rel_db \<Rightarrow> bool" where
  "FriendApplyTable_exists_pending ok uid pid db =
     (ok \<and> query_one (pending_of uid pid) (friend_applies db) \<noteq> None)"

definition FriendApplyTable_update_status ::
  "bool \<Rightarrow> time \<Rightarrow> string \<Rightarrow> friend_apply_status \<Rightarrow> rel_db \<Rightarrow> bool \<times> rel_db" where
  "FriendApplyTable_update_status ok now eid st db =
     (if \<not> ok then (False, db)
      else case select_key fa_event_id eid (friend_applies db) of
             None \<Rightarrow> (False, db)
           | Some r \<Rightarrow> (True, db\<lparr>friend_applies := update_key fa_event_id eid
               (\<lambda>r. r\<lparr>fa_status := st, fa_handle_time := Some now\<rparr>) (friend_applies db)\<rparr>))"

definition FriendApplyTable_select_pending :: "bool \<Rightarrow> uid \<Rightarrow> rel_db \<Rightarrow> friend_apply_row list" where
  "FriendApplyTable_select_pending ok uid db =
     (if \<not> ok then []
      else sort_key (\<lambda>r. - fa_create_time r)
        (filter (\<lambda>r. fa_peer_id r = uid \<and> fa_status r = PENDING) (friend_applies db)))"

definition FriendApplyTable_select_by_event_id ::
  "bool \<Rightarrow> string \<Rightarrow> rel_db \<Rightarrow> friend_apply_row option" where
  "FriendApplyTable_select_by_event_id ok eid db =
     (if \<not> ok then None else select_key fa_event_id eid (friend_applies db))"

definition FriendApplyTable_select_latest ::
  "bool \<Rightarrow> uid \<Rightarrow> uid \<Rightarrow> rel_db \<Rightarrow> friend_apply_row option" where
  "FriendApplyTable_select_latest ok uid pid db =
     (if \<not> ok then None
      else case sort_key (\<lambda>r. - fa_create_time r)
             (filter (\<lambda>r. fa_user_id r = uid \<and> fa_peer_id r = pid) (friend_applies db)) of
             [] \<Rightarrow> None
           | r # _ \<Rightarrow> Some r)"

section \<open>UserBlockTable\<close>

text \<open>A duplicate key counts as success (the \<open>object_already_persistent\<close> and \<open>Duplicate\<close> branches).\<close>

definition UserBlockTable_insert :: "bool \<Rightarrow> time \<Rightarrow> uid \<Rightarrow> uid \<Rightarrow> rel_db \<Rightarrow> bool \<times> rel_db" where
  "UserBlockTable_insert ok now blocker blocked db =
     (if \<not> ok then (False, db)
      else case persist ub_key \<lparr>ub_blocker_id = blocker, ub_blocked_id = blocked,
                                ub_create_time = now\<rparr> (user_blocks db) of
             None \<Rightarrow> (True, db)
           | Some rs \<Rightarrow> (True, db\<lparr>user_blocks := rs\<rparr>))"

definition UserBlockTable_remove :: "bool \<Rightarrow> uid \<Rightarrow> uid \<Rightarrow> rel_db \<Rightarrow> bool \<times> rel_db" where
  "UserBlockTable_remove ok blocker blocked db =
     (if \<not> ok then (False, db)
      else (True, db\<lparr>user_blocks := filter (\<lambda>r. ub_key r \<noteq> (blocker, blocked)) (user_blocks db)\<rparr>))"

definition UserBlockTable_is_blocked :: "bool \<Rightarrow> uid \<Rightarrow> uid \<Rightarrow> rel_db \<Rightarrow> bool" where
  "UserBlockTable_is_blocked ok blocker blocked db =
     (ok \<and> select_key ub_key (blocker, blocked) (user_blocks db) \<noteq> None)"

definition blocked_ordered :: "uid \<Rightarrow> rel_db \<Rightarrow> uid list" where
  "blocked_ordered blocker db = map ub_blocked_id
     (sort_key (\<lambda>r. - ub_create_time r) (filter (\<lambda>r. ub_blocker_id r = blocker) (user_blocks db)))"

definition UserBlockTable_list_blocked :: "bool \<Rightarrow> uid \<Rightarrow> int \<Rightarrow> int \<Rightarrow> rel_db \<Rightarrow> uid list" where
  "UserBlockTable_list_blocked ok blocker offset limit db =
     (if limit \<le> 0 then []
      else if \<not> ok then []
      else page (nat (if offset < 0 then 0 else offset)) (nat limit) (blocked_ordered blocker db))"

definition UserBlockTable_count_blocked :: "bool \<Rightarrow> uid \<Rightarrow> rel_db \<Rightarrow> int" where
  "UserBlockTable_count_blocked ok blocker db =
     (if \<not> ok then 0
      else int (length (filter (\<lambda>r. ub_blocker_id r = blocker) (user_blocks db))))"

definition UserBlockTable_blocked_or_blocking :: "bool \<Rightarrow> uid \<Rightarrow> rel_db \<Rightarrow> uid list" where
  "UserBlockTable_blocked_or_blocking ok uid db =
     (if \<not> ok then []
      else remdups
        (map ub_blocked_id (filter (\<lambda>r. ub_blocker_id r = uid) (user_blocks db)) @
         map ub_blocker_id (filter (\<lambda>r. ub_blocked_id r = uid) (user_blocks db))))"

section \<open>Behaviour of the DAO methods\<close>

lemma rel_key_new [simp]: "rel_key (new_relation a b now) = (a, b)"
  by (simp add: rel_key_def new_relation_def)

lemma rel_key_status [simp]: "rel_key (r\<lparr>rel_status := st, rel_update_time := t\<rparr>) = rel_key r"
  by (simp add: rel_key_def)

lemma rel_status_new [simp]: "rel_status (new_relation a b now) = Rel_NORMAL"
  by (simp add: new_relation_def)

text \<open>The relation rows seen as a partial map from ordered pairs to status.\<close>

definition rel_map :: "rel_db \<Rightarrow> uid \<times> uid \<Rightarrow> relation_status option" where
  "rel_map db k = map_option rel_status (select_key rel_key k (relations db))"

lemma normal_row_rel_map:
  assumes "keys_distinct rel_key (relations db)"
  shows "normal_row a b (relations db) \<longleftrightarrow> rel_map db (a, b) = Some Rel_NORMAL"
proof
  assume "normal_row a b (relations db)"
  then obtain r where r: "r \<in> set (relations db)" "rel_key r = (a, b)" "rel_status r = Rel_NORMAL"
    by (auto simp: normal_row_def query_one_ex)
  then have "select_key rel_key (a, b) (relations db) = Some r"
    using select_key_mem [OF assms r(1)] by simp
  with r show "rel_map db (a, b) = Some Rel_NORMAL" by (simp add: rel_map_def)
next
  assume "rel_map db (a, b) = Some Rel_NORMAL"
  then show "normal_row a b (relations db)"
    by (auto simp: rel_map_def normal_row_def query_one_ex dest!: select_key_SomeD)
qed

lemma RelationTable_exists_rel_map:
  "keys_distinct rel_key (relations db) \<Longrightarrow>
    RelationTable_exists ok uid pid db \<longleftrightarrow>
      ok \<and> rel_map db (uid, pid) = Some Rel_NORMAL \<and> rel_map db (pid, uid) = Some Rel_NORMAL"
  by (simp add: RelationTable_exists_def normal_row_rel_map)

lemma RelationTable_friends_rel_map:
  assumes "keys_distinct rel_key (relations db)"
  shows "p \<in> set (RelationTable_friends True u db) \<longleftrightarrow> rel_map db (u, p) = Some Rel_NORMAL"
  using normal_row_rel_map [OF assms, of u p]
  by (auto simp: RelationTable_friends_def normal_row_def query_one_ex rel_key_def image_iff)

lemma RelationTable_insert_result:
  assumes "uid \<noteq> pid"
  shows "RelationTable_insert ok now uid pid db =
    (if ok \<and> rel_map db (uid, pid) = None \<and> rel_map db (pid, uid) = None
     then (True, db\<lparr>relations := relations db @ [new_relation uid pid now, new_relation pid uid now]\<rparr>)
     else (False, db))"
  using assms persist_all_Some_iff [of rel_key "[new_relation uid pid now, new_relation pid uid now]"
      "relations db"]
    persist_all_None_iff [of rel_key "[new_relation uid pid now, new_relation pid uid now]"
      "relations db"]
  by (auto simp: RelationTable_insert_def Let_def rel_map_def select_key_None split: option.splits)

lemma rel_map_insert:
  assumes "RelationTable_insert ok now uid pid db = (True, db')" and "uid \<noteq> pid"
  shows "rel_map db' = (rel_map db)((uid, pid) \<mapsto> Rel_NORMAL, (pid, uid) \<mapsto> Rel_NORMAL)"
proof
  fix k
  from assms have "db' = db\<lparr>relations := relations db @ [new_relation uid pid now, new_relation pid uid now]\<rparr>"
    and "rel_map db (uid, pid) = None" and "rel_map db (pid, uid) = None"
    by (auto simp: RelationTable_insert_result split: if_splits)
  with assms(2) show
    "rel_map db' k = ((rel_map db)((uid, pid) \<mapsto> Rel_NORMAL, (pid, uid) \<mapsto> Rel_NORMAL)) k"
    by (auto simp: rel_map_def select_key_append split: option.splits)
qed

lemma rel_map_soft_delete:
  "map_option rel_status (select_key rel_key k (soft_delete now a b rs)) =
     (if k = (a, b) then map_option (\<lambda>_. Rel_DELETED) (select_key rel_key k rs)
      else map_option rel_status (select_key rel_key k rs))"
  by (simp add: soft_delete_def relation_table.sel_upd option.map_comp comp_def)

lemma soft_delete_None [simp]:
  "select_key rel_key k (soft_delete now a b rs) = None \<longleftrightarrow> select_key rel_key k rs = None"
  by (simp add: soft_delete_def relation_table.sel_upd)

lemma rel_map_remove:
  assumes "RelationTable_remove ok now uid pid db = (True, db')" and "uid \<noteq> pid"
  shows "rel_map db' k =
    (if k = (uid, pid) \<or> k = (pid, uid) then map_option (\<lambda>_. Rel_DELETED) (rel_map db k)
     else rel_map db k)"
proof -
  from assms have db': "db' = db\<lparr>relations :=
      soft_delete now pid uid (soft_delete now uid pid (relations db))\<rparr>"
    by (simp add: RelationTable_remove_def split: if_splits)
  from assms(2) show ?thesis
    by (auto simp: rel_map_def db' soft_delete_def relation_table.sel_upd option.map_comp comp_def)
qed

lemma keys_distinct_soft_delete [simp]:
  "keys_distinct rel_key (soft_delete now a b rs) = keys_distinct rel_key rs"
  by (simp add: soft_delete_def update_key_def keys_distinct_update_where)

text \<open>Frame lemmas: which tables an operation writes.\<close>

lemma RelationTable_insert_frame [frame_simps]:
  "friend_applies (snd (RelationTable_insert ok now u p db)) = friend_applies db"
  "user_blocks (snd (RelationTable_insert ok now u p db)) = user_blocks db"
  by (auto simp: RelationTable_insert_def Let_def split: option.splits)

lemma RelationTable_remove_frame [frame_simps]:
  "friend_applies (snd (RelationTable_remove ok now u p db)) = friend_applies db"
  "user_blocks (snd (RelationTable_remove ok now u p db)) = user_blocks db"
  by (auto simp: RelationTable_remove_def)

lemma FriendApplyTable_insert_frame [frame_simps]:
  "relations (snd (FriendApplyTable_insert ok now ev db)) = relations db"
  "user_blocks (snd (FriendApplyTable_insert ok now ev db)) = user_blocks db"
  by (auto simp: FriendApplyTable_insert_def split: option.splits)

lemma FriendApplyTable_update_status_frame [frame_simps]:
  "relations (snd (FriendApplyTable_update_status ok now eid st db)) = relations db"
  "user_blocks (snd (FriendApplyTable_update_status ok now eid st db)) = user_blocks db"
  by (auto simp: FriendApplyTable_update_status_def split: option.splits)

lemma UserBlockTable_insert_frame [frame_simps]:
  "relations (snd (UserBlockTable_insert ok now a b db)) = relations db"
  "friend_applies (snd (UserBlockTable_insert ok now a b db)) = friend_applies db"
  by (auto simp: UserBlockTable_insert_def split: option.splits)

lemma UserBlockTable_remove_frame [frame_simps]:
  "relations (snd (UserBlockTable_remove ok a b db)) = relations db"
  "friend_applies (snd (UserBlockTable_remove ok a b db)) = friend_applies db"
  by (auto simp: UserBlockTable_remove_def)

lemma is_blocked_iff:
  "UserBlockTable_is_blocked ok a b db \<longleftrightarrow> ok \<and> (a, b) \<in> ub_key ` set (user_blocks db)"
  by (simp add: UserBlockTable_is_blocked_def select_key_None)

lemma is_blocked_after_insert:
  "UserBlockTable_insert ok now a b db = (True, db') \<Longrightarrow> UserBlockTable_is_blocked True a b db'"
  by (auto simp: UserBlockTable_insert_def is_blocked_iff ub_key_def persist_def
      split: if_splits option.splits)

lemma is_blocked_after_remove:
  "UserBlockTable_remove ok a b db = (True, db') \<Longrightarrow>
    UserBlockTable_is_blocked True x y db' \<longleftrightarrow>
      UserBlockTable_is_blocked True x y db \<and> (x, y) \<noteq> (a, b)"
  by (auto simp: UserBlockTable_remove_def is_blocked_iff image_filter_key split: if_splits)

end
