(* ===== verification/Proto.thy ===== *)
theory Proto
  imports Rpc
begin

text \<open>
  The protobuf messages that cross service boundaries (proto/conversation). An enum field
  of proto3 is open, so where the code casts between an enum of the database schema and
  one of the protocol the model keeps the numeric value.
\<close>

datatype conversation_type_p = CONVERSATION_TYPE_UNSPECIFIED | P_PRIVATE | P_GROUP | P_CHANNEL

record message_preview =
  mp_message_id :: int
  mp_sender_id :: uid
  mp_message_type :: int
  mp_sent_at_ms :: int
  mp_status :: int

record self_member_info =
  sm_role :: int
  sm_joined_at_ms :: int
  sm_is_muted :: bool
  sm_is_pinned :: bool
  sm_pin_time_ms :: int
  sm_is_visible :: bool
  sm_last_read_seq :: u64
  sm_unread_count :: u64
  sm_draft :: "string option"

record conversation_p =
  cp_conversation_id :: cid
  cp_type :: int
  cp_name :: string
  cp_avatar_url :: string
  cp_description :: "string option"
  cp_created_at_ms :: int
  cp_member_count :: int
  cp_status :: int
  cp_last_message :: "message_preview option"
  cp_self :: "self_member_info option"

text \<open>A protobuf message whose fields all have their default value.\<close>

definition empty_conversation_p :: conversation_p where
  "empty_conversation_p = \<lparr>cp_conversation_id = [], cp_type = 0, cp_name = [], cp_avatar_url = [],
     cp_description = None, cp_created_at_ms = 0, cp_member_count = 0, cp_status = 0,
     cp_last_message = None, cp_self = None\<rparr>"

definition empty_self_member_info :: self_member_info where
  "empty_self_member_info = \<lparr>sm_role = 0, sm_joined_at_ms = 0, sm_is_muted = False,
     sm_is_pinned = False, sm_pin_time_ms = 0, sm_is_visible = False, sm_last_read_seq = 0,
     sm_unread_count = 0, sm_draft = None\<rparr>"

record create_conversation_req =
  ccq_request_id :: string
  ccq_type :: conversation_type_p
  ccq_name :: "string option"
  ccq_avatar_url :: "string option"
  ccq_description :: "string option"
  ccq_member_ids :: "uid list"

fun type_p_code :: "conversation_type_p \<Rightarrow> int" where
  "type_p_code CONVERSATION_TYPE_UNSPECIFIED = 0"
| "type_p_code P_PRIVATE = 1"
| "type_p_code P_GROUP = 2"
| "type_p_code P_CHANNEL = 3"

end
