(* ===== verification/Relationship.thy ===== *)
theory Relationship
  imports Relation_Dao Proto
begin

text \<open>
  RelationshipServiceImpl (relationship/source/relationship_server.h): the nine RPC
  handlers, each as the body that \<open>HANDLE_RPC\<close> runs. The environment of a request
  holds the clock, the fresh uuid, the call oracle, the reply of
  \<open>IdentityService.GetMultiUserInfo\<close> and the Elasticsearch user search; the call to
  \<open>ConversationService.CreateConversation\<close> is an argument of \<open>HandleFriendRequest\<close>
  that acts on the conversation service's own state.
\<close>

record rel_env =
  re_now :: time
  re_uuid :: string
  re_up :: calls
  re_identity :: "string \<Rightarrow> uid list \<Rightarrow> (uid \<times> user_info) list rpc_outcome"
  re_es_search :: "string \<Rightarrow> uid list \<Rightarrow> uid list"
  re_conv_channel :: bool

section \<open>Reading handlers\<close>

definition fetch_users :: "rel_env \<Rightarrow> string \<Rightarrow> uid list \<Rightarrow> (uid \<times> user_info) list option" where
  "fetch_users e rid uids = rpc_ok (re_identity e rid uids)"

text \<open>The lookup every reading handler starts with: an empty set of ids asks nobody.\<close>

definition users_or_unavailable ::
  "rel_env \<Rightarrow> string \<Rightarrow> uid list \<Rightarrow> exn + (uid \<times> user_info) list" where
  "users_or_unavailable e rid uids =
     (if uids = [] then Inr []
      else case fetch_users e rid uids of
             None \<Rightarrow> Inl (ServiceError kSystemUnavailable ''identity service unavailable'')
           | Some m \<Rightarrow> Inr m)"

definition ListFriends ::
  "rel_env \<Rightarrow> string \<Rightarrow> auth_context \<Rightarrow> rel_db \<Rightarrow> exn + user_info list \<times> page_response" where
  "ListFriends e rid auth db =
     (let friend_ids = RelationTable_friends (re_up e 0 0) (user_id auth) db;
          uid_set = remdups friend_ids
      in case users_or_unavailable e rid uid_set of
           Inl x \<Rightarrow> Inl x
         | Inr user_map \<Rightarrow> Inr (map snd user_map,
             \<lparr>pr_has_more = False, pr_next_cursor = [], pr_total_count = int (length friend_ids)\<rparr>))"

definition SearchFriends ::
  "rel_env \<Rightarrow> string \<Rightarrow> auth_context \<Rightarrow> string \<Rightarrow> rel_db \<Rightarrow> exn + user_info list" where
  "SearchFriends e rid auth search_key db =
     (let exclude = [user_id auth]
            @ RelationTable_friends (re_up e 0 0) (user_id auth) db
            @ UserBlockTable_blocked_or_blocking (re_up e 1 0) (user_id auth) db;
          hits = re_es_search e search_key exclude
      in case users_or_unavailable e rid (remdups hits) of
           Inl x \<Rightarrow> Inl x
         | Inr user_map \<Rightarrow> Inr (map snd user_map))"

definition ListPendingRequests ::
  "rel_env \<Rightarrow> string \<Rightarrow> auth_context \<Rightarrow> rel_db \<Rightarrow> exn + (string \<times> user_info) list" where
  "ListPendingRequests e rid auth db =
     (let pendings = FriendApplyTable_select_pending (re_up e 0 0) (user_id auth) db
      in case users_or_unavailable e rid (remdups (map fa_user_id pendings)) of
           Inl x \<Rightarrow> Inl x
         | Inr user_map \<Rightarrow> Inr (List.map_filter
             (\<lambda>row. map_option (Pair (fa_event_id row)) (map_of user_map (fa_user_id row))) pendings))"

definition blocked_limit :: "page_request \<Rightarrow> int" where
  "blocked_limit pq = (if pq_limit pq > 0 then pq_limit pq else 50)"

text \<open>\<open>std::stoi\<close> inside \<open>try ... catch (...)\<close>: any failure gives offset 0.\<close>

definition blocked_offset :: "page_request \<Rightarrow> int" where
  "blocked_offset pq =
     (if pq_cursor pq = [] then 0
      else case stoi (pq_cursor pq) of Inr n \<Rightarrow> n | Inl _ \<Rightarrow> 0)"

definition ListBlockedUsers ::
  "rel_env \<Rightarrow> string \<Rightarrow> auth_context \<Rightarrow> page_request \<Rightarrow> rel_db \<Rightarrow> exn + user_info list \<times> page_response"
where
  "ListBlockedUsers e rid auth pq db =
     (let limit = blocked_limit pq;
          offset = blocked_offset pq;
          blocked_ids = UserBlockTable_list_blocked (re_up e 0 0) (user_id auth) offset limit db
      in case users_or_unavailable e rid (remdups blocked_ids) of
           Inl x \<Rightarrow> Inl x
         | Inr user_map \<Rightarrow>
             (let total = UserBlockTable_count_blocked (re_up e 1 0) (user_id auth) db;
                  has_more = offset + limit < total
              in Inr (List.map_filter (map_of user_map) blocked_ids,
                   \<lparr>pr_has_more = has_more,
                    pr_next_cursor = (if has_more then int_to_string (offset + limit) else []),
                    pr_total_count = total\<rparr>)))"

section \<open>Writing handlers\<close>

definition hours72 :: time where
  "hours72 = 72 * 3600 * 1000"

definition SendFriendRequest ::
  "rel_env \<Rightarrow> auth_context \<Rightarrow> uid \<Rightarrow> rel_db \<Rightarrow> (exn + string) \<times> rel_db" where
  "SendFriendRequest e auth pid db =
     (let uid = user_id auth; up = re_up e; now = re_now e in
      if pid = [] \<or> uid = pid
      then (Inl (ServiceError kSystemInvalidArgument ''invalid respondent_id''), db)
      else if UserBlockTable_is_blocked (up 0 0) pid uid db
      then (Inl (ServiceError kRelationshipBlocked ''blocked by peer''), db)
      else if RelationTable_exists (up 1 0) uid pid db
      then (Inl (ServiceError kRelationshipAlreadyFriends ''already friends''), db)
      else if FriendApplyTable_exists_pending (up 2 0) uid pid db
      then (Inl (ServiceError kRelationshipRequestPending ''friend request already pending''), db)
      else if (case FriendApplyTable_select_latest (up 3 0) uid pid db of
                 None \<Rightarrow> False
               | Some r \<Rightarrow> fa_status r = REJECTED \<and> now - fa_create_time r < hours72)
      then (Inl (ServiceError kRelationshipRequestPending ''rejected within 72h''), db)
      else let eid = re_uuid e;
               ev = \<lparr>fa_event_id = eid, fa_user_id = uid, fa_peer_id = pid, fa_status = PENDING,
                     fa_create_time = now, fa_handle_time = None\<rparr>
           in case FriendApplyTable_insert (up 4 0) now ev db of
                (False, db') \<Rightarrow> (Inl (ServiceError kSystemInternalError ''insert friend_apply failed''), db')
              | (True, db') \<Rightarrow> (Inr eid, db'))"

definition RemoveFriend :: "rel_env \<Rightarrow> auth_context \<Rightarrow> uid \<Rightarrow> rel_db \<Rightarrow> (exn + unit) \<times> rel_db" where
  "RemoveFriend e auth pid db =
     (let uid = user_id auth; up = re_up e in
      if pid = [] \<or> uid = pid
      then (Inl (ServiceError kSystemInvalidArgument ''invalid peer_id''), db)
      else if \<not> RelationTable_exists (up 0 0) uid pid db
      then (Inl (ServiceError kRelationshipNotFriends ''not friends''), db)
      else case RelationTable_remove (up 1 0) (re_now e) uid pid db of
             (False, db') \<Rightarrow> (Inl (ServiceError kSystemInternalError ''remove relation failed''), db')
           | (True, db') \<Rightarrow> (Inr (), db'))"

definition BlockUser :: "rel_env \<Rightarrow> auth_context \<Rightarrow> uid \<Rightarrow> rel_db \<Rightarrow> (exn + unit) \<times> rel_db" where
  "BlockUser e auth pid db =
     (let uid = user_id auth in
      if pid = [] \<or> uid = pid
      then (Inl (ServiceError kSystemInvalidArgument ''invalid peer_id''), db)
      else case UserBlockTable_insert (re_up e 0 0) (re_now e) uid pid db of
             (False, db') \<Rightarrow> (Inl (ServiceError kSystemInternalError ''insert user_block failed''), db')
           | (True, db') \<Rightarrow> (Inr (), db'))"

definition UnblockUser :: "rel_env \<Rightarrow> auth_context \<Rightarrow> uid \<Rightarrow> rel_db \<Rightarrow> (exn + unit) \<times> rel_db" where
  "UnblockUser e auth pid db =
     (let uid = user_id auth in
      if pid = [] \<or> uid = pid
      then (Inl (ServiceError kSystemInvalidArgument ''invalid peer_id''), db)
      else case UserBlockTable_remove (re_up e 0 0) uid pid db of
             (False, db') \<Rightarrow> (Inl (ServiceError kSystemInternalError ''remove user_block failed''), db')
           | (True, db') \<Rightarrow> (Inr (), db'))"

type_synonym 'w conv_rpc = "create_conversation_req \<Rightarrow> 'w \<Rightarrow> conversation_p option rpc_outcome \<times> 'w"

definition private_conversation_req :: "string \<Rightarrow> uid \<Rightarrow> create_conversation_req" where
  "private_conversation_req rid peer = \<lparr>ccq_request_id = rid, ccq_type = P_PRIVATE,
     ccq_name = Some [], ccq_avatar_url = None, ccq_description = None, ccq_member_ids = [peer]\<rparr>"

definition HandleFriendRequest ::
  "rel_env \<Rightarrow> 'w conv_rpc \<Rightarrow> string \<Rightarrow> auth_context \<Rightarrow> string \<Rightarrow> uid \<Rightarrow> bool \<Rightarrow> rel_db \<times> 'w \<Rightarrow>
     (exn + string option) \<times> rel_db \<times> 'w" where
  "HandleFriendRequest e conv rid auth eid apply_uid agree s =
     (case s of (db, w) \<Rightarrow>
      let peer_uid = user_id auth; up = re_up e; now = re_now e in
      if eid = [] \<or> apply_uid = [] \<or> peer_uid = apply_uid
      then (Inl (ServiceError kSystemInvalidArgument ''invalid event_id / apply_user_id''), db, w)
      else case FriendApplyTable_select_by_event_id (up 0 0) eid db of
        None \<Rightarrow> (Inl (ServiceError kSystemInvalidArgument ''event not found''), db, w)
      | Some ev \<Rightarrow>
          if fa_user_id ev \<noteq> apply_uid \<or> fa_peer_id ev \<noteq> peer_uid
          then (Inl (ServiceError kSystemInvalidArgument ''event not found''), db, w)
          else if fa_status ev \<noteq> PENDING
          then (Inl (ServiceError kRelationshipRequestPending ''event not pending''), db, w)
          else if \<not> agree
          then (case FriendApplyTable_update_status (up 1 0) now eid REJECTED db of
                  (False, db') \<Rightarrow>
                    (Inl (ServiceError kSystemInternalError ''update apply rejected failed''), db', w)
                | (True, db') \<Rightarrow> (Inr None, db', w))
          else (case FriendApplyTable_update_status (up 1 0) now eid ACCEPTED db of
                  (False, db1) \<Rightarrow>
                    (Inl (ServiceError kSystemInternalError ''update apply accepted failed''), db1, w)
                | (True, db1) \<Rightarrow>
                    (case RelationTable_insert (up 2 0) now peer_uid apply_uid db1 of
                       (False, db2) \<Rightarrow>
                         (Inl (ServiceError kSystemInternalError ''insert relation failed''), db2, w)
                     | (True, db2) \<Rightarrow>
                         if \<not> re_conv_channel e then (Inr None, db2, w)
                         else (case conv (private_conversation_req rid apply_uid) w of
                                 (out, w') \<Rightarrow>
                                   (case rpc_ok out of
                                      None \<Rightarrow> (Inr None, db2, w')
                                    | Some None \<Rightarrow> (Inr None, db2, w')
                                    | Some (Some c) \<Rightarrow> (Inr (Some (cp_conversation_id c)), db2, w'))))))"

section \<open>The service as a state machine\<close>

datatype rel_request =
  R_ListFriends | R_SearchFriends string | R_ListPending | R_ListBlocked page_request
| R_SendFriend uid | R_HandleFriend string uid bool | R_RemoveFriend uid
| R_BlockUser uid | R_UnblockUser uid

text \<open>One request through \<open>HANDLE_RPC\<close>; the response payload is dropped, the header kept.\<close>

fun rel_body :: "rel_env \<Rightarrow> 'w conv_rpc \<Rightarrow> string \<Rightarrow> rel_request \<Rightarrow> auth_context \<Rightarrow> rel_db \<times> 'w \<Rightarrow>
    (exn + unit) \<times> rel_db \<times> 'w" where
  "rel_body e conv rid R_ListFriends auth (db, w) =
     (map_sum id (\<lambda>_. ()) (ListFriends e rid auth db), db, w)"
| "rel_body e conv rid (R_SearchFriends k) auth (db, w) =
     (map_sum id (\<lambda>_. ()) (SearchFriends e rid auth k db), db, w)"
| "rel_body e conv rid R_ListPending auth (db, w) =
     (map_sum id (\<lambda>_. ()) (ListPendingRequests e rid auth db), db, w)"
| "rel_body e conv rid (R_ListBlocked pq) auth (db, w) =
     (map_sum id (\<lambda>_. ()) (ListBlockedUsers e rid auth pq db), db, w)"
| "rel_body e conv rid (R_SendFriend pid) auth (db, w) =
     (case SendFriendRequest e auth pid db of (r, db') \<Rightarrow> (map_sum id (\<lambda>_. ()) r, db', w))"
| "rel_body e conv rid (R_HandleFriend eid u agree) auth (db, w) =
     (case HandleFriendRequest e conv rid auth eid u agree (db, w) of
        (r, s') \<Rightarrow> (map_sum id (\<lambda>_. ()) r, s'))"
| "rel_body e conv rid (R_RemoveFriend pid) auth (db, w) =
     (case RemoveFriend e auth pid db of (r, db') \<Rightarrow> (r, db', w))"
| "rel_body e conv rid (R_BlockUser pid) auth (db, w) =
     (case BlockUser e auth pid db of (r, db') \<Rightarrow> (r, db', w))"
| "rel_body e conv rid (R_UnblockUser pid) auth (db, w) =
     (case UnblockUser e auth pid db of (r, db') \<Rightarrow> (r, db', w))"

definition rel_rpc :: "rel_env \<Rightarrow> 'w conv_rpc \<Rightarrow> string \<Rightarrow> rpc_metadata option \<Rightarrow> rel_request \<Rightarrow>
    rel_db \<times> 'w \<Rightarrow> (response_header \<times> unit option) \<times> rel_db \<times> 'w" where
  "rel_rpc e conv rid md q s = handle_rpc md rid (rel_body e conv rid q) s"

definition empty_rel_db :: rel_db where
  "empty_rel_db = \<lparr>relations = [], friend_applies = [], user_blocks = []\<rparr>"

inductive rel_step :: "rel_db \<times> 'w \<Rightarrow> rel_db \<times> 'w \<Rightarrow> bool" where
  rel_request: "snd (rel_rpc e conv rid md q s) = t \<Longrightarrow> rel_step s t"

inductive_cases rel_stepE: "rel_step s t"

section \<open>The invariant of the tables\<close>

definition accepted_between :: "uid \<Rightarrow> uid \<Rightarrow> rel_db \<Rightarrow> bool" where
  "accepted_between a b db =
     (\<exists>r \<in> set (friend_applies db). fa_status r = ACCEPTED \<and>
        ((fa_user_id r, fa_peer_id r) = (a, b) \<or> (fa_user_id r, fa_peer_id r) = (b, a)))"

text \<open>
  Unique keys; relation rows come in symmetric pairs with equal status and never relate a
  user to itself; every relation row rests on an accepted application between the two users.
\<close>

definition rel_inv :: "rel_db \<Rightarrow> bool" where
  "rel_inv db =
     (keys_distinct rel_key (relations db) \<and> keys_distinct fa_event_id (friend_applies db) \<and>
      keys_distinct ub_key (user_blocks db) \<and>
      (\<forall>a b. rel_map db (a, b) = rel_map db (b, a)) \<and>
      (\<forall>a. rel_map db (a, a) = None) \<and>
      (\<forall>a b. rel_map db (a, b) \<noteq> None \<longrightarrow> accepted_between a b db))"

lemma rel_invD:
  assumes "rel_inv db"
  shows "keys_distinct rel_key (relations db)" "keys_distinct fa_event_id (friend_applies db)"
    "keys_distinct ub_key (user_blocks db)" "rel_map db (a, b) = rel_map db (b, a)"
    "rel_map db (a, a) = None" "rel_map db (a, b) = Some st \<Longrightarrow> accepted_between a b db"
  using assms by (auto simp: rel_inv_def)

lemma rel_inv_empty: "rel_inv empty_rel_db"
  by (simp add: rel_inv_def empty_rel_db_def rel_map_def)

lemma rel_map_cong: "relations db' = relations db \<Longrightarrow> rel_map db' = rel_map db"
  by (simp add: rel_map_def fun_eq_iff)

lemma accepted_between_cong:
  "friend_applies db' = friend_applies db \<Longrightarrow> accepted_between a b db' = accepted_between a b db"
  by (simp add: accepted_between_def)

lemma accepted_between_sym: "accepted_between a b db = accepted_between b a db"
  by (auto simp: accepted_between_def)

lemma rel_inv_relation_insert:
  assumes inv: "rel_inv db" and ins: "RelationTable_insert ok now u p db = (b, db')"
    and "u \<noteq> p" and acc: "accepted_between u p db"
  shows "rel_inv db'"
proof (cases b)
  case False
  with ins have "db' = db"
    by (auto simp: RelationTable_insert_def Let_def split: if_splits option.splits)
  with inv show ?thesis by simp
next
  case True
  with ins have m: "rel_map db' = (rel_map db)((u, p) \<mapsto> Rel_NORMAL, (p, u) \<mapsto> Rel_NORMAL)"
    using rel_map_insert [of ok now u p db db'] \<open>u \<noteq> p\<close> by simp
  from ins True obtain rs where
    rs: "persist_all rel_key [new_relation u p now, new_relation p u now] (relations db) = Some rs"
    and db': "db' = db\<lparr>relations := rs\<rparr>"
    by (auto simp: RelationTable_insert_def Let_def split: if_splits option.splits)
  have "keys_distinct rel_key (relations db')"
    using keys_distinct_persist_all [OF rel_invD(1) [OF inv] rs] db' by simp
  moreover have "accepted_between x y db' = accepted_between x y db" for x y
    by (rule accepted_between_cong) (simp add: db')
  moreover have "accepted_between p u db"
    using acc by (simp add: accepted_between_sym)
  moreover have "rel_map db' (x, y) = rel_map db' (y, x)" for x y
    using rel_invD(4) [OF inv, of x y] \<open>u \<noteq> p\<close> by (auto simp: m)
  moreover have "rel_map db' (x, y) \<noteq> None \<Longrightarrow> accepted_between x y db" for x y
    using rel_invD(6) [OF inv, of x y] acc calculation(3) \<open>u \<noteq> p\<close>
    by (auto simp: m split: if_splits)
  moreover have "rel_map db' (x, x) = None" for x
    using rel_invD(5) [OF inv, of x] \<open>u \<noteq> p\<close> by (simp add: m)
  ultimately show ?thesis
    using rel_invD(2,3) [OF inv] by (simp add: rel_inv_def db')
qed

lemma rel_inv_relation_remove:
  assumes inv: "rel_inv db" and rm: "RelationTable_remove ok now u p db = (b, db')" and "u \<noteq> p"
  shows "rel_inv db'"
proof (cases b)
  case False
  with rm have "db' = db" by (auto simp: RelationTable_remove_def split: if_splits)
  with inv show ?thesis by simp
next
  case True
  with rm have m: "rel_map db' k = (if k = (u, p) \<or> k = (p, u)
      then map_option (\<lambda>_. Rel_DELETED) (rel_map db k) else rel_map db k)" for k
    using rel_map_remove [of ok now u p db db'] \<open>u \<noteq> p\<close> by simp
  from rm have "keys_distinct rel_key (relations db')"
    using rel_invD(1) [OF inv] by (auto simp: RelationTable_remove_def split: if_splits)
  moreover from rm have fr: "friend_applies db' = friend_applies db" "user_blocks db' = user_blocks db"
    using RelationTable_remove_frame [of ok now u p db] by auto
  moreover have "accepted_between x y db' = accepted_between x y db" for x y
    by (rule accepted_between_cong) (rule fr)
  ultimately show ?thesis
    using inv \<open>u \<noteq> p\<close> by (auto simp: rel_inv_def m)
qed

lemma rel_inv_apply_insert:
  assumes inv: "rel_inv db" and ins: "FriendApplyTable_insert ok now ev db = (b, db')"
  shows "rel_inv db'"
proof -
  have rel: "rel_map db' = rel_map db"
    by (rule rel_map_cong) (use ins FriendApplyTable_insert_frame [of ok now ev db] in auto)
  have blk: "relations db' = relations db" "user_blocks db' = user_blocks db"
    using ins FriendApplyTable_insert_frame [of ok now ev db] by auto
  have "keys_distinct fa_event_id (friend_applies db')"
    using ins inv
    by (auto simp: FriendApplyTable_insert_def rel_inv_def split: if_splits option.splits
        intro: apply_table.wf_ins)
  moreover have "accepted_between x y db \<Longrightarrow> accepted_between x y db'" for x y
    using ins by (auto simp: FriendApplyTable_insert_def accepted_between_def
        split: if_splits option.splits dest!: persist_SomeD)
  ultimately show ?thesis
    using inv by (simp add: rel_inv_def rel blk)
qed

lemma accepted_between_update_status:
  assumes "accepted_between a b db" and "keys_distinct fa_event_id (friend_applies db)"
    and "select_key fa_event_id eid (friend_applies db) = Some ev" and "fa_status ev = PENDING"
    and "FriendApplyTable_update_status ok now eid st db = (res, db')"
  shows "accepted_between a b db'"
proof -
  from assms(1) obtain r where r: "r \<in> set (friend_applies db)" "fa_status r = ACCEPTED"
    "(fa_user_id r, fa_peer_id r) = (a, b) \<or> (fa_user_id r, fa_peer_id r) = (b, a)"
    by (auto simp: accepted_between_def)
  have "fa_event_id r \<noteq> eid"
    using select_key_mem [OF assms(2) r(1)] assms(3,4) r(2) by auto
  with r(1) have "r \<in> set (update_key fa_event_id eid f (friend_applies db))" for f
    by (auto simp: update_key_def set_update_where intro: image_eqI [where x = r])
  with r(1) assms(5) have "r \<in> set (friend_applies db')"
    by (auto simp: FriendApplyTable_update_status_def split: if_splits option.splits)
  with r(2,3) show ?thesis by (auto simp: accepted_between_def)
qed

lemma rel_inv_update_status:
  assumes inv: "rel_inv db" and "select_key fa_event_id eid (friend_applies db) = Some ev"
    and "fa_status ev = PENDING"
    and us: "FriendApplyTable_update_status ok now eid st db = (res, db')"
  shows "rel_inv db'"
proof -
  have rel: "rel_map db' = rel_map db"
    by (rule rel_map_cong) (use us FriendApplyTable_update_status_frame [of ok now eid st db] in auto)
  have blk: "relations db' = relations db" "user_blocks db' = user_blocks db"
    using us FriendApplyTable_update_status_frame [of ok now eid st db] by auto
  have "keys_distinct fa_event_id (friend_applies db')"
    using us rel_invD(2) [OF inv]
    by (auto simp: FriendApplyTable_update_status_def update_key_def keys_distinct_update_where
        split: if_splits option.splits)
  then show ?thesis
    using inv accepted_between_update_status [OF _ rel_invD(2) [OF inv] assms(2,3) us]
    by (simp add: rel_inv_def rel blk)
qed

lemma rel_inv_block:
  assumes inv: "rel_inv db" and "relations db' = relations db"
    and "friend_applies db' = friend_applies db" and "keys_distinct ub_key (user_blocks db')"
  shows "rel_inv db'"
  using assms rel_map_cong [OF assms(2)] by (simp add: rel_inv_def accepted_between_def)

lemma keys_distinct_block_insert:
  "rel_inv db \<Longrightarrow> keys_distinct ub_key (user_blocks (snd (UserBlockTable_insert ok now a b db)))"
  by (auto simp: UserBlockTable_insert_def rel_inv_def split: option.splits
      intro: block_table.wf_ins)

lemma keys_distinct_block_remove:
  "rel_inv db \<Longrightarrow> keys_distinct ub_key (user_blocks (snd (UserBlockTable_remove ok a b db)))"
  by (simp add: UserBlockTable_remove_def rel_inv_def keys_distinct_filter)

section \<open>Every handler keeps the invariant\<close>

lemma SendFriendRequest_inv: "rel_inv db \<Longrightarrow> rel_inv (snd (SendFriendRequest e auth pid db))"
  by (auto simp: SendFriendRequest_def Let_def split: prod.splits bool.splits
      intro: rel_inv_apply_insert)

lemma RemoveFriend_inv: "rel_inv db \<Longrightarrow> rel_inv (snd (RemoveFriend e auth pid db))"
  by (auto simp: RemoveFriend_def Let_def split: prod.splits bool.splits
      intro: rel_inv_relation_remove)

lemma BlockUser_inv: "rel_inv db \<Longrightarrow> rel_inv (snd (BlockUser e auth pid db))"
  using rel_inv_block [OF _ UserBlockTable_insert_frame keys_distinct_block_insert]
  by (auto simp: BlockUser_def Let_def split: prod.splits bool.splits) (metis snd_conv)+

lemma UnblockUser_inv: "rel_inv db \<Longrightarrow> rel_inv (snd (UnblockUser e auth pid db))"
  using rel_inv_block [OF _ UserBlockTable_remove_frame keys_distinct_block_remove]
  by (auto simp: UnblockUser_def Let_def split: prod.splits bool.splits) (metis snd_conv)+

lemma accepted_after_update:
  assumes "select_key fa_event_id eid (friend_applies db) = Some ev"
    and "FriendApplyTable_update_status ok now eid ACCEPTED db = (True, db')"
  shows "accepted_between (fa_user_id ev) (fa_peer_id ev) db'"
proof -
  from assms have "select_key fa_event_id eid (friend_applies db') =
      Some (ev\<lparr>fa_status := ACCEPTED, fa_handle_time := Some now\<rparr>)"
    by (auto simp: FriendApplyTable_update_status_def apply_table.sel_upd split: if_splits)
  then have "ev\<lparr>fa_status := ACCEPTED, fa_handle_time := Some now\<rparr> \<in> set (friend_applies db')"
    by (rule select_key_SomeD [THEN conjunct2])
  then show ?thesis
    unfolding accepted_between_def by (rule bexI [rotated]) simp
qed

text \<open>The two ways an accepted application ends, and the only write of a rejected one.\<close>

lemma HandleFriendRequest_cases:
  assumes "HandleFriendRequest e conv rid auth eid u agree (db, w) = (r, db', w')"
  obtains (unchanged) "db' = db" "w' = w" "isl r"
  | (rejected) ev ok where "select_key fa_event_id eid (friend_applies db) = Some ev"
      "fa_status ev = PENDING" "fa_user_id ev = u" "fa_peer_id ev = user_id auth" "\<not> agree"
      "FriendApplyTable_update_status (re_up e 1 0) (re_now e) eid REJECTED db = (ok, db')"
      "w' = w" "r = (if ok then Inr None else Inl (ServiceError kSystemInternalError ''update apply rejected failed''))"
  | (accepted) ev db1 ok where "select_key fa_event_id eid (friend_applies db) = Some ev"
      "fa_status ev = PENDING" "fa_user_id ev = u" "fa_peer_id ev = user_id auth" "agree"
      "user_id auth \<noteq> u"
      "FriendApplyTable_update_status (re_up e 1 0) (re_now e) eid ACCEPTED db = (True, db1)"
      "RelationTable_insert (re_up e 2 0) (re_now e) (user_id auth) u db1 = (ok, db')"
      "isl r = (\<not> ok)"
proof -
  show ?thesis
  proof (cases "eid = [] \<or> u = [] \<or> user_id auth = u")
    case True
    with assms show ?thesis by (intro unchanged) (auto simp: HandleFriendRequest_def Let_def)
  next
    case False
    show ?thesis
    proof (cases "FriendApplyTable_select_by_event_id (re_up e 0 0) eid db")
      case None
      with assms False show ?thesis
        by (intro unchanged) (auto simp: HandleFriendRequest_def Let_def)
    next
      case (Some ev)
      then have ev: "select_key fa_event_id eid (friend_applies db) = Some ev"
        by (auto simp: FriendApplyTable_select_by_event_id_def split: if_splits)
      show ?thesis
      proof (cases "fa_user_id ev \<noteq> u \<or> fa_peer_id ev \<noteq> user_id auth \<or> fa_status ev \<noteq> PENDING")
        case True
        with assms False Some show ?thesis
          by (intro unchanged) (auto simp: HandleFriendRequest_def Let_def split: if_splits)
      next
        case ok: False
        show ?thesis
        proof (cases agree)
          case False
          with assms \<open>\<not> (eid = [] \<or> u = [] \<or> user_id auth = u)\<close> Some ok ev show ?thesis
            by (intro rejected [of ev "\<not> isl r"]) (auto simp: HandleFriendRequest_def Let_def split: prod.splits bool.splits)
        next
          case True
          obtain b db1 where us: "FriendApplyTable_update_status (re_up e 1 0) (re_now e) eid ACCEPTED db = (b, db1)"
            by fastforce
          show ?thesis
          proof (cases b)
            case False
            with us have "db1 = db"
              by (auto simp: FriendApplyTable_update_status_def ev split: if_splits)
            with False assms \<open>\<not> (eid = [] \<or> u = [] \<or> user_id auth = u)\<close> Some ok True us show ?thesis
              by (intro unchanged) (auto simp: HandleFriendRequest_def Let_def)
          next
            case b: True
            with assms \<open>\<not> (eid = [] \<or> u = [] \<or> user_id auth = u)\<close> Some ok ev True us show ?thesis
              by (intro accepted [of ev db1 "\<not> isl r"])
                (auto simp: HandleFriendRequest_def Let_def
                  split: prod.splits bool.splits if_splits option.splits)
          qed
        qed
      qed
    qed
  qed
qed

lemma HandleFriendRequest_inv:
  assumes "rel_inv db"
  shows "rel_inv (fst (snd (HandleFriendRequest e conv rid auth eid u agree (db, w))))"
proof -
  obtain r db' w' where run: "HandleFriendRequest e conv rid auth eid u agree (db, w) = (r, db', w')"
    by (metis prod_cases3)
  then have "rel_inv db'"
  proof (cases rule: HandleFriendRequest_cases)
    case unchanged
    with assms show ?thesis by simp
  next
    case (rejected ev ok)
    then show ?thesis using rel_inv_update_status [OF assms] by blast
  next
    case (accepted ev db1 ok)
    have "rel_inv db1" using rel_inv_update_status [OF assms] accepted(1,2,7) by blast
    moreover have "accepted_between (user_id auth) u db1"
      using accepted_after_update [OF accepted(1,7)] accepted(3,4) by (simp add: accepted_between_sym)
    ultimately show ?thesis using rel_inv_relation_insert accepted(6,8) by blast
  qed
  with run show ?thesis by simp
qed

lemma rel_body_inv:
  assumes "rel_inv (fst s)"
  shows "rel_inv (fst (snd (rel_body e conv rid q auth s)))"
proof (cases s)
  case (Pair db w)
  with assms show ?thesis
    using SendFriendRequest_inv [of db e auth] RemoveFriend_inv [of db e auth]
      BlockUser_inv [of db e auth] UnblockUser_inv [of db e auth]
      HandleFriendRequest_inv [of db e conv rid auth]
    by (cases q) (auto split: prod.splits, (metis fst_conv snd_conv)+)
qed

definition rel_init :: "rel_db \<times> 'w \<Rightarrow> bool" where
  "rel_init s = (fst s = empty_rel_db)"

interpretation rel_system: invariant_system rel_init rel_step "\<lambda>s. rel_inv (fst s)"
proof
  fix s :: "rel_db \<times> 'w"
  assume "rel_init s"
  then show "rel_inv (fst s)" by (simp add: rel_init_def rel_inv_empty)
next
  fix s t :: "rel_db \<times> 'w"
  assume inv: "rel_inv (fst s)" and "rel_step s t"
  from this(2) show "rel_inv (fst t)"
  proof (cases rule: rel_step.cases)
    case (rel_request e conv rid md q)
    have "rel_inv (fst (snd (rel_rpc e conv rid md q s)))"
      unfolding rel_rpc_def
      by (rule handle_rpc_state [where P = "\<lambda>s. rel_inv (fst s)"]) (auto intro: rel_body_inv inv)
    with rel_request show ?thesis by simp
  qed
qed

section \<open>Friendship\<close>

text \<open>Claim C4. In every reachable state of the relationship service, whatever middleware calls
  failed on the way, friendship is symmetric and irreflexive, and two users are friends only
  if an application between them was accepted.\<close>

theorem friendship_symmetric_by_consent:
  assumes "reach rel_init rel_step s"
  shows "(p \<in> set (RelationTable_friends True u (fst s)) \<longleftrightarrow>
            u \<in> set (RelationTable_friends True p (fst s)))
       \<and> u \<notin> set (RelationTable_friends True u (fst s))
       \<and> (p \<in> set (RelationTable_friends True u (fst s)) \<longrightarrow> accepted_between u p (fst s))"
proof -
  have inv: "rel_inv (fst s)" using assms by (rule rel_system.inv_reach)
  note f = RelationTable_friends_rel_map [OF rel_invD(1) [OF inv]]
  show ?thesis
    using rel_invD(4) [OF inv, of u p] rel_invD(5) [OF inv, of u] rel_invD(6) [OF inv, of u p]
    by (auto simp: f)
qed

text \<open>A concrete run: an application from \<open>a\<close> to \<open>b\<close>, accepted by \<open>b\<close>.\<close>

definition sample_env :: "string \<Rightarrow> rel_env" where
  "sample_env eid = \<lparr>re_now = 1000, re_uuid = eid, re_up = all_up,
     re_identity = (\<lambda>_ uids. Rpc_reply (ok_header []) (map (\<lambda>u. (u,
        \<lparr>ui_user_id = u, ui_nickname = u, ui_bio = [], ui_phone = [], ui_avatar_url = []\<rparr>)) uids)),
     re_es_search = (\<lambda>k ex. filter (\<lambda>u. u \<notin> set ex) [k]), re_conv_channel = False\<rparr>"

definition sample_md :: "uid \<Rightarrow> rpc_metadata option" where
  "sample_md u = Some \<lparr>md_user_id = u, md_device_id = ''d'', md_trace_id = [], md_jwt_jti = []\<rparr>"

definition no_conv :: "unit conv_rpc" where
  "no_conv = (\<lambda>_ w. (No_channel, w))"

definition friends_db :: rel_db where
  "friends_db = \<lparr>relations = [new_relation ''b'' ''a'' 1000, new_relation ''a'' ''b'' 1000],
     friend_applies = [\<lparr>fa_event_id = ''e1'', fa_user_id = ''a'', fa_peer_id = ''b'',
        fa_status = ACCEPTED, fa_create_time = 1000, fa_handle_time = Some 1000\<rparr>],
     user_blocks = []\<rparr>"

lemmas rel_run_simps = rel_rpc_def handle_rpc_def extract_auth_def sample_md_def sample_env_def
  Let_def empty_rel_db_def UserBlockTable_is_blocked_def RelationTable_exists_def
  normal_row_def FriendApplyTable_exists_pending_def FriendApplyTable_select_latest_def
  FriendApplyTable_insert_def persist_def FriendApplyTable_select_by_event_id_def
  FriendApplyTable_update_status_def update_key_def RelationTable_insert_def rel_key_def
  new_relation_def

lemma friends_db_reachable: "reach rel_init rel_step (friends_db, ())"
proof -
  let ?s1 = "snd (rel_rpc (sample_env ''e1'') no_conv [] (sample_md ''a'') (R_SendFriend ''b'') (empty_rel_db, ()))"
  let ?s2 = "snd (rel_rpc (sample_env ''e1'') no_conv [] (sample_md ''b'') (R_HandleFriend ''e1'' ''a'' True) ?s1)"
  have "reach rel_init rel_step (empty_rel_db, ())"
    by (rule reach_init) (simp add: rel_init_def)
  then have "reach rel_init rel_step ?s1" by (rule reach_step) (rule rel_request, rule refl)
  then have "reach rel_init rel_step ?s2" by (rule reach_step) (rule rel_request, rule refl)
  moreover have "?s2 = (friends_db, ())"
    by (simp add: rel_run_simps SendFriendRequest_def HandleFriendRequest_def friends_db_def)
  ultimately show ?thesis by simp
qed

theorem friendship_symmetric_by_consent_witness:
  "''b'' \<in> set (RelationTable_friends True ''a'' friends_db)
   \<and> ''a'' \<in> set (RelationTable_friends True ''b'' friends_db)
   \<and> accepted_between ''a'' ''b'' friends_db"
proof -
  have "''b'' \<in> set (RelationTable_friends True ''a'' friends_db)"
    by (simp add: RelationTable_friends_def friends_db_def new_relation_def)
  then show ?thesis
    using friendship_symmetric_by_consent [OF friends_db_reachable, of "''b''" "''a''"] by simp
qed

section \<open>Consent, finality and uniqueness of applications\<close>

lemma SendFriendRequest_relations: "relations (snd (SendFriendRequest e auth pid db)) = relations db"
proof -
  have "relations db' = relations db" if "FriendApplyTable_insert ok now ev db = (b, db')" for ok now ev b db'
    using that FriendApplyTable_insert_frame(1) [of ok now ev db] by simp
  then show ?thesis by (auto simp: SendFriendRequest_def Let_def split: prod.splits bool.splits)
qed

lemma BlockUser_frame: "relations (snd (BlockUser e auth pid db)) = relations db"
  "friend_applies (snd (BlockUser e auth pid db)) = friend_applies db"
  using UserBlockTable_insert_frame [of "re_up e 0 0" "re_now e" "user_id auth" pid db]
  by (auto simp: BlockUser_def Let_def split: prod.splits bool.splits)

lemma UnblockUser_frame: "relations (snd (UnblockUser e auth pid db)) = relations db"
  "friend_applies (snd (UnblockUser e auth pid db)) = friend_applies db"
  using UserBlockTable_remove_frame [of "re_up e 0 0" "user_id auth" pid db]
  by (auto simp: UnblockUser_def Let_def split: prod.splits bool.splits)

lemma RemoveFriend_effect:
  "snd (RemoveFriend e auth pid db) = db \<or>
   (user_id auth \<noteq> pid \<and> RelationTable_remove (re_up e 1 0) (re_now e) (user_id auth) pid db
      = (True, snd (RemoveFriend e auth pid db)))"
proof -
  have "db' = db" if "RelationTable_remove ok now u p db = (False, db')" for ok now u p db'
    using that by (auto simp: RelationTable_remove_def split: if_splits)
  then show ?thesis
    by (auto simp: RemoveFriend_def Let_def split: prod.splits bool.splits)
qed

lemma RemoveFriend_applies: "friend_applies (snd (RemoveFriend e auth pid db)) = friend_applies db"
  using RemoveFriend_effect [of e auth pid db]
    RelationTable_remove_frame(1) [of "re_up e 1 0" "re_now e" "user_id auth" pid db] by auto

lemma RemoveFriend_rel_map:
  "rel_map (snd (RemoveFriend e auth pid db)) k = Some Rel_NORMAL \<Longrightarrow> rel_map db k = Some Rel_NORMAL"
  using RemoveFriend_effect [of e auth pid db] rel_map_remove [of "re_up e 1 0" "re_now e" "user_id auth" pid db _ k]
  by (auto split: if_splits)

text \<open>How a request reaches the tables: not at all, or through an authenticated body.\<close>

lemma rel_rpc_cases:
  assumes "snd (rel_rpc e conv rid md q s) = t"
  obtains (rejected) "t = s"
  | (ran) auth where "extract_auth md = Inr auth" "snd (rel_body e conv rid q auth s) = t"
  using assms by (auto simp: rel_rpc_def handle_rpc_def split: sum.splits prod.splits)

lemma rel_body_applies:
  assumes "snd (rel_body e conv rid q auth (db, w)) = (db', w')"
    and "\<And>pid. q \<noteq> R_SendFriend pid" and "\<And>eid u agree. q \<noteq> R_HandleFriend eid u agree"
  shows "friend_applies db' = friend_applies db"
  using assms RemoveFriend_applies [of e auth] BlockUser_frame(2) [of e auth]
    UnblockUser_frame(2) [of e auth]
  by (cases q) (auto split: prod.splits, (metis snd_conv)+)

lemma rel_body_relations:
  assumes "snd (rel_body e conv rid q auth (db, w)) = (db', w')"
    and "\<And>pid. q \<noteq> R_RemoveFriend pid" and "\<And>eid u agree. q \<noteq> R_HandleFriend eid u agree"
  shows "relations db' = relations db"
  using assms SendFriendRequest_relations [of e auth] BlockUser_frame(1) [of e auth]
    UnblockUser_frame(1) [of e auth]
  by (cases q) (auto split: prod.splits, (metis snd_conv)+)

lemma HandleFriendRequest_new_friend:
  assumes "HandleFriendRequest e conv rid auth eid u agree (db, w) = (r, db', w')"
    and "rel_map db (a, b) \<noteq> Some Rel_NORMAL" and "rel_map db' (a, b) = Some Rel_NORMAL"
  obtains ev where "agree" "select_key fa_event_id eid (friend_applies db) = Some ev"
    "fa_status ev = PENDING" "fa_user_id ev = u" "fa_peer_id ev = user_id auth"
    "{a, b} = {u, user_id auth}"
  using assms(1)
proof (cases rule: HandleFriendRequest_cases)
  case unchanged
  with assms show thesis by simp
next
  case (rejected ev ok)
  have "rel_map db' = rel_map db"
    by (rule rel_map_cong)
      (use rejected(6) FriendApplyTable_update_status_frame(1) [of "re_up e 1 0" "re_now e" eid REJECTED db]
        in auto)
  with assms show thesis by simp
next
  case (accepted ev db1 ok)
  have same: "rel_map db1 = rel_map db"
    by (rule rel_map_cong)
      (use accepted(7) FriendApplyTable_update_status_frame(1) [of "re_up e 1 0" "re_now e" eid ACCEPTED db]
        in auto)
  from accepted(8) assms(2,3) same have "ok"
    by (cases ok) (auto simp: RelationTable_insert_def Let_def split: if_splits option.splits)
  then have "rel_map db' = (rel_map db)((user_id auth, u) \<mapsto> Rel_NORMAL, (u, user_id auth) \<mapsto> Rel_NORMAL)"
    using rel_map_insert [of "re_up e 2 0" "re_now e" "user_id auth" u db1 db'] accepted(6,8) same by simp
  with assms(2,3) accepted(6) have "{a, b} = {u, user_id auth}"
    by (auto split: if_splits)
  with accepted that show thesis by blast
qed

text \<open>No request makes two users friends except the acceptance, by the authenticated
  addressee, of an application that is pending and joins exactly these two users.\<close>

theorem friendship_needs_addressee_consent:
  assumes "reach rel_init rel_step s" and "snd (rel_rpc e conv rid md q s) = t"
    and "b \<notin> set (RelationTable_friends True a (fst s))"
    and "b \<in> set (RelationTable_friends True a (fst t))"
  shows "\<exists>eid u ev auth. q = R_HandleFriend eid u True \<and> extract_auth md = Inr auth \<and>
     select_key fa_event_id eid (friend_applies (fst s)) = Some ev \<and> fa_status ev = PENDING \<and>
     fa_user_id ev = u \<and> fa_peer_id ev = user_id auth \<and> {a, b} = {u, user_id auth}"
proof -
  obtain db w db' w' where st: "s = (db, w)" "t = (db', w')" by fastforce
  have "reach rel_init rel_step t"
    using assms(1,2) by (blast intro: reach_step rel_request)
  then have inv: "rel_inv db" "rel_inv db'"
    using rel_system.inv_reach assms(1) st by fastforce+
  have new: "rel_map db (a, b) \<noteq> Some Rel_NORMAL" "rel_map db' (a, b) = Some Rel_NORMAL"
    using assms(3,4) st RelationTable_friends_rel_map [OF rel_invD(1) [OF inv(1)]]
      RelationTable_friends_rel_map [OF rel_invD(1) [OF inv(2)]] by auto
  from assms(2) show ?thesis
  proof (cases rule: rel_rpc_cases)
    case rejected
    with new st show ?thesis by simp
  next
    case (ran auth)
    consider (handle) eid u agree where "q = R_HandleFriend eid u agree"
      | (remove) pid where "q = R_RemoveFriend pid"
      | (other) "\<And>pid. q \<noteq> R_RemoveFriend pid" "\<And>eid u agree. q \<noteq> R_HandleFriend eid u agree"
      by (cases q) auto
    then show ?thesis
    proof cases
      case (handle eid u agree)
      with ran st obtain r where
        "HandleFriendRequest e conv rid auth eid u agree (db, w) = (r, db', w')"
        by (auto split: prod.splits)
      from HandleFriendRequest_new_friend [OF this new] handle ran(1) st show ?thesis
        by (metis fst_conv)
    next
      case (remove pid)
      with ran st new RemoveFriend_rel_map [of e auth pid db "(a, b)"] show ?thesis
        by (auto split: prod.splits)
    next
      case other
      have "relations db' = relations db"
        by (rule rel_body_relations [OF _ other]) (use ran st in simp)
      from rel_map_cong [OF this] new show ?thesis by simp
    qed
  qed
qed

definition pending_db :: rel_db where
  "pending_db = \<lparr>relations = [], friend_applies = [\<lparr>fa_event_id = ''e1'', fa_user_id = ''a'',
     fa_peer_id = ''b'', fa_status = PENDING, fa_create_time = 1000, fa_handle_time = None\<rparr>],
     user_blocks = []\<rparr>"

lemma send_run: "snd (rel_rpc (sample_env ''e1'') no_conv [] (sample_md ''a'') (R_SendFriend ''b'')
    (empty_rel_db, ())) = (pending_db, ())"
  by (simp add: rel_run_simps SendFriendRequest_def pending_db_def)

lemma accept_run: "snd (rel_rpc (sample_env ''e1'') no_conv [] (sample_md ''b'')
    (R_HandleFriend ''e1'' ''a'' True) (pending_db, ())) = (friends_db, ())"
  by (simp add: rel_run_simps HandleFriendRequest_def pending_db_def friends_db_def)

lemma pending_db_reachable: "reach rel_init rel_step (pending_db, ())"
  by (rule reach_step [OF reach_init [of _ "(empty_rel_db, ())"]])
    (auto simp: rel_init_def intro!: rel_request [OF send_run])

theorem friendship_needs_addressee_consent_witness:
  "\<exists>eid u ev auth. R_HandleFriend ''e1'' ''a'' True = R_HandleFriend eid u True \<and>
     extract_auth (sample_md ''b'') = Inr auth \<and>
     select_key fa_event_id eid (friend_applies pending_db) = Some ev \<and> fa_status ev = PENDING \<and>
     fa_user_id ev = u \<and> fa_peer_id ev = user_id auth \<and> {''a'', ''b''} = {u, user_id auth}"
proof -
  have "''b'' \<notin> set (RelationTable_friends True ''a'' (fst (pending_db, ())))"
    by (simp add: RelationTable_friends_def pending_db_def)
  moreover have "''b'' \<in> set (RelationTable_friends True ''a'' (fst (friends_db, ())))"
    by (simp add: RelationTable_friends_def friends_db_def new_relation_def)
  ultimately show ?thesis
    using friendship_needs_addressee_consent [OF pending_db_reachable accept_run] by simp
qed

lemma update_status_other:
  assumes "FriendApplyTable_update_status ok now eid st db = (b, db')" and "eid' \<noteq> eid"
  shows "select_key fa_event_id eid' (friend_applies db') = select_key fa_event_id eid' (friend_applies db)"
  using assms by (auto simp: FriendApplyTable_update_status_def apply_table.sel_upd
      split: if_splits option.splits)

lemma HandleFriendRequest_applies:
  assumes "HandleFriendRequest e conv rid auth eid u agree (db, w) = (r, db', w')"
    and "select_key fa_event_id eid' (friend_applies db) = Some row" and "fa_status row \<noteq> PENDING"
  shows "select_key fa_event_id eid' (friend_applies db') = Some row"
  using assms(1)
proof (cases rule: HandleFriendRequest_cases)
  case unchanged
  with assms show ?thesis by simp
next
  case (rejected ev ok)
  with assms(2,3) have "eid' \<noteq> eid" by auto
  from update_status_other [OF rejected(6) this] assms(2) show ?thesis by simp
next
  case (accepted ev db1 ok)
  with assms(2,3) have "eid' \<noteq> eid" by auto
  from update_status_other [OF accepted(7) this] assms(2)
    RelationTable_insert_frame(1) [of "re_up e 2 0" "re_now e" "user_id auth" u db1] accepted(8)
  show ?thesis by simp
qed

lemma SendFriendRequest_applies:
  "friend_applies (snd (SendFriendRequest e auth pid db)) = friend_applies db \<or>
   (\<not> FriendApplyTable_exists_pending (re_up e 2 0) (user_id auth) pid db \<and>
    (\<exists>ev. fa_user_id ev = user_id auth \<and> fa_peer_id ev = pid \<and> fa_status ev = PENDING \<and>
       fa_event_id ev = re_uuid e \<and>
       fa_event_id ev \<notin> fa_event_id ` set (friend_applies db) \<and>
       friend_applies (snd (SendFriendRequest e auth pid db)) = friend_applies db @ [ev]))"
  by (auto simp: SendFriendRequest_def FriendApplyTable_insert_def Let_def persist_def
      split: prod.splits bool.splits option.splits)

text \<open>An application that was accepted or rejected is final: no later request, whatever
  fails, changes or removes its row.\<close>

theorem handled_application_is_final:
  assumes "rel_step s t" and "select_key fa_event_id eid (friend_applies (fst s)) = Some row"
    and "fa_status row \<noteq> PENDING"
  shows "select_key fa_event_id eid (friend_applies (fst t)) = Some row"
proof -
  obtain db w db' w' where st: "s = (db, w)" "t = (db', w')" by fastforce
  from assms(1) obtain e conv rid md q where run: "snd (rel_rpc e conv rid md q s) = t"
    by (auto elim: rel_stepE)
  then show ?thesis
  proof (cases rule: rel_rpc_cases)
    case rejected
    with assms(2) show ?thesis by simp
  next
    case (ran auth)
    consider (handle) eid' u agree where "q = R_HandleFriend eid' u agree"
      | (send) pid where "q = R_SendFriend pid"
      | (other) "\<And>pid. q \<noteq> R_SendFriend pid" "\<And>eid u agree. q \<noteq> R_HandleFriend eid u agree"
      by (cases q) auto
    then show ?thesis
    proof cases
      case (handle eid' u agree)
      with ran st obtain r where
        "HandleFriendRequest e conv rid auth eid' u agree (db, w) = (r, db', w')"
        by (auto split: prod.splits)
      from HandleFriendRequest_applies [OF this] assms(2,3) st show ?thesis by simp
    next
      case (send pid)
      with ran st have "db' = snd (SendFriendRequest e auth pid db)"
        by (auto split: prod.splits)
      with SendFriendRequest_applies [of e auth pid db] assms(2) st show ?thesis
        by (auto simp: select_key_append)
    next
      case other
      have "friend_applies db' = friend_applies db"
        by (rule rel_body_applies [OF _ other]) (use ran st in simp)
      with assms(2) st show ?thesis by simp
    qed
  qed
qed

theorem handled_application_is_final_witness:
  "select_key fa_event_id ''e1'' (friend_applies (fst (snd (rel_rpc (sample_env ''e1'') no_conv []
      (sample_md ''b'') (R_HandleFriend ''e1'' ''a'' False) (friends_db, ())))))
   = Some \<lparr>fa_event_id = ''e1'', fa_user_id = ''a'', fa_peer_id = ''b'', fa_status = ACCEPTED,
       fa_create_time = 1000, fa_handle_time = Some 1000\<rparr>"
  by (rule handled_application_is_final [OF rel_request [OF refl]]) (simp_all add: friends_db_def)

definition pending_unique :: "rel_db \<Rightarrow> bool" where
  "pending_unique db = (\<forall>a b. length (filter (pending_of a b) (friend_applies db)) \<le> 1)"

lemma pending_unique_update_status:
  assumes "pending_unique db" and "FriendApplyTable_update_status ok now eid st db = (b, db')"
    and "st \<noteq> PENDING"
  shows "pending_unique db'"
proof -
  have "length (filter (pending_of x y) (friend_applies db')) \<le>
      length (filter (pending_of x y) (friend_applies db))" for x y
    using assms(2,3)
    by (auto simp: FriendApplyTable_update_status_def update_key_def pending_of_def
        split: if_splits option.splits intro!: length_filter_update_where)
  with assms(1) show ?thesis unfolding pending_unique_def by (meson le_trans)
qed

lemma pending_unique_cong: "friend_applies db' = friend_applies db \<Longrightarrow> pending_unique db' = pending_unique db"
  by (simp add: pending_unique_def)

lemma HandleFriendRequest_pending_unique:
  assumes "HandleFriendRequest e conv rid auth eid u agree (db, w) = (r, db', w')"
    and "pending_unique db"
  shows "pending_unique db'"
  using assms(1)
proof (cases rule: HandleFriendRequest_cases)
  case unchanged
  with assms(2) show ?thesis by simp
next
  case (rejected ev ok)
  from pending_unique_update_status [OF assms(2) rejected(6)] show ?thesis by simp
next
  case (accepted ev db1 ok)
  have "friend_applies db' = friend_applies db1"
    using RelationTable_insert_frame(1) [of "re_up e 2 0" "re_now e" "user_id auth" u db1] accepted(8)
    by simp
  from pending_unique_cong [OF this] pending_unique_update_status [OF assms(2) accepted(7)]
  show ?thesis by simp
qed

lemma SendFriendRequest_pending_unique:
  assumes "pending_unique db" and "re_up e 2 0"
  shows "pending_unique (snd (SendFriendRequest e auth pid db))"
  using SendFriendRequest_applies [of e auth pid db]
proof (elim disjE conjE exE)
  assume "friend_applies (snd (SendFriendRequest e auth pid db)) = friend_applies db"
  with assms(1) show ?thesis by (simp add: pending_unique_def)
next
  fix ev
  assume none: "\<not> FriendApplyTable_exists_pending (re_up e 2 0) (user_id auth) pid db"
    and ev: "fa_user_id ev = user_id auth" "fa_peer_id ev = pid"
    and app: "friend_applies (snd (SendFriendRequest e auth pid db)) = friend_applies db @ [ev]"
  have nil: "filter (pending_of (user_id auth) pid) (friend_applies db) = []"
    using none assms(2)
    by (simp add: FriendApplyTable_exists_pending_def query_one_None filter_empty_conv)
  have "length (filter (pending_of a b) (friend_applies db @ [ev])) \<le> 1" for a b
  proof (cases "pending_of a b ev")
    case True
    with ev have "a = user_id auth" "b = pid" by (auto simp: pending_of_def)
    with nil show ?thesis by simp
  next
    case False
    with assms(1) show ?thesis by (simp add: pending_unique_def)
  qed
  then show ?thesis by (simp add: pending_unique_def app)
qed

text \<open>A user never has two pending applications to the same peer: every request whose
  \<open>exists_pending\<close> query completes keeps at most one pending application per ordered pair.\<close>

theorem pending_application_unique:
  assumes "pending_unique (fst s)" and "re_up e 2 0"
  shows "pending_unique (fst (snd (rel_rpc e conv rid md q s)))"
  using refl [of "snd (rel_rpc e conv rid md q s)"]
proof (cases rule: rel_rpc_cases)
  case rejected
  with assms(1) show ?thesis by simp
next
  case (ran auth)
  obtain db w db' w' where st: "s = (db, w)" "snd (rel_rpc e conv rid md q s) = (db', w')"
    by fastforce
  consider (handle) eid u agree where "q = R_HandleFriend eid u agree"
    | (send) pid where "q = R_SendFriend pid"
    | (other) "\<And>pid. q \<noteq> R_SendFriend pid" "\<And>eid u agree. q \<noteq> R_HandleFriend eid u agree"
    by (cases q) auto
  then have "pending_unique db'"
  proof cases
    case (handle eid u agree)
    with ran st obtain r where
      "HandleFriendRequest e conv rid auth eid u agree (db, w) = (r, db', w')"
      by (auto split: prod.splits)
    from HandleFriendRequest_pending_unique [OF this] assms(1) st show ?thesis by simp
  next
    case (send pid)
    with ran st have "db' = snd (SendFriendRequest e auth pid db)" by (auto split: prod.splits)
    with SendFriendRequest_pending_unique [OF _ assms(2)] assms(1) st show ?thesis by simp
  next
    case other
    have "friend_applies db' = friend_applies db"
      by (rule rel_body_applies [OF _ other]) (use ran st in simp)
    with assms(1) st show ?thesis by (simp add: pending_unique_def)
  qed
  with st show ?thesis by simp
qed

theorem pending_application_unique_witness:
  "pending_unique (fst (snd (rel_rpc (sample_env ''e2'') no_conv [] (sample_md ''a'')
     (R_SendFriend ''b'') (pending_db, ()))))"
  by (rule pending_application_unique)
    (simp_all add: pending_unique_def pending_db_def sample_env_def)

section \<open>Befriending again after a removal\<close>

text \<open>After a removal the pair cannot become friends again: the soft-deleted rows keep
  the unique key, so accepting a new application marks it accepted, then fails with an internal
  error, and the two users are still not friends. The conversation service is never called.\<close>

theorem refriend_after_removal_fails:
  assumes "rel_inv db" and "rel_map db (user_id auth, u) = Some Rel_DELETED"
    and "select_key fa_event_id eid (friend_applies db) = Some ev" and "fa_status ev = PENDING"
    and "fa_user_id ev = u" and "fa_peer_id ev = user_id auth" and "eid \<noteq> []" and "u \<noteq> []"
    and "re_up e 0 0" and "re_up e 1 0"
  shows "\<exists>db'. HandleFriendRequest e conv rid auth eid u True (db, w) =
            (Inl (ServiceError kSystemInternalError ''insert relation failed''), db', w)
       \<and> select_key fa_event_id eid (friend_applies db') =
            Some (ev\<lparr>fa_status := ACCEPTED, fa_handle_time := Some (re_now e)\<rparr>)
       \<and> u \<notin> set (RelationTable_friends True (user_id auth) db')"
proof -
  have ne: "user_id auth \<noteq> u"
    using rel_invD(5) [OF assms(1), of u] assms(2) by auto
  define db1 where "db1 = db\<lparr>friend_applies := update_key fa_event_id eid
      (\<lambda>r. r\<lparr>fa_status := ACCEPTED, fa_handle_time := Some (re_now e)\<rparr>) (friend_applies db)\<rparr>"
  have us: "FriendApplyTable_update_status (re_up e 1 0) (re_now e) eid ACCEPTED db = (True, db1)"
    using assms(3,10) by (simp add: FriendApplyTable_update_status_def db1_def)
  have m: "rel_map db1 = rel_map db" by (rule rel_map_cong) (simp add: db1_def)
  have ins: "RelationTable_insert ok now (user_id auth) u db1 = (False, db1)" for ok now
    using assms(2) ne by (simp add: RelationTable_insert_result m)
  have "rel_inv db1" using rel_inv_update_status [OF assms(1,3,4) us] .
  then have "u \<notin> set (RelationTable_friends True (user_id auth) db1)"
    using RelationTable_friends_rel_map [OF rel_invD(1)] assms(2) m by simp
  moreover have "HandleFriendRequest e conv rid auth eid u True (db, w) =
      (Inl (ServiceError kSystemInternalError ''insert relation failed''), db1, w)"
    using assms(3-9) ne us ins
    by (simp add: HandleFriendRequest_def FriendApplyTable_select_by_event_id_def)
  ultimately show ?thesis
    using assms(3) by (auto simp: db1_def apply_table.sel_upd)
qed

definition refriend_db :: rel_db where
  "refriend_db = \<lparr>relations = map (\<lambda>r. r\<lparr>rel_status := Rel_DELETED\<rparr>) (relations friends_db),
     friend_applies = friend_applies friends_db @ [\<lparr>fa_event_id = ''e2'', fa_user_id = ''a'',
       fa_peer_id = ''b'', fa_status = PENDING, fa_create_time = 1000, fa_handle_time = None\<rparr>],
     user_blocks = []\<rparr>"

definition sample_auth :: "uid \<Rightarrow> auth_context" where
  "sample_auth u = \<lparr>user_id = u, device_id = ''d'', trace_id = [], jwt_jti = []\<rparr>"

lemma refriend_reachable: "reach rel_init rel_step (refriend_db, ())"
proof -
  have "snd (rel_rpc (sample_env ''e2'') no_conv [] (sample_md ''a'') (R_RemoveFriend ''b'') (friends_db, ()))
      = (friends_db\<lparr>relations := map (\<lambda>r. r\<lparr>rel_status := Rel_DELETED\<rparr>) (relations friends_db)\<rparr>, ())"
    by (simp add: rel_run_simps RemoveFriend_def RelationTable_remove_def soft_delete_def friends_db_def)
  moreover have "snd (rel_rpc (sample_env ''e2'') no_conv [] (sample_md ''a'') (R_SendFriend ''b'')
      (friends_db\<lparr>relations := map (\<lambda>r. r\<lparr>rel_status := Rel_DELETED\<rparr>) (relations friends_db)\<rparr>, ()))
      = (refriend_db, ())"
    by (simp add: rel_run_simps SendFriendRequest_def friends_db_def refriend_db_def pending_of_def)
  ultimately show ?thesis
    using friends_db_reachable by (blast intro: reach_step rel_request)
qed

theorem refriend_after_removal_fails_witness:
  "\<exists>db'. HandleFriendRequest (sample_env ''e2'') no_conv [] (sample_auth ''b'') ''e2'' ''a'' True
      (refriend_db, ()) = (Inl (ServiceError kSystemInternalError ''insert relation failed''), db', ())
   \<and> ''a'' \<notin> set (RelationTable_friends True ''b'' db')"
proof -
  have inv: "rel_inv refriend_db" using rel_system.inv_reach [OF refriend_reachable] by simp
  show ?thesis
    using refriend_after_removal_fails [OF inv, of "sample_auth ''b''" "''a''" "''e2''" _
        "sample_env ''e2''" no_conv "[]" "()"]
    by (auto simp: sample_auth_def sample_env_def refriend_db_def friends_db_def rel_map_def
        rel_key_def new_relation_def)
qed

section \<open>Blocking\<close>

text \<open>Once \<open>b\<close> has blocked \<open>a\<close>, every application of \<open>a\<close> to \<open>b\<close> whose
  block query completes is refused with RELATIONSHIP_BLOCKED and changes nothing; unblocking
  removes exactly that block.\<close>

theorem block_refuses_applications:
  assumes "BlockUser e1 auth_b a db = (Inr (), db1)" and "re_up e2 0 0"
    and "user_id auth_a = a" and "a \<noteq> user_id auth_b" and "user_id auth_b \<noteq> []"
  shows "SendFriendRequest e2 auth_a (user_id auth_b) db1 =
           (Inl (ServiceError kRelationshipBlocked ''blocked by peer''), db1)
       \<and> (UnblockUser e3 auth_b a db1 = (Inr (), db2) \<longrightarrow>
            (\<forall>x y. UserBlockTable_is_blocked True x y db2 \<longleftrightarrow>
               UserBlockTable_is_blocked True x y db1 \<and> (x, y) \<noteq> (user_id auth_b, a)))"
proof
  have "UserBlockTable_is_blocked True (user_id auth_b) a db1"
    using assms(1)
    by (auto simp: BlockUser_def Let_def split: if_splits prod.splits bool.splits
        intro: is_blocked_after_insert)
  then have "UserBlockTable_is_blocked (re_up e2 0 0) (user_id auth_b) a db1"
    using assms(2) by simp
  then show "SendFriendRequest e2 auth_a (user_id auth_b) db1 =
      (Inl (ServiceError kRelationshipBlocked ''blocked by peer''), db1)"
    using assms(3-5) by (simp add: SendFriendRequest_def)
next
  show "UnblockUser e3 auth_b a db1 = (Inr (), db2) \<longrightarrow>
      (\<forall>x y. UserBlockTable_is_blocked True x y db2 \<longleftrightarrow>
         UserBlockTable_is_blocked True x y db1 \<and> (x, y) \<noteq> (user_id auth_b, a))"
    using is_blocked_after_remove [of "re_up e3 0 0" "user_id auth_b" a db1 db2]
    by (simp add: UnblockUser_def Let_def split: if_splits prod.splits bool.splits)
qed

theorem block_refuses_applications_witness:
  "SendFriendRequest (sample_env ''e2'') (sample_auth ''a'') ''b''
     (empty_rel_db\<lparr>user_blocks := [\<lparr>ub_blocker_id = ''b'', ub_blocked_id = ''a'', ub_create_time = 1000\<rparr>]\<rparr>) =
   (Inl (ServiceError kRelationshipBlocked ''blocked by peer''),
     empty_rel_db\<lparr>user_blocks := [\<lparr>ub_blocker_id = ''b'', ub_blocked_id = ''a'', ub_create_time = 1000\<rparr>]\<rparr>)"
proof -
  have "BlockUser (sample_env ''e2'') (sample_auth ''b'') ''a'' empty_rel_db = (Inr (),
      empty_rel_db\<lparr>user_blocks := [\<lparr>ub_blocker_id = ''b'', ub_blocked_id = ''a'', ub_create_time = 1000\<rparr>]\<rparr>)"
    by (simp add: BlockUser_def UserBlockTable_insert_def persist_def sample_auth_def sample_env_def
        empty_rel_db_def)
  from block_refuses_applications [OF this, of "sample_env ''e2''" "sample_auth ''a''"] show ?thesis
    by (simp add: sample_auth_def sample_env_def)
qed

section \<open>Pagination of the block list\<close>

text \<open>A client that follows \<open>next_cursor\<close> until \<open>has_more\<close> is false.\<close>

fun drain_blocked :: "nat \<Rightarrow> rel_env \<Rightarrow> string \<Rightarrow> auth_context \<Rightarrow> int \<Rightarrow> string \<Rightarrow> rel_db \<Rightarrow>
    user_info list option" where
  "drain_blocked 0 e rid auth limit cursor db = None"
| "drain_blocked (Suc n) e rid auth limit cursor db =
     (case ListBlockedUsers e rid auth \<lparr>pq_limit = limit, pq_cursor = cursor\<rparr> db of
        Inl _ \<Rightarrow> None
      | Inr (us, pr) \<Rightarrow>
          if pr_has_more pr
          then map_option (append us) (drain_blocked n e rid auth limit (pr_next_cursor pr) db)
          else Some us)"

lemma map_filter_total: "(\<And>x. x \<in> set xs \<Longrightarrow> f x = Some (g x)) \<Longrightarrow> List.map_filter f xs = map g xs"
  by (induction xs) (auto simp: List.map_filter_simps)

definition identity_knows :: "rel_env \<Rightarrow> string \<Rightarrow> (uid \<Rightarrow> user_info) \<Rightarrow> bool" where
  "identity_knows e rid info =
     (\<forall>uids. \<exists>m. fetch_users e rid uids = Some m \<and> (\<forall>u \<in> set uids. map_of m u = Some (info u)))"

lemma blocked_offset_cursor:
  "0 \<le> k \<Longrightarrow> k \<le> int32_max \<Longrightarrow> blocked_offset \<lparr>pq_limit = l, pq_cursor = int_to_string k\<rparr> = k"
  using stoi_int_to_string [of k] by (simp add: blocked_offset_def int32_min_def)

lemma length_blocked_ordered:
  "int (length (blocked_ordered u db)) = UserBlockTable_count_blocked True u db"
  by (simp add: blocked_ordered_def UserBlockTable_count_blocked_def)

lemma ListBlockedUsers_page:
  fixes auth :: auth_context and db :: rel_db
  assumes "blocked_offset pq = int k" and "0 < pq_limit pq" and "re_up e 0 0" and "re_up e 1 0"
    and "identity_knows e rid info"
  defines "xs \<equiv> blocked_ordered (user_id auth) db"
  shows "ListBlockedUsers e rid auth pq db = Inr (map info (page k (nat (pq_limit pq)) xs),
     \<lparr>pr_has_more = int k + pq_limit pq < int (length xs),
      pr_next_cursor = (if int k + pq_limit pq < int (length xs) then int_to_string (int k + pq_limit pq) else []),
      pr_total_count = int (length xs)\<rparr>)"
proof -
  define ids where "ids = page k (nat (pq_limit pq)) xs"
  have l: "blocked_limit pq = pq_limit pq" using assms(2) by (simp add: blocked_limit_def)
  have ids: "UserBlockTable_list_blocked (re_up e 0 0) (user_id auth) (int k) (pq_limit pq) db = ids"
    using assms(2,3) by (simp add: UserBlockTable_list_blocked_def ids_def xs_def)
  obtain m where m: "users_or_unavailable e rid (remdups ids) = Inr m"
    and all: "\<And>u. u \<in> set ids \<Longrightarrow> map_of m u = Some (info u)"
  proof (cases "ids = []")
    case True
    with that [of "[]"] show ?thesis by (simp add: users_or_unavailable_def)
  next
    case False
    from assms(5) obtain m where "fetch_users e rid (remdups ids) = Some m"
      "\<forall>u \<in> set (remdups ids). map_of m u = Some (info u)"
      unfolding identity_knows_def by blast
    with False that [of m] show ?thesis by (simp add: users_or_unavailable_def)
  qed
  have "List.map_filter (map_of m) ids = map info ids" using all by (rule map_filter_total)
  moreover have "UserBlockTable_count_blocked (re_up e 1 0) (user_id auth) db = int (length xs)"
    using assms(4) by (simp add: length_blocked_ordered xs_def)
  ultimately show ?thesis
    by (simp add: ListBlockedUsers_def Let_def l assms(1) ids m flip: ids_def)
qed

lemma drain_blocked_from:
  assumes "0 < limit" and "re_up e 0 0" and "re_up e 1 0" and "identity_knows e rid info"
    and "int (length (blocked_ordered (user_id auth) db)) + limit \<le> int32_max"
    and "blocked_offset \<lparr>pq_limit = limit, pq_cursor = cursor\<rparr> = int k"
    and "length (blocked_ordered (user_id auth) db) \<le> k + n"
  shows "drain_blocked (Suc n) e rid auth limit cursor db =
    Some (map info (drop k (blocked_ordered (user_id auth) db)))"
  using assms(6,7)
proof (induction n arbitrary: cursor k)
  case 0
  then show ?case
    using assms(1) ListBlockedUsers_page [OF 0(1) _ assms(2-4), of auth db] by (simp add: page_def)
next
  case (Suc n)
  let ?xs = "blocked_ordered (user_id auth) db"
  note pg = ListBlockedUsers_page [OF Suc.prems(1) _ assms(2-4), of auth db]
  show ?case
  proof (cases "int k + limit < int (length ?xs)")
    case True
    have "blocked_offset \<lparr>pq_limit = limit, pq_cursor = int_to_string (int k + limit)\<rparr> = int (k + nat limit)"
      using blocked_offset_cursor [of "int k + limit" limit] assms(1,5) True by simp
    moreover have "length ?xs \<le> k + nat limit + n" using Suc.prems(2) assms(1) by simp
    ultimately have "drain_blocked (Suc n) e rid auth limit (int_to_string (int k + limit)) db =
        Some (map info (drop (k + nat limit) ?xs))" by (rule Suc.IH)
    then show ?thesis
      using True assms(1) pg page_split [of k "nat limit" ?xs] by (simp flip: map_append)
  next
    case False
    then have "page k (nat limit) ?xs = drop k ?xs"
      using assms(1) by (simp add: page_def)
    with False assms(1) pg show ?thesis by simp
  qed
qed

text \<open>Following the cursors of \<open>ListBlockedUsers\<close> from the first page ends, and returns
  the profile of every user the caller has blocked, newest first, each exactly once; with \<open>n\<close>
  entries at most \<open>n + 1\<close> calls are made, for every positive page size.\<close>

theorem blocked_pages_complete:
  assumes "0 < limit" and "re_up e 0 0" and "re_up e 1 0" and "identity_knows e rid info"
    and "int (length (blocked_ordered (user_id auth) db)) + limit \<le> int32_max"
  shows "drain_blocked (Suc (length (blocked_ordered (user_id auth) db))) e rid auth limit [] db =
    Some (map info (blocked_ordered (user_id auth) db))"
  using drain_blocked_from [OF assms, of "[]" 0] by (simp add: blocked_offset_def)

definition sample_info :: "uid \<Rightarrow> user_info" where
  "sample_info u = \<lparr>ui_user_id = u, ui_nickname = u, ui_bio = [], ui_phone = [], ui_avatar_url = []\<rparr>"

lemma sample_env_knows: "identity_knows (sample_env eid) rid sample_info"
proof -
  have "map_of (map (\<lambda>u. (u, sample_info u)) uids) x = Some (sample_info x)" if "x \<in> set uids" for uids x
    using that by (simp add: map_of_map_restrict)
  then show ?thesis
    by (auto simp: identity_knows_def fetch_users_def sample_env_def ok_header_def
        sample_info_def [symmetric])
qed

theorem blocked_pages_complete_witness:
  "drain_blocked 3 (sample_env ''e'') [] (sample_auth ''b'') 1 []
     (empty_rel_db\<lparr>user_blocks := [\<lparr>ub_blocker_id = ''b'', ub_blocked_id = ''x'', ub_create_time = 1\<rparr>,
        \<lparr>ub_blocker_id = ''b'', ub_blocked_id = ''y'', ub_create_time = 2\<rparr>]\<rparr>)
   = Some [sample_info ''y'', sample_info ''x'']"
  using blocked_pages_complete [OF _ _ _ sample_env_knows, of 1 "''e''" "sample_auth ''b''"
      "empty_rel_db\<lparr>user_blocks := [\<lparr>ub_blocker_id = ''b'', ub_blocked_id = ''x'', ub_create_time = 1\<rparr>,
        \<lparr>ub_blocker_id = ''b'', ub_blocked_id = ''y'', ub_create_time = 2\<rparr>]\<rparr>" "[]"]
  by (simp add: sample_env_def sample_auth_def blocked_ordered_def int32_max_def numeral_3_eq_3
      del: drain_blocked.simps)

section \<open>Searching for users\<close>

text \<open>What the search rests on: Elasticsearch honours the \<open>must_not\<close> terms of the query, and the
  identity service answers about the users it was asked for.\<close>

definition search_honours_exclusion :: "rel_env \<Rightarrow> bool" where
  "search_honours_exclusion e = (\<forall>k ex. set (re_es_search e k ex) \<inter> set ex = {})"

definition identity_answers_asked :: "rel_env \<Rightarrow> bool" where
  "identity_answers_asked e =
     (\<forall>rid uids m. fetch_users e rid uids = Some m \<longrightarrow> (\<forall>(u, i) \<in> set m. u \<in> set uids \<and> ui_user_id i = u))"

text \<open>A search result never contains the caller, a friend of the caller, a user the caller
  has blocked or a user who has blocked the caller, when the two table queries complete.\<close>

theorem search_excludes_known_users:
  assumes "search_honours_exclusion e" and "identity_answers_asked e"
    and "re_up e 0 0" and "re_up e 1 0"
    and "SearchFriends e rid auth k db = Inr us" and "i \<in> set us"
  shows "ui_user_id i \<noteq> user_id auth
     \<and> ui_user_id i \<notin> set (RelationTable_friends True (user_id auth) db)
     \<and> \<not> UserBlockTable_is_blocked True (user_id auth) (ui_user_id i) db
     \<and> \<not> UserBlockTable_is_blocked True (ui_user_id i) (user_id auth) db"
proof -
  define ex where "ex = [user_id auth] @ RelationTable_friends (re_up e 0 0) (user_id auth) db
    @ UserBlockTable_blocked_or_blocking (re_up e 1 0) (user_id auth) db"
  obtain m where m: "users_or_unavailable e rid (remdups (re_es_search e k ex)) = Inr m" "us = map snd m"
    using assms(5) by (auto simp: SearchFriends_def Let_def ex_def split: sum.splits)
  with assms(6) obtain u where "(u, i) \<in> set m" by auto
  then have "ui_user_id i \<in> set (re_es_search e k ex)"
    using m(1) assms(2)
    by (fastforce simp: users_or_unavailable_def identity_answers_asked_def split: if_splits option.splits)
  then have "ui_user_id i \<notin> set ex"
    using assms(1) unfolding search_honours_exclusion_def by blast
  then show ?thesis
    using assms(3,4)
    by (auto simp: ex_def UserBlockTable_blocked_or_blocking_def is_blocked_iff ub_key_def)
qed

theorem search_excludes_known_users_witness:
  "SearchFriends (sample_env ''e'') [] (sample_auth ''a'') ''c'' friends_db = Inr [sample_info ''c'']
   \<and> ''c'' \<notin> set (RelationTable_friends True ''a'' friends_db)"
proof -
  have run: "SearchFriends (sample_env ''e'') [] (sample_auth ''a'') ''c'' friends_db = Inr [sample_info ''c'']"
    by (simp add: SearchFriends_def sample_env_def sample_auth_def friends_db_def new_relation_def
        RelationTable_friends_def UserBlockTable_blocked_or_blocking_def users_or_unavailable_def
        fetch_users_def ok_header_def sample_info_def)
  have "search_honours_exclusion (sample_env ''e'')"
    by (auto simp: search_honours_exclusion_def sample_env_def)
  moreover have "identity_answers_asked (sample_env ''e'')"
    by (auto simp: identity_answers_asked_def sample_env_def fetch_users_def ok_header_def)
  ultimately show ?thesis
    using search_excludes_known_users [OF _ _ _ _ run, of "sample_info ''c''"] run
    by (simp add: sample_env_def sample_auth_def sample_info_def)
qed

end
