(* ===== verification/Conversation_Dao.thy ===== *)
theory Conversation_Dao
  imports Proto "HOL-Library.Product_Lexorder"
begin

text \<open>
  The tables \<open>conversation\<close> and \<open>conversation_member\<close> (odb/conversation.hxx,
  odb/conversation_member.hxx, the join view of odb/conversation_view.hxx) and their DAO
  classes ConversationTable and ConversationMemberTable
  (common/dao/mysql_conversation.hpp, mysql_conversation_member.hpp). The flag \<open>ok\<close> of a
  method is its call oracle: without it the database raises inside the transaction and
  the catch branch is taken. A transaction that raises is rolled back.
\<close>

section \<open>Rows\<close>

datatype conversation_type = PRIVATE | GROUP | CHANNEL
datatype conversation_status = NORMAL | ARCHIVED | DISMISSED | BANNED
datatype member_role = Role_NORMAL | ADMIN | OWNER
datatype join_source = UNKNOWN | INVITE | SEARCH | QR_CODE | LINK | ADMIN_ADD | CREATE

fun type_code :: "conversation_type \<Rightarrow> int" where
  "type_code PRIVATE = 1"
| "type_code GROUP = 2"
| "type_code CHANNEL = 3"

fun status_code :: "conversation_status \<Rightarrow> int" where
  "status_code NORMAL = 0"
| "status_code ARCHIVED = 1"
| "status_code DISMISSED = 2"
| "status_code BANNED = 3"

fun role_code :: "member_role \<Rightarrow> int" where
  "role_code Role_NORMAL = 0"
| "role_code ADMIN = 1"
| "role_code OWNER = 2"

record conversation_row =
  cv_conversation_id :: cid
  cv_conversation_name :: "string option"
  cv_conversation_type :: conversation_type
  cv_create_time :: time
  cv_member_count :: int
  cv_status :: conversation_status
  cv_avatar_id :: "string option"
  cv_owner_id :: "uid option"
  cv_peer_user_id :: "uid option"
  cv_description :: "string option"
  cv_announcement :: "string option"
  cv_muted_all :: bool
  cv_max_seq :: u64
  cv_update_time :: time

text \<open>\<open>None\<close> as a join time is boost's \<open>not_a_date_time\<close>.\<close>

record conversation_member_row =
  cm_conversation_id :: cid
  cm_user_id :: uid
  cm_last_read_seq :: u64
  cm_last_ack_seq :: u64
  cm_muted :: bool
  cm_visible :: bool
  cm_pin_time :: "time option"
  cm_role :: member_role
  cm_alias :: "string option"
  cm_inviter_id :: "uid option"
  cm_join_source :: join_source
  cm_join_time :: "time option"
  cm_mute_until :: "time option"
  cm_is_quit :: bool
  cm_quit_time :: "time option"
  cm_draft :: "string option"

text \<open>A getter of a nullable string column: NULL reads as the empty string.\<close>

definition nullable_str :: "string option \<Rightarrow> string" where
  "nullable_str v = (case v of None \<Rightarrow> [] | Some s \<Rightarrow> s)"

text \<open>The constructors.\<close>

definition Conversation ::
  "cid \<Rightarrow> string \<Rightarrow> conversation_type \<Rightarrow> time \<Rightarrow> int \<Rightarrow> conversation_status \<Rightarrow> conversation_row" where
  "Conversation cid cname ctype create_time count st =
     \<lparr>cv_conversation_id = cid, cv_conversation_name = Some cname, cv_conversation_type = ctype,
      cv_create_time = create_time, cv_member_count = count, cv_status = st, cv_avatar_id = None,
      cv_owner_id = None, cv_peer_user_id = None, cv_description = None, cv_announcement = None,
      cv_muted_all = False, cv_max_seq = 0, cv_update_time = 0\<rparr>"

definition ConversationMember ::
  "cid \<Rightarrow> uid \<Rightarrow> bool \<Rightarrow> bool \<Rightarrow> member_role \<Rightarrow> time \<Rightarrow> conversation_member_row" where
  "ConversationMember cid uid muted visible role join_time =
     \<lparr>cm_conversation_id = cid, cm_user_id = uid, cm_last_read_seq = 0, cm_last_ack_seq = 0,
      cm_muted = muted, cm_visible = visible, cm_pin_time = None, cm_role = role, cm_alias = None,
      cm_inviter_id = None, cm_join_source = UNKNOWN, cm_join_time = Some join_time,
      cm_mute_until = None, cm_is_quit = False, cm_quit_time = None, cm_draft = None\<rparr>"

record conv_db =
  conversations :: "conversation_row list"
  conversation_members :: "conversation_member_row list"

definition cm_key :: "conversation_member_row \<Rightarrow> cid \<times> uid" where
  "cm_key m = (cm_conversation_id m, cm_user_id m)"

definition sel_conv :: "conv_db \<Rightarrow> cid \<Rightarrow> conversation_row option" where
  "sel_conv db cid = select_key cv_conversation_id cid (conversations db)"

definition sel_member :: "conv_db \<Rightarrow> cid \<times> uid \<Rightarrow> conversation_member_row option" where
  "sel_member db k = select_key cm_key k (conversation_members db)"

definition put_conv :: "conversation_row \<Rightarrow> conv_db \<Rightarrow> conv_db" where
  "put_conv c db = db\<lparr>conversations := put_row cv_conversation_id c (conversations db)\<rparr>"

definition put_member :: "conversation_member_row \<Rightarrow> conv_db \<Rightarrow> conv_db" where
  "put_member m db = db\<lparr>conversation_members := put_row cm_key m (conversation_members db)\<rparr>"

interpretation conversation_table: unique_table cv_conversation_id "keys_distinct cv_conversation_id"
    "select_key cv_conversation_id" "persist cv_conversation_id" "update_key cv_conversation_id"
  by (rule unique_table_list)

interpretation member_table: unique_table cm_key "keys_distinct cm_key"
    "select_key cm_key" "persist cm_key" "update_key cm_key"
  by (rule unique_table_list)

section \<open>ConversationTable\<close>

text \<open>\<open>insert\<close> writes the times into the caller's object before it persists.\<close>

definition ConversationTable_insert ::
  "bool \<Rightarrow> time \<Rightarrow> conversation_row \<Rightarrow> conv_db \<Rightarrow> (bool \<times> conversation_row) \<times> conv_db" where
  "ConversationTable_insert ok now c db =
     (let c' = c\<lparr>cv_create_time := now, cv_update_time := now\<rparr>
      in if \<not> ok then ((False, c'), db)
         else case persist cv_conversation_id c' (conversations db) of
                None \<Rightarrow> ((False, c'), db)
              | Some rs \<Rightarrow> ((True, c'), db\<lparr>conversations := rs\<rparr>))"

definition ConversationTable_update_status ::
  "bool \<Rightarrow> time \<Rightarrow> cid \<Rightarrow> conversation_status \<Rightarrow> conv_db \<Rightarrow> bool \<times> conv_db" where
  "ConversationTable_update_status ok now cid st db =
     (if \<not> ok then (False, db)
      else case sel_conv db cid of
             None \<Rightarrow> (False, db)
           | Some c \<Rightarrow> (True, put_conv (c\<lparr>cv_status := st, cv_update_time := now\<rparr>) db))"

definition ConversationTable_select :: "bool \<Rightarrow> cid \<Rightarrow> conv_db \<Rightarrow> conversation_row option" where
  "ConversationTable_select ok cid db = (if \<not> ok then None else sel_conv db cid)"

definition ConversationTable_exists :: "bool \<Rightarrow> cid \<Rightarrow> conv_db \<Rightarrow> bool" where
  "ConversationTable_exists ok cid db = (ok \<and> sel_conv db cid \<noteq> None)"

text \<open>An update of a row that is gone raises \<open>object_not_persistent\<close>.\<close>

definition ConversationTable_update ::
  "bool \<Rightarrow> time \<Rightarrow> conversation_row \<Rightarrow> conv_db \<Rightarrow> (bool \<times> conversation_row) \<times> conv_db" where
  "ConversationTable_update ok now c db =
     (let c' = c\<lparr>cv_update_time := now\<rparr>
      in if \<not> ok \<or> sel_conv db (cv_conversation_id c) = None then ((False, c'), db)
         else ((True, c'), put_conv c' db))"

definition ConversationTable_bump_max_seq :: "bool \<Rightarrow> cid \<Rightarrow> u64 \<Rightarrow> conv_db \<Rightarrow> bool \<times> conv_db" where
  "ConversationTable_bump_max_seq ok cid new_seq db =
     (if \<not> ok then (False, db)
      else case sel_conv db cid of
             None \<Rightarrow> (False, db)
           | Some c \<Rightarrow> (True, if cv_max_seq c < new_seq
                              then put_conv (c\<lparr>cv_max_seq := new_seq\<rparr>) db else db))"

definition ConversationTable_select_many :: "bool \<Rightarrow> cid list \<Rightarrow> conv_db \<Rightarrow> conversation_row list" where
  "ConversationTable_select_many ok cids db =
     (if cids = [] \<or> \<not> ok then []
      else filter (\<lambda>c. cv_conversation_id c \<in> set cids) (conversations db))"

section \<open>ConversationMemberTable\<close>

text \<open>\<open>None\<close>: no conversation row, a \<open>runtime_error\<close> that rolls the transaction back.\<close>

definition update_session_member_count :: "time \<Rightarrow> cid \<Rightarrow> int \<Rightarrow> conv_db \<Rightarrow> conv_db option" where
  "update_session_member_count now ssid delta db =
     (case sel_conv db ssid of
        None \<Rightarrow> None
      | Some session \<Rightarrow>
          let new_count = cv_member_count session + delta;
              new_count = (if new_count < 0 then 0 else new_count)
          in Some (put_conv (session\<lparr>cv_member_count := new_count, cv_update_time := now\<rparr>) db))"

definition default_join_time :: "time \<Rightarrow> conversation_member_row \<Rightarrow> conversation_member_row" where
  "default_join_time now m = (if cm_join_time m = None then m\<lparr>cm_join_time := Some now\<rparr> else m)"

definition ConversationMemberTable_append ::
  "bool \<Rightarrow> time \<Rightarrow> conversation_member_row \<Rightarrow> conv_db \<Rightarrow> bool \<times> conv_db" where
  "ConversationMemberTable_append ok now csm db =
     (if \<not> ok then (False, db)
      else case persist cm_key (default_join_time now csm) (conversation_members db) of
             None \<Rightarrow> (False, db)
           | Some ms \<Rightarrow>
               (case update_session_member_count now (cm_conversation_id csm) 1
                       (db\<lparr>conversation_members := ms\<rparr>) of
                  None \<Rightarrow> (False, db)
                | Some db' \<Rightarrow> (True, db')))"

text \<open>The batch form adds up one delta per conversation; the conversations are different rows,
  so the iteration order of the \<open>std::map\<close> does not show.\<close>

fun apply_deltas :: "time \<Rightarrow> (cid \<times> int) list \<Rightarrow> conv_db \<Rightarrow> conv_db option" where
  "apply_deltas now [] db = Some db"
| "apply_deltas now ((ssid, count) # ds) db =
     (case update_session_member_count now ssid count db of
        None \<Rightarrow> None | Some db' \<Rightarrow> apply_deltas now ds db')"

definition session_delta :: "conversation_member_row list \<Rightarrow> (cid \<times> int) list" where
  "session_delta ms = map (\<lambda>c. (c, int (length (filter (\<lambda>m. cm_conversation_id m = c) ms))))
     (remdups (map cm_conversation_id ms))"

definition ConversationMemberTable_append_many ::
  "bool \<Rightarrow> time \<Rightarrow> conversation_member_row list \<Rightarrow> conv_db \<Rightarrow> bool \<times> conv_db" where
  "ConversationMemberTable_append_many ok now csm_list db =
     (if csm_list = [] then (True, db)
      else if \<not> ok then (False, db)
      else case persist_all cm_key (map (default_join_time now) csm_list) (conversation_members db) of
             None \<Rightarrow> (False, db)
           | Some ms \<Rightarrow>
               (case apply_deltas now (session_delta csm_list) (db\<lparr>conversation_members := ms\<rparr>) of
                  None \<Rightarrow> (False, db)
                | Some db' \<Rightarrow> (True, db')))"

definition ConversationMemberTable_append_after_create ::
  "bool \<Rightarrow> time \<Rightarrow> conversation_member_row list \<Rightarrow> conv_db \<Rightarrow> bool \<times> conv_db" where
  "ConversationMemberTable_append_after_create ok now csm_list db =
     (if csm_list = [] then (True, db)
      else if \<not> ok then (False, db)
      else case persist_all cm_key (map (default_join_time now) csm_list) (conversation_members db) of
             None \<Rightarrow> (False, db)
           | Some ms \<Rightarrow> (True, db\<lparr>conversation_members := ms\<rparr>))"

definition ConversationMemberTable_set_quit ::
  "bool \<Rightarrow> time \<Rightarrow> cid \<Rightarrow> uid \<Rightarrow> conv_db \<Rightarrow> bool \<times> conv_db" where
  "ConversationMemberTable_set_quit ok now ssid uid db =
     (if \<not> ok then (False, db)
      else case sel_member db (ssid, uid) of
             None \<Rightarrow> (False, db)
           | Some m \<Rightarrow>
               if cm_is_quit m then (False, db)
               else (case update_session_member_count now ssid (- 1)
                            (put_member (m\<lparr>cm_is_quit := True, cm_quit_time := Some now\<rparr>) db) of
                       None \<Rightarrow> (False, db)
                     | Some db' \<Rightarrow> (True, db')))"

text \<open>
  \<open>rejoin\<close> tests \<open>is_quit\<close> only after it has set it to false, so the count is always raised.
\<close>

definition ConversationMemberTable_rejoin ::
  "bool \<Rightarrow> time \<Rightarrow> cid \<Rightarrow> uid \<Rightarrow> member_role \<Rightarrow> uid \<Rightarrow> join_source \<Rightarrow> conv_db \<Rightarrow> bool \<times> conv_db" where
  "ConversationMemberTable_rejoin ok now ssid uid role inviter source db =
     (if \<not> ok then (False, db)
      else case sel_member db (ssid, uid) of
             None \<Rightarrow> (False, db)
           | Some m \<Rightarrow>
               (let m1 = m\<lparr>cm_is_quit := False, cm_join_time := Some now, cm_role := role\<rparr>;
                    m2 = (if inviter \<noteq> [] then m1\<lparr>cm_inviter_id := Some inviter\<rparr> else m1);
                    m3 = m2\<lparr>cm_join_source := source\<rparr>;
                    db1 = put_member m3 db
                in if \<not> cm_is_quit m3
                   then (case update_session_member_count now ssid 1 db1 of
                           None \<Rightarrow> (False, db)
                         | Some db' \<Rightarrow> (True, db'))
                   else (True, db1)))"

definition ConversationMemberTable_remove_all :: "bool \<Rightarrow> cid \<Rightarrow> conv_db \<Rightarrow> bool \<times> conv_db" where
  "ConversationMemberTable_remove_all ok ssid db =
     (if \<not> ok then (False, db)
      else (True, db\<lparr>conversation_members :=
              filter (\<lambda>m. cm_conversation_id m \<noteq> ssid) (conversation_members db)\<rparr>))"

definition active_rows :: "cid \<Rightarrow> conv_db \<Rightarrow> conversation_member_row list" where
  "active_rows ssid db =
     filter (\<lambda>m. cm_conversation_id m = ssid \<and> \<not> cm_is_quit m) (conversation_members db)"

definition ConversationMemberTable_members :: "bool \<Rightarrow> cid \<Rightarrow> conv_db \<Rightarrow> uid list" where
  "ConversationMemberTable_members ok ssid db =
     (if \<not> ok then [] else map cm_user_id (active_rows ssid db))"

definition ConversationMemberTable_all_members :: "bool \<Rightarrow> cid \<Rightarrow> conv_db \<Rightarrow> uid list" where
  "ConversationMemberTable_all_members ok ssid db =
     (if \<not> ok then []
      else map cm_user_id (filter (\<lambda>m. cm_conversation_id m = ssid) (conversation_members db)))"

definition ConversationMemberTable_exists :: "bool \<Rightarrow> cid \<Rightarrow> uid \<Rightarrow> conv_db \<Rightarrow> bool" where
  "ConversationMemberTable_exists ok ssid uid db =
     (ok \<and> query_one (\<lambda>m. cm_key m = (ssid, uid) \<and> \<not> cm_is_quit m) (conversation_members db) \<noteq> None)"

definition ConversationMemberTable_select ::
  "bool \<Rightarrow> cid \<Rightarrow> uid \<Rightarrow> conv_db \<Rightarrow> conversation_member_row option" where
  "ConversationMemberTable_select ok ssid uid db = (if \<not> ok then None else sel_member db (ssid, uid))"

definition ConversationMemberTable_select_many ::
  "bool \<Rightarrow> cid \<Rightarrow> uid list \<Rightarrow> conv_db \<Rightarrow> conversation_member_row list" where
  "ConversationMemberTable_select_many ok ssid uids db =
     (if uids = [] \<or> \<not> ok then []
      else filter (\<lambda>m. cm_conversation_id m = ssid \<and> cm_user_id m \<in> set uids) (conversation_members db))"

definition ConversationMemberTable_update ::
  "bool \<Rightarrow> conversation_member_row \<Rightarrow> conv_db \<Rightarrow> bool \<times> conv_db" where
  "ConversationMemberTable_update ok csm db =
     (if \<not> ok \<or> sel_member db (cm_key csm) = None then (False, db) else (True, put_member csm db))"

text \<open>\<open>UPDATE ... SET col = GREATEST(col, n)\<close> for one row.\<close>

definition ConversationMemberTable_update_last_read_seq ::
  "bool \<Rightarrow> cid \<Rightarrow> uid \<Rightarrow> u64 \<Rightarrow> conv_db \<Rightarrow> bool \<times> conv_db" where
  "ConversationMemberTable_update_last_read_seq ok ssid uid new_seq db =
     (if \<not> ok then (False, db)
      else (True, db\<lparr>conversation_members := update_key cm_key (ssid, uid)
              (\<lambda>m. m\<lparr>cm_last_read_seq := max (cm_last_read_seq m) new_seq\<rparr>) (conversation_members db)\<rparr>))"

definition ConversationMemberTable_update_last_ack_seq ::
  "bool \<Rightarrow> cid \<Rightarrow> uid \<Rightarrow> u64 \<Rightarrow> conv_db \<Rightarrow> bool \<times> conv_db" where
  "ConversationMemberTable_update_last_ack_seq ok ssid uid new_seq db =
     (if \<not> ok then (False, db)
      else (True, db\<lparr>conversation_members := update_key cm_key (ssid, uid)
              (\<lambda>m. m\<lparr>cm_last_ack_seq := max (cm_last_ack_seq m) new_seq\<rparr>) (conversation_members db)\<rparr>))"

text \<open>Several methods load one row, change it and write it back.\<close>

definition modify_member ::
  "bool \<Rightarrow> cid \<Rightarrow> uid \<Rightarrow> (conversation_member_row \<Rightarrow> conversation_member_row) \<Rightarrow> conv_db \<Rightarrow> bool \<times> conv_db"
where
  "modify_member ok ssid uid f db =
     (if \<not> ok then (False, db)
      else case sel_member db (ssid, uid) of
             None \<Rightarrow> (False, db)
           | Some m \<Rightarrow> (True, put_member (f m) db))"

definition ConversationMemberTable_set_mute_until ::
  "bool \<Rightarrow> cid \<Rightarrow> uid \<Rightarrow> time \<Rightarrow> conv_db \<Rightarrow> bool \<times> conv_db" where
  "ConversationMemberTable_set_mute_until ok ssid uid t db =
     modify_member ok ssid uid (\<lambda>m. m\<lparr>cm_mute_until := Some t\<rparr>) db"

definition ConversationMemberTable_set_alias ::
  "bool \<Rightarrow> cid \<Rightarrow> uid \<Rightarrow> string \<Rightarrow> conv_db \<Rightarrow> bool \<times> conv_db" where
  "ConversationMemberTable_set_alias ok ssid uid alias db =
     modify_member ok ssid uid (\<lambda>m. m\<lparr>cm_alias := Some alias\<rparr>) db"

definition ConversationMemberTable_update_role ::
  "bool \<Rightarrow> cid \<Rightarrow> uid \<Rightarrow> member_role \<Rightarrow> conv_db \<Rightarrow> bool \<times> conv_db" where
  "ConversationMemberTable_update_role ok ssid uid role db =
     modify_member ok ssid uid (\<lambda>m. m\<lparr>cm_role := role\<rparr>) db"

definition ConversationMemberTable_update_draft ::
  "bool \<Rightarrow> cid \<Rightarrow> uid \<Rightarrow> string \<Rightarrow> conv_db \<Rightarrow> bool \<times> conv_db" where
  "ConversationMemberTable_update_draft ok cid uid draft db =
     modify_member ok cid uid
       (\<lambda>m. m\<lparr>cm_draft := (if draft = [] then None else Some draft)\<rparr>) db"

text \<open>The early return when the conversation row is missing commits the exchange of roles.\<close>

definition ConversationMemberTable_transfer_owner ::
  "bool \<Rightarrow> cid \<Rightarrow> uid \<Rightarrow> uid \<Rightarrow> conv_db \<Rightarrow> bool \<times> conv_db" where
  "ConversationMemberTable_transfer_owner ok cid old_owner new_owner db =
     (if \<not> ok then (False, db)
      else case (sel_member db (cid, old_owner), sel_member db (cid, new_owner)) of
             (Some m1, Some m2) \<Rightarrow>
               if cm_is_quit m2 then (False, db)
               else if cm_role m1 \<noteq> OWNER then (False, db)
               else let db1 = put_member (m1\<lparr>cm_role := ADMIN\<rparr>) db;
                        db2 = put_member (m2\<lparr>cm_role := OWNER\<rparr>) db1
                    in (case sel_conv db2 cid of
                          None \<Rightarrow> (False, db2)
                        | Some c \<Rightarrow> (True, put_conv (c\<lparr>cv_owner_id := Some new_owner\<rparr>) db2))
           | _ \<Rightarrow> (False, db))"

definition ConversationMemberTable_select_self ::
  "bool \<Rightarrow> cid \<Rightarrow> uid \<Rightarrow> conv_db \<Rightarrow> conversation_member_row option" where
  "ConversationMemberTable_select_self ok cid uid db = (if \<not> ok then None else sel_member db (cid, uid))"

text \<open>The join view: \<open>ORDER BY pin_time IS NOT NULL DESC, pin_time DESC, max_seq DESC,
  update_time DESC LIMIT 200\<close>.\<close>

type_synonym ordered_view = "conversation_row \<times> conversation_member_row"

definition view_order :: "ordered_view \<Rightarrow> int \<times> int \<times> int \<times> int" where
  "view_order v = (case v of (c, m) \<Rightarrow>
     (case cm_pin_time m of None \<Rightarrow> 1 | Some _ \<Rightarrow> 0,
      case cm_pin_time m of None \<Rightarrow> 0 | Some t \<Rightarrow> - t,
      - uint (cv_max_seq c), - cv_update_time c))"

definition user_views :: "uid \<Rightarrow> conv_db \<Rightarrow> ordered_view list" where
  "user_views uid db =
     filter (\<lambda>(c, m). cm_conversation_id m = cv_conversation_id c \<and> cm_user_id m = uid
                       \<and> \<not> cm_is_quit m \<and> cm_visible m)
       (List.product (conversations db) (conversation_members db))"

definition ConversationMemberTable_list_ordered_by_user :: "bool \<Rightarrow> uid \<Rightarrow> conv_db \<Rightarrow> ordered_view list" where
  "ConversationMemberTable_list_ordered_by_user ok uid db =
     (if \<not> ok then [] else take 200 (sort_key view_order (user_views uid db)))"

section \<open>SQL literals\<close>

fun escape_id :: "string \<Rightarrow> string" where
  "escape_id [] = []"
| "escape_id (c # s) = (if c = CHR 39 \<or> c = CHR 92 then [CHR 92, c] else [c]) @ escape_id s"

text \<open>
  How MySQL reads a single-quoted literal: a backslash takes the next character (the two
  characters the escape function produces stand for themselves), a quote ends the literal.
\<close>

fun read_literal :: "string \<Rightarrow> (string \<times> string) option" where
  "read_literal [] = None"
| "read_literal (c # s) =
     (if c = CHR 39 then Some ([], s)
      else if c = CHR 92
      then (case s of
              [] \<Rightarrow> None
            | d # t \<Rightarrow> map_option (\<lambda>(v, rest). (d # v, rest)) (read_literal t))
      else map_option (\<lambda>(v, rest). (c # v, rest)) (read_literal s))"

lemma read_escape_id: "read_literal (escape_id s @ CHR 39 # rest) = Some (s, rest)"
  by (induction s) auto

section \<open>What the operations do to rows and counts\<close>

definition cdb_wf :: "conv_db \<Rightarrow> bool" where
  "cdb_wf db = (keys_distinct cv_conversation_id (conversations db)
              \<and> keys_distinct cm_key (conversation_members db))"

definition nactive :: "conv_db \<Rightarrow> cid \<Rightarrow> nat" where
  "nactive db ssid = length (active_rows ssid db)"

definition is_active :: "cid \<Rightarrow> conversation_member_row \<Rightarrow> bool" where
  "is_active ssid m = (cm_conversation_id m = ssid \<and> \<not> cm_is_quit m)"

named_theorems conv_obs \<open>rows and counts after an elementary write\<close>

lemma nactive_filter: "nactive db ssid = length (filter (is_active ssid) (conversation_members db))"
  by (simp add: nactive_def active_rows_def is_active_def [abs_def])

lemma sel_conv_put_conv [conv_obs]:
  "sel_conv (put_conv c db) x =
     (if x = cv_conversation_id c \<and> sel_conv db x \<noteq> None then Some c else sel_conv db x)"
  by (auto simp: sel_conv_def put_conv_def select_key_put_row)

lemma sel_member_put_member [conv_obs]:
  "sel_member (put_member m db) k =
     (if k = cm_key m \<and> sel_member db k \<noteq> None then Some m else sel_member db k)"
  by (auto simp: sel_member_def put_member_def select_key_put_row)

lemma sel_put_frame [conv_obs]:
  "sel_conv (put_member m db) x = sel_conv db x"
  "sel_member (put_conv c db) k = sel_member db k"
  "nactive (put_conv c db) x = nactive db x"
  by (simp_all add: sel_conv_def sel_member_def put_member_def put_conv_def nactive_filter)

lemma cdb_wf_put [conv_obs]:
  "cdb_wf (put_conv c db) = cdb_wf db"
  "cdb_wf (put_member m db) = cdb_wf db"
  by (simp_all add: cdb_wf_def put_conv_def put_member_def)

lemma nactive_put_member:
  assumes "cdb_wf db" and "sel_member db (cm_key m) = Some m0"
  shows "nactive (put_member m db) x + of_bool (is_active x m0) = nactive db x + of_bool (is_active x m)"
  using assms length_filter_put_row [of cm_key "conversation_members db" m m0 "is_active x"]
  by (simp add: nactive_filter cdb_wf_def sel_member_def put_member_def)

lemma sel_conv_key: "sel_conv db x = Some c \<Longrightarrow> cv_conversation_id c = x"
  by (auto simp: sel_conv_def dest: select_key_SomeD)

lemma sel_member_key: "sel_member db k = Some m \<Longrightarrow> cm_key m = k"
  by (auto simp: sel_member_def dest: select_key_SomeD)

lemma sel_member_keyD:
  "sel_member db (ssid, uid) = Some m \<Longrightarrow> cm_conversation_id m = ssid \<and> cm_user_id m = uid"
  by (drule sel_member_key) (simp add: cm_key_def)

lemma sel_member_mem: "cdb_wf db \<Longrightarrow> m \<in> set (conversation_members db) \<Longrightarrow> sel_member db (cm_key m) = Some m"
  by (simp add: cdb_wf_def sel_member_def select_key_mem)

lemma sel_member_set: "sel_member db k = Some m \<Longrightarrow> m \<in> set (conversation_members db)"
  by (auto simp: sel_member_def dest: select_key_SomeD)

lemma active_rows_iff:
  "cdb_wf db \<Longrightarrow> m \<in> set (active_rows ssid db) \<longleftrightarrow>
     sel_member db (ssid, cm_user_id m) = Some m \<and> \<not> cm_is_quit m"
  by (auto simp: active_rows_def cm_key_def dest: sel_member_mem sel_member_set sel_member_keyD)

lemma set_members:
  "cdb_wf db \<Longrightarrow> (u \<in> set (ConversationMemberTable_members True ssid db)) =
     (\<exists>m. sel_member db (ssid, u) = Some m \<and> \<not> cm_is_quit m)"
proof
  assume wf: "cdb_wf db" and "u \<in> set (ConversationMemberTable_members True ssid db)"
  then obtain m where "m \<in> set (active_rows ssid db)" and "u = cm_user_id m"
    by (auto simp: ConversationMemberTable_members_def)
  with wf show "\<exists>m. sel_member db (ssid, u) = Some m \<and> \<not> cm_is_quit m"
    by (auto simp: active_rows_iff)
next
  assume wf: "cdb_wf db" and "\<exists>m. sel_member db (ssid, u) = Some m \<and> \<not> cm_is_quit m"
  then obtain m where m: "sel_member db (ssid, u) = Some m" "\<not> cm_is_quit m" by blast
  from m(1) have "cm_user_id m = u" by (simp add: sel_member_keyD)
  with m wf have "m \<in> set (active_rows ssid db)" by (simp add: active_rows_iff)
  with \<open>cm_user_id m = u\<close> show "u \<in> set (ConversationMemberTable_members True ssid db)"
    by (auto simp: ConversationMemberTable_members_def)
qed

lemma distinct_members: "cdb_wf db \<Longrightarrow> distinct (ConversationMemberTable_members ok ssid db)"
proof -
  assume "cdb_wf db"
  then have "distinct (map cm_key (active_rows ssid db))"
    by (simp add: cdb_wf_def keys_distinct_def active_rows_def distinct_map_filter)
  moreover have "map cm_key (active_rows ssid db) = map (Pair ssid) (map cm_user_id (active_rows ssid db))"
    by (auto simp: active_rows_def cm_key_def)
  ultimately have "distinct (map (Pair ssid) (map cm_user_id (active_rows ssid db)))" by simp
  then have "distinct (map cm_user_id (active_rows ssid db))" by (auto simp: distinct_map inj_on_def)
  then show ?thesis by (simp add: ConversationMemberTable_members_def)
qed

end
