(* ===== verification/Es_Outbox.thy ===== *)
theory Es_Outbox
  imports Conversation_Dao "HOL-Library.List_Lexorder" "HOL-Library.Char_ord"
begin

text \<open>
  The search index of conversations and its outbox: class ESConversation
  (common/dao/data_es.hpp) over the request builders of common/infra/icsearch.hpp, class
  ESOutbox (common/dao/data_redis.hpp), and the payloads, the retry loop and the reaper of
  conversation/source/conversation_server.h. The Elasticsearch index is a map from document
  ids to documents: indexing replaces a document, \<open>_update\<close> with \<open>doc_as_upsert\<close> merges
  fields into it, deleting an absent document answers 404. The outbox is a Redis sorted
  set. JSON text is produced and read by jsoncpp: the two functions are arguments.
\<close>

section \<open>JSON values\<close>

datatype json = JNull | JInt int | JString string | JArray "json list" | JObject "(string \<times> json) list"

text \<open>The accessors of \<open>Json::Value\<close>; \<open>None\<close> is a raised \<open>Json::LogicError\<close>.\<close>

fun json_get :: "string \<Rightarrow> json \<Rightarrow> json \<Rightarrow> json option" where
  "json_get k d JNull = Some d"
| "json_get k d (JObject kvs) = Some (case map_of kvs k of None \<Rightarrow> d | Some v \<Rightarrow> v)"
| "json_get k d _ = None"

fun json_asString :: "json \<Rightarrow> string option" where
  "json_asString JNull = Some []"
| "json_asString (JString s) = Some s"
| "json_asString (JInt n) = Some (int_to_string n)"
| "json_asString _ = None"

fun json_asInt :: "int \<Rightarrow> int \<Rightarrow> json \<Rightarrow> int option" where
  "json_asInt lo hi JNull = Some 0"
| "json_asInt lo hi (JInt n) = (if lo \<le> n \<and> n \<le> hi then Some n else None)"
| "json_asInt lo hi _ = None"

fun json_strings :: "json list \<Rightarrow> string list option" where
  "json_strings [] = Some []"
| "json_strings (j # js) =
     (case json_asString j of
        None \<Rightarrow> None
      | Some s \<Rightarrow> map_option (Cons s) (json_strings js))"

text \<open>\<open>root["mids"]\<close> and its elements; a null value has no elements.\<close>

fun json_mids :: "json \<Rightarrow> string list option" where
  "json_mids JNull = Some []"
| "json_mids (JArray js) = json_strings js"
| "json_mids (JObject []) = Some []"
| "json_mids (JInt n) = Some []"
| "json_mids (JString s) = Some []"
| "json_mids (JObject kvs) = None"

definition get_string :: "string \<Rightarrow> json \<Rightarrow> string option" where
  "get_string k root = Option.bind (json_get k (JString []) root) json_asString"

definition get_int :: "string \<Rightarrow> json \<Rightarrow> int option" where
  "get_int k root = Option.bind (json_get k (JInt 0) root) (json_asInt int32_min int32_max)"

definition get_int64 :: "string \<Rightarrow> json \<Rightarrow> int option" where
  "get_int64 k root =
     Option.bind (json_get k (JInt 0) root) (json_asInt (- (2 ^ 63)) (2 ^ 63 - 1))"

definition get_mids :: "json \<Rightarrow> string list option" where
  "get_mids root = Option.bind (json_get ''mids'' JNull root) json_mids"

section \<open>ESConversation\<close>

type_synonym es_doc = "string \<Rightarrow> json option"
type_synonym es_index = "cid \<Rightarrow> es_doc option"

definition secs :: "time \<Rightarrow> int" where
  "secs t = t div 1000"

definition es_conv_doc ::
  "cid \<Rightarrow> string \<Rightarrow> int \<Rightarrow> string \<Rightarrow> int \<Rightarrow> int \<Rightarrow> string \<Rightarrow> int \<Rightarrow> uid list \<Rightarrow> es_doc" where
  "es_conv_doc cid name type avatar status ts creator cts mids =
     map_of ([(''chat_session_id'', JString cid), (''chat_session_name'', JString name),
              (''chat_session_type'', JInt type), (''avatar_id'', JString avatar),
              (''status'', JInt status), (''update_time'', JInt ts),
              (''creator_id'', JString creator), (''create_time'', JInt cts)]
             @ (if mids \<noteq> [] then [(''member_ids'', JArray (map JString mids))] else []))"

definition conv_doc :: "conversation_row \<Rightarrow> uid list \<Rightarrow> es_doc" where
  "conv_doc c mids = es_conv_doc (cv_conversation_id c) (nullable_str (cv_conversation_name c))
     (type_code (cv_conversation_type c)) (nullable_str (cv_avatar_id c)) (status_code (cv_status c))
     (secs (cv_update_time c)) (nullable_str (cv_owner_id c)) (secs (cv_create_time c)) mids"

definition ESConversation_append_data ::
  "bool \<Rightarrow> conversation_row \<Rightarrow> uid list \<Rightarrow> es_index \<Rightarrow> bool \<times> es_index" where
  "ESConversation_append_data ok c mids idx =
     (if \<not> ok then (False, idx) else (True, idx(cv_conversation_id c \<mapsto> conv_doc c mids)))"

definition ESConversation_remove :: "bool \<Rightarrow> cid \<Rightarrow> es_index \<Rightarrow> bool \<times> es_index" where
  "ESConversation_remove ok cid idx =
     (if \<not> ok \<or> idx cid = None then (False, idx) else (True, idx(cid := None)))"

definition ESConversation_update_member_ids ::
  "bool \<Rightarrow> cid \<Rightarrow> uid list \<Rightarrow> es_index \<Rightarrow> bool \<times> es_index" where
  "ESConversation_update_member_ids ok cid mids idx =
     (let doc = [''member_ids'' \<mapsto> JArray (map JString mids)]
      in if \<not> ok then (False, idx)
         else (True, idx(cid \<mapsto> (case idx cid of None \<Rightarrow> doc | Some old \<Rightarrow> old ++ doc))))"

section \<open>ESOutbox\<close>

type_synonym zset = "(string \<times> int) list"

definition zadd :: "string \<Rightarrow> int \<Rightarrow> zset \<Rightarrow> zset" where
  "zadd m score z = filter (\<lambda>e. fst e \<noteq> m) z @ [(m, score)]"

definition zrem :: "string \<Rightarrow> zset \<Rightarrow> zset" where
  "zrem m z = filter (\<lambda>e. fst e \<noteq> m) z"

text \<open>Ascending scores, members of equal score in byte order.\<close>

definition zordered :: "zset \<Rightarrow> string list" where
  "zordered z = map fst (sort_key (\<lambda>e. (snd e, fst e)) z)"

definition ESOutbox_enqueue :: "bool \<Rightarrow> string \<Rightarrow> int \<Rightarrow> zset \<Rightarrow> zset" where
  "ESOutbox_enqueue ok payload score z = (if ok then zadd payload score z else z)"

definition ESOutbox_peek :: "bool \<Rightarrow> nat \<Rightarrow> zset \<Rightarrow> string list" where
  "ESOutbox_peek ok limit z = (if ok then take limit (zordered z) else [])"

definition ESOutbox_remove :: "bool \<Rightarrow> string \<Rightarrow> zset \<Rightarrow> zset" where
  "ESOutbox_remove ok payload z = (if ok then zrem payload z else z)"

section \<open>Payloads\<close>

definition outbox_payload_upsert :: "conversation_row \<Rightarrow> uid list \<Rightarrow> json" where
  "outbox_payload_upsert c mids = JObject
     [(''op'', JString ''upsert''), (''cid'', JString (cv_conversation_id c)),
      (''name'', JString (nullable_str (cv_conversation_name c))),
      (''type'', JInt (type_code (cv_conversation_type c))),
      (''avatar'', JString (nullable_str (cv_avatar_id c))),
      (''status'', JInt (status_code (cv_status c))),
      (''ut'', JInt (secs (cv_update_time c))), (''mids'', JArray (map JString mids))]"

definition outbox_payload_delete :: "cid \<Rightarrow> json" where
  "outbox_payload_delete cid = JObject [(''op'', JString ''delete''), (''cid'', JString cid)]"

definition outbox_payload_upd_members :: "cid \<Rightarrow> uid list \<Rightarrow> json" where
  "outbox_payload_upd_members cid mids = JObject
     [(''op'', JString ''upd_members''), (''cid'', JString cid), (''mids'', JArray (map JString mids))]"

section \<open>Retry, replay, reaper\<close>

text \<open>Three direct tries, then the outbox.\<close>

definition retry_es_write ::
  "(nat \<Rightarrow> bool) \<Rightarrow> string \<Rightarrow> time \<Rightarrow> (bool \<Rightarrow> 'i \<Rightarrow> bool \<times> 'i) \<Rightarrow> 'i \<times> zset \<Rightarrow>
     bool \<times> 'i \<times> zset" where
  "retry_es_write up payload now es_op s =
     (case s of (idx, z) \<Rightarrow>
      case es_op (up 0) idx of
        (True, idx1) \<Rightarrow> (True, idx1, z)
      | (False, idx1) \<Rightarrow>
          (case es_op (up 1) idx1 of
             (True, idx2) \<Rightarrow> (True, idx2, z)
           | (False, idx2) \<Rightarrow>
               (case es_op (up 2) idx2 of
                  (True, idx3) \<Rightarrow> (True, idx3, z)
                | (False, idx3) \<Rightarrow> (False, idx3, ESOutbox_enqueue (up 3) payload now z))))"

text \<open>
  One payload; \<open>None\<close> when a JSON accessor raises. The entity of an upsert is built from
  the payload, so its creation time is the update time and its owner is unset.
\<close>

definition replay_es_write ::
  "(string \<Rightarrow> json option) \<Rightarrow> bool \<Rightarrow> string \<Rightarrow> es_index \<Rightarrow> (bool \<times> es_index) option" where
  "replay_es_write unser ok payload idx =
     (case unser payload of
        None \<Rightarrow> Some (False, idx)
      | Some root \<Rightarrow>
          Option.bind (get_string ''op'' root) (\<lambda>op.
          Option.bind (get_string ''cid'' root) (\<lambda>cid.
            if op = ''upsert'' then
              Option.bind (get_string ''name'' root) (\<lambda>name.
              Option.bind (get_int ''type'' root) (\<lambda>type.
              Option.bind (get_string ''avatar'' root) (\<lambda>avatar.
              Option.bind (get_int ''status'' root) (\<lambda>status.
              Option.bind (get_int64 ''ut'' root) (\<lambda>ut.
              Option.bind (get_mids root) (\<lambda>mids.
                Some (if \<not> ok then (False, idx)
                      else (True, idx(cid \<mapsto>
                        es_conv_doc cid name (type mod 256) avatar (status mod 256) ut [] ut mids)))))))))
            else if op = ''delete'' then Some (ESConversation_remove ok cid idx)
            else if op = ''upd_members'' then
              Option.bind (get_mids root) (\<lambda>mids. Some (ESConversation_update_member_ids ok cid mids idx))
            else Some (False, idx))))"

text \<open>One pass of the reaper thread: an exception ends the pass.\<close>

fun reap_items ::
  "(string \<Rightarrow> json option) \<Rightarrow> calls \<Rightarrow> nat \<Rightarrow> string list \<Rightarrow> es_index \<times> zset \<Rightarrow> es_index \<times> zset" where
  "reap_items unser up i [] s = s"
| "reap_items unser up i (item # items) (idx, z) =
     (case replay_es_write unser (up 1 i) item idx of
        None \<Rightarrow> (idx, z)
      | Some (True, idx') \<Rightarrow> reap_items unser up (Suc i) items (idx', ESOutbox_remove (up 2 i) item z)
      | Some (False, idx') \<Rightarrow> reap_items unser up (Suc i) items (idx', z))"

definition reaper_pass :: "(string \<Rightarrow> json option) \<Rightarrow> calls \<Rightarrow> es_index \<times> zset \<Rightarrow> es_index \<times> zset" where
  "reaper_pass unser up s = reap_items unser up 0 (ESOutbox_peek (up 0 0) 50 (snd s)) s"

section \<open>Direct writes\<close>

lemma json_strings_map [simp]: "json_strings (map JString xs) = Some xs"
  by (induction xs) auto

lemmas json_access = get_string_def get_int_def get_int64_def get_mids_def int32_min_def int32_max_def

lemma type_code_bounds [simp]: "0 \<le> type_code t" "type_code t < 256"
  "- 2147483648 \<le> type_code t" "type_code t \<le> 2147483647"
  by (cases t; simp)+

lemma status_code_bounds [simp]: "0 \<le> status_code st" "status_code st < 256"
  "- 2147483648 \<le> status_code st" "status_code st \<le> 2147483647"
  by (cases st; simp)+

text \<open>A write is either in the index or, with Redis up, in the outbox.\<close>

lemma retry_es_write_cases:
  assumes "\<And>i. es_op False i = (False, i)" and "\<And>i i'. es_op True i = (False, i') \<Longrightarrow> i' = i"
    and "retry_es_write up payload now es_op (idx, z) = (b, idx', z')"
  shows "b \<and> es_op True idx = (True, idx') \<and> z' = z \<or>
         \<not> b \<and> z' = ESOutbox_enqueue (up 3) payload now z"
proof -
  have A: "es_op True i = (True, i')" if "es_op k i = (True, i')" for k i i'
    using that assms(1) by (cases k) auto
  have B: "i' = i" if "es_op k i = (False, i')" for k i i'
    using that assms(1,2) by (cases k) auto
  obtain b1 i1 where 1: "es_op (up 0) idx = (b1, i1)" by fastforce
  obtain b2 i2 where 2: "es_op (up 1) idx = (b2, i2)" by fastforce
  obtain b3 i3 where 3: "es_op (up 2) idx = (b3, i3)" by fastforce
  show ?thesis
    using assms(3) 1 2 3 B [of "up 0" idx i1] B [of "up 1" idx i2]
      A [of "up 0" idx i1] A [of "up 1" idx i2] A [of "up 2" idx i3]
    by (auto simp: retry_es_write_def split: bool.splits)
qed

section \<open>The outbox drains\<close>

text \<open>A payload that the index accepts whatever it holds: every upsert and member update.\<close>

definition replays :: "(string \<Rightarrow> json option) \<Rightarrow> string \<Rightarrow> bool" where
  "replays unser item = (\<forall>idx. \<exists>idx'. replay_es_write unser True item idx = Some (True, idx'))"

lemma replay_upd_members:
  assumes "unser p = Some (outbox_payload_upd_members cid mids)"
  shows "replay_es_write unser ok p idx = Some (ESConversation_update_member_ids ok cid mids idx)"
  using assms by (simp add: replay_es_write_def outbox_payload_upd_members_def json_access)

lemma replay_upsert:
  assumes "unser p = Some (outbox_payload_upsert c mids)"
    and "\<bar>secs (cv_update_time c)\<bar> < 2 ^ 63"
  shows "replay_es_write unser ok p idx =
     Some (if \<not> ok then (False, idx)
           else (True, idx(cv_conversation_id c \<mapsto>
             (conv_doc c mids)(''creator_id'' \<mapsto> JString [], ''create_time'' \<mapsto> JInt (secs (cv_update_time c))))))"
  using assms
  by (simp add: replay_es_write_def outbox_payload_upsert_def json_access conv_doc_def es_conv_doc_def
      fun_eq_iff abs_less_iff)

lemma replays_upd_members: "unser p = Some (outbox_payload_upd_members cid mids) \<Longrightarrow> replays unser p"
  by (simp add: replays_def replay_upd_members ESConversation_update_member_ids_def Let_def)

lemma replays_upsert:
  "unser p = Some (outbox_payload_upsert c mids) \<Longrightarrow> \<bar>secs (cv_update_time c)\<bar> < 2 ^ 63 \<Longrightarrow> replays unser p"
  by (simp add: replays_def replay_upsert)

lemma reap_items_replays:
  "\<forall>p \<in> set items. replays unser p \<Longrightarrow>
     snd (reap_items unser all_up i items (idx, z)) = filter (\<lambda>e. fst e \<notin> set items) z"
proof (induction items arbitrary: i idx z)
  case Nil
  then show ?case by simp
next
  case (Cons p items)
  then obtain idx' where "replay_es_write unser True p idx = Some (True, idx')"
    unfolding replays_def by (meson list.set_intros(1))
  with Cons show ?case
    by (simp add: ESOutbox_remove_def zrem_def conj_commute)
qed

definition zset_wf :: "zset \<Rightarrow> bool" where
  "zset_wf z = distinct (map fst z)"

lemma zset_wf_zadd: "zset_wf z \<Longrightarrow> zset_wf (zadd m sc z)"
  by (auto simp: zset_wf_def zadd_def distinct_map_filter)

lemma set_zordered: "set (zordered z) = fst ` set z"
  by (simp add: zordered_def)

lemma distinct_zordered: "zset_wf z \<Longrightarrow> distinct (zordered z)"
  unfolding zordered_def zset_wf_def
  by (metis (no_types, lifting) distinct_map distinct_sort set_sort)

lemma length_filter_keys:
  assumes "distinct (map fst z)" and "distinct ks" and "set ks \<subseteq> fst ` set z"
  shows "length (filter (\<lambda>e. fst e \<notin> set ks) z) = length z - length ks"
proof -
  have "length (filter (\<lambda>e. fst e \<notin> set ks) z) = card (set (map fst (filter (\<lambda>e. fst e \<notin> set ks) z)))"
    using distinct_card [of "map fst (filter (\<lambda>e. fst e \<notin> set ks) z)"] assms(1)
    by (simp add: distinct_map_filter del: set_map)
  also have "set (map fst (filter (\<lambda>e. fst e \<notin> set ks) z)) = set (map fst z) - set ks" by auto
  also have "card (set (map fst z) - set ks) = card (set (map fst z)) - card (set ks)"
    using assms(3) by (intro card_Diff_subset) auto
  finally show ?thesis
    using distinct_card [OF assms(1)] distinct_card [OF assms(2)] by simp
qed

lemma reaper_pass_length:
  assumes "zset_wf z" and "\<forall>p \<in> fst ` set z. replays unser p"
  shows "length (snd (reaper_pass unser all_up (idx, z))) = length z - 50"
    and "snd (reaper_pass unser all_up (idx, z)) = filter (\<lambda>e. fst e \<notin> set (take 50 (zordered z))) z"
proof -
  let ?ks = "take 50 (zordered z)"
  have sub: "set ?ks \<subseteq> fst ` set z"
    using set_take_subset [of 50 "zordered z"] by (simp add: set_zordered)
  with assms(2) have "\<forall>p \<in> set ?ks. replays unser p" by blast
  then show eq: "snd (reaper_pass unser all_up (idx, z)) = filter (\<lambda>e. fst e \<notin> set ?ks) z"
    by (simp add: reaper_pass_def ESOutbox_peek_def reap_items_replays)
  have "length ?ks = min 50 (length z)" by (simp add: zordered_def min.commute)
  moreover have "distinct ?ks" using assms(1) by (simp add: distinct_zordered)
  ultimately show "length (snd (reaper_pass unser all_up (idx, z))) = length z - 50"
    using length_filter_keys [OF assms(1) [unfolded zset_wf_def] _ sub] eq by simp
qed

primrec reaper_passes :: "(string \<Rightarrow> json option) \<Rightarrow> nat \<Rightarrow> es_index \<times> zset \<Rightarrow> es_index \<times> zset" where
  "reaper_passes unser 0 s = s"
| "reaper_passes unser (Suc n) s = reaper_passes unser n (reaper_pass unser all_up s)"

text \<open>The outbox drains: with Elasticsearch and Redis answering, and an outbox that
  holds only upserts and member updates (the payloads the index accepts in any state), \<open>n\<close>
  passes of the reaper empty an outbox of at most \<open>50 * n\<close> entries.\<close>

theorem outbox_drains:
  assumes "zset_wf z" and "\<forall>p \<in> fst ` set z. replays unser p" and "length z \<le> 50 * n"
  shows "snd (reaper_passes unser n (idx, z)) = []"
  using assms
proof (induction n arbitrary: idx z)
  case 0
  then show ?case by simp
next
  case (Suc n)
  obtain idx' z' where p: "reaper_pass unser all_up (idx, z) = (idx', z')" by fastforce
  have z': "z' = filter (\<lambda>e. fst e \<notin> set (take 50 (zordered z))) z"
    and "length z' = length z - 50"
    using reaper_pass_length [OF Suc.prems(1,2), of idx] p by simp_all
  moreover have "zset_wf z'"
    using Suc.prems(1) by (simp add: z' zset_wf_def distinct_map_filter)
  moreover have "\<forall>p \<in> fst ` set z'. replays unser p" using Suc.prems(2) by (auto simp: z')
  ultimately show ?case using Suc.IH [of z' idx'] Suc.prems(3) p by simp
qed

definition demo_unser :: "string \<Rightarrow> json option" where
  "demo_unser s = (if s = ''p'' then Some (outbox_payload_upd_members ''g'' [''a'']) else None)"

theorem outbox_drains_witness:
  "snd (reaper_passes demo_unser 1 ((\<lambda>_. None), [(''p'', 7)])) = []"
proof -
  have "zset_wf [(''p'', 7)]" by (simp add: zset_wf_def)
  moreover have "\<forall>p \<in> fst ` set [(''p'', 7::int)]. replays demo_unser p"
    by (simp add: replays_upd_members demo_unser_def)
  ultimately show ?thesis
    by (rule outbox_drains) simp
qed

text \<open>A delete is different. Once its document is gone (deleted by a request whose
  answer was lost, or never indexed), Elasticsearch answers 404, the replay counts as failed, and
  the entry stays at the head of the outbox through any number of passes.\<close>

theorem outbox_delete_of_absent_document_is_stuck:
  assumes "unser p = Some (outbox_payload_delete cid)" and "idx cid = None"
  shows "reaper_passes unser n (idx, [(p, t)]) = (idx, [(p, t)])"
proof (induction n)
  case (Suc n)
  have "replay_es_write unser True p idx = Some (False, idx)"
    using assms
    by (simp add: replay_es_write_def outbox_payload_delete_def json_access ESConversation_remove_def)
  then have "reaper_pass unser all_up (idx, [(p, t)]) = (idx, [(p, t)])"
    by (simp add: reaper_pass_def ESOutbox_peek_def zordered_def)
  with Suc show ?case by simp
qed simp

theorem outbox_delete_of_absent_document_is_stuck_witness:
  "reaper_passes (\<lambda>_. Some (outbox_payload_delete ''g'')) 1000 ((\<lambda>_. None), [(''p'', 7)]) =
     ((\<lambda>_. None), [(''p'', 7)])"
  by (rule outbox_delete_of_absent_document_is_stuck) simp_all

text \<open>An upsert that goes through the outbox reaches the index with the creator
  erased and the creation time replaced by the update time: the payload has neither field. All
  other fields are those of the direct write.\<close>

theorem replayed_upsert_document:
  assumes "unser p = Some (outbox_payload_upsert c mids)" and "\<bar>secs (cv_update_time c)\<bar> < 2 ^ 63"
    and "replay_es_write unser True p idx = Some (b, idx')"
  shows "b \<and> idx' (cv_conversation_id c) =
     Some ((conv_doc c mids)(''creator_id'' \<mapsto> JString [],
                             ''create_time'' \<mapsto> JInt (secs (cv_update_time c))))"
  using replay_upsert [of unser p c mids True idx] assms by (auto simp: fun_upd_same)

theorem replayed_upsert_document_witness:
  "\<exists>b idx'. replay_es_write (\<lambda>_. Some (outbox_payload_upsert
       ((Conversation ''g'' ''n'' GROUP 0 2 NORMAL)\<lparr>cv_owner_id := Some ''a''\<rparr>) [''a'', ''b''])) True ''p'' (\<lambda>_. None)
       = Some (b, idx') \<and> b \<and> map_option (\<lambda>d. d ''creator_id'') (idx' ''g'') = Some (Some (JString []))
       \<and> conv_doc ((Conversation ''g'' ''n'' GROUP 0 2 NORMAL)\<lparr>cv_owner_id := Some ''a''\<rparr>) [''a'', ''b''] ''creator_id''
           = Some (JString ''a'')"
proof -
  let ?c = "(Conversation ''g'' ''n'' GROUP 0 2 NORMAL)\<lparr>cv_owner_id := Some ''a''\<rparr>"
  let ?u = "\<lambda>_ :: string. Some (outbox_payload_upsert ?c [''a'', ''b''])"
  have t: "\<bar>secs (cv_update_time ?c)\<bar> < 2 ^ 63" by (simp add: Conversation_def secs_def)
  obtain b idx' where r: "replay_es_write ?u True ''p'' (\<lambda>_. None) = Some (b, idx')"
    using replay_upsert [of ?u "''p''" ?c "[''a'', ''b'']" True] t by auto
  have "b \<and> idx' (cv_conversation_id ?c) = Some ((conv_doc ?c [''a'', ''b''])
      (''creator_id'' \<mapsto> JString [], ''create_time'' \<mapsto> JInt (secs (cv_update_time ?c))))"
    by (rule replayed_upsert_document [OF _ t r]) simp
  with r show ?thesis
    by (auto simp: Conversation_def conv_doc_def es_conv_doc_def nullable_str_def)
qed

end
