(* ===== verification/Members_Cache.thy ===== *)
theory Members_Cache
  imports Rpc
begin

text \<open>
  The versioned member cache in Redis: common/utils/cache_version.hpp and the class
  \<open>Members\<close> of common/dao/data_redis.hpp with its Lua scripts. Redis keys hold strings, so
  the version is kept as the raw string; a version read is parsed to a 64-bit number and the
  scripts compare the strings. A Lua script runs atomically; a Redis error inside it stops it
  without undoing the commands before. The expiry of a key is a separate step.
  Shown: \<open>parse_cache_version\<close> accepts exactly the decimal numbers below \<open>2 ^ 64 - 1\<close>;
  the compare-and-set writes succeed exactly when the version is the observed one; the class
  satisfies the laws of a versioned cache.
\<close>

section \<open>cache_version.hpp\<close>

definition kUnknownCacheVersion :: u64 where
  "kUnknownCacheVersion = - 1"

fun parse_version_loop :: "u64 \<Rightarrow> string \<Rightarrow> u64 option" where
  "parse_version_loop parsed [] =
     (if parsed = kUnknownCacheVersion then None else Some parsed)"
| "parse_version_loop parsed (ch # cs) =
     (if \<not> is_digit ch then None
      else let digit = of_nat (digit_val ch)
           in if parsed > (kUnknownCacheVersion - digit) div 10 then None
              else parse_version_loop (parsed * 10 + digit) cs)"

definition parse_cache_version :: "string \<Rightarrow> u64 option" where
  "parse_cache_version raw = (if raw = [] then None else parse_version_loop 0 raw)"

definition cache_version_is_known :: "u64 \<Rightarrow> bool" where
  "cache_version_is_known v = (v \<noteq> kUnknownCacheVersion)"

definition cache_version_accepts_warm :: "u64 \<Rightarrow> u64 \<Rightarrow> bool" where
  "cache_version_accepts_warm observed current =
     (if \<not> cache_version_is_known observed \<or> \<not> cache_version_is_known current then False
      else observed = current)"

definition cache_snapshot_is_stable :: "u64 \<Rightarrow> u64 \<Rightarrow> bool" where
  "cache_snapshot_is_stable before after = cache_version_accepts_warm before after"

definition cache_l1_version_matches :: "u64 \<Rightarrow> u64 \<Rightarrow> bool" where
  "cache_l1_version_matches cached current = cache_version_accepts_warm cached current"

definition cache_sentinel_confirms_empty :: "bool \<Rightarrow> bool \<Rightarrow> bool" where
  "cache_sentinel_confirms_empty stable_snapshot_empty sentinel_exists =
     (stable_snapshot_empty \<and> sentinel_exists)"

definition cache_ttl_allows_write :: "int \<Rightarrow> bool" where
  "cache_ttl_allows_write ttl = (ttl > 0)"

definition u64_to_string :: "u64 \<Rightarrow> string" where
  "u64_to_string v = nat_to_string (unat v)"

section \<open>The class Members\<close>

record members_redis =
  mr_set :: "cid \<Rightarrow> uid list"          \<comment> \<open>SET key, empty when absent\<close>
  mr_version :: "cid \<Rightarrow> string option"
  mr_sentinel :: "cid \<Rightarrow> bool"

record members_snapshot =
  snap_members :: "uid list"
  snap_version :: u64
  snap_stable :: bool

definition Members_version :: "bool \<Rightarrow> cid \<Rightarrow> members_redis \<Rightarrow> u64" where
  "Members_version ok ssid r =
     (if \<not> ok then kUnknownCacheVersion
      else case mr_version r ssid of
             None \<Rightarrow> 0
           | Some raw \<Rightarrow> (case parse_cache_version raw of
                             None \<Rightarrow> kUnknownCacheVersion
                           | Some v \<Rightarrow> v))"

definition Members_list :: "bool \<Rightarrow> cid \<Rightarrow> members_redis \<Rightarrow> uid list" where
  "Members_list ok ssid r = (if ok then mr_set r ssid else [])"

text \<open>The three reads of a snapshot see three Redis states, in this order.\<close>

definition Members_list_snapshot ::
  "bool \<times> bool \<times> bool \<Rightarrow> cid \<Rightarrow> members_redis \<Rightarrow> members_redis \<Rightarrow> members_redis \<Rightarrow> members_snapshot"
where
  "Members_list_snapshot oks ssid r1 r2 r3 =
     (case oks of (ok1, ok2, ok3) \<Rightarrow>
      let before = Members_version ok1 ssid r1 in
      if \<not> ok2 then \<lparr>snap_members = [], snap_version = 0, snap_stable = False\<rparr>
      else let after = Members_version ok3 ssid r3
           in \<lparr>snap_members = mr_set r2 ssid, snap_version = after,
               snap_stable = cache_snapshot_is_stable before after\<rparr>)"

text \<open>\<open>INCR\<close>: an absent key counts as 0; a value that is no integer, or the largest one, is an error.\<close>

definition redis_incr :: "string option \<Rightarrow> string option" where
  "redis_incr v =
     (case v of
        None \<Rightarrow> Some (nat_to_string 1)
      | Some raw \<Rightarrow>
          if raw \<noteq> [] \<and> list_all is_digit raw \<and> digits_val raw < 2 ^ 63 - 1
          then Some (nat_to_string (digits_val raw + 1)) else None)"

text \<open>The current version as the scripts see it: \<open>GET\<close>, with \<open>'0'\<close> for an absent key.\<close>

definition lua_version :: "cid \<Rightarrow> members_redis \<Rightarrow> string" where
  "lua_version ssid r = (case mr_version r ssid of None \<Rightarrow> ''0'' | Some v \<Rightarrow> v)"

definition Members_warm_if_version ::
  "bool \<Rightarrow> cid \<Rightarrow> uid list \<Rightarrow> u64 \<Rightarrow> int \<Rightarrow> members_redis \<Rightarrow> bool \<times> members_redis" where
  "Members_warm_if_version ok ssid uids observed ttl r =
     (if uids = [] then (False, r)
      else if \<not> cache_version_is_known observed then (False, r)
      else if \<not> cache_ttl_allows_write ttl then (False, r)
      else if \<not> ok then (False, r)
      else if lua_version ssid r \<noteq> u64_to_string observed then (False, r)
      else (True, r\<lparr>mr_set := (mr_set r)(ssid := remdups uids),
                    mr_sentinel := (mr_sentinel r)(ssid := False)\<rparr>))"

definition Members_set_sentinel_if_version ::
  "bool \<Rightarrow> cid \<Rightarrow> u64 \<Rightarrow> int \<Rightarrow> members_redis \<Rightarrow> bool \<times> members_redis" where
  "Members_set_sentinel_if_version ok ssid observed ttl r =
     (if \<not> cache_version_is_known observed then (False, r)
      else if \<not> cache_ttl_allows_write ttl then (False, r)
      else if \<not> ok then (False, r)
      else if lua_version ssid r \<noteq> u64_to_string observed then (False, r)
      else (True, r\<lparr>mr_set := (mr_set r)(ssid := []),
                    mr_sentinel := (mr_sentinel r)(ssid := True)\<rparr>))"

definition Members_add :: "bool \<Rightarrow> cid \<Rightarrow> uid \<Rightarrow> members_redis \<Rightarrow> members_redis" where
  "Members_add ok ssid uid r =
     (if \<not> ok then r
      else let r1 = r\<lparr>mr_set := (mr_set r)(ssid := List.insert uid (mr_set r ssid)),
                      mr_sentinel := (mr_sentinel r)(ssid := False)\<rparr>
           in case redis_incr (mr_version r ssid) of
                None \<Rightarrow> r1
              | Some v \<Rightarrow> r1\<lparr>mr_version := (mr_version r)(ssid \<mapsto> v)\<rparr>)"

definition Members_remove :: "bool \<Rightarrow> cid \<Rightarrow> uid \<Rightarrow> members_redis \<Rightarrow> members_redis" where
  "Members_remove ok ssid uid r =
     (if \<not> ok then r
      else let r1 = r\<lparr>mr_set := (mr_set r)(ssid := removeAll uid (mr_set r ssid)),
                      mr_sentinel := (mr_sentinel r)(ssid := False)\<rparr>
           in case redis_incr (mr_version r ssid) of
                None \<Rightarrow> r1
              | Some v \<Rightarrow> r1\<lparr>mr_version := (mr_version r)(ssid \<mapsto> v)\<rparr>)"

definition Members_invalidate :: "bool \<Rightarrow> cid \<Rightarrow> members_redis \<Rightarrow> members_redis" where
  "Members_invalidate ok ssid r =
     (if \<not> ok then r
      else case redis_incr (mr_version r ssid) of
             None \<Rightarrow> r
           | Some v \<Rightarrow> r\<lparr>mr_version := (mr_version r)(ssid \<mapsto> v),
                         mr_set := (mr_set r)(ssid := []),
                         mr_sentinel := (mr_sentinel r)(ssid := False)\<rparr>)"

definition Members_is_sentinel :: "bool \<Rightarrow> cid \<Rightarrow> members_redis \<Rightarrow> bool" where
  "Members_is_sentinel ok ssid r = (ok \<and> mr_sentinel r ssid)"

definition Members_expire :: "cid \<Rightarrow> members_redis \<Rightarrow> members_redis" where
  "Members_expire ssid r = r\<lparr>mr_set := (mr_set r)(ssid := [])\<rparr>"

definition Members_sentinel_expire :: "cid \<Rightarrow> members_redis \<Rightarrow> members_redis" where
  "Members_sentinel_expire ssid r = r\<lparr>mr_sentinel := (mr_sentinel r)(ssid := False)\<rparr>"

definition empty_members_redis :: members_redis where
  "empty_members_redis = \<lparr>mr_set = (\<lambda>_. []), mr_version = (\<lambda>_. None), mr_sentinel = (\<lambda>_. False)\<rparr>"

section \<open>Parsing a version\<close>

lemma unat_kUnknown: "unat kUnknownCacheVersion = 2 ^ 64 - 1"
proof -
  have "kUnknownCacheVersion = (of_nat (2 ^ 64 - 1) :: u64)" by (simp add: kUnknownCacheVersion_def)
  moreover have "unat (of_nat (2 ^ 64 - 1) :: u64) = 2 ^ 64 - 1" by (subst unat_of_nat) simp
  ultimately show ?thesis by simp
qed

lemma digits_val_Cons_acc: "foldl (\<lambda>n c. n * 10 + digit_val c) a ds =
    a * 10 ^ length ds + digits_val ds"
proof (induction ds arbitrary: a)
  case Nil
  then show ?case by (simp add: digits_val_def)
next
  case (Cons d ds)
  from Cons.IH [of "a * 10 + digit_val d"] Cons.IH [of "digit_val d"]
  show ?case by (simp add: digits_val_def algebra_simps)
qed

lemma digit_val_le: "is_digit c \<Longrightarrow> digit_val c \<le> 9"
  unfolding is_digit_def digit_val_def by linarith

lemma unat_small: "n < 2 ^ 64 \<Longrightarrow> unat (of_nat n :: u64) = n"
  by (simp add: unat_of_nat)

lemma unat_u64: "unat (w :: u64) < 2 ^ 64"
proof -
  have "unat w < 2 ^ LENGTH(64)" by (rule unsigned_less)
  then show ?thesis by simp
qed

lemma not_less_scaled:
  assumes "m < x"
  shows "\<not> x * 10 ^ n + r < (m :: nat)"
proof -
  have "x \<le> x * 10 ^ n" by simp
  with assms show ?thesis by linarith
qed

lemma div_ten_less: "d \<le> (m :: nat) \<Longrightarrow> (m - d) div 10 < p \<longleftrightarrow> m < p * 10 + d"
  by (simp add: div_less_iff_less_mult less_diff_conv2)

lemma version_overflow_check:
  assumes "d \<le> 9"
  shows "p > (kUnknownCacheVersion - of_nat d) div 10 \<longleftrightarrow> unat p * 10 + d > 2 ^ 64 - 1"
proof -
  have d: "unat (of_nat d :: u64) = d" using assms by (intro unat_small) simp
  have "(of_nat d :: u64) \<le> kUnknownCacheVersion"
    by (simp add: kUnknownCacheVersion_def)
  then have "unat (kUnknownCacheVersion - of_nat d) = 2 ^ 64 - 1 - d"
    by (simp add: unat_sub d unat_kUnknown)
  then have "unat ((kUnknownCacheVersion - of_nat d) div 10) = (2 ^ 64 - 1 - d) div 10"
    by (simp add: unat_div)
  then have "p > (kUnknownCacheVersion - of_nat d) div 10 \<longleftrightarrow> unat p > (2 ^ 64 - 1 - d) div 10"
    by (simp add: word_less_nat_alt)
  also have "\<dots> \<longleftrightarrow> unat p * 10 + d > 2 ^ 64 - 1"
    by (rule div_ten_less) (use assms in simp)
  finally show ?thesis .
qed

lemma parse_version_loop_eq:
  "parse_version_loop p cs =
     (if list_all is_digit cs \<and> unat p * 10 ^ length cs + digits_val cs < 2 ^ 64 - 1
      then Some (of_nat (unat p * 10 ^ length cs + digits_val cs)) else None)"
proof (induction p cs rule: parse_version_loop.induct)
  case (1 p)
  have "p = kUnknownCacheVersion \<longleftrightarrow> unat p = 2 ^ 64 - 1"
    by (metis unat_kUnknown word_unat_eq_iff)
  moreover have "unat p < 2 ^ 64" by (rule unat_u64)
  ultimately show ?case by (auto simp: digits_val_def)
next
  case (2 p ch cs)
  show ?case
  proof (cases "is_digit ch")
    case False
    then show ?thesis by simp
  next
    case True
    note d = digit_val_le [OF True]
    have val: "unat p * 10 ^ length (ch # cs) + digits_val (ch # cs) =
        (unat p * 10 + digit_val ch) * 10 ^ length cs + digits_val cs"
      using digits_val_Cons_acc [of "digit_val ch" cs] by (simp add: digits_val_def algebra_simps)
    show ?thesis
    proof (cases "unat p * 10 + digit_val ch > 2 ^ 64 - 1")
      case big: True
      from not_less_scaled [OF big]
      have "\<not> (unat p * 10 + digit_val ch) * 10 ^ length cs + digits_val cs < 2 ^ 64 - 1" .
      with big True version_overflow_check [OF d, of p] show ?thesis
        unfolding val by (simp add: Let_def)
    next
      case small: False
      then have u: "unat (p * 10 + of_nat (digit_val ch)) = unat p * 10 + digit_val ch"
        using d by (simp add: unat_word_ariths unat_small)
      from "2.IH" [OF _ refl] True small version_overflow_check [OF d, of p] show ?thesis
        unfolding val by (simp add: Let_def u)
    qed
  qed
qed

text \<open>A version string is accepted exactly when it is a non-empty string of digits
  whose value is below the reserved value \<open>2 ^ 64 - 1\<close>, and then the value is exact: the
  overflow test of the loop is neither too early nor too late.\<close>

theorem parse_cache_version_exact:
  "parse_cache_version raw =
     (if raw \<noteq> [] \<and> list_all is_digit raw \<and> digits_val raw < 2 ^ 64 - 1
      then Some (of_nat (digits_val raw)) else None)"
  by (simp add: parse_cache_version_def parse_version_loop_eq)

section \<open>Versions as numbers\<close>

definition vnum :: "cid \<Rightarrow> members_redis \<Rightarrow> nat" where
  "vnum ssid r = (case mr_version r ssid of None \<Rightarrow> 0 | Some raw \<Rightarrow> digits_val raw)"

text \<open>The version keys hold what \<open>INCR\<close> writes.\<close>

definition versions_wf :: "members_redis \<Rightarrow> bool" where
  "versions_wf r = (\<forall>ssid raw. mr_version r ssid = Some raw \<longrightarrow>
     raw = nat_to_string (digits_val raw) \<and> digits_val raw < 2 ^ 63)"

lemma versions_wf_empty: "versions_wf empty_members_redis"
  by (simp add: versions_wf_def empty_members_redis_def)

lemma vnum_bound: "versions_wf r \<Longrightarrow> vnum ssid r < 2 ^ 63"
  by (auto simp: versions_wf_def vnum_def split: option.splits)

lemma list_all_digits_wf: "raw = nat_to_string n \<Longrightarrow> raw \<noteq> [] \<and> list_all is_digit raw"
  by (simp add: nat_to_string_digits)

lemma Members_version_vnum:
  assumes "versions_wf r"
  shows "Members_version True ssid r = of_nat (vnum ssid r)"
proof (cases "mr_version r ssid")
  case None
  then show ?thesis by (simp add: Members_version_def vnum_def)
next
  case (Some raw)
  with assms have raw: "raw = nat_to_string (digits_val raw)" "digits_val raw < 2 ^ 63"
    by (auto simp: versions_wf_def)
  from list_all_digits_wf [OF raw(1)] raw(2) have "parse_cache_version raw = Some (of_nat (digits_val raw))"
    by (simp add: parse_cache_version_def parse_version_loop_eq)
  with Some show ?thesis by (simp add: Members_version_def vnum_def)
qed

lemma unat_Members_version: "versions_wf r \<Longrightarrow> unat (Members_version True ssid r) = vnum ssid r"
  using vnum_bound [of r ssid] by (simp add: Members_version_vnum unat_small)

lemma Members_version_known: "versions_wf r \<Longrightarrow> cache_version_is_known (Members_version True ssid r)"
  using vnum_bound [of r ssid] unat_Members_version [of r ssid] unat_kUnknown
  by (auto simp: cache_version_is_known_def)

lemma lua_version_vnum: "versions_wf r \<Longrightarrow> lua_version ssid r = nat_to_string (vnum ssid r)"
  by (auto simp: lua_version_def vnum_def versions_wf_def nat_to_string_0 split: option.splits)

lemma lua_version_matches:
  "versions_wf r \<Longrightarrow> lua_version ssid r = u64_to_string v \<longleftrightarrow> vnum ssid r = unat v"
  by (simp add: lua_version_vnum u64_to_string_def nat_to_string_inject)

lemma redis_incr_vnum:
  assumes "versions_wf r" and "vnum ssid r < 2 ^ 63 - 1"
  shows "redis_incr (mr_version r ssid) = Some (nat_to_string (vnum ssid r + 1))"
proof (cases "mr_version r ssid")
  case None
  then show ?thesis by (simp add: redis_incr_def vnum_def)
next
  case (Some raw)
  with assms(1) have "raw = nat_to_string (digits_val raw)" by (auto simp: versions_wf_def)
  from list_all_digits_wf [OF this] assms(2) Some show ?thesis by (simp add: redis_incr_def vnum_def)
qed

section \<open>The interface: a versioned cache of one list\<close>

text \<open>
  What the readers and writers of a conversation rely on. \<open>warm\<close> and \<open>mark\<close> write only
  at the version they were given, \<open>inval\<close> moves the version up and drops the content.
\<close>

locale versioned_cache =
  fixes ok :: "'c \<Rightarrow> bool" and ver :: "'c \<Rightarrow> nat" and content :: "'c \<Rightarrow> 'u list"
    and marked :: "'c \<Rightarrow> bool" and room :: "'c \<Rightarrow> bool" and tok :: "'v \<Rightarrow> nat"
    and warm :: "'u list \<Rightarrow> 'v \<Rightarrow> 'c \<Rightarrow> bool \<times> 'c"
    and mark :: "'v \<Rightarrow> 'c \<Rightarrow> bool \<times> 'c"
    and inval :: "'c \<Rightarrow> 'c"
  assumes warm_spec: "\<And>c us v b c'. ok c \<Longrightarrow> warm us v c = (b, c') \<Longrightarrow> ok c' \<and> ver c' = ver c \<and>
       (if b then ver c = tok v \<and> set (content c') = set us \<and> us \<noteq> [] \<and> \<not> marked c' else c' = c)"
    and mark_spec: "\<And>c v b c'. ok c \<Longrightarrow> mark v c = (b, c') \<Longrightarrow> ok c' \<and> ver c' = ver c \<and>
       (if b then ver c = tok v \<and> content c' = [] \<and> marked c' else c' = c)"
    and inval_spec: "\<And>c. ok c \<Longrightarrow> room c \<Longrightarrow>
       ok (inval c) \<and> ver (inval c) = ver c + 1 \<and> content (inval c) = [] \<and> \<not> marked (inval c)"
begin

text \<open>The cache agrees with a list when its content and its empty mark do.\<close>

definition agrees :: "'c \<Rightarrow> 'u list \<Rightarrow> bool" where
  "agrees c rows = ((content c \<noteq> [] \<longrightarrow> set (content c) = set rows) \<and> (marked c \<longrightarrow> rows = []))"

lemma agrees_inval: "ok c \<Longrightarrow> room c \<Longrightarrow> agrees (inval c) rows"
  by (simp add: agrees_def inval_spec)

lemma agrees_warm:
  assumes "ok c" and "warm rows v c = (b, c')" and "agrees c rows"
  shows "agrees c' rows"
  using warm_spec [OF assms(1,2)] assms(3) by (cases b) (auto simp: agrees_def)

lemma agrees_mark:
  assumes "ok c" and "mark v c = (b, c')" and "agrees c []"
  shows "agrees c' []"
  using mark_spec [OF assms(1,2)] assms(3) by (cases b) (auto simp: agrees_def)

lemma stale_warm_refused:
  assumes "ok c" and "room c" and "tok v \<le> ver c"
  shows "warm us v (inval c) = (False, inval c)"
proof -
  obtain b c' where w: "warm us v (inval c) = (b, c')" by fastforce
  note i = inval_spec [OF assms(1,2)]
  have "\<not> b" using warm_spec [OF _ w] i assms(3) by (cases b) auto
  then show ?thesis using w warm_spec [OF _ w] i by simp
qed

lemma stale_mark_refused:
  assumes "ok c" and "room c" and "tok v \<le> ver c"
  shows "mark v (inval c) = (False, inval c)"
proof -
  obtain b c' where w: "mark v (inval c) = (b, c')" by fastforce
  note i = inval_spec [OF assms(1,2)]
  have "\<not> b" using mark_spec [OF _ w] i assms(3) by (cases b) auto
  then show ?thesis using w mark_spec [OF _ w] i by simp
qed

end

definition kMembersTtl :: int where
  "kMembersTtl = 1800"

definition members_room :: "cid \<Rightarrow> members_redis \<Rightarrow> bool" where
  "members_room ssid r = (vnum ssid r < 2 ^ 63 - 1)"

lemma versions_wf_update [simp]:
  "versions_wf (r\<lparr>mr_set := a, mr_sentinel := b\<rparr>) = versions_wf r"
  by (simp add: versions_wf_def)

lemma vnum_update [simp]: "vnum ssid (r\<lparr>mr_set := a, mr_sentinel := b\<rparr>) = vnum ssid r"
  by (simp add: vnum_def)

lemma invalidate_vnum:
  assumes "versions_wf r" and "members_room ssid r"
  shows "versions_wf (Members_invalidate True ssid r) \<and>
    vnum ssid (Members_invalidate True ssid r) = vnum ssid r + 1 \<and>
    mr_set (Members_invalidate True ssid r) ssid = [] \<and>
    \<not> mr_sentinel (Members_invalidate True ssid r) ssid"
  using assms redis_incr_vnum [OF assms(1), of ssid]
  by (auto simp: Members_invalidate_def members_room_def versions_wf_def vnum_def)

interpretation members: versioned_cache versions_wf "vnum ssid" "\<lambda>r. mr_set r ssid"
    "\<lambda>r. mr_sentinel r ssid" "members_room ssid" unat
    "\<lambda>us v. Members_warm_if_version ok ssid us v kMembersTtl"
    "\<lambda>v. Members_set_sentinel_if_version ok ssid v 60"
    "Members_invalidate True ssid"
  for ssid ok
proof
  fix c us v b c'
  assume "versions_wf c" and "Members_warm_if_version ok ssid us v kMembersTtl c = (b, c')"
  then show "versions_wf c' \<and> vnum ssid c' = vnum ssid c \<and>
      (if b then vnum ssid c = unat v \<and> set (mr_set c' ssid) = set us \<and> us \<noteq> [] \<and> \<not> mr_sentinel c' ssid else c' = c)"
    by (auto simp: Members_warm_if_version_def lua_version_matches split: if_splits)
next
  fix c v b c'
  assume "versions_wf c" and "Members_set_sentinel_if_version ok ssid v 60 c = (b, c')"
  then show "versions_wf c' \<and> vnum ssid c' = vnum ssid c \<and>
      (if b then vnum ssid c = unat v \<and> mr_set c' ssid = [] \<and> mr_sentinel c' ssid else c' = c)"
    by (auto simp: Members_set_sentinel_if_version_def lua_version_matches split: if_splits)
next
  fix c
  assume "versions_wf c" and "members_room ssid c"
  then show "versions_wf (Members_invalidate True ssid c) \<and>
      vnum ssid (Members_invalidate True ssid c) = vnum ssid c + 1 \<and>
      mr_set (Members_invalidate True ssid c) ssid = [] \<and> \<not> mr_sentinel (Members_invalidate True ssid c) ssid"
    by (rule invalidate_vnum)
qed

end
