(* ===== verification/Members_Race.thy ===== *)
theory Members_Race
  imports Members_Cache
begin

text \<open>
  Concurrent requests on the member cache of one conversation, at the granularity of single
  Redis and MySQL calls. A reader that missed the cache (GetMemberIds, and the same code in
  the transmite service) reads the version, then the member rows, then publishes them with a
  compare-and-set; a writer commits a membership change, then invalidates. Any number of
  readers and writers interleave; keys expire at any time; a Redis call of a reader can fail,
  a reader can stop anywhere. \<open>ra_dirty\<close> counts the committed changes whose invalidation
  has not completed yet.
\<close>

datatype reader_phase = Idle | Versioned u64 | Loaded u64 "uid list"

record race_state =
  ra_redis :: members_redis
  ra_rows :: "uid list"
  ra_dirty :: nat
  ra_reader :: "nat \<Rightarrow> reader_phase"

definition publish_members :: "bool \<Rightarrow> cid \<Rightarrow> u64 \<Rightarrow> uid list \<Rightarrow> members_redis \<Rightarrow> bool \<times> members_redis" where
  "publish_members ok cid v uids r =
     (if uids = [] then Members_set_sentinel_if_version ok cid v 60 r
      else Members_warm_if_version ok cid uids v kMembersTtl r)"

inductive race_step :: "cid \<Rightarrow> race_state \<Rightarrow> race_state \<Rightarrow> bool" for cid :: cid where
  read_version: "ra_reader s i = Idle \<Longrightarrow>
     race_step cid s (s\<lparr>ra_reader := (ra_reader s)(i := Versioned (Members_version ok cid (ra_redis s)))\<rparr>)"
| load_rows: "ra_reader s i = Versioned v \<Longrightarrow>
     race_step cid s (s\<lparr>ra_reader := (ra_reader s)(i := Loaded v (ra_rows s))\<rparr>)"
| publish: "ra_reader s i = Loaded v uids \<Longrightarrow> publish_members ok cid v uids (ra_redis s) = (b, r') \<Longrightarrow>
     race_step cid s (s\<lparr>ra_redis := r', ra_reader := (ra_reader s)(i := Idle)\<rparr>)"
| abandon: "race_step cid s (s\<lparr>ra_reader := (ra_reader s)(i := Idle)\<rparr>)"
| commit: "race_step cid s (s\<lparr>ra_rows := rows, ra_dirty := Suc (ra_dirty s)\<rparr>)"
| invalidate: "0 < ra_dirty s \<Longrightarrow> members_room cid (ra_redis s) \<Longrightarrow>
     race_step cid s (s\<lparr>ra_redis := Members_invalidate True cid (ra_redis s), ra_dirty := ra_dirty s - 1\<rparr>)"
| invalidate_fails: "0 < ra_dirty s \<Longrightarrow>
     race_step cid s (s\<lparr>ra_redis := Members_invalidate False cid (ra_redis s)\<rparr>)"
| expire: "race_step cid s (s\<lparr>ra_redis := Members_expire cid (ra_redis s)\<rparr>)"
| sentinel_expire: "race_step cid s (s\<lparr>ra_redis := Members_sentinel_expire cid (ra_redis s)\<rparr>)"

definition race_init :: "cid \<Rightarrow> race_state \<Rightarrow> bool" where
  "race_init cid s = (ra_redis s = empty_members_redis \<and> ra_dirty s = 0 \<and> ra_reader s = (\<lambda>_. Idle))"

section \<open>The invariant\<close>

definition cache_agrees :: "cid \<Rightarrow> members_redis \<Rightarrow> uid list \<Rightarrow> bool" where
  "cache_agrees cid r rows =
     ((mr_set r cid \<noteq> [] \<longrightarrow> set (mr_set r cid) = set rows) \<and> (mr_sentinel r cid \<longrightarrow> rows = []))"

text \<open>A reader's version is at most the current one, and at the current one with no change
  outstanding its rows are the current rows.\<close>

fun reader_ok :: "cid \<Rightarrow> race_state \<Rightarrow> reader_phase \<Rightarrow> bool" where
  "reader_ok cid s Idle = True"
| "reader_ok cid s (Versioned v) = (v = kUnknownCacheVersion \<or> unat v \<le> vnum cid (ra_redis s))"
| "reader_ok cid s (Loaded v uids) = (v = kUnknownCacheVersion \<or>
     (unat v \<le> vnum cid (ra_redis s) \<and>
      (unat v = vnum cid (ra_redis s) \<longrightarrow> ra_dirty s = 0 \<longrightarrow> uids = ra_rows s)))"

definition race_inv :: "cid \<Rightarrow> race_state \<Rightarrow> bool" where
  "race_inv cid s =
     (versions_wf (ra_redis s) \<and>
      (ra_dirty s = 0 \<longrightarrow> cache_agrees cid (ra_redis s) (ra_rows s)) \<and>
      (\<forall>i. reader_ok cid s (ra_reader s i)))"

lemma race_invI:
  assumes "versions_wf (ra_redis s)"
    and "ra_dirty s = 0 \<Longrightarrow> cache_agrees cid (ra_redis s) (ra_rows s)"
    and "\<And>i. reader_ok cid s (ra_reader s i)"
  shows "race_inv cid s"
  using assms by (simp add: race_inv_def)

lemma race_invD:
  assumes "race_inv cid s"
  shows "versions_wf (ra_redis s)"
    and "ra_dirty s = 0 \<Longrightarrow> cache_agrees cid (ra_redis s) (ra_rows s)"
    and "reader_ok cid s (ra_reader s i)"
  using assms by (auto simp: race_inv_def)

lemma cache_agrees_empty: "cache_agrees cid empty_members_redis rows"
  by (simp add: cache_agrees_def empty_members_redis_def)

lemma race_init_inv: "race_init cid s \<Longrightarrow> race_inv cid s"
  by (rule race_invI) (simp_all add: race_init_def versions_wf_empty cache_agrees_empty)

text \<open>A reader's condition depends on the version, the dirty count and the rows only.\<close>

lemma reader_ok_cong:
  "vnum cid (ra_redis t) = vnum cid (ra_redis s) \<Longrightarrow> ra_dirty t = ra_dirty s \<Longrightarrow> ra_rows t = ra_rows s \<Longrightarrow>
    reader_ok cid t p = reader_ok cid s p"
  by (cases p) auto

lemma reader_ok_dirty:
  "reader_ok cid s p \<Longrightarrow> vnum cid (ra_redis t) = vnum cid (ra_redis s) \<Longrightarrow> 0 < ra_dirty t \<Longrightarrow>
    reader_ok cid t p"
  by (cases p) auto

lemma reader_ok_newer:
  "reader_ok cid s p \<Longrightarrow> vnum cid (ra_redis s) < vnum cid (ra_redis t) \<Longrightarrow> reader_ok cid t p"
  by (cases p) auto

lemma publish_unknown: "publish_members ok cid kUnknownCacheVersion uids r = (False, r)"
  by (simp add: publish_members_def Members_set_sentinel_if_version_def Members_warm_if_version_def
      cache_version_is_known_def)

lemma publish_spec:
  assumes "versions_wf r" and "publish_members ok cid v uids r = (b, r')"
  shows "versions_wf r' \<and> vnum cid r' = vnum cid r \<and>
    (if b then vnum cid r = unat v \<and> cache_agrees cid r' uids else r' = r)"
proof (cases "uids = []")
  case True
  then show ?thesis
    using members.mark_spec [OF assms(1), of ok cid v b r'] assms(2)
    by (auto simp: publish_members_def cache_agrees_def split: if_splits)
next
  case False
  then show ?thesis
    using members.warm_spec [OF assms(1), of ok cid uids v b r'] assms(2)
    by (auto simp: publish_members_def cache_agrees_def split: if_splits)
qed

lemma race_publish_inv:
  assumes inv: "race_inv cid s" and rd: "ra_reader s i = Loaded v uids"
    and pub: "publish_members ok cid v uids (ra_redis s) = (b, r')"
  shows "race_inv cid (s\<lparr>ra_redis := r', ra_reader := (ra_reader s)(i := Idle)\<rparr>)"
proof (rule race_invI)
  let ?t = "s\<lparr>ra_redis := r', ra_reader := (ra_reader s)(i := Idle)\<rparr>"
  note ps = publish_spec [OF race_invD(1) [OF inv] pub]
  show "versions_wf (ra_redis ?t)" using ps by simp
  show "reader_ok cid ?t (ra_reader ?t j)" for j
    using race_invD(3) [OF inv, of j] ps reader_ok_cong [of cid ?t s] by simp
  assume "ra_dirty ?t = 0"
  then have d: "ra_dirty s = 0" by simp
  show "cache_agrees cid (ra_redis ?t) (ra_rows ?t)"
  proof (cases b)
    case False
    with ps race_invD(2) [OF inv d] show ?thesis by simp
  next
    case True
    with pub publish_unknown [of ok cid uids "ra_redis s"] have "v \<noteq> kUnknownCacheVersion" by auto
    with True ps d race_invD(3) [OF inv, of i] rd have "uids = ra_rows s" by simp
    with True ps show ?thesis by simp
  qed
qed

lemma race_read_version_inv:
  assumes inv: "race_inv cid s"
  shows "race_inv cid (s\<lparr>ra_reader := (ra_reader s)(i := Versioned (Members_version ok cid (ra_redis s)))\<rparr>)"
proof (rule race_invI)
  let ?t = "s\<lparr>ra_reader := (ra_reader s)(i := Versioned (Members_version ok cid (ra_redis s)))\<rparr>"
  have "Members_version ok cid (ra_redis s) = kUnknownCacheVersion \<or>
      unat (Members_version ok cid (ra_redis s)) = vnum cid (ra_redis s)"
    using unat_Members_version [OF race_invD(1) [OF inv]]
    by (cases ok) (auto simp: Members_version_def)
  then show "reader_ok cid ?t (ra_reader ?t j)" for j
    using race_invD(3) [OF inv, of j] reader_ok_cong [of cid ?t s] by auto
qed (use race_invD [OF inv] in simp_all)

lemma race_load_inv:
  assumes inv: "race_inv cid s" and "ra_reader s i = Versioned v"
  shows "race_inv cid (s\<lparr>ra_reader := (ra_reader s)(i := Loaded v (ra_rows s))\<rparr>)"
proof (rule race_invI)
  let ?t = "s\<lparr>ra_reader := (ra_reader s)(i := Loaded v (ra_rows s))\<rparr>"
  show "reader_ok cid ?t (ra_reader ?t j)" for j
    using race_invD(3) [OF inv, of j] race_invD(3) [OF inv, of i] assms(2) reader_ok_cong [of cid ?t s]
    by auto
qed (use race_invD [OF inv] in simp_all)

lemma race_invalidate_inv:
  assumes inv: "race_inv cid s" and "members_room cid (ra_redis s)"
  shows "race_inv cid (s\<lparr>ra_redis := Members_invalidate True cid (ra_redis s), ra_dirty := ra_dirty s - 1\<rparr>)"
proof (rule race_invI)
  let ?t = "s\<lparr>ra_redis := Members_invalidate True cid (ra_redis s), ra_dirty := ra_dirty s - 1\<rparr>"
  note i = invalidate_vnum [OF race_invD(1) [OF inv] assms(2)]
  show "reader_ok cid ?t (ra_reader ?t j)" for j
    using reader_ok_newer [OF race_invD(3) [OF inv, of j], of ?t] i by simp
qed (use invalidate_vnum [OF race_invD(1) [OF inv] assms(2)] in \<open>simp_all add: cache_agrees_def\<close>)

lemma race_step_inv:
  assumes "race_inv cid s" and "race_step cid s t"
  shows "race_inv cid t"
  using assms(2)
proof (cases rule: race_step.cases)
  case (read_version i ok)
  then show ?thesis using race_read_version_inv [OF assms(1)] by simp
next
  case (load_rows i v)
  then show ?thesis using race_load_inv [OF assms(1)] by simp
next
  case (publish i v uids ok b r')
  then show ?thesis using race_publish_inv [OF assms(1)] by simp
next
  case (abandon i)
  have "reader_ok cid t (ra_reader t j)" for j
    using race_invD(3) [OF assms(1), of j] reader_ok_cong [of cid t s] abandon by simp
  then show ?thesis using race_invD(1,2) [OF assms(1)] abandon by (simp add: race_inv_def)
next
  case (commit rows)
  have "reader_ok cid t (ra_reader t j)" for j
    using reader_ok_dirty [OF race_invD(3) [OF assms(1), of j], of t] commit by simp
  then show ?thesis using race_invD(1) [OF assms(1)] commit by (simp add: race_inv_def)
next
  case invalidate
  then show ?thesis using race_invalidate_inv [OF assms(1)] by simp
next
  case invalidate_fails
  then have "t = s" by (simp add: Members_invalidate_def)
  with assms(1) show ?thesis by simp
next
  case expire
  have "reader_ok cid t (ra_reader t j)" for j
    using race_invD(3) [OF assms(1), of j] reader_ok_cong [of cid t s] expire
    by (simp add: Members_expire_def vnum_def)
  then show ?thesis
    using race_invD(1,2) [OF assms(1)] expire
    by (auto simp: race_inv_def Members_expire_def versions_wf_def cache_agrees_def)
next
  case sentinel_expire
  have "reader_ok cid t (ra_reader t j)" for j
    using race_invD(3) [OF assms(1), of j] reader_ok_cong [of cid t s] sentinel_expire
    by (simp add: Members_sentinel_expire_def vnum_def)
  then show ?thesis
    using race_invD(1,2) [OF assms(1)] sentinel_expire
    by (auto simp: race_inv_def Members_sentinel_expire_def versions_wf_def cache_agrees_def)
qed

interpretation race_system: invariant_system "race_init cid" "race_step cid" "race_inv cid" for cid
  by unfold_locales (auto intro: race_init_inv race_step_inv)

text \<open>Claim C6. Under every interleaving of readers and writers, once every committed membership
  change has been followed by its invalidation, what the cache serves is the current membership:
  a non-empty member set equals the active members, and the empty sentinel stands only when
  there are none. A reader that loaded rows before a change can never publish them after it.\<close>

theorem members_cache_coherent:
  assumes "reach (race_init cid) (race_step cid) s" and "ra_dirty s = 0"
  shows "(Members_list True cid (ra_redis s) \<noteq> [] \<longrightarrow>
            set (Members_list True cid (ra_redis s)) = set (ra_rows s))
       \<and> (Members_is_sentinel True cid (ra_redis s) \<longrightarrow> ra_rows s = [])"
proof -
  have "race_inv cid s" using assms(1) by (rule race_system.inv_reach)
  from race_invD(2) [OF this assms(2)] show ?thesis
    by (simp add: cache_agrees_def Members_list_def Members_is_sentinel_def)
qed

definition race_start :: race_state where
  "race_start = \<lparr>ra_redis = empty_members_redis, ra_rows = [''a'', ''b''], ra_dirty = 0,
     ra_reader = (\<lambda>_. Idle)\<rparr>"

definition race_warmed :: race_state where
  "race_warmed = race_start\<lparr>ra_redis := empty_members_redis\<lparr>mr_set := (\<lambda>_. [])(''g'' := [''a'', ''b''])\<rparr>\<rparr>"

lemma race_warmed_reachable: "reach (race_init ''g'') (race_step ''g'') race_warmed"
proof -
  let ?s1 = "race_start\<lparr>ra_reader := (ra_reader race_start)(0 := Versioned 0)\<rparr>"
  let ?s2 = "?s1\<lparr>ra_reader := (ra_reader ?s1)(0 := Loaded 0 [''a'', ''b''])\<rparr>"
  have "reach (race_init ''g'') (race_step ''g'') race_start"
    by (rule reach_init) (simp add: race_init_def race_start_def)
  moreover have "race_step ''g'' race_start ?s1"
    using race_step.read_version [of race_start 0 "''g''" True]
    by (simp add: race_start_def Members_version_def empty_members_redis_def)
  moreover have "race_step ''g'' ?s1 ?s2"
    using race_step.load_rows [of ?s1 0 0 "''g''"] by (simp add: race_start_def)
  moreover have "publish_members True ''g'' 0 [''a'', ''b''] (ra_redis ?s2) = (True, ra_redis race_warmed)"
    by (simp add: publish_members_def Members_warm_if_version_def race_start_def race_warmed_def
        empty_members_redis_def lua_version_def u64_to_string_def nat_to_string_0 cache_version_is_known_def
        kUnknownCacheVersion_def cache_ttl_allows_write_def kMembersTtl_def fun_eq_iff)
  moreover have "race_step ''g'' ?s2 race_warmed"
    using race_step.publish [of ?s2 0 0 "[''a'', ''b'']" True "''g''", OF _ calculation(4)]
    by (simp add: race_start_def race_warmed_def fun_upd_idem)
  ultimately show ?thesis by (blast intro: reach_step)
qed

theorem members_cache_coherent_witness:
  "Members_list True ''g'' (ra_redis race_warmed) = [''a'', ''b''] \<and>
   set (Members_list True ''g'' (ra_redis race_warmed)) = set (ra_rows race_warmed)"
proof -
  have l: "Members_list True ''g'' (ra_redis race_warmed) = [''a'', ''b'']"
    by (simp add: Members_list_def race_warmed_def empty_members_redis_def)
  moreover have "ra_dirty race_warmed = 0" by (simp add: race_warmed_def race_start_def)
  ultimately show ?thesis
    using members_cache_coherent [OF race_warmed_reachable] by simp
qed

end
