(* ===== verification/Conversation.thy ===== *)
theory Conversation
  imports Es_Outbox Members_Race
begin

text \<open>
  ConversationServiceImpl (conversation/source/conversation_server.h): its helpers and its
  eighteen RPC handlers, each as the body that \<open>HANDLE_RPC\<close> runs on the service's state:
  the two MySQL tables, the member cache and the last-message cache in Redis, the search index
  and its outbox. The environment of a request holds the clock, the fresh uuid, the call
  oracle, the replies of the identity and message services, the search of Elasticsearch, the
  two jsoncpp functions and the configured URL prefix.
\<close>

record conv_state =
  cs_db :: conv_db
  cs_members :: members_redis
  cs_last :: "string \<Rightarrow> string option"
  cs_es :: es_index
  cs_outbox :: zset

record conv_env =
  ce_now :: time
  ce_uuid :: string
  ce_up :: calls
  ce_identity :: "string \<Rightarrow> uid list \<Rightarrow> (uid \<times> user_info) list rpc_outcome"
  ce_message :: "string \<Rightarrow> cid \<Rightarrow> u64 \<Rightarrow> message_preview list rpc_outcome"
  ce_search :: "string \<Rightarrow> uid \<Rightarrow> cid list"
  ce_ser :: "json \<Rightarrow> string"
  ce_unser :: "string \<Rightarrow> json option"
  ce_url_prefix :: string

section \<open>Helpers\<close>

definition to_ms :: "time option \<Rightarrow> int" where
  "to_ms t = (case t of None \<Rightarrow> 0 | Some ms \<Rightarrow> ms)"

text \<open>The identity lookup is fail-soft: every failure leaves the map empty.\<close>

definition fetch_user_infos :: "conv_env \<Rightarrow> string \<Rightarrow> uid list \<Rightarrow> (uid \<times> user_info) list" where
  "fetch_user_infos e rid uids =
     (if uids = [] then []
      else case rpc_ok (ce_identity e rid uids) of None \<Rightarrow> [] | Some m \<Rightarrow> m)"

definition require_member :: "bool \<Rightarrow> cid \<Rightarrow> uid \<Rightarrow> conv_db \<Rightarrow> bool" where
  "require_member ok cid uid db =
     (case ConversationMemberTable_select_self ok cid uid db of
        None \<Rightarrow> False | Some m \<Rightarrow> \<not> cm_is_quit m)"

definition role_of :: "bool \<Rightarrow> cid \<Rightarrow> uid \<Rightarrow> conv_db \<Rightarrow> member_role" where
  "role_of ok cid uid db =
     (case ConversationMemberTable_select_self ok cid uid db of
        None \<Rightarrow> Role_NORMAL
      | Some m \<Rightarrow> if cm_is_quit m then Role_NORMAL else cm_role m)"

definition private_id_of :: "uid \<Rightarrow> uid \<Rightarrow> cid" where
  "private_id_of a b =
     (let lo = (if a < b then a else b); hi = (if a < b then b else a)
      in ''p_'' @ lo @ ''_'' @ hi)"

definition avatar_url_of :: "conv_env \<Rightarrow> string \<Rightarrow> string" where
  "avatar_url_of e file_id = ce_url_prefix e @ ''/group_avatar/'' @ file_id"

definition fill_self_member_info :: "conversation_member_row \<Rightarrow> u64 \<Rightarrow> self_member_info" where
  "fill_self_member_info m max_seq =
     \<lparr>sm_role = role_code (cm_role m), sm_joined_at_ms = to_ms (cm_join_time m),
      sm_is_muted = cm_muted m, sm_is_pinned = (cm_pin_time m \<noteq> None),
      sm_pin_time_ms = to_ms (cm_pin_time m), sm_is_visible = cm_visible m,
      sm_last_read_seq = cm_last_read_seq m,
      sm_unread_count = (if max_seq > cm_last_read_seq m then max_seq - cm_last_read_seq m else 0),
      sm_draft = cm_draft m\<rparr>"

definition serialize_preview_json :: "message_preview \<Rightarrow> json" where
  "serialize_preview_json p = JObject
     [(''mid'', JInt (mp_message_id p)), (''sid'', JString (mp_sender_id p)),
      (''type'', JInt (mp_message_type p)), (''ts'', JInt (mp_sent_at_ms p)),
      (''status'', JInt (mp_status p))]"

text \<open>\<open>None\<close>: an accessor raises; \<open>Some None\<close>: the text is no JSON.\<close>

definition parse_preview_json :: "(string \<Rightarrow> json option) \<Rightarrow> string \<Rightarrow> message_preview option option" where
  "parse_preview_json unser text =
     (case unser text of
        None \<Rightarrow> Some None
      | Some root \<Rightarrow>
          Option.bind (get_int64 ''mid'' root) (\<lambda>mid.
          Option.bind (get_string ''sid'' root) (\<lambda>sid.
          Option.bind (get_int ''type'' root) (\<lambda>type.
          Option.bind (get_int64 ''ts'' root) (\<lambda>ts.
          Option.bind (get_int ''status'' root) (\<lambda>status.
            Some (Some \<lparr>mp_message_id = mid, mp_sender_id = sid, mp_message_type = type,
                        mp_sent_at_ms = ts, mp_status = status\<rparr>)))))))"

definition last_msg_key :: "cid \<Rightarrow> uid \<Rightarrow> u64 \<Rightarrow> string" where
  "last_msg_key cid caller after_seq = cid @ '':'' @ caller @ '':'' @ u64_to_string after_seq"

text \<open>Call 20 is the cache read, call 21 the cache write; \<open>i\<close> is the position in the caller's loop.\<close>

definition fetch_last_message ::
  "conv_env \<Rightarrow> nat \<Rightarrow> string \<Rightarrow> cid \<Rightarrow> u64 \<Rightarrow> uid \<Rightarrow> conv_state \<Rightarrow> (exn + message_preview option) \<times> conv_state"
where
  "fetch_last_message e i rid cid after_seq caller s =
     (let k = last_msg_key cid caller after_seq;
          fetch = (case rpc_ok (ce_message e rid cid after_seq) of
                     None \<Rightarrow> (Inr None, s)
                   | Some [] \<Rightarrow> (Inr None, s)
                   | Some (m # _) \<Rightarrow>
                       (Inr (Some m),
                        if ce_up e 21 i
                        then s\<lparr>cs_last := (cs_last s)(k \<mapsto> ce_ser e (serialize_preview_json m))\<rparr> else s))
      in case (if ce_up e 20 i then cs_last s k else None) of
           None \<Rightarrow> fetch
         | Some text \<Rightarrow>
             (case parse_preview_json (ce_unser e) text of
                None \<Rightarrow> (Inl (StdException ''Json::LogicError''), s)
              | Some None \<Rightarrow> fetch
              | Some (Some p) \<Rightarrow> (Inr (Some p), s)))"

definition invalidate_members_cache :: "bool \<Rightarrow> cid \<Rightarrow> conv_state \<Rightarrow> conv_state" where
  "invalidate_members_cache ok cid s = s\<lparr>cs_members := Members_invalidate ok cid (cs_members s)\<rparr>"

definition es_write ::
  "conv_env \<Rightarrow> nat \<Rightarrow> json \<Rightarrow> (bool \<Rightarrow> es_index \<Rightarrow> bool \<times> es_index) \<Rightarrow> conv_state \<Rightarrow> conv_state" where
  "es_write e k payload es_op s =
     (case retry_es_write (ce_up e k) (ce_ser e payload) (ce_now e) es_op (cs_es s, cs_outbox s) of
        (_, idx, z) \<Rightarrow> s\<lparr>cs_es := idx, cs_outbox := z\<rparr>)"

text \<open>The tail that the three membership handlers share: write the current members to the index.\<close>

definition es_refresh_members :: "conv_env \<Rightarrow> nat \<Rightarrow> cid \<Rightarrow> conv_state \<Rightarrow> conv_state" where
  "es_refresh_members e k cid s =
     (let updated_uids = ConversationMemberTable_members (ce_up e k 9) cid (cs_db s)
      in if updated_uids \<noteq> []
         then es_write e k (outbox_payload_upd_members cid updated_uids)
                (\<lambda>ok. ESConversation_update_member_ids ok cid updated_uids) s
         else s)"

section \<open>Life cycle of a conversation\<close>

definition MarkRead :: "conv_env \<Rightarrow> auth_context \<Rightarrow> cid \<Rightarrow> u64 \<Rightarrow> conv_state \<Rightarrow> (exn + unit) \<times> conv_state" where
  "MarkRead e auth cid last_read_seq s =
     (if \<not> require_member (ce_up e 0 0) cid (user_id auth) (cs_db s)
      then (Inl (ServiceError kConversationNotMember ''not member''), s)
      else case ConversationMemberTable_update_last_read_seq (ce_up e 1 0) cid (user_id auth)
                  last_read_seq (cs_db s) of
             (_, db') \<Rightarrow> (Inr (), s\<lparr>cs_db := db'\<rparr>))"

fun entity_type :: "conversation_type_p \<Rightarrow> conversation_type" where
  "entity_type P_PRIVATE = PRIVATE"
| "entity_type P_GROUP = GROUP"
| "entity_type _ = CHANNEL"

definition new_entity :: "conv_env \<Rightarrow> uid \<Rightarrow> create_conversation_req \<Rightarrow> cid \<Rightarrow> conversation_row" where
  "new_entity e uid req cid =
     (let c0 = Conversation cid (nullable_str (ccq_name req)) (entity_type (ccq_type req)) (ce_now e)
                 (1 + int (length (ccq_member_ids req))) NORMAL
      in c0\<lparr>cv_peer_user_id := (if ccq_type req = P_PRIVATE then Some (hd (ccq_member_ids req)) else None),
            cv_owner_id := (if ccq_type req = P_GROUP then Some uid else None),
            cv_avatar_id := ccq_avatar_url req, cv_description := ccq_description req\<rparr>)"

definition owner_role :: "conversation_type_p \<Rightarrow> member_role" where
  "owner_role type_p = (if type_p = P_GROUP then OWNER else Role_NORMAL)"

definition new_member_rows :: "conv_env \<Rightarrow> uid \<Rightarrow> create_conversation_req \<Rightarrow> cid \<Rightarrow> conversation_member_row list" where
  "new_member_rows e uid req cid =
     ConversationMember cid uid False True (owner_role (ccq_type req)) (ce_now e)
     # map (\<lambda>mid. ConversationMember cid mid False True Role_NORMAL (ce_now e))
         (filter (\<lambda>mid. mid \<noteq> uid) (ccq_member_ids req))"

definition created_rsp :: "conv_env \<Rightarrow> create_conversation_req \<Rightarrow> conversation_row \<Rightarrow> conversation_p" where
  "created_rsp e req ent = empty_conversation_p
     \<lparr>cp_conversation_id := cv_conversation_id ent, cp_type := type_p_code (ccq_type req),
      cp_name := nullable_str (cv_conversation_name ent),
      cp_avatar_url := (if nullable_str (cv_avatar_id ent) \<noteq> []
                        then avatar_url_of e (nullable_str (cv_avatar_id ent)) else []),
      cp_member_count := 1 + int (length (ccq_member_ids req)), cp_status := 0,
      cp_created_at_ms := cv_create_time ent,
      cp_self := Some (empty_self_member_info\<lparr>sm_role := role_code (owner_role (ccq_type req)),
                                              sm_joined_at_ms := ce_now e\<rparr>)\<rparr>"

definition CreateConversation ::
  "conv_env \<Rightarrow> auth_context \<Rightarrow> create_conversation_req \<Rightarrow> conv_state \<Rightarrow> (exn + conversation_p) \<times> conv_state"
where
  "CreateConversation e auth req s =
     (let type_p = ccq_type req; ids = ccq_member_ids req; up = ce_up e; uid = user_id auth in
      if type_p = CONVERSATION_TYPE_UNSPECIFIED
      then (Inl (ServiceError kSystemInvalidArgument ''conversation type must be specified''), s)
      else if type_p = P_PRIVATE \<and> length ids \<noteq> 1
      then (Inl (ServiceError kSystemInvalidArgument ''private requires exactly 1 peer''), s)
      else if type_p = P_GROUP \<and> length ids = 0
      then (Inl (ServiceError kSystemInvalidArgument ''group needs initial members''), s)
      else
        let cid = (if type_p = P_PRIVATE then private_id_of uid (hd ids) else ''g_'' @ ce_uuid e) in
        if type_p = P_PRIVATE \<and> ConversationTable_exists (up 0 0) cid (cs_db s)
        then if \<not> require_member (up 1 0) cid uid (cs_db s)
             then (Inl (ServiceError kConversationNotMember
                          ''conversation exists but you are not a member''), s)
             else (Inr (empty_conversation_p\<lparr>cp_conversation_id := cid, cp_type := type_p_code type_p\<rparr>), s)
        else (case ConversationTable_insert (up 2 0) (ce_now e) (new_entity e uid req cid) (cs_db s) of
                ((False, _), db1) \<Rightarrow>
                  (Inl (ServiceError kSystemInternalError ''insert conversation failed''), s\<lparr>cs_db := db1\<rparr>)
              | ((True, ent), db1) \<Rightarrow>
                  (case ConversationMemberTable_append_after_create (up 3 0) (ce_now e)
                          (new_member_rows e uid req cid) db1 of
                     (False, db2) \<Rightarrow>
                       (Inl (ServiceError kSystemInternalError ''insert members failed''), s\<lparr>cs_db := db2\<rparr>)
                   | (True, db2) \<Rightarrow>
                       (Inr (created_rsp e req ent),
                        es_write e 5 (outbox_payload_upsert ent (uid # ids))
                          (\<lambda>ok. ESConversation_append_data ok ent (uid # ids))
                          (invalidate_members_cache (up 4 0) cid (s\<lparr>cs_db := db2\<rparr>))))))"

record update_conversation_req =
  ucq_conversation_id :: cid
  ucq_name :: "string option"
  ucq_avatar_url :: "string option"
  ucq_description :: "string option"
  ucq_announcement :: "string option"

definition set_opt :: "'a option \<Rightarrow> 'a option \<Rightarrow> 'a option" where
  "set_opt new old = (case new of None \<Rightarrow> old | Some v \<Rightarrow> Some v)"

definition apply_update :: "update_conversation_req \<Rightarrow> conversation_row \<Rightarrow> conversation_row" where
  "apply_update req c = c
     \<lparr>cv_conversation_name := set_opt (ucq_name req) (cv_conversation_name c),
      cv_avatar_id := set_opt (ucq_avatar_url req) (cv_avatar_id c),
      cv_description := set_opt (ucq_description req) (cv_description c),
      cv_announcement := set_opt (ucq_announcement req) (cv_announcement c)\<rparr>"

definition conversation_rsp :: "conv_env \<Rightarrow> conversation_row \<Rightarrow> conversation_p" where
  "conversation_rsp e c = empty_conversation_p
     \<lparr>cp_conversation_id := cv_conversation_id c, cp_type := type_code (cv_conversation_type c),
      cp_name := nullable_str (cv_conversation_name c),
      cp_avatar_url := (if nullable_str (cv_avatar_id c) \<noteq> []
                        then avatar_url_of e (nullable_str (cv_avatar_id c)) else []),
      cp_description := (if nullable_str (cv_description c) \<noteq> []
                         then Some (nullable_str (cv_description c)) else None),
      cp_member_count := cv_member_count c, cp_status := status_code (cv_status c),
      cp_created_at_ms := cv_create_time c\<rparr>"

definition UpdateConversation ::
  "conv_env \<Rightarrow> auth_context \<Rightarrow> update_conversation_req \<Rightarrow> conv_state \<Rightarrow> (exn + conversation_p) \<times> conv_state"
where
  "UpdateConversation e auth req s =
     (let cid = ucq_conversation_id req; role = role_of (ce_up e 0 0) cid (user_id auth) (cs_db s) in
      if role \<noteq> OWNER \<and> role \<noteq> ADMIN
      then (Inl (ServiceError kConversationNoPermission ''owner/admin only''), s)
      else case ConversationTable_select (ce_up e 1 0) cid (cs_db s) of
             None \<Rightarrow> (Inl (ServiceError kConversationNotFound ''not found''), s)
           | Some c \<Rightarrow>
               (case ConversationTable_update (ce_up e 2 0) (ce_now e) (apply_update req c) (cs_db s) of
                  ((False, _), db') \<Rightarrow>
                    (Inl (ServiceError kSystemInternalError ''update failed''), s\<lparr>cs_db := db'\<rparr>)
                | ((True, c'), db') \<Rightarrow>
                    (let uids = ConversationMemberTable_members (ce_up e 3 0) cid db'
                     in (Inr (conversation_rsp e c'),
                         es_write e 5 (outbox_payload_upsert c' uids)
                           (\<lambda>ok. ESConversation_append_data ok c' uids) (s\<lparr>cs_db := db'\<rparr>)))))"

definition DismissConversation :: "conv_env \<Rightarrow> auth_context \<Rightarrow> cid \<Rightarrow> conv_state \<Rightarrow> (exn + unit) \<times> conv_state" where
  "DismissConversation e auth cid s =
     (if role_of (ce_up e 0 0) cid (user_id auth) (cs_db s) \<noteq> OWNER
      then (Inl (ServiceError kConversationNoPermission ''owner only''), s)
      else case ConversationTable_update_status (ce_up e 1 0) (ce_now e) cid DISMISSED (cs_db s) of
             (False, db') \<Rightarrow>
               (Inl (ServiceError kSystemInternalError ''update_status failed''), s\<lparr>cs_db := db'\<rparr>)
           | (True, db') \<Rightarrow>
               (Inr (), invalidate_members_cache (ce_up e 3 0) cid
                  (es_write e 5 (outbox_payload_delete cid)
                     (\<lambda>ok. ESConversation_remove ok cid) (s\<lparr>cs_db := db'\<rparr>))))"

definition QuitConversation :: "conv_env \<Rightarrow> auth_context \<Rightarrow> cid \<Rightarrow> conv_state \<Rightarrow> (exn + unit) \<times> conv_state" where
  "QuitConversation e auth cid s =
     (if role_of (ce_up e 0 0) cid (user_id auth) (cs_db s) = OWNER
      then (Inl (ServiceError kConversationNoPermission ''owner must transfer first''), s)
      else if \<not> require_member (ce_up e 1 0) cid (user_id auth) (cs_db s)
      then (Inl (ServiceError kConversationNotMember ''not a member''), s)
      else case ConversationMemberTable_set_quit (ce_up e 2 0) (ce_now e) cid (user_id auth) (cs_db s) of
             (False, db') \<Rightarrow>
               (Inl (ServiceError kSystemInternalError ''set_quit failed''), s\<lparr>cs_db := db'\<rparr>)
           | (True, db') \<Rightarrow>
               (Inr (), es_refresh_members e 5 cid
                  (invalidate_members_cache (ce_up e 3 0) cid (s\<lparr>cs_db := db'\<rparr>))))"

section \<open>Managing members\<close>

definition kGroupMemberLimit :: int where
  "kGroupMemberLimit = 500"

text \<open>One member of an AddMembers request: call 3 reads the row, call 4 writes it.\<close>

definition add_member :: "conv_env \<Rightarrow> uid \<Rightarrow> cid \<Rightarrow> nat \<Rightarrow> uid \<Rightarrow> conv_db \<Rightarrow> bool \<times> conv_db" where
  "add_member e caller cid i uid db =
     (case ConversationMemberTable_select_self (ce_up e 3 i) cid uid db of
        Some m \<Rightarrow>
          if \<not> cm_is_quit m then (True, db)
          else ConversationMemberTable_rejoin (ce_up e 4 i) (ce_now e) cid uid Role_NORMAL caller ADMIN_ADD db
      | None \<Rightarrow>
          ConversationMemberTable_append (ce_up e 4 i) (ce_now e)
            ((ConversationMember cid uid False True Role_NORMAL (ce_now e))
               \<lparr>cm_inviter_id := Some caller, cm_join_source := ADMIN_ADD\<rparr>) db)"

fun add_members_loop ::
  "conv_env \<Rightarrow> uid \<Rightarrow> cid \<Rightarrow> nat \<Rightarrow> uid list \<Rightarrow> conv_db \<Rightarrow> uid list \<times> conv_db" where
  "add_members_loop e caller cid i [] db = ([], db)"
| "add_members_loop e caller cid i (uid # uids) db =
     (case add_member e caller cid i uid db of
        (ok, db1) \<Rightarrow>
          (case add_members_loop e caller cid (Suc i) uids db1 of
             (failed, db2) \<Rightarrow> (if ok then failed else uid # failed, db2)))"

definition AddMembers ::
  "conv_env \<Rightarrow> auth_context \<Rightarrow> cid \<Rightarrow> uid list \<Rightarrow> conv_state \<Rightarrow> (exn + uid list) \<times> conv_state" where
  "AddMembers e auth cid ids s =
     (case ConversationTable_select (ce_up e 0 0) cid (cs_db s) of
        None \<Rightarrow> (Inl (ServiceError kConversationNotFound ''not found''), s)
      | Some c \<Rightarrow>
          if cv_conversation_type c \<noteq> GROUP
          then (Inl (ServiceError kSystemInvalidArgument ''only GROUP allows AddMembers''), s)
          else let role = role_of (ce_up e 1 0) cid (user_id auth) (cs_db s) in
            if role \<noteq> OWNER \<and> role \<noteq> ADMIN
            then (Inl (ServiceError kConversationNoPermission ''owner/admin only''), s)
            else if cv_member_count c + int (length ids) > kGroupMemberLimit
            then (Inl (ServiceError kConversationMemberLimit ''member limit''), s)
            else (case add_members_loop e (user_id auth) cid 0 ids (cs_db s) of
                    (failed, db') \<Rightarrow>
                      (Inr failed, es_refresh_members e 6 cid
                         (invalidate_members_cache (ce_up e 5 0) cid (s\<lparr>cs_db := db'\<rparr>)))))"

text \<open>The loop of RemoveMembers throws in the middle; what it has removed stays removed.\<close>

fun remove_members_loop ::
  "conv_env \<Rightarrow> uid \<Rightarrow> cid \<Rightarrow> nat \<Rightarrow> uid list \<Rightarrow> nat \<Rightarrow> conv_db \<Rightarrow> (exn + nat) \<times> conv_db" where
  "remove_members_loop e caller cid i [] removed db = (Inr removed, db)"
| "remove_members_loop e caller cid i (uid # uids) removed db =
     (if uid = caller
      then (Inl (ServiceError kSystemInvalidArgument ''cannot remove self''), db)
      else case ConversationMemberTable_select_self (ce_up e 1 i) cid uid db of
             None \<Rightarrow> remove_members_loop e caller cid (Suc i) uids removed db
           | Some target \<Rightarrow>
               if cm_is_quit target then remove_members_loop e caller cid (Suc i) uids removed db
               else if cm_role target = OWNER
               then (Inl (ServiceError kConversationNoPermission ''owner cannot be removed''), db)
               else remove_members_loop e caller cid (Suc i) uids (Suc removed)
                      (snd (ConversationMemberTable_set_quit (ce_up e 2 i) (ce_now e) cid uid db)))"

definition RemoveMembers ::
  "conv_env \<Rightarrow> auth_context \<Rightarrow> cid \<Rightarrow> uid list \<Rightarrow> conv_state \<Rightarrow> (exn + unit) \<times> conv_state" where
  "RemoveMembers e auth cid ids s =
     (let role = role_of (ce_up e 0 0) cid (user_id auth) (cs_db s) in
      if role \<noteq> OWNER \<and> role \<noteq> ADMIN
      then (Inl (ServiceError kConversationNoPermission ''owner/admin only''), s)
      else case remove_members_loop e (user_id auth) cid 0 ids 0 (cs_db s) of
             (Inl x, db') \<Rightarrow> (Inl x, s\<lparr>cs_db := db'\<rparr>)
           | (Inr removed, db') \<Rightarrow>
               (Inr (), if removed > 0
                        then es_refresh_members e 5 cid
                               (invalidate_members_cache (ce_up e 3 0) cid (s\<lparr>cs_db := db'\<rparr>))
                        else s\<lparr>cs_db := db'\<rparr>))"

definition TransferOwner :: "conv_env \<Rightarrow> auth_context \<Rightarrow> cid \<Rightarrow> uid \<Rightarrow> conv_state \<Rightarrow> (exn + unit) \<times> conv_state" where
  "TransferOwner e auth cid new_owner s =
     (if role_of (ce_up e 0 0) cid (user_id auth) (cs_db s) \<noteq> OWNER
      then (Inl (ServiceError kConversationNoPermission ''owner only''), s)
      else if \<not> require_member (ce_up e 1 0) cid new_owner (cs_db s)
      then (Inl (ServiceError kConversationNotMember ''new owner must be a member''), s)
      else case ConversationMemberTable_transfer_owner (ce_up e 2 0) cid (user_id auth) new_owner (cs_db s) of
             (False, db') \<Rightarrow>
               (Inl (ServiceError kSystemInternalError ''transfer_owner failed''), s\<lparr>cs_db := db'\<rparr>)
           | (True, db') \<Rightarrow> (Inr (), s\<lparr>cs_db := db'\<rparr>))"

text \<open>The role of the request is a value of the open proto enum (MEMBER 0, ADMIN 1, OWNER 2).\<close>

definition ChangeMemberRole ::
  "conv_env \<Rightarrow> auth_context \<Rightarrow> cid \<Rightarrow> uid \<Rightarrow> int \<Rightarrow> conv_state \<Rightarrow> (exn + unit) \<times> conv_state" where
  "ChangeMemberRole e auth cid target_uid role s =
     (if role_of (ce_up e 0 0) cid (user_id auth) (cs_db s) \<noteq> OWNER
      then (Inl (ServiceError kConversationNoPermission ''owner only''), s)
      else if role = 2
      then (Inl (ServiceError kSystemInvalidArgument ''use TransferOwner to assign OWNER''), s)
      else case ConversationMemberTable_select_self (ce_up e 1 0) cid target_uid (cs_db s) of
             None \<Rightarrow> (Inl (ServiceError kConversationNotMember ''target not in conversation''), s)
           | Some target \<Rightarrow>
               if cm_is_quit target
               then (Inl (ServiceError kConversationNotMember ''target not in conversation''), s)
               else if cm_role target = OWNER
               then (Inl (ServiceError kConversationNoPermission ''cannot change OWNER's role''), s)
               else (case ConversationMemberTable_update_role (ce_up e 2 0) cid target_uid
                            (if role = 1 then ADMIN else Role_NORMAL) (cs_db s) of
                       (_, db') \<Rightarrow> (Inr (), s\<lparr>cs_db := db'\<rparr>)))"

section \<open>Reading\<close>

definition view_name :: "(uid \<times> user_info) list \<Rightarrow> conversation_row \<Rightarrow> string" where
  "view_name peer_map c =
     (case cv_conversation_name c of
        Some n \<Rightarrow> n
      | None \<Rightarrow> (case cv_peer_user_id c of
                   None \<Rightarrow> []
                 | Some p \<Rightarrow> (case map_of peer_map p of None \<Rightarrow> [] | Some ui \<Rightarrow> ui_nickname ui)))"

definition view_rsp ::
  "conv_env \<Rightarrow> (uid \<times> user_info) list \<Rightarrow> ordered_view \<Rightarrow> message_preview option \<Rightarrow> conversation_p" where
  "view_rsp e peer_map v preview =
     (case v of (c, m) \<Rightarrow> empty_conversation_p
       \<lparr>cp_conversation_id := cv_conversation_id c, cp_type := type_code (cv_conversation_type c),
        cp_name := view_name peer_map c,
        cp_avatar_url := (case cv_avatar_id c of None \<Rightarrow> [] | Some a \<Rightarrow> avatar_url_of e a),
        cp_created_at_ms := cv_create_time c, cp_member_count := cv_member_count c,
        cp_status := status_code (cv_status c), cp_last_message := preview,
        cp_self := Some (fill_self_member_info m (cv_max_seq c))\<rparr>)"

fun list_views ::
  "conv_env \<Rightarrow> string \<Rightarrow> uid \<Rightarrow> (uid \<times> user_info) list \<Rightarrow> nat \<Rightarrow> ordered_view list \<Rightarrow> conv_state \<Rightarrow>
     (exn + conversation_p list) \<times> conv_state" where
  "list_views e rid uid peer_map i [] s = (Inr [], s)"
| "list_views e rid uid peer_map i ((c, m) # vs) s =
     (if \<not> cm_visible m \<or> cv_status c = DISMISSED
      then list_views e rid uid peer_map (Suc i) vs s
      else case fetch_last_message e i rid (cv_conversation_id c) (cm_last_read_seq m) uid s of
             (Inl x, s1) \<Rightarrow> (Inl x, s1)
           | (Inr preview, s1) \<Rightarrow>
               (case list_views e rid uid peer_map (Suc i) vs s1 of
                  (Inl x, s2) \<Rightarrow> (Inl x, s2)
                | (Inr out, s2) \<Rightarrow> (Inr (view_rsp e peer_map (c, m) preview # out), s2)))"

definition ListConversations ::
  "conv_env \<Rightarrow> string \<Rightarrow> auth_context \<Rightarrow> conv_state \<Rightarrow>
     (exn + conversation_p list \<times> page_response) \<times> conv_state" where
  "ListConversations e rid auth s =
     (let views = ConversationMemberTable_list_ordered_by_user (ce_up e 0 0) (user_id auth) (cs_db s);
          peer_uids = List.map_filter (\<lambda>(c, m). cv_peer_user_id c) views;
          peer_map = fetch_user_infos e rid peer_uids
      in case list_views e rid (user_id auth) peer_map 0 views s of
           (Inl x, s') \<Rightarrow> (Inl x, s')
         | (Inr out, s') \<Rightarrow>
             (Inr (out, \<lparr>pr_has_more = False, pr_next_cursor = [], pr_total_count = int (length out)\<rparr>), s'))"

definition GetConversation ::
  "conv_env \<Rightarrow> string \<Rightarrow> auth_context \<Rightarrow> cid \<Rightarrow> conv_state \<Rightarrow> (exn + conversation_p) \<times> conv_state" where
  "GetConversation e rid auth cid s =
     (case ConversationTable_select (ce_up e 0 0) cid (cs_db s) of
        None \<Rightarrow> (Inl (ServiceError kConversationNotFound ''conversation not found''), s)
      | Some c \<Rightarrow>
          if \<not> require_member (ce_up e 1 0) cid (user_id auth) (cs_db s)
          then (Inl (ServiceError kConversationNotMember ''not a member''), s)
          else let self = ConversationMemberTable_select_self (ce_up e 2 0) cid (user_id auth) (cs_db s);
                   after = (case self of None \<Rightarrow> 0 | Some m \<Rightarrow> cm_last_read_seq m)
               in (case fetch_last_message e 0 rid cid after (user_id auth) s of
                     (Inl x, s') \<Rightarrow> (Inl x, s')
                   | (Inr preview, s') \<Rightarrow>
                       (Inr ((conversation_rsp e c)
                          \<lparr>cp_last_message := preview,
                           cp_self := map_option (\<lambda>m. fill_self_member_info m (cv_max_seq c)) self\<rparr>), s')))"

record member_item =
  mi_user_info :: user_info
  mi_role :: int
  mi_join_time_ms :: int

definition bare_user_info :: "uid \<Rightarrow> user_info" where
  "bare_user_info uid = \<lparr>ui_user_id = uid, ui_nickname = [], ui_bio = [], ui_phone = [], ui_avatar_url = []\<rparr>"

definition members_limit :: "page_request \<Rightarrow> int" where
  "members_limit pq = (let limit = (if pq_limit pq > 0 then pq_limit pq else 50)
                       in if limit > 200 then 200 else limit)"

text \<open>The page of user ids: \<open>start\<close> to \<open>min(start + limit, total)\<close>.\<close>

definition members_page :: "int \<Rightarrow> int \<Rightarrow> uid list \<Rightarrow> uid list" where
  "members_page start limit uids =
     (let total = int (length uids); en = min (start + limit) total
      in if start < total then take (nat (en - start)) (drop (nat start) uids) else [])"

definition ListMembers ::
  "conv_env \<Rightarrow> string \<Rightarrow> auth_context \<Rightarrow> cid \<Rightarrow> page_request \<Rightarrow> conv_state \<Rightarrow>
     exn + member_item list \<times> page_response" where
  "ListMembers e rid auth cid pq s =
     (if \<not> require_member (ce_up e 0 0) cid (user_id auth) (cs_db s)
      then Inl (ServiceError kConversationNotMember ''not a member'')
      else let uids = ConversationMemberTable_members (ce_up e 1 0) cid (cs_db s);
               total = int (length uids);
               limit = members_limit pq
           in case (if pq_cursor pq \<noteq> [] then stoi (pq_cursor pq) else Inr 0) of
                Inl _ \<Rightarrow> Inl (StdException ''stoi'')
              | Inr n \<Rightarrow>
                  (let start = max 0 n;
                       en = min (start + limit) total;
                       page_uids = members_page start limit uids;
                       rows = ConversationMemberTable_select_many (ce_up e 2 0) cid page_uids (cs_db s);
                       umap = fetch_user_infos e rid page_uids
                   in Inr (map (\<lambda>m. \<lparr>mi_user_info = (case map_of umap (cm_user_id m) of
                                        Some ui \<Rightarrow> ui | None \<Rightarrow> bare_user_info (cm_user_id m)),
                                     mi_role = role_code (cm_role m),
                                     mi_join_time_ms = to_ms (cm_join_time m)\<rparr>)
                             (filter (\<lambda>m. \<not> cm_is_quit m) rows),
                           \<lparr>pr_has_more = (en < total), pr_next_cursor = [], pr_total_count = total\<rparr>)))"

text \<open>A hit of the index counts only if MySQL confirms status and membership.\<close>

fun confirm_hits :: "conv_env \<Rightarrow> uid \<Rightarrow> conv_db \<Rightarrow> nat \<Rightarrow> conversation_row list \<Rightarrow> conversation_row list" where
  "confirm_hits e uid db i [] = []"
| "confirm_hits e uid db i (c # cs) =
     (if cv_status c = DISMISSED then confirm_hits e uid db (Suc i) cs
      else if \<not> require_member (ce_up e 1 i) (cv_conversation_id c) uid db
      then confirm_hits e uid db (Suc i) cs
      else c # confirm_hits e uid db (Suc i) cs)"

definition search_rsp :: "conv_env \<Rightarrow> conversation_row \<Rightarrow> conversation_p" where
  "search_rsp e c = empty_conversation_p
     \<lparr>cp_conversation_id := cv_conversation_id c, cp_type := type_code (cv_conversation_type c),
      cp_name := nullable_str (cv_conversation_name c),
      cp_avatar_url := (if nullable_str (cv_avatar_id c) \<noteq> []
                        then avatar_url_of e (nullable_str (cv_avatar_id c)) else []),
      cp_member_count := cv_member_count c, cp_status := status_code (cv_status c)\<rparr>"

definition SearchConversations :: "conv_env \<Rightarrow> auth_context \<Rightarrow> string \<Rightarrow> conv_state \<Rightarrow> exn + conversation_p list" where
  "SearchConversations e auth search_key s =
     (let cid_hits = ce_search e search_key (user_id auth) in
      if cid_hits = [] then Inr []
      else let convs = ConversationTable_select_many (ce_up e 0 0) cid_hits (cs_db s)
           in Inr (map (search_rsp e) (confirm_hits e (user_id auth) (cs_db s) 0 convs)))"

definition GetMemberIds :: "conv_env \<Rightarrow> auth_context \<Rightarrow> cid \<Rightarrow> conv_state \<Rightarrow> (exn + uid list) \<times> conv_state" where
  "GetMemberIds e auth cid s =
     (let up = ce_up e; r = cs_members s;
          snap = Members_list_snapshot (up 0 0, up 1 0, up 2 0) cid r r r;
          not_member = Inl (ServiceError kConversationNotMember ''not a member'');
          sys = (user_id auth = ''__system__'')
      in if snap_stable snap \<and> snap_members snap \<noteq> []
         then if \<not> sys \<and> user_id auth \<notin> set (snap_members snap) then (not_member, s)
              else (Inr (snap_members snap), s)
         else if cache_sentinel_confirms_empty (snap_stable snap \<and> snap_members snap = [])
                   (Members_is_sentinel (up 3 0) cid r)
         then if \<not> sys then (not_member, s) else (Inr [], s)
         else let observed_version = Members_version (up 4 0) cid r;
                  uids = ConversationMemberTable_members (up 5 0) cid (cs_db s);
                  s' = s\<lparr>cs_members := snd (publish_members (up 6 0) cid observed_version uids r)\<rparr>
              in if \<not> sys \<and> user_id auth \<notin> set uids then (not_member, s') else (Inr uids, s'))"

section \<open>Preferences of one member\<close>

text \<open>SetMute, SetPin and SetVisible load the caller's row, change it and write it back.\<close>

definition change_self ::
  "conv_env \<Rightarrow> auth_context \<Rightarrow> cid \<Rightarrow> (conversation_member_row \<Rightarrow> conversation_member_row) \<Rightarrow> conv_state \<Rightarrow>
     (exn + self_member_info) \<times> conv_state" where
  "change_self e auth cid f s =
     (case ConversationMemberTable_select_self (ce_up e 0 0) cid (user_id auth) (cs_db s) of
        None \<Rightarrow> (Inl (ServiceError kConversationNotMember ''not member''), s)
      | Some m0 \<Rightarrow>
          if cm_is_quit m0 then (Inl (ServiceError kConversationNotMember ''not member''), s)
          else let m = f m0 in
            (case ConversationMemberTable_update (ce_up e 1 0) m (cs_db s) of
               (False, db') \<Rightarrow> (Inl (ServiceError kSystemInternalError ''update failed''), s\<lparr>cs_db := db'\<rparr>)
             | (True, db') \<Rightarrow>
                 (let c = ConversationTable_select (ce_up e 2 0) cid db'
                  in (Inr (fill_self_member_info m (case c of None \<Rightarrow> 0 | Some c \<Rightarrow> cv_max_seq c)),
                      s\<lparr>cs_db := db'\<rparr>))))"

definition SetMute :: "conv_env \<Rightarrow> auth_context \<Rightarrow> cid \<Rightarrow> bool \<Rightarrow> conv_state \<Rightarrow> (exn + self_member_info) \<times> conv_state" where
  "SetMute e auth cid mute s = change_self e auth cid (\<lambda>m. m\<lparr>cm_muted := mute\<rparr>) s"

definition SetPin :: "conv_env \<Rightarrow> auth_context \<Rightarrow> cid \<Rightarrow> bool \<Rightarrow> conv_state \<Rightarrow> (exn + self_member_info) \<times> conv_state" where
  "SetPin e auth cid pin s =
     change_self e auth cid (\<lambda>m. m\<lparr>cm_pin_time := (if pin then Some (ce_now e) else None)\<rparr>) s"

definition SetVisible :: "conv_env \<Rightarrow> auth_context \<Rightarrow> cid \<Rightarrow> bool \<Rightarrow> conv_state \<Rightarrow> (exn + self_member_info) \<times> conv_state" where
  "SetVisible e auth cid visible s = change_self e auth cid (\<lambda>m. m\<lparr>cm_visible := visible\<rparr>) s"

definition SaveDraft ::
  "conv_env \<Rightarrow> auth_context \<Rightarrow> cid \<Rightarrow> string \<Rightarrow> conv_state \<Rightarrow> (exn + self_member_info option) \<times> conv_state" where
  "SaveDraft e auth cid draft s =
     (case ConversationMemberTable_update_draft (ce_up e 0 0) cid (user_id auth) draft (cs_db s) of
        (False, db') \<Rightarrow>
          (Inl (ServiceError kConversationNotMember ''not member or draft update failed''), s\<lparr>cs_db := db'\<rparr>)
      | (True, db') \<Rightarrow>
          (let m = ConversationMemberTable_select_self (ce_up e 1 0) cid (user_id auth) db';
               c = ConversationTable_select (ce_up e 2 0) cid db'
           in (Inr (map_option (\<lambda>m. fill_self_member_info m (case c of None \<Rightarrow> 0 | Some c \<Rightarrow> cv_max_seq c)) m),
               s\<lparr>cs_db := db'\<rparr>)))"

section \<open>The service as a state machine\<close>

datatype conv_request =
  Q_MarkRead cid u64 | Q_Create create_conversation_req | Q_Update update_conversation_req
| Q_Dismiss cid | Q_Quit cid | Q_AddMembers cid "uid list" | Q_RemoveMembers cid "uid list"
| Q_Transfer cid uid | Q_ChangeRole cid uid int | Q_List | Q_Get cid | Q_ListMembers cid page_request
| Q_Search string | Q_GetMemberIds cid | Q_SetMute cid bool | Q_SetPin cid bool | Q_SetVisible cid bool
| Q_SaveDraft cid string

definition drop_rsp :: "(exn + 'a) \<times> conv_state \<Rightarrow> (exn + unit) \<times> conv_state" where
  "drop_rsp r = (map_sum id (\<lambda>_. ()) (fst r), snd r)"

fun conv_body :: "conv_env \<Rightarrow> string \<Rightarrow> conv_request \<Rightarrow> auth_context \<Rightarrow> conv_state \<Rightarrow> (exn + unit) \<times> conv_state" where
  "conv_body e rid (Q_MarkRead cid n) auth s = drop_rsp (MarkRead e auth cid n s)"
| "conv_body e rid (Q_Create req) auth s = drop_rsp (CreateConversation e auth req s)"
| "conv_body e rid (Q_Update req) auth s = drop_rsp (UpdateConversation e auth req s)"
| "conv_body e rid (Q_Dismiss cid) auth s = drop_rsp (DismissConversation e auth cid s)"
| "conv_body e rid (Q_Quit cid) auth s = drop_rsp (QuitConversation e auth cid s)"
| "conv_body e rid (Q_AddMembers cid ids) auth s = drop_rsp (AddMembers e auth cid ids s)"
| "conv_body e rid (Q_RemoveMembers cid ids) auth s = drop_rsp (RemoveMembers e auth cid ids s)"
| "conv_body e rid (Q_Transfer cid u) auth s = drop_rsp (TransferOwner e auth cid u s)"
| "conv_body e rid (Q_ChangeRole cid u r) auth s = drop_rsp (ChangeMemberRole e auth cid u r s)"
| "conv_body e rid Q_List auth s = drop_rsp (ListConversations e rid auth s)"
| "conv_body e rid (Q_Get cid) auth s = drop_rsp (GetConversation e rid auth cid s)"
| "conv_body e rid (Q_ListMembers cid pq) auth s = drop_rsp (ListMembers e rid auth cid pq s, s)"
| "conv_body e rid (Q_Search k) auth s = drop_rsp (SearchConversations e auth k s, s)"
| "conv_body e rid (Q_GetMemberIds cid) auth s = drop_rsp (GetMemberIds e auth cid s)"
| "conv_body e rid (Q_SetMute cid b) auth s = drop_rsp (SetMute e auth cid b s)"
| "conv_body e rid (Q_SetPin cid b) auth s = drop_rsp (SetPin e auth cid b s)"
| "conv_body e rid (Q_SetVisible cid b) auth s = drop_rsp (SetVisible e auth cid b s)"
| "conv_body e rid (Q_SaveDraft cid d) auth s = drop_rsp (SaveDraft e auth cid d s)"

definition conv_rpc :: "conv_env \<Rightarrow> string \<Rightarrow> rpc_metadata option \<Rightarrow> conv_request \<Rightarrow> conv_state \<Rightarrow>
    (response_header \<times> unit option) \<times> conv_state" where
  "conv_rpc e rid md q s = handle_rpc md rid (conv_body e rid q) s"

text \<open>
  The steps of the service: a request, a pass of the outbox reaper, an expiry in Redis, and the
  delivery receipt that the message service writes into the shared member table.
\<close>

inductive conv_step :: "conv_state \<Rightarrow> conv_state \<Rightarrow> bool" where
  request: "snd (conv_rpc e rid md q s) = t \<Longrightarrow> conv_step s t"
| reaper: "reaper_pass unser up (cs_es s, cs_outbox s) = (idx, z) \<Longrightarrow>
     conv_step s (s\<lparr>cs_es := idx, cs_outbox := z\<rparr>)"
| cache_expiry: "conv_step s (s\<lparr>cs_members := Members_sentinel_expire x (Members_expire x (cs_members s))\<rparr>)"
| last_expiry: "conv_step s (s\<lparr>cs_last := (cs_last s)(k := None)\<rparr>)"
| acked: "ConversationMemberTable_update_last_ack_seq ok x u n (cs_db s) = (b, db') \<Longrightarrow>
     conv_step s (s\<lparr>cs_db := db'\<rparr>)"

definition empty_conv_state :: conv_state where
  "empty_conv_state = \<lparr>cs_db = \<lparr>conversations = [], conversation_members = []\<rparr>,
     cs_members = empty_members_redis, cs_last = (\<lambda>_. None), cs_es = (\<lambda>_. None), cs_outbox = []\<rparr>"

end
