(* ===== verification/Conversation_Writes.thy ===== *)
theory Conversation_Writes
  imports Conversation
begin

text \<open>
  What requests can do to the two tables of the conversation service. \<open>conv_write u\<close> is the
  specification: the elementary guarded writes that a request of user \<open>u\<close> is allowed to make.
  The handlers refine it: the tables after a request are reached from the tables before it by
  such writes, whatever calls fail. The invariant of the tables, the monotonicity of the read
  cursors and the isolation of members are then properties of the specification.
\<close>

section \<open>Appended rows\<close>

definition add_rows :: "conversation_member_row list \<Rightarrow> conv_db \<Rightarrow> conv_db" where
  "add_rows rows db = db\<lparr>conversation_members := conversation_members db @ rows\<rparr>"

definition add_conv :: "conversation_row \<Rightarrow> conv_db \<Rightarrow> conv_db" where
  "add_conv c db = db\<lparr>conversations := conversations db @ [c]\<rparr>"

lemma add_obs [conv_obs]:
  "sel_member (add_rows rows db) k =
     (case sel_member db k of None \<Rightarrow> select_key cm_key k rows | Some m \<Rightarrow> Some m)"
  "sel_conv (add_rows rows db) x = sel_conv db x"
  "sel_member (add_conv c db) k = sel_member db k"
  "sel_conv (add_conv c db) x =
     (case sel_conv db x of None \<Rightarrow> if x = cv_conversation_id c then Some c else None | Some d \<Rightarrow> Some d)"
  "nactive (add_rows rows db) x = nactive db x + length (filter (is_active x) rows)"
  "nactive (add_conv c db) x = nactive db x"
  by (auto simp: sel_member_def sel_conv_def add_rows_def add_conv_def nactive_filter select_key_append
      split: option.splits)

lemma cdb_wf_add:
  "cdb_wf (add_rows rows db) \<longleftrightarrow> cdb_wf db \<and> distinct (map cm_key rows) \<and>
     (\<forall>m \<in> set rows. sel_member db (cm_key m) = None)"
  "cdb_wf (add_conv c db) \<longleftrightarrow> cdb_wf db \<and> sel_conv db (cv_conversation_id c) = None"
  by (auto simp: cdb_wf_def add_rows_def add_conv_def keys_distinct_def sel_member_def sel_conv_def
      select_key_None)

section \<open>The guarded writes\<close>

definition privileged :: "conv_db \<Rightarrow> cid \<Rightarrow> uid \<Rightarrow> bool" where
  "privileged db x u =
     (\<exists>m. sel_member db (x, u) = Some m \<and> \<not> cm_is_quit m \<and> cm_role m \<noteq> Role_NORMAL)"

definition owns :: "conv_db \<Rightarrow> cid \<Rightarrow> uid \<Rightarrow> bool" where
  "owns db x u = (\<exists>m. sel_member db (x, u) = Some m \<and> \<not> cm_is_quit m \<and> cm_role m = OWNER)"

definition bump_count :: "int \<Rightarrow> time \<Rightarrow> conversation_row \<Rightarrow> conversation_row" where
  "bump_count d now c = c\<lparr>cv_member_count := max 0 (cv_member_count c + d), cv_update_time := now\<rparr>"

definition same_standing :: "conversation_member_row \<Rightarrow> conversation_member_row \<Rightarrow> bool" where
  "same_standing m m' = (cm_key m' = cm_key m \<and> cm_role m' = cm_role m \<and> cm_is_quit m' = cm_is_quit m
     \<and> cm_last_read_seq m \<le> cm_last_read_seq m' \<and> cm_last_ack_seq m \<le> cm_last_ack_seq m')"

definition fresh_conversation :: "conversation_row \<Rightarrow> conversation_member_row list \<Rightarrow> bool" where
  "fresh_conversation c rows =
     (distinct (map cm_key rows) \<and> int (length rows) \<le> cv_member_count c \<and> 0 \<le> cv_member_count c \<and>
      (\<forall>m \<in> set rows. cm_conversation_id m = cv_conversation_id c \<and>
         (cm_role m = OWNER \<longrightarrow> cv_owner_id c = Some (cm_user_id m))) \<and>
      cv_max_seq c = 0 \<and> cv_conversation_name c \<noteq> None)"

inductive conv_write :: "uid \<Rightarrow> conv_db \<Rightarrow> conv_db \<Rightarrow> bool" for u where
  own_row: "sel_member db (x, u) = Some m \<Longrightarrow> same_standing m m' \<Longrightarrow>
     conv_write u db (put_member m' db)"
| leave: "sel_member db (x, v) = Some m \<Longrightarrow> \<not> cm_is_quit m \<Longrightarrow> sel_conv db x = Some c \<Longrightarrow>
     v = u \<or> privileged db x u \<and> cm_role m \<noteq> OWNER \<Longrightarrow>
     conv_write u db (put_conv (bump_count (- 1) now c)
       (put_member (m\<lparr>cm_is_quit := True, cm_quit_time := Some now\<rparr>) db))"
| join: "privileged db x u \<Longrightarrow> sel_conv db x = Some c \<Longrightarrow> cv_conversation_type c = GROUP \<Longrightarrow>
     cv_member_count c < kGroupMemberLimit \<Longrightarrow> sel_member db (x, v) = None \<Longrightarrow> cm_key m = (x, v) \<Longrightarrow>
     \<not> cm_is_quit m \<Longrightarrow> cm_role m = Role_NORMAL \<Longrightarrow>
     conv_write u db (put_conv (bump_count 1 now c) (add_rows [m] db))"
| rejoin: "privileged db x u \<Longrightarrow> sel_conv db x = Some c \<Longrightarrow> cv_conversation_type c = GROUP \<Longrightarrow>
     cv_member_count c < kGroupMemberLimit \<Longrightarrow> sel_member db (x, v) = Some m \<Longrightarrow> cm_is_quit m \<Longrightarrow>
     cm_key m' = (x, v) \<Longrightarrow> \<not> cm_is_quit m' \<Longrightarrow> cm_role m' = Role_NORMAL \<Longrightarrow>
     cm_last_read_seq m' = cm_last_read_seq m \<Longrightarrow> cm_last_ack_seq m' = cm_last_ack_seq m \<Longrightarrow>
     conv_write u db (put_conv (bump_count 1 now c) (put_member m' db))"
| edit: "privileged db x u \<Longrightarrow> sel_conv db x = Some c \<Longrightarrow> cv_conversation_id c' = x \<Longrightarrow>
     cv_conversation_type c' = cv_conversation_type c \<Longrightarrow> cv_member_count c' = cv_member_count c \<Longrightarrow>
     cv_owner_id c' = cv_owner_id c \<Longrightarrow> cv_max_seq c' = cv_max_seq c \<Longrightarrow>
     (cv_conversation_name c \<noteq> None \<longrightarrow> cv_conversation_name c' \<noteq> None) \<Longrightarrow>
     cv_status c' = cv_status c \<or> owns db x u \<Longrightarrow>
     conv_write u db (put_conv c' db)"
| transfer: "owns db x u \<Longrightarrow> sel_member db (x, u) = Some m1 \<Longrightarrow> sel_member db (x, v) = Some m2 \<Longrightarrow>
     \<not> cm_is_quit m2 \<Longrightarrow> sel_conv db x = Some c \<Longrightarrow>
     conv_write u db (put_conv (c\<lparr>cv_owner_id := Some v\<rparr>)
       (put_member (m2\<lparr>cm_role := OWNER\<rparr>) (put_member (m1\<lparr>cm_role := ADMIN\<rparr>) db)))"
| set_role: "owns db x u \<Longrightarrow> sel_member db (x, v) = Some m \<Longrightarrow> cm_role m \<noteq> OWNER \<Longrightarrow> r \<noteq> OWNER \<Longrightarrow>
     conv_write u db (put_member (m\<lparr>cm_role := r\<rparr>) db)"
| create: "sel_conv db (cv_conversation_id c) = None \<Longrightarrow> fresh_conversation c rows \<Longrightarrow>
     conv_write u db (add_rows rows (add_conv c db))"

inductive_cases conv_writeE: "conv_write u db db'"

section \<open>The invariant\<close>

text \<open>
  Unique keys; a member row has its conversation; the member count is never below the number of
  active members; an active owner is the recorded owner (so there is at most one); no request
  ever advances \<open>max_seq\<close>, and the name column is never NULL.
\<close>

definition conv_inv :: "conv_db \<Rightarrow> bool" where
  "conv_inv db =
     (cdb_wf db \<and>
      (\<forall>x v m. sel_member db (x, v) = Some m \<longrightarrow> (\<exists>c. sel_conv db x = Some c)) \<and>
      (\<forall>x c. sel_conv db x = Some c \<longrightarrow> int (nactive db x) \<le> cv_member_count c
          \<and> cv_max_seq c = 0 \<and> cv_conversation_name c \<noteq> None) \<and>
      (\<forall>x v m c. sel_member db (x, v) = Some m \<longrightarrow> \<not> cm_is_quit m \<longrightarrow> cm_role m = OWNER \<longrightarrow>
          sel_conv db x = Some c \<longrightarrow> cv_owner_id c = Some v))"

lemma conv_invI:
  assumes "cdb_wf db"
    and "\<And>x v m. sel_member db (x, v) = Some m \<Longrightarrow> \<exists>c. sel_conv db x = Some c"
    and "\<And>x c. sel_conv db x = Some c \<Longrightarrow> int (nactive db x) \<le> cv_member_count c"
    and "\<And>x c. sel_conv db x = Some c \<Longrightarrow> cv_max_seq c = 0 \<and> cv_conversation_name c \<noteq> None"
    and "\<And>x v m c. sel_member db (x, v) = Some m \<Longrightarrow> \<not> cm_is_quit m \<Longrightarrow> cm_role m = OWNER \<Longrightarrow>
          sel_conv db x = Some c \<Longrightarrow> cv_owner_id c = Some v"
  shows "conv_inv db"
  using assms unfolding conv_inv_def by blast

lemma conv_invD:
  assumes "conv_inv db"
  shows "cdb_wf db"
    and "sel_member db (x, v) = Some m \<Longrightarrow> \<exists>c. sel_conv db x = Some c"
    and "sel_conv db x = Some c \<Longrightarrow> int (nactive db x) \<le> cv_member_count c"
    and "sel_conv db x = Some c \<Longrightarrow> cv_max_seq c = 0"
    and "sel_conv db x = Some c \<Longrightarrow> \<exists>n. cv_conversation_name c = Some n"
    and "sel_member db (x, v) = Some m \<Longrightarrow> \<not> cm_is_quit m \<Longrightarrow> cm_role m = OWNER \<Longrightarrow>
          sel_conv db x = Some c \<Longrightarrow> cv_owner_id c = Some v"
  using assms unfolding conv_inv_def by blast+

lemma bump_count_sel [simp]:
  "cv_conversation_id (bump_count d now c) = cv_conversation_id c"
  "cv_conversation_name (bump_count d now c) = cv_conversation_name c"
  "cv_conversation_type (bump_count d now c) = cv_conversation_type c"
  "cv_owner_id (bump_count d now c) = cv_owner_id c"
  "cv_max_seq (bump_count d now c) = cv_max_seq c"
  "cv_status (bump_count d now c) = cv_status c"
  "cv_member_count (bump_count d now c) = max 0 (cv_member_count c + d)"
  by (simp_all add: bump_count_def)

text \<open>A put of a row that keeps its key, seen through the observers.\<close>

lemma cm_key_upd [simp]:
  "cm_key (m\<lparr>cm_role := r\<rparr>) = cm_key m"
  "cm_key (m\<lparr>cm_is_quit := q, cm_quit_time := t\<rparr>) = cm_key m"
  "cm_key (m\<lparr>cm_muted := a\<rparr>) = cm_key m"
  "cm_key (m\<lparr>cm_visible := a\<rparr>) = cm_key m"
  "cm_key (m\<lparr>cm_pin_time := p\<rparr>) = cm_key m"
  "cm_key (m\<lparr>cm_draft := dr\<rparr>) = cm_key m"
  "cm_key (m\<lparr>cm_last_read_seq := n\<rparr>) = cm_key m"
  "cm_key (m\<lparr>cm_last_ack_seq := n\<rparr>) = cm_key m"
  by (simp_all add: cm_key_def)

lemma is_active_key: "cm_key m = (x, v) \<Longrightarrow> is_active y m \<longleftrightarrow> y = x \<and> \<not> cm_is_quit m"
  by (auto simp: is_active_def cm_key_def)

lemma nactive_put_other:
  assumes "cdb_wf db" and "sel_member db (x, v) = Some m0" and "cm_key m = (x, v)"
  shows "int (nactive (put_member m db) y) =
    int (nactive db y) + (if y = x then of_bool (\<not> cm_is_quit m) - of_bool (\<not> cm_is_quit m0) else 0)"
  using nactive_put_member [of db m m0 y] assms
    is_active_key [OF assms(3), of y] is_active_key [OF sel_member_key [OF assms(2)], of y]
  by (auto split: if_splits)

lemma inv_put_member:
  assumes inv: "conv_inv db" and m0: "sel_member db (x, v) = Some m0" and key: "cm_key m = (x, v)"
    and quit: "\<And>c. cm_is_quit m0 \<Longrightarrow> \<not> cm_is_quit m \<Longrightarrow> sel_conv db x = Some c \<Longrightarrow>
      int (nactive db x) + 1 \<le> cv_member_count c"
    and owner: "\<not> cm_is_quit m \<Longrightarrow> cm_role m = OWNER \<Longrightarrow> \<not> cm_is_quit m0 \<and> cm_role m0 = OWNER"
  shows "conv_inv (put_member m db)"
proof (rule conv_invI)
  note wf = conv_invD(1) [OF inv]
  show "cdb_wf (put_member m db)" using wf by (simp add: conv_obs)
  fix y
  show "\<exists>c. sel_conv (put_member m db) y = Some c" if "sel_member (put_member m db) (y, w) = Some m'" for w m'
    using that conv_invD(2) [OF inv] m0 key by (auto simp: conv_obs split: if_splits)
  fix c
  assume c: "sel_conv (put_member m db) y = Some c"
  then have c': "sel_conv db y = Some c" by (simp add: conv_obs)
  show "int (nactive (put_member m db) y) \<le> cv_member_count c"
    using conv_invD(3) [OF inv c'] nactive_put_other [OF wf m0 key, of y] quit c'
    by (cases "y = x"; cases "cm_is_quit m"; cases "cm_is_quit m0") auto
  show "cv_max_seq c = 0 \<and> cv_conversation_name c \<noteq> None"
    using conv_invD(4,5) [OF inv c'] by simp
  fix w m'
  assume "sel_member (put_member m db) (y, w) = Some m'" and "\<not> cm_is_quit m'" and "cm_role m' = OWNER"
  then show "cv_owner_id c = Some w"
    using conv_invD(6) [OF inv _ _ _ c'] m0 key owner by (auto simp: conv_obs split: if_splits)
qed

lemma inv_put_conv:
  assumes inv: "conv_inv db" and c0: "sel_conv db (cv_conversation_id c) = Some c0"
    and "int (nactive db (cv_conversation_id c)) \<le> cv_member_count c"
    and "cv_owner_id c = cv_owner_id c0" and "cv_max_seq c = cv_max_seq c0"
    and "cv_conversation_name c \<noteq> None"
  shows "conv_inv (put_conv c db)"
proof (rule conv_invI)
  show "cdb_wf (put_conv c db)" using conv_invD(1) [OF inv] by (simp add: conv_obs)
  fix y
  show "\<exists>d. sel_conv (put_conv c db) y = Some d" if "sel_member (put_conv c db) (y, w) = Some m'" for w m'
    using that conv_invD(2) [OF inv] by (auto simp: conv_obs)
  fix d
  assume d: "sel_conv (put_conv c db) y = Some d"
  show "int (nactive (put_conv c db) y) \<le> cv_member_count d"
    using d assms(3) conv_invD(3) [OF inv] by (auto simp: conv_obs split: if_splits)
  show "cv_max_seq d = 0 \<and> cv_conversation_name d \<noteq> None"
    using d assms(5,6) c0 conv_invD(4,5) [OF inv] by (auto simp: conv_obs split: if_splits)
  fix w m'
  assume "sel_member (put_conv c db) (y, w) = Some m'" and "\<not> cm_is_quit m'" and "cm_role m' = OWNER"
  then show "cv_owner_id d = Some w"
    using d assms(4) c0 conv_invD(6) [OF inv] by (auto simp: conv_obs split: if_splits)
qed

lemma nactive_absent:
  assumes "conv_inv db" and "sel_conv db x = None"
  shows "nactive db x = 0"
proof -
  have "active_rows x db = []"
  proof (rule ccontr)
    assume "active_rows x db \<noteq> []"
    then obtain m where "m \<in> set (active_rows x db)" by (cases "active_rows x db") auto
    then have "sel_member db (x, cm_user_id m) = Some m"
      using active_rows_iff [OF conv_invD(1) [OF assms(1)]] by blast
    with conv_invD(2) [OF assms(1)] assms(2) show False by fastforce
  qed
  then show ?thesis by (simp add: nactive_def)
qed

lemma inv_create:
  assumes inv: "conv_inv db" and new: "sel_conv db (cv_conversation_id c) = None"
    and fresh: "fresh_conversation c rows"
  shows "conv_inv (add_rows rows (add_conv c db))"
proof -
  let ?x = "cv_conversation_id c"
  note wf = conv_invD(1) [OF inv]
  have none: "sel_member db (?x, v) = None" for v
    using conv_invD(2) [OF inv, of ?x v] new by (cases "sel_member db (?x, v)") auto
  have rows: "cm_key m = (?x, cm_user_id m)" if "m \<in> set rows" for m
    using that fresh by (auto simp: fresh_conversation_def cm_key_def)
  have sel_rows: "m \<in> set rows \<and> y = ?x \<and> v = cm_user_id m" if "select_key cm_key (y, v) rows = Some m" for y v m
    using select_key_SomeD [OF that] rows by auto
  show ?thesis
  proof (rule conv_invI)
    show "cdb_wf (add_rows rows (add_conv c db))"
      using wf fresh new none rows by (auto simp: cdb_wf_add conv_obs fresh_conversation_def)
    fix y
    show "\<exists>d. sel_conv (add_rows rows (add_conv c db)) y = Some d"
      if "sel_member (add_rows rows (add_conv c db)) (y, w) = Some m'" for w m'
      using that conv_invD(2) [OF inv] sel_rows by (fastforce simp: conv_obs split: option.splits)
    fix d
    assume "sel_conv (add_rows rows (add_conv c db)) y = Some d"
    then consider "sel_conv db y = Some d" "y \<noteq> ?x" | "y = ?x" "d = c"
      using new by (cases "y = ?x") (auto simp: conv_obs split: option.splits if_splits)
    note d = this
    from d show "int (nactive (add_rows rows (add_conv c db)) y) \<le> cv_member_count d"
    proof cases
      case 1
      then have "filter (is_active y) rows = []"
        using rows by (auto simp: filter_empty_conv is_active_def cm_key_def)
      with 1 conv_invD(3) [OF inv] show ?thesis by (simp add: conv_obs)
    next
      case 2
      have "int (length (filter (is_active ?x) rows)) \<le> int (length rows)" by simp
      also have "int (length rows) \<le> cv_member_count c" using fresh by (simp add: fresh_conversation_def)
      finally show ?thesis using 2 nactive_absent [OF inv new] by (simp add: conv_obs)
    qed
    from d show "cv_max_seq d = 0 \<and> cv_conversation_name d \<noteq> None"
      using conv_invD(4,5) [OF inv] fresh by cases (auto simp: fresh_conversation_def)
    fix w m'
    assume m': "sel_member (add_rows rows (add_conv c db)) (y, w) = Some m'" "\<not> cm_is_quit m'" "cm_role m' = OWNER"
    from d show "cv_owner_id d = Some w"
    proof cases
      case 1
      then have "sel_member db (y, w) = Some m'"
        using m'(1) sel_rows [of y w m'] by (auto simp: conv_obs split: option.splits)
      from conv_invD(6) [OF inv this m'(2,3) 1(1)] show ?thesis .
    next
      case 2
      then have "m' \<in> set rows \<and> w = cm_user_id m'"
        using m'(1) sel_rows [of y w m'] none by (simp add: conv_obs)
      with 2 m'(3) fresh show ?thesis by (simp add: fresh_conversation_def)
    qed
  qed
qed

lemma nactive_pos:
  assumes "cdb_wf db" and "sel_member db (x, v) = Some m" and "\<not> cm_is_quit m"
  shows "0 < nactive db x"
proof -
  have "m \<in> set (active_rows x db)"
    using assms active_rows_iff [OF assms(1), of m x] sel_member_keyD [OF assms(2)] by simp
  then show ?thesis by (auto simp: nactive_def length_pos_if_in_set)
qed

lemma put_conv_commute:
  "put_conv c (put_member m db) = put_member m (put_conv c db)"
  "put_conv c (add_rows rows db) = add_rows rows (put_conv c db)"
  by (simp_all add: put_conv_def put_member_def add_rows_def)

lemma inv_bump_up:
  assumes "conv_inv db" and "sel_conv db x = Some c"
  shows "conv_inv (put_conv (bump_count 1 now c) db)"
    and "sel_conv (put_conv (bump_count 1 now c) db) x = Some (bump_count 1 now c)"
    and "int (nactive (put_conv (bump_count 1 now c) db) x) + 1 \<le> cv_member_count (bump_count 1 now c)"
proof -
  have id: "cv_conversation_id c = x" using assms(2) by (rule sel_conv_key)
  show "conv_inv (put_conv (bump_count 1 now c) db)"
    using assms id conv_invD(3,5) [OF assms] by (intro inv_put_conv [where ?c0.0 = c]) auto
  show "sel_conv (put_conv (bump_count 1 now c) db) x = Some (bump_count 1 now c)"
    using assms id by (simp add: conv_obs)
  show "int (nactive (put_conv (bump_count 1 now c) db) x) + 1 \<le> cv_member_count (bump_count 1 now c)"
    using conv_invD(3) [OF assms] by (simp add: conv_obs)
qed

lemma inv_add_member:
  assumes inv: "conv_inv db" and c: "sel_conv db x = Some c" and new: "sel_member db (x, v) = None"
    and key: "cm_key m = (x, v)" and role: "cm_role m = Role_NORMAL"
    and room: "int (nactive db x) + 1 \<le> cv_member_count c"
  shows "conv_inv (add_rows [m] db)"
proof (rule conv_invI)
  show "cdb_wf (add_rows [m] db)" using conv_invD(1) [OF inv] new key by (simp add: cdb_wf_add)
  fix y
  show "\<exists>d. sel_conv (add_rows [m] db) y = Some d" if "sel_member (add_rows [m] db) (y, w) = Some m'" for w m'
    using that c key conv_invD(2) [OF inv] by (auto simp: conv_obs split: option.splits if_splits)
  fix d
  assume "sel_conv (add_rows [m] db) y = Some d"
  then have d: "sel_conv db y = Some d" by (simp add: conv_obs)
  show "int (nactive (add_rows [m] db) y) \<le> cv_member_count d"
    using conv_invD(3) [OF inv d] room c d is_active_key [OF key, of y] by (auto simp: conv_obs)
  show "cv_max_seq d = 0 \<and> cv_conversation_name d \<noteq> None" using conv_invD(4,5) [OF inv d] by simp
  fix w m'
  assume "sel_member (add_rows [m] db) (y, w) = Some m'" "\<not> cm_is_quit m'" "cm_role m' = OWNER"
  then show "cv_owner_id d = Some w"
    using conv_invD(6) [OF inv _ _ _ d] role by (auto simp: conv_obs split: option.splits if_splits)
qed

lemma inv_leave:
  assumes inv: "conv_inv db" and m: "sel_member db (x, v) = Some m" "\<not> cm_is_quit m"
    and c: "sel_conv db x = Some c"
  shows "conv_inv (put_conv (bump_count (- 1) now c)
      (put_member (m\<lparr>cm_is_quit := True, cm_quit_time := Some now\<rparr>) db))"
proof -
  let ?m = "m\<lparr>cm_is_quit := True, cm_quit_time := Some now\<rparr>"
  have key: "cm_key ?m = (x, v)" using sel_member_key [OF m(1)] by simp
  have 1: "conv_inv (put_member ?m db)"
    by (rule inv_put_member [OF inv m(1) key]) simp_all
  have "int (nactive (put_member ?m db) x) = int (nactive db x) - 1"
    using nactive_put_other [OF conv_invD(1) [OF inv] m(1) key, of x] m(2) by simp
  then have "int (nactive (put_member ?m db) x) \<le> max 0 (cv_member_count c - 1)"
    using conv_invD(3) [OF inv c] by simp
  with 1 show ?thesis
    using c conv_invD(5) [OF inv c] sel_conv_key [OF c]
    by (intro inv_put_conv [where ?c0.0 = c]) (auto simp: conv_obs)
qed

lemma inv_transfer:
  assumes inv: "conv_inv db" and m1: "sel_member db (x, u) = Some m1" "\<not> cm_is_quit m1" "cm_role m1 = OWNER"
    and m2: "sel_member db (x, v) = Some m2" "\<not> cm_is_quit m2" and c: "sel_conv db x = Some c"
  shows "conv_inv (put_conv (c\<lparr>cv_owner_id := Some v\<rparr>)
       (put_member (m2\<lparr>cm_role := OWNER\<rparr>) (put_member (m1\<lparr>cm_role := ADMIN\<rparr>) db)))" (is "conv_inv ?db")
proof (rule conv_invI)
  note k1 = sel_member_key [OF m1(1)] and k2 = sel_member_key [OF m2(1)] and kc = sel_conv_key [OF c]
  have m: "sel_member ?db (y, w) =
      (if y = x \<and> w = v then Some (m2\<lparr>cm_role := OWNER\<rparr>)
       else if y = x \<and> w = u then Some (m1\<lparr>cm_role := ADMIN\<rparr>) else sel_member db (y, w))" for y w
    using m1 m2 k1 k2 by (auto simp: conv_obs)
  have cv: "sel_conv ?db y = (if y = x then Some (c\<lparr>cv_owner_id := Some v\<rparr>) else sel_conv db y)" for y
    using c kc by (simp add: conv_obs)
  let ?d1 = "put_member (m1\<lparr>cm_role := ADMIN\<rparr>) db"
  have wf1: "cdb_wf ?d1" using conv_invD(1) [OF inv] by (simp add: conv_obs)
  obtain m3 where m3: "sel_member ?d1 (x, v) = Some m3" "\<not> cm_is_quit m3"
    using m1 m2 k1 by (cases "u = v") (auto simp: conv_obs)
  have n: "nactive ?db y = nactive db y" for y
    using nactive_put_other [OF wf1 m3(1), of "m2\<lparr>cm_role := OWNER\<rparr>" y] k2 m2(2) m3(2)
      nactive_put_other [OF conv_invD(1) [OF inv] m1(1), of "m1\<lparr>cm_role := ADMIN\<rparr>" y] k1 m1(2)
    by (simp add: conv_obs split: if_splits)
  show "cdb_wf ?db" using conv_invD(1) [OF inv] by (simp add: conv_obs)
  fix y
  show "\<exists>d. sel_conv ?db y = Some d" if "sel_member ?db (y, w) = Some m'" for w m'
    using that conv_invD(2) [OF inv] by (auto simp: m cv split: if_splits)
  fix d
  assume d: "sel_conv ?db y = Some d"
  show "int (nactive ?db y) \<le> cv_member_count d"
    using d conv_invD(3) [OF inv] c by (auto simp: n cv split: if_splits)
  show "cv_max_seq d = 0 \<and> cv_conversation_name d \<noteq> None"
    using d conv_invD(4,5) [OF inv] c by (auto simp: cv split: if_splits)
  fix w m'
  assume "sel_member ?db (y, w) = Some m'" "\<not> cm_is_quit m'" "cm_role m' = OWNER"
  then show "cv_owner_id d = Some w"
    using d conv_invD(6) [OF inv m1 c] conv_invD(6) [OF inv _ _ _ c] conv_invD(6) [OF inv]
    by (auto simp: m cv split: if_splits)
qed

lemma conv_write_inv: "conv_write u db db' \<Longrightarrow> conv_inv db \<Longrightarrow> conv_inv db'"
proof (induction rule: conv_write.induct)
  case (own_row db x m m')
  then show ?case
    by (intro inv_put_member [where x = x and v = u and ?m0.0 = m])
       (auto simp: same_standing_def dest: sel_member_key)
next
  case (leave db x v m c now)
  then show ?case by (intro inv_leave)
next
  case (join db x c v m now)
  note up = inv_bump_up [OF join.prems join.hyps(2), of now]
  have "sel_member (put_conv (bump_count 1 now c) db) (x, v) = None" using join.hyps by (simp add: conv_obs)
  from inv_add_member [OF up(1,2) this _ _ up(3)] join.hyps show ?case by (simp add: put_conv_commute)
next
  case (rejoin db x c v m m' now)
  note up = inv_bump_up [OF rejoin.prems rejoin.hyps(2), of now]
  have "sel_member (put_conv (bump_count 1 now c) db) (x, v) = Some m" using rejoin.hyps by (simp add: conv_obs)
  from inv_put_member [OF up(1) this, of m'] up(2,3) rejoin.hyps show ?case by (simp add: put_conv_commute)
next
  case (edit db x c c')
  then show ?case
    using conv_invD(3,5) [OF edit.prems edit.hyps(2)]
    by (intro inv_put_conv [where ?c0.0 = c]) auto
next
  case (transfer db x m1 v m2 c)
  then show ?case by (intro inv_transfer) (auto simp: owns_def)
next
  case (set_role db x v m r)
  then show ?case
    by (intro inv_put_member [where x = x and v = v and ?m0.0 = m]) (auto dest: sel_member_key)
next
  case (create db c rows)
  then show ?case by (intro inv_create)
qed

lemma conv_writes_inv: "(conv_write u)\<^sup>*\<^sup>* db db' \<Longrightarrow> conv_inv db \<Longrightarrow> conv_inv db'"
  by (induction rule: rtranclp_induct) (auto intro: conv_write_inv)

section \<open>The handlers make guarded writes\<close>

lemma count_update:
  assumes "update_session_member_count now x d db = Some db'"
  shows "\<exists>c. sel_conv db x = Some c \<and> db' = put_conv (bump_count d now c) db"
  using assms
  by (auto simp: update_session_member_count_def bump_count_def Let_def max_def split: option.splits if_splits)

lemma set_quit_cases:
  assumes "ConversationMemberTable_set_quit ok now x v db = (b, db')"
  shows "\<not> b \<and> db' = db \<or>
    (b \<and> ok \<and> (\<exists>m c. sel_member db (x, v) = Some m \<and> \<not> cm_is_quit m \<and> sel_conv db x = Some c \<and>
       db' = put_conv (bump_count (- 1) now c)
         (put_member (m\<lparr>cm_is_quit := True, cm_quit_time := Some now\<rparr>) db)))"
  using assms
  by (fastforce simp: ConversationMemberTable_set_quit_def conv_obs
      dest: count_update split: if_splits option.splits)

lemma set_quit_write:
  assumes "ConversationMemberTable_set_quit ok now x v db = (b, db')"
    and "v = u \<or> privileged db x u \<and> (\<forall>m. sel_member db (x, v) = Some m \<longrightarrow> cm_role m \<noteq> OWNER)"
  shows "db' = db \<or> conv_write u db db'"
  using set_quit_cases [OF assms(1)] assms(2) by (auto intro: conv_write.leave)

lemma role_of_privileged: "role_of ok x u db \<noteq> Role_NORMAL \<Longrightarrow> privileged db x u"
  by (auto simp: role_of_def privileged_def ConversationMemberTable_select_self_def split: option.splits if_splits)

lemma role_of_owner: "role_of ok x u db = OWNER \<Longrightarrow> owns db x u"
  by (auto simp: role_of_def owns_def ConversationMemberTable_select_self_def split: option.splits if_splits)

lemma owns_privileged: "owns db x u \<Longrightarrow> privileged db x u"
  by (auto simp: owns_def privileged_def)

lemma require_member_iff:
  "require_member ok x u db \<longleftrightarrow> ok \<and> (\<exists>m. sel_member db (x, u) = Some m \<and> \<not> cm_is_quit m)"
  by (auto simp: require_member_def ConversationMemberTable_select_self_def split: option.splits)

lemma modify_member_write:
  assumes "modify_member ok x u f db = (b, db')" and "\<And>m. same_standing m (f m)"
  shows "db' = db \<or> conv_write u db db'"
  using assms by (auto simp: modify_member_def intro: conv_write.own_row split: if_splits option.splits)

lemma change_self_write:
  assumes "\<And>m. same_standing m (f m)"
  shows "cs_db (snd (change_self e auth x f s)) = cs_db s \<or>
    conv_write (user_id auth) (cs_db s) (cs_db (snd (change_self e auth x f s)))"
  using assms
  by (auto simp: change_self_def ConversationMemberTable_select_self_def ConversationMemberTable_update_def Let_def
      intro: conv_write.own_row split: option.splits if_splits prod.splits bool.splits)

lemma update_key_absent: "k \<notin> key ` set rs \<Longrightarrow> update_key key k f rs = rs"
  by (induction rs) (auto simp: update_key_def)

lemma put_row_update_key:
  assumes "keys_distinct key rs" and "select_key key k rs = Some m" and "key (f m) = k"
  shows "update_key key k f rs = put_row key (f m) rs"
  using assms
proof (induction rs)
  case Nil
  then show ?case by simp
next
  case (Cons y ys)
  show ?case
  proof (cases "key y = k")
    case True
    with Cons.prems have "m = y" and "k \<notin> key ` set ys" by (auto simp: keys_distinct_def)
    with True Cons.prems(3) show ?thesis
      using update_key_absent [of k key ys f]
      by (auto simp: update_key_def put_row_absent select_key_None)
  next
    case False
    with Cons show ?thesis by (auto simp: update_key_def keys_distinct_def)
  qed
qed

lemma advance_write:
  assumes "cdb_wf db" and "\<And>m. same_standing m (f m)"
    and "db' = db\<lparr>conversation_members := update_key cm_key (x, u) f (conversation_members db)\<rparr>"
  shows "db' = db \<or> conv_write u db db'"
proof (cases "sel_member db (x, u)")
  case None
  then have "update_key cm_key (x, u) f (conversation_members db) = conversation_members db"
    by (simp add: sel_member_def select_key_None update_key_absent)
  with assms(3) show ?thesis by simp
next
  case (Some m)
  then have "db' = put_member (f m) db"
    using assms put_row_update_key [of cm_key "conversation_members db" "(x, u)" m f]
    by (simp add: cdb_wf_def sel_member_def put_member_def same_standing_def sel_member_key [OF Some])
  with Some assms(2) show ?thesis by (auto intro: conv_write.own_row)
qed

lemma db_frame [simp]:
  "cs_db (es_write e k payload es_op s) = cs_db s"
  "cs_db (invalidate_members_cache ok x s) = cs_db s"
  "cs_db (es_refresh_members e k x s) = cs_db s"
  "cs_db (snd (fetch_last_message e i rid x n u s)) = cs_db s"
  "cs_db (snd (GetMemberIds e auth x s)) = cs_db s"
  by (auto simp: es_write_def invalidate_members_cache_def es_refresh_members_def fetch_last_message_def
      GetMemberIds_def Let_def split: prod.splits option.splits list.splits)

lemma list_views_db [simp]: "cs_db (snd (list_views e rid u pm i vs s)) = cs_db s"
proof (induction vs arbitrary: i s)
  case Nil
  then show ?case by simp
next
  case (Cons v vs)
  obtain c m where v: "v = (c, m)" by fastforce
  obtain r s1 where f: "fetch_last_message e i rid (cv_conversation_id c) (cm_last_read_seq m) u s = (r, s1)"
    by fastforce
  have "cs_db s1 = cs_db s" using db_frame(4) [of e i rid "cv_conversation_id c" "cm_last_read_seq m" u s] f by simp
  moreover obtain r2 s2 where l: "list_views e rid u pm (Suc i) vs s1 = (r2, s2)" by fastforce
  moreover have "cs_db s2 = cs_db s1" using Cons.IH [of "Suc i" s1] l by simp
  ultimately show ?case using Cons.IH [of "Suc i" s] f v by (auto split: sum.splits)
qed

lemma ListConversations_db [simp]: "cs_db (snd (ListConversations e rid auth s)) = cs_db s"
proof -
  let ?vs = "ConversationMemberTable_list_ordered_by_user (ce_up e 0 0) (user_id auth) (cs_db s)"
  let ?pm = "fetch_user_infos e rid (List.map_filter (\<lambda>(c, m). cv_peer_user_id c) ?vs)"
  obtain r s' where l: "list_views e rid (user_id auth) ?pm 0 ?vs s = (r, s')" by fastforce
  then have "cs_db s' = cs_db s" using list_views_db [of e rid "user_id auth" ?pm 0 ?vs s] by simp
  with l show ?thesis by (simp add: ListConversations_def Let_def split: sum.split)
qed

lemma GetConversation_db [simp]: "cs_db (snd (GetConversation e rid auth x s)) = cs_db s"
proof -
  let ?after = "case ConversationMemberTable_select_self (ce_up e 2 0) x (user_id auth) (cs_db s) of
      None \<Rightarrow> 0 | Some m \<Rightarrow> cm_last_read_seq m"
  obtain r s' where f: "fetch_last_message e 0 rid x ?after (user_id auth) s = (r, s')" by fastforce
  then have "cs_db s' = cs_db s" using db_frame(4) [of e 0 rid x ?after "user_id auth" s] by simp
  with f show ?thesis by (simp add: GetConversation_def Let_def split: sum.split option.split)
qed

section \<open>Adding and removing members\<close>

lemma append_cases:
  assumes "ConversationMemberTable_append ok now m db = (b, db')" and "cm_join_time m \<noteq> None"
    and "cm_conversation_id m = x"
  shows "\<not> b \<and> db' = db \<or>
    (b \<and> ok \<and> (\<exists>c. sel_member db (cm_key m) = None \<and> sel_conv db x = Some c \<and>
       db' = put_conv (bump_count 1 now c) (add_rows [m] db)))"
proof (cases "b \<or> db' \<noteq> db")
  case True
  have d: "default_join_time now m = m" using assms(2) by (simp add: default_join_time_def)
  from True assms(1,3) obtain ms where ok: "ok" and ms: "persist cm_key m (conversation_members db) = Some ms"
    and up: "(case update_session_member_count now x 1 (db\<lparr>conversation_members := ms\<rparr>) of
      None \<Rightarrow> (False, db) | Some db' \<Rightarrow> (True, db')) = (b, db')"
    by (auto simp: ConversationMemberTable_append_def d split: if_splits option.splits)
  from persist_SomeD [OF ms] have new: "sel_member db (cm_key m) = None"
    and rows: "db\<lparr>conversation_members := ms\<rparr> = add_rows [m] db"
    by (simp_all add: sel_member_def select_key_None add_rows_def)
  from up True have "b" and "update_session_member_count now x 1 (add_rows [m] db) = Some db'"
    unfolding rows by (cases "update_session_member_count now x 1 (add_rows [m] db)"; simp)+
  with count_update obtain c where "b" "sel_conv (add_rows [m] db) x = Some c"
      "db' = put_conv (bump_count 1 now c) (add_rows [m] db)"
    by blast
  with ok new show ?thesis by (simp add: conv_obs)
qed auto

lemma rejoin_cases:
  assumes "ConversationMemberTable_rejoin ok now x v Role_NORMAL inviter src db = (b, db')"
  shows "\<not> b \<and> db' = db \<or>
    (b \<and> ok \<and> (\<exists>m m' c. sel_member db (x, v) = Some m \<and> sel_conv db x = Some c \<and> cm_key m' = cm_key m \<and>
       \<not> cm_is_quit m' \<and> cm_role m' = Role_NORMAL \<and> cm_last_read_seq m' = cm_last_read_seq m \<and>
       cm_last_ack_seq m' = cm_last_ack_seq m \<and> db' = put_conv (bump_count 1 now c) (put_member m' db)))"
proof (cases "b \<or> db' \<noteq> db")
  case True
  with assms obtain m where ok: "ok" and m: "sel_member db (x, v) = Some m"
    by (auto simp: ConversationMemberTable_rejoin_def split: if_splits option.splits)
  define m1 where "m1 = m\<lparr>cm_is_quit := False, cm_join_time := Some now, cm_role := Role_NORMAL\<rparr>"
  define m3 where "m3 = (if inviter \<noteq> [] then m1\<lparr>cm_inviter_id := Some inviter\<rparr> else m1)\<lparr>cm_join_source := src\<rparr>"
  have props: "cm_key m3 = cm_key m" "\<not> cm_is_quit m3" "cm_role m3 = Role_NORMAL"
    "cm_last_read_seq m3 = cm_last_read_seq m" "cm_last_ack_seq m3 = cm_last_ack_seq m"
    by (simp_all add: m3_def m1_def cm_key_def)
  have "(case update_session_member_count now x 1 (put_member m3 db) of
      None \<Rightarrow> (False, db) | Some db' \<Rightarrow> (True, db')) = (b, db')"
    using assms ok m by (cases "inviter = []") (simp_all add: ConversationMemberTable_rejoin_def Let_def m1_def m3_def)
  with True have "b" and "update_session_member_count now x 1 (put_member m3 db) = Some db'"
    by (cases "update_session_member_count now x 1 (put_member m3 db)"; simp)+
  with count_update obtain c where "b" "sel_conv (put_member m3 db) x = Some c"
      "db' = put_conv (bump_count 1 now c) (put_member m3 db)"
    by blast
  with ok m props show ?thesis by (auto simp: conv_obs)
qed auto

lemma add_member_write:
  assumes add: "add_member e u x i v db = (b, db')" and priv: "privileged db x u"
    and c: "sel_conv db x = Some c" "cv_conversation_type c = GROUP" "cv_member_count c < kGroupMemberLimit"
  shows "db' = db \<or> conv_write u db db' \<and> privileged db' x u \<and>
    (\<exists>c'. sel_conv db' x = Some c' \<and> cv_conversation_type c' = GROUP \<and>
       cv_member_count c' = max 0 (cv_member_count c + 1))"
proof (cases "db' = db")
  case False
  from priv obtain mu where mu: "sel_member db (x, u) = Some mu" "\<not> cm_is_quit mu" "cm_role mu \<noteq> Role_NORMAL"
    by (auto simp: privileged_def)
  note id = sel_conv_key [OF c(1)]
  show ?thesis
  proof (cases "ConversationMemberTable_select_self (ce_up e 3 i) x v db")
    case None
    let ?m = "(ConversationMember x v False True Role_NORMAL (ce_now e))
               \<lparr>cm_inviter_id := Some u, cm_join_source := ADMIN_ADD\<rparr>"
    have m: "cm_key ?m = (x, v)" "\<not> cm_is_quit ?m" "cm_role ?m = Role_NORMAL" "cm_join_time ?m \<noteq> None"
      "cm_conversation_id ?m = x"
      by (simp_all add: ConversationMember_def cm_key_def)
    from add None have "ConversationMemberTable_append (ce_up e 4 i) (ce_now e) ?m db = (b, db')"
      by (simp add: add_member_def)
    from append_cases [OF this m(4,5)] False c(1) m(1)
    have new: "sel_member db (x, v) = None" and db': "db' = put_conv (bump_count 1 (ce_now e) c) (add_rows [?m] db)"
      by auto
    have "conv_write u db db'" unfolding db' by (rule conv_write.join) (use priv c new m in auto)
    then show ?thesis using mu new m(1) c id by (auto simp: db' conv_obs privileged_def)
  next
    case (Some m0)
    then have m0: "sel_member db (x, v) = Some m0" and "cm_is_quit m0"
      using add False by (auto simp: add_member_def ConversationMemberTable_select_self_def split: if_splits)
    with add Some have "ConversationMemberTable_rejoin (ce_up e 4 i) (ce_now e) x v Role_NORMAL u ADMIN_ADD db = (b, db')"
      by (simp add: add_member_def)
    from rejoin_cases [OF this] False m0 c(1) obtain m' where m': "cm_key m' = (x, v)" "\<not> cm_is_quit m'"
        "cm_role m' = Role_NORMAL" "cm_last_read_seq m' = cm_last_read_seq m0" "cm_last_ack_seq m' = cm_last_ack_seq m0"
      and db': "db' = put_conv (bump_count 1 (ce_now e) c) (put_member m' db)"
      by (auto dest: sel_member_key)
    have "v \<noteq> u" using mu m0 \<open>cm_is_quit m0\<close> by auto
    have "conv_write u db db'" unfolding db'
      by (rule conv_write.rejoin [where v = v and m = m0]) (use priv c m0 \<open>cm_is_quit m0\<close> m' in auto)
    then show ?thesis using mu m' c id \<open>v \<noteq> u\<close> by (auto simp: db' conv_obs privileged_def)
  qed
qed simp

lemma add_members_loop_writes:
  assumes "privileged db x u" and "sel_conv db x = Some c" and "cv_conversation_type c = GROUP"
    and "0 \<le> cv_member_count c" and "cv_member_count c + int (length ids) \<le> kGroupMemberLimit"
  shows "(conv_write u)\<^sup>*\<^sup>* db (snd (add_members_loop e u x i ids db))"
  using assms
proof (induction ids arbitrary: i db c)
  case Nil
  then show ?case by simp
next
  case (Cons v ids)
  obtain b db1 where add: "add_member e u x i v db = (b, db1)" by fastforce
  have snd_eq: "snd (add_members_loop e u x i (v # ids) db) = snd (add_members_loop e u x (Suc i) ids db1)"
    by (simp add: add split: prod.splits)
  have lim: "cv_member_count c < kGroupMemberLimit" using Cons.prems by simp
  consider "db1 = db" | c' where "conv_write u db db1" "privileged db1 x u" "sel_conv db1 x = Some c'"
      "cv_conversation_type c' = GROUP" "cv_member_count c' = max 0 (cv_member_count c + 1)"
    using add_member_write [OF add Cons.prems(1,2,3) lim] by blast
  then show ?case
  proof cases
    case 1
    with Cons.IH [of db c "Suc i"] Cons.prems show ?thesis unfolding snd_eq by simp
  next
    case 2
    with Cons.IH [of db1 c' "Suc i"] Cons.prems show ?thesis
      unfolding snd_eq by (auto intro: converse_rtranclp_into_rtranclp)
  qed
qed

lemma set_quit_keeps_other:
  assumes "v \<noteq> u"
  shows "sel_member (snd (ConversationMemberTable_set_quit ok now x v db)) (y, u) = sel_member db (y, u)"
proof -
  obtain b db' where q: "ConversationMemberTable_set_quit ok now x v db = (b, db')" by fastforce
  from set_quit_cases [OF this] assms show ?thesis
    by (auto simp: q conv_obs dest!: sel_member_key)
qed

lemma privileged_cong:
  "sel_member db' (x, u) = sel_member db (x, u) \<Longrightarrow> privileged db' x u = privileged db x u"
  by (simp add: privileged_def)

lemma remove_members_loop_writes:
  "privileged db x u \<Longrightarrow> (conv_write u)\<^sup>*\<^sup>* db (snd (remove_members_loop e u x i ids n db))"
proof (induction ids arbitrary: i n db)
  case Nil
  then show ?case by simp
next
  case (Cons v ids)
  let ?db1 = "snd (ConversationMemberTable_set_quit (ce_up e 2 i) (ce_now e) x v db)"
  consider (stop) "snd (remove_members_loop e u x i (v # ids) n db) = db"
    | (skip) "snd (remove_members_loop e u x i (v # ids) n db) = snd (remove_members_loop e u x (Suc i) ids n db)"
    | (quit) m where "v \<noteq> u" "sel_member db (x, v) = Some m" "cm_role m \<noteq> OWNER"
        "snd (remove_members_loop e u x i (v # ids) n db) = snd (remove_members_loop e u x (Suc i) ids (Suc n) ?db1)"
  proof (cases "v = u")
    case False
    then show ?thesis
    proof (cases "ConversationMemberTable_select_self (ce_up e 1 i) x v db")
      case None
      with False skip show ?thesis by simp
    next
      case (Some m)
      then have "sel_member db (x, v) = Some m"
        by (simp add: ConversationMemberTable_select_self_def split: if_splits)
      with False Some skip stop quit show ?thesis by (cases "cm_is_quit m"; cases "cm_role m = OWNER") simp_all
    qed
  qed (use stop in simp)
  then show ?case
  proof cases
    case stop
    then show ?thesis by simp
  next
    case skip
    with Cons show ?thesis by simp
  next
    case (quit m)
    obtain b where q: "ConversationMemberTable_set_quit (ce_up e 2 i) (ce_now e) x v db = (b, ?db1)"
      by (metis prod.collapse)
    have "privileged ?db1 x u"
      using Cons.prems privileged_cong set_quit_keeps_other [OF quit(1)] by blast
    from Cons.IH [OF this] have rest: "(conv_write u)\<^sup>*\<^sup>* ?db1 (snd (remove_members_loop e u x i (v # ids) n db))"
      using quit(4) by simp
    have "?db1 = db \<or> conv_write u db ?db1"
      by (rule set_quit_write [OF q]) (use Cons.prems quit in auto)
    then show ?thesis
    proof
      assume "?db1 = db"
      with rest show ?thesis by simp
    next
      assume "conv_write u db ?db1"
      with rest show ?thesis by (rule converse_rtranclp_into_rtranclp [rotated])
    qed
  qed
qed

section \<open>Every request\<close>

lemma new_rows_key:
  "m \<in> set (new_member_rows e u req x) \<Longrightarrow> cm_conversation_id m = x \<and> \<not> cm_is_quit m \<and> cm_join_time m \<noteq> None \<and>
     (cm_role m = OWNER \<longrightarrow> ccq_type req = P_GROUP \<and> cm_user_id m = u)"
  by (auto simp: new_member_rows_def ConversationMember_def owner_role_def split: if_splits)

lemma length_new_rows: "length (new_member_rows e u req x) \<le> 1 + length (ccq_member_ids req)"
  by (simp add: new_member_rows_def)

lemma default_join_new_rows:
  "map (default_join_time now) (new_member_rows e u req x) = new_member_rows e u req x"
  by (rule map_idI) (use new_rows_key in \<open>fastforce simp: default_join_time_def\<close>)

definition stored_entity :: "conv_env \<Rightarrow> uid \<Rightarrow> create_conversation_req \<Rightarrow> cid \<Rightarrow> conversation_row" where
  "stored_entity e u req x =
     (new_entity e u req x)\<lparr>cv_create_time := ce_now e, cv_update_time := ce_now e\<rparr>"

lemma stored_entity_sel [simp]:
  "cv_conversation_id (stored_entity e u req x) = x"
  "cv_member_count (stored_entity e u req x) = 1 + int (length (ccq_member_ids req))"
  "cv_max_seq (stored_entity e u req x) = 0"
  "cv_conversation_name (stored_entity e u req x) = Some (nullable_str (ccq_name req))"
  "cv_owner_id (stored_entity e u req x) = (if ccq_type req = P_GROUP then Some u else None)"
  "cv_conversation_type (stored_entity e u req x) = entity_type (ccq_type req)"
  "cv_status (stored_entity e u req x) = NORMAL"
  by (simp_all add: stored_entity_def new_entity_def Conversation_def Let_def)

lemma fresh_stored:
  assumes "rows = [] \<or> rows = new_member_rows e u req x \<and> distinct (map cm_key rows)"
  shows "fresh_conversation (stored_entity e u req x) rows"
  using assms length_new_rows [of e u req x] new_rows_key [of _ e u req x]
  by (auto simp: fresh_conversation_def)

lemma insert_cases:
  assumes "ConversationTable_insert ok now c db = ((b, c'), db')"
  shows "c' = c\<lparr>cv_create_time := now, cv_update_time := now\<rparr> \<and>
    (\<not> b \<and> db' = db \<or> b \<and> ok \<and> sel_conv db (cv_conversation_id c) = None \<and> db' = add_conv c' db)"
  using assms
  by (auto simp: ConversationTable_insert_def Let_def sel_conv_def select_key_None add_conv_def
      dest: persist_SomeD split: if_splits option.splits)

lemma append_create_cases:
  assumes "ConversationMemberTable_append_after_create ok now (new_member_rows e u req x) db = (b, db')"
  shows "\<not> b \<and> db' = db \<or>
    b \<and> ok \<and> db' = add_rows (new_member_rows e u req x) db \<and> distinct (map cm_key (new_member_rows e u req x))"
proof -
  have "new_member_rows e u req x \<noteq> []" by (simp add: new_member_rows_def)
  with assms show ?thesis
    by (auto simp: ConversationMemberTable_append_after_create_def default_join_new_rows persist_all_Some_iff
        add_rows_def split: if_splits option.splits)
qed

text \<open>CreateConversation: nothing, the bare conversation row, or the row with its members.\<close>

lemma create_effect:
  assumes "CreateConversation e auth req s = (r, s')"
  shows "cs_db s' = cs_db s \<or>
    (\<exists>x rows. sel_conv (cs_db s) x = None \<and> cs_db s' = add_rows rows (add_conv (stored_entity e (user_id auth) req x) (cs_db s)) \<and>
       (rows = [] \<and> isl r \<or> rows = new_member_rows e (user_id auth) req x \<and> distinct (map cm_key rows) \<and> \<not> isl r))"
proof -
  let ?u = "user_id auth"
  let ?x = "if ccq_type req = P_PRIVATE then private_id_of ?u (hd (ccq_member_ids req)) else ''g_'' @ ce_uuid e"
  obtain b ent db1 where ins: "ConversationTable_insert (ce_up e 2 0) (ce_now e) (new_entity e ?u req ?x) (cs_db s) = ((b, ent), db1)"
    by (metis prod.collapse)
  obtain b2 db2 where app: "ConversationMemberTable_append_after_create (ce_up e 3 0) (ce_now e)
      (new_member_rows e ?u req ?x) db1 = (b2, db2)" by fastforce
  have id: "cv_conversation_id (new_entity e ?u req ?x) = ?x"
    by (simp add: new_entity_def Conversation_def Let_def)
  note ic = insert_cases [OF ins, unfolded id, folded stored_entity_def] and ac = append_create_cases [OF app]
  have "cs_db s' = cs_db s \<or> (b \<and> \<not> b2 \<and> cs_db s' = db2 \<and> isl r) \<or> (b \<and> b2 \<and> cs_db s' = db2 \<and> \<not> isl r)"
    using assms ins app ic
    by (auto simp: CreateConversation_def Let_def split: if_splits bool.splits)
  then show ?thesis
  proof (elim disjE)
    assume "b \<and> \<not> b2 \<and> cs_db s' = db2 \<and> isl r"
    with ic ac show ?thesis by (intro disjI2 exI [of _ ?x] exI [of _ "[]"]) (auto simp: add_rows_def)
  next
    assume "b \<and> b2 \<and> cs_db s' = db2 \<and> \<not> isl r"
    with ic ac show ?thesis by blast
  qed simp
qed

lemma same_standing_upd [simp]:
  "same_standing m (m\<lparr>cm_muted := a\<rparr>)" "same_standing m (m\<lparr>cm_visible := a\<rparr>)"
  "same_standing m (m\<lparr>cm_pin_time := t\<rparr>)" "same_standing m (m\<lparr>cm_draft := d\<rparr>)"
  "same_standing m (m\<lparr>cm_last_read_seq := max (cm_last_read_seq m) n\<rparr>)"
  "same_standing m (m\<lparr>cm_last_ack_seq := max (cm_last_ack_seq m) n\<rparr>)"
  by (simp_all add: same_standing_def)

lemma writes_refl_or: "db' = db \<or> conv_write u db db' \<Longrightarrow> (conv_write u)\<^sup>*\<^sup>* db db'"
  by auto

lemma MarkRead_writes:
  assumes "cdb_wf (cs_db s)"
  shows "(conv_write (user_id auth))\<^sup>*\<^sup>* (cs_db s) (cs_db (snd (MarkRead e auth x n s)))"
proof (rule writes_refl_or)
  let ?u = "user_id auth"
  obtain b db' where u: "ConversationMemberTable_update_last_read_seq (ce_up e 1 0) x ?u n (cs_db s) = (b, db')"
    by fastforce
  then have "db' = cs_db s \<or> conv_write ?u (cs_db s) db'"
    using advance_write [OF assms, of "\<lambda>m. m\<lparr>cm_last_read_seq := max (cm_last_read_seq m) n\<rparr>" db' x ?u]
    by (auto simp: ConversationMemberTable_update_last_read_seq_def split: if_splits)
  with u show "cs_db (snd (MarkRead e auth x n s)) = cs_db s \<or>
      conv_write ?u (cs_db s) (cs_db (snd (MarkRead e auth x n s)))"
    by (auto simp: MarkRead_def)
qed

lemma Create_writes: "(conv_write (user_id auth))\<^sup>*\<^sup>* (cs_db s) (cs_db (snd (CreateConversation e auth req s)))"
proof (rule writes_refl_or)
  obtain r s' where c: "CreateConversation e auth req s = (r, s')" by fastforce
  from create_effect [OF c] show "cs_db (snd (CreateConversation e auth req s)) = cs_db s \<or>
      conv_write (user_id auth) (cs_db s) (cs_db (snd (CreateConversation e auth req s)))"
    unfolding c by (auto intro!: conv_write.create fresh_stored)
qed

lemma put_conv_writes:
  assumes "privileged db x u" and "sel_conv db x = Some c"
  shows "(conv_write u)\<^sup>*\<^sup>* db (put_conv ((apply_update req c)\<lparr>cv_update_time := now\<rparr>) db)"
    and "owns db x u \<Longrightarrow> (conv_write u)\<^sup>*\<^sup>* db (put_conv (c\<lparr>cv_status := st, cv_update_time := now\<rparr>) db)"
  using assms sel_conv_key [OF assms(2)]
  by (auto intro!: r_into_rtranclp conv_write.edit [where c = c] simp: apply_update_def set_opt_def split: option.splits)

lemma Update_writes: "(conv_write (user_id auth))\<^sup>*\<^sup>* (cs_db s) (cs_db (snd (UpdateConversation e auth req s)))"
proof -
  let ?x = "ucq_conversation_id req" and ?db = "cs_db s" and ?r = "UpdateConversation e auth req s"
  let ?role = "role_of (ce_up e 0 0) ?x (user_id auth) ?db"
  have "cs_db (snd ?r) = ?db \<or> ?role \<noteq> Role_NORMAL \<and> (\<exists>c. sel_conv ?db ?x = Some c \<and>
      cs_db (snd ?r) = put_conv ((apply_update req c)\<lparr>cv_update_time := ce_now e\<rparr>) ?db)"
    by (cases ?role; cases "sel_conv ?db ?x"; cases "ce_up e 2 0")
       (simp_all add: UpdateConversation_def ConversationTable_select_def ConversationTable_update_def Let_def
          apply_update_def)
  then show ?thesis
    using role_of_privileged [of "ce_up e 0 0" ?x "user_id auth" ?db] put_conv_writes(1) [of ?db ?x "user_id auth"]
    by auto
qed

lemma Dismiss_writes: "(conv_write (user_id auth))\<^sup>*\<^sup>* (cs_db s) (cs_db (snd (DismissConversation e auth x s)))"
proof -
  let ?db = "cs_db s" and ?r = "DismissConversation e auth x s"
  have "cs_db (snd ?r) = ?db \<or> role_of (ce_up e 0 0) x (user_id auth) ?db = OWNER \<and> (\<exists>c. sel_conv ?db x = Some c \<and>
      cs_db (snd ?r) = put_conv (c\<lparr>cv_status := DISMISSED, cv_update_time := ce_now e\<rparr>) ?db)"
    by (cases "sel_conv ?db x"; cases "ce_up e 1 0")
       (simp_all add: DismissConversation_def ConversationTable_update_status_def)
  then show ?thesis
    using role_of_owner [of "ce_up e 0 0" x "user_id auth" ?db] owns_privileged [of ?db x "user_id auth"]
      put_conv_writes(2) [of ?db x "user_id auth"]
    by auto
qed

lemma Quit_writes: "(conv_write (user_id auth))\<^sup>*\<^sup>* (cs_db s) (cs_db (snd (QuitConversation e auth x s)))"
proof (rule writes_refl_or)
  obtain b db' where q: "ConversationMemberTable_set_quit (ce_up e 2 0) (ce_now e) x (user_id auth) (cs_db s) = (b, db')"
    by fastforce
  from set_quit_write [OF q, of "user_id auth"] q
  show "cs_db (snd (QuitConversation e auth x s)) = cs_db s \<or>
      conv_write (user_id auth) (cs_db s) (cs_db (snd (QuitConversation e auth x s)))"
    by (auto simp: QuitConversation_def split: bool.splits)
qed

lemma Add_writes:
  assumes "conv_inv (cs_db s)"
  shows "(conv_write (user_id auth))\<^sup>*\<^sup>* (cs_db s) (cs_db (snd (AddMembers e auth x ids s)))"
proof -
  let ?db = "cs_db s" and ?u = "user_id auth" and ?r = "AddMembers e auth x ids s"
  have "cs_db (snd ?r) = ?db \<or> (\<exists>c. sel_conv ?db x = Some c \<and> cv_conversation_type c = GROUP \<and>
      role_of (ce_up e 1 0) x ?u ?db \<noteq> Role_NORMAL \<and>
      cv_member_count c + int (length ids) \<le> kGroupMemberLimit \<and>
      cs_db (snd ?r) = snd (add_members_loop e ?u x 0 ids ?db))"
    by (cases "role_of (ce_up e 1 0) x ?u ?db"; cases "sel_conv ?db x")
       (auto simp: AddMembers_def ConversationTable_select_def Let_def split: prod.split)
  then show ?thesis
  proof (elim disjE exE conjE)
    fix c
    assume c: "sel_conv ?db x = Some c" "cv_conversation_type c = GROUP"
      "role_of (ce_up e 1 0) x ?u ?db \<noteq> Role_NORMAL" "cv_member_count c + int (length ids) \<le> kGroupMemberLimit"
      and "cs_db (snd ?r) = snd (add_members_loop e ?u x 0 ids ?db)"
    with conv_invD(3) [OF assms c(1)] show ?thesis
      using add_members_loop_writes [of ?db x ?u c ids e 0] role_of_privileged [OF c(3)] by simp
  qed simp
qed

lemma Remove_writes: "(conv_write (user_id auth))\<^sup>*\<^sup>* (cs_db s) (cs_db (snd (RemoveMembers e auth x ids s)))"
proof -
  let ?db = "cs_db s" and ?u = "user_id auth" and ?r = "RemoveMembers e auth x ids s"
  obtain r db' where l: "remove_members_loop e ?u x 0 ids 0 ?db = (r, db')" by fastforce
  have "cs_db (snd ?r) = ?db \<or> role_of (ce_up e 0 0) x ?u ?db \<noteq> Role_NORMAL \<and> cs_db (snd ?r) = db'"
    using l by (cases "role_of (ce_up e 0 0) x ?u ?db"; cases r) (simp_all add: RemoveMembers_def Let_def)
  then show ?thesis
    using remove_members_loop_writes [of ?db x ?u e 0 ids 0] l by (auto dest: role_of_privileged)
qed

lemma transfer_effect:
  assumes "ConversationMemberTable_transfer_owner ok x u v db = (b, db')" and "sel_conv db x = Some c"
    and "sel_member db (x, u) = Some m1"
  shows "db' = db \<or> (\<exists>m2. sel_member db (x, v) = Some m2 \<and> \<not> cm_is_quit m2 \<and> cm_role m1 = OWNER \<and>
    db' = put_conv (c\<lparr>cv_owner_id := Some v\<rparr>)
       (put_member (m2\<lparr>cm_role := OWNER\<rparr>) (put_member (m1\<lparr>cm_role := ADMIN\<rparr>) db)))"
  using assms
  by (cases "sel_member db (x, v)")
     (auto simp: ConversationMemberTable_transfer_owner_def conv_obs Let_def split: if_splits)

lemma Transfer_writes:
  assumes "conv_inv (cs_db s)"
  shows "(conv_write (user_id auth))\<^sup>*\<^sup>* (cs_db s) (cs_db (snd (TransferOwner e auth x v s)))"
proof (rule writes_refl_or)
  let ?db = "cs_db s" and ?u = "user_id auth" and ?r = "TransferOwner e auth x v s"
  obtain b db' where t: "ConversationMemberTable_transfer_owner (ce_up e 2 0) x ?u v ?db = (b, db')" by fastforce
  have "cs_db (snd ?r) = ?db \<or> role_of (ce_up e 0 0) x ?u ?db = OWNER \<and> cs_db (snd ?r) = db'"
    using t by (cases b) (simp_all add: TransferOwner_def)
  then show "cs_db (snd ?r) = ?db \<or> conv_write ?u ?db (cs_db (snd ?r))"
  proof (elim disjE conjE)
    assume owner: "role_of (ce_up e 0 0) x ?u ?db = OWNER" and r: "cs_db (snd ?r) = db'"
    then have o: "owns ?db x ?u" by (simp add: role_of_owner)
    then obtain m1 c where m1: "sel_member ?db (x, ?u) = Some m1" and c: "sel_conv ?db x = Some c"
      using conv_invD(2) [OF assms] unfolding owns_def by blast
    from transfer_effect [OF t c m1] o m1 c show ?thesis unfolding r
      by (auto intro: conv_write.transfer)
  qed simp
qed

lemma ChangeRole_writes: "(conv_write (user_id auth))\<^sup>*\<^sup>* (cs_db s) (cs_db (snd (ChangeMemberRole e auth x v r s)))"
proof (rule writes_refl_or)
  let ?db = "cs_db s" and ?u = "user_id auth" and ?r = "ChangeMemberRole e auth x v r s"
  have "cs_db (snd ?r) = ?db \<or> role_of (ce_up e 0 0) x ?u ?db = OWNER \<and> (\<exists>m. sel_member ?db (x, v) = Some m \<and>
      cm_role m \<noteq> OWNER \<and> cs_db (snd ?r) = put_member (m\<lparr>cm_role := if r = 1 then ADMIN else Role_NORMAL\<rparr>) ?db)"
    by (cases "sel_member ?db (x, v)"; cases "ce_up e 1 0"; cases "ce_up e 2 0")
       (simp_all add: ChangeMemberRole_def ConversationMemberTable_update_role_def modify_member_def
          ConversationMemberTable_select_self_def)
  then show "cs_db (snd ?r) = ?db \<or> conv_write ?u ?db (cs_db (snd ?r))"
    using role_of_owner [of "ce_up e 0 0" x ?u ?db]
      conv_write.set_role [of ?db x ?u v _ "if r = 1 then ADMIN else Role_NORMAL"]
    by (auto split: if_splits)
qed

lemma SaveDraft_writes: "(conv_write (user_id auth))\<^sup>*\<^sup>* (cs_db s) (cs_db (snd (SaveDraft e auth x d s)))"
proof (rule writes_refl_or)
  obtain b db' where m: "modify_member (ce_up e 0 0) x (user_id auth)
      (\<lambda>m. m\<lparr>cm_draft := (if d = [] then None else Some d)\<rparr>) (cs_db s) = (b, db')" by fastforce
  from modify_member_write [OF this] m
  show "cs_db (snd (SaveDraft e auth x d s)) = cs_db s \<or>
      conv_write (user_id auth) (cs_db s) (cs_db (snd (SaveDraft e auth x d s)))"
    by (auto simp: SaveDraft_def ConversationMemberTable_update_draft_def Let_def split: bool.splits)
qed

text \<open>Every request of a user changes the tables by guarded writes of that user only.\<close>

lemma drop_rsp_snd [simp]: "snd (drop_rsp r) = snd r"
  by (simp add: drop_rsp_def)

lemma change_self_writes:
  "(\<And>m. same_standing m (f m)) \<Longrightarrow>
    (conv_write (user_id auth))\<^sup>*\<^sup>* (cs_db s) (cs_db (snd (change_self e auth x f s)))"
  by (rule writes_refl_or) (rule change_self_write)

lemma request_writes:
  assumes "conv_inv (cs_db s)"
  shows "(conv_write (user_id auth))\<^sup>*\<^sup>* (cs_db s) (cs_db (snd (conv_body e rid q auth s)))"
  using assms conv_invD(1) [OF assms]
  by (cases q)
     (simp_all add: MarkRead_writes Create_writes Update_writes Dismiss_writes Quit_writes Add_writes Remove_writes
        Transfer_writes ChangeRole_writes SaveDraft_writes change_self_writes SetMute_def SetPin_def SetVisible_def)

lemma request_inv: "conv_inv (cs_db s) \<Longrightarrow> conv_inv (cs_db (snd (conv_body e rid q auth s)))"
  using request_writes conv_writes_inv by blast

lemma rpc_writes:
  assumes "conv_inv (cs_db s)"
  shows "\<exists>u. (conv_write u)\<^sup>*\<^sup>* (cs_db s) (cs_db (snd (conv_rpc e rid md q s)))"
  unfolding conv_rpc_def
  by (rule handle_rpc_state [where P = "\<lambda>t. \<exists>u. (conv_write u)\<^sup>*\<^sup>* (cs_db s) (cs_db t)"])
     (use request_writes [OF assms] in blast)+

lemma conv_step_writes:
  assumes "conv_step s t" and "conv_inv (cs_db s)"
  shows "\<exists>u. (conv_write u)\<^sup>*\<^sup>* (cs_db s) (cs_db t)"
  using assms
proof (induction rule: conv_step.induct)
  case (request e rid md q s t)
  then show ?case using rpc_writes by blast
next
  case (acked ok x u n s b db')
  then have "db' = cs_db s \<or> conv_write u (cs_db s) db'"
    using advance_write [OF conv_invD(1), of "cs_db s" "\<lambda>m. m\<lparr>cm_last_ack_seq := max (cm_last_ack_seq m) n\<rparr>" db' x u]
    by (auto simp: ConversationMemberTable_update_last_ack_seq_def split: if_splits)
  then show ?case by (auto intro: writes_refl_or)
qed auto

interpretation conv_system: invariant_system "\<lambda>s. s = empty_conv_state" conv_step "\<lambda>s. conv_inv (cs_db s)"
proof
  fix s :: conv_state
  assume "s = empty_conv_state"
  then show "conv_inv (cs_db s)"
    by (auto intro!: conv_invI simp: empty_conv_state_def cdb_wf_def sel_conv_def sel_member_def)
next
  fix s t
  assume "conv_inv (cs_db s)" and "conv_step s t"
  then show "conv_inv (cs_db t)" using conv_step_writes conv_writes_inv by blast
qed

end
