(* ===== verification/Conversation_Props.thy ===== *)
theory Conversation_Props
  imports Conversation_Writes
begin

text \<open>
  The properties of the conversation service: membership counts and ownership in every
  reachable state, read cursors that never move back, isolation of members without a role, the
  member limit, private conversations, member lists through the cache, paging and searching; and
  the situations in which the code does not keep what it promises.
\<close>

abbreviation conv_reach :: "conv_state \<Rightarrow> bool" where
  "conv_reach \<equiv> reach (\<lambda>s. s = empty_conv_state) conv_step"

lemmas conv_reach_inv = conv_system.inv_reach

lemma conv_reach_empty: "conv_reach empty_conv_state"
  by (rule reach_init) simp

lemma conv_reach_rpc: "conv_reach s \<Longrightarrow> conv_reach (snd (conv_rpc e rid md q s))"
  by (erule reach_step) (rule conv_step.request, simp)

section \<open>A concrete group\<close>

definition demo_auth :: "uid \<Rightarrow> auth_context" where
  "demo_auth u = \<lparr>user_id = u, device_id = ''d'', trace_id = [], jwt_jti = []\<rparr>"

definition demo_md :: "uid \<Rightarrow> rpc_metadata option" where
  "demo_md u = Some \<lparr>md_user_id = u, md_device_id = ''d'', md_trace_id = [], md_jwt_jti = []\<rparr>"

definition demo_env :: conv_env where
  "demo_env = \<lparr>ce_now = 5000, ce_uuid = ''1'', ce_up = all_up, ce_identity = (\<lambda>_ _. No_channel),
     ce_message = (\<lambda>_ _ _. No_channel), ce_search = (\<lambda>_ _. []), ce_ser = (\<lambda>_. ''j''),
     ce_unser = (\<lambda>_. None), ce_url_prefix = []\<rparr>"

definition group_req :: "uid list \<Rightarrow> create_conversation_req" where
  "group_req ids = \<lparr>ccq_request_id = [], ccq_type = P_GROUP, ccq_name = Some ''n'', ccq_avatar_url = None,
     ccq_description = None, ccq_member_ids = ids\<rparr>"

text \<open>User a creates the group \<open>g_1\<close> with member b.\<close>

definition demo_db :: conv_db where
  "demo_db = \<lparr>conversations = [stored_entity demo_env ''a'' (group_req [''b'']) ''g_1''],
     conversation_members = new_member_rows demo_env ''a'' (group_req [''b'']) ''g_1''\<rparr>"

definition demo_group :: conv_state where
  "demo_group = snd (conv_rpc demo_env ''r'' (demo_md ''a'') (Q_Create (group_req [''b''])) empty_conv_state)"

lemma extract_demo_md [simp]: "u \<noteq> [] \<Longrightarrow> extract_auth (demo_md u) = Inr (demo_auth u)"
  by (simp add: extract_auth_def demo_md_def demo_auth_def)

lemma snd_conv_rpc:
  "extract_auth md = Inr auth \<Longrightarrow> snd (conv_rpc e rid md q s) = snd (conv_body e rid q auth s)"
  by (simp add: conv_rpc_def handle_rpc_def split: prod.split sum.split)

lemma demo_group_db: "cs_db demo_group = demo_db"
  by (simp add: demo_group_def snd_conv_rpc CreateConversation_def Let_def group_req_def empty_conv_state_def
      demo_env_def demo_auth_def ConversationTable_insert_def persist_def
      ConversationMemberTable_append_after_create_def new_member_rows_def default_join_time_def
      ConversationMember_def cm_key_def demo_db_def stored_entity_def new_entity_def Conversation_def owner_role_def)

lemma demo_group_reach: "conv_reach demo_group"
  unfolding demo_group_def by (rule conv_reach_rpc) (rule conv_reach_empty)

lemma demo_members [simp]:
  "sel_member demo_db (''g_1'', ''a'') = Some (ConversationMember ''g_1'' ''a'' False True OWNER 5000)"
  "sel_member demo_db (''g_1'', ''b'') = Some (ConversationMember ''g_1'' ''b'' False True Role_NORMAL 5000)"
  by (simp_all add: sel_member_def demo_db_def new_member_rows_def group_req_def demo_env_def owner_role_def
      ConversationMember_def cm_key_def)

lemma demo_conv [simp]: "sel_conv demo_db ''g_1'' = Some (stored_entity demo_env ''a'' (group_req [''b'']) ''g_1'')"
  by (simp add: sel_conv_def demo_db_def)

lemma demo_convs: "conversations demo_db = [stored_entity demo_env ''a'' (group_req [''b'']) ''g_1'']"
  by (simp add: demo_db_def)

lemma demo_up: "ce_up demo_env = all_up"
  by (simp add: demo_env_def)

section \<open>One owner\<close>

text \<open>Claim C16. In every reachable state a conversation has at most one active owner, and it is
  the owner recorded in the conversation row; creating, transferring, changing roles, quitting,
  removing and adding keep this, whatever database calls fail.\<close>

theorem at_most_one_owner:
  assumes "conv_reach s" and "owns (cs_db s) x u" and "sel_conv (cs_db s) x = Some c"
  shows "cv_owner_id c = Some u \<and> (\<forall>v. owns (cs_db s) x v \<longrightarrow> v = u)"
proof -
  have inv: "conv_inv (cs_db s)" using assms(1) by (rule conv_reach_inv)
  have *: "cv_owner_id c = Some v" if "owns (cs_db s) x v" for v
    using that conv_invD(6) [OF inv _ _ _ assms(3)] by (auto simp: owns_def)
  from * [OF assms(2)] * show ?thesis by fastforce
qed

theorem at_most_one_owner_witness:
  "cv_owner_id (stored_entity demo_env ''a'' (group_req [''b'']) ''g_1'') = Some ''a'' \<and>
   \<not> owns (cs_db demo_group) ''g_1'' ''b''"
proof -
  have "owns (cs_db demo_group) ''g_1'' ''a''"
    by (simp add: demo_group_db owns_def ConversationMember_def)
  from at_most_one_owner [OF demo_group_reach this] show ?thesis
    by (auto simp: demo_group_db)
qed

text \<open>The check for the owner fails open. If the database does not answer the role
  lookup of QuitConversation (call 0) but answers the calls after it, the owner of a group
  quits successfully, and the group has no active owner left.\<close>

theorem owner_quits_when_role_lookup_fails:
  assumes "conv_inv (cs_db s)" and "owns (cs_db s) x (user_id auth)"
    and "\<not> ce_up e 0 0" and "ce_up e 1 0" and "ce_up e 2 0"
    and "QuitConversation e auth x s = (r, s')"
  shows "r = Inr () \<and> (\<forall>v. \<not> owns (cs_db s') x v)"
proof -
  let ?u = "user_id auth" and ?db = "cs_db s"
  obtain m where m: "sel_member ?db (x, ?u) = Some m" "\<not> cm_is_quit m" "cm_role m = OWNER"
    using assms(2) by (auto simp: owns_def)
  obtain c where c: "sel_conv ?db x = Some c" using conv_invD(2) [OF assms(1) m(1)] by blast
  let ?m = "m\<lparr>cm_is_quit := True, cm_quit_time := Some (ce_now e)\<rparr>"
  obtain b db' where q: "ConversationMemberTable_set_quit (ce_up e 2 0) (ce_now e) x ?u ?db = (b, db')" by fastforce
  from m c assms(5) have "b" and db': "db' = put_conv (bump_count (- 1) (ce_now e) c) (put_member ?m ?db)"
    using q by (auto simp: ConversationMemberTable_set_quit_def update_session_member_count_def conv_obs
        bump_count_def Let_def max_def)
  have "r = Inr ()" and s': "cs_db s' = db'"
    using assms(3-6) m q \<open>b\<close>
    by (auto simp: QuitConversation_def role_of_def ConversationMemberTable_select_self_def require_member_def)
  moreover have "\<not> owns db' x v" for v
  proof
    assume "owns db' x v"
    then obtain mv where mv: "sel_member db' (x, v) = Some mv" "\<not> cm_is_quit mv" "cm_role mv = OWNER"
      by (auto simp: owns_def)
    with m(1) have "v \<noteq> ?u" and "sel_member ?db (x, v) = Some mv"
      by (auto simp: db' conv_obs sel_member_key [OF m(1)] split: if_splits)
    with mv(2,3) conv_invD(6) [OF assms(1) _ _ _ c] m show False by (metis option.inject)
  qed
  ultimately show ?thesis by simp
qed

definition role_down_env :: conv_env where
  "role_down_env = demo_env\<lparr>ce_up := (\<lambda>k _. k \<noteq> 0)\<rparr>"

theorem owner_quits_when_role_lookup_fails_witness:
  "fst (QuitConversation role_down_env (demo_auth ''a'') ''g_1'' demo_group) = Inr () \<and>
   (\<forall>v. \<not> owns (cs_db (snd (QuitConversation role_down_env (demo_auth ''a'') ''g_1'' demo_group))) ''g_1'' v)"
  by (rule owner_quits_when_role_lookup_fails
        [OF conv_reach_inv [OF demo_group_reach], where e = role_down_env and auth = "demo_auth ''a''"])
     (simp_all add: demo_group_db owns_def ConversationMember_def demo_auth_def role_down_env_def demo_env_def)

section \<open>Counts and the member limit\<close>

lemma length_members: "length (ConversationMemberTable_members True x db) = nactive db x"
  by (simp add: ConversationMemberTable_members_def nactive_def)

lemma add_members_loop_count:
  assumes "privileged db x u" and "sel_conv db x = Some c" and "cv_conversation_type c = GROUP"
    and "0 \<le> cv_member_count c" and "cv_member_count c + int (length ids) \<le> kGroupMemberLimit"
  shows "\<exists>c'. sel_conv (snd (add_members_loop e u x i ids db)) x = Some c' \<and> cv_member_count c' \<le> kGroupMemberLimit"
  using assms
proof (induction ids arbitrary: i db c)
  case Nil
  then show ?case by simp
next
  case (Cons v ids)
  obtain b db1 where add: "add_member e u x i v db = (b, db1)" by fastforce
  have snd_eq: "snd (add_members_loop e u x i (v # ids) db) = snd (add_members_loop e u x (Suc i) ids db1)"
    by (simp add: add split: prod.splits)
  have lim: "cv_member_count c < kGroupMemberLimit" using Cons.prems by simp
  consider "db1 = db" | c' where "privileged db1 x u" "sel_conv db1 x = Some c'"
      "cv_conversation_type c' = GROUP" "cv_member_count c' = max 0 (cv_member_count c + 1)"
    using add_member_write [OF add Cons.prems(1,2,3) lim] by blast
  then show ?case
  proof cases
    case 1
    with Cons.IH [of db c "Suc i"] Cons.prems show ?thesis unfolding snd_eq by simp
  next
    case 2
    with Cons.IH [of db1 c' "Suc i"] Cons.prems show ?thesis unfolding snd_eq by simp
  qed
qed

text \<open>The stored member count is never below the number of active members, in every
  reachable state; so a successful AddMembers never leaves a group with more than 500 active
  members, although it only checks the stored count, and only once.\<close>

theorem add_members_respects_limit:
  assumes "conv_reach s" and "AddMembers e auth x ids s = (Inr failed, s')"
  shows "(\<forall>y c. sel_conv (cs_db s) y = Some c \<longrightarrow>
            int (length (ConversationMemberTable_members True y (cs_db s))) \<le> cv_member_count c)
       \<and> length (ConversationMemberTable_members True x (cs_db s')) \<le> 500"
proof -
  have inv: "conv_inv (cs_db s)" using assms(1) by (rule conv_reach_inv)
  let ?u = "user_id auth" and ?db = "cs_db s"
  let ?role = "role_of (ce_up e 1 0) x ?u ?db"
  from assms(2) obtain c where c: "sel_conv ?db x = Some c" "cv_conversation_type c = GROUP" "?role \<noteq> Role_NORMAL"
      "cv_member_count c + int (length ids) \<le> kGroupMemberLimit"
    and s': "cs_db s' = snd (add_members_loop e ?u x 0 ids ?db)"
    by (cases ?role) (auto simp: AddMembers_def ConversationTable_select_def Let_def split: if_splits option.splits prod.splits)
  have "0 \<le> cv_member_count c" using conv_invD(3) [OF inv c(1)] by simp
  then obtain c' where c': "sel_conv (cs_db s') x = Some c'" "cv_member_count c' \<le> kGroupMemberLimit"
    using add_members_loop_count [OF role_of_privileged [OF c(3)] c(1,2) _ c(4), of e 0] s' by auto
  have "conv_inv (cs_db s')" using Add_writes [OF inv, of auth e x ids] assms(2) conv_writes_inv inv by fastforce
  from conv_invD(3) [OF this c'(1)] c'(2) have "length (ConversationMemberTable_members True x (cs_db s')) \<le> 500"
    by (simp add: length_members kGroupMemberLimit_def)
  then show ?thesis using conv_invD(3) [OF inv] by (simp add: length_members)
qed

lemma demo_add: "\<exists>s'. AddMembers demo_env (demo_auth ''a'') ''g_1'' [''c''] demo_group = (Inr [], s')"
proof -
  have "fst (AddMembers demo_env (demo_auth ''a'') ''g_1'' [''c''] demo_group) = Inr []"
    by (simp add: AddMembers_def ConversationTable_select_def role_of_def
        ConversationMemberTable_select_self_def demo_group_db ConversationMember_def demo_env_def
        demo_auth_def group_req_def kGroupMemberLimit_def add_member_def
        ConversationMemberTable_append_def persist_def update_session_member_count_def
        sel_conv_def sel_member_def demo_db_def new_member_rows_def cm_key_def default_join_time_def Let_def owner_role_def)
  then show ?thesis by (metis prod.collapse)
qed

theorem add_members_respects_limit_witness:
  "\<exists>s'. AddMembers demo_env (demo_auth ''a'') ''g_1'' [''c''] demo_group = (Inr [], s') \<and>
     length (ConversationMemberTable_members True ''g_1'' (cs_db s')) \<le> 500"
  using demo_add add_members_respects_limit [OF demo_group_reach] by blast

section \<open>Read cursors\<close>

definition cursors_le :: "conv_db \<Rightarrow> conv_db \<Rightarrow> bool" where
  "cursors_le db db' = (\<forall>k m. sel_member db k = Some m \<longrightarrow>
     (\<exists>m'. sel_member db' k = Some m' \<and> cm_last_read_seq m \<le> cm_last_read_seq m' \<and>
           cm_last_ack_seq m \<le> cm_last_ack_seq m'))"

lemma cursors_le_refl [simp]: "cursors_le db db"
  by (simp add: cursors_le_def)

lemma cursors_le_trans: "cursors_le a b \<Longrightarrow> cursors_le b c \<Longrightarrow> cursors_le a c"
  unfolding cursors_le_def by (meson order_trans)

lemma cursors_le_put [simp]: "cursors_le db (put_conv c db') = cursors_le db db'"
  by (simp add: cursors_le_def conv_obs)

lemma cursors_le_add [simp]: "cursors_le db (add_rows rows db)" "cursors_le db (add_rows rows (add_conv c db))"
  by (simp_all add: cursors_le_def conv_obs)

lemma cursors_le_put_member:
  assumes "sel_member db k = Some m0" and "cm_key m = cm_key m0"
    and "cm_last_read_seq m0 \<le> cm_last_read_seq m" and "cm_last_ack_seq m0 \<le> cm_last_ack_seq m"
  shows "cursors_le db (put_member m db)"
  using assms sel_member_key [OF assms(1)] by (auto simp: cursors_le_def conv_obs)

lemma conv_write_cursors: "conv_write u db db' \<Longrightarrow> cursors_le db db'"
proof (induction rule: conv_write.induct)
  case (transfer db x m1 w m2 c)
  let ?db1 = "put_member (m1\<lparr>cm_role := ADMIN\<rparr>) db"
  have 1: "cursors_le db ?db1" by (rule cursors_le_put_member [OF transfer(2)]) simp_all
  obtain m3 where "sel_member ?db1 (x, w) = Some m3" "cm_last_read_seq m3 = cm_last_read_seq m2"
      "cm_last_ack_seq m3 = cm_last_ack_seq m2"
    using transfer sel_member_key [OF transfer(2)] by (cases "w = u") (auto simp: conv_obs)
  then have "cursors_le ?db1 (put_member (m2\<lparr>cm_role := OWNER\<rparr>) ?db1)"
    using sel_member_key [OF transfer(3)] by (intro cursors_le_put_member) (auto dest: sel_member_key)
  with 1 show ?case by (simp add: cursors_le_trans)
qed (auto simp: same_standing_def sel_member_key intro: cursors_le_put_member)

lemma conv_writes_cursors: "(conv_write u)\<^sup>*\<^sup>* db db' \<Longrightarrow> cursors_le db db'"
  by (induction rule: rtranclp_induct) (auto intro: cursors_le_trans conv_write_cursors)

text \<open>The read cursor and the delivery cursor of a member never move back and the
  member row never disappears: no step of the service (any request of anybody with any pattern
  of failed calls, quitting and rejoining included, a receipt, the reaper, an expiry) lowers them.\<close>

theorem read_cursors_monotone:
  assumes "conv_reach s" and "conv_step s t" and "sel_member (cs_db s) (x, v) = Some m"
  shows "\<exists>m'. sel_member (cs_db t) (x, v) = Some m' \<and> cm_last_read_seq m \<le> cm_last_read_seq m' \<and>
    cm_last_ack_seq m \<le> cm_last_ack_seq m'"
proof -
  obtain u where "(conv_write u)\<^sup>*\<^sup>* (cs_db s) (cs_db t)"
    using conv_step_writes [OF assms(2) conv_reach_inv [OF assms(1)]] by blast
  then have "cursors_le (cs_db s) (cs_db t)" by (rule conv_writes_cursors)
  with assms(3) show ?thesis by (simp add: cursors_le_def)
qed

theorem read_cursors_monotone_witness:
  "\<exists>m'. sel_member (cs_db (snd (conv_rpc demo_env ''r'' (demo_md ''b'') (Q_MarkRead ''g_1'' 7) demo_group)))
       (''g_1'', ''b'') = Some m' \<and>
     cm_last_read_seq (ConversationMember ''g_1'' ''b'' False True Role_NORMAL 5000) \<le> cm_last_read_seq m' \<and>
     cm_last_ack_seq (ConversationMember ''g_1'' ''b'' False True Role_NORMAL 5000) \<le> cm_last_ack_seq m'"
  by (rule read_cursors_monotone [OF demo_group_reach conv_step.request]) (simp_all add: demo_group_db)

section \<open>Members without a role\<close>

definition active_member :: "conv_db \<Rightarrow> cid \<Rightarrow> uid \<Rightarrow> bool" where
  "active_member db x u = (\<exists>m. sel_member db (x, u) = Some m \<and> \<not> cm_is_quit m)"

text \<open>Two versions of a conversation row that differ in count and update time at most.\<close>

definition same_profile :: "conversation_row \<Rightarrow> conversation_row \<Rightarrow> bool" where
  "same_profile c c' = (c' = c\<lparr>cv_member_count := cv_member_count c', cv_update_time := cv_update_time c'\<rparr>)"

definition isolated :: "uid \<Rightarrow> cid \<Rightarrow> conv_db \<Rightarrow> conv_db \<Rightarrow> bool" where
  "isolated u x db db' =
     ((\<forall>v. v \<noteq> u \<longrightarrow> sel_member db' (x, v) = sel_member db (x, v)) \<and>
      (\<exists>c c'. sel_conv db x = Some c \<and> sel_conv db' x = Some c' \<and> same_profile c c' \<and>
         (\<not> active_member db x u \<longrightarrow> c' = c)) \<and>
      (\<not> active_member db x u \<longrightarrow> \<not> active_member db' x u) \<and> \<not> privileged db' x u)"

lemma same_profile_simps [simp]:
  "same_profile c c" "same_profile c (bump_count d now c)"
  by (simp_all add: same_profile_def bump_count_def)

lemma same_profile_trans: "same_profile a b \<Longrightarrow> same_profile b c \<Longrightarrow> same_profile a c"
  unfolding same_profile_def
  by (cases a; cases b; cases c) simp

lemma isolated_elsewhere:
  assumes "\<And>v. sel_member db' (x, v) = sel_member db (x, v)" and "sel_conv db' x = sel_conv db x"
    and "\<not> privileged db x u" and "sel_conv db x = Some c"
  shows "isolated u x db db'"
  using assms by (simp add: isolated_def active_member_def privileged_def)

lemma conv_write_isolated:
  assumes "conv_write u db db'" and "\<not> privileged db x u" and "sel_conv db x = Some c"
  shows "isolated u x db db'"
  using assms
proof (induction rule: conv_write.induct)
  case (own_row db y m m')
  then have k: "cm_key m' = (y, u)" "cm_role m' = cm_role m" "cm_is_quit m' = cm_is_quit m"
    by (simp_all add: same_standing_def sel_member_key [OF own_row(1)])
  show ?case
  proof (cases "y = x")
    case True
    with own_row(1,3,4) k show ?thesis
      by (auto simp: isolated_def conv_obs active_member_def privileged_def)
  next
    case False
    with own_row k show ?thesis by (intro isolated_elsewhere) (auto simp: conv_obs)
  qed
next
  case (leave db y v m d now)
  note km = sel_member_key [OF leave(1)] and kd = sel_conv_key [OF leave(3)]
  show ?case
  proof (cases "y = x")
    case True
    with leave have "v = u" by auto
    with True leave km kd show ?thesis
      by (auto simp: isolated_def conv_obs active_member_def privileged_def)
  next
    case False
    with leave km kd show ?thesis by (intro isolated_elsewhere) (auto simp: conv_obs)
  qed
next
  case (create db d rows)
  then have ne: "cv_conversation_id d \<noteq> x" by auto
  have "select_key cm_key (x, v) rows = None" for v
    using create(2) ne by (auto simp: fresh_conversation_def select_key_None cm_key_def)
  then have "sel_member (add_rows rows (add_conv d db)) (x, v) = sel_member db (x, v)" for v
    by (simp add: conv_obs split: option.split)
  with create show ?case by (intro isolated_elsewhere) (auto simp: conv_obs)
next
  case (transfer db y m1 v m2 d)
  then have "y \<noteq> x" using owns_privileged by blast
  with transfer sel_member_key [OF transfer(2)] sel_member_key [OF transfer(3)] sel_conv_key [OF transfer(5)]
  show ?case by (intro isolated_elsewhere) (auto simp: conv_obs)
next
  case (set_role db y v m r)
  then have "y \<noteq> x" using owns_privileged by blast
  with set_role sel_member_key [OF set_role(2)] show ?case by (intro isolated_elsewhere) (auto simp: conv_obs)
next
  case (join db y d v m now)
  then have "y \<noteq> x" by auto
  with join sel_conv_key [OF join(2)] show ?case
    by (intro isolated_elsewhere) (auto simp: conv_obs split: option.split)
next
  case (rejoin db y d v m m' now)
  then have "y \<noteq> x" by auto
  with rejoin sel_conv_key [OF rejoin(2)] show ?case by (intro isolated_elsewhere) (auto simp: conv_obs)
next
  case (edit db y d d')
  then have "y \<noteq> x" by auto
  with edit show ?case by (intro isolated_elsewhere) (auto simp: conv_obs)
qed

lemma isolated_trans:
  assumes "isolated u x a b" and "isolated u x b c"
  shows "isolated u x a c"
  using assms unfolding isolated_def by (metis option.inject same_profile_trans)

lemma conv_writes_isolated:
  assumes "(conv_write u)\<^sup>*\<^sup>* db db'" and "\<not> privileged db x u" and "sel_conv db x = Some c"
  shows "isolated u x db db'"
  using assms
proof (induction rule: rtranclp_induct)
  case base
  then show ?case by (intro isolated_elsewhere) auto
next
  case (step db1 db2)
  then have 1: "isolated u x db db1" by blast
  then obtain c1 where "\<not> privileged db1 x u" and "sel_conv db1 x = Some c1" by (auto simp: isolated_def)
  from conv_write_isolated [OF step(2) this] 1 show ?case by (rule isolated_trans [rotated])
qed



section \<open>Private conversations\<close>

lemma private_id_sym: "private_id_of a b = private_id_of b a"
  by (auto simp: private_id_of_def Let_def)

lemma append_underscore_inject:
  assumes "a @ CHR ''_'' # b = c @ CHR ''_'' # d" and "CHR ''_'' \<notin> set a" and "CHR ''_'' \<notin> set c"
  shows "a = c \<and> b = d"
  using assms
proof (induction a arbitrary: c)
  case Nil
  then show ?case by (cases c) auto
next
  case (Cons k a)
  then show ?case by (cases c) auto
qed

lemma private_id_cases:
  obtains lo hi where "private_id_of a b = ''p_'' @ lo @ CHR ''_'' # hi" and "{lo, hi} = {a, b}"
  by (cases "a < b") (auto simp: private_id_of_def insert_commute)

lemma private_id_inject:
  assumes eq: "private_id_of a b = private_id_of c d"
    and free: "CHR ''_'' \<notin> set a" "CHR ''_'' \<notin> set b" "CHR ''_'' \<notin> set c" "CHR ''_'' \<notin> set d"
  shows "{a, b} = {c, d}"
proof -
  obtain l1 h1 where 1: "private_id_of a b = ''p_'' @ l1 @ CHR ''_'' # h1" "{l1, h1} = {a, b}"
    by (rule private_id_cases)
  obtain l2 h2 where 2: "private_id_of c d = ''p_'' @ l2 @ CHR ''_'' # h2" "{l2, h2} = {c, d}"
    by (rule private_id_cases)
  from 1(2) 2(2) free have "CHR ''_'' \<notin> set l1" "CHR ''_'' \<notin> set l2"
    by (metis insert_iff singletonD)+
  moreover from 1 2 eq have "l1 @ CHR ''_'' # h1 = l2 @ CHR ''_'' # h2" by simp
  ultimately have "l1 = l2 \<and> h1 = h2" using append_underscore_inject by blast
  with 1 2 show ?thesis by simp
qed

definition private_req_to :: "uid \<Rightarrow> create_conversation_req \<Rightarrow> bool" where
  "private_req_to b req = (ccq_type req = P_PRIVATE \<and> ccq_member_ids req = [b])"

lemma private_pair: "{u, w} = {a, b} \<Longrightarrow> private_id_of u w = private_id_of a b"
  by (metis doubleton_eq_iff private_id_sym)

text \<open>A private request on an existing conversation answers from the member row alone.\<close>

lemma create_private_existing:
  assumes "private_req_to w req" and "sel_conv (cs_db s) (private_id_of (user_id auth) w) \<noteq> None"
    and "ce_up e 0 0" and "ce_up e 1 0"
  shows "CreateConversation e auth req s =
    (if active_member (cs_db s) (private_id_of (user_id auth) w) (user_id auth)
     then Inr (empty_conversation_p\<lparr>cp_conversation_id := private_id_of (user_id auth) w, cp_type := 1\<rparr>)
     else Inl (ServiceError kConversationNotMember ''conversation exists but you are not a member''), s)"
  using assms
  by (auto simp: CreateConversation_def Let_def private_req_to_def ConversationTable_exists_def
      require_member_iff active_member_def)

lemma create_private_new:
  assumes "private_req_to b req" and "sel_conv (cs_db s) x = None" and "x = private_id_of (user_id auth) b"
    and "CreateConversation e auth req s = (r, s')"
  shows "cs_db s' = cs_db s \<and> isl r \<or>
    cs_db s' = add_conv (stored_entity e (user_id auth) req x) (cs_db s) \<and> isl r \<or>
    (cs_db s' = add_rows (new_member_rows e (user_id auth) req x) (add_conv (stored_entity e (user_id auth) req x) (cs_db s))
      \<and> r = Inr (created_rsp e req (stored_entity e (user_id auth) req x)))"
proof -
  let ?u = "user_id auth"
  obtain i ent db1 where ins: "ConversationTable_insert (ce_up e 2 0) (ce_now e) (new_entity e ?u req x) (cs_db s) = ((i, ent), db1)"
    by (metis prod.collapse)
  obtain i2 db2 where app: "ConversationMemberTable_append_after_create (ce_up e 3 0) (ce_now e)
      (new_member_rows e ?u req x) db1 = (i2, db2)" by fastforce
  have id: "cv_conversation_id (new_entity e ?u req x) = x"
    by (simp add: new_entity_def Conversation_def Let_def)
  show ?thesis
    using assms ins app insert_cases [OF ins, unfolded id, folded stored_entity_def] append_create_cases [OF app]
    by (auto simp: CreateConversation_def Let_def private_req_to_def ConversationTable_exists_def split: bool.splits)
qed

lemma private_rows:
  "private_req_to b req \<Longrightarrow> a \<noteq> b \<Longrightarrow> new_member_rows e a req x =
     [ConversationMember x a False True Role_NORMAL (ce_now e), ConversationMember x b False True Role_NORMAL (ce_now e)]"
  by (simp add: new_member_rows_def private_req_to_def owner_role_def)

lemma active_rows_absent: "conv_inv db \<Longrightarrow> sel_conv db x = None \<Longrightarrow> active_rows x db = []"
  using nactive_absent [of db x] by (simp add: nactive_def)

text \<open>A private conversation is shared and created once. When user a opens one with b
  for the first time, its members are exactly a and b; afterwards a request of either of them for
  the other returns the same conversation and changes nothing.\<close>

theorem private_conversation_symmetric:
  assumes "conv_reach s" and "user_id auth \<noteq> b" and "private_req_to b req"
    and "sel_conv (cs_db s) (private_id_of (user_id auth) b) = None"
    and "CreateConversation e auth req s = (Inr p, s')"
    and "{user_id auth', w} = {user_id auth, b}" and "private_req_to w req'" and "ce_up e' 0 0" and "ce_up e' 1 0"
  shows "ConversationMemberTable_members True (cp_conversation_id p) (cs_db s') = [user_id auth, b] \<and>
    (\<exists>p'. CreateConversation e' auth' req' s' = (Inr p', s') \<and> cp_conversation_id p' = cp_conversation_id p)"
proof -
  let ?a = "user_id auth" and ?x = "private_id_of (user_id auth) b" and ?u = "user_id auth'"
  have inv: "conv_inv (cs_db s)" using assms(1) by (rule conv_reach_inv)
  from create_private_new [OF assms(3,4) refl assms(5)]
  have db': "cs_db s' = add_rows (new_member_rows e ?a req ?x) (add_conv (stored_entity e ?a req ?x) (cs_db s))"
    and p: "cp_conversation_id p = ?x"
    by (auto simp: created_rsp_def)
  have rows: "active_rows ?x (cs_db s') = new_member_rows e ?a req ?x"
    using active_rows_absent [OF inv assms(4)]
    by (simp add: db' active_rows_def add_rows_def add_conv_def private_rows [OF assms(3,2)] ConversationMember_def)
  have mem: "ConversationMemberTable_members True ?x (cs_db s') = [?a, b]"
    by (simp add: ConversationMemberTable_members_def rows private_rows [OF assms(3,2)] ConversationMember_def)
  have "conv_inv (cs_db s')" using Create_writes [of auth s e req] assms(5) conv_writes_inv inv by fastforce
  from set_members [OF conv_invD(1) [OF this], of ?u ?x] mem assms(6)
  have act: "active_member (cs_db s') ?x ?u" by (auto simp: active_member_def)
  have x': "private_id_of ?u w = ?x" using assms(6) by (rule private_pair)
  have "sel_conv (cs_db s') ?x \<noteq> None" using assms(4) by (simp add: db' conv_obs)
  from create_private_existing [OF assms(7) _ assms(8,9), of s' auth'] this act x'
  have "CreateConversation e' auth' req' s' = (Inr (empty_conversation_p\<lparr>cp_conversation_id := ?x, cp_type := 1\<rparr>), s')"
    by simp
  with mem p show ?thesis by simp
qed

definition demo_private :: "uid \<Rightarrow> create_conversation_req" where
  "demo_private b = \<lparr>ccq_request_id = [], ccq_type = P_PRIVATE, ccq_name = None, ccq_avatar_url = None,
     ccq_description = None, ccq_member_ids = [b]\<rparr>"

lemma demo_private_req [simp]: "private_req_to b (demo_private b)"
  by (simp add: private_req_to_def demo_private_def)

lemma demo_private_new:
  "\<exists>p s'. CreateConversation demo_env (demo_auth ''a'') (demo_private ''b'') empty_conv_state = (Inr p, s')"
proof -
  have "\<not> isl (fst (CreateConversation demo_env (demo_auth ''a'') (demo_private ''b'') empty_conv_state))"
    by (simp add: CreateConversation_def Let_def demo_private_def empty_conv_state_def demo_env_def demo_auth_def
        ConversationTable_exists_def sel_conv_def ConversationTable_insert_def persist_def
        ConversationMemberTable_append_after_create_def new_member_rows_def default_join_time_def
        ConversationMember_def cm_key_def new_entity_def Conversation_def owner_role_def)
  then show ?thesis by (metis isl_def prod.collapse sum.collapse(2) sum.disc(2))
qed

theorem private_conversation_symmetric_witness:
  "\<exists>p s'. CreateConversation demo_env (demo_auth ''a'') (demo_private ''b'') empty_conv_state = (Inr p, s') \<and>
     ConversationMemberTable_members True (cp_conversation_id p) (cs_db s') = [''a'', ''b''] \<and>
     (\<exists>p'. CreateConversation demo_env (demo_auth ''b'') (demo_private ''a'') s' = (Inr p', s') \<and>
           cp_conversation_id p' = cp_conversation_id p)"
proof -
  obtain p s' where c: "CreateConversation demo_env (demo_auth ''a'') (demo_private ''b'') empty_conv_state = (Inr p, s')"
    using demo_private_new by blast
  have "sel_conv (cs_db empty_conv_state) (private_id_of (user_id (demo_auth ''a'')) ''b'') = None"
    by (simp add: sel_conv_def empty_conv_state_def)
  from private_conversation_symmetric [OF conv_reach_empty _ _ this c, of "demo_auth ''b''" "''a''" "demo_private ''a''" demo_env] c
  show ?thesis by (auto simp: demo_auth_def demo_env_def insert_commute)
qed

text \<open>Creating a conversation is not atomic. If the member insert fails after the
  conversation row is in (call 3 of CreateConversation), the request fails, but the row stays
  without members: from then on neither user can open the conversation, with the database back
  every request answers ``conversation exists but you are not a member''.\<close>

theorem orphaned_private_conversation:
  assumes "conv_reach s" and "private_req_to b req"
    and "sel_conv (cs_db s) (private_id_of (user_id auth) b) = None"
    and "ce_up e 2 0" and "\<not> ce_up e 3 0" and "CreateConversation e auth req s = (r, s')"
    and "{user_id auth', w} = {user_id auth, b}" and "private_req_to w req'" and "ce_up e' 0 0" and "ce_up e' 1 0"
  shows "isl r \<and> CreateConversation e' auth' req' s' =
    (Inl (ServiceError kConversationNotMember ''conversation exists but you are not a member''), s')"
proof -
  let ?a = "user_id auth" and ?x = "private_id_of (user_id auth) b" and ?u = "user_id auth'"
  have inv: "conv_inv (cs_db s)" using assms(1) by (rule conv_reach_inv)
  have db': "cs_db s' = add_conv (stored_entity e ?a req ?x) (cs_db s)" and "isl r"
    using assms(2-6)
    by (auto simp: CreateConversation_def Let_def private_req_to_def ConversationTable_exists_def
        ConversationTable_insert_def persist_def sel_conv_def select_key_None new_entity_def Conversation_def
        ConversationMemberTable_append_after_create_def new_member_rows_def add_conv_def stored_entity_def
        split: if_splits)
  moreover have "\<not> active_member (cs_db s') ?x ?u"
    using conv_invD(2) [OF inv, of ?x ?u] assms(3) by (auto simp: active_member_def db' conv_obs)
  moreover have "private_id_of ?u w = ?x" using assms(7) by (rule private_pair)
  moreover have "sel_conv (cs_db s') ?x \<noteq> None" using assms(3) by (simp add: db' conv_obs)
  ultimately show ?thesis using create_private_existing [OF assms(8) _ assms(9,10), of s' auth'] by simp
qed

definition members_down_env :: conv_env where
  "members_down_env = demo_env\<lparr>ce_up := (\<lambda>k _. k \<noteq> 3)\<rparr>"

theorem orphaned_private_conversation_witness:
  "isl (fst (CreateConversation members_down_env (demo_auth ''a'') (demo_private ''b'') empty_conv_state)) \<and>
   CreateConversation demo_env (demo_auth ''a'') (demo_private ''b'')
     (snd (CreateConversation members_down_env (demo_auth ''a'') (demo_private ''b'') empty_conv_state)) =
   (Inl (ServiceError kConversationNotMember ''conversation exists but you are not a member''),
    snd (CreateConversation members_down_env (demo_auth ''a'') (demo_private ''b'') empty_conv_state))"
  by (rule orphaned_private_conversation [OF conv_reach_empty, where b = "''b''" and e = members_down_env and w = "''b''"])
     (simp_all add: members_down_env_def demo_env_def sel_conv_def empty_conv_state_def)

section \<open>Member lists through the cache\<close>

lemma publish_agrees:
  "cache_agrees x r rows \<Longrightarrow> cache_agrees x (snd (publish_members ok x v rows r)) rows"
  by (auto simp: cache_agrees_def publish_members_def Members_set_sentinel_if_version_def Members_warm_if_version_def)

text \<open>GetMemberIds answers exactly. With the database up and a cache entry that agrees
  with the rows (or none at all), a caller who is an active member, or the system, gets exactly
  the active members, whatever Redis calls fail; anybody else is refused; and the entry still
  agrees afterwards.\<close>

theorem get_member_ids_exact:
  assumes "conv_reach s" and "rows = ConversationMemberTable_members True x (cs_db s)"
    and "cache_agrees x (cs_members s) rows" and "ce_up e 5 0" and "GetMemberIds e auth x s = (r, s')"
  shows "(if user_id auth = ''__system__'' \<or> active_member (cs_db s) x (user_id auth)
          then \<exists>us. r = Inr us \<and> set us = set rows
          else r = Inl (ServiceError kConversationNotMember ''not a member''))
       \<and> cache_agrees x (cs_members s') rows"
proof -
  have wf: "cdb_wf (cs_db s)" using conv_reach_inv [OF assms(1)] by (rule conv_invD(1))
  have act: "active_member (cs_db s) x (user_id auth) \<longleftrightarrow> user_id auth \<in> set rows"
    using set_members [OF wf, of "user_id auth" x] by (simp add: assms(2) active_member_def)
  let ?r = "cs_members s"
  let ?snap = "Members_list_snapshot (ce_up e 0 0, ce_up e 1 0, ce_up e 2 0) x ?r ?r ?r"
  have snap: "snap_members ?snap \<noteq> [] \<Longrightarrow> snap_members ?snap = mr_set ?r x"
    by (auto simp: Members_list_snapshot_def Let_def split: if_splits)
  consider (hit) "snap_stable ?snap" "snap_members ?snap \<noteq> []"
    | (empty) "\<not> (snap_stable ?snap \<and> snap_members ?snap \<noteq> [])" "mr_sentinel ?r x"
        "cache_sentinel_confirms_empty (snap_stable ?snap \<and> snap_members ?snap = []) (Members_is_sentinel (ce_up e 3 0) x ?r)"
    | (miss) "\<not> (snap_stable ?snap \<and> snap_members ?snap \<noteq> [])"
        "\<not> cache_sentinel_confirms_empty (snap_stable ?snap \<and> snap_members ?snap = []) (Members_is_sentinel (ce_up e 3 0) x ?r)"
    by (auto simp: cache_sentinel_confirms_empty_def Members_is_sentinel_def)
  then show ?thesis
  proof cases
    case hit
    with snap assms(3) have "set (snap_members ?snap) = set rows" by (simp add: cache_agrees_def)
    with hit assms(3,5) act show ?thesis by (auto simp: GetMemberIds_def Let_def split: if_splits)
  next
    case empty
    with assms(3) have "rows = []" by (simp add: cache_agrees_def)
    with empty assms(3,5) act show ?thesis by (auto simp: GetMemberIds_def Let_def split: if_splits)
  next
    case miss
    with assms(2-5) act publish_agrees [OF assms(3)] show ?thesis
      by (auto simp: GetMemberIds_def Let_def split: if_splits)
  qed
qed

theorem get_member_ids_exact_witness:
  "\<exists>us. fst (GetMemberIds demo_env (demo_auth ''b'') ''g_1'' demo_group) = Inr us \<and>
     set us = set (ConversationMemberTable_members True ''g_1'' (cs_db demo_group))"
proof -
  have "cs_members demo_group = Members_invalidate True ''g_1'' empty_members_redis"
    by (simp add: demo_group_def snd_conv_rpc CreateConversation_def Let_def group_req_def empty_conv_state_def
      demo_env_def demo_auth_def ConversationTable_insert_def persist_def
      ConversationMemberTable_append_after_create_def new_member_rows_def default_join_time_def
      ConversationMember_def cm_key_def new_entity_def Conversation_def owner_role_def es_write_def
      invalidate_members_cache_def split: prod.split)
  then have agrees: "cache_agrees ''g_1'' (cs_members demo_group)
      (ConversationMemberTable_members True ''g_1'' (cs_db demo_group))"
    by (simp add: cache_agrees_def Members_invalidate_def empty_members_redis_def redis_incr_def)
  have act: "active_member (cs_db demo_group) ''g_1'' (user_id (demo_auth ''b''))"
    by (simp add: active_member_def demo_group_db demo_auth_def ConversationMember_def)
  obtain r s' where g: "GetMemberIds demo_env (demo_auth ''b'') ''g_1'' demo_group = (r, s')" by fastforce
  from get_member_ids_exact [OF demo_group_reach refl agrees _ g] act g show ?thesis
    by (simp add: demo_env_def)
qed

text \<open>RemoveMembers can leave the cache behind the database. When the list of members
  to remove has the caller after somebody else, the loop has already committed the first removal
  when it throws, and the invalidation at its end is skipped: the removed user is no member any
  more, yet GetMemberIds still serves the old list, and serves it to the removed user.\<close>

theorem aborted_removal_keeps_stale_members:
  assumes "conv_inv (cs_db s)" and "versions_wf (cs_members s)" and "mr_set (cs_members s) x = us"
    and "b \<in> set us" and "privileged (cs_db s) x (user_id auth)"
    and "active_member (cs_db s) x b" and "\<not> owns (cs_db s) x b" and "b \<noteq> user_id auth" and "ce_up e = all_up"
    and "RemoveMembers e auth x [b, user_id auth] s = (r, s')"
    and "user_id auth' = b" and "ce_up e' = all_up"
  shows "isl r \<and> \<not> active_member (cs_db s') x b \<and> GetMemberIds e' auth' x s' = (Inr us, s')"
proof -
  let ?u = "user_id auth" and ?db = "cs_db s"
  obtain m where m: "sel_member ?db (x, b) = Some m" "\<not> cm_is_quit m" "cm_role m \<noteq> OWNER"
    using assms(6,7) by (auto simp: active_member_def owns_def)
  obtain c where c: "sel_conv ?db x = Some c" using conv_invD(2) [OF assms(1) m(1)] by blast
  obtain mu where mu: "sel_member ?db (x, ?u) = Some mu" "\<not> cm_is_quit mu" "cm_role mu \<noteq> Role_NORMAL"
    using assms(5) by (auto simp: privileged_def)
  let ?m = "m\<lparr>cm_is_quit := True, cm_quit_time := Some (ce_now e)\<rparr>"
  let ?db' = "put_conv (bump_count (- 1) (ce_now e) c) (put_member ?m ?db)"
  have q: "ConversationMemberTable_set_quit True (ce_now e) x b ?db = (True, ?db')"
    using m c by (simp add: ConversationMemberTable_set_quit_def update_session_member_count_def conv_obs
        bump_count_def Let_def max_def)
  have role: "role_of True x ?u ?db = cm_role mu"
    using mu by (simp add: role_of_def ConversationMemberTable_select_self_def)
  have r: "r = Inl (ServiceError kSystemInvalidArgument ''cannot remove self'')" and s': "s' = s\<lparr>cs_db := ?db'\<rparr>"
    using assms(8,9,10) m q role mu(3)
    by (cases "cm_role mu"; auto simp: RemoveMembers_def Let_def ConversationMemberTable_select_self_def)+
  have "\<not> active_member (cs_db s') x b"
    using m sel_member_key [OF m(1)] by (simp add: s' active_member_def conv_obs)
  moreover have "snap_stable (Members_list_snapshot (True, True, True) x (cs_members s) (cs_members s) (cs_members s))"
    using Members_version_known [OF assms(2), of x]
    by (simp add: Members_list_snapshot_def Let_def cache_snapshot_is_stable_def cache_version_accepts_warm_def)
  moreover have "snap_members (Members_list_snapshot (True, True, True) x (cs_members s) (cs_members s) (cs_members s)) = us"
    by (simp add: Members_list_snapshot_def Let_def assms(3))
  moreover have "us \<noteq> []" using assms(4) by auto
  ultimately show ?thesis
    using assms(4,11,12) r by (simp add: GetMemberIds_def Let_def s')
qed

definition warm_group :: conv_state where
  "warm_group = demo_group\<lparr>cs_members := empty_members_redis\<lparr>mr_set := (\<lambda>_. [])(''g_1'' := [''a'', ''b''])\<rparr>\<rparr>"

theorem aborted_removal_keeps_stale_members_witness:
  "isl (fst (RemoveMembers demo_env (demo_auth ''a'') ''g_1'' [''b'', ''a''] warm_group)) \<and>
   \<not> active_member (cs_db (snd (RemoveMembers demo_env (demo_auth ''a'') ''g_1'' [''b'', ''a''] warm_group))) ''g_1'' ''b'' \<and>
   GetMemberIds demo_env (demo_auth ''b'') ''g_1''
     (snd (RemoveMembers demo_env (demo_auth ''a'') ''g_1'' [''b'', ''a''] warm_group)) =
   (Inr [''a'', ''b''], snd (RemoveMembers demo_env (demo_auth ''a'') ''g_1'' [''b'', ''a''] warm_group))"
proof (rule aborted_removal_keeps_stale_members [where s = warm_group and e = demo_env and auth = "demo_auth ''a''"])
  show "conv_inv (cs_db warm_group)" using conv_reach_inv [OF demo_group_reach] by (simp add: warm_group_def)
  show "RemoveMembers demo_env (demo_auth ''a'') ''g_1'' [''b'', user_id (demo_auth ''a'')] warm_group =
    (fst (RemoveMembers demo_env (demo_auth ''a'') ''g_1'' [''b'', ''a''] warm_group),
     snd (RemoveMembers demo_env (demo_auth ''a'') ''g_1'' [''b'', ''a''] warm_group))"
    by (simp add: demo_auth_def)
qed (simp_all add: warm_group_def demo_group_db privileged_def active_member_def owns_def ConversationMember_def
    demo_auth_def demo_env_def versions_wf_def empty_members_redis_def)

text \<open>A failed read of the member rows is taken for an empty group. If the database
  does not answer call 5 of GetMemberIds while Redis does, the service caches ``no members''
  for the conversation, and until that entry expires it refuses every real member, with the
  database working again.\<close>

theorem failed_member_read_poisons_cache:
  assumes "versions_wf (cs_members s)" and "mr_set (cs_members s) x = []" and "\<not> mr_sentinel (cs_members s) x"
    and "ce_up e = (\<lambda>k i. k \<noteq> 5)" and "GetMemberIds e auth x s = (r, s')"
    and "ce_up e' = all_up" and "user_id auth' \<noteq> ''__system__''"
  shows "cs_db s' = cs_db s \<and>
    GetMemberIds e' auth' x s' = (Inl (ServiceError kConversationNotMember ''not a member''), s')"
proof -
  let ?r = "cs_members s"
  have known: "cache_version_is_known (Members_version True x ?r)" using assms(1) by (rule Members_version_known)
  have pub: "publish_members True x (Members_version True x ?r) [] ?r =
      (True, ?r\<lparr>mr_set := (mr_set ?r)(x := []), mr_sentinel := (mr_sentinel ?r)(x := True)\<rparr>)"
    using known assms(1) lua_version_matches [OF assms(1), of x] unat_Members_version [OF assms(1), of x]
    by (simp add: publish_members_def Members_set_sentinel_if_version_def cache_ttl_allows_write_def)
  have s': "s' = s\<lparr>cs_members := ?r\<lparr>mr_set := (mr_set ?r)(x := []), mr_sentinel := (mr_sentinel ?r)(x := True)\<rparr>\<rparr>"
    using assms(2-5) pub
    by (auto simp: GetMemberIds_def Let_def Members_list_snapshot_def cache_sentinel_confirms_empty_def
        Members_is_sentinel_def ConversationMemberTable_members_def split: if_splits)
  have "Members_version True x (cs_members s') = Members_version True x ?r"
    by (simp add: s' Members_version_def)
  with known assms(6,7) show ?thesis
    by (simp add: s' GetMemberIds_def Let_def Members_list_snapshot_def cache_sentinel_confirms_empty_def
        Members_is_sentinel_def cache_snapshot_is_stable_def cache_version_accepts_warm_def)
qed

theorem failed_member_read_poisons_cache_witness:
  "GetMemberIds demo_env (demo_auth ''b'') ''g_1''
     (snd (GetMemberIds (demo_env\<lparr>ce_up := (\<lambda>k i. k \<noteq> 5)\<rparr>) (demo_auth ''b'') ''g_1''
        (demo_group\<lparr>cs_members := empty_members_redis\<rparr>))) =
   (Inl (ServiceError kConversationNotMember ''not a member''),
    snd (GetMemberIds (demo_env\<lparr>ce_up := (\<lambda>k i. k \<noteq> 5)\<rparr>) (demo_auth ''b'') ''g_1''
        (demo_group\<lparr>cs_members := empty_members_redis\<rparr>)))"
proof -
  let ?s = "demo_group\<lparr>cs_members := empty_members_redis\<rparr>" and ?e = "demo_env\<lparr>ce_up := (\<lambda>k i. k \<noteq> 5)\<rparr>"
  obtain r s' where g: "GetMemberIds ?e (demo_auth ''b'') ''g_1'' ?s = (r, s')" by fastforce
  have "versions_wf (cs_members ?s)" by (simp add: versions_wf_empty)
  from failed_member_read_poisons_cache [OF this _ _ _ g, of demo_env "demo_auth ''b''"] g show ?thesis
    by (simp add: demo_auth_def demo_env_def empty_members_redis_def)
qed

section \<open>Unread counts\<close>

lemma unread_exact: "unat (sm_unread_count (fill_self_member_info m n)) = unat n - unat (cm_last_read_seq m)"
  by (simp add: fill_self_member_info_def unat_sub word_less_nat_alt order_less_imp_le)

lemma unread_zero: "sm_unread_count (fill_self_member_info m 0) = 0"
  by (simp add: fill_self_member_info_def)

definition unread_zero_p :: "conversation_p \<Rightarrow> bool" where
  "unread_zero_p p = (case cp_self p of None \<Rightarrow> True | Some sm \<Rightarrow> sm_unread_count sm = 0)"

lemma list_views_unread:
  assumes "list_views e rid u pm i vs s = (Inr out, s')" and "\<forall>(c, m) \<in> set vs. cv_max_seq c = 0"
  shows "\<forall>p \<in> set out. unread_zero_p p"
  using assms
proof (induction vs arbitrary: i s out)
  case Nil
  then show ?case by simp
next
  case (Cons v vs)
  obtain c m where v: "v = (c, m)" by fastforce
  with Cons.prems(2) have "unread_zero_p (view_rsp e pm (c, m) pv)" for pv
    by (simp add: unread_zero_p_def view_rsp_def unread_zero)
  with Cons v show ?case by (fastforce split: if_splits sum.splits prod.splits)
qed

text \<open>The unread count is never anything but zero: no request, receipt or other step
  advances the \<open>max_seq\<close> column from which it is computed, so every conversation that
  ListConversations or GetConversation returns has an unread count of 0, however many messages
  it holds.\<close>

theorem unread_count_always_zero:
  assumes "conv_reach s"
  shows "(\<forall>e rid auth ps pg s'. ListConversations e rid auth s = (Inr (ps, pg), s') \<longrightarrow> (\<forall>p \<in> set ps. unread_zero_p p))
       \<and> (\<forall>e rid auth x p s'. GetConversation e rid auth x s = (Inr p, s') \<longrightarrow> unread_zero_p p)"
proof (intro conjI allI impI)
  have inv: "conv_inv (cs_db s)" using assms by (rule conv_reach_inv)
  have zero: "cv_max_seq c = 0" if "c \<in> set (conversations (cs_db s))" for c
    using conv_invD(1) [OF inv] conv_invD(4) [OF inv, of "cv_conversation_id c" c] that
    by (simp add: cdb_wf_def sel_conv_def select_key_mem)
  fix e rid auth ps pg s'
  assume l: "ListConversations e rid auth s = (Inr (ps, pg), s')"
  let ?vs = "ConversationMemberTable_list_ordered_by_user (ce_up e 0 0) (user_id auth) (cs_db s)"
  have "\<forall>(c, m) \<in> set ?vs. cv_max_seq c = 0"
    using zero by (auto simp: ConversationMemberTable_list_ordered_by_user_def user_views_def dest: in_set_takeD)
  with l list_views_unread show "\<forall>p \<in> set ps. unread_zero_p p"
    by (fastforce simp: ListConversations_def Let_def split: prod.splits sum.splits)
next
  have inv: "conv_inv (cs_db s)" using assms by (rule conv_reach_inv)
  fix e rid auth x p s'
  assume g: "GetConversation e rid auth x s = (Inr p, s')"
  then obtain c where c: "sel_conv (cs_db s) x = Some c"
    by (auto simp: GetConversation_def ConversationTable_select_def split: option.splits if_splits)
  from conv_invD(4) [OF inv c] g c show "unread_zero_p p"
    by (auto simp: GetConversation_def ConversationTable_select_def Let_def unread_zero_p_def unread_zero
        split: if_splits option.splits prod.splits sum.splits)
qed

theorem unread_count_always_zero_witness:
  "\<exists>p s'. GetConversation demo_env ''r'' (demo_auth ''b'') ''g_1'' demo_group = (Inr p, s') \<and> unread_zero_p p"
proof -
  have "\<not> isl (fst (GetConversation demo_env ''r'' (demo_auth ''b'') ''g_1'' demo_group))"
    by (simp add: GetConversation_def ConversationTable_select_def require_member_def Let_def
        ConversationMemberTable_select_self_def demo_group_db demo_auth_def demo_env_def ConversationMember_def
        fetch_last_message_def parse_preview_json_def split: option.split)
  then obtain p s' where g: "GetConversation demo_env ''r'' (demo_auth ''b'') ''g_1'' demo_group = (Inr p, s')"
    by (metis isl_def prod.collapse sum.collapse(2) sum.disc(2))
  with unread_count_always_zero [OF demo_group_reach] show ?thesis by blast
qed

section \<open>Paging and searching\<close>

text \<open>One page as a function of its offset, under a fixed identity service.\<close>

definition member_item_of :: "(uid \<Rightarrow> user_info) \<Rightarrow> conversation_member_row \<Rightarrow> member_item" where
  "member_item_of info m = \<lparr>mi_user_info = info (cm_user_id m), mi_role = role_code (cm_role m),
     mi_join_time_ms = to_ms (cm_join_time m)\<rparr>"

lemma members_page_slice:
  "0 \<le> start \<Longrightarrow> 0 \<le> limit \<Longrightarrow> members_page start limit uids = page (nat start) (nat limit) uids"
  by (cases "start + limit \<le> int (length uids)")
     (auto simp: members_page_def page_def Let_def min_def nat_diff_distrib' nat_add_distrib)

lemma filter_slice:
  assumes "distinct (map f xs)"
  shows "filter (\<lambda>x. f x \<in> set (map f (take n (drop k xs)))) xs = take n (drop k xs)"
proof -
  have split: "xs = take k xs @ take n (drop k xs) @ drop n (drop k xs)"
    by (metis append_take_drop_id)
  let ?P = "\<lambda>x. f x \<in> set (map f (take n (drop k xs)))"
  have d: "distinct (map f (take k xs @ take n (drop k xs) @ drop n (drop k xs)))"
    using assms split by metis
  have 1: "filter ?P (take k xs) = []" and 3: "filter ?P (drop n (drop k xs)) = []"
    using d unfolding map_append distinct_append by (auto simp: filter_empty_conv)
  have 2: "filter ?P (take n (drop k xs)) = take n (drop k xs)" by (auto simp: filter_id_conv)
  from 1 2 3 show ?thesis by (subst split) (simp only: filter_append, simp)
qed

lemma page_rows:
  assumes "cdb_wf db"
  shows "filter (\<lambda>m. \<not> cm_is_quit m)
     (filter (\<lambda>m. cm_conversation_id m = x \<and> cm_user_id m \<in> set (page k n (map cm_user_id (active_rows x db))))
        (conversation_members db)) = page k n (active_rows x db)"
proof -
  let ?rows = "active_rows x db"
  have "distinct (map cm_user_id ?rows)"
    using distinct_members [OF assms, of True x] by (simp add: ConversationMemberTable_members_def)
  from filter_slice [OF this, of n k]
  have "filter (\<lambda>m. cm_user_id m \<in> set (page k n (map cm_user_id ?rows))) ?rows = page k n ?rows"
    by (simp add: page_def take_map drop_map)
  moreover have "filter (\<lambda>m. \<not> cm_is_quit m)
      (filter (\<lambda>m. cm_conversation_id m = x \<and> cm_user_id m \<in> S) (conversation_members db)) =
      filter (\<lambda>m. cm_user_id m \<in> S) ?rows" for S
    by (auto simp: active_rows_def intro!: filter_cong)
  ultimately show ?thesis by simp
qed

lemma map_of_graph: "map_of (map (\<lambda>u. (u, f u)) us) v = (if v \<in> set us then Some (f v) else None)"
  by (induction us) auto

lemma list_members_page:
  assumes wf: "cdb_wf (cs_db s)" and up: "ce_up e = all_up" and act: "active_member (cs_db s) x (user_id auth)"
    and ident: "\<And>us. rpc_ok (ce_identity e rid us) = Some (map (\<lambda>u. (u, info u)) us)"
    and cur: "pq_cursor pq = int_to_string k" and k: "0 \<le> k" "k \<le> int32_max"
  shows "\<exists>pg. ListMembers e rid auth x pq s =
    Inr (map (member_item_of info) (page (nat k) (nat (members_limit pq)) (active_rows x (cs_db s))), pg)"
proof -
  let ?uids = "map cm_user_id (active_rows x (cs_db s))" and ?n = "members_limit pq"
  have n: "0 \<le> ?n" by (simp add: members_limit_def Let_def)
  let ?p = "page (nat k) (nat ?n) ?uids"
  have rows: "filter (\<lambda>m. \<not> cm_is_quit m) (ConversationMemberTable_select_many True x ?p (cs_db s)) =
      page (nat k) (nat ?n) (active_rows x (cs_db s))"
  proof (cases "?p = []")
    case True
    then show ?thesis by (simp add: ConversationMemberTable_select_many_def page_def drop_map take_map)
  next
    case False
    then show ?thesis using page_rows [OF wf] by (simp add: ConversationMemberTable_select_many_def)
  qed
  have memb: "cm_user_id m \<in> set ?p" if "m \<in> set (page (nat k) (nat ?n) (active_rows x (cs_db s)))" for m
    using that by (simp add: page_def drop_map take_map)
  have items: "(case map_of (fetch_user_infos e rid ?p) (cm_user_id m) of Some ui \<Rightarrow> ui
        | None \<Rightarrow> bare_user_info (cm_user_id m)) = info (cm_user_id m)"
    if "m \<in> set (page (nat k) (nat ?n) (active_rows x (cs_db s)))" for m
    using memb [OF that] ident by (cases ?p) (auto simp: fetch_user_infos_def map_of_graph)
  have c: "pq_cursor pq \<noteq> []" "stoi (pq_cursor pq) = Inr k"
    using cur k stoi_int_to_string [of k] nat_to_string_digits [of "nat k"]
    by (auto simp: int_to_string_def int32_min_def)
  show ?thesis
    using act up k c rows items members_page_slice [OF k(1) n, of ?uids]
    by (simp add: ListMembers_def require_member_iff active_member_def ConversationMemberTable_members_def Let_def
        member_item_of_def)
qed

lemma concat_pages: "concat (map (\<lambda>k. page (k * n) n xs) [0..<j]) = take (j * n) xs"
proof (induction j)
  case (Suc j)
  have "take (j * n) xs @ take n (drop (j * n) xs) = take (j * n + n) xs" by (simp add: take_add)
  with Suc show ?case by (simp add: page_def add.commute)
qed simp

definition list_members_items ::
  "conv_env \<Rightarrow> string \<Rightarrow> auth_context \<Rightarrow> cid \<Rightarrow> int \<Rightarrow> conv_state \<Rightarrow> int \<Rightarrow> member_item list" where
  "list_members_items e rid auth x limit s start =
     (case ListMembers e rid auth x \<lparr>pq_limit = limit, pq_cursor = int_to_string start\<rparr> s of
        Inl _ \<Rightarrow> [] | Inr (items, _) \<Rightarrow> items)"

text \<open>The pages of ListMembers tile the member list. For an active member, with the
  services up, asking for the offsets 0, n, 2 n, ... (n being the effective page size) returns every
  active member exactly once, in the order of the table.\<close>

theorem list_members_pages_complete:
  assumes "conv_reach s" and "ce_up e = all_up" and "active_member (cs_db s) x (user_id auth)"
    and "\<And>us. rpc_ok (ce_identity e rid us) = Some (map (\<lambda>u. (u, info u)) us)"
    and "n = nat (members_limit \<lparr>pq_limit = limit, pq_cursor = []\<rparr>)"
    and "length (active_rows x (cs_db s)) \<le> j * n" and "int (j * n) \<le> int32_max"
  shows "concat (map (\<lambda>k. list_members_items e rid auth x limit s (int (k * n))) [0..<j]) =
    map (member_item_of info) (active_rows x (cs_db s))"
proof -
  have wf: "cdb_wf (cs_db s)" using conv_reach_inv [OF assms(1)] by (rule conv_invD(1))
  have page: "list_members_items e rid auth x limit s (int (k * n)) =
      page (k * n) n (map (member_item_of info) (active_rows x (cs_db s)))" if "k < j" for k
  proof -
    let ?pq = "\<lparr>pq_limit = limit, pq_cursor = int_to_string (int (k * n))\<rparr>"
    have "k * n \<le> j * n" using that by simp
    then have "int (k * n) \<le> int32_max" using assms(7) by linarith
    moreover have "nat (members_limit ?pq) = n" by (simp add: assms(5) members_limit_def)
    ultimately show ?thesis
      using list_members_page [OF wf assms(2,3,4), of ?pq "int (k * n)"]
      by (auto simp: list_members_items_def page_def drop_map take_map nat_mult_distrib simp del: of_nat_mult)
  qed
  have "concat (map (\<lambda>k. list_members_items e rid auth x limit s (int (k * n))) [0..<j]) =
      concat (map (\<lambda>k. page (k * n) n (map (member_item_of info) (active_rows x (cs_db s)))) [0..<j])"
    using page by (intro arg_cong [where f = concat] map_cong) auto
  also have "\<dots> = map (member_item_of info) (active_rows x (cs_db s))"
    using assms(6) by (simp add: concat_pages)
  finally show ?thesis .
qed

definition ident_env :: conv_env where
  "ident_env = demo_env\<lparr>ce_identity := (\<lambda>rid us. Rpc_reply (ok_header rid) (map (\<lambda>u. (u, bare_user_info u)) us))\<rparr>"

theorem list_members_pages_complete_witness:
  "concat (map (\<lambda>k. list_members_items ident_env ''r'' (demo_auth ''b'') ''g_1'' 1 demo_group (int (k * 1))) [0..<2]) =
    map (member_item_of bare_user_info) (active_rows ''g_1'' (cs_db demo_group))"
proof (rule list_members_pages_complete [OF demo_group_reach])
  show "length (active_rows ''g_1'' (cs_db demo_group)) \<le> 2 * 1"
    by (simp add: demo_group_db active_rows_def demo_db_def new_member_rows_def group_req_def ConversationMember_def)
qed (simp_all add: ident_env_def demo_env_def ok_header_def active_member_def demo_group_db demo_auth_def
    ConversationMember_def members_limit_def int32_max_def)

text \<open>A search shows only what MySQL confirms. Whatever the search index holds or
  answers (stale members, a dismissed conversation, ids that do not exist), every conversation
  that SearchConversations returns exists, is not dismissed and has the caller as an active member.\<close>

theorem search_returns_own_conversations:
  assumes "conv_reach s" and "SearchConversations e auth key s = Inr out" and "p \<in> set out"
  shows "active_member (cs_db s) (cp_conversation_id p) (user_id auth) \<and>
    (\<exists>c. sel_conv (cs_db s) (cp_conversation_id p) = Some c \<and> cv_status c \<noteq> DISMISSED)"
proof -
  have wf: "cdb_wf (cs_db s)" using conv_reach_inv [OF assms(1)] by (rule conv_invD(1))
  have conf: "c \<in> set cs \<and> cv_status c \<noteq> DISMISSED \<and> active_member (cs_db s) (cv_conversation_id c) u"
    if "c \<in> set (confirm_hits e u (cs_db s) i cs)" for c u i cs
    using that by (induction cs arbitrary: i) (auto simp: require_member_iff active_member_def split: if_splits)
  from assms(2,3) obtain c cs where c: "c \<in> set (confirm_hits e (user_id auth) (cs_db s) 0 cs)"
      "p = search_rsp e c" "set cs \<subseteq> set (conversations (cs_db s))"
    by (auto simp: SearchConversations_def Let_def ConversationTable_select_many_def split: if_splits)
  from conf [OF c(1)] c wf show ?thesis
    by (auto simp: search_rsp_def cdb_wf_def sel_conv_def select_key_mem)
qed

theorem search_returns_own_conversations_witness:
  "\<exists>p. SearchConversations (demo_env\<lparr>ce_search := (\<lambda>_ _. [''g_1'', ''zz''])\<rparr>) (demo_auth ''b'') ''k'' demo_group = Inr [p] \<and>
     active_member (cs_db demo_group) (cp_conversation_id p) (user_id (demo_auth ''b''))"
proof -
  let ?e = "demo_env\<lparr>ce_search := (\<lambda>_ _. [''g_1'', ''zz''])\<rparr>"
  have "SearchConversations ?e (demo_auth ''b'') ''k'' demo_group =
      Inr [search_rsp ?e (stored_entity demo_env ''a'' (group_req [''b'']) ''g_1'')]"
    by (simp add: SearchConversations_def Let_def ConversationTable_select_many_def demo_group_db demo_convs
        require_member_iff demo_up demo_auth_def ConversationMember_def)
  moreover from this search_returns_own_conversations [OF demo_group_reach this]
  have "active_member (cs_db demo_group)
      (cp_conversation_id (search_rsp ?e (stored_entity demo_env ''a'' (group_req [''b'']) ''g_1'')))
      (user_id (demo_auth ''b''))" by simp
  ultimately show ?thesis by blast
qed

end
