(* ===== verification/Redis_Hash.thy ===== *)
theory Redis_Hash
  imports Cpp_Strings
begin

text \<open>
  A Redis hash as an association list: \<open>HSET\<close> of one field, in place when the field exists, and
  \<open>HDEL\<close>, with what they do to lookups, keys and distinctness.
\<close>

text \<open>\<open>key::hash_tag\<close>, which keeps the keys of one id on one cluster node.\<close>

definition hash_tag :: "string \<Rightarrow> string" where
  "hash_tag i = ''{'' @ i @ ''}''"

definition hset :: "'a \<Rightarrow> 'b \<Rightarrow> ('a \<times> 'b) list \<Rightarrow> ('a \<times> 'b) list" where
  "hset f v h = (if f \<in> fst ` set h then map (\<lambda>e. if fst e = f then (f, v) else e) h else h @ [(f, v)])"

definition hdel :: "'a \<Rightarrow> ('a \<times> 'b) list \<Rightarrow> ('a \<times> 'b) list" where
  "hdel f h = filter (\<lambda>e. fst e \<noteq> f) h"

lemma map_fst_overwrite: "map fst (map (\<lambda>e. if fst e = f then (f, v) else e) h) = map fst h"
  by (induction h) auto

lemma map_fst_hset: "map fst (hset f v h) = (if f \<in> fst ` set h then map fst h else map fst h @ [f])"
  unfolding hset_def using map_fst_overwrite [of f v h] by (cases "f \<in> fst ` set h") simp_all

lemma fst_set_hset [simp]: "fst ` set (hset f v h) = insert f (fst ` set h)"
  using arg_cong [OF map_fst_hset [of f v h], of set] by (auto split: if_splits)

lemma distinct_hset: "distinct (map fst h) \<Longrightarrow> distinct (map fst (hset f v h))"
  by (simp add: map_fst_hset)

lemma map_of_hset [simp]: "map_of (hset f v h) = (map_of h)(f \<mapsto> v)"
proof (cases "f \<in> fst ` set h")
  case True
  have "map_of (map (\<lambda>e. if fst e = f then (f, v) else e) h) x = ((map_of h)(f := map_option (\<lambda>_. v) (map_of h f))) x" for x
    by (induction h) auto
  moreover have "map_option (\<lambda>_. v) (map_of h f) = Some v" using True by (cases "map_of h f") (auto simp: map_of_eq_None_iff)
  ultimately show ?thesis using True by (auto simp: hset_def)
next
  case False
  then have "map_of h f = None" by (simp add: map_of_eq_None_iff)
  then show ?thesis using False by (auto simp: hset_def map_add_def fun_eq_iff split: option.splits)
qed

lemma fst_set_hdel [simp]: "fst ` set (hdel f h) = fst ` set h - {f}"
  by (auto simp: hdel_def)

lemma distinct_hdel: "distinct (map fst h) \<Longrightarrow> distinct (map fst (hdel f h))"
  by (simp add: hdel_def distinct_map_filter)

lemma map_of_hdel [simp]: "map_of (hdel f h) = (map_of h)(f := None)"
  by (induction h) (auto simp: hdel_def fun_eq_iff)

end
