(* ===== verification/Message_Proto.thy ===== *)
theory Message_Proto
  imports Proto
begin

text \<open>
  The protobuf messages of proto/message and proto/transmite that carry a chat message. Enum
  fields are open in proto3, so message types and statuses are numbers with named values. A
  double is carried by its 64 bits; nothing computes with it. A field accessor of a oneof member
  that is not set gives the default, which is how the code reads \<open>file_id\<close>.
\<close>

definition MESSAGE_TYPE_UNSPECIFIED :: int where "MESSAGE_TYPE_UNSPECIFIED = 0"
definition TEXT :: int where "TEXT = 1"
definition IMAGE :: int where "IMAGE = 2"
definition FILE :: int where "FILE = 3"
definition AUDIO :: int where "AUDIO = 4"
definition VIDEO :: int where "VIDEO = 5"
definition LOCATION :: int where "LOCATION = 6"
definition STICKER :: int where "STICKER = 7"
definition SYSTEM_NOTICE :: int where "SYSTEM_NOTICE = 8"

lemmas message_type_defs = MESSAGE_TYPE_UNSPECIFIED_def TEXT_def IMAGE_def FILE_def AUDIO_def
  VIDEO_def LOCATION_def STICKER_def SYSTEM_NOTICE_def

definition MESSAGE_STATUS_NORMAL :: int where "MESSAGE_STATUS_NORMAL = 0"
definition MESSAGE_STATUS_RECALLED :: int where "MESSAGE_STATUS_RECALLED = 1"
definition MESSAGE_STATUS_DELETED :: int where "MESSAGE_STATUS_DELETED = 2"

lemmas message_status_defs = MESSAGE_STATUS_NORMAL_def MESSAGE_STATUS_RECALLED_def
  MESSAGE_STATUS_DELETED_def

datatype content_body =
    No_body
  | Text_body (text_of: string)
  | Image_body (image_file_id: string) int int string
  | File_body (file_file_id: string) (file_name: string) int string
  | Audio_body (audio_file_id: string) int
  | Video_body (video_file_id: string) int int int string
  | Location_body u64 u64 string string
  | Sticker_body string string
  | Notice_body string string

record message_content =
  mc_type :: int
  mc_body :: content_body

fun body_image_file_id :: "content_body \<Rightarrow> string" where
  "body_image_file_id (Image_body f _ _ _) = f"
| "body_image_file_id _ = []"

fun body_file_file_id :: "content_body \<Rightarrow> string" where
  "body_file_file_id (File_body f _ _ _) = f"
| "body_file_file_id _ = []"

fun body_audio_file_id :: "content_body \<Rightarrow> string" where
  "body_audio_file_id (Audio_body f _) = f"
| "body_audio_file_id _ = []"

record reply_ref =
  rr_replied_message_id :: int
  rr_replied_sender_id :: uid
  rr_replied_message_type :: int
  rr_content_preview :: string
  rr_is_recalled :: bool

record forward_info =
  fi_forward_from_user_id :: uid
  fi_forward_at_ms :: int
  fi_source_conversation_id :: cid

record reaction_group =
  rg_emoji :: string
  rg_count :: int
  rg_recent_user_ids :: "uid list"
  rg_self_reacted :: bool

record message_p =
  mg_message_id :: int
  mg_conversation_id :: cid
  mg_content :: message_content
  mg_sender_id :: uid
  mg_created_at_ms :: int
  mg_edited_at_ms :: int
  mg_seq_id :: u64
  mg_user_seq :: u64
  mg_client_msg_id :: string
  mg_status :: int
  mg_reply_to :: "reply_ref option"
  mg_mentioned_user_ids :: "uid list"
  mg_forward_info :: "forward_info option"
  mg_reactions :: "reaction_group list"
  mg_is_pinned :: bool

definition empty_content :: message_content where
  "empty_content = \<lparr>mc_type = 0, mc_body = No_body\<rparr>"

definition empty_message :: message_p where
  "empty_message = \<lparr>mg_message_id = 0, mg_conversation_id = [], mg_content = empty_content,
     mg_sender_id = [], mg_created_at_ms = 0, mg_edited_at_ms = 0, mg_seq_id = 0, mg_user_seq = 0,
     mg_client_msg_id = [], mg_status = 0, mg_reply_to = None, mg_mentioned_user_ids = [],
     mg_forward_info = None, mg_reactions = [], mg_is_pinned = False\<rparr>"

record internal_message =
  im_message :: message_p
  im_member_id_list :: "uid list"
  im_user_seqs :: "(uid \<times> u64) list"
  im_is_large_group :: bool

record send_message_req =
  smq_request_id :: string
  smq_conversation_id :: cid
  smq_content :: message_content
  smq_client_msg_id :: string
  smq_reply_to :: "reply_ref option"
  smq_mentioned_user_ids :: "uid list"
  smq_forward_info :: "forward_info option"

end
