(* ===== verification/Local_Cache.thy ===== *)
theory Local_Cache
  imports Rpc "HOL-Library.AList"
begin

text \<open>
  The in-process cache \<open>LocalCache<V>\<close> of common/utils/local_cache.hpp: a hash map of
  entries with an expiry time beside a recency list of keys, of bounded size. Both structures
  are kept, as in the code; an entry's list iterator is the position of its key, which is unique
  by the invariant \<open>lc_wf\<close>. Every operation holds the cache's mutex, so it is one step. The
  steady clock is an argument, in milliseconds. The metrics callbacks are not modelled.
  Shown: the invariant (the two structures hold the same keys, at most the capacity), and that
  the pair of structures implements a plain recency-ordered list of entries (\<open>lc_abs\<close>).
\<close>

section \<open>The class\<close>

record 'v lc_entry =
  le_value :: 'v
  le_expires_at :: time

record lc_stats =
  st_hits :: nat
  st_misses :: nat
  st_evictions :: nat
  st_expired :: nat

record 'v local_cache =
  lc_max_entries :: nat
  lc_map :: "(string \<times> 'v lc_entry) list"
  lc_lru :: "string list"
  lc_stats :: lc_stats

definition LocalCache_new :: "nat \<Rightarrow> 'v local_cache" where
  "LocalCache_new max_entries = \<lparr>lc_max_entries = max_entries, lc_map = [], lc_lru = [],
     lc_stats = \<lparr>st_hits = 0, st_misses = 0, st_evictions = 0, st_expired = 0\<rparr>\<rparr>"

definition count_hit :: "lc_stats \<Rightarrow> lc_stats" where
  "count_hit st = st\<lparr>st_hits := st_hits st + 1\<rparr>"

definition count_miss :: "lc_stats \<Rightarrow> lc_stats" where
  "count_miss st = st\<lparr>st_misses := st_misses st + 1\<rparr>"

definition count_expired :: "nat \<Rightarrow> lc_stats \<Rightarrow> lc_stats" where
  "count_expired n st = st\<lparr>st_expired := st_expired st + n\<rparr>"

definition count_eviction :: "lc_stats \<Rightarrow> lc_stats" where
  "count_eviction st = st\<lparr>st_evictions := st_evictions st + 1\<rparr>"

definition touch :: "string \<Rightarrow> 'v local_cache \<Rightarrow> 'v local_cache" where
  "touch key c = c\<lparr>lc_lru := key # remove1 key (lc_lru c)\<rparr>"

definition erase_entry :: "string \<Rightarrow> 'v local_cache \<Rightarrow> 'v local_cache" where
  "erase_entry key c = c\<lparr>lc_lru := remove1 key (lc_lru c), lc_map := AList.delete key (lc_map c)\<rparr>"

definition entry_expired :: "time \<Rightarrow> 'v lc_entry \<Rightarrow> bool" where
  "entry_expired now e = (now > le_expires_at e)"

text \<open>\<open>erase_expired_\<close>: the loop over the hash map, which visits every entry once.\<close>

fun erase_expired_loop :: "time \<Rightarrow> (string \<times> 'v lc_entry) list \<Rightarrow> 'v local_cache \<Rightarrow> nat \<times> 'v local_cache"
where
  "erase_expired_loop now [] c = (0, c)"
| "erase_expired_loop now ((key, e) # rest) c =
     (if entry_expired now e
      then (case erase_expired_loop now rest (erase_entry key c) of (n, c') \<Rightarrow> (n + 1, c'))
      else erase_expired_loop now rest c)"

definition erase_expired :: "time \<Rightarrow> 'v local_cache \<Rightarrow> nat \<times> 'v local_cache" where
  "erase_expired now c =
     (case erase_expired_loop now (lc_map c) c of
        (removed, c') \<Rightarrow> (removed, c'\<lparr>lc_stats := count_expired removed (lc_stats c')\<rparr>))"

function evict_over_capacity :: "'v local_cache \<Rightarrow> nat \<times> 'v local_cache" where
  "evict_over_capacity c =
     (if length (lc_map c) > lc_max_entries c \<and> lc_lru c \<noteq> [] then
        let victim = last (lc_lru c) in
        (case map_of (lc_map c) victim of
           Some _ \<Rightarrow>
             (case evict_over_capacity
                     ((erase_entry victim c)\<lparr>lc_stats := count_eviction (lc_stats c)\<rparr>) of
                (n, c') \<Rightarrow> (n + 1, c'))
         | None \<Rightarrow> evict_over_capacity (c\<lparr>lc_lru := butlast (lc_lru c)\<rparr>))
      else (0, c))"
  by pat_completeness auto
termination
proof (relation "measure (\<lambda>c. length (lc_lru c))")
  fix c :: "'v local_cache" and x e
  assume "lc_max_entries c < length (lc_map c) \<and> lc_lru c \<noteq> []" and "x = last (lc_lru c)"
  then have "length (remove1 x (lc_lru c)) < length (lc_lru c)"
    by (simp add: length_remove1)
  then show "((erase_entry x c)\<lparr>lc_stats := count_eviction (lc_stats c)\<rparr>, c)
      \<in> measure (\<lambda>c. length (lc_lru c))"
    by (simp add: erase_entry_def)
qed auto

declare evict_over_capacity.simps [simp del]

definition LocalCache_get :: "time \<Rightarrow> string \<Rightarrow> 'v local_cache \<Rightarrow> 'v option \<times> 'v local_cache" where
  "LocalCache_get now key c =
     (case map_of (lc_map c) key of
        None \<Rightarrow> (None, c\<lparr>lc_stats := count_miss (lc_stats c)\<rparr>)
      | Some e \<Rightarrow>
          if entry_expired now e
          then (None, (erase_entry key c)\<lparr>lc_stats := count_expired 1 (count_miss (lc_stats c))\<rparr>)
          else (Some (le_value e), (touch key c)\<lparr>lc_stats := count_hit (lc_stats c)\<rparr>))"

definition LocalCache_invalidate :: "string \<Rightarrow> 'v local_cache \<Rightarrow> 'v local_cache" where
  "LocalCache_invalidate key c =
     (case map_of (lc_map c) key of None \<Rightarrow> c | Some _ \<Rightarrow> erase_entry key c)"

text \<open>What \<open>set\<close> and \<open>set_if_absent\<close> share: drop the expired entries, insert in front, evict.\<close>

definition insert_front :: "time \<Rightarrow> string \<Rightarrow> 'v \<Rightarrow> time \<Rightarrow> 'v local_cache \<Rightarrow> 'v local_cache" where
  "insert_front now key value expires_at c =
     (let c1 = snd (erase_expired now c) in
      let c2 = c1\<lparr>lc_lru := key # lc_lru c1,
                  lc_map := (key, \<lparr>le_value = value, le_expires_at = expires_at\<rparr>) # lc_map c1\<rparr>
      in snd (evict_over_capacity c2))"

definition LocalCache_set :: "time \<Rightarrow> string \<Rightarrow> 'v \<Rightarrow> int \<Rightarrow> 'v local_cache \<Rightarrow> 'v local_cache" where
  "LocalCache_set now key value ttl c =
     (if ttl \<le> 0 then LocalCache_invalidate key c
      else if lc_max_entries c = 0 then c
      else let expires_at = now + ttl * 1000 in
        (case map_of (lc_map c) key of
           Some e \<Rightarrow>
             if entry_expired now e
             then insert_front now key value expires_at
                    ((erase_entry key c)\<lparr>lc_stats := count_expired 1 (lc_stats c)\<rparr>)
             else touch key (c\<lparr>lc_map := AList.update key
                    \<lparr>le_value = value, le_expires_at = expires_at\<rparr> (lc_map c)\<rparr>)
         | None \<Rightarrow> insert_front now key value expires_at c))"

definition LocalCache_set_if_absent ::
  "time \<Rightarrow> string \<Rightarrow> 'v \<Rightarrow> int \<Rightarrow> 'v local_cache \<Rightarrow> bool \<times> 'v local_cache" where
  "LocalCache_set_if_absent now key value ttl c =
     (if ttl \<le> 0 then (False, c)
      else if lc_max_entries c = 0 then (False, c)
      else (case map_of (lc_map c) key of
           Some e \<Rightarrow>
             if now \<le> le_expires_at e then (False, touch key c)
             else (True, insert_front now key value (now + ttl * 1000)
                    ((erase_entry key c)\<lparr>lc_stats := count_expired 1 (lc_stats c)\<rparr>))
         | None \<Rightarrow> (True, insert_front now key value (now + ttl * 1000) c)))"

definition LocalCache_size :: "'v local_cache \<Rightarrow> nat" where
  "LocalCache_size c = length (lc_map c)"

definition LocalCache_evict_expired :: "time \<Rightarrow> 'v local_cache \<Rightarrow> nat \<times> 'v local_cache" where
  "LocalCache_evict_expired now c = erase_expired now c"

section \<open>Invariant and abstraction\<close>

text \<open>The two structures hold the same keys, each once.\<close>

definition lc_sync :: "'v local_cache \<Rightarrow> bool" where
  "lc_sync c = (distinct (map fst (lc_map c)) \<and> distinct (lc_lru c) \<and>
     set (lc_lru c) = fst ` set (lc_map c))"

definition lc_wf :: "'v local_cache \<Rightarrow> bool" where
  "lc_wf c = (lc_sync c \<and> LocalCache_size c \<le> lc_max_entries c)"

definition lc_abs :: "'v local_cache \<Rightarrow> (string \<times> 'v lc_entry) list" where
  "lc_abs c = map (\<lambda>k. (k, the (map_of (lc_map c) k))) (lc_lru c)"

lemma lc_sync_length: "lc_sync c \<Longrightarrow> length (lc_lru c) = length (lc_map c)"
  by (metis distinct_card image_set length_map lc_sync_def)

lemma lc_sync_lookup: "lc_sync c \<Longrightarrow> k \<in> set (lc_lru c) \<longleftrightarrow> (\<exists>e. map_of (lc_map c) k = Some e)"
  by (metis lc_sync_def map_of_eq_None_iff not_None_eq)

lemma length_lc_abs: "length (lc_abs c) = length (lc_lru c)"
  by (simp add: lc_abs_def)

lemma fst_lc_abs: "map fst (lc_abs c) = lc_lru c"
  by (simp add: lc_abs_def comp_def)

lemma map_of_lc_abs:
  assumes "lc_sync c"
  shows "map_of (lc_abs c) k = map_of (lc_map c) k"
proof (cases "k \<in> set (lc_lru c)")
  case True
  then obtain e where "map_of (lc_map c) k = Some e" using lc_sync_lookup [OF assms] by blast
  moreover have "map_of (map (\<lambda>k. (k, f k)) xs) k = (if k \<in> set xs then Some (f k) else None)"
    for f :: "string \<Rightarrow> 'a lc_entry" and xs
    by (induction xs) auto
  ultimately show ?thesis using True by (simp add: lc_abs_def)
next
  case False
  then have "map_of (lc_map c) k = None" using lc_sync_lookup [OF assms] by auto
  moreover have "map_of (lc_abs c) k = None"
    using False fst_lc_abs [of c] by (metis image_set map_of_eq_None_iff)
  ultimately show ?thesis by simp
qed

text \<open>Operations on the abstract list.\<close>

definition drop_key :: "string \<Rightarrow> (string \<times> 'v lc_entry) list \<Rightarrow> (string \<times> 'v lc_entry) list" where
  "drop_key k xs = filter (\<lambda>p. fst p \<noteq> k) xs"

definition drop_expired :: "time \<Rightarrow> (string \<times> 'v lc_entry) list \<Rightarrow> (string \<times> 'v lc_entry) list" where
  "drop_expired now xs = filter (\<lambda>p. \<not> entry_expired now (snd p)) xs"

lemma drop_key_map: "drop_key k (map (\<lambda>k. (k, f k)) xs) = map (\<lambda>k. (k, f k)) (filter (\<lambda>x. x \<noteq> k) xs)"
  by (induction xs) (auto simp: drop_key_def)

lemma erase_entry_sync: "lc_sync c \<Longrightarrow> lc_sync (erase_entry k c)"
proof -
  assume c: "lc_sync c"
  have "fst ` set (AList.delete k (lc_map c)) = fst ` set (lc_map c) - {k}"
    using delete_keys [of k "lc_map c"] by (metis image_set set_removeAll)
  with c show ?thesis
    by (simp add: lc_sync_def erase_entry_def distinct_delete set_remove1_eq)
qed

lemma erase_entry_abs:
  assumes "lc_sync c"
  shows "lc_abs (erase_entry k c) = drop_key k (lc_abs c)"
proof -
  have d: "remove1 k (lc_lru c) = filter (\<lambda>x. x \<noteq> k) (lc_lru c)"
    using assms by (auto simp: lc_sync_def distinct_remove1_removeAll removeAll_filter_not_eq
        intro!: filter_cong)
  show ?thesis
    by (auto simp: lc_abs_def erase_entry_def drop_key_map d delete_conv)
qed

lemma lc_abs_stats [simp]: "lc_abs (c\<lparr>lc_stats := st\<rparr>) = lc_abs c"
  by (simp add: lc_abs_def)

lemma lc_sync_stats [simp]: "lc_sync (c\<lparr>lc_stats := st\<rparr>) = lc_sync c"
  by (simp add: lc_sync_def)


lemma touch_sync: "lc_sync c \<Longrightarrow> k \<in> set (lc_lru c) \<Longrightarrow> lc_sync (touch k c)"
  by (auto simp: lc_sync_def touch_def set_remove1_eq)

lemma touch_abs:
  assumes "lc_sync c" and "map_of (lc_map c) k = Some e"
  shows "lc_abs (touch k c) = (k, e) # drop_key k (lc_abs c)"
proof -
  have "remove1 k (lc_lru c) = filter (\<lambda>x. x \<noteq> k) (lc_lru c)"
    using assms by (auto simp: lc_sync_def distinct_remove1_removeAll removeAll_filter_not_eq
        intro!: filter_cong)
  then show ?thesis using assms(2) by (simp add: lc_abs_def touch_def drop_key_map)
qed

lemma erase_entry_max [simp]: "lc_max_entries (erase_entry k c) = lc_max_entries c"
  by (simp add: erase_entry_def)

lemma touch_max [simp]: "lc_max_entries (touch k c) = lc_max_entries c"
  by (simp add: touch_def)

lemma erase_expired_loop_spec:
  assumes "lc_sync c" and "erase_expired_loop now es c = (n, c')"
  shows "lc_sync c' \<and> lc_max_entries c' = lc_max_entries c \<and>
    lc_abs c' = filter (\<lambda>p. \<not> (\<exists>e. (fst p, e) \<in> set es \<and> entry_expired now e)) (lc_abs c)"
  using assms
proof (induction now es c arbitrary: n c' rule: erase_expired_loop.induct)
  case (1 now c)
  then show ?case by simp
next
  case (2 now key e rest c)
  show ?case
  proof (cases "entry_expired now e")
    case True
    obtain n1 c1 where r: "erase_expired_loop now rest (erase_entry key c) = (n1, c1)"
      by (metis prod.collapse)
    from "2.IH"(1) [OF True erase_entry_sync [OF "2.prems"(1)] r] True r "2.prems"
    show ?thesis
      by (auto simp: erase_entry_abs drop_key_def intro!: filter_cong)
  next
    case False
    from "2.IH"(2) [OF False "2.prems"(1)] False "2.prems"(2) show ?thesis
      by (auto intro!: filter_cong)
  qed
qed

lemma lc_abs_entry:
  assumes "lc_sync c" and "p \<in> set (lc_abs c)"
  shows "(fst p, e) \<in> set (lc_map c) \<longleftrightarrow> e = snd p"
proof -
  have d: "distinct (map fst (lc_map c))" "distinct (map fst (lc_abs c))"
    using assms(1) by (simp_all add: lc_sync_def fst_lc_abs)
  have "map_of (lc_map c) (fst p) = Some (snd p)"
    using map_of_is_SomeI [OF d(2), of "fst p" "snd p"] assms map_of_lc_abs [OF assms(1)] by simp
  then show ?thesis using d(1) by (metis map_of_is_SomeI map_of_SomeD option.inject)
qed

lemma erase_expired_spec:
  assumes "lc_sync c" and "erase_expired now c = (n, c')"
  shows "lc_sync c' \<and> lc_max_entries c' = lc_max_entries c \<and> lc_abs c' = drop_expired now (lc_abs c)"
proof -
  obtain n1 c1 where r: "erase_expired_loop now (lc_map c) c = (n1, c1)" by (metis prod.collapse)
  from erase_expired_loop_spec [OF assms(1) r]
  have 1: "lc_sync c1" "lc_max_entries c1 = lc_max_entries c" and
    a: "lc_abs c1 = filter (\<lambda>p. \<not> (\<exists>e. (fst p, e) \<in> set (lc_map c) \<and> entry_expired now e)) (lc_abs c)"
    by auto
  from a have "lc_abs c1 = drop_expired now (lc_abs c)"
    unfolding drop_expired_def using lc_abs_entry [OF assms(1)] by (auto intro!: filter_cong)
  with 1 r assms(2) show ?thesis by (auto simp: erase_expired_def)
qed

lemma drop_last_key:
  assumes "distinct (map fst xs)" and "xs \<noteq> []"
  shows "drop_key (fst (last xs)) xs = butlast xs"
proof -
  obtain ys y where xs: "xs = ys @ [y]" using assms(2) by (metis append_butlast_last_id)
  have "fst p \<noteq> fst y" if "p \<in> set ys" for p
  proof
    assume "fst p = fst y"
    with imageI [OF that, of fst] have "fst y \<in> fst ` set ys" by simp
    with assms(1) show False unfolding xs by simp
  qed
  then have "filter (\<lambda>p. fst p \<noteq> fst y) ys = ys" by (simp add: filter_id_conv)
  then show ?thesis by (simp add: xs drop_key_def)
qed

lemma evict_over_capacity_spec:
  assumes "lc_sync c" and "evict_over_capacity c = (n, c')"
  shows "lc_sync c' \<and> lc_max_entries c' = lc_max_entries c \<and>
    lc_abs c' = take (lc_max_entries c) (lc_abs c)"
  using assms
proof (induction c arbitrary: n c' rule: evict_over_capacity.induct)
  case (1 c)
  have len: "length (lc_abs c) = length (lc_map c)"
    using lc_sync_length [OF "1.prems"(1)] by (simp add: length_lc_abs)
  show ?case
  proof (cases "length (lc_map c) > lc_max_entries c \<and> lc_lru c \<noteq> []")
    case False
    then have "length (lc_abs c) \<le> lc_max_entries c"
      using len by (auto simp: length_lc_abs)
    with False "1.prems" show ?thesis by (auto simp: evict_over_capacity.simps [of c])
  next
    case True
    let ?v = "last (lc_lru c)"
    let ?c = "(erase_entry ?v c)\<lparr>lc_stats := count_eviction (lc_stats c)\<rparr>"
    obtain e where e: "map_of (lc_map c) ?v = Some e"
      using lc_sync_lookup [OF "1.prems"(1), of ?v] True by auto
    obtain n1 c1 where r: "evict_over_capacity ?c = (n1, c1)" by (metis prod.collapse)
    have ne: "lc_abs c \<noteq> []" using True by (simp add: lc_abs_def)
    have v: "?v = fst (last (lc_abs c))" using fst_lc_abs [of c] ne by (metis last_map)
    have "distinct (map fst (lc_abs c))" using "1.prems"(1) by (simp add: lc_sync_def fst_lc_abs)
    from drop_last_key [OF this ne]
    have abs: "lc_abs ?c = butlast (lc_abs c)"
      by (simp add: erase_entry_abs [OF "1.prems"(1)] v)
    from "1.IH"(2) [OF True refl e _ r] erase_entry_sync [OF "1.prems"(1)]
    have "lc_sync c1 \<and> lc_max_entries c1 = lc_max_entries c \<and>
        lc_abs c1 = take (lc_max_entries c) (butlast (lc_abs c))"
      unfolding abs by simp
    moreover have "c' = c1"
      using "1.prems"(2) True e r by (simp add: evict_over_capacity.simps [of c] Let_def)
    moreover have "take (lc_max_entries c) (butlast (lc_abs c)) = take (lc_max_entries c) (lc_abs c)"
      using True len by (simp add: take_butlast)
    ultimately show ?thesis by simp
  qed
qed

lemma drop_expired_keys: "fst ` set (drop_expired now xs) \<subseteq> fst ` set xs"
  by (auto simp: drop_expired_def)

lemma insert_front_spec:
  assumes c: "lc_sync c" and k: "map_of (lc_map c) key = None"
  shows "lc_sync (insert_front now key v t c) \<and>
    lc_max_entries (insert_front now key v t c) = lc_max_entries c \<and>
    lc_abs (insert_front now key v t c) = take (lc_max_entries c)
      ((key, \<lparr>le_value = v, le_expires_at = t\<rparr>) # drop_expired now (lc_abs c))"
proof -
  obtain n c1 where 1: "erase_expired now c = (n, c1)" by (metis prod.collapse)
  note c1 = erase_expired_spec [OF c 1]
  let ?e = "\<lparr>le_value = v, le_expires_at = t\<rparr>"
  let ?c2 = "c1\<lparr>lc_lru := key # lc_lru c1, lc_map := (key, ?e) # lc_map c1\<rparr>"
  have "key \<notin> set (lc_lru c)" using lc_sync_lookup [OF c, of key] k by simp
  then have new: "key \<notin> set (lc_lru c1)"
    using c1 drop_expired_keys [of now "lc_abs c"] by (metis fst_lc_abs image_set subset_iff)
  with c1 have s2: "lc_sync ?c2" by (auto simp: lc_sync_def)
  have a2: "lc_abs ?c2 = (key, ?e) # drop_expired now (lc_abs c)"
  proof -
    have "map (\<lambda>k. (k, the (map_of (lc_map ?c2) k))) (lc_lru c1) = lc_abs c1"
      using new by (auto simp: lc_abs_def)
    then show ?thesis using c1 by (simp add: lc_abs_def [of ?c2])
  qed
  obtain n2 c3 where 3: "evict_over_capacity ?c2 = (n2, c3)" by (metis prod.collapse)
  have "insert_front now key v t c = c3"
    using 1 3 by (simp add: insert_front_def Let_def)
  with evict_over_capacity_spec [OF s2 3] a2 c1 show ?thesis by simp
qed

section \<open>The operations on the abstract list\<close>

text \<open>What each operation does to the recency-ordered list of entries.\<close>

definition get_spec :: "time \<Rightarrow> string \<Rightarrow> (string \<times> 'v lc_entry) list \<Rightarrow>
    'v option \<times> (string \<times> 'v lc_entry) list" where
  "get_spec now k xs =
     (case map_of xs k of
        None \<Rightarrow> (None, xs)
      | Some e \<Rightarrow> if entry_expired now e then (None, drop_key k xs)
                  else (Some (le_value e), (k, e) # drop_key k xs))"

definition set_spec :: "nat \<Rightarrow> time \<Rightarrow> string \<Rightarrow> 'v \<Rightarrow> int \<Rightarrow> (string \<times> 'v lc_entry) list \<Rightarrow>
    (string \<times> 'v lc_entry) list" where
  "set_spec n now k v ttl xs =
     (if ttl \<le> 0 then drop_key k xs
      else if n = 0 then xs
      else let new = (k, \<lparr>le_value = v, le_expires_at = now + ttl * 1000\<rparr>) in
        (case map_of xs k of
           Some e \<Rightarrow> if entry_expired now e then take n (new # drop_expired now (drop_key k xs))
                     else new # drop_key k xs
         | None \<Rightarrow> take n (new # drop_expired now xs)))"

definition set_if_absent_spec :: "nat \<Rightarrow> time \<Rightarrow> string \<Rightarrow> 'v \<Rightarrow> int \<Rightarrow> (string \<times> 'v lc_entry) list \<Rightarrow>
    bool \<times> (string \<times> 'v lc_entry) list" where
  "set_if_absent_spec n now k v ttl xs =
     (if ttl \<le> 0 \<or> n = 0 then (False, xs)
      else let new = (k, \<lparr>le_value = v, le_expires_at = now + ttl * 1000\<rparr>) in
        (case map_of xs k of
           Some e \<Rightarrow> if entry_expired now e then (True, take n (new # drop_expired now (drop_key k xs)))
                     else (False, (k, e) # drop_key k xs)
         | None \<Rightarrow> (True, take n (new # drop_expired now xs))))"

lemma drop_key_absent: "map_of xs k = None \<Longrightarrow> drop_key k xs = xs"
  by (auto simp: drop_key_def filter_id_conv map_of_eq_None_iff)

lemma lc_wf_abs: "lc_wf c \<longleftrightarrow> lc_sync c \<and> length (lc_abs c) \<le> lc_max_entries c"
  using lc_sync_length [of c] by (auto simp: lc_wf_def LocalCache_size_def length_lc_abs)

lemma get_refines:
  assumes "lc_sync c"
  shows "lc_sync (snd (LocalCache_get now k c)) \<and>
    lc_max_entries (snd (LocalCache_get now k c)) = lc_max_entries c \<and>
    map_prod id lc_abs (LocalCache_get now k c) = get_spec now k (lc_abs c)"
proof (cases "map_of (lc_map c) k")
  case None
  with assms show ?thesis by (simp add: LocalCache_get_def get_spec_def map_of_lc_abs)
next
  case (Some e)
  then have "k \<in> set (lc_lru c)" using lc_sync_lookup [OF assms] by simp
  with Some assms show ?thesis
    by (simp add: LocalCache_get_def get_spec_def map_of_lc_abs erase_entry_sync erase_entry_abs
        touch_sync touch_abs)
qed

lemma invalidate_refines:
  assumes "lc_sync c"
  shows "lc_sync (LocalCache_invalidate k c) \<and>
    lc_max_entries (LocalCache_invalidate k c) = lc_max_entries c \<and>
    lc_abs (LocalCache_invalidate k c) = drop_key k (lc_abs c)"
  using assms erase_entry_sync [OF assms] erase_entry_abs [OF assms]
  by (auto simp: LocalCache_invalidate_def map_of_lc_abs intro!: drop_key_absent [symmetric]
      split: option.split)

lemma map_of_erase_entry: "map_of (lc_map (erase_entry k c)) k = None"
  by (simp add: erase_entry_def delete_conv)

lemma insert_front_erased:
  assumes "lc_sync c"
  shows "lc_sync (insert_front now k v t ((erase_entry k c)\<lparr>lc_stats := st\<rparr>)) \<and>
    lc_max_entries (insert_front now k v t ((erase_entry k c)\<lparr>lc_stats := st\<rparr>)) = lc_max_entries c \<and>
    lc_abs (insert_front now k v t ((erase_entry k c)\<lparr>lc_stats := st\<rparr>)) =
      take (lc_max_entries c) ((k, \<lparr>le_value = v, le_expires_at = t\<rparr>)
        # drop_expired now (drop_key k (lc_abs c)))"
  using insert_front_spec [of "(erase_entry k c)\<lparr>lc_stats := st\<rparr>" k now v t]
  by (simp add: erase_entry_sync assms erase_entry_abs map_of_erase_entry)

lemma update_touch:
  assumes c: "lc_sync c" and k: "map_of (lc_map c) k = Some e"
  shows "lc_sync (touch k (c\<lparr>lc_map := AList.update k e' (lc_map c)\<rparr>)) \<and>
    lc_abs (touch k (c\<lparr>lc_map := AList.update k e' (lc_map c)\<rparr>)) = (k, e') # drop_key k (lc_abs c)"
proof -
  let ?c = "c\<lparr>lc_map := AList.update k e' (lc_map c)\<rparr>"
  have "k \<in> fst ` set (lc_map c)" using k by (metis map_of_eq_None_iff option.distinct(1))
  with c have s: "lc_sync ?c" by (auto simp: lc_sync_def dom_update distinct_update)
  have "drop_key k (lc_abs ?c) = drop_key k (lc_abs c)"
    by (simp add: lc_abs_def drop_key_map update_conv')
  then show ?thesis
    using touch_sync [OF s, of k] touch_abs [OF s, of k e'] lc_sync_lookup [OF c, of k] k
    by (simp add: update_conv')
qed

lemma set_refines:
  assumes "lc_sync c"
  shows "lc_sync (LocalCache_set now k v ttl c) \<and>
    lc_max_entries (LocalCache_set now k v ttl c) = lc_max_entries c \<and>
    lc_abs (LocalCache_set now k v ttl c) = set_spec (lc_max_entries c) now k v ttl (lc_abs c)"
proof (cases "0 < ttl \<and> 0 < lc_max_entries c")
  case False
  then show ?thesis
    using invalidate_refines [OF assms, of k] assms by (auto simp: LocalCache_set_def set_spec_def)
next
  case True
  show ?thesis
  proof (cases "map_of (lc_map c) k")
    case None
    then show ?thesis
      using True insert_front_spec [OF assms None, of now v "now + ttl * 1000"]
      by (simp add: LocalCache_set_def set_spec_def map_of_lc_abs assms Let_def)
  next
    case (Some e)
    then show ?thesis
      using True insert_front_erased [OF assms] update_touch [OF assms Some]
      by (simp add: LocalCache_set_def set_spec_def map_of_lc_abs assms Let_def)
  qed
qed

lemma set_if_absent_refines:
  assumes "lc_sync c"
  shows "lc_sync (snd (LocalCache_set_if_absent now k v ttl c)) \<and>
    lc_max_entries (snd (LocalCache_set_if_absent now k v ttl c)) = lc_max_entries c \<and>
    map_prod id lc_abs (LocalCache_set_if_absent now k v ttl c) =
      set_if_absent_spec (lc_max_entries c) now k v ttl (lc_abs c)"
proof (cases "0 < ttl \<and> 0 < lc_max_entries c")
  case False
  then show ?thesis
    using assms by (auto simp: LocalCache_set_if_absent_def set_if_absent_spec_def)
next
  case True
  show ?thesis
  proof (cases "map_of (lc_map c) k")
    case None
    then show ?thesis
      using True insert_front_spec [OF assms None, of now v "now + ttl * 1000"]
      by (simp add: LocalCache_set_if_absent_def set_if_absent_spec_def map_of_lc_abs assms Let_def)
  next
    case (Some e)
    then have "k \<in> set (lc_lru c)" using lc_sync_lookup [OF assms] by simp
    with Some show ?thesis
      using True insert_front_erased [OF assms] touch_sync [OF assms] touch_abs [OF assms Some]
      by (simp add: LocalCache_set_if_absent_def set_if_absent_spec_def map_of_lc_abs assms
          entry_expired_def Let_def)
  qed
qed

lemma length_drop_key_le: "length (drop_key k xs) \<le> length xs"
  by (simp add: drop_key_def)

lemma length_drop_key_less: "map_of xs k = Some e \<Longrightarrow> length (drop_key k xs) < length xs"
  unfolding drop_key_def by (rule length_filter_less [where x = "(k, e)"]) (auto dest: map_of_SomeD)

lemma length_drop_expired: "length (drop_expired now xs) \<le> length xs"
  by (simp add: drop_expired_def)

lemma length_get_spec: "length xs \<le> n \<Longrightarrow> length (snd (get_spec now k xs)) \<le> n"
  using length_drop_key_le [of k xs] length_drop_key_less [of xs k]
  by (auto simp: get_spec_def split: option.splits intro: le_trans Suc_leI)

lemma length_set_spec: "length xs \<le> n \<Longrightarrow> length (set_spec n now k v ttl xs) \<le> n"
  using length_drop_key_le [of k xs] length_drop_key_less [of xs k]
  by (auto simp: set_spec_def Let_def split: option.splits intro: le_trans Suc_leI)

lemma length_set_if_absent_spec:
  "length xs \<le> n \<Longrightarrow> length (snd (set_if_absent_spec n now k v ttl xs)) \<le> n"
  using length_drop_key_less [of xs k]
  by (auto simp: set_if_absent_spec_def Let_def split: option.splits intro: le_trans Suc_leI)

text \<open>Claim C24. The cache implements a recency-ordered list of entries of bounded length. From a
  state where the hash map and the recency list agree, every operation leaves them in agreement
  and within the capacity; \<open>get\<close> returns the stored value exactly when it has not expired, and
  moves it to the front; \<open>set\<close> puts the entry in front, and when it is new drops the expired
  entries and then the least recently used ones beyond the capacity; \<open>set_if_absent\<close> leaves a live
  entry alone.\<close>

theorem local_cache_refines:
  assumes "lc_wf c"
  shows "lc_wf (snd (LocalCache_get now k c))
       \<and> map_prod id lc_abs (LocalCache_get now k c) = get_spec now k (lc_abs c)
       \<and> lc_wf (LocalCache_set now k v ttl c)
       \<and> lc_abs (LocalCache_set now k v ttl c) = set_spec (lc_max_entries c) now k v ttl (lc_abs c)
       \<and> lc_wf (snd (LocalCache_set_if_absent now k v ttl c))
       \<and> map_prod id lc_abs (LocalCache_set_if_absent now k v ttl c) =
           set_if_absent_spec (lc_max_entries c) now k v ttl (lc_abs c)
       \<and> lc_wf (LocalCache_invalidate k c)
       \<and> lc_abs (LocalCache_invalidate k c) = drop_key k (lc_abs c)
       \<and> lc_wf (snd (LocalCache_evict_expired now c))
       \<and> lc_abs (snd (LocalCache_evict_expired now c)) = drop_expired now (lc_abs c)"
proof -
  from assms have c: "lc_sync c" and n: "length (lc_abs c) \<le> lc_max_entries c"
    by (simp_all add: lc_wf_abs)
  note g = get_refines [OF c, of now k] and s = set_refines [OF c, of now k v ttl]
    and a = set_if_absent_refines [OF c, of now k v ttl] and i = invalidate_refines [OF c, of k]
  have "lc_abs (snd (LocalCache_get now k c)) = snd (get_spec now k (lc_abs c))"
    using g by (metis snd_map_prod)
  then have g': "lc_wf (snd (LocalCache_get now k c))"
    using g length_get_spec [OF n] by (simp add: lc_wf_abs)
  have "lc_abs (snd (LocalCache_set_if_absent now k v ttl c)) =
      snd (set_if_absent_spec (lc_max_entries c) now k v ttl (lc_abs c))"
    using a by (metis snd_map_prod)
  then have a': "lc_wf (snd (LocalCache_set_if_absent now k v ttl c))"
    using a n length_set_if_absent_spec by (auto simp: lc_wf_abs)
  obtain m c' where e: "erase_expired now c = (m, c')" by (metis prod.collapse)
  show ?thesis
    using g g' s a a' i n length_set_spec [OF n] length_drop_key_le [of k "lc_abs c"]
      erase_expired_spec [OF c e] e order_trans [OF length_drop_expired n]
    by (simp add: lc_wf_abs LocalCache_evict_expired_def)
qed

definition demo_cache :: "nat local_cache" where
  "demo_cache = \<lparr>lc_max_entries = 2,
     lc_map = [(''a'', \<lparr>le_value = 1, le_expires_at = 9000\<rparr>), (''b'', \<lparr>le_value = 2, le_expires_at = 9000\<rparr>)],
     lc_lru = [''b'', ''a''], lc_stats = \<lparr>st_hits = 0, st_misses = 0, st_evictions = 0, st_expired = 0\<rparr>\<rparr>"

theorem local_cache_refines_witness:
  "lc_wf demo_cache \<and> lc_wf (LocalCache_set 5 ''c'' 3 60 demo_cache) \<and>
   map fst (lc_abs (LocalCache_set 5 ''c'' 3 60 demo_cache)) = [''c'', ''b''] \<and>
   fst (map_prod id lc_abs (LocalCache_get 9001 ''c'' demo_cache)) = None"
proof -
  have wf: "lc_wf demo_cache"
    by (simp add: lc_wf_def lc_sync_def LocalCache_size_def demo_cache_def insert_commute)
  have abs: "lc_abs demo_cache =
      [(''b'', \<lparr>le_value = 2, le_expires_at = 9000\<rparr>), (''a'', \<lparr>le_value = 1, le_expires_at = 9000\<rparr>)]"
    and n: "lc_max_entries demo_cache = 2"
    by (simp_all add: lc_abs_def demo_cache_def)
  show ?thesis
    using wf local_cache_refines [OF wf, of 5 "''c''" 3 60] local_cache_refines [OF wf, of 9001 "''c''" 3 60]
    by (simp add: abs n set_spec_def get_spec_def drop_expired_def entry_expired_def)
qed

section \<open>The interface the services rely on\<close>

text \<open>
  A service keeps in the cache only values that satisfy some condition, and relies on reads to
  give such values back. \<open>stored\<close> is the set of key and value pairs an operation can ever
  return; the laws say that reading, writing and removing add nothing to it but what is written.
\<close>

locale keyed_cache =
  fixes wf :: "'c \<Rightarrow> bool"
    and stored :: "'c \<Rightarrow> ('k \<times> 'v) set"
    and get :: "time \<Rightarrow> 'k \<Rightarrow> 'c \<Rightarrow> 'v option \<times> 'c"
    and put :: "time \<Rightarrow> 'k \<Rightarrow> 'v \<Rightarrow> int \<Rightarrow> 'c \<Rightarrow> 'c"
    and remove :: "'k \<Rightarrow> 'c \<Rightarrow> 'c"
  assumes get_stored: "wf c \<Longrightarrow> get now k c = (Some v, c') \<Longrightarrow> (k, v) \<in> stored c"
    and get_keeps: "wf c \<Longrightarrow> wf (snd (get now k c)) \<and> stored (snd (get now k c)) \<subseteq> stored c"
    and put_keeps: "wf c \<Longrightarrow> wf (put now k v ttl c) \<and> stored (put now k v ttl c) \<subseteq> insert (k, v) (stored c)"
    and remove_keeps: "wf c \<Longrightarrow> wf (remove k c) \<and> stored (remove k c) \<subseteq> stored c"
begin

definition all_ok :: "('k \<Rightarrow> 'v \<Rightarrow> bool) \<Rightarrow> 'c \<Rightarrow> bool" where
  "all_ok P c = (wf c \<and> (\<forall>(k, v) \<in> stored c. P k v))"

lemma all_ok_get: "all_ok P c \<Longrightarrow> get now k c = (r, c') \<Longrightarrow> all_ok P c' \<and> (\<forall>v. r = Some v \<longrightarrow> P k v)"
  using get_keeps [of c now k] get_stored [of c now k] by (fastforce simp: all_ok_def)

lemma all_ok_put: "all_ok P c \<Longrightarrow> P k v \<Longrightarrow> all_ok P (put now k v ttl c)"
  using put_keeps [of c now k v ttl] by (fastforce simp: all_ok_def)

lemma all_ok_remove: "all_ok P c \<Longrightarrow> all_ok P (remove k c)"
  using remove_keeps [of c k] by (fastforce simp: all_ok_def)

lemma all_ok_mono: "all_ok P c \<Longrightarrow> (\<And>k v. P k v \<Longrightarrow> Q k v) \<Longrightarrow> all_ok Q c"
  by (fastforce simp: all_ok_def)

end

definition lc_stored :: "'v local_cache \<Rightarrow> (string \<times> 'v) set" where
  "lc_stored c = (\<lambda>(k, e). (k, le_value e)) ` set (lc_abs c)"

lemma get_spec_stored:
  "fst (get_spec now k xs) = Some v \<Longrightarrow> \<exists>e. (k, e) \<in> set xs \<and> le_value e = v"
  "set (snd (get_spec now k xs)) \<subseteq> set xs"
  by (auto simp: get_spec_def drop_key_def dest: map_of_SomeD split: option.splits if_splits)

lemma set_spec_stored:
  "set (set_spec n now k v ttl xs) \<subseteq> insert (k, \<lparr>le_value = v, le_expires_at = now + ttl * 1000\<rparr>) (set xs)"
  by (auto simp: set_spec_def drop_key_def drop_expired_def Let_def dest!: in_set_takeD
      split: option.splits if_splits)

lemma lc_get_stored:
  assumes "lc_sync c" and "LocalCache_get now k c = (Some v, c')"
  shows "(k, v) \<in> lc_stored c"
proof -
  have "fst (get_spec now k (lc_abs c)) = Some v"
    using get_refines [OF assms(1), of now k] assms(2) by (metis fst_conv fst_map_prod id_apply)
  then show ?thesis using get_spec_stored(1) by (force simp: lc_stored_def)
qed

interpretation lc: keyed_cache lc_sync lc_stored LocalCache_get LocalCache_set LocalCache_invalidate
proof unfold_locales
  fix c :: "'v local_cache" and now k v ttl c'
  assume c: "lc_sync c"
  show "(k, v) \<in> lc_stored c" if "LocalCache_get now k c = (Some v, c')"
    using lc_get_stored [OF c that] .
  have "lc_abs (snd (LocalCache_get now k c)) = snd (get_spec now k (lc_abs c))"
    using get_refines [OF c, of now k] by (metis snd_map_prod)
  then show "lc_sync (snd (LocalCache_get now k c)) \<and> lc_stored (snd (LocalCache_get now k c)) \<subseteq> lc_stored c"
    using get_refines [OF c, of now k] image_mono [OF get_spec_stored(2) [of now k "lc_abs c"], of "\<lambda>(k, e). (k, le_value e)"]
    by (simp add: lc_stored_def)
  show "lc_sync (LocalCache_set now k v ttl c) \<and>
      lc_stored (LocalCache_set now k v ttl c) \<subseteq> insert (k, v) (lc_stored c)"
    using set_refines [OF c, of now k v ttl] set_spec_stored [of "lc_max_entries c" now k v ttl "lc_abs c"]
    by (auto simp: lc_stored_def)
  show "lc_sync (LocalCache_invalidate k c) \<and> lc_stored (LocalCache_invalidate k c) \<subseteq> lc_stored c"
    using invalidate_refines [OF c, of k] by (auto simp: lc_stored_def drop_key_def)
qed

end
