(* ===== verification/Snowflake.thy ===== *)
theory Snowflake
  imports Prelude
begin

unbundle bit_operations_syntax

text \<open>
  The message id generator of common/infra/snowflake.hpp. The system clock is a sequence of
  readings, consumed from a position on: the code reads it once per call and again in the
  waiting loop. \<open>WaitUntil\<close> may wait forever when the clock never reaches its target, so its
  value is an option. All arithmetic is on 64-bit words, as in the code.
  Shown: every call returns once the clock passes the last timestamp; the ids of one generator
  strictly increase and ids of generators with different worker ids differ, as long as the
  timestamp difference fits the 42 bits left for it.
\<close>

definition kMaxWorkerId :: u64 where "kMaxWorkerId = push_bit 10 1 - 1"
definition kMaxSequence :: u64 where "kMaxSequence = push_bit 12 1 - 1"

record snowflake =
  sf_worker_id :: u64
  sf_epoch_ms :: u64
  sf_wait_on_clock_backwards :: bool
  sf_last_ts :: u64
  sf_sequence :: u64

definition SnowflakeId :: "u64 \<Rightarrow> u64 \<Rightarrow> bool \<Rightarrow> string + snowflake" where
  "SnowflakeId worker_id epoch_ms wait =
     (if worker_id > kMaxWorkerId then Inl ''snowflake worker_id out of range''
      else Inr \<lparr>sf_worker_id = worker_id, sf_epoch_ms = epoch_ms, sf_wait_on_clock_backwards = wait,
                sf_last_ts = 0, sf_sequence = 0\<rparr>)"

definition Compose :: "snowflake \<Rightarrow> u64 \<Rightarrow> u64 \<Rightarrow> u64 \<Rightarrow> u64" where
  "Compose g ts_ms worker sq =
     (let delta = ts_ms - sf_epoch_ms g
      in push_bit (10 + 12) delta OR push_bit 12 worker OR sq)"

type_synonym clock = "nat \<Rightarrow> u64"

partial_function (option) WaitUntil :: "clock \<Rightarrow> u64 \<Rightarrow> nat \<Rightarrow> (u64 \<times> nat) option" where
  "WaitUntil clk target_ms k =
     (if clk k \<ge> target_ms then Some (clk k, Suc k) else WaitUntil clk target_ms (Suc k))"

text \<open>The sequence step, once the clock reading is at least the last timestamp.\<close>

definition Next_at :: "clock \<Rightarrow> snowflake \<Rightarrow> u64 \<Rightarrow> nat \<Rightarrow> (u64 \<times> snowflake \<times> nat) option" where
  "Next_at clk g now k =
     (if now = sf_last_ts g
      then let sq = (sf_sequence g + 1) AND kMaxSequence in
           (if sq = 0
            then case WaitUntil clk (sf_last_ts g + 1) k of
                   None \<Rightarrow> None
                 | Some (now', k') \<Rightarrow>
                     Some (Compose g now' (sf_worker_id g) sq,
                           g\<lparr>sf_last_ts := now', sf_sequence := sq\<rparr>, k')
            else Some (Compose g now (sf_worker_id g) sq, g\<lparr>sf_last_ts := now, sf_sequence := sq\<rparr>, k))
      else Some (Compose g now (sf_worker_id g) 0, g\<lparr>sf_last_ts := now, sf_sequence := 0\<rparr>, k))"

text \<open>\<open>Next\<close>: \<open>None\<close> when it never returns, \<open>Inl\<close> when it throws.\<close>

definition Next :: "clock \<Rightarrow> snowflake \<Rightarrow> nat \<Rightarrow> (string + u64 \<times> snowflake \<times> nat) option" where
  "Next clk g k =
     (let now = clk k in
      if now < sf_last_ts g
      then let diff = sf_last_ts g - now in
           (if \<not> sf_wait_on_clock_backwards g \<or> diff > 1000
            then Some (Inl ''snowflake: clock moved backwards'')
            else case WaitUntil clk (sf_last_ts g) (Suc k) of
                   None \<Rightarrow> None
                 | Some (now', k') \<Rightarrow> map_option Inr (Next_at clk g now' k'))
      else map_option Inr (Next_at clk g now (Suc k)))"

text \<open>The ids of \<open>n\<close> calls in a row; a call that throws gives none and leaves the generator alone.\<close>

fun ids :: "clock \<Rightarrow> nat \<Rightarrow> snowflake \<Rightarrow> nat \<Rightarrow> u64 list" where
  "ids clk 0 g k = []"
| "ids clk (Suc n) g k =
     (case Next clk g k of
        None \<Rightarrow> []
      | Some (Inl _) \<Rightarrow> ids clk n g (Suc k)
      | Some (Inr (i, g', k')) \<Rightarrow> i # ids clk n g' k')"

section \<open>The layout of an id\<close>

lemma bit_less: "unat (w :: u64) < 2 ^ m \<Longrightarrow> bit w n \<Longrightarrow> n < m"
proof -
  assume "unat w < 2 ^ m" and b: "bit w n"
  then have "take_bit m w = w" by (metis take_bit_nat_eq_self_iff unsigned_take_bit_eq word_unat_eq_iff)
  with b show ?thesis by (metis bit_take_bit_iff)
qed

lemma unat_compose:
  assumes "unat d < 2 ^ 42" and "unat w < 2 ^ 10" and "unat s < 2 ^ 12"
  shows "unat (push_bit 22 d OR push_bit 12 w OR s :: u64) = unat d * 2 ^ 22 + unat w * 2 ^ 12 + unat s"
proof -
  have "push_bit 12 w OR s = push_bit 12 w + s"
    by (rule disjunctive_add_eq_or [symmetric]) (auto simp: bit_eq_iff bit_simps dest: bit_less [OF assms(3)])
  moreover have "push_bit 22 d OR (push_bit 12 w OR s) = push_bit 22 d + (push_bit 12 w OR s)"
    by (rule disjunctive_add_eq_or [symmetric])
       (auto simp: bit_eq_iff bit_simps dest: bit_less [OF assms(2)] bit_less [OF assms(3)])
  ultimately have "push_bit 22 d OR push_bit 12 w OR s = push_bit 22 d + (push_bit 12 w + s)"
    by (simp add: or.assoc)
  moreover have "unat (push_bit 22 d) = unat d * 2 ^ 22" "unat (push_bit 12 w) = unat w * 2 ^ 12"
    using assms by (simp_all add: push_bit_eq_mult unat_word_ariths)
  ultimately show ?thesis using assms by (simp add: unat_word_ariths)
qed

section \<open>One call\<close>

text \<open>
  The clock stays in the 42 bits the layout leaves for the difference to the epoch: 139 years
  from the epoch on.
\<close>

definition clock_in_range :: "u64 \<Rightarrow> clock \<Rightarrow> bool" where
  "clock_in_range epoch clk = (unat epoch + 2 ^ 42 < 2 ^ 64 \<and>
     (\<forall>k. unat epoch \<le> unat (clk k) \<and> unat (clk k) < unat epoch + 2 ^ 42))"

definition sf_wf :: "snowflake \<Rightarrow> bool" where
  "sf_wf g = (unat (sf_worker_id g) < 2 ^ 10 \<and> unat (sf_sequence g) < 2 ^ 12 \<and>
     unat (sf_last_ts g) < unat (sf_epoch_ms g) + 2 ^ 42)"

text \<open>The order of the generator's states: timestamp first, then sequence.\<close>

definition sf_pos :: "snowflake \<Rightarrow> nat" where
  "sf_pos g = unat (sf_last_ts g) * 2 ^ 12 + unat (sf_sequence g)"

lemma WaitUntil_spec: "WaitUntil clk t k = Some (n, k') \<Longrightarrow> t \<le> n \<and> (\<exists>j. n = clk j)"
proof -
  assume "WaitUntil clk t k = Some (n, k')"
  then have "case (n, k') of (n, k') \<Rightarrow> t \<le> n \<and> (\<exists>j. n = clk j)"
    by (rule WaitUntil.raw_induct [rotated]) (auto split: if_splits)
  then show ?thesis by simp
qed

lemma WaitUntil_returns:
  assumes "k \<le> j" and "t \<le> clk j"
  shows "\<exists>m. k \<le> m \<and> m \<le> j \<and> t \<le> clk m \<and> WaitUntil clk t k = Some (clk m, Suc m)"
  using assms
proof (induction "j - k" arbitrary: k)
  case 0
  then have "k = j" by simp
  with \<open>t \<le> clk j\<close> show ?case by (subst WaitUntil.simps) auto
next
  case (Suc d)
  then obtain m where "Suc k \<le> m" "m \<le> j" "t \<le> clk m" "WaitUntil clk t (Suc k) = Some (clk m, Suc m)"
    by (metis Suc_diff_Suc Suc_leI diff_Suc_1 zero_less_Suc zero_less_diff)
  then show ?case by (subst WaitUntil.simps) (cases "t \<le> clk k"; force intro: exI [of _ k] exI [of _ m])
qed

lemma unat_masked: "unat (w AND kMaxSequence) = unat w mod 2 ^ 12"
proof -
  have "kMaxSequence = mask 12" by (simp add: kMaxSequence_def mask_eq_exp_minus_1)
  then have "w AND kMaxSequence = take_bit 12 w" by (simp add: take_bit_eq_mask)
  then show ?thesis by (metis take_bit_nat_def unsigned_take_bit_eq)
qed

lemma sequence_step:
  assumes "unat (s :: u64) < 2 ^ 12"
  shows "unat ((s + 1) AND kMaxSequence) = (if unat s = 2 ^ 12 - 1 then 0 else unat s + 1)"
proof -
  have "unat (s + 1) = unat s + 1" using assms by (simp add: unat_word_ariths)
  then show ?thesis using assms unfolding unat_masked by auto
qed

lemma Next_at_spec:
  assumes g: "sf_wf g" and c: "clock_in_range (sf_epoch_ms g) clk"
    and now: "now = clk j" "sf_last_ts g \<le> now"
    and r: "Next_at clk g now k = Some (i, g', k')"
  shows "sf_wf g' \<and> sf_worker_id g' = sf_worker_id g \<and> sf_epoch_ms g' = sf_epoch_ms g \<and>
    (\<exists>j. sf_last_ts g' = clk j) \<and> sf_pos g < sf_pos g' \<and>
    i = Compose g' (sf_last_ts g') (sf_worker_id g') (sf_sequence g')"
proof -
  have rng: "unat (clk m) < unat (sf_epoch_ms g) + 2 ^ 42" for m
    using c by (simp add: clock_in_range_def)
  note sq = sequence_step [of "sf_sequence g"]
  show ?thesis
  proof (cases "now = sf_last_ts g")
    case False
    with now have "unat (sf_last_ts g) < unat now" by (metis order_le_less word_less_nat_alt)
    with False r g rng [of j] now show ?thesis
      by (auto simp: Next_at_def sf_wf_def sf_pos_def Compose_def)
  next
    case True
    show ?thesis
    proof (cases "(sf_sequence g + 1) AND kMaxSequence = 0")
      case zero: True
      with True r obtain n m where w: "WaitUntil clk (sf_last_ts g + 1) k = Some (n, m)"
        by (auto simp: Next_at_def split: option.splits)
      from WaitUntil_spec [OF w] obtain j' where j': "sf_last_ts g + 1 \<le> n" "n = clk j'" by blast
      have "unat (sf_last_ts g + 1) = unat (sf_last_ts g) + 1"
        using g c by (simp add: sf_wf_def clock_in_range_def unat_word_ariths)
      with j' have "unat (sf_last_ts g) < unat n" by (simp add: word_le_nat_alt)
      with True zero w r g rng [of j'] j' show ?thesis
        by (auto simp: Next_at_def sf_wf_def sf_pos_def Compose_def)
    next
      case False
      with sq g have "unat ((sf_sequence g + 1) AND kMaxSequence) = unat (sf_sequence g) + 1"
        and "unat (sf_sequence g) + 1 < 2 ^ 12"
        by (auto simp: sf_wf_def unat_eq_zero split: if_splits)
      with True False r g now show ?thesis
        by (auto simp: Next_at_def sf_wf_def sf_pos_def Compose_def Let_def intro: exI [of _ j])
    qed
  qed
qed

lemma Next_spec:
  assumes g: "sf_wf g" and c: "clock_in_range (sf_epoch_ms g) clk"
    and r: "Next clk g k = Some (Inr (i, g', k'))"
  shows "sf_wf g' \<and> sf_worker_id g' = sf_worker_id g \<and> sf_epoch_ms g' = sf_epoch_ms g \<and>
    (\<exists>j. sf_last_ts g' = clk j) \<and> sf_pos g < sf_pos g' \<and>
    i = Compose g' (sf_last_ts g') (sf_worker_id g') (sf_sequence g')"
proof (cases "clk k < sf_last_ts g")
  case True
  with r obtain n m where w: "WaitUntil clk (sf_last_ts g) (Suc k) = Some (n, m)"
    and "Next_at clk g n m = Some (i, g', k')"
    by (auto simp: Next_def Let_def split: if_splits option.splits)
  then show ?thesis using WaitUntil_spec [OF w] Next_at_spec [OF g c] by blast
next
  case False
  then have "Next_at clk g (clk k) (Suc k) = Some (i, g', k')"
    using r by (auto simp: Next_def Let_def)
  from Next_at_spec [OF g c refl _ this] False show ?thesis by (simp only: not_less)
qed

text \<open>The id as a number.\<close>

lemma unat_id:
  assumes "sf_wf g" and "clock_in_range (sf_epoch_ms g) clk" and "sf_last_ts g = clk j"
  shows "unat (Compose g (sf_last_ts g) (sf_worker_id g) (sf_sequence g)) =
    (unat (sf_last_ts g) - unat (sf_epoch_ms g)) * 2 ^ 22 + unat (sf_worker_id g) * 2 ^ 12
      + unat (sf_sequence g)"
proof -
  have "sf_epoch_ms g \<le> sf_last_ts g" and u: "unat (sf_last_ts g) < unat (sf_epoch_ms g) + 2 ^ 42"
    using assms by (simp_all add: clock_in_range_def word_le_nat_alt)
  then have d: "unat (sf_last_ts g - sf_epoch_ms g) = unat (sf_last_ts g) - unat (sf_epoch_ms g)"
    by (simp add: unat_sub)
  with u have "unat (sf_last_ts g - sf_epoch_ms g) < 2 ^ 42" by simp
  with unat_compose [of "sf_last_ts g - sf_epoch_ms g" "sf_worker_id g" "sf_sequence g"] assms(1) d
  show ?thesis by (simp add: Compose_def sf_wf_def)
qed

section \<open>Many calls\<close>

definition id_num :: "snowflake \<Rightarrow> nat" where
  "id_num g = (unat (sf_last_ts g) - unat (sf_epoch_ms g)) * 2 ^ 22 + unat (sf_worker_id g) * 2 ^ 12
     + unat (sf_sequence g)"

lemma id_num_mono:
  assumes "sf_wf g" "sf_wf g'" and "sf_worker_id g' = sf_worker_id g" "sf_epoch_ms g' = sf_epoch_ms g"
    and "unat (sf_epoch_ms g) \<le> unat (sf_last_ts g)" and "sf_pos g < sf_pos g'"
  shows "id_num g < id_num g'"
proof (cases "unat (sf_last_ts g) = unat (sf_last_ts g')")
  case True
  with assms show ?thesis by (simp add: id_num_def sf_pos_def)
next
  case False
  with assms have "unat (sf_last_ts g) < unat (sf_last_ts g')" by (auto simp: sf_pos_def sf_wf_def)
  with assms have "(unat (sf_last_ts g) - unat (sf_epoch_ms g)) + 1 \<le> unat (sf_last_ts g') - unat (sf_epoch_ms g)"
    by simp
  then have "(unat (sf_last_ts g) - unat (sf_epoch_ms g) + 1) * 2 ^ 22
      \<le> (unat (sf_last_ts g') - unat (sf_epoch_ms g)) * 2 ^ 22"
    by (rule mult_le_mono1)
  then show ?thesis using assms by (simp add: id_num_def sf_wf_def)
qed

lemma div_add_small: "s < m \<Longrightarrow> (a * m + s) div m = (a :: nat)"
  by simp

lemma id_num_worker:
  assumes "sf_wf g" shows "(id_num g div 2 ^ 12) mod 2 ^ 10 = unat (sf_worker_id g)"
proof -
  let ?a = "(unat (sf_last_ts g) - unat (sf_epoch_ms g)) * 2 ^ 10 + unat (sf_worker_id g)"
  have "id_num g = ?a * 2 ^ 12 + unat (sf_sequence g)" by (simp add: id_num_def)
  then have "id_num g div 2 ^ 12 = ?a"
    using assms div_add_small [of "unat (sf_sequence g)" "2 ^ 12" ?a] by (simp only: sf_wf_def)
  then show ?thesis using assms by (simp add: sf_wf_def)
qed

text \<open>Every id a generator gives comes from one of its later states.\<close>

lemma ids_from_states:
  assumes "sf_wf g" and "clock_in_range (sf_epoch_ms g) clk" and "i \<in> set (ids clk n g k)"
  shows "\<exists>g'. sf_wf g' \<and> sf_worker_id g' = sf_worker_id g \<and> sf_epoch_ms g' = sf_epoch_ms g \<and>
    unat i = id_num g' \<and> sf_pos g < sf_pos g'"
  using assms
proof (induction clk n g k rule: ids.induct)
  case (1 clk g k)
  then show ?case by simp
next
  case (2 clk n g k)
  show ?case
  proof (cases "Next clk g k")
    case None
    with 2 show ?thesis by simp
  next
    case (Some r)
    show ?thesis
    proof (cases r)
      case (Inl e)
      with 2 Some show ?thesis by simp
    next
      case (Inr t)
      obtain j g' k' where t: "t = (j, g', k')" by (cases t) auto
      with Some Inr have nxt: "Next clk g k = Some (Inr (j, g', k'))" by simp
      note st = Next_spec [OF "2.prems"(1,2) this]
      then obtain m where m: "sf_last_ts g' = clk m" by blast
      have c': "clock_in_range (sf_epoch_ms g') clk" using st "2.prems"(2) by simp
      have "unat j = id_num g'" using unat_id [OF _ c' m] st by (simp add: id_num_def)
      moreover have "i = j \<or> i \<in> set (ids clk n g' k')" using "2.prems"(3) nxt by simp
      ultimately show ?thesis
        using "2.IH"(2) [OF Some Inr t [symmetric] refl _ c'] st by (metis order_less_trans)
    qed
  qed
qed

lemma ids_increasing:
  assumes "sf_wf g" and "clock_in_range (sf_epoch_ms g) clk"
  shows "sorted_wrt (<) (ids clk n g k)"
  using assms
proof (induction clk n g k rule: ids.induct)
  case (1 clk g k)
  then show ?case by simp
next
  case (2 clk n g k)
  show ?case
  proof (cases "Next clk g k")
    case None
    then show ?thesis by simp
  next
    case (Some r)
    show ?thesis
    proof (cases r)
      case (Inl e)
      with 2 Some show ?thesis by simp
    next
      case (Inr t)
      obtain j g' k' where t: "t = (j, g', k')" by (cases t) auto
      with Some Inr have nxt: "Next clk g k = Some (Inr (j, g', k'))" by simp
      note st = Next_spec [OF "2.prems" this]
      then obtain m where m: "sf_last_ts g' = clk m" by blast
      have c': "clock_in_range (sf_epoch_ms g') clk" using st "2.prems"(2) by simp
      have j: "unat j = id_num g'" using unat_id [OF _ c' m] st by (simp add: id_num_def)
      have "j < x" if "x \<in> set (ids clk n g' k')" for x
      proof -
        from ids_from_states [OF _ c' that] st obtain h where
          "sf_wf h" "sf_worker_id h = sf_worker_id g'" "sf_epoch_ms h = sf_epoch_ms g'"
          "unat x = id_num h" "sf_pos g' < sf_pos h" by blast
        moreover have "unat (sf_epoch_ms g') \<le> unat (sf_last_ts g')"
          using c' by (simp add: m clock_in_range_def)
        ultimately show ?thesis using id_num_mono [of g' h] st j by (simp add: word_less_nat_alt)
      qed
      then show ?thesis using "2.IH"(2) [OF Some Inr t [symmetric] refl _ c'] st nxt by simp
    qed
  qed
qed

lemma SnowflakeId_wf:
  "SnowflakeId w epoch wait = Inr g \<Longrightarrow> sf_wf g \<and> sf_worker_id g = w \<and> sf_epoch_ms g = epoch"
  by (auto simp: SnowflakeId_def sf_wf_def kMaxWorkerId_def word_le_nat_alt not_less split: if_splits)

lemma ids_of_two_workers:
  assumes "SnowflakeId w epoch wait = Inr g" and "SnowflakeId w' epoch wait' = Inr g'" and "w \<noteq> w'"
    and "clock_in_range epoch clk" and "clock_in_range epoch clk'"
  shows "set (ids clk n g k) \<inter> set (ids clk' n' g' k') = {}"
proof -
  note g = SnowflakeId_wf [OF assms(1)] and g' = SnowflakeId_wf [OF assms(2)]
  have "i \<noteq> i'" if i: "i \<in> set (ids clk n g k)" "i' \<in> set (ids clk' n' g' k')" for i i'
  proof
    assume "i = i'"
    moreover obtain h where h: "sf_wf h" "sf_worker_id h = w" "unat i = id_num h"
      using ids_from_states [OF _ _ i(1)] g assms(4) by blast
    moreover obtain h' where "sf_wf h'" "sf_worker_id h' = w'" "unat i' = id_num h'"
      using ids_from_states [OF _ _ i(2)] g' assms(5) by blast
    ultimately have "unat w = unat w'" using id_num_worker by metis
    with assms(3) show False by (metis word_unat_eq_iff)
  qed
  then show ?thesis by auto
qed

text \<open>Claim C21. Message ids. Take any number of calls of generators made with valid worker ids, with
  clocks that run forwards, backwards or stand still, as long as each reading stays within 42
  bits of the epoch. The ids one generator hands out are strictly increasing, and generators with
  different worker ids never hand out the same id.\<close>

theorem snowflake_ids_unique:
  assumes "SnowflakeId w epoch wait = Inr g" and "SnowflakeId w' epoch wait' = Inr g'" and "w \<noteq> w'"
    and "clock_in_range epoch clk" and "clock_in_range epoch clk'"
  shows "sorted_wrt (<) (ids clk n g k) \<and> set (ids clk n g k) \<inter> set (ids clk' n' g' k') = {}"
  using ids_increasing [of g clk n k] SnowflakeId_wf [OF assms(1)] assms(4) ids_of_two_workers [OF assms] by auto

text \<open>Claim C36. A call returns or throws once the clock later shows a time after the last one
  used: neither the wait after a clock step backwards nor the wait for the next millisecond
  after 4096 ids lasts longer, whatever the readings in between.\<close>

theorem snowflake_next_returns:
  assumes "k < j" and "sf_last_ts g < clk j"
  shows "\<exists>r. Next clk g k = Some r"
proof -
  have step: "\<exists>r. Next_at clk g now m = Some r" if "m \<le> j \<or> now \<noteq> sf_last_ts g" for now m
  proof (cases "m \<le> j")
    case True
    then show ?thesis
      using WaitUntil_returns [of m j "sf_last_ts g + 1" clk] inc_le [OF assms(2)]
      by (auto simp: Next_at_def Let_def)
  next
    case False
    with that show ?thesis by (simp add: Next_at_def)
  qed
  obtain m where m: "m \<le> j" "WaitUntil clk (sf_last_ts g) (Suc k) = Some (clk m, Suc m)"
    using WaitUntil_returns [of "Suc k" j "sf_last_ts g" clk] assms(1) less_imp_le [OF assms(2)] by auto
  have "Suc m \<le> j \<or> clk m \<noteq> sf_last_ts g" using m(1) assms(2) by (cases "m = j") auto
  then show ?thesis
    using step [of "Suc m" "clk m"] step [of "Suc k" "clk k"] m assms(1)
    by (auto simp: Next_def Let_def)
qed

section \<open>Witnesses\<close>

definition demo_gen :: "u64 \<Rightarrow> snowflake" where
  "demo_gen w = \<lparr>sf_worker_id = w, sf_epoch_ms = 1735689600000, sf_wait_on_clock_backwards = True,
     sf_last_ts = 0, sf_sequence = 0\<rparr>"

definition demo_clock :: clock where
  "demo_clock k = 1735689600005"

lemma demo_clock_range: "clock_in_range 1735689600000 demo_clock"
  by (simp add: clock_in_range_def demo_clock_def)

lemma demo_gen_made: "w = 1 \<or> w = 2 \<Longrightarrow> SnowflakeId w 1735689600000 True = Inr (demo_gen w)"
  by (auto simp: SnowflakeId_def demo_gen_def kMaxWorkerId_def)

theorem snowflake_ids_unique_witness:
  "ids demo_clock (Suc (Suc 0)) (demo_gen 1) 0 = [20975616, 20975617] \<and>
   set (ids demo_clock (Suc (Suc 0)) (demo_gen 1) 0) \<inter> set (ids demo_clock (Suc (Suc 0)) (demo_gen 2) 0) = {}"
proof -
  have "ids demo_clock (Suc (Suc 0)) (demo_gen 1) 0 = [20975616, 20975617]"
    by (simp add: Next_def Next_at_def demo_clock_def demo_gen_def Compose_def
        kMaxSequence_def Let_def)
  then show ?thesis
    using snowflake_ids_unique [OF demo_gen_made demo_gen_made _ demo_clock_range demo_clock_range,
        of 1 2 "Suc (Suc 0)" 0 "Suc (Suc 0)" 0] by simp
qed

theorem snowflake_next_returns_witness: "\<exists>r. Next (\<lambda>k. of_nat k) (demo_gen 1) 0 = Some r"
  by (rule snowflake_next_returns [of 0 1]) (simp_all add: demo_gen_def)

end
