(* ===== verification/Reliability_State.thy ===== *)
theory Reliability_State
  imports Members_Cache
begin

text \<open>
  common/utils/reliability_state.hpp: the value kept under a client message id's idempotency
  key, its text form, and the key itself. Shown: the text form is read back exactly; a text is
  read as accepted or persisted only when it is the prefix followed by the decimal digits of a
  64-bit number that is not zero; keys of different pairs differ when user ids hold no colon.
\<close>

datatype IdempotencyStatus = Idem_Empty | Pending | Accepted | Persisted | Corrupt

record idempotency_state =
  idem_status :: IdempotencyStatus
  idem_message_id :: u64

definition mk_idem :: "IdempotencyStatus \<Rightarrow> u64 \<Rightarrow> idempotency_state" where
  "mk_idem st i = \<lparr>idem_status = st, idem_message_id = i\<rparr>"

lemma mk_idem_sel [simp]: "idem_status (mk_idem st i) = st" "idem_message_id (mk_idem st i) = i"
  by (simp_all add: mk_idem_def)

text \<open>\<open>std::stoull\<close> on a string of digits: a value of 65 bits or more is out of range.\<close>

definition stoull_digits :: "string \<Rightarrow> u64 option" where
  "stoull_digits ds = (if digits_val ds < 2 ^ 64 then Some (of_nat (digits_val ds)) else None)"

definition has_prefix :: "string \<Rightarrow> string \<Rightarrow> bool" where
  "has_prefix p s = (take (length p) s = p)"

definition parse_with_prefix :: "string \<Rightarrow> string \<Rightarrow> IdempotencyStatus \<Rightarrow> idempotency_state" where
  "parse_with_prefix value prefix status =
     (if \<not> has_prefix prefix value then mk_idem Idem_Empty 0
      else let raw_id = drop (length prefix) value in
        if raw_id = [] \<or> \<not> list_all is_digit raw_id then mk_idem Corrupt 0
        else case stoull_digits raw_id of
               None \<Rightarrow> mk_idem Corrupt 0
             | Some i \<Rightarrow> if i = 0 then mk_idem Corrupt 0 else mk_idem status i)"

definition parse_idempotency_state :: "string \<Rightarrow> idempotency_state" where
  "parse_idempotency_state value =
     (if value = [] then mk_idem Idem_Empty 0
      else if value = ''pending'' then mk_idem Pending 0
      else let accepted = parse_with_prefix value ''accepted:'' Accepted in
        if idem_status accepted \<noteq> Idem_Empty then accepted
        else let persisted = parse_with_prefix value ''persisted:'' Persisted in
          if idem_status persisted \<noteq> Idem_Empty then persisted
          else mk_idem Corrupt 0)"

fun serialize_status :: "IdempotencyStatus \<Rightarrow> u64 \<Rightarrow> string" where
  "serialize_status Pending i = ''pending''"
| "serialize_status Accepted i = ''accepted:'' @ u64_to_string i"
| "serialize_status Persisted i = ''persisted:'' @ u64_to_string i"
| "serialize_status Idem_Empty i = ''''"
| "serialize_status Corrupt i = ''''"

definition serialize_idempotency_state :: "idempotency_state \<Rightarrow> string" where
  "serialize_idempotency_state st = serialize_status (idem_status st) (idem_message_id st)"

definition idempotency_key_for :: "uid \<Rightarrow> string \<Rightarrow> string" where
  "idempotency_key_for uid client_msg_id = ''im:msg:idem:'' @ uid @ '':'' @ client_msg_id"

section \<open>Reading back\<close>

lemma stoull_u64_to_string: "stoull_digits (u64_to_string i) = Some i"
  using unat_u64 [of i] by (simp add: stoull_digits_def u64_to_string_def)

lemma u64_to_string_digits: "u64_to_string i \<noteq> [] \<and> list_all is_digit (u64_to_string i)"
  by (simp add: u64_to_string_def nat_to_string_digits)

lemma parse_prefixed:
  "parse_with_prefix (p @ u64_to_string i) p st = (if i = 0 then mk_idem Corrupt 0 else mk_idem st i)"
  using u64_to_string_digits [of i]
  by (simp add: parse_with_prefix_def has_prefix_def stoull_u64_to_string)

lemma has_prefix_append: "has_prefix p s \<longleftrightarrow> (\<exists>r. s = p @ r)"
  unfolding has_prefix_def by (metis append_eq_conv_conj append_take_drop_id)

lemma parse_with_prefix_status:
  "idem_status (parse_with_prefix v p st) = st \<Longrightarrow> st \<noteq> Idem_Empty \<Longrightarrow> st \<noteq> Corrupt \<Longrightarrow>
    \<exists>ds. v = p @ ds \<and> ds \<noteq> [] \<and> list_all is_digit ds \<and> 0 < digits_val ds \<and> digits_val ds < 2 ^ 64 \<and>
      parse_with_prefix v p st = mk_idem st (of_nat (digits_val ds))"
proof -
  assume r: "idem_status (parse_with_prefix v p st) = st" and st: "st \<noteq> Idem_Empty" "st \<noteq> Corrupt"
  have "has_prefix p v" using r st(1) by (auto simp: parse_with_prefix_def mk_idem_def split: if_splits)
  then obtain ds where v: "v = p @ ds" by (auto simp: has_prefix_append)
  have ds: "ds \<noteq> []" "list_all is_digit ds" "digits_val ds < 2 ^ 64" "(of_nat (digits_val ds) :: u64) \<noteq> 0"
    and "parse_with_prefix v p st = mk_idem st (of_nat (digits_val ds))"
    using r st by (auto simp: v parse_with_prefix_def has_prefix_def mk_idem_def stoull_digits_def
        split: if_splits)
  moreover have "0 < digits_val ds" using ds(4) by (cases "digits_val ds") auto
  ultimately show ?thesis using v by blast
qed

lemma parse_with_prefix_cases:
  "idem_status (parse_with_prefix v p st) \<in> {Idem_Empty, Corrupt, st}"
  by (auto simp: parse_with_prefix_def mk_idem_def Let_def split: if_splits option.splits)

lemma parse_with_prefix_empty: "parse_with_prefix v p Accepted = mk_idem Idem_Empty 0 \<longleftrightarrow> \<not> has_prefix p v"
  by (auto simp: parse_with_prefix_def mk_idem_def Let_def split: if_splits option.splits)

lemma parse_serialize:
  "parse_idempotency_state (serialize_idempotency_state (mk_idem Pending 0)) = mk_idem Pending 0"
  "i \<noteq> 0 \<Longrightarrow> parse_idempotency_state (serialize_idempotency_state (mk_idem Accepted i)) = mk_idem Accepted i"
  "i \<noteq> 0 \<Longrightarrow> parse_idempotency_state (serialize_idempotency_state (mk_idem Persisted i)) = mk_idem Persisted i"
proof -
  show "parse_idempotency_state (serialize_idempotency_state (mk_idem Pending 0)) = mk_idem Pending 0"
    by (simp add: parse_idempotency_state_def serialize_idempotency_state_def mk_idem_def)
  show "parse_idempotency_state (serialize_idempotency_state (mk_idem Accepted i)) = mk_idem Accepted i"
    if "i \<noteq> 0"
    using that parse_prefixed [of "''accepted:''" i Accepted]
    by (simp add: parse_idempotency_state_def serialize_idempotency_state_def mk_idem_def)
  have "idem_status (parse_with_prefix (''persisted:'' @ u64_to_string i) ''accepted:'' Accepted) = Idem_Empty"
    by (simp add: parse_with_prefix_def has_prefix_def mk_idem_def)
  then show "parse_idempotency_state (serialize_idempotency_state (mk_idem Persisted i)) = mk_idem Persisted i"
    if "i \<noteq> 0"
    using that parse_prefixed [of "''persisted:''" i Persisted]
    by (simp add: parse_idempotency_state_def serialize_idempotency_state_def mk_idem_def)
qed

text \<open>The idempotency value. Writing a state with a message id that is not zero and reading
  it back gives the same state, and reading any text as accepted or persisted is possible only
  for the prefix followed by the digits of a 64-bit number that is not zero: no other text makes the
  service report a message as already sent.\<close>

theorem idempotency_state_roundtrip:
  "parse_idempotency_state (serialize_idempotency_state (mk_idem Pending 0)) = mk_idem Pending 0
   \<and> (i \<noteq> 0 \<longrightarrow> st = Accepted \<or> st = Persisted \<longrightarrow>
        parse_idempotency_state (serialize_idempotency_state (mk_idem st i)) = mk_idem st i)
   \<and> (idem_status (parse_idempotency_state v) = Accepted \<longrightarrow>
        (\<exists>ds. v = ''accepted:'' @ ds \<and> list_all is_digit ds \<and> 0 < digits_val ds \<and> digits_val ds < 2 ^ 64 \<and>
           parse_idempotency_state v = mk_idem Accepted (of_nat (digits_val ds))))
   \<and> (idem_status (parse_idempotency_state v) = Persisted \<longrightarrow>
        (\<exists>ds. v = ''persisted:'' @ ds \<and> list_all is_digit ds \<and> 0 < digits_val ds \<and> digits_val ds < 2 ^ 64 \<and>
           parse_idempotency_state v = mk_idem Persisted (of_nat (digits_val ds))))"
proof (intro conjI impI)
  show "parse_idempotency_state (serialize_idempotency_state (mk_idem Pending 0)) = mk_idem Pending 0"
    by (rule parse_serialize(1))
next
  assume "i \<noteq> 0" and "st = Accepted \<or> st = Persisted"
  then show "parse_idempotency_state (serialize_idempotency_state (mk_idem st i)) = mk_idem st i"
    using parse_serialize(2,3) by blast
next
  assume "idem_status (parse_idempotency_state v) = Accepted"
  moreover have "idem_status (parse_with_prefix v ''persisted:'' Persisted) \<noteq> Accepted"
    using parse_with_prefix_cases [of v "''persisted:''" Persisted] by auto
  ultimately have "idem_status (parse_with_prefix v ''accepted:'' Accepted) = Accepted"
    "parse_idempotency_state v = parse_with_prefix v ''accepted:'' Accepted"
    by (auto simp: parse_idempotency_state_def mk_idem_def Let_def split: if_splits)
  then show "\<exists>ds. v = ''accepted:'' @ ds \<and> list_all is_digit ds \<and> 0 < digits_val ds \<and> digits_val ds < 2 ^ 64 \<and>
           parse_idempotency_state v = mk_idem Accepted (of_nat (digits_val ds))"
    using parse_with_prefix_status [of v "''accepted:''" Accepted] by auto
next
  assume "idem_status (parse_idempotency_state v) = Persisted"
  moreover have "idem_status (parse_with_prefix v ''accepted:'' Accepted) \<noteq> Persisted"
    using parse_with_prefix_cases [of v "''accepted:''" Accepted] by auto
  ultimately have "idem_status (parse_with_prefix v ''persisted:'' Persisted) = Persisted"
    "parse_idempotency_state v = parse_with_prefix v ''persisted:'' Persisted"
    by (auto simp: parse_idempotency_state_def mk_idem_def Let_def split: if_splits)
  then show "\<exists>ds. v = ''persisted:'' @ ds \<and> list_all is_digit ds \<and> 0 < digits_val ds \<and> digits_val ds < 2 ^ 64 \<and>
           parse_idempotency_state v = mk_idem Persisted (of_nat (digits_val ds))"
    using parse_with_prefix_status [of v "''persisted:''" Persisted] by auto
qed

theorem idempotency_state_roundtrip_witness:
  "serialize_idempotency_state (mk_idem Accepted 42) = ''accepted:42'' \<and>
   parse_idempotency_state ''accepted:42'' = mk_idem Accepted 42"
proof -
  have s: "serialize_idempotency_state (mk_idem Accepted 42) = ''accepted:42''"
    by code_simp
  then show ?thesis
    using idempotency_state_roundtrip [of 42 Accepted "''accepted:42''"] by simp
qed

lemma idempotency_key_inject:
  assumes "CHR '':'' \<notin> set u" and "CHR '':'' \<notin> set u'"
  shows "idempotency_key_for u c = idempotency_key_for u' c' \<longleftrightarrow> u = u' \<and> c = c'"
proof -
  have "takeWhile (\<lambda>x. x \<noteq> CHR '':'') (v @ '':'' @ d) = v" if "CHR '':'' \<notin> set v" for v d
    using that by (induction v) auto
  then have "u @ '':'' @ c = u' @ '':'' @ c' \<Longrightarrow> u = u'" using assms by metis
  then show ?thesis by (auto simp: idempotency_key_for_def)
qed

end
