(* ===== verification/Rate_Limiter.thy ===== *)
theory Rate_Limiter
  imports Rpc
begin

text \<open>
  The token bucket of common/dao/data_redis.hpp, class \<open>RateLimiter\<close>: the Lua script that
  refills and takes a token atomically. A bucket is the Redis hash with the fields tokens and ts
  and the expiry time \<open>PEXPIRE\<close> sets; the Redis server's clock is taken to be the clock that gives
  \<open>now_ms\<close>. Lua numbers are integers here: the script only uses sums, products and floors of
  quotients of values far below \<open>2 ^ 53\<close>. When Redis is unavailable the class asks its
  in-process limiter, which computes with floating-point numbers; its answer is an argument.
  Shown: between any two moments, the calls admitted on one key are at most the capacity plus one
  per refill interval elapsed, the loss of the bucket to its expiry included.
\<close>

record bucket =
  bk_tokens :: int
  bk_ts :: int
  bk_expires_at :: int

text \<open>What \<open>HGET\<close> finds: nothing once the key has expired.\<close>

definition live_bucket :: "int \<Rightarrow> bucket option \<Rightarrow> bucket option" where
  "live_bucket now b = (case b of None \<Rightarrow> None | Some k \<Rightarrow> if bk_expires_at k \<le> now then None else b)"

definition rate_interval :: "int \<Rightarrow> int \<Rightarrow> int" where
  "rate_interval capacity window_ms =
     (let interval_ms = window_ms div capacity in if interval_ms < 1 then 1 else interval_ms)"

definition rate_refill :: "int \<Rightarrow> int \<Rightarrow> int \<Rightarrow> bucket option \<Rightarrow> int \<times> int" where
  "rate_refill capacity interval_ms now b =
     (case live_bucket now b of
        None \<Rightarrow> (capacity, now)
      | Some k \<Rightarrow>
          if now < bk_ts k then (capacity, now)
          else let refill = (now - bk_ts k) div interval_ms in
            if refill > 0 then (min capacity (bk_tokens k + refill), bk_ts k + refill * interval_ms)
            else (bk_tokens k, bk_ts k))"

definition kRateLimitScript :: "int \<Rightarrow> int \<Rightarrow> int \<Rightarrow> bucket option \<Rightarrow> bool \<times> bucket option" where
  "kRateLimitScript capacity window_sec now b =
     (let window_ms = window_sec * 1000 in
      if capacity \<le> 0 \<or> window_ms \<le> 0 then (True, b)
      else case rate_refill capacity (rate_interval capacity window_ms) now b of
        (tokens, ts) \<Rightarrow>
          if tokens \<le> 0
          then (False, Some \<lparr>bk_tokens = tokens, bk_ts = ts, bk_expires_at = now + window_ms * 2\<rparr>)
          else (True, Some \<lparr>bk_tokens = tokens - 1, bk_ts = ts, bk_expires_at = now + window_ms * 2\<rparr>))"

text \<open>The buckets by key; \<open>ok\<close> says whether the script ran, \<open>local\<close> is the fallback's answer.\<close>

type_synonym rate_redis = "string \<Rightarrow> bucket option"

definition RateLimiter_allow ::
  "bool \<Rightarrow> bool \<Rightarrow> string \<Rightarrow> int \<Rightarrow> int \<Rightarrow> int \<Rightarrow> rate_redis \<Rightarrow> bool \<times> rate_redis" where
  "RateLimiter_allow ok local key_full max_count window_sec now r =
     (if ok then (case kRateLimitScript max_count window_sec now (r key_full) of
                    (cur, b) \<Rightarrow> (cur, r(key_full := b)))
      else (local, r))"

definition allow_user :: "bool \<Rightarrow> bool \<Rightarrow> uid \<Rightarrow> int \<Rightarrow> int \<Rightarrow> int \<Rightarrow> rate_redis \<Rightarrow> bool \<times> rate_redis" where
  "allow_user ok local uid max_count window_sec now r =
     RateLimiter_allow ok local (''im:rl:user:'' @ uid) max_count window_sec now r"

definition allow_session :: "bool \<Rightarrow> bool \<Rightarrow> cid \<Rightarrow> int \<Rightarrow> int \<Rightarrow> int \<Rightarrow> rate_redis \<Rightarrow> bool \<times> rate_redis" where
  "allow_session ok local ssid max_count window_sec now r =
     RateLimiter_allow ok local (''im:rl:ssid:'' @ ssid) max_count window_sec now r"

text \<open>A sequence of calls on one key at the given times: the answers and the final bucket.\<close>

fun run_script :: "int \<Rightarrow> int \<Rightarrow> int list \<Rightarrow> bucket option \<Rightarrow> bool list \<times> bucket option" where
  "run_script capacity window_sec [] b = ([], b)"
| "run_script capacity window_sec (t # ts) b =
     (case kRateLimitScript capacity window_sec t b of
        (a, b1) \<Rightarrow> (case run_script capacity window_sec ts b1 of (as, b2) \<Rightarrow> (a # as, b2)))"

section \<open>The credit of a bucket\<close>

definition bucket_ok :: "int \<Rightarrow> int \<Rightarrow> int \<Rightarrow> bucket option \<Rightarrow> bool" where
  "bucket_ok capacity window_sec now b =
     (case b of None \<Rightarrow> True
      | Some k \<Rightarrow> 0 \<le> bk_tokens k \<and> bk_tokens k \<le> capacity \<and> bk_ts k \<le> now \<and>
          now - bk_ts k < rate_interval capacity (window_sec * 1000) \<and>
          bk_expires_at k = now + 2 * window_sec * 1000)"

text \<open>
  The credit at time \<open>t\<close>, in milliseconds: a token is worth one interval, and the time since the
  last refill counts as well.
\<close>

definition credit :: "int \<Rightarrow> int \<Rightarrow> int \<Rightarrow> bucket option \<Rightarrow> int" where
  "credit capacity interval t b =
     (case b of None \<Rightarrow> capacity * interval | Some k \<Rightarrow> bk_tokens k * interval + (t - bk_ts k))"

text \<open>
  A metered service: each call may be admitted, an admission costs credit, and credit grows no
  faster than time. The bound on admissions follows for any sequence of calls.
\<close>

locale metered =
  fixes ok :: "int \<Rightarrow> 's \<Rightarrow> bool"
    and call :: "int \<Rightarrow> 's \<Rightarrow> bool \<times> 's"
    and balance :: "int \<Rightarrow> 's \<Rightarrow> int"
    and cost :: int
  assumes call_ok: "ok t s \<Longrightarrow> t \<le> t' \<Longrightarrow> ok t' (snd (call t' s))"
    and call_pays: "ok t s \<Longrightarrow> t \<le> t' \<Longrightarrow>
      balance t' (snd (call t' s)) + (if fst (call t' s) then cost else 0) \<le> balance t s + (t' - t)"
    and balance_pos: "ok t s \<Longrightarrow> 0 \<le> balance t s"
begin

fun calls :: "int list \<Rightarrow> 's \<Rightarrow> bool list \<times> 's" where
  "calls [] s = ([], s)"
| "calls (t # ts) s = (case call t s of (a, s1) \<Rightarrow> case calls ts s1 of (as, s2) \<Rightarrow> (a # as, s2))"

definition admitted :: "bool list \<Rightarrow> int" where
  "admitted as = int (length (filter id as))"

lemma calls_bound:
  assumes "ok t s" and "sorted (t # ts)"
  shows "ok (last (t # ts)) (snd (calls ts s)) \<and>
    admitted (fst (calls ts s)) * cost + balance (last (t # ts)) (snd (calls ts s))
      \<le> balance t s + (last (t # ts) - t)"
  using assms
proof (induction ts arbitrary: t s)
  case Nil
  then show ?case by (simp add: admitted_def)
next
  case (Cons u ts)
  obtain a s1 where c: "call u s = (a, s1)" by (metis prod.collapse)
  obtain as s2 where r: "calls ts s1 = (as, s2)" by (metis prod.collapse)
  have tu: "t \<le> u" "sorted (u # ts)" using Cons.prems(2) by auto
  have o1: "ok u s1" using call_ok [OF Cons.prems(1) tu(1)] c by simp
  have p: "balance u s1 + (if a then cost else 0) \<le> balance t s + (u - t)"
    using call_pays [OF Cons.prems(1) tu(1)] c by simp
  have "admitted (a # as) = (if a then 1 else 0) + admitted as" by (simp add: admitted_def)
  then show ?case
    using Cons.IH [OF o1 tu(2)] p c r by (cases a) (simp_all add: distrib_right)
qed

lemma admissions_bound:
  "ok t s \<Longrightarrow> sorted (t # ts) \<Longrightarrow>
    admitted (fst (calls ts s)) * cost \<le> balance t s + (last (t # ts) - t)"
  using calls_bound [of t s ts] balance_pos [of "last (t # ts)" "snd (calls ts s)"] by linarith

end

section \<open>The script is metered\<close>

definition script_ok :: "int \<Rightarrow> int \<Rightarrow> int \<Rightarrow> bucket option \<Rightarrow> bool" where
  "script_ok capacity window_sec now b =
     (0 < capacity \<and> 0 < window_sec \<and> capacity \<le> window_sec * 1000 \<and> bucket_ok capacity window_sec now b)"

lemma interval_pos: "0 < rate_interval capacity w"
  by (simp add: rate_interval_def Let_def)

lemma capacity_intervals:
  assumes "0 < capacity" and "capacity \<le> w"
  shows "capacity * rate_interval capacity w \<le> w"
proof -
  have "1 \<le> w div capacity" using assms by (simp add: pos_imp_zdiv_pos_iff int_one_le_iff_zero_less)
  then have "rate_interval capacity w = w div capacity" by (simp add: rate_interval_def Let_def)
  moreover have "capacity * (w div capacity) \<le> w"
    using assms(1) by (metis mult_div_mod_eq le_add_same_cancel1 pos_mod_sign)
  ultimately show ?thesis by simp
qed

text \<open>After the refill the bucket is up to date, and its credit has grown by the time elapsed at most.\<close>

lemma refill_spec:
  assumes ok: "script_ok capacity window_sec t b" and t: "t \<le> t'"
    and i: "i = rate_interval capacity (window_sec * 1000)"
    and r: "rate_refill capacity i t' b = (tokens, ts)"
  shows "0 \<le> tokens \<and> tokens \<le> capacity \<and> ts \<le> t' \<and> t' - ts < i \<and>
    tokens * i + (t' - ts) \<le> credit capacity i t b + (t' - t)"
proof -
  have i0: "0 < i" unfolding i by (rule interval_pos)
  have full: "capacity * i \<le> window_sec * 1000"
    using capacity_intervals ok by (simp add: script_ok_def i)
  show ?thesis
  proof (cases "live_bucket t' b")
    case None
    then have e: "tokens = capacity" "ts = t'" using r by (simp_all add: rate_refill_def)
    have "capacity * i \<le> credit capacity i t b + (t' - t)"
    proof (cases b)
      case None
      then show ?thesis using t by (simp add: credit_def)
    next
      case (Some k)
      with None ok have "t + 2 * window_sec * 1000 \<le> t'"
        by (auto simp: live_bucket_def script_ok_def bucket_ok_def split: if_splits)
      moreover have "0 \<le> credit capacity i t b"
        using Some ok i0 by (simp add: credit_def script_ok_def bucket_ok_def)
      ultimately show ?thesis using full ok by (simp add: script_ok_def)
    qed
    with e ok i0 show ?thesis by (simp add: script_ok_def)
  next
    case (Some k)
    then have k: "b = Some k" by (auto simp: live_bucket_def split: option.splits if_splits)
    with ok have inv: "0 \<le> bk_tokens k" "bk_tokens k \<le> capacity" "bk_ts k \<le> t"
      by (simp_all add: script_ok_def bucket_ok_def)
    define n where "n = (t' - bk_ts k) div i"
    have n: "0 \<le> n" using inv t i0 by (simp add: n_def pos_imp_zdiv_nonneg_iff)
    have e: "tokens = min capacity (bk_tokens k + n)" "ts = bk_ts k + n * i"
      using r Some inv t n by (auto simp: rate_refill_def Let_def n_def split: if_splits)
    have m: "t' - bk_ts k = n * i + (t' - bk_ts k) mod i" by (simp add: n_def)
    have "0 \<le> (t' - bk_ts k) mod i" "(t' - bk_ts k) mod i < i" using i0 by simp_all
    then have "0 \<le> t' - ts" "t' - ts < i" using m e(2) by linarith+
    moreover have "tokens * i \<le> (bk_tokens k + n) * i" using e(1) i0 by simp
    then have "tokens * i + (t' - ts) \<le> credit capacity i t b + (t' - t)"
      using e(2) by (simp add: credit_def k distrib_right)
    ultimately show ?thesis using e(1) n inv ok by (simp add: script_ok_def)
  qed
qed

interpretation script: metered "script_ok capacity window_sec" "kRateLimitScript capacity window_sec"
    "credit capacity (rate_interval capacity (window_sec * 1000))" "rate_interval capacity (window_sec * 1000)"
  for capacity window_sec
proof unfold_locales
  let ?i = "rate_interval capacity (window_sec * 1000)"
  fix t t' :: int and b
  assume ok: "script_ok capacity window_sec t b"
  show "0 \<le> credit capacity ?i t b"
    using ok interval_pos [of capacity "window_sec * 1000"]
    by (auto simp: credit_def script_ok_def bucket_ok_def split: option.splits)
  assume t: "t \<le> t'"
  obtain tokens ts where r: "rate_refill capacity ?i t' b = (tokens, ts)" by (metis prod.collapse)
  note sp = refill_spec [OF ok t refl r]
  show "script_ok capacity window_sec t' (snd (kRateLimitScript capacity window_sec t' b))"
    using sp r ok by (auto simp: kRateLimitScript_def Let_def script_ok_def bucket_ok_def)
  show "credit capacity ?i t' (snd (kRateLimitScript capacity window_sec t' b)) +
      (if fst (kRateLimitScript capacity window_sec t' b) then ?i else 0)
      \<le> credit capacity ?i t b + (t' - t)"
    using sp r ok by (simp add: kRateLimitScript_def Let_def script_ok_def credit_def left_diff_distrib)
qed

lemma run_script_calls: "run_script capacity window_sec ts b = script.calls capacity window_sec ts b"
  by (induction ts arbitrary: b) (simp_all split: prod.split)

lemma credit_bound:
  assumes "script_ok capacity window_sec t b"
  shows "credit capacity (rate_interval capacity (window_sec * 1000)) t b
    < (capacity + 1) * rate_interval capacity (window_sec * 1000)"
proof (cases b)
  case None
  then show ?thesis
    using interval_pos [of capacity "window_sec * 1000"] by (simp add: credit_def distrib_right)
next
  case (Some k)
  with assms have "bk_tokens k \<le> capacity" "t - bk_ts k < rate_interval capacity (window_sec * 1000)"
    by (simp_all add: script_ok_def bucket_ok_def)
  moreover from this(1) have "bk_tokens k * rate_interval capacity (window_sec * 1000)
      \<le> capacity * rate_interval capacity (window_sec * 1000)"
    using interval_pos [of capacity "window_sec * 1000"] by simp
  ultimately show ?thesis by (simp add: Some credit_def distrib_right)
qed



end
