(* ===== verification/User_Info_Cache.thy ===== *)
theory User_Info_Cache
  imports Members_Cache
begin

text \<open>
  The Redis cache of serialized user profiles: class \<open>UserInfoCache\<close> of
  common/dao/data_redis.hpp. A profile key is written only when the generation key still has the
  value the writer read before it asked the identity service; an invalidation increments the
  generation and drops the profile in one script. The empty string stands for a user known not to
  exist. Generations are compared as numbers, which Lua does exactly below \<open>2 ^ 53\<close>.
  Shown: a profile that was fetched before an invalidation is neither written to Redis nor
  published in the process-local cache after it.
\<close>

datatype GenerationWriteResult = Committed | Conflict | Unavailable

datatype UserInfoL1Publication = GenerationFenced | Denied | ShortLivedFallback

fun user_info_l1_publication :: "GenerationWriteResult \<Rightarrow> UserInfoL1Publication" where
  "user_info_l1_publication Committed = GenerationFenced"
| "user_info_l1_publication Conflict = Denied"
| "user_info_l1_publication Unavailable = ShortLivedFallback"

text \<open>\<open>execute_generation_write\<close>: the script's reply, \<open>None\<close> when Redis raised.\<close>

definition execute_generation_write :: "bool \<Rightarrow> int option \<Rightarrow> GenerationWriteResult" where
  "execute_generation_write redis_available reply =
     (if \<not> redis_available then Unavailable
      else case reply of
             None \<Rightarrow> Unavailable
           | Some n \<Rightarrow> if n = 0 then Conflict else Committed)"

definition publish_user_info_l1 ::
  "GenerationWriteResult \<Rightarrow> (UserInfoL1Publication \<Rightarrow> 'c \<Rightarrow> 'c) \<Rightarrow> 'c \<Rightarrow> 'c" where
  "publish_user_info_l1 result publish c =
     (let publication = user_info_l1_publication result
      in if publication = Denied then c else publish publication c)"

record user_info_redis =
  ur_value :: "uid \<Rightarrow> string option"
  ur_generation :: "uid \<Rightarrow> string option"

definition empty_user_info_redis :: user_info_redis where
  "empty_user_info_redis = \<lparr>ur_value = (\<lambda>_. None), ur_generation = (\<lambda>_. None)\<rparr>"

definition UserInfoCache_get :: "bool \<Rightarrow> uid \<Rightarrow> user_info_redis \<Rightarrow> string option" where
  "UserInfoCache_get ok uid r = (if ok then ur_value r uid else None)"

text \<open>\<open>std::stoull\<close>: white space, an optional sign, digits; \<open>None\<close> when it throws.\<close>

definition stoull_signed :: "bool \<Rightarrow> string \<Rightarrow> u64 option" where
  "stoull_signed neg s =
     (let ds = takeWhile is_digit s
      in if ds = [] \<or> digits_val ds \<ge> 2 ^ 64 then None
         else Some (if neg then - of_nat (digits_val ds) else of_nat (digits_val ds)))"

definition stoull :: "string \<Rightarrow> u64 option" where
  "stoull s =
     (case dropWhile is_space s of
        [] \<Rightarrow> None
      | c # cs \<Rightarrow> if c = CHR ''-'' then stoull_signed True cs
                  else if c = CHR ''+'' then stoull_signed False cs
                  else stoull_signed False (c # cs))"

definition UserInfoCache_generation :: "bool \<Rightarrow> uid \<Rightarrow> user_info_redis \<Rightarrow> u64 option" where
  "UserInfoCache_generation ok uid r =
     (if \<not> ok then None
      else case ur_generation r uid of None \<Rightarrow> Some 0 | Some raw \<Rightarrow> stoull raw)"

text \<open>\<open>tonumber\<close> of a generation; anything but digits compares unequal to every number.\<close>

definition lua_generation :: "uid \<Rightarrow> user_info_redis \<Rightarrow> nat option" where
  "lua_generation uid r =
     (case ur_generation r uid of
        None \<Rightarrow> Some 0
      | Some raw \<Rightarrow> if raw \<noteq> [] \<and> list_all is_digit raw then Some (digits_val raw) else None)"

definition UserInfoCache_set_if_generation ::
  "bool \<Rightarrow> uid \<Rightarrow> string \<Rightarrow> u64 \<Rightarrow> user_info_redis \<Rightarrow> GenerationWriteResult \<times> user_info_redis" where
  "UserInfoCache_set_if_generation ok uid serialized expected r =
     (if \<not> ok then (execute_generation_write True None, r)
      else if lua_generation uid r \<noteq> Some (unat expected) then (execute_generation_write True (Some 0), r)
      else (execute_generation_write True (Some 1), r\<lparr>ur_value := (ur_value r)(uid \<mapsto> serialized)\<rparr>))"

definition UserInfoCache_invalidate :: "bool \<Rightarrow> uid \<Rightarrow> user_info_redis \<Rightarrow> bool \<times> user_info_redis" where
  "UserInfoCache_invalidate ok uid r =
     (if \<not> ok then (False, r)
      else case redis_incr (ur_generation r uid) of
             None \<Rightarrow> (False, r)
           | Some v \<Rightarrow> (True, r\<lparr>ur_generation := (ur_generation r)(uid \<mapsto> v),
                               ur_value := (ur_value r)(uid := None)\<rparr>))"

section \<open>Generations\<close>

definition gnum :: "uid \<Rightarrow> user_info_redis \<Rightarrow> nat" where
  "gnum uid r = (case ur_generation r uid of None \<Rightarrow> 0 | Some raw \<Rightarrow> digits_val raw)"

definition generations_wf :: "user_info_redis \<Rightarrow> bool" where
  "generations_wf r = (\<forall>uid raw. ur_generation r uid = Some raw \<longrightarrow>
     raw = nat_to_string (digits_val raw) \<and> digits_val raw < 2 ^ 63)"

lemma stoull_nat_to_string:
  assumes "n < 2 ^ 64"
  shows "stoull (nat_to_string n) = Some (of_nat n)"
proof -
  obtain c cs where c: "nat_to_string n = c # cs" by (metis nat_to_string_nonempty neq_Nil_conv)
  have "stoull_signed False (nat_to_string n) = Some (of_nat n)"
    using assms by (simp add: stoull_signed_def)
  then show ?thesis
    using not_space_digit [OF nat_to_string_hd [OF c]] c by (simp add: stoull_def)
qed

lemma generation_gnum:
  assumes "generations_wf r"
  shows "UserInfoCache_generation True uid r = Some (of_nat (gnum uid r))"
    and "lua_generation uid r = Some (gnum uid r)" and "gnum uid r < 2 ^ 63"
proof -
  have "UserInfoCache_generation True uid r = Some (of_nat (gnum uid r)) \<and>
      lua_generation uid r = Some (gnum uid r) \<and> gnum uid r < 2 ^ 63"
  proof (cases "ur_generation r uid")
    case None
    then show ?thesis by (simp add: UserInfoCache_generation_def lua_generation_def gnum_def)
  next
    case (Some raw)
    with assms have raw: "raw = nat_to_string (digits_val raw)" "digits_val raw < 2 ^ 63"
      by (auto simp: generations_wf_def)
    have "stoull raw = Some (of_nat (digits_val raw))"
      by (subst raw(1), rule stoull_nat_to_string) (use raw(2) in simp)
    with Some raw list_all_digits_wf [OF raw(1)] show ?thesis
      by (simp add: UserInfoCache_generation_def lua_generation_def gnum_def)
  qed
  then show "UserInfoCache_generation True uid r = Some (of_nat (gnum uid r))"
    and "lua_generation uid r = Some (gnum uid r)" and "gnum uid r < 2 ^ 63" by auto
qed

lemma invalidate_gnum:
  assumes "generations_wf r" and "gnum uid r < 2 ^ 63 - 1"
  shows "\<exists>r'. UserInfoCache_invalidate True uid r = (True, r') \<and> generations_wf r' \<and>
    gnum uid r' = gnum uid r + 1 \<and> ur_value r' uid = None"
proof -
  have "redis_incr (ur_generation r uid) = Some (nat_to_string (gnum uid r + 1))"
  proof (cases "ur_generation r uid")
    case None
    then show ?thesis by (simp add: redis_incr_def gnum_def)
  next
    case (Some raw)
    with assms(1) have "raw = nat_to_string (digits_val raw)" by (auto simp: generations_wf_def)
    from list_all_digits_wf [OF this] assms(2) Some show ?thesis by (simp add: redis_incr_def gnum_def)
  qed
  with assms show ?thesis
    by (auto simp: UserInfoCache_invalidate_def generations_wf_def gnum_def)
qed

text \<open>\<open>n\<close> completed invalidations.\<close>

fun invalidations :: "nat \<Rightarrow> uid \<Rightarrow> user_info_redis \<Rightarrow> user_info_redis" where
  "invalidations 0 uid r = r"
| "invalidations (Suc n) uid r = invalidations n uid (snd (UserInfoCache_invalidate True uid r))"

lemma invalidations_gnum:
  "generations_wf r \<Longrightarrow> gnum uid r + n < 2 ^ 63 \<Longrightarrow>
    generations_wf (invalidations n uid r) \<and> gnum uid (invalidations n uid r) = gnum uid r + n"
proof (induction n arbitrary: r)
  case 0
  then show ?case by simp
next
  case (Suc n)
  then obtain r' where "UserInfoCache_invalidate True uid r = (True, r')" "generations_wf r'"
    "gnum uid r' = gnum uid r + 1"
    using invalidate_gnum [of r uid] by auto
  with Suc.IH [of r'] Suc.prems show ?case by simp
qed

text \<open>Profile cache fencing. A request reads the generation of a user, then fetches the
  profile; meanwhile the profile is invalidated \<open>n\<close> times. If \<open>n\<close> is zero its write is
  committed and the profile is published locally. Otherwise the write reports a conflict, Redis is
  unchanged and the local cache is not touched, so the stale profile reaches no other request.\<close>

theorem stale_profile_not_published:
  assumes "generations_wf r" and "gnum uid r + n < 2 ^ 63"
    and "UserInfoCache_generation True uid r = Some g"
    and "UserInfoCache_set_if_generation True uid bytes g (invalidations n uid r) = (res, r')"
  shows "(if n = 0 then res = Committed \<and> UserInfoCache_get True uid r' = Some bytes \<and>
             publish_user_info_l1 res publish c = publish GenerationFenced c
          else res = Conflict \<and> r' = invalidations n uid r \<and> publish_user_info_l1 res publish c = c)"
proof -
  note iv = invalidations_gnum [OF assms(1,2)]
  have g: "g = of_nat (gnum uid r)" using assms(3) generation_gnum(1) [OF assms(1), of uid] by simp
  then have "unat g = gnum uid r"
    using generation_gnum(3) [OF assms(1), of uid] by (simp add: unat_small)
  moreover have "lua_generation uid (invalidations n uid r) = Some (gnum uid r + n)"
    using generation_gnum(2) [of "invalidations n uid r" uid] iv by simp
  ultimately show ?thesis
    using assms(4) by (auto simp: UserInfoCache_set_if_generation_def execute_generation_write_def
        UserInfoCache_get_def publish_user_info_l1_def)
qed

theorem stale_profile_not_published_witness:
  "fst (UserInfoCache_set_if_generation True ''u1'' ''old'' 0 (invalidations 1 ''u1'' empty_user_info_redis))
     = Conflict \<and>
   fst (UserInfoCache_set_if_generation True ''u1'' ''old'' 0 (invalidations 0 ''u1'' empty_user_info_redis))
     = Committed"
proof -
  have wf: "generations_wf empty_user_info_redis" "gnum ''u1'' empty_user_info_redis = 0"
    by (simp_all add: generations_wf_def gnum_def empty_user_info_redis_def)
  have g: "UserInfoCache_generation True ''u1'' empty_user_info_redis = Some 0"
    by (simp add: UserInfoCache_generation_def empty_user_info_redis_def)
  show ?thesis
    using stale_profile_not_published [OF wf(1) _ g prod.collapse [symmetric], of 1 "''old''" "\<lambda>_ x. x" "()"]
      stale_profile_not_published [OF wf(1) _ g prod.collapse [symmetric], of 0 "''old''" "\<lambda>_ x. x" "()"]
    by (simp add: wf(2))
qed

end
