(* ===== verification/Transmite.thy ===== *)
theory Transmite
  imports Redis_Hash Message_Proto Local_Cache Snowflake Reliability_State Rate_Limiter User_Info_Cache Members_Race
begin

text \<open>
  The transmite service (transmite/source/transmite_server.h): \<open>SendMessage\<close> with its
  idempotency check, rate limits, sender profile, member list, sequence numbers, message id and
  publication, and the sequence generator of common/dao/data_redis.hpp. The server is the one
  \<open>TransmiteServerBuilder\<close> builds: every cache and client is present; whether the
  in-process single-flight registry is there is a parameter. The handler is split where the code
  has its numbered steps, so that the steps can be interleaved with other requests.

  State: the Redis keys the service touches, the two process-local caches, the id generator and
  the messages the broker has. Parameters: what the clocks, the random jitter, the other
  services, protobuf and the broker answer. A Redis error inside \<open>RedisMutex\<close> and a clock error
  of the id generator leave the handler as exceptions, since it catches neither; the outcome
  says so. Texts the code has in Chinese are given in English.
\<close>

section \<open>State and environment\<close>

definition LARGE_GROUP_THRESHOLD :: nat where "LARGE_GROUP_THRESHOLD = 200"

record members_entry =
  me_members :: "uid list"
  me_version :: u64
  me_sentinel :: bool

record members_result =
  mres_members :: "uid list"
  mres_confirmed_empty :: bool
  mres_version :: u64

definition no_members :: members_result where
  "no_members = \<lparr>mres_members = [], mres_confirmed_empty = False, mres_version = 0\<rparr>"

record transmite_state =
  tx_idem :: "string \<Rightarrow> string option"
  tx_seq_session :: "cid \<Rightarrow> string option"
  tx_seq_user :: "uid \<Rightarrow> string option"
  tx_members :: members_redis
  tx_warm_lock :: "cid \<Rightarrow> string option"
  tx_rate :: rate_redis
  tx_user_info :: user_info_redis
  tx_local_members :: "members_entry local_cache"
  tx_local_user :: "string local_cache"
  tx_id_generator :: snowflake
  tx_clock_pos :: nat
  tx_mq :: "internal_message list"

datatype PublishStatus = Acked | Nacked | Lost | Error

text \<open>
  The broker: \<open>publish_confirm\<close> throws before it sends, or the callback gets a status. A message
  that was acknowledged is in the broker; one that was lost or failed may be (\<open>bool\<close>).
\<close>

datatype publish_outcome = Publish_throws | Confirmed PublishStatus bool

record transmite_env =
  te_now_ms :: time                 \<comment> \<open>system clock of the handler\<close>
  te_steady :: time                 \<comment> \<open>steady clock of the caches\<close>
  te_clock :: clock                 \<comment> \<open>readings of the id generator\<close>
  te_up :: calls
  te_jitter :: "nat \<Rightarrow> int"
  te_token :: string
  te_lock_released :: "nat \<Rightarrow> bool"  \<comment> \<open>another holder lets go within the 100 ms\<close>
  te_inflight :: bool
  te_local_rate :: "nat \<Rightarrow> bool"
  te_rate_user_max :: int
  te_rate_session_max :: int
  te_rate_window_sec :: int
  te_get_profile :: "uid \<Rightarrow> user_info option rpc_outcome"
  te_get_member_ids :: "nat \<Rightarrow> cid \<Rightarrow> uid list rpc_outcome"
  te_select_by_client_msg :: "uid \<Rightarrow> string \<Rightarrow> message_p option rpc_outcome"
  te_serialize_user :: "user_info \<Rightarrow> string"
  te_parse_user :: "string \<Rightarrow> user_info option"
  te_publish :: "internal_message \<Rightarrow> publish_outcome"

datatype send_outcome = Thrown string | Responded response_header "message_p option"

section \<open>SeqGen\<close>

definition next_seq :: "bool \<Rightarrow> 'k \<Rightarrow> ('k \<Rightarrow> string option) \<Rightarrow> u64 option \<times> ('k \<Rightarrow> string option)" where
  "next_seq ok k m =
     (if \<not> ok then (None, m)
      else case redis_incr (m k) of
             None \<Rightarrow> (None, m)
           | Some v \<Rightarrow> (Some (of_nat (digits_val v)), m(k \<mapsto> v)))"

definition next_session_seq ::
  "bool \<Rightarrow> cid \<Rightarrow> (cid \<Rightarrow> string option) \<Rightarrow> u64 \<times> (cid \<Rightarrow> string option)" where
  "next_session_seq ok ssid m =
     (case next_seq ok ssid m of (None, m') \<Rightarrow> (0, m') | (Some v, m') \<Rightarrow> (v, m'))"

definition next_user_seq ::
  "bool \<Rightarrow> uid \<Rightarrow> (uid \<Rightarrow> string option) \<Rightarrow> u64 \<times> (uid \<Rightarrow> string option)" where
  "next_user_seq ok uid m =
     (case next_seq ok uid m of (None, m') \<Rightarrow> (0, m') | (Some v, m') \<Rightarrow> (v, m'))"

text \<open>The loop stops at the first error and gives up what it collected.\<close>

fun next_user_seq_loop ::
  "(nat \<Rightarrow> bool) \<Rightarrow> nat \<Rightarrow> uid list \<Rightarrow> (uid \<Rightarrow> string option) \<Rightarrow> u64 list option \<times> (uid \<Rightarrow> string option)"
where
  "next_user_seq_loop ok i [] m = (Some [], m)"
| "next_user_seq_loop ok i (u # us) m =
     (case next_seq (ok i) u m of
        (None, m') \<Rightarrow> (None, m')
      | (Some v, m') \<Rightarrow>
          (case next_user_seq_loop ok (Suc i) us m' of
             (None, m'') \<Rightarrow> (None, m'')
           | (Some vs, m'') \<Rightarrow> (Some (v # vs), m'')))"

definition next_user_seq_batch ::
  "(nat \<Rightarrow> bool) \<Rightarrow> uid list \<Rightarrow> (uid \<Rightarrow> string option) \<Rightarrow> u64 list \<times> (uid \<Rightarrow> string option)" where
  "next_user_seq_batch ok uids m =
     (case next_user_seq_loop ok 0 uids m of (None, m') \<Rightarrow> ([], m') | (Some vs, m') \<Rightarrow> (vs, m'))"

text \<open>\<open>kBackfillLua\<close>: raise the counter to the base when it is absent or below it.\<close>

definition backfill_seq :: "bool \<Rightarrow> 'k \<Rightarrow> u64 \<Rightarrow> ('k \<Rightarrow> string option) \<Rightarrow> ('k \<Rightarrow> string option)" where
  "backfill_seq ok k base m =
     (if \<not> ok then m
      else case m k of
             None \<Rightarrow> m(k \<mapsto> u64_to_string base)
           | Some cur \<Rightarrow> if digits_val cur < unat base then m(k \<mapsto> u64_to_string base) else m)"

section \<open>Small helpers of the source\<close>

text \<open>\<open>randomized_ttl\<close>: the jitter is a draw from plus or minus a fifth of the base.\<close>

definition randomized_ttl :: "int \<Rightarrow> int \<Rightarrow> int" where
  "randomized_ttl jitter base = (let adjusted = base + jitter in if adjusted < 1 then 1 else adjusted)"

definition local_members_cache_key :: "cid \<Rightarrow> string" where
  "local_members_cache_key cid = ''local:members:'' @ hash_tag cid"

definition local_user_info_cache_key :: "uid \<Rightarrow> string" where
  "local_user_info_cache_key uid = ''local:user:'' @ hash_tag uid"

text \<open>\<open>RedisMutex\<close> on the warm lock of a conversation: \<open>SET NX\<close> until the deadline, and release
  only one's own token. \<open>None\<close> stands for a Redis exception, which \<open>try_lock\<close> does not catch.\<close>

definition RedisMutex_try_lock ::
  "bool \<Rightarrow> bool \<Rightarrow> string \<Rightarrow> cid \<Rightarrow> (cid \<Rightarrow> string option) \<Rightarrow> bool option \<times> (cid \<Rightarrow> string option)" where
  "RedisMutex_try_lock ok released token k m =
     (if \<not> ok then (None, m)
      else if m k = None \<or> released then (Some True, m(k \<mapsto> token))
      else (Some False, m))"

definition RedisMutex_unlock :: "bool \<Rightarrow> string \<Rightarrow> cid \<Rightarrow> (cid \<Rightarrow> string option) \<Rightarrow> (cid \<Rightarrow> string option)" where
  "RedisMutex_unlock ok token k m = (if ok \<and> m k = Some token then m(k := None) else m)"

section \<open>Calls to other services\<close>

text \<open>\<open>fetch_user_info_from_identity_\<close>: the profile, and whether the user is confirmed not to exist.\<close>

definition fetch_user_info_from_identity ::
  "transmite_env \<Rightarrow> uid \<Rightarrow> user_info option \<times> bool" where
  "fetch_user_info_from_identity env uid =
     (case te_get_profile env uid of
        No_channel \<Rightarrow> (None, False)
      | Rpc_failed \<Rightarrow> (None, False)
      | Rpc_reply h info \<Rightarrow>
          if \<not> hdr_success h then (None, hdr_error_code h = kAuthUserNotFound)
          else case info of
                 None \<Rightarrow> (None, False)
               | Some u \<Rightarrow>
                   let bytes = te_serialize_user env u in
                   if bytes = [] then (None, False) else (te_parse_user env bytes, False))"

definition fetch_members_from_conversation_service ::
  "transmite_env \<Rightarrow> nat \<Rightarrow> cid \<Rightarrow> uid list option" where
  "fetch_members_from_conversation_service env i cid = rpc_ok (te_get_member_ids env i cid)"

definition select_existing_message_by_client_msg ::
  "transmite_env \<Rightarrow> uid \<Rightarrow> string \<Rightarrow> message_p option" where
  "select_existing_message_by_client_msg env uid client_msg_id =
     (if client_msg_id = [] then None
      else case rpc_ok (te_select_by_client_msg env uid client_msg_id) of
             None \<Rightarrow> None
           | Some m \<Rightarrow> m)"

section \<open>Sender profile\<close>

definition parseable :: "transmite_env \<Rightarrow> string \<Rightarrow> bool" where
  "parseable env bytes = (bytes \<noteq> [] \<and> te_parse_user env bytes \<noteq> None)"

text \<open>The lambda \<open>read_l1\<close>; \<open>k\<close> numbers the Redis call of its second branch.\<close>

definition read_l1 :: "transmite_env \<Rightarrow> nat \<Rightarrow> uid \<Rightarrow> transmite_state \<Rightarrow> string option \<times> transmite_state" where
  "read_l1 env k uid s =
     (let lkey = local_user_info_cache_key uid in
      case LocalCache_get (te_steady env) lkey (tx_local_user s) of
        (None, c) \<Rightarrow> (None, s\<lparr>tx_local_user := c\<rparr>)
      | (Some bytes, c) \<Rightarrow>
          if parseable env bytes then (Some bytes, s\<lparr>tx_local_user := c\<rparr>)
          else (None, s\<lparr>tx_local_user := LocalCache_invalidate lkey c,
                        tx_user_info := snd (UserInfoCache_invalidate (te_up env k 0) uid (tx_user_info s))\<rparr>))"

definition set_local_user :: "transmite_env \<Rightarrow> nat \<Rightarrow> uid \<Rightarrow> string \<Rightarrow> transmite_state \<Rightarrow> transmite_state" where
  "set_local_user env k uid bytes s =
     s\<lparr>tx_local_user := LocalCache_set (te_steady env) (local_user_info_cache_key uid) bytes
         (randomized_ttl (te_jitter env k) 45) (tx_local_user s)\<rparr>"

definition fetch_and_publish :: "transmite_env \<Rightarrow> uid \<Rightarrow> transmite_state \<Rightarrow> string option \<times> transmite_state" where
  "fetch_and_publish env uid s =
     (let generation = UserInfoCache_generation (te_up env 10 0) uid (tx_user_info s) in
      case fetch_user_info_from_identity env uid of
        (None, confirmed_not_found) \<Rightarrow>
          (None, case generation of
             Some g \<Rightarrow> if confirmed_not_found
                then s\<lparr>tx_user_info := snd (UserInfoCache_set_if_generation (te_up env 11 0) uid [] g (tx_user_info s))\<rparr>
                else s
           | None \<Rightarrow> s)
      | (Some info, _) \<Rightarrow>
          let bytes = te_serialize_user env info in
          (case (case generation of
                   Some g \<Rightarrow> UserInfoCache_set_if_generation (te_up env 12 0) uid bytes g (tx_user_info s)
                 | None \<Rightarrow> (Unavailable, tx_user_info s)) of
             (write_result, r) \<Rightarrow>
               (Some bytes, publish_user_info_l1 write_result (\<lambda>_. set_local_user env 1 uid bytes)
                  (s\<lparr>tx_user_info := r\<rparr>))))"

definition resolve_after_lock :: "transmite_env \<Rightarrow> uid \<Rightarrow> transmite_state \<Rightarrow> string option \<times> transmite_state" where
  "resolve_after_lock env uid s =
     (case read_l1 env 7 uid s of
        (Some local, s1) \<Rightarrow> (Some local, s1)
      | (None, s1) \<Rightarrow>
          (case UserInfoCache_get (te_up env 8 0) uid (tx_user_info s1) of
             Some redis \<Rightarrow>
               if redis = [] then (None, s1)
               else if parseable env redis then (Some redis, set_local_user env 0 uid redis s1)
               else fetch_and_publish env uid
                      (s1\<lparr>tx_user_info := snd (UserInfoCache_invalidate (te_up env 9 0) uid (tx_user_info s1))\<rparr>)
           | None \<Rightarrow> fetch_and_publish env uid s1))"

definition resolve_user_info :: "transmite_env \<Rightarrow> uid \<Rightarrow> transmite_state \<Rightarrow> string option \<times> transmite_state" where
  "resolve_user_info env uid s =
     (case read_l1 env 6 uid s of
        (Some local, s1) \<Rightarrow> (Some local, s1)
      | (None, s1) \<Rightarrow> resolve_after_lock env uid s1)"

section \<open>Member list\<close>

definition try_local ::
  "transmite_env \<Rightarrow> nat \<Rightarrow> nat \<Rightarrow> cid \<Rightarrow> transmite_state \<Rightarrow> members_result option \<times> transmite_state" where
  "try_local env k i cid s =
     (let mkey = local_members_cache_key cid in
      case LocalCache_get (te_steady env) mkey (tx_local_members s) of
        (None, c) \<Rightarrow> (None, s\<lparr>tx_local_members := c\<rparr>)
      | (Some local, c) \<Rightarrow>
          let now_version = Members_version (te_up env k i) cid (tx_members s) in
          if \<not> cache_l1_version_matches (me_version local) now_version
          then (None, s\<lparr>tx_local_members := LocalCache_invalidate mkey c\<rparr>)
          else if me_sentinel local
          then (Some \<lparr>mres_members = [], mres_confirmed_empty = True, mres_version = me_version local\<rparr>,
                s\<lparr>tx_local_members := c\<rparr>)
          else (Some \<lparr>mres_members = me_members local, mres_confirmed_empty = False,
                      mres_version = me_version local\<rparr>, s\<lparr>tx_local_members := c\<rparr>))"

definition set_local_members ::
  "transmite_env \<Rightarrow> nat \<Rightarrow> cid \<Rightarrow> uid list \<Rightarrow> u64 \<Rightarrow> transmite_state \<Rightarrow> transmite_state" where
  "set_local_members env i cid members version s =
     (if \<not> cache_version_is_known version then s
      else s\<lparr>tx_local_members := LocalCache_set (te_steady env) (local_members_cache_key cid)
               \<lparr>me_members = members, me_version = version, me_sentinel = False\<rparr>
               (randomized_ttl (te_jitter env (10 + i)) 8) (tx_local_members s)\<rparr>)"

definition set_local_sentinel ::
  "transmite_env \<Rightarrow> nat \<Rightarrow> cid \<Rightarrow> u64 \<Rightarrow> transmite_state \<Rightarrow> transmite_state" where
  "set_local_sentinel env i cid version s =
     (if \<not> cache_version_is_known version then s
      else s\<lparr>tx_local_members := LocalCache_set (te_steady env) (local_members_cache_key cid)
               \<lparr>me_members = [], me_version = version, me_sentinel = True\<rparr>
               (randomized_ttl (te_jitter env (20 + i)) 60) (tx_local_members s)\<rparr>)"

definition unlock_warm :: "transmite_env \<Rightarrow> nat \<Rightarrow> cid \<Rightarrow> transmite_state \<Rightarrow> transmite_state" where
  "unlock_warm env i cid s =
     s\<lparr>tx_warm_lock := RedisMutex_unlock (te_up env 29 i) (te_token env) cid (tx_warm_lock s)\<rparr>"

text \<open>The part of \<open>resolve_members\<close> that runs with the warm lock held.\<close>

definition warm_members :: "transmite_env \<Rightarrow> nat \<Rightarrow> cid \<Rightarrow> transmite_state \<Rightarrow> members_result \<times> transmite_state" where
  "warm_members env i cid s =
     (let observed_version = Members_version (te_up env 27 i) cid (tx_members s) in
      case fetch_members_from_conversation_service env i cid of
        None \<Rightarrow> (no_members, unlock_warm env i cid s)
      | Some members \<Rightarrow>
          (case publish_members (te_up env 28 i) cid observed_version members (tx_members s) of
             (written, r) \<Rightarrow>
               let s1 = s\<lparr>tx_members := r\<rparr> in
               if \<not> written then (no_members, unlock_warm env i cid s1)
               else let s2 = (if members = [] then set_local_sentinel env i cid observed_version s1
                              else set_local_members env i cid members observed_version s1)
                    in (\<lparr>mres_members = members, mres_confirmed_empty = (members = []),
                         mres_version = observed_version\<rparr>, unlock_warm env i cid s2)))"

definition lock_and_warm ::
  "transmite_env \<Rightarrow> nat \<Rightarrow> cid \<Rightarrow> transmite_state \<Rightarrow> (string + members_result) \<times> transmite_state" where
  "lock_and_warm env i cid s =
     (case RedisMutex_try_lock (te_up env 26 i) (te_lock_released env i) (te_token env) cid (tx_warm_lock s) of
        (None, _) \<Rightarrow> (Inl ''redis error'', s)
      | (Some False, _) \<Rightarrow> (Inr no_members, s)
      | (Some True, l) \<Rightarrow> map_prod Inr id (warm_members env i cid (s\<lparr>tx_warm_lock := l\<rparr>)))"

text \<open>From the Redis snapshot on. Without the registry the local cache is asked once more before the lock.\<close>

definition resolve_from_redis ::
  "transmite_env \<Rightarrow> nat \<Rightarrow> cid \<Rightarrow> transmite_state \<Rightarrow> (string + members_result) \<times> transmite_state" where
  "resolve_from_redis env i cid s =
     (let snap = Members_list_snapshot (te_up env 22 i, te_up env 23 i, te_up env 24 i) cid
                   (tx_members s) (tx_members s) (tx_members s) in
      if \<not> snap_stable snap then (Inr no_members, s)
      else if snap_members snap \<noteq> []
      then (Inr \<lparr>mres_members = snap_members snap, mres_confirmed_empty = False,
                 mres_version = snap_version snap\<rparr>,
            set_local_members env i cid (snap_members snap) (snap_version snap) s)
      else if cache_sentinel_confirms_empty (snap_stable snap \<and> snap_members snap = [])
                (Members_is_sentinel (te_up env 25 i) cid (tx_members s))
      then let observed = Members_version (te_up env 30 i) cid (tx_members s)
           in (Inr \<lparr>mres_members = [], mres_confirmed_empty = True, mres_version = observed\<rparr>,
               set_local_sentinel env i cid observed s)
      else if te_inflight env then lock_and_warm env i cid s
      else (case try_local env 31 i cid s of
              (Some r, s1) \<Rightarrow> (Inr r, s1)
            | (None, s1) \<Rightarrow> lock_and_warm env i cid s1))"

definition resolve_members ::
  "transmite_env \<Rightarrow> nat \<Rightarrow> cid \<Rightarrow> transmite_state \<Rightarrow> (string + members_result) \<times> transmite_state" where
  "resolve_members env i cid s =
     (case try_local env 20 i cid s of
        (Some r, s1) \<Rightarrow> (Inr r, s1)
      | (None, s1) \<Rightarrow>
          if te_inflight env
          then (case try_local env 21 i cid s1 of
                  (Some r, s2) \<Rightarrow> (Inr r, s2)
                | (None, s2) \<Rightarrow> resolve_from_redis env i cid s2)
          else resolve_from_redis env i cid s1)"

text \<open>The retry loop of \<open>SendMessage\<close>: attempts \<open>i, i + 1, \<dots>\<close>, \<open>n\<close> of them.\<close>

fun resolve_members_loop ::
  "transmite_env \<Rightarrow> nat \<Rightarrow> nat \<Rightarrow> cid \<Rightarrow> transmite_state \<Rightarrow> (string + members_result) \<times> transmite_state" where
  "resolve_members_loop env i 0 cid s = (Inr no_members, s)"
| "resolve_members_loop env i (Suc n) cid s =
     (case resolve_members env i cid s of
        (Inl e, s1) \<Rightarrow> (Inl e, s1)
      | (Inr r, s1) \<Rightarrow>
          if mres_members r \<noteq> [] \<or> mres_confirmed_empty r \<or> n = 0 then (Inr r, s1)
          else resolve_members_loop env (Suc i) n cid s1)"

section \<open>SendMessage\<close>

text \<open>Step 2: a file message carries the id of the uploaded file.\<close>

definition check_content :: "message_content \<Rightarrow> string option" where
  "check_content content =
     (if mc_type content = IMAGE \<and> body_image_file_id (mc_body content) = []
      then Some ''upload the image before sending''
      else if mc_type content = FILE \<and> body_file_file_id (mc_body content) = []
      then Some ''upload the file before sending''
      else if mc_type content = AUDIO \<and> body_audio_file_id (mc_body content) = []
      then Some ''upload the audio before sending''
      else None)"

text \<open>
  Step 3: the idempotency check. \<open>Idem_go held\<close> goes on, \<open>held\<close> being \<open>idem_key_set\<close>;
  \<open>Idem_reply\<close> answers with the earlier message; \<open>Idem_reject\<close> refuses a duplicate in flight.
\<close>

datatype idem_outcome = Idem_go bool | Idem_reply message_p | Idem_reject

definition pending_value :: string where
  "pending_value = serialize_idempotency_state (mk_idem Pending 0)"

text \<open>\<open>SET key value EX ttl NX\<close>.\<close>

definition set_nx :: "string \<Rightarrow> string \<Rightarrow> (string \<Rightarrow> string option) \<Rightarrow> bool \<times> (string \<Rightarrow> string option)" where
  "set_nx key v m = (if m key = None then (True, m(key \<mapsto> v)) else (False, m))"

definition idem_retry :: "transmite_env \<Rightarrow> string \<Rightarrow> transmite_state \<Rightarrow> idem_outcome \<times> transmite_state" where
  "idem_retry env key s =
     (let m1 = (if te_up env 2 0 then (tx_idem s)(key := None) else tx_idem s) in
      if \<not> te_up env 3 0 then (Idem_go False, s\<lparr>tx_idem := m1\<rparr>)
      else case set_nx key pending_value m1 of
             (True, m2) \<Rightarrow> (Idem_go True, s\<lparr>tx_idem := m2\<rparr>)
           | (False, m2) \<Rightarrow> (Idem_reject, s\<lparr>tx_idem := m2\<rparr>))"

definition idem_conflict ::
  "transmite_env \<Rightarrow> uid \<Rightarrow> string \<Rightarrow> string option \<Rightarrow> transmite_state \<Rightarrow> idem_outcome \<times> transmite_state" where
  "idem_conflict env uid client_msg_id cached s =
     (let st = (case cached of Some v \<Rightarrow> parse_idempotency_state v | None \<Rightarrow> mk_idem Idem_Empty 0) in
      if idem_status st = Accepted \<or> idem_status st = Persisted
      then (Idem_reply (case select_existing_message_by_client_msg env uid client_msg_id of
                          Some m \<Rightarrow> m
                        | None \<Rightarrow> empty_message\<lparr>mg_message_id := sint (idem_message_id st)\<rparr>), s)
      else if idem_status st = Corrupt then idem_retry env (idempotency_key_for uid client_msg_id) s
      else case select_existing_message_by_client_msg env uid client_msg_id of
             Some m \<Rightarrow> (Idem_reply m, s)
           | None \<Rightarrow> (Idem_reject, s))"

definition idem_check ::
  "transmite_env \<Rightarrow> uid \<Rightarrow> string \<Rightarrow> transmite_state \<Rightarrow> idem_outcome \<times> transmite_state" where
  "idem_check env uid client_msg_id s =
     (if client_msg_id = [] then (Idem_go False, s)
      else let key = idempotency_key_for uid client_msg_id in
        if \<not> te_up env 0 0 then (Idem_go False, s)
        else case set_nx key pending_value (tx_idem s) of
               (True, m) \<Rightarrow> (Idem_go True, s\<lparr>tx_idem := m\<rparr>)
             | (False, m) \<Rightarrow>
                 if \<not> te_up env 1 0 then (Idem_go False, s)
                 else idem_conflict env uid client_msg_id (tx_idem s key) s)"

text \<open>Steps 4 to 8: everything between the check and the publication.\<close>

datatype prepared = Prep_throw string | Prep_error int string | Prep_ok internal_message

definition check_rate ::
  "transmite_env \<Rightarrow> uid \<Rightarrow> cid \<Rightarrow> transmite_state \<Rightarrow> bool \<times> transmite_state" where
  "check_rate env uid cid s =
     (case allow_user (te_up env 4 0) (te_local_rate env 0) uid (te_rate_user_max env)
             (te_rate_window_sec env) (te_now_ms env) (tx_rate s) of
        (False, r) \<Rightarrow> (False, s\<lparr>tx_rate := r\<rparr>)
      | (True, r) \<Rightarrow>
          (case allow_session (te_up env 5 0) (te_local_rate env 1) cid (te_rate_session_max env)
                  (te_rate_window_sec env) (te_now_ms env) r of
             (b, r') \<Rightarrow> (b, s\<lparr>tx_rate := r'\<rparr>)))"

definition assemble_message ::
  "transmite_env \<Rightarrow> uid \<Rightarrow> send_message_req \<Rightarrow> u64 \<Rightarrow> u64 \<Rightarrow> message_p" where
  "assemble_message env uid req session_seq msg_id =
     empty_message\<lparr>mg_message_id := sint msg_id, mg_conversation_id := smq_conversation_id req,
       mg_created_at_ms := te_now_ms env, mg_content := smq_content req, mg_sender_id := uid,
       mg_seq_id := session_seq, mg_client_msg_id := smq_client_msg_id req,
       mg_reply_to := smq_reply_to req, mg_mentioned_user_ids := smq_mentioned_user_ids req,
       mg_forward_info := smq_forward_info req\<rparr>"

definition add_user_seqs ::
  "transmite_env \<Rightarrow> message_p \<Rightarrow> uid list \<Rightarrow> transmite_state \<Rightarrow> prepared \<times> transmite_state" where
  "add_user_seqs env msg members s =
     (let is_large = (length members \<ge> LARGE_GROUP_THRESHOLD);
          im = \<lparr>im_message = msg, im_member_id_list = members, im_user_seqs = [],
                im_is_large_group = is_large\<rparr> in
      if is_large then (Prep_ok im, s)
      else case next_user_seq_batch (\<lambda>j. te_up env 41 j) members (tx_seq_user s) of
             (seqs, m) \<Rightarrow>
               if length seqs \<noteq> length members
               then (Prep_error kSystemUnavailable ''user seq generation failed'', s\<lparr>tx_seq_user := m\<rparr>)
               else (Prep_ok (im\<lparr>im_user_seqs := zip members seqs\<rparr>), s\<lparr>tx_seq_user := m\<rparr>))"

definition number_message ::
  "transmite_env \<Rightarrow> uid \<Rightarrow> send_message_req \<Rightarrow> uid list \<Rightarrow> transmite_state \<Rightarrow>
     (prepared \<times> transmite_state) option" where
  "number_message env uid req members s =
     (case next_session_seq (te_up env 40 0) (smq_conversation_id req) (tx_seq_session s) of
        (session_seq, m) \<Rightarrow>
          let s1 = s\<lparr>tx_seq_session := m\<rparr> in
          if session_seq = 0 then Some (Prep_error kSystemUnavailable ''seq generation failed'', s1)
          else case Next (te_clock env) (tx_id_generator s1) (tx_clock_pos s1) of
                 None \<Rightarrow> None
               | Some (Inl e) \<Rightarrow> Some (Prep_throw e, s1\<lparr>tx_clock_pos := Suc (tx_clock_pos s1)\<rparr>)
               | Some (Inr (msg_id, g, k)) \<Rightarrow>
                   Some (add_user_seqs env (assemble_message env uid req session_seq msg_id) members
                     (s1\<lparr>tx_id_generator := g, tx_clock_pos := k\<rparr>)))"

definition prepare_message ::
  "transmite_env \<Rightarrow> uid \<Rightarrow> send_message_req \<Rightarrow> transmite_state \<Rightarrow> (prepared \<times> transmite_state) option" where
  "prepare_message env uid req s =
     (case check_rate env uid (smq_conversation_id req) s of
        (False, s1) \<Rightarrow> Some (Prep_error kSystemUnavailable ''rate_limited'', s1)
      | (True, s1) \<Rightarrow>
          (case resolve_user_info env uid s1 of
             (info, s2) \<Rightarrow>
               if (case info of None \<Rightarrow> True | Some bytes \<Rightarrow> bytes = [] \<or> te_parse_user env bytes = None)
               then Some (Prep_error kSystemUnavailable ''user info unavailable'', s2)
               else (case resolve_members_loop env 0 3 (smq_conversation_id req) s2 of
                  (Inl e, s3) \<Rightarrow> Some (Prep_throw e, s3)
                | (Inr r, s3) \<Rightarrow>
                    if mres_members r = []
                    then Some (Prep_error kConversationNotFound ''conversation dissolved or absent'', s3)
                    else if uid \<notin> set (mres_members r)
                    then Some (Prep_error kConversationNotMember ''no permission to send'', s3)
                    else number_message env uid req (mres_members r) s3)))"

text \<open>\<open>err_response\<close> gives the claimed key back.\<close>

definition err_response ::
  "transmite_env \<Rightarrow> string \<Rightarrow> bool \<Rightarrow> string \<Rightarrow> int \<Rightarrow> string \<Rightarrow> transmite_state \<Rightarrow>
     send_outcome \<times> transmite_state" where
  "err_response env key held rid c msg s =
     (Responded (error_header rid (ServiceError c msg)) None,
      if held \<and> key \<noteq> [] \<and> te_up env 44 0 then s\<lparr>tx_idem := (tx_idem s)(key := None)\<rparr> else s)"

text \<open>Step 11: the publication and its callback.\<close>

definition publish_callback ::
  "transmite_env \<Rightarrow> string \<Rightarrow> string \<Rightarrow> message_p \<Rightarrow> PublishStatus \<Rightarrow> transmite_state \<Rightarrow>
     send_outcome \<times> transmite_state" where
  "publish_callback env key rid msg status s =
     (if status = Acked
      then (Responded (ok_header rid) (Some msg),
            if key \<noteq> [] \<and> te_up env 42 0
            then s\<lparr>tx_idem := (tx_idem s)(key \<mapsto>
                     serialize_idempotency_state (mk_idem Accepted (of_int (mg_message_id msg))))\<rparr>
            else s)
      else (Responded (error_header rid (ServiceError kSystemUnavailable ''send failed, retry'')) None,
            if key \<noteq> [] \<and> te_up env 43 0 then s\<lparr>tx_idem := (tx_idem s)(key := None)\<rparr> else s))"

definition publish_message ::
  "transmite_env \<Rightarrow> string \<Rightarrow> string \<Rightarrow> internal_message \<Rightarrow> transmite_state \<Rightarrow>
     send_outcome \<times> transmite_state" where
  "publish_message env key rid im s =
     (case te_publish env im of
        Publish_throws \<Rightarrow>
          (Responded (error_header rid (ServiceError kSystemUnavailable ''MQ unavailable'')) None,
           if key \<noteq> [] \<and> te_up env 43 0 then s\<lparr>tx_idem := (tx_idem s)(key := None)\<rparr> else s)
      | Confirmed status delivered \<Rightarrow>
          publish_callback env key rid (im_message im) status
            (if status = Acked \<or> delivered then s\<lparr>tx_mq := tx_mq s @ [im]\<rparr> else s))"

definition idem_key_of :: "uid \<Rightarrow> string \<Rightarrow> string" where
  "idem_key_of uid client_msg_id =
     (if client_msg_id = [] then [] else idempotency_key_for uid client_msg_id)"

definition SendMessage ::
  "transmite_env \<Rightarrow> rpc_metadata option \<Rightarrow> send_message_req \<Rightarrow> transmite_state \<Rightarrow>
     (send_outcome \<times> transmite_state) option" where
  "SendMessage env md req s =
     (let rid = smq_request_id req in
      case extract_auth md of
        Inl e \<Rightarrow> Some (Responded (error_header rid e) None, s)
      | Inr auth \<Rightarrow>
          (case check_content (smq_content req) of
             Some msg \<Rightarrow> Some (err_response env [] False rid kSystemInvalidArgument msg s)
           | None \<Rightarrow>
               let uid = user_id auth; key = idem_key_of uid (smq_client_msg_id req) in
               (case idem_check env uid (smq_client_msg_id req) s of
                  (Idem_reply m, s1) \<Rightarrow> Some (Responded (ok_header rid) (Some m), s1)
                | (Idem_reject, s1) \<Rightarrow>
                    Some (err_response env key False rid kSystemUnavailable ''duplicate request in flight'' s1)
                | (Idem_go held, s1) \<Rightarrow>
                    (case prepare_message env uid req s1 of
                       None \<Rightarrow> None
                     | Some (Prep_throw w, s2) \<Rightarrow> Some (Thrown w, s2)
                     | Some (Prep_error c msg, s2) \<Rightarrow> Some (err_response env key held rid c msg s2)
                     | Some (Prep_ok im, s2) \<Rightarrow> Some (publish_message env key rid im s2)))))"

end
