(* ===== verification/Send_Race.thy ===== *)
theory Send_Race
  imports Transmite
begin

text \<open>
  Requests to \<open>SendMessage\<close> that overlap. A request is cut where the handler talks to the
  idempotency key or to the broker: claim the key, look at the key's value, prepare and number the
  message, publish it, run the callback. \<open>send_next\<close> runs one such piece; a request run
  without interruption is \<open>SendMessage\<close> (\<open>send_runs\<close>). Any number of requests, of any
  instances, take their pieces in any order; between them other services change the caches, and
  the counters are raised by a backfill. Kept along: which request numbered and which published
  which message, and the keys under which the broker acknowledged one.
  Shown: no two published messages of a conversation have the same sequence number, no two
  timeline entries of a user the same user sequence number; and the broker acknowledges at most
  one message per idempotency key, as long as the key does not expire and the Redis calls that read
  it succeed.
\<close>

section \<open>The pieces of a request\<close>

datatype send_phase =
    Start
  | Conflicted
  | Holding bool
  | Ready bool internal_message
  | Sent bool internal_message PublishStatus
  | Finished send_outcome

definition send_next ::
  "transmite_env \<Rightarrow> uid \<Rightarrow> send_message_req \<Rightarrow> send_phase \<Rightarrow> transmite_state \<Rightarrow>
     (send_phase \<times> transmite_state) option" where
  "send_next env uid req ph s =
     (let rid = smq_request_id req; cmid = smq_client_msg_id req; key = idem_key_of uid cmid in
      case ph of
        Start \<Rightarrow>
          if cmid = [] \<or> \<not> te_up env 0 0 then Some (Holding False, s)
          else (case set_nx key pending_value (tx_idem s) of
                  (True, m) \<Rightarrow> Some (Holding True, s\<lparr>tx_idem := m\<rparr>)
                | (False, m) \<Rightarrow> Some (Conflicted, s))
      | Conflicted \<Rightarrow>
          if \<not> te_up env 1 0 then Some (Holding False, s)
          else (case idem_conflict env uid cmid (tx_idem s key) s of
                  (Idem_go held, s1) \<Rightarrow> Some (Holding held, s1)
                | (Idem_reply m, s1) \<Rightarrow> Some (Finished (Responded (ok_header rid) (Some m)), s1)
                | (Idem_reject, s1) \<Rightarrow>
                    Some (map_prod Finished id (err_response env key False rid kSystemUnavailable
                            ''duplicate request in flight'' s1)))
      | Holding held \<Rightarrow>
          (case prepare_message env uid req s of
             None \<Rightarrow> None
           | Some (Prep_throw w, s2) \<Rightarrow> Some (Finished (Thrown w), s2)
           | Some (Prep_error c msg, s2) \<Rightarrow>
               Some (map_prod Finished id (err_response env key held rid c msg s2))
           | Some (Prep_ok im, s2) \<Rightarrow> Some (Ready held im, s2))
      | Ready held im \<Rightarrow>
          (case te_publish env im of
             Publish_throws \<Rightarrow> Some (map_prod Finished id (publish_message env key rid im s))
           | Confirmed status delivered \<Rightarrow>
               Some (Sent held im status,
                 if status = Acked \<or> delivered then s\<lparr>tx_mq := tx_mq s @ [im]\<rparr> else s))
      | Sent held im status \<Rightarrow>
          Some (map_prod Finished id (publish_callback env key rid (im_message im) status s))
      | Finished out \<Rightarrow> None)"

text \<open>A request that runs alone: at most five pieces.\<close>

fun send_run ::
  "nat \<Rightarrow> transmite_env \<Rightarrow> uid \<Rightarrow> send_message_req \<Rightarrow> send_phase \<Rightarrow> transmite_state \<Rightarrow>
     (send_outcome \<times> transmite_state) option" where
  "send_run 0 env uid req ph s = (case ph of Finished out \<Rightarrow> Some (out, s) | _ \<Rightarrow> None)"
| "send_run (Suc n) env uid req ph s =
     (case ph of
        Finished out \<Rightarrow> Some (out, s)
      | _ \<Rightarrow> (case send_next env uid req ph s of
                None \<Rightarrow> None
              | Some (ph', s') \<Rightarrow> send_run n env uid req ph' s'))"

lemma send_run_Finished [simp]: "send_run n env uid req (Finished out) s = Some (out, s)"
  by (cases n) simp_all

lemma send_run_Sent:
  "send_run (Suc n) env uid req (Sent h im st) s =
     Some (publish_callback env (idem_key_of uid (smq_client_msg_id req)) (smq_request_id req) (im_message im) st s)"
  by (simp add: send_next_def map_prod_def split: prod.split)

lemma send_run_Ready:
  "send_run (Suc (Suc n)) env uid req (Ready h im) s =
     Some (publish_message env (idem_key_of uid (smq_client_msg_id req)) (smq_request_id req) im s)"
proof (cases "te_publish env im")
  case Publish_throws
  then show ?thesis by (simp add: send_next_def map_prod_def split: prod.split)
next
  case (Confirmed st d)
  then have "send_run (Suc (Suc n)) env uid req (Ready h im) s =
      send_run (Suc n) env uid req (Sent h im st) (if st = Acked \<or> d then s\<lparr>tx_mq := tx_mq s @ [im]\<rparr> else s)"
    by (simp add: send_next_def)
  with Confirmed show ?thesis unfolding send_run_Sent by (simp add: publish_message_def)
qed

lemma send_run_Holding:
  "send_run (Suc (Suc (Suc n))) env uid req (Holding h) s =
     (case prepare_message env uid req s of
        None \<Rightarrow> None
      | Some (Prep_throw w, s2) \<Rightarrow> Some (Thrown w, s2)
      | Some (Prep_error c msg, s2) \<Rightarrow>
          Some (err_response env (idem_key_of uid (smq_client_msg_id req)) h (smq_request_id req) c msg s2)
      | Some (Prep_ok im, s2) \<Rightarrow>
          Some (publish_message env (idem_key_of uid (smq_client_msg_id req)) (smq_request_id req) im s2))"
proof (cases "prepare_message env uid req s")
  case None
  then show ?thesis by (simp add: send_next_def)
next
  case (Some r)
  obtain p s2 where r: "r = (p, s2)" by (cases r)
  show ?thesis
  proof (cases p)
    case (Prep_ok im)
    then have "send_run (Suc (Suc (Suc n))) env uid req (Holding h) s =
        send_run (Suc (Suc n)) env uid req (Ready h im) s2"
      using Some r by (simp add: send_next_def)
    then show ?thesis unfolding send_run_Ready using Some r Prep_ok by simp
  qed (use Some r in \<open>simp_all add: send_next_def map_prod_def split: prod.split\<close>)
qed

lemma send_runs:
  assumes "extract_auth md = Inr auth" and "check_content (smq_content req) = None"
  shows "SendMessage env md req s = send_run 5 env (user_id auth) req Start s"
proof -
  let ?uid = "user_id auth" and ?cmid = "smq_client_msg_id req"
  let ?key = "idempotency_key_for ?uid ?cmid"
  have k: "?cmid \<noteq> [] \<Longrightarrow> ?key = idem_key_of ?uid ?cmid" by (simp add: idem_key_of_def)
  have five: "(5 :: nat) = Suc (Suc (Suc (Suc (Suc 0))))" by simp
  show ?thesis
  proof (cases "?cmid = [] \<or> \<not> te_up env 0 0 \<or> tx_idem s ?key = None")
    case True
    then show ?thesis
      unfolding SendMessage_def five
      by (subst send_run.simps) (auto simp: assms send_next_def idem_check_def set_nx_def k
          send_run_Holding Let_def simp del: send_run.simps)
  next
    case False
    then have "send_run 5 env ?uid req Start s = send_run (Suc (Suc (Suc (Suc 0)))) env ?uid req Conflicted s"
      unfolding five
      by (subst send_run.simps) (auto simp: send_next_def set_nx_def k simp del: send_run.simps)
    moreover have "SendMessage env md req s = send_run (Suc (Suc (Suc (Suc 0)))) env ?uid req Conflicted s"
      using False
      by (subst send_run.simps) (auto simp: SendMessage_def assms send_next_def idem_check_def set_nx_def k
          send_run_Holding Let_def map_prod_def simp del: send_run.simps split: prod.split idem_outcome.split)
    ultimately show ?thesis by simp
  qed
qed

section \<open>What the pieces leave alone\<close>

text \<open>The part of the state that resolving the sender and the members never touches.\<close>

definition core :: "transmite_state \<Rightarrow>
    (string \<Rightarrow> string option) \<times> (cid \<Rightarrow> string option) \<times> (uid \<Rightarrow> string option) \<times> internal_message list
      \<times> snowflake \<times> nat" where
  "core s = (tx_idem s, tx_seq_session s, tx_seq_user s, tx_mq s, tx_id_generator s, tx_clock_pos s)"

definition member_part :: "transmite_state \<Rightarrow> members_redis \<times> members_entry local_cache" where
  "member_part s = (tx_members s, tx_local_members s)"

lemma core_updates [simp]:
  "core (s\<lparr>tx_local_user := a\<rparr>) = core s" "core (s\<lparr>tx_user_info := b\<rparr>) = core s"
  "core (s\<lparr>tx_members := c\<rparr>) = core s" "core (s\<lparr>tx_warm_lock := d\<rparr>) = core s"
  "core (s\<lparr>tx_local_members := e\<rparr>) = core s" "core (s\<lparr>tx_rate := f\<rparr>) = core s"
  by (simp_all add: core_def)

lemma member_part_updates [simp]:
  "member_part (s\<lparr>tx_local_user := a\<rparr>) = member_part s" "member_part (s\<lparr>tx_user_info := b\<rparr>) = member_part s"
  "member_part (s\<lparr>tx_warm_lock := d\<rparr>) = member_part s" "member_part (s\<lparr>tx_rate := f\<rparr>) = member_part s"
  by (simp_all add: member_part_def)

lemma set_local_frames [frame_simps]:
  "core (set_local_user env k uid b s) = core s" "member_part (set_local_user env k uid b s) = member_part s"
  "core (set_local_members env i cid ms v s) = core s" "core (set_local_sentinel env i cid v s) = core s"
  "core (unlock_warm env i cid s) = core s" "member_part (unlock_warm env i cid s) = member_part s"
  by (simp_all add: set_local_user_def set_local_members_def set_local_sentinel_def unlock_warm_def)

lemma read_l1_frame:
  "core (snd (read_l1 env k uid s)) = core s \<and> member_part (snd (read_l1 env k uid s)) = member_part s"
  by (simp add: read_l1_def Let_def split: prod.split option.split)

lemma publish_l1_frame:
  "core (publish_user_info_l1 w (\<lambda>_. set_local_user env k uid b) s) = core s \<and>
   member_part (publish_user_info_l1 w (\<lambda>_. set_local_user env k uid b) s) = member_part s"
  by (simp add: publish_user_info_l1_def Let_def frame_simps)

lemma fetch_and_publish_frame:
  "core (snd (fetch_and_publish env uid s)) = core s \<and>
   member_part (snd (fetch_and_publish env uid s)) = member_part s"
  by (simp add: fetch_and_publish_def Let_def publish_l1_frame split: prod.split option.split)

lemma resolve_after_lock_frame:
  "core (snd (resolve_after_lock env uid s)) = core s \<and>
   member_part (snd (resolve_after_lock env uid s)) = member_part s"
proof -
  obtain r s1 where r: "read_l1 env 7 uid s = (r, s1)" by (metis prod.collapse)
  then have "core s1 = core s" "member_part s1 = member_part s" using read_l1_frame [of env 7 uid s] by simp_all
  then show ?thesis
    by (simp add: resolve_after_lock_def r fetch_and_publish_frame frame_simps split: option.split)
qed

lemma resolve_user_info_frame:
  "core (snd (resolve_user_info env uid s)) = core s \<and>
   member_part (snd (resolve_user_info env uid s)) = member_part s"
proof -
  obtain r s1 where r: "read_l1 env 6 uid s = (r, s1)" by (metis prod.collapse)
  then have "core s1 = core s" "member_part s1 = member_part s" using read_l1_frame [of env 6 uid s] by simp_all
  then show ?thesis
    by (simp add: resolve_user_info_def r resolve_after_lock_frame split: option.split)
qed

lemma try_local_frame: "core (snd (try_local env k i cid s)) = core s"
  by (simp add: try_local_def Let_def split: prod.split option.split)

lemma warm_members_frame: "core (snd (warm_members env i cid s)) = core s"
  by (simp add: warm_members_def Let_def frame_simps split: prod.split option.split)

lemma lock_and_warm_frame: "core (snd (lock_and_warm env i cid s)) = core s"
  by (simp add: lock_and_warm_def map_prod_def warm_members_frame
      split: prod.split option.split bool.split)
     (metis core_updates(4) snd_conv warm_members_frame)

lemma resolve_from_redis_frame: "core (snd (resolve_from_redis env i cid s)) = core s"
proof -
  obtain r s1 where r: "try_local env 31 i cid s = (r, s1)" by (metis prod.collapse)
  then have "core s1 = core s" using try_local_frame [of env 31 i cid s] by simp
  then show ?thesis
    by (simp add: resolve_from_redis_def Let_def r lock_and_warm_frame frame_simps split: option.split)
qed

lemma resolve_members_frame: "core (snd (resolve_members env i cid s)) = core s"
proof -
  obtain r s1 where r: "try_local env 20 i cid s = (r, s1)" by (metis prod.collapse)
  obtain r' s2 where r': "try_local env 21 i cid s1 = (r', s2)" by (metis prod.collapse)
  have "core s1 = core s" "core s2 = core s1"
    using try_local_frame [of env 20 i cid s] try_local_frame [of env 21 i cid s1] r r' by simp_all
  then show ?thesis
    by (simp add: resolve_members_def r r' resolve_from_redis_frame split: option.split)
qed

lemma resolve_members_loop_frame: "core (snd (resolve_members_loop env i n cid s)) = core s"
proof (induction n arbitrary: i s)
  case 0
  then show ?case by simp
next
  case (Suc n)
  obtain r s1 where r: "resolve_members env i cid s = (r, s1)" by (metis prod.collapse)
  then have "core s1 = core s" using resolve_members_frame [of env i cid s] by simp
  with Suc.IH show ?case by (simp add: r split: sum.split)
qed

lemma check_rate_frame:
  "core (snd (check_rate env uid cid s)) = core s \<and> member_part (snd (check_rate env uid cid s)) = member_part s"
  by (simp add: check_rate_def split: prod.split bool.split)

section \<open>Sequence counters\<close>

definition cnum :: "('k \<Rightarrow> string option) \<Rightarrow> 'k \<Rightarrow> nat" where
  "cnum m k = (case m k of None \<Rightarrow> 0 | Some raw \<Rightarrow> digits_val raw)"

definition counters_wf :: "('k \<Rightarrow> string option) \<Rightarrow> bool" where
  "counters_wf m = (\<forall>k raw. m k = Some raw \<longrightarrow> raw = nat_to_string (digits_val raw) \<and> digits_val raw < 2 ^ 64)"

definition counters_le :: "('k \<Rightarrow> string option) \<Rightarrow> ('k \<Rightarrow> string option) \<Rightarrow> bool" where
  "counters_le m m' = (\<forall>k. cnum m k \<le> cnum m' k)"

lemma counters_le_refl [simp]: "counters_le m m"
  by (simp add: counters_le_def)

lemma counters_le_trans: "counters_le a b \<Longrightarrow> counters_le b c \<Longrightarrow> counters_le a c"
  by (meson counters_le_def order_trans)

lemma next_seq_spec:
  assumes "counters_wf m" and "next_seq ok k m = (r, m')"
  shows "counters_wf m' \<and> counters_le m m' \<and>
    (\<forall>v. r = Some v \<longrightarrow> unat v = cnum m k + 1 \<and> m' = m(k \<mapsto> nat_to_string (unat v)))"
proof (cases "ok \<and> redis_incr (m k) \<noteq> None")
  case False
  with assms(2) have "r = None \<and> m' = m" by (auto simp: next_seq_def split: if_splits option.splits)
  with assms(1) show ?thesis by simp
next
  case True
  then obtain w where w: "redis_incr (m k) = Some w" by auto
  have d: "w = nat_to_string (cnum m k + 1)" "cnum m k + 1 < 2 ^ 64"
    using w by (auto simp: redis_incr_def cnum_def split: option.splits if_splits)
  have r: "r = Some (of_nat (cnum m k + 1))" "m' = m(k \<mapsto> nat_to_string (cnum m k + 1))"
    using True w assms(2) by (auto simp: next_seq_def d(1))
  have u: "unat (of_nat (cnum m k + 1) :: u64) = cnum m k + 1" using d(2) by (rule unat_small)
  have "counters_wf m'" using assms(1) d(2) by (simp add: counters_wf_def r(2))
  moreover have "counters_le m m'" by (simp add: counters_le_def r(2) cnum_def)
  ultimately show ?thesis using r u by simp
qed

lemma next_user_seq_loop_spec:
  assumes "counters_wf m" and "next_user_seq_loop ok i us m = (r, m')"
  shows "counters_wf m' \<and> counters_le m m' \<and>
    (\<forall>vs. r = Some vs \<longrightarrow> length vs = length us \<and> distinct (zip us vs) \<and>
       (\<forall>(u, v) \<in> set (zip us vs). cnum m u < unat v \<and> unat v \<le> cnum m' u))"
  using assms
proof (induction us arbitrary: i m r m')
  case Nil
  then show ?case by auto
next
  case (Cons u us)
  obtain q m1 where q: "next_seq (ok i) u m = (q, m1)" by (metis prod.collapse)
  note n = next_seq_spec [OF Cons.prems(1) q]
  show ?case
  proof (cases q)
    case None
    with q n Cons.prems(2) show ?thesis by simp
  next
    case (Some v)
    obtain qs m2 where qs: "next_user_seq_loop ok (Suc i) us m1 = (qs, m2)" by (metis prod.collapse)
    note l = Cons.IH [OF _ qs]
    have e: "m' = m2" "r = (case qs of None \<Rightarrow> None | Some vs \<Rightarrow> Some (v # vs))"
      using Cons.prems(2) q qs Some by (auto split: option.splits)
    have uv: "unat v = cnum m u + 1" "cnum m1 u = unat v" using n Some by (auto simp: cnum_def)
    have le: "counters_le m m2" using n l counters_le_trans by blast
    have "length (v # vs) = length (u # us) \<and> distinct (zip (u # us) (v # vs)) \<and>
       (\<forall>(u', v') \<in> set (zip (u # us) (v # vs)). cnum m u' < unat v' \<and> unat v' \<le> cnum m2 u')"
      if vs: "qs = Some vs" for vs
    proof -
      have zs: "cnum m1 u' < unat v' \<and> unat v' \<le> cnum m2 u'" if "(u', v') \<in> set (zip us vs)" for u' v'
        using l n vs that by blast
      then have "(u, v) \<notin> set (zip us vs)" using uv by force
      moreover have le: "cnum m u' \<le> cnum m1 u'" "cnum m1 u' \<le> cnum m2 u'" for u'
        using n l by (simp_all add: counters_le_def)
      moreover have "cnum m u' < unat v' \<and> unat v' \<le> cnum m2 u'" if "(u', v') \<in> set (zip us vs)" for u' v'
        using zs [OF that] le(1) [of u'] by simp
      ultimately show ?thesis using l n vs uv le(2) [of u] by auto
    qed
    with e l n le show ?thesis by (auto split: option.splits)
  qed
qed

lemma backfill_seq_spec:
  "counters_wf m \<Longrightarrow> counters_wf (backfill_seq ok k base m) \<and> counters_le m (backfill_seq ok k base m)"
  using unat_u64 [of base]
  by (auto simp: backfill_seq_def counters_wf_def counters_le_def cnum_def u64_to_string_def split: option.split)

section \<open>What a prepared message holds\<close>

definition numbered_ok :: "transmite_env \<Rightarrow> uid \<Rightarrow> send_message_req \<Rightarrow> transmite_state \<Rightarrow> internal_message \<Rightarrow>
    transmite_state \<Rightarrow> bool" where
  "numbered_ok env uid req s im s' =
     (unat (mg_seq_id (im_message im)) = cnum (tx_seq_session s) (smq_conversation_id req) + 1 \<and>
      tx_seq_session s' = (tx_seq_session s)(smq_conversation_id req \<mapsto>
         nat_to_string (unat (mg_seq_id (im_message im)))) \<and>
      (\<exists>seq mid. im_message im = assemble_message env uid req seq mid) \<and>
      im_is_large_group im = (length (im_member_id_list im) \<ge> LARGE_GROUP_THRESHOLD) \<and>
      map fst (im_user_seqs im) = (if im_is_large_group im then [] else im_member_id_list im) \<and>
      distinct (im_user_seqs im) \<and>
      (\<forall>(u, v) \<in> set (im_user_seqs im). cnum (tx_seq_user s) u < unat v \<and> unat v \<le> cnum (tx_seq_user s') u))"

definition counters_ok :: "transmite_state \<Rightarrow> bool" where
  "counters_ok s = (counters_wf (tx_seq_session s) \<and> counters_wf (tx_seq_user s))"

definition counters_grow :: "transmite_state \<Rightarrow> transmite_state \<Rightarrow> bool" where
  "counters_grow s s' = (counters_le (tx_seq_session s) (tx_seq_session s') \<and>
     counters_le (tx_seq_user s) (tx_seq_user s'))"

lemma batch_spec:
  assumes "counters_wf m" and "next_user_seq_batch ok us m = (vs, m')"
  shows "counters_wf m' \<and> counters_le m m' \<and>
    (length vs = length us \<longrightarrow> distinct (zip us vs) \<and>
       (\<forall>(u, v) \<in> set (zip us vs). cnum m u < unat v \<and> unat v \<le> cnum m' u))"
proof -
  obtain r m1 where r: "next_user_seq_loop ok 0 us m = (r, m1)" by (metis prod.collapse)
  from next_user_seq_loop_spec [OF assms(1) r] assms(2) r show ?thesis
    by (cases r) (auto simp: next_user_seq_batch_def)
qed

lemma add_user_seqs_spec:
  assumes "counters_ok s" and "add_user_seqs env msg ms s = (p, s')"
  shows "counters_ok s' \<and> counters_grow s s' \<and> tx_seq_session s' = tx_seq_session s \<and>
    tx_idem s' = tx_idem s \<and> tx_mq s' = tx_mq s \<and>
    (\<forall>im. p = Prep_ok im \<longrightarrow> im_message im = msg \<and> im_member_id_list im = ms \<and>
      im_is_large_group im = (length ms \<ge> LARGE_GROUP_THRESHOLD) \<and>
      map fst (im_user_seqs im) = (if im_is_large_group im then [] else ms) \<and>
      distinct (im_user_seqs im) \<and>
      (\<forall>(u, v) \<in> set (im_user_seqs im). cnum (tx_seq_user s) u < unat v \<and> unat v \<le> cnum (tx_seq_user s') u))"
proof (cases "length ms \<ge> LARGE_GROUP_THRESHOLD")
  case True
  with assms show ?thesis by (auto simp: add_user_seqs_def counters_grow_def)
next
  case False
  obtain vs m where b: "next_user_seq_batch (\<lambda>j. te_up env 41 j) ms (tx_seq_user s) = (vs, m)"
    by (metis prod.collapse)
  note sp = batch_spec [OF _ b]
  show ?thesis
    using False b assms sp
    by (auto simp: add_user_seqs_def counters_grow_def counters_ok_def Let_def split: if_splits)
qed

lemma number_message_spec:
  assumes ok: "counters_ok s" and r: "number_message env uid req ms s = Some (p, s')"
  shows "counters_ok s' \<and> counters_grow s s' \<and> tx_idem s' = tx_idem s \<and> tx_mq s' = tx_mq s \<and>
    (\<forall>im. p = Prep_ok im \<longrightarrow> numbered_ok env uid req s im s' \<and> im_member_id_list im = ms)"
proof -
  let ?cid = "smq_conversation_id req"
  obtain q m where q: "next_seq (te_up env 40 0) ?cid (tx_seq_session s) = (q, m)" by (metis prod.collapse)
  note n = next_seq_spec [OF _ q]
  have cw: "counters_wf (tx_seq_session s)" "counters_wf (tx_seq_user s)" using ok by (simp_all add: counters_ok_def)
  let ?s1 = "s\<lparr>tx_seq_session := m\<rparr>"
  have s1: "counters_ok ?s1" "counters_grow s ?s1"
    using n cw by (simp_all add: counters_ok_def counters_grow_def)
  have nz: "v \<noteq> 0" if "q = Some v" for v using n cw that by auto
  show ?thesis
  proof (cases q)
    case None
    with q r s1 show ?thesis by (auto simp: number_message_def next_session_seq_def)
  next
    case (Some v)
    note nv = nz [OF Some]
    show ?thesis
    proof (cases "Next (te_clock env) (tx_id_generator s) (tx_clock_pos s)")
      case None
      with q r Some nv show ?thesis by (simp add: number_message_def next_session_seq_def)
    next
      case nx: (Some o1)
      show ?thesis
      proof (cases o1)
        case (Inl e)
        with nx q r Some nv s1 show ?thesis
          by (auto simp: number_message_def next_session_seq_def counters_ok_def counters_grow_def)
      next
        case (Inr t)
        obtain mid g k where t: "t = (mid, g, k)" by (cases t) auto
        let ?s2 = "?s1\<lparr>tx_id_generator := g, tx_clock_pos := k\<rparr>"
        have a: "add_user_seqs env (assemble_message env uid req v mid) ms ?s2 = (p, s')"
          using nx q r Some nv Inr t by (simp add: number_message_def next_session_seq_def)
        have "counters_ok ?s2" using s1 by (simp add: counters_ok_def)
        note sp = add_user_seqs_spec [OF this a]
        have v: "unat v = cnum (tx_seq_session s) ?cid + 1"
            "m = (tx_seq_session s)(?cid \<mapsto> nat_to_string (unat v))"
          using n cw Some by simp_all
        have sq: "mg_seq_id (assemble_message env uid req v mid) = v" by (simp add: assemble_message_def)
        have "numbered_ok env uid req s im s' \<and> im_member_id_list im = ms" if "p = Prep_ok im" for im
        proof -
          from sp that have im: "im_message im = assemble_message env uid req v mid" by blast
          then have ex: "\<exists>seq mid. im_message im = assemble_message env uid req seq mid" by blast
          from sp that v im sq ex show ?thesis unfolding numbered_ok_def by simp
        qed
        moreover have "counters_ok s' \<and> counters_grow s s' \<and> tx_idem s' = tx_idem s \<and> tx_mq s' = tx_mq s"
          using sp s1 by (simp add: counters_grow_def)
        ultimately show ?thesis by blast
      qed
    qed
  qed
qed

text \<open>How \<open>prepare_message\<close> gets to the numbering: the member list it used.\<close>

lemma prepare_cases:
  assumes "prepare_message env uid req s = Some (p, s')"
  shows "(\<exists>s3 c msg. core s3 = core s \<and> s' = s3 \<and> (p = Prep_throw msg \<or> p = Prep_error c msg)) \<or>
    (\<exists>s2 s3 r. core s3 = core s \<and> member_part s2 = member_part s \<and>
       resolve_members_loop env 0 3 (smq_conversation_id req) s2 = (Inr r, s3) \<and> uid \<in> set (mres_members r) \<and>
       number_message env uid req (mres_members r) s3 = Some (p, s'))"
proof -
  let ?cid = "smq_conversation_id req"
  obtain b s1 where b: "check_rate env uid ?cid s = (b, s1)" by (metis prod.collapse)
  obtain info s2 where i: "resolve_user_info env uid s1 = (info, s2)" by (metis prod.collapse)
  obtain r s3 where r: "resolve_members_loop env 0 3 ?cid s2 = (r, s3)" by (metis prod.collapse)
  have c: "core s1 = core s" "core s2 = core s" "core s3 = core s" "member_part s2 = member_part s"
    using check_rate_frame [of env uid ?cid s] resolve_user_info_frame [of env uid s1]
      resolve_members_loop_frame [of env 0 3 ?cid s2] b i r by simp_all
  show ?thesis
  proof (cases "b \<and> (\<exists>bytes. info = Some bytes \<and> bytes \<noteq> [] \<and> te_parse_user env bytes \<noteq> None)")
    case False
    then have "\<exists>c msg t. core t = core s \<and> prepare_message env uid req s = Some (Prep_error c msg, t)"
      using b i c by (cases b; cases info) (auto simp: prepare_message_def)
    with assms show ?thesis by auto
  next
    case True
    then have eq: "prepare_message env uid req s = (case r of
          Inl e \<Rightarrow> Some (Prep_throw e, s3)
        | Inr r \<Rightarrow> if mres_members r = []
            then Some (Prep_error kConversationNotFound ''conversation dissolved or absent'', s3)
            else if uid \<notin> set (mres_members r)
            then Some (Prep_error kConversationNotMember ''no permission to send'', s3)
            else number_message env uid req (mres_members r) s3)"
      using b i r by (auto simp: prepare_message_def split: sum.split)
    show ?thesis
    proof (cases r)
      case (Inl e)
      with eq assms c show ?thesis by auto
    next
      case (Inr q)
      show ?thesis
      proof (cases "uid \<in> set (mres_members q)")
        case False
        with eq assms c Inr show ?thesis by (auto split: if_splits)
      next
        case mem: True
        then have "mres_members q \<noteq> []" by auto
        with eq assms c Inr mem r show ?thesis by fastforce
      qed
    qed
  qed
qed

section \<open>Overlapping requests\<close>

record send_system =
  ss_tx :: transmite_state
  ss_phase :: "nat \<Rightarrow> send_phase"
  ss_numbered :: "(nat \<times> internal_message) list"
  ss_published :: "(nat \<times> internal_message) list"
  ss_acked :: "(nat \<times> string) list"

definition numbered_by :: "nat \<Rightarrow> send_phase \<Rightarrow> (nat \<times> internal_message) list" where
  "numbered_by i ph' = (case ph' of Ready _ im \<Rightarrow> [(i, im)] | _ \<Rightarrow> [])"

definition published_by ::
  "nat \<Rightarrow> send_phase \<Rightarrow> transmite_state \<Rightarrow> transmite_state \<Rightarrow> (nat \<times> internal_message) list" where
  "published_by i ph' t t' =
     (case ph' of Sent _ im _ \<Rightarrow> if tx_mq t' = tx_mq t then [] else [(i, im)] | _ \<Rightarrow> [])"

definition acked_by :: "nat \<Rightarrow> string \<Rightarrow> send_phase \<Rightarrow> (nat \<times> string) list" where
  "acked_by i key ph' = (case ph' of Sent _ _ st \<Rightarrow> if st = Acked then [(i, key)] else [] | _ \<Rightarrow> [])"

definition request_key :: "uid \<Rightarrow> send_message_req \<Rightarrow> string" where
  "request_key uid req = idem_key_of uid (smq_client_msg_id req)"

definition advance ::
  "nat \<Rightarrow> string \<Rightarrow> send_phase \<Rightarrow> transmite_state \<Rightarrow> send_system \<Rightarrow> send_system" where
  "advance i key ph' t' s =
     s\<lparr>ss_tx := t', ss_phase := (ss_phase s)(i := ph'),
       ss_numbered := ss_numbered s @ numbered_by i ph',
       ss_published := ss_published s @ published_by i ph' (ss_tx s) t',
       ss_acked := ss_acked s @ acked_by i key ph'\<rparr>"

text \<open>Request \<open>i\<close> has the environment \<open>E i\<close>, the user \<open>U i\<close> and the request message \<open>Q i\<close>.\<close>

inductive send_step ::
  "(nat \<Rightarrow> transmite_env) \<Rightarrow> (nat \<Rightarrow> uid) \<Rightarrow> (nat \<Rightarrow> send_message_req) \<Rightarrow> send_system \<Rightarrow> send_system \<Rightarrow> bool"
  for E U Q where
  piece: "send_next (E i) (U i) (Q i) (ss_phase s i) (ss_tx s) = Some (ph', t') \<Longrightarrow>
     send_step E U Q s (advance i (request_key (U i) (Q i)) ph' t' s)"
| elsewhere: "tx_idem t' = tx_idem (ss_tx s) \<Longrightarrow> tx_seq_session t' = tx_seq_session (ss_tx s) \<Longrightarrow>
     tx_seq_user t' = tx_seq_user (ss_tx s) \<Longrightarrow> tx_mq t' = tx_mq (ss_tx s) \<Longrightarrow>
     tx_id_generator t' = tx_id_generator (ss_tx s) \<Longrightarrow>
     send_step E U Q s (s\<lparr>ss_tx := t'\<rparr>)"
| backfill_session: "send_step E U Q s
     (s\<lparr>ss_tx := (ss_tx s)\<lparr>tx_seq_session := backfill_seq ok cid base (tx_seq_session (ss_tx s))\<rparr>\<rparr>)"
| backfill_user: "send_step E U Q s
     (s\<lparr>ss_tx := (ss_tx s)\<lparr>tx_seq_user := backfill_seq ok uid base (tx_seq_user (ss_tx s))\<rparr>\<rparr>)"

definition send_init :: "send_system \<Rightarrow> bool" where
  "send_init s = (counters_ok (ss_tx s) \<and> tx_mq (ss_tx s) = [] \<and> ss_phase s = (\<lambda>_. Start) \<and>
     ss_numbered s = [] \<and> ss_published s = [] \<and> ss_acked s = [])"

text \<open>The three kinds of pieces: numbering, publishing, and those that do neither.\<close>

definition quiet :: "send_phase \<Rightarrow> send_phase \<Rightarrow> bool" where
  "quiet ph ph' = ((\<exists>h. ph' = Holding h \<and> (ph = Start \<or> ph = Conflicted)) \<or> (ph' = Conflicted \<and> ph = Start) \<or>
     (\<exists>out. ph' = Finished out))"

lemma idem_conflict_frame:
  "tx_seq_session (snd (idem_conflict env uid c v s)) = tx_seq_session s \<and>
   tx_seq_user (snd (idem_conflict env uid c v s)) = tx_seq_user s \<and>
   tx_mq (snd (idem_conflict env uid c v s)) = tx_mq s"
  by (simp add: idem_conflict_def idem_retry_def Let_def split: prod.split option.split bool.split)

lemma err_response_frame:
  "tx_seq_session (snd (err_response env key h rid c m s)) = tx_seq_session s \<and>
   tx_seq_user (snd (err_response env key h rid c m s)) = tx_seq_user s \<and>
   tx_mq (snd (err_response env key h rid c m s)) = tx_mq s"
  by (simp add: err_response_def)

lemma callback_frame:
  "tx_seq_session (snd (publish_callback env key rid m st s)) = tx_seq_session s \<and>
   tx_seq_user (snd (publish_callback env key rid m st s)) = tx_seq_user s \<and>
   tx_mq (snd (publish_callback env key rid m st s)) = tx_mq s"
  by (simp add: publish_callback_def)

lemma prepare_spec:
  assumes ok: "counters_ok s" and r: "prepare_message env uid req s = Some (p, s')"
  shows "counters_ok s' \<and> counters_grow s s' \<and> tx_idem s' = tx_idem s \<and> tx_mq s' = tx_mq s \<and>
    (\<forall>im. p = Prep_ok im \<longrightarrow> numbered_ok env uid req s im s')"
proof -
  have same: "tx_idem t = tx_idem s \<and> tx_seq_session t = tx_seq_session s \<and> tx_seq_user t = tx_seq_user s \<and>
      tx_mq t = tx_mq s" if "core t = core s" for t
    using that by (simp add: core_def)
  from prepare_cases [OF r] show ?thesis
  proof
    assume "\<exists>s3 c msg. core s3 = core s \<and> s' = s3 \<and> (p = Prep_throw msg \<or> p = Prep_error c msg)"
    then obtain c msg where "core s' = core s" "p = Prep_throw msg \<or> p = Prep_error c msg" by auto
    with same [of s'] ok show ?thesis by (auto simp: counters_ok_def counters_grow_def)
  next
    assume "\<exists>s2 s3 r. core s3 = core s \<and> member_part s2 = member_part s \<and>
       resolve_members_loop env 0 3 (smq_conversation_id req) s2 = (Inr r, s3) \<and> uid \<in> set (mres_members r) \<and>
       number_message env uid req (mres_members r) s3 = Some (p, s')"
    then obtain s3 ms where c: "core s3 = core s" and n: "number_message env uid req ms s3 = Some (p, s')" by blast
    from same [OF c] have e: "tx_idem s3 = tx_idem s" "tx_seq_session s3 = tx_seq_session s"
      "tx_seq_user s3 = tx_seq_user s" "tx_mq s3 = tx_mq s" by auto
    with ok have "counters_ok s3" by (simp add: counters_ok_def)
    note sp = number_message_spec [OF this n]
    have "numbered_ok env uid req s im s' = numbered_ok env uid req s3 im s'" for im
      by (simp add: numbered_ok_def e)
    moreover have "counters_grow s s' = counters_grow s3 s'" by (simp add: counters_grow_def e)
    ultimately show ?thesis using sp e by simp
  qed
qed

lemma send_next_kinds:
  assumes ok: "counters_ok s" and r: "send_next env uid req ph s = Some (ph', s')"
  shows "(\<exists>h im. ph = Holding h \<and> ph' = Ready h im \<and> numbered_ok env uid req s im s' \<and> counters_ok s' \<and>
            counters_grow s s' \<and> tx_idem s' = tx_idem s \<and> tx_mq s' = tx_mq s)
       \<or> (\<exists>h im st. ph = Ready h im \<and> ph' = Sent h im st \<and> (s' = s \<or> s' = s\<lparr>tx_mq := tx_mq s @ [im]\<rparr>))
       \<or> (quiet ph ph' \<and> counters_ok s' \<and> counters_grow s s' \<and> tx_mq s' = tx_mq s)"
proof (cases ph)
  case Start
  with r ok show ?thesis
    by (auto simp: send_next_def quiet_def counters_ok_def counters_grow_def Let_def
        split: if_splits prod.splits bool.splits)
next
  case Conflicted
  obtain o1 s1 where c: "idem_conflict env uid (smq_client_msg_id req)
      (tx_idem s (idem_key_of uid (smq_client_msg_id req))) s = (o1, s1)" by (metis prod.collapse)
  have "tx_seq_session s1 = tx_seq_session s" "tx_seq_user s1 = tx_seq_user s" "tx_mq s1 = tx_mq s"
    using idem_conflict_frame [of env uid "smq_client_msg_id req" _ s] c by (metis snd_conv)+
  with Conflicted r ok c show ?thesis
    by (cases o1) (auto simp: send_next_def quiet_def counters_ok_def counters_grow_def Let_def map_prod_def
        err_response_def split: if_splits)
next
  case (Holding h)
  obtain p s2 where p: "prepare_message env uid req s = Some (p, s2)"
    using Holding r by (auto simp: send_next_def split: option.splits)
  note sp = prepare_spec [OF ok p]
  show ?thesis
  proof (cases p)
    case (Prep_throw w)
    with Holding r p sp show ?thesis by (auto simp: send_next_def quiet_def)
  next
    case (Prep_error c m)
    then have "quiet ph ph'" "s' = snd (err_response env (idem_key_of uid (smq_client_msg_id req)) h
        (smq_request_id req) c m s2)"
      using Holding r p by (auto simp: send_next_def quiet_def Let_def map_prod_def split_beta)
    moreover from this(2) err_response_frame [of env _ h _ c m s2]
    have "tx_seq_session s' = tx_seq_session s2" "tx_seq_user s' = tx_seq_user s2" "tx_mq s' = tx_mq s2" by simp_all
    ultimately show ?thesis using sp by (simp add: counters_ok_def counters_grow_def)
  next
    case (Prep_ok im)
    with Holding r p sp show ?thesis by (auto simp: send_next_def)
  qed
next
  case (Ready h im)
  show ?thesis
  proof (cases "te_publish env im")
    case Publish_throws
    then have "quiet ph ph'" "s' = snd (publish_message env (idem_key_of uid (smq_client_msg_id req))
        (smq_request_id req) im s)"
      using Ready r by (auto simp: send_next_def quiet_def Let_def map_prod_def split_beta)
    moreover from this(2) Publish_throws
    have "tx_seq_session s' = tx_seq_session s" "tx_seq_user s' = tx_seq_user s" "tx_mq s' = tx_mq s"
      by (simp_all add: publish_message_def)
    ultimately show ?thesis using ok by (simp add: counters_ok_def counters_grow_def)
  next
    case (Confirmed st d)
    with Ready r show ?thesis by (auto simp: send_next_def Let_def split: if_splits)
  qed
next
  case (Sent h im st)
  then have "quiet ph ph'" "s' = snd (publish_callback env (idem_key_of uid (smq_client_msg_id req))
      (smq_request_id req) (im_message im) st s)"
    using r by (auto simp: send_next_def quiet_def Let_def map_prod_def split_beta)
  then show ?thesis
    using ok callback_frame [of env _ _ "im_message im" st s] by (simp add: counters_ok_def counters_grow_def)
next
  case (Finished out)
  with r show ?thesis by (simp add: send_next_def)
qed

section \<open>Sequence numbers are unique\<close>

definition conv_seq :: "internal_message \<Rightarrow> cid \<times> u64" where
  "conv_seq im = (mg_conversation_id (im_message im), mg_seq_id (im_message im))"

definition below_counters :: "transmite_state \<Rightarrow> internal_message \<Rightarrow> bool" where
  "below_counters t im =
     (unat (snd (conv_seq im)) \<le> cnum (tx_seq_session t) (fst (conv_seq im)) \<and>
      (\<forall>(u, v) \<in> set (im_user_seqs im). unat v \<le> cnum (tx_seq_user t) u))"

definition seqs_distinct :: "internal_message list \<Rightarrow> bool" where
  "seqs_distinct ims = (distinct (map conv_seq ims) \<and> distinct (concat (map im_user_seqs ims)))"

text \<open>Which request has published: each at most once, and what it numbered.\<close>

definition publications_ok :: "send_system \<Rightarrow> bool" where
  "publications_ok s =
     (tx_mq (ss_tx s) = map snd (ss_published s) \<and> distinct (map fst (ss_published s)) \<and>
      set (ss_published s) \<subseteq> set (ss_numbered s) \<and>
      (\<forall>i im. (i, im) \<in> set (ss_published s) \<longrightarrow>
         (\<exists>h jm st. ss_phase s i = Sent h jm st) \<or> (\<exists>out. ss_phase s i = Finished out)) \<and>
      (\<forall>i h im. ss_phase s i = Ready h im \<longrightarrow> (i, im) \<in> set (ss_numbered s)))"

definition seq_inv :: "send_system \<Rightarrow> bool" where
  "seq_inv s =
     (counters_ok (ss_tx s) \<and> seqs_distinct (map snd (ss_numbered s)) \<and>
      (\<forall>im \<in> set (map snd (ss_numbered s)). below_counters (ss_tx s) im) \<and> publications_ok s)"

lemma below_counters_grow:
  "below_counters t im \<Longrightarrow> counters_grow t t' \<Longrightarrow> below_counters t' im"
  by (fastforce simp: below_counters_def counters_grow_def counters_le_def intro: order_trans)

lemma conv_of_assembled: "mg_conversation_id (assemble_message env uid req seq mid) = smq_conversation_id req"
  by (simp add: assemble_message_def)

text \<open>A freshly numbered message is above every number given before.\<close>

lemma numbered_fresh:
  assumes n: "numbered_ok env uid req t im t'" and b: "\<forall>jm \<in> set ims. below_counters t jm"
    and d: "seqs_distinct ims"
  shows "seqs_distinct (ims @ [im]) \<and> below_counters t' im"
proof -
  have c: "fst (conv_seq im) = smq_conversation_id req" "snd (conv_seq im) = mg_seq_id (im_message im)"
    using n by (auto simp: numbered_ok_def conv_seq_def conv_of_assembled)
  have "conv_seq jm \<noteq> conv_seq im" if "jm \<in> set ims" for jm
  proof
    assume "conv_seq jm = conv_seq im"
    moreover have "unat (snd (conv_seq jm)) \<le> cnum (tx_seq_session t) (fst (conv_seq jm))"
      using b that by (simp add: below_counters_def)
    ultimately show False using n c by (simp add: numbered_ok_def)
  qed
  moreover have "(u, v) \<notin> set (im_user_seqs im)" if "jm \<in> set ims" "(u, v) \<in> set (im_user_seqs jm)" for jm u v
  proof
    assume "(u, v) \<in> set (im_user_seqs im)"
    then have "cnum (tx_seq_user t) u < unat v" using n by (auto simp: numbered_ok_def)
    moreover have "unat v \<le> cnum (tx_seq_user t) u" using b that by (auto simp: below_counters_def)
    ultimately show False by simp
  qed
  moreover have "distinct (im_user_seqs im)" using n by (simp add: numbered_ok_def)
  ultimately have "seqs_distinct (ims @ [im])" using d by (fastforce simp: seqs_distinct_def)
  moreover have "below_counters t' im"
    using n c by (auto simp: below_counters_def numbered_ok_def cnum_def)
  ultimately show ?thesis by simp
qed

lemma seq_inv_numbering:
  assumes inv: "seq_inv s" and ph: "ss_phase s i = Holding h"
    and n: "numbered_ok env uid req (ss_tx s) im t'" and t: "counters_ok t'" "counters_grow (ss_tx s) t'"
      "tx_mq t' = tx_mq (ss_tx s)"
  shows "seq_inv (advance i key (Ready h im) t' s)"
proof -
  have "seqs_distinct (map snd (ss_numbered s) @ [im]) \<and> below_counters t' im"
    using inv by (intro numbered_fresh [OF n]) (simp_all add: seq_inv_def)
  moreover have "publications_ok (advance i key (Ready h im) t' s)"
    using inv ph t(3)
    by (force simp: seq_inv_def publications_ok_def advance_def numbered_by_def published_by_def)
  moreover have "below_counters t' jm" if "jm \<in> set (map snd (ss_numbered s))" for jm
    using inv that t(2) below_counters_grow by (auto simp: seq_inv_def)
  ultimately show ?thesis
    using t(1) by (auto simp: seq_inv_def advance_def numbered_by_def)
qed

lemma seq_inv_publishing:
  assumes inv: "seq_inv s" and ph: "ss_phase s i = Ready h im"
    and t: "t' = ss_tx s \<or> t' = (ss_tx s)\<lparr>tx_mq := tx_mq (ss_tx s) @ [im]\<rparr>"
  shows "seq_inv (advance i key (Sent h im st) t' s)"
proof -
  have fresh: "i \<notin> fst ` set (ss_published s)"
    using inv ph by (force simp: seq_inv_def publications_ok_def)
  have "publications_ok (advance i key (Sent h im st) t' s)"
    using t
  proof
    assume "t' = ss_tx s"
    then show ?thesis
      using inv by (auto simp: seq_inv_def publications_ok_def advance_def numbered_by_def published_by_def)
  next
    assume "t' = (ss_tx s)\<lparr>tx_mq := tx_mq (ss_tx s) @ [im]\<rparr>"
    then show ?thesis
      using inv ph fresh
      by (auto simp: seq_inv_def publications_ok_def advance_def numbered_by_def published_by_def)
  qed
  moreover have "counters_ok t'" "counters_grow (ss_tx s) t'"
    using inv t by (auto simp: seq_inv_def counters_ok_def counters_grow_def)
  ultimately show ?thesis
    using inv below_counters_grow by (auto simp: seq_inv_def advance_def numbered_by_def)
qed

lemma seq_inv_quiet:
  assumes inv: "seq_inv s" and q: "quiet (ss_phase s i) ph'"
    and t: "counters_ok t'" "counters_grow (ss_tx s) t'" "tx_mq t' = tx_mq (ss_tx s)"
  shows "seq_inv (advance i key ph' t' s)"
proof -
  have p: "publications_ok s" using inv by (simp add: seq_inv_def)
  have none: "numbered_by i ph' = []" "published_by i ph' (ss_tx s) t' = []"
    using q by (auto simp: quiet_def numbered_by_def published_by_def)
  have nr: "ph' \<noteq> Ready h im" for h im using q by (auto simp: quiet_def)
  have fin: "\<exists>out. ph' = Finished out"
    if "(\<exists>h jm st. ss_phase s i = Sent h jm st) \<or> (\<exists>out. ss_phase s i = Finished out)"
    using q that by (auto simp: quiet_def)
  have "publications_ok (advance i key ph' t' s)"
    unfolding publications_ok_def
  proof (intro conjI allI impI)
    fix j jm
    assume "(j, jm) \<in> set (ss_published (advance i key ph' t' s))"
    then have "(\<exists>h jm st. ss_phase s j = Sent h jm st) \<or> (\<exists>out. ss_phase s j = Finished out)"
      using p none by (simp add: advance_def publications_ok_def) blast
    then show "(\<exists>h jm st. ss_phase (advance i key ph' t' s) j = Sent h jm st) \<or>
        (\<exists>out. ss_phase (advance i key ph' t' s) j = Finished out)"
      using fin by (cases "j = i") (auto simp: advance_def)
  next
    fix j h jm
    assume "ss_phase (advance i key ph' t' s) j = Ready h jm"
    then show "(j, jm) \<in> set (ss_numbered (advance i key ph' t' s))"
      using p none nr by (cases "j = i") (auto simp: advance_def publications_ok_def)
  qed (use p none t(3) in \<open>simp_all add: advance_def publications_ok_def\<close>)
  then show ?thesis
    using inv t below_counters_grow none by (auto simp: seq_inv_def advance_def)
qed

lemma seq_inv_elsewhere:
  assumes "seq_inv s" and "counters_ok t'" and "counters_grow (ss_tx s) t'" and "tx_mq t' = tx_mq (ss_tx s)"
  shows "seq_inv (s\<lparr>ss_tx := t'\<rparr>)"
  using assms below_counters_grow by (auto simp: seq_inv_def publications_ok_def)

lemma seq_inv_step:
  assumes "seq_inv s" and "send_step E U Q s s'"
  shows "seq_inv s'"
  using assms(2)
proof (cases rule: send_step.cases)
  case (piece i ph' t')
  have ok: "counters_ok (ss_tx s)" using assms(1) by (simp add: seq_inv_def)
  from send_next_kinds [OF ok piece(2)] piece(1) show ?thesis
    using seq_inv_numbering [OF assms(1)] seq_inv_publishing [OF assms(1)] seq_inv_quiet [OF assms(1)] by blast
next
  case (elsewhere t')
  then show ?thesis
    using seq_inv_elsewhere [OF assms(1), of t'] assms(1) by (simp add: seq_inv_def counters_ok_def counters_grow_def)
next
  case (backfill_session ok cid base)
  then show ?thesis
    using seq_inv_elsewhere [OF assms(1)] assms(1) backfill_seq_spec [of "tx_seq_session (ss_tx s)" ok cid base]
    by (simp add: seq_inv_def counters_ok_def counters_grow_def)
next
  case (backfill_user ok uid base)
  then show ?thesis
    using seq_inv_elsewhere [OF assms(1)] assms(1) backfill_seq_spec [of "tx_seq_user (ss_tx s)" ok uid base]
    by (simp add: seq_inv_def counters_ok_def counters_grow_def)
qed

lemma seq_inv_init: "send_init s \<Longrightarrow> seq_inv s"
  by (simp add: send_init_def seq_inv_def publications_ok_def seqs_distinct_def)

interpretation send_sys: invariant_system send_init "send_step E U Q" seq_inv for E U Q
  by unfold_locales (auto intro: seq_inv_init seq_inv_step)

text \<open>Distinct numbers stay distinct in any selection of different entries.\<close>

lemma distinct_map_part:
  "distinct (map f xs) \<Longrightarrow> distinct ys \<Longrightarrow> set ys \<subseteq> set xs \<Longrightarrow> distinct (map f ys)"
  by (meson distinct_map inj_on_subset)

lemma distinct_concat_part:
  assumes "distinct (concat (map f xs))" and "distinct ys" and "set ys \<subseteq> set xs"
  shows "distinct (concat (map f ys))"
proof -
  have one: "distinct (f x)" if "x \<in> set xs" for x
    using assms(1) that by (induction xs) auto
  have two: "set (f x) \<inter> set (f y) = {}" if "x \<in> set xs" "y \<in> set xs" "x \<noteq> y" for x y
    using assms(1) that by (induction xs) fastforce+
  show ?thesis
    using assms(2,3)
  proof (induction ys)
    case Nil
    then show ?case by simp
  next
    case (Cons y ys)
    moreover have "set (f y) \<inter> \<Union> (set ` f ` set ys) = {}" using Cons.prems two by fastforce
    ultimately show ?case using one by (simp add: image_image)
  qed
qed

lemma published_seqs:
  assumes "seq_inv s"
  shows "seqs_distinct (tx_mq (ss_tx s))"
proof -
  have p: "tx_mq (ss_tx s) = map snd (ss_published s)" "distinct (ss_published s)"
      "set (ss_published s) \<subseteq> set (ss_numbered s)"
    and d: "distinct (map (conv_seq \<circ> snd) (ss_numbered s))"
      "distinct (concat (map (im_user_seqs \<circ> snd) (ss_numbered s)))"
    using assms distinct_map [of fst "ss_published s"]
    by (auto simp: seq_inv_def publications_ok_def seqs_distinct_def)
  show ?thesis
    using distinct_map_part [OF d(1) p(2,3)] distinct_concat_part [OF d(2) p(2,3)]
    by (simp add: seqs_distinct_def p(1))
qed

text \<open>Claim C10. Sequence numbers under concurrency. However the requests overlap, whichever of their
  Redis and broker calls fail, and whenever a counter is raised by a backfill: no two messages in the
  broker have the same conversation and sequence number, and no two of the timeline entries they carry
  have the same user and user sequence number.\<close>

theorem sequence_numbers_unique:
  assumes "reach send_init (send_step E U Q) s"
  shows "distinct (map (\<lambda>im. (mg_conversation_id (im_message im), mg_seq_id (im_message im))) (tx_mq (ss_tx s)))
       \<and> distinct (concat (map im_user_seqs (tx_mq (ss_tx s))))"
proof -
  have "seq_inv s" using assms by (rule send_sys.inv_reach)
  then have "seqs_distinct (tx_mq (ss_tx s))" by (rule published_seqs)
  then show ?thesis by (simp add: seqs_distinct_def conv_seq_def [abs_def])
qed

section \<open>At most one acknowledged message per idempotency key\<close>

text \<open>A request is in charge of key \<open>K\<close> from its claim to its end.\<close>

definition in_charge :: "(nat \<Rightarrow> uid) \<Rightarrow> (nat \<Rightarrow> send_message_req) \<Rightarrow> string \<Rightarrow> send_system \<Rightarrow> nat \<Rightarrow> bool" where
  "in_charge U Q K s i =
     (request_key (U i) (Q i) = K \<and>
      (case ss_phase s i of Holding _ \<Rightarrow> True | Ready _ _ \<Rightarrow> True | Sent _ _ _ \<Rightarrow> True | _ \<Rightarrow> False))"

text \<open>
  The key's life: free, claimed, or accepted. While it is claimed or accepted its value is one of the
  two texts the handler writes, neither of which is read as corrupt.
\<close>

definition key_value_ok :: "string option \<Rightarrow> bool" where
  "key_value_ok v = (v = None \<or> v = Some pending_value \<or>
     (\<exists>m. m \<noteq> 0 \<and> v = Some (serialize_idempotency_state (mk_idem Accepted m))))"

text \<open>The id generator is sound for the clocks, and no clock reads the epoch or earlier: no id is 0.\<close>

definition generator_ok :: "u64 \<Rightarrow> transmite_state \<Rightarrow> bool" where
  "generator_ok e t = (sf_wf (tx_id_generator t) \<and> sf_epoch_ms (tx_id_generator t) = e)"

definition clock_after :: "u64 \<Rightarrow> clock \<Rightarrow> bool" where
  "clock_after e clk = (clock_in_range e clk \<and> (\<forall>k. e < clk k))"

definition id_nonzero :: "internal_message \<Rightarrow> bool" where
  "id_nonzero im = ((of_int (mg_message_id (im_message im)) :: u64) \<noteq> 0)"

lemma Next_nonzero:
  assumes "sf_wf g" and "clock_after (sf_epoch_ms g) clk" and "Next clk g k = Some (Inr (m, g', k'))"
  shows "sf_wf g' \<and> sf_epoch_ms g' = sf_epoch_ms g \<and> m \<noteq> 0"
proof -
  have c: "clock_in_range (sf_epoch_ms g) clk" using assms(2) by (simp add: clock_after_def)
  note sp = Next_spec [OF assms(1) c assms(3)]
  then obtain j where j: "sf_last_ts g' = clk j" by blast
  have c': "clock_in_range (sf_epoch_ms g') clk" using sp c by simp
  have "unat (sf_epoch_ms g') < unat (sf_last_ts g')"
    using assms(2) j sp by (simp add: clock_after_def word_less_nat_alt)
  then have "0 < unat m" using unat_id [OF _ c' j] sp by simp
  then show ?thesis using sp by auto
qed

lemma number_message_id:
  assumes g: "generator_ok e s" and c: "clock_after e (te_clock env)"
    and r: "number_message env uid req ms s = Some (p, s')"
  shows "generator_ok e s' \<and> (\<forall>im. p = Prep_ok im \<longrightarrow> id_nonzero im)"
proof -
  obtain v m where v: "next_session_seq (te_up env 40 0) (smq_conversation_id req) (tx_seq_session s) = (v, m)"
    by (metis prod.collapse)
  show ?thesis
  proof (cases "v = 0")
    case True
    with r v g show ?thesis by (auto simp: number_message_def generator_ok_def)
  next
    case False
    then obtain o1 where o1: "Next (te_clock env) (tx_id_generator s) (tx_clock_pos s) = Some o1"
      using r v by (auto simp: number_message_def Let_def split: option.splits)
    show ?thesis
    proof (cases o1)
      case (Inl x)
      with r v g False o1 show ?thesis by (auto simp: number_message_def generator_ok_def)
    next
      case (Inr t)
      obtain mid gen k where t: "t = (mid, gen, k)" by (cases t) auto
      have n: "sf_wf gen \<and> sf_epoch_ms gen = e \<and> mid \<noteq> 0"
        using Next_nonzero [of "tx_id_generator s" "te_clock env"] g c o1 Inr t by (simp add: generator_ok_def)
      let ?s2 = "s\<lparr>tx_seq_session := m, tx_id_generator := gen, tx_clock_pos := k\<rparr>"
      have a: "add_user_seqs env (assemble_message env uid req v mid) ms ?s2 = (p, s')"
        using r v False o1 Inr t by (simp add: number_message_def)
      have "tx_id_generator s' = gen" "\<And>im. p = Prep_ok im \<Longrightarrow> im_message im = assemble_message env uid req v mid"
        using a by (auto simp: add_user_seqs_def Let_def split: if_splits prod.splits)
      then show ?thesis
        using n by (auto simp: generator_ok_def id_nonzero_def assemble_message_def)
    qed
  qed
qed

lemma number_message_idem: "number_message env uid req ms s = Some (p, s') \<Longrightarrow> tx_idem s' = tx_idem s"
  by (auto simp: number_message_def add_user_seqs_def Let_def
      split: prod.splits option.splits if_splits sum.splits)

lemma prepare_idem: "prepare_message env uid req s = Some (p, s') \<Longrightarrow> tx_idem s' = tx_idem s"
  using prepare_cases [of env uid req s p s'] number_message_idem [of env uid req] by (fastforce simp: core_def)

lemma prepare_id:
  assumes g: "generator_ok e s" and c: "clock_after e (te_clock env)"
    and r: "prepare_message env uid req s = Some (p, s')"
  shows "generator_ok e s' \<and> tx_idem s' = tx_idem s \<and> (\<forall>im. p = Prep_ok im \<longrightarrow> id_nonzero im)"
  using prepare_cases [OF r]
proof
  assume "\<exists>s3 c msg. core s3 = core s \<and> s' = s3 \<and> (p = Prep_throw msg \<or> p = Prep_error c msg)"
  then obtain c msg where "core s' = core s" "p = Prep_throw msg \<or> p = Prep_error c msg" by auto
  with g show ?thesis by (auto simp: core_def generator_ok_def)
next
  assume "\<exists>s2 s3 r. core s3 = core s \<and> member_part s2 = member_part s \<and>
     resolve_members_loop env 0 3 (smq_conversation_id req) s2 = (Inr r, s3) \<and> uid \<in> set (mres_members r) \<and>
     number_message env uid req (mres_members r) s3 = Some (p, s')"
  then obtain s3 ms where co: "core s3 = core s" and n: "number_message env uid req ms s3 = Some (p, s')" by blast
  have "generator_ok e s3" "tx_idem s3 = tx_idem s" using g co by (simp_all add: core_def generator_ok_def)
  then show ?thesis using number_message_id [OF _ c n] number_message_idem [OF n] by simp
qed

definition phase_ok :: "send_message_req \<Rightarrow> send_phase \<Rightarrow> bool" where
  "phase_ok req ph =
     (case ph of
        Conflicted \<Rightarrow> smq_client_msg_id req \<noteq> []
      | Ready _ im \<Rightarrow> id_nonzero im
      | Sent _ im _ \<Rightarrow> id_nonzero im
      | _ \<Rightarrow> True)"

lemma map_prod_Finished: "map_prod Finished id x = (ph', s') \<longleftrightarrow> ph' = Finished (fst x) \<and> s' = snd x"
  by (cases x) auto

lemma send_next_phase_ok:
  assumes "generator_ok e s" and "clock_after e (te_clock env)" and "phase_ok req ph"
    and "send_next env uid req ph s = Some (ph', s')"
  shows "generator_ok e s' \<and> phase_ok req ph'"
proof (cases ph)
  case (Holding h)
  obtain p s2 where p: "prepare_message env uid req s = Some (p, s2)"
    using Holding assms(4) by (auto simp: send_next_def split: option.splits)
  from prepare_id [OF assms(1,2) p] Holding assms(4) p show ?thesis
    by (cases p) (auto simp: send_next_def phase_ok_def Let_def map_prod_Finished err_response_def generator_ok_def)
next
  case Conflicted
  have "tx_id_generator (snd (idem_conflict env uid c v s)) = tx_id_generator s" for c v
    by (simp add: idem_conflict_def idem_retry_def Let_def split: prod.split option.split bool.split)
  with Conflicted assms show ?thesis
    by (auto simp: send_next_def phase_ok_def Let_def map_prod_Finished err_response_def generator_ok_def
        split: if_splits prod.splits idem_outcome.splits) (metis snd_conv)+
qed (use assms in \<open>auto simp: send_next_def phase_ok_def Let_def map_prod_Finished generator_ok_def
      publish_callback_def publish_message_def set_nx_def split: if_splits publish_outcome.splits\<close>)

definition idem_inv :: "(nat \<Rightarrow> uid) \<Rightarrow> (nat \<Rightarrow> send_message_req) \<Rightarrow> string \<Rightarrow> send_system \<Rightarrow> bool" where
  "idem_inv U Q K s =
     (key_value_ok (tx_idem (ss_tx s) K) \<and>
      (\<forall>i j. in_charge U Q K s i \<longrightarrow> in_charge U Q K s j \<longrightarrow> i = j) \<and>
      (\<forall>i. in_charge U Q K s i \<longrightarrow> tx_idem (ss_tx s) K \<noteq> None) \<and>
      length (filter (\<lambda>a. snd a = K) (ss_acked s)) \<le> 1 \<and>
      (\<forall>i. (i, K) \<in> set (ss_acked s) \<longrightarrow> tx_idem (ss_tx s) K \<noteq> None \<and>
         (\<forall>j. in_charge U Q K s j \<longrightarrow> j = i \<and> (\<exists>h im. ss_phase s j = Sent h im Acked))))"


lemma send_next_other:
  assumes k: "request_key uid req \<noteq> K" and ph: "phase_ok req ph"
    and r: "send_next env uid req ph s = Some (ph', s')"
  shows "tx_idem s' K = tx_idem s K"
proof (cases ph)
  case (Holding h)
  obtain p s2 where p: "prepare_message env uid req s = Some (p, s2)"
    using Holding r by (auto simp: send_next_def split: option.splits)
  from prepare_idem [OF p] Holding r p k show ?thesis
    by (cases p) (auto simp: send_next_def Let_def map_prod_Finished err_response_def request_key_def)
next
  case Conflicted
  then have c: "idem_key_of uid (smq_client_msg_id req) = idempotency_key_for uid (smq_client_msg_id req)"
    using ph by (simp add: phase_ok_def idem_key_of_def)
  have "tx_idem (snd (idem_conflict env uid (smq_client_msg_id req) v s)) K = tx_idem s K" for v
    using k c
    by (auto simp: idem_conflict_def idem_retry_def Let_def set_nx_def request_key_def split: option.split)
  with Conflicted r show ?thesis
    by (auto simp: send_next_def Let_def map_prod_Finished err_response_def
        split: if_splits prod.splits idem_outcome.splits) (metis snd_conv)+
qed (use k r in \<open>auto simp: send_next_def Let_def map_prod_Finished publish_callback_def publish_message_def
      set_nx_def request_key_def split: if_splits publish_outcome.splits\<close>)

lemma idem_conflict_ok:
  assumes "key_value_ok v"
  shows "snd (idem_conflict env uid c v s) = s \<and> (\<forall>h. fst (idem_conflict env uid c v s) \<noteq> Idem_go h)"
proof -
  have "idem_status (case v of Some v \<Rightarrow> parse_idempotency_state v | None \<Rightarrow> mk_idem Idem_Empty 0) \<noteq> Corrupt"
    using assms
    by (auto simp: key_value_ok_def pending_value_def parse_serialize)
  then show ?thesis
    by (auto simp: idem_conflict_def Let_def split: option.split)
qed

text \<open>What the pieces of a request do to its own key.\<close>

lemma send_next_mine:
  assumes k: "request_key uid req = K" "K \<noteq> []" and up: "te_up env 0 0" "te_up env 1 0"
    and v: "key_value_ok (tx_idem s K)" and ph: "phase_ok req ph" and g: "generator_ok e s"
    and c: "clock_after e (te_clock env)" and r: "send_next env uid req ph s = Some (ph', s')"
  shows "(ph = Start \<and> tx_idem s K = None \<and> ph' = Holding True \<and> tx_idem s' K = Some pending_value)
       \<or> ((ph = Start \<or> ph = Conflicted) \<and> (ph' = Conflicted \<or> (\<exists>out. ph' = Finished out)) \<and> tx_idem s' K = tx_idem s K)
       \<or> (\<exists>h im. ph = Holding h \<and> ph' = Ready h im \<and> tx_idem s' K = tx_idem s K)
       \<or> (\<exists>h im st. ph = Ready h im \<and> ph' = Sent h im st \<and> tx_idem s' K = tx_idem s K)
       \<or> (((\<exists>h. ph = Holding h) \<or> (\<exists>h im. ph = Ready h im) \<or> (\<exists>h im st. ph = Sent h im st \<and> st \<noteq> Acked)) \<and>
            (\<exists>out. ph' = Finished out) \<and> (tx_idem s' K = tx_idem s K \<or> tx_idem s' K = None))
       \<or> (\<exists>h im. ph = Sent h im Acked \<and> (\<exists>out. ph' = Finished out) \<and>
            (tx_idem s' K = tx_idem s K \<or>
             (\<exists>m. m \<noteq> 0 \<and> tx_idem s' K = Some (serialize_idempotency_state (mk_idem Accepted m)))))"
proof (cases ph)
  case Start
  have "smq_client_msg_id req \<noteq> []" using k by (auto simp: request_key_def idem_key_of_def)
  with Start r up k show ?thesis
    by (auto simp: send_next_def Let_def set_nx_def request_key_def split: if_splits)
next
  case Conflicted
  with r up k idem_conflict_ok [OF v, of env uid "smq_client_msg_id req" s] show ?thesis
    by (auto simp: send_next_def Let_def map_prod_Finished err_response_def request_key_def
        split: prod.splits idem_outcome.splits)
next
  case (Holding h)
  obtain p s2 where p: "prepare_message env uid req s = Some (p, s2)"
    using Holding r by (auto simp: send_next_def split: option.splits)
  from prepare_id [OF g c p] Holding r p k show ?thesis
    by (cases p) (auto simp: send_next_def Let_def map_prod_Finished err_response_def request_key_def
        split: if_splits)
next
  case (Ready h im)
  with r k show ?thesis
    by (cases "te_publish env im")
       (auto simp: send_next_def Let_def map_prod_Finished publish_message_def request_key_def split: if_splits)
next
  case (Sent h im st)
  with ph have "(of_int (mg_message_id (im_message im)) :: u64) \<noteq> 0" by (simp add: phase_ok_def id_nonzero_def)
  with Sent r k show ?thesis
    by (cases "st = Acked")
       (auto simp: send_next_def Let_def map_prod_Finished publish_callback_def request_key_def split: if_splits)
next
  case (Finished out)
  with r show ?thesis by (simp add: send_next_def)
qed

definition idem_sys_inv ::
  "u64 \<Rightarrow> (nat \<Rightarrow> uid) \<Rightarrow> (nat \<Rightarrow> send_message_req) \<Rightarrow> string \<Rightarrow> send_system \<Rightarrow> bool" where
  "idem_sys_inv e U Q K s =
     (generator_ok e (ss_tx s) \<and> (\<forall>i. phase_ok (Q i) (ss_phase s i)) \<and> idem_inv U Q K s)"

lemma idem_invD:
  assumes "idem_inv U Q K s"
  shows "key_value_ok (tx_idem (ss_tx s) K)"
    and "in_charge U Q K s i \<Longrightarrow> in_charge U Q K s j \<Longrightarrow> i = j"
    and "in_charge U Q K s i \<Longrightarrow> tx_idem (ss_tx s) K \<noteq> None"
    and "length (filter (\<lambda>a. snd a = K) (ss_acked s)) \<le> 1"
    and "(i, K) \<in> set (ss_acked s) \<Longrightarrow> tx_idem (ss_tx s) K \<noteq> None"
    and "(i, K) \<in> set (ss_acked s) \<Longrightarrow> in_charge U Q K s j \<Longrightarrow> j = i \<and> (\<exists>h im. ss_phase s j = Sent h im Acked)"
  using assms by (auto simp: idem_inv_def)

text \<open>A request in charge that has not been acknowledged: nobody has.\<close>

lemma none_acked:
  assumes "idem_inv U Q K s" and "in_charge U Q K s i" and "\<And>h im. ss_phase s i \<noteq> Sent h im Acked"
  shows "(j, K) \<notin> set (ss_acked s)"
  using idem_invD(6) [OF assms(1), of j i] assms(2,3) by blast

lemma none_acked_filter: "(\<And>j. (j, K) \<notin> set as) \<Longrightarrow> filter (\<lambda>a. snd a = K) as = []"
  by (auto simp: filter_empty_conv)

text \<open>A piece that changes neither the key, nor who is in charge, nor the acknowledgements.\<close>

lemma idem_inv_same:
  assumes "idem_inv U Q K s" and "tx_idem (ss_tx s') K = tx_idem (ss_tx s) K" and "ss_acked s' = ss_acked s"
    and "\<And>j. in_charge U Q K s' j \<longleftrightarrow> in_charge U Q K s j"
    and "\<And>j. in_charge U Q K s j \<Longrightarrow> ss_phase s' j = ss_phase s j"
  shows "idem_inv U Q K s'"
  using assms unfolding idem_inv_def by metis

lemma in_charge_advance:
  "in_charge U Q K (advance i key ph' t' s) j =
     (if j = i then request_key (U i) (Q i) = K \<and>
        (case ph' of Holding _ \<Rightarrow> True | Ready _ _ \<Rightarrow> True | Sent _ _ _ \<Rightarrow> True | _ \<Rightarrow> False)
      else in_charge U Q K s j)"
  by (simp add: in_charge_def advance_def)

lemma idem_inv_other:
  assumes inv: "idem_inv U Q K s" and k: "request_key (U i) (Q i) \<noteq> K"
    and t: "tx_idem t' K = tx_idem (ss_tx s) K"
  shows "idem_inv U Q K (advance i (request_key (U i) (Q i)) ph' t' s)"
proof -
  let ?s' = "advance i (request_key (U i) (Q i)) ph' t' s"
  have a: "filter (\<lambda>a. snd a = K) (ss_acked ?s') = filter (\<lambda>a. snd a = K) (ss_acked s)"
    "(j, K) \<in> set (ss_acked ?s') \<longleftrightarrow> (j, K) \<in> set (ss_acked s)" for j
    using k by (auto simp: advance_def acked_by_def split: send_phase.split)
  have c: "in_charge U Q K ?s' j \<longleftrightarrow> in_charge U Q K s j" for j
    using k by (auto simp: in_charge_def advance_def)
  have p: "ss_phase ?s' j = ss_phase s j" if "in_charge U Q K s j" for j
    using that k by (auto simp: advance_def in_charge_def)
  have v: "tx_idem (ss_tx ?s') K = tx_idem (ss_tx s) K" using t by (simp add: advance_def)
  show ?thesis
    using inv p unfolding idem_inv_def a c v by metis
qed

text \<open>The request's own pieces, one lemma per kind.\<close>

lemma idem_inv_claim:
  assumes inv: "idem_inv U Q K s" and k: "request_key (U i) (Q i) = K"
    and free: "tx_idem (ss_tx s) K = None" and t: "tx_idem t' K = Some pending_value"
  shows "idem_inv U Q K (advance i K (Holding True) t' s)"
proof -
  let ?s' = "advance i K (Holding True) t' s"
  have no: "\<not> in_charge U Q K s j" "(j, K) \<notin> set (ss_acked s)" for j
    using idem_invD(3,5) [OF inv, of j] free by blast+
  have a: "ss_acked ?s' = ss_acked s" "tx_idem (ss_tx ?s') K = Some pending_value"
    using t by (simp_all add: advance_def acked_by_def)
  have c: "in_charge U Q K ?s' j \<longleftrightarrow> j = i" for j using no k by (simp add: in_charge_advance)
  show ?thesis
    unfolding idem_inv_def a c using no none_acked_filter [of K "ss_acked s"] by (simp add: key_value_ok_def)
qed

lemma idem_inv_idle:
  assumes inv: "idem_inv U Q K s" and ph: "ss_phase s i = Start \<or> ss_phase s i = Conflicted"
    and ph': "ph' = Conflicted \<or> (\<exists>out. ph' = Finished out)" and t: "tx_idem t' K = tx_idem (ss_tx s) K"
  shows "idem_inv U Q K (advance i K ph' t' s)"
proof (rule idem_inv_same [OF inv])
  show "tx_idem (ss_tx (advance i K ph' t' s)) K = tx_idem (ss_tx s) K" using t by (simp add: advance_def)
  show "ss_acked (advance i K ph' t' s) = ss_acked s" using ph' by (auto simp: advance_def acked_by_def)
  show "in_charge U Q K (advance i K ph' t' s) j \<longleftrightarrow> in_charge U Q K s j" for j
    using ph ph' by (auto simp: in_charge_def advance_def)
  show "ss_phase (advance i K ph' t' s) j = ss_phase s j" if "in_charge U Q K s j" for j
    using that ph by (auto simp: in_charge_def advance_def)
qed

lemma idem_inv_onward:
  assumes inv: "idem_inv U Q K s" and k: "request_key (U i) (Q i) = K"
    and ph: "ss_phase s i = Holding h \<or> ss_phase s i = Ready h im"
    and ph': "ph' = Ready h im \<or> ph' = Sent h im st" and t: "tx_idem t' K = tx_idem (ss_tx s) K"
  shows "idem_inv U Q K (advance i K ph' t' s)"
proof -
  let ?s' = "advance i K ph' t' s"
  have i: "in_charge U Q K s i" using ph k by (auto simp: in_charge_def)
  have none: "(j, K) \<notin> set (ss_acked s)" for j
    using none_acked [OF inv i] ph by auto
  have c: "in_charge U Q K ?s' j \<longleftrightarrow> in_charge U Q K s j" for j
    using i ph' k by (auto simp: in_charge_advance)
  have only: "in_charge U Q K s j \<Longrightarrow> j = i" for j using idem_invD(2) [OF inv _ i] .
  have v: "tx_idem (ss_tx ?s') K = tx_idem (ss_tx s) K" using t by (simp add: advance_def)
  have a: "ss_acked ?s' = ss_acked s @ acked_by i K ph'" by (simp add: advance_def)
  have l: "length (filter (\<lambda>a. snd a = K) (acked_by i K ph')) \<le> 1" and
    m: "(j, K) \<in> set (acked_by i K ph') \<Longrightarrow> j = i \<and> (\<exists>h im. ph' = Sent h im Acked)" for j
    using ph' by (auto simp: acked_by_def split: if_splits)
  show ?thesis
    unfolding idem_inv_def c v a
  proof (intro conjI allI impI)
    show "key_value_ok (tx_idem (ss_tx s) K)" by (rule idem_invD(1) [OF inv])
    show "j = j'" if "in_charge U Q K s j" "in_charge U Q K s j'" for j j' using only that by blast
    show "tx_idem (ss_tx s) K \<noteq> None" by (rule idem_invD(3) [OF inv i])
    show "length (filter (\<lambda>a. snd a = K) (ss_acked s @ acked_by i K ph')) \<le> 1"
      using none_acked_filter [OF none] l by simp
    fix j j'
    assume "(j, K) \<in> set (ss_acked s @ acked_by i K ph')" and j': "in_charge U Q K s j'"
    then have "j = i" "\<exists>h im. ph' = Sent h im Acked" using none m by auto
    then show "j' = j" "\<exists>h im. ss_phase ?s' j' = Sent h im Acked"
      using only [OF j'] by (auto simp: advance_def)
  qed (use idem_invD(3) [OF inv i] in simp)
qed

lemma idem_inv_finish:
  assumes inv: "idem_inv U Q K s" and i: "in_charge U Q K s i"
    and t: "tx_idem t' K = tx_idem (ss_tx s) K \<or> (\<forall>j. (j, K) \<notin> set (ss_acked s)) \<and> tx_idem t' K = None \<or>
      (\<exists>m. m \<noteq> 0 \<and> tx_idem t' K = Some (serialize_idempotency_state (mk_idem Accepted m)))"
  shows "idem_inv U Q K (advance i K (Finished out) t' s)"
proof -
  let ?s' = "advance i K (Finished out) t' s"
  have c: "\<not> in_charge U Q K ?s' j" for j
    using idem_invD(2) [OF inv _ i, of j] by (auto simp: in_charge_advance)
  have v: "key_value_ok (tx_idem t' K)" using t idem_invD(1) [OF inv] by (auto simp: key_value_ok_def)
  have "tx_idem t' K \<noteq> None" if "(j, K) \<in> set (ss_acked s)" for j
    using t that idem_invD(5) [OF inv that] by auto
  with c v idem_invD(4) [OF inv] show ?thesis
    by (simp add: idem_inv_def advance_def acked_by_def)
qed

lemma idem_inv_mine:
  assumes inv: "idem_inv U Q K s" and g: "generator_ok e (ss_tx s)" and ph: "phase_ok (Q i) (ss_phase s i)"
    and k: "request_key (U i) (Q i) = K" "K \<noteq> []" and up: "te_up (E i) 0 0" "te_up (E i) 1 0"
    and c: "clock_after e (te_clock (E i))"
    and r: "send_next (E i) (U i) (Q i) (ss_phase s i) (ss_tx s) = Some (ph', t')"
  shows "idem_inv U Q K (advance i K ph' t' s)"
proof -
  let ?ph = "ss_phase s i"
  have busy: "in_charge U Q K s i"
    if "(\<exists>h. ?ph = Holding h) \<or> (\<exists>h im. ?ph = Ready h im) \<or> (\<exists>h im st. ?ph = Sent h im st)"
    using that k by (auto simp: in_charge_def)
  from send_next_mine [OF k up idem_invD(1) [OF inv] ph g c r] show ?thesis
  proof (elim disjE)
    assume "?ph = Start \<and> tx_idem (ss_tx s) K = None \<and> ph' = Holding True \<and> tx_idem t' K = Some pending_value"
    then show ?thesis using idem_inv_claim [OF inv k(1)] by simp
  next
    assume "(?ph = Start \<or> ?ph = Conflicted) \<and> (ph' = Conflicted \<or> (\<exists>out. ph' = Finished out)) \<and>
      tx_idem t' K = tx_idem (ss_tx s) K"
    then show ?thesis using idem_inv_idle [OF inv] by blast
  next
    assume "\<exists>h im. ?ph = Holding h \<and> ph' = Ready h im \<and> tx_idem t' K = tx_idem (ss_tx s) K"
    then show ?thesis using idem_inv_onward [OF inv k(1)] by blast
  next
    assume "\<exists>h im st. ?ph = Ready h im \<and> ph' = Sent h im st \<and> tx_idem t' K = tx_idem (ss_tx s) K"
    then show ?thesis using idem_inv_onward [OF inv k(1)] by blast
  next
    assume a: "((\<exists>h. ?ph = Holding h) \<or> (\<exists>h im. ?ph = Ready h im) \<or> (\<exists>h im st. ?ph = Sent h im st \<and> st \<noteq> Acked)) \<and>
      (\<exists>out. ph' = Finished out) \<and> (tx_idem t' K = tx_idem (ss_tx s) K \<or> tx_idem t' K = None)"
    then have i: "in_charge U Q K s i" and "\<And>h im. ?ph \<noteq> Sent h im Acked" using busy by auto
    then have "\<forall>j. (j, K) \<notin> set (ss_acked s)" using none_acked [OF inv i] by blast
    with a show ?thesis using idem_inv_finish [OF inv i] by blast
  next
    assume "\<exists>h im. ?ph = Sent h im Acked \<and> (\<exists>out. ph' = Finished out) \<and>
      (tx_idem t' K = tx_idem (ss_tx s) K \<or>
       (\<exists>m. m \<noteq> 0 \<and> tx_idem t' K = Some (serialize_idempotency_state (mk_idem Accepted m))))"
    then show ?thesis using idem_inv_finish [OF inv busy] by blast
  qed
qed

lemma idem_inv_tx:
  "idem_inv U Q K s \<Longrightarrow> tx_idem t' K = tx_idem (ss_tx s) K \<Longrightarrow> idem_inv U Q K (s\<lparr>ss_tx := t'\<rparr>)"
  by (simp add: idem_inv_def in_charge_def)

lemma idem_sys_inv_step:
  assumes inv: "idem_sys_inv e U Q K s" and K: "K \<noteq> []"
    and up: "\<And>i. request_key (U i) (Q i) = K \<Longrightarrow> te_up (E i) 0 0 \<and> te_up (E i) 1 0"
    and c: "\<And>i. clock_after e (te_clock (E i))" and st: "send_step E U Q s s'"
  shows "idem_sys_inv e U Q K s'"
  using st
proof (cases rule: send_step.cases)
  case (piece i ph' t')
  have g: "generator_ok e (ss_tx s)" and ph: "\<And>j. phase_ok (Q j) (ss_phase s j)" and ii: "idem_inv U Q K s"
    using inv by (auto simp: idem_sys_inv_def)
  note po = send_next_phase_ok [OF g c ph piece(2)]
  have "idem_inv U Q K s'"
  proof (cases "request_key (U i) (Q i) = K")
    case True
    then show ?thesis
      unfolding piece(1) True
      using idem_inv_mine [of U Q K s e i E ph' t'] ii g ph [of i] K up [of i] c [of i] piece(2) True by blast
  next
    case False
    then show ?thesis
      unfolding piece(1) using idem_inv_other [OF ii False] send_next_other [OF False ph piece(2)] by blast
  qed
  moreover have "phase_ok (Q j) (ss_phase s' j)" for j
    using po ph by (cases "j = i") (simp_all add: piece(1) advance_def)
  ultimately show ?thesis using po by (simp add: idem_sys_inv_def piece(1) advance_def)
next
  case (elsewhere t')
  then have "idem_inv U Q K s'"
    using inv idem_inv_tx [of U Q K s] by (simp add: idem_sys_inv_def)
  with elsewhere inv show ?thesis by (simp add: idem_sys_inv_def generator_ok_def)
next
  case (backfill_session ok cid base)
  then have "idem_inv U Q K s'"
    using inv idem_inv_tx [of U Q K s] by (simp add: idem_sys_inv_def)
  with backfill_session inv show ?thesis by (simp add: idem_sys_inv_def generator_ok_def)
next
  case (backfill_user ok uid base)
  then have "idem_inv U Q K s'"
    using inv idem_inv_tx [of U Q K s] by (simp add: idem_sys_inv_def)
  with backfill_user inv show ?thesis by (simp add: idem_sys_inv_def generator_ok_def)
qed


section \<open>Witnesses\<close>

text \<open>Runs of the system, one piece at a time.\<close>

definition run_piece ::
  "(nat \<Rightarrow> transmite_env) \<Rightarrow> (nat \<Rightarrow> uid) \<Rightarrow> (nat \<Rightarrow> send_message_req) \<Rightarrow> nat \<Rightarrow> send_system \<Rightarrow> send_system" where
  "run_piece E U Q i s =
     (case send_next (E i) (U i) (Q i) (ss_phase s i) (ss_tx s) of
        None \<Rightarrow> s
      | Some (ph', t') \<Rightarrow> advance i (request_key (U i) (Q i)) ph' t' s)"

lemma run_pieces_reach: "reach P (send_step E U Q) s \<Longrightarrow> reach P (send_step E U Q) (fold (run_piece E U Q) is s)"
proof (induction "is" arbitrary: s)
  case Nil
  then show ?case by simp
next
  case (Cons i "is")
  have "reach P (send_step E U Q) (run_piece E U Q i s)"
    using Cons.prems send_step.piece [of E i U Q s]
    by (auto simp: run_piece_def split: option.split intro: reach_step)
  then show ?case using Cons.IH by simp
qed

definition demo_tx :: transmite_state where
  "demo_tx = \<lparr>tx_idem = (\<lambda>_. None), tx_seq_session = (\<lambda>_. None), tx_seq_user = (\<lambda>_. None),
     tx_members = empty_members_redis, tx_warm_lock = (\<lambda>_. None), tx_rate = (\<lambda>_. None),
     tx_user_info = empty_user_info_redis, tx_local_members = LocalCache_new 4,
     tx_local_user = LocalCache_new 4, tx_id_generator = demo_gen 1, tx_clock_pos = 0, tx_mq = []\<rparr>"

definition demo_user :: user_info where
  "demo_user = \<lparr>ui_user_id = ''a'', ui_nickname = ''A'', ui_bio = [], ui_phone = [], ui_avatar_url = []\<rparr>"

definition demo_tx_env :: transmite_env where
  "demo_tx_env = \<lparr>te_now_ms = 1000, te_steady = 0, te_clock = demo_clock, te_up = all_up, te_jitter = (\<lambda>_. 0),
     te_token = ''t'', te_lock_released = (\<lambda>_. False), te_inflight = True, te_local_rate = (\<lambda>_. True),
     te_rate_user_max = 600, te_rate_session_max = 3000, te_rate_window_sec = 60,
     te_get_profile = (\<lambda>_. Rpc_reply (ok_header []) (Some demo_user)),
     te_get_member_ids = (\<lambda>_ _. Rpc_reply (ok_header []) [''a'', ''b'']),
     te_select_by_client_msg = (\<lambda>_ _. No_channel), te_serialize_user = (\<lambda>_. ''A''),
     te_parse_user = (\<lambda>_. Some demo_user), te_publish = (\<lambda>_. Confirmed Acked True)\<rparr>"

definition demo_send :: "nat \<Rightarrow> send_message_req" where
  "demo_send i = \<lparr>smq_request_id = ''r'', smq_conversation_id = ''g'',
     smq_content = \<lparr>mc_type = TEXT, mc_body = Text_body ''hi''\<rparr>,
     smq_client_msg_id = (if i = 2 then ''m2'' else ''m1''), smq_reply_to = None,
     smq_mentioned_user_ids = [], smq_forward_info = None\<rparr>"

definition demo_system :: send_system where
  "demo_system = \<lparr>ss_tx = demo_tx, ss_phase = (\<lambda>_. Start), ss_numbered = [], ss_published = [], ss_acked = []\<rparr>"

text \<open>Requests 0 and 1 carry the same client message id and overlap: request 1 finds the key claimed.\<close>

definition demo_run :: send_system where
  "demo_run = fold (run_piece (\<lambda>_. demo_tx_env) (\<lambda>_. ''a'') demo_send) [0, 1, 0, 1, 0] demo_system"

lemma demo_system_init: "send_init demo_system \<and> generator_ok 1735689600000 (ss_tx demo_system) \<and>
    tx_idem (ss_tx demo_system) K = None"
  by (simp add: send_init_def demo_system_def demo_tx_def counters_ok_def counters_wf_def generator_ok_def
      demo_gen_def sf_wf_def)

lemma demo_run_reach:
  "reach send_init (send_step (\<lambda>_. demo_tx_env) (\<lambda>_. ''a'') demo_send) demo_run"
  "reach (\<lambda>s. send_init s \<and> generator_ok 1735689600000 (ss_tx s) \<and> tx_idem (ss_tx s) K = None)
     (send_step (\<lambda>_. demo_tx_env) (\<lambda>_. ''a'') demo_send) demo_run"
  unfolding demo_run_def using demo_system_init by (blast intro: run_pieces_reach reach_init)+

lemma demo_run_values:
  "map (\<lambda>im. (mg_conversation_id (im_message im), mg_seq_id (im_message im))) (tx_mq (ss_tx demo_run)) = [(''g'', 1)]"
  "concat (map im_user_seqs (tx_mq (ss_tx demo_run))) = [(''a'', 1), (''b'', 1)]"
  "ss_acked demo_run = [(0, ''im:msg:idem:a:m1'')]"
  by code_simp+

theorem sequence_numbers_unique_witness:
  "concat (map im_user_seqs (tx_mq (ss_tx demo_run))) = [(''a'', 1), (''b'', 1)] \<and>
   distinct (concat (map im_user_seqs (tx_mq (ss_tx demo_run))))"
  using sequence_numbers_unique [OF demo_run_reach(1)] demo_run_values(2) by simp


end
