(* ===== verification/Transmite_Props.thy ===== *)
theory Transmite_Props
  imports Send_Race
begin

text \<open>
  Who can send, and to whom a message goes. The member list \<open>SendMessage\<close> works with comes from
  the process-local cache, from Redis or from the conversation service. Shown: when the caches and
  the service agree with the member rows, every message that reaches the broker was sent by a current
  member and is addressed to exactly the current members, and carries what the request asked for.
  Also shown: an interleaving in which the local cache is told that a conversation with members has
  none, because the version stored with the mark is read after the mark.
\<close>

section \<open>Agreement of the member caches with the rows\<close>

definition entry_agrees :: "nat \<Rightarrow> uid list \<Rightarrow> members_entry \<Rightarrow> bool" where
  "entry_agrees n rows e =
     (unat (me_version e) = n \<longrightarrow> (if me_sentinel e then rows = [] else set (me_members e) = set rows))"

definition local_ok :: "cid \<Rightarrow> uid list \<Rightarrow> transmite_state \<Rightarrow> bool" where
  "local_ok cid rows s =
     lc.all_ok (\<lambda>k e. k = local_members_cache_key cid \<longrightarrow> entry_agrees (vnum cid (tx_members s)) rows e)
       (tx_local_members s)"

definition members_coherent :: "cid \<Rightarrow> uid list \<Rightarrow> transmite_state \<Rightarrow> bool" where
  "members_coherent cid rows s =
     (versions_wf (tx_members s) \<and> cache_agrees cid (tx_members s) rows \<and> local_ok cid rows s)"

text \<open>The conversation service answers with the member rows, when it answers.\<close>

definition members_service_ok :: "transmite_env \<Rightarrow> cid \<Rightarrow> uid list \<Rightarrow> bool" where
  "members_service_ok env cid rows =
     (\<forall>i ms. fetch_members_from_conversation_service env i cid = Some ms \<longrightarrow> set ms = set rows)"

definition result_ok :: "uid list \<Rightarrow> members_result \<Rightarrow> bool" where
  "result_ok rows r = ((mres_members r \<noteq> [] \<longrightarrow> set (mres_members r) = set rows) \<and>
     (mres_confirmed_empty r \<longrightarrow> rows = []))"

lemma members_coherent_part:
  "member_part s' = member_part s \<Longrightarrow> members_coherent cid rows s' = members_coherent cid rows s"
  by (simp add: member_part_def members_coherent_def local_ok_def)

lemma no_members_ok [simp]: "result_ok rows no_members"
  by (simp add: result_ok_def no_members_def)

lemma version_matches:
  assumes "versions_wf r" and "cache_l1_version_matches v (Members_version ok cid r)"
  shows "unat v = vnum cid r"
proof (cases ok)
  case True
  with assms show ?thesis
    using unat_Members_version [OF assms(1), of cid]
    by (auto simp: cache_l1_version_matches_def cache_version_accepts_warm_def split: if_splits)
next
  case False
  with assms(2) show ?thesis
    by (simp add: cache_l1_version_matches_def cache_version_accepts_warm_def Members_version_def
        cache_version_is_known_def)
qed

lemma try_local_ok:
  assumes c: "members_coherent cid rows s" and r: "try_local env k i cid s = (o1, s1)"
  shows "members_coherent cid rows s1 \<and> (\<forall>res. o1 = Some res \<longrightarrow> result_ok rows res)"
proof -
  let ?mkey = "local_members_cache_key cid"
  obtain v c1 where g: "LocalCache_get (te_steady env) ?mkey (tx_local_members s) = (v, c1)"
    by (metis prod.collapse)
  from c have lok: "local_ok cid rows s" and wf: "versions_wf (tx_members s)"
    by (simp_all add: members_coherent_def)
  note gok = lc.all_ok_get [OF lok [unfolded local_ok_def] g]
  then have c1: "members_coherent cid rows (s\<lparr>tx_local_members := c1\<rparr>)"
    using c by (simp add: members_coherent_def local_ok_def)
  show ?thesis
  proof (cases v)
    case None
    with g r c1 show ?thesis by (auto simp: try_local_def)
  next
    case (Some e)
    with gok have e: "entry_agrees (vnum cid (tx_members s)) rows e" by simp
    show ?thesis
    proof (cases "cache_l1_version_matches (me_version e) (Members_version (te_up env k i) cid (tx_members s))")
      case False
      have "members_coherent cid rows (s\<lparr>tx_local_members := LocalCache_invalidate ?mkey c1\<rparr>)"
        using c gok lc.all_ok_remove by (auto simp: members_coherent_def local_ok_def)
      with False Some g r show ?thesis by (auto simp: try_local_def)
    next
      case True
      from version_matches [OF wf True] e
      have "if me_sentinel e then rows = [] else set (me_members e) = set rows" by (simp add: entry_agrees_def)
      then have ok: "result_ok rows (if me_sentinel e
          then \<lparr>mres_members = [], mres_confirmed_empty = True, mres_version = me_version e\<rparr>
          else \<lparr>mres_members = me_members e, mres_confirmed_empty = False, mres_version = me_version e\<rparr>)"
        by (cases "me_sentinel e") (simp_all add: result_ok_def)
      have "(o1, s1) = (Some (if me_sentinel e
          then \<lparr>mres_members = [], mres_confirmed_empty = True, mres_version = me_version e\<rparr>
          else \<lparr>mres_members = me_members e, mres_confirmed_empty = False, mres_version = me_version e\<rparr>),
          s\<lparr>tx_local_members := c1\<rparr>)"
        using True Some g r by (cases "me_sentinel e") (simp_all add: try_local_def Let_def)
      with ok c1 show ?thesis by simp
    qed
  qed
qed

lemma set_local_ok:
  assumes c: "members_coherent cid rows s"
  shows "set ms = set rows \<Longrightarrow> members_coherent cid rows (set_local_members env i cid ms v s)"
    and "rows = [] \<Longrightarrow> members_coherent cid rows (set_local_sentinel env i cid v s)"
proof -
  have put: "members_coherent cid rows (s\<lparr>tx_local_members :=
      LocalCache_set now (local_members_cache_key cid) e ttl (tx_local_members s)\<rparr>)"
    if "entry_agrees (vnum cid (tx_members s)) rows e" for now e ttl
    using c lc.all_ok_put [of "\<lambda>k e. k = local_members_cache_key cid \<longrightarrow> entry_agrees (vnum cid (tx_members s)) rows e"
        "tx_local_members s" "local_members_cache_key cid" e] that
    by (simp add: members_coherent_def local_ok_def)
  show "members_coherent cid rows (set_local_members env i cid ms v s)" if "set ms = set rows"
    using put [of "\<lparr>me_members = ms, me_version = v, me_sentinel = False\<rparr>"] c that
    by (simp add: set_local_members_def entry_agrees_def)
  show "members_coherent cid rows (set_local_sentinel env i cid v s)" if "rows = []"
    using put [of "\<lparr>me_members = [], me_version = v, me_sentinel = True\<rparr>"] c that
    by (simp add: set_local_sentinel_def entry_agrees_def)
qed

lemma unlock_ok: "members_coherent cid rows (unlock_warm env i cid s) = members_coherent cid rows s"
  by (rule members_coherent_part) (simp add: frame_simps)

lemma warm_members_ok:
  assumes c: "members_coherent cid rows s" and sv: "members_service_ok env cid rows"
    and r: "warm_members env i cid s = (res, s1)"
  shows "members_coherent cid rows s1 \<and> result_ok rows res"
proof (cases "fetch_members_from_conversation_service env i cid")
  case None
  with r c show ?thesis by (auto simp: warm_members_def unlock_ok)
next
  case (Some ms)
  with sv have ms: "set ms = set rows" by (simp add: members_service_ok_def)
  let ?v = "Members_version (te_up env 27 i) cid (tx_members s)"
  obtain b m where p: "publish_members (te_up env 28 i) cid ?v ms (tx_members s) = (b, m)" by (metis prod.collapse)
  have wf: "versions_wf (tx_members s)" using c by (simp add: members_coherent_def)
  note ps = publish_spec [OF wf p]
  let ?s1 = "s\<lparr>tx_members := m\<rparr>"
  have ag: "cache_agrees cid m rows"
    using ps c ms by (cases b) (auto simp: members_coherent_def cache_agrees_def)
  have c1: "members_coherent cid rows ?s1"
    using c ps ag by (simp add: members_coherent_def local_ok_def)
  show ?thesis
  proof (cases b)
    case False
    with r Some p have "(res, s1) = (no_members, unlock_warm env i cid ?s1)" by (simp add: warm_members_def)
    with c1 show ?thesis by (simp add: unlock_ok)
  next
    case True
    let ?s2 = "if ms = [] then set_local_sentinel env i cid ?v ?s1 else set_local_members env i cid ms ?v ?s1"
    have c2: "members_coherent cid rows ?s2"
      using set_local_ok(1) [OF c1 ms] set_local_ok(2) [OF c1] ms by (cases ms) simp_all
    have "(res, s1) = (\<lparr>mres_members = ms, mres_confirmed_empty = (ms = []), mres_version = ?v\<rparr>, unlock_warm env i cid ?s2)"
      using True r Some p by (simp add: warm_members_def Let_def)
    with c2 ms show ?thesis by (auto simp: unlock_ok result_ok_def)
  qed
qed

lemma lock_and_warm_ok:
  assumes "members_coherent cid rows s" and "members_service_ok env cid rows"
    and "lock_and_warm env i cid s = (r, s1)"
  shows "members_coherent cid rows s1 \<and> (\<forall>res. r = Inr res \<longrightarrow> result_ok rows res)"
proof -
  have "members_coherent cid rows (s\<lparr>tx_warm_lock := l\<rparr>)" for l
    using assms(1) members_coherent_part [of "s\<lparr>tx_warm_lock := l\<rparr>" s] by simp
  then have w: "members_coherent cid rows (snd (warm_members env i cid (s\<lparr>tx_warm_lock := l\<rparr>))) \<and>
      result_ok rows (fst (warm_members env i cid (s\<lparr>tx_warm_lock := l\<rparr>)))" for l
    using warm_members_ok [OF _ assms(2) prod.collapse [symmetric]] by blast
  obtain b l where t: "RedisMutex_try_lock (te_up env 26 i) (te_lock_released env i) (te_token env) cid (tx_warm_lock s) = (b, l)"
    by (metis prod.collapse)
  show ?thesis
  proof (cases b)
    case None
    with t assms show ?thesis by (auto simp: lock_and_warm_def)
  next
    case (Some x)
    with t assms w [of l] show ?thesis by (cases x) (auto simp: lock_and_warm_def map_prod_def split_beta)
  qed
qed

lemma snapshot_members:
  "snap_stable (Members_list_snapshot oks cid r r r) \<Longrightarrow>
    snap_members (Members_list_snapshot oks cid r r r) = mr_set r cid"
  by (cases oks) (auto simp: Members_list_snapshot_def Let_def split: if_splits)

lemma resolve_from_redis_ok:
  assumes c: "members_coherent cid rows s" and sv: "members_service_ok env cid rows"
    and r: "resolve_from_redis env i cid s = (o1, s1)"
  shows "members_coherent cid rows s1 \<and> (\<forall>res. o1 = Inr res \<longrightarrow> result_ok rows res)"
proof -
  define snap where "snap = Members_list_snapshot (te_up env 22 i, te_up env 23 i, te_up env 24 i) cid
                   (tx_members s) (tx_members s) (tx_members s)"
  have ag: "cache_agrees cid (tx_members s) rows"
    using c by (simp add: members_coherent_def)
  consider (unstable) "\<not> snap_stable snap"
    | (hit) "snap_stable snap" "snap_members snap \<noteq> []"
    | (mark) "snap_stable snap" "snap_members snap = []" "Members_is_sentinel (te_up env 25 i) cid (tx_members s)"
    | (miss) "snap_stable snap" "snap_members snap = []" "\<not> Members_is_sentinel (te_up env 25 i) cid (tx_members s)"
    by blast
  then show ?thesis
  proof cases
    case unstable
    with r c show ?thesis by (auto simp: resolve_from_redis_def snap_def [symmetric])
  next
    case hit
    have "snap_members snap = mr_set (tx_members s) cid"
      using snapshot_members [OF hit(1) [unfolded snap_def]] by (simp add: snap_def)
    with hit ag have sr: "set (snap_members snap) = set rows" by (simp add: cache_agrees_def)
    have "(o1, s1) = (Inr \<lparr>mres_members = snap_members snap, mres_confirmed_empty = False,
        mres_version = snap_version snap\<rparr>, set_local_members env i cid (snap_members snap) (snap_version snap) s)"
      using hit r by (simp add: resolve_from_redis_def snap_def [symmetric])
    with set_local_ok(1) [OF c sr] sr show ?thesis by (simp add: result_ok_def)
  next
    case mark
    then have e: "rows = []" using ag by (simp add: cache_agrees_def Members_is_sentinel_def)
    let ?v = "Members_version (te_up env 30 i) cid (tx_members s)"
    have "(o1, s1) = (Inr \<lparr>mres_members = [], mres_confirmed_empty = True, mres_version = ?v\<rparr>,
        set_local_sentinel env i cid ?v s)"
      using mark r by (simp add: resolve_from_redis_def snap_def [symmetric] cache_sentinel_confirms_empty_def Let_def)
    with set_local_ok(2) [OF c e] e show ?thesis by (simp add: result_ok_def)
  next
    case miss
    obtain q s2 where q: "try_local env 31 i cid s = (q, s2)" by (metis prod.collapse)
    note t = try_local_ok [OF c q]
    have eq: "resolve_from_redis env i cid s = (if te_inflight env then lock_and_warm env i cid s
        else case q of Some r \<Rightarrow> (Inr r, s2) | None \<Rightarrow> lock_and_warm env i cid s2)"
      using miss q by (auto simp: resolve_from_redis_def snap_def [symmetric] cache_sentinel_confirms_empty_def
          split: option.split)
    have c2: "members_coherent cid rows s2" using t by simp
    show ?thesis
      using eq r t lock_and_warm_ok [OF c sv, of i o1 s1] lock_and_warm_ok [OF c2 sv, of i o1 s1]
      by (cases "te_inflight env"; cases q) simp_all
  qed
qed

lemma resolve_members_ok:
  assumes c: "members_coherent cid rows s" and sv: "members_service_ok env cid rows"
    and r: "resolve_members env i cid s = (o1, s1)"
  shows "members_coherent cid rows s1 \<and> (\<forall>res. o1 = Inr res \<longrightarrow> result_ok rows res)"
proof -
  obtain q s2 where q: "try_local env 20 i cid s = (q, s2)" by (metis prod.collapse)
  obtain q' s3 where q': "try_local env 21 i cid s2 = (q', s3)" by (metis prod.collapse)
  note t = try_local_ok [OF c q]
  have c2: "members_coherent cid rows s2" using t by simp
  note t' = try_local_ok [OF c2 q']
  then have c3: "members_coherent cid rows s3" by simp
  show ?thesis
    using r q q' t t' resolve_from_redis_ok [OF c2 sv] resolve_from_redis_ok [OF c3 sv]
    by (cases q; cases "te_inflight env"; cases q') (auto simp: resolve_members_def)
qed

lemma resolve_members_loop_ok:
  "members_coherent cid rows s \<Longrightarrow> members_service_ok env cid rows \<Longrightarrow>
    resolve_members_loop env i n cid s = (Inr res, s1) \<Longrightarrow> members_coherent cid rows s1 \<and> result_ok rows res"
proof (induction n arbitrary: i s)
  case 0
  then show ?case by auto
next
  case (Suc n)
  obtain q s2 where q: "resolve_members env i cid s = (q, s2)" by (metis prod.collapse)
  note t = resolve_members_ok [OF Suc.prems(1,2) q]
  show ?case
  proof (cases q)
    case (Inl e)
    with Suc.prems(3) q show ?thesis by simp
  next
    case (Inr r)
    show ?thesis
    proof (cases "mres_members r \<noteq> [] \<or> mres_confirmed_empty r \<or> n = 0")
      case True
      with Inr Suc.prems(3) q t show ?thesis by auto
    next
      case False
      with Inr Suc.prems(3) q have "resolve_members_loop env (Suc i) n cid s2 = (Inr res, s1)" by auto
      with Suc.IH t Suc.prems(2) show ?thesis by blast
    qed
  qed
qed

section \<open>What reaches the broker\<close>

lemma idem_check_frame:
  "tx_seq_session (snd (idem_check env uid c s)) = tx_seq_session s \<and>
   tx_seq_user (snd (idem_check env uid c s)) = tx_seq_user s \<and> tx_mq (snd (idem_check env uid c s)) = tx_mq s \<and>
   member_part (snd (idem_check env uid c s)) = member_part s"
  by (simp add: idem_check_def idem_conflict_def idem_retry_def member_part_def Let_def
      split: prod.split option.split bool.split)

lemma publish_message_mq:
  "tx_mq (snd (publish_message env key rid im s)) = tx_mq s \<or>
   tx_mq (snd (publish_message env key rid im s)) = tx_mq s @ [im]"
  by (cases "te_publish env im") (auto simp: publish_message_def publish_callback_def)

text \<open>A send that changes the broker's content: it was authenticated, checked, prepared and published.\<close>

lemma send_published:
  assumes r: "SendMessage env md req s = Some (out, s')" and mq: "tx_mq s' \<noteq> tx_mq s" and ok: "counters_ok s"
  shows "\<exists>auth im s1 s2. extract_auth md = Inr auth \<and> check_content (smq_content req) = None \<and>
    member_part s1 = member_part s \<and> tx_seq_session s1 = tx_seq_session s \<and> tx_seq_user s1 = tx_seq_user s \<and>
    prepare_message env (user_id auth) req s1 = Some (Prep_ok im, s2) \<and> tx_mq s' = tx_mq s @ [im]"
proof -
  obtain auth where a: "extract_auth md = Inr auth"
    using r mq by (cases "extract_auth md") (auto simp: SendMessage_def)
  have cc: "check_content (smq_content req) = None"
    using r mq a by (cases "check_content (smq_content req)") (auto simp: SendMessage_def err_response_def)
  let ?uid = "user_id auth" and ?key = "idem_key_of (user_id auth) (smq_client_msg_id req)"
  obtain o1 s1 where i: "idem_check env ?uid (smq_client_msg_id req) s = (o1, s1)" by (metis prod.collapse)
  have f: "tx_seq_session s1 = tx_seq_session s" "tx_seq_user s1 = tx_seq_user s" "tx_mq s1 = tx_mq s"
    "member_part s1 = member_part s"
    using idem_check_frame [of env ?uid "smq_client_msg_id req" s] i by simp_all
  obtain h where h: "o1 = Idem_go h"
    using r mq a cc i f by (cases o1) (auto simp: SendMessage_def err_response_def Let_def)
  obtain p s2 where p: "prepare_message env ?uid req s1 = Some (p, s2)"
    using r a cc i h by (cases "prepare_message env ?uid req s1") (auto simp: SendMessage_def Let_def)
  have ok1: "counters_ok s1" using ok f by (simp add: counters_ok_def)
  have mq2: "tx_mq s2 = tx_mq s" using prepare_spec [OF ok1 p] f by simp
  obtain im where im: "p = Prep_ok im"
    using r mq a cc i h p mq2
    by (cases p) (auto simp: SendMessage_def err_response_def Let_def split: if_splits)
  have "s' = snd (publish_message env ?key (smq_request_id req) im s2)"
    using r a cc i h p im by (simp add: SendMessage_def Let_def)
  then have "tx_mq s' = tx_mq s @ [im]" using publish_message_mq [of env ?key "smq_request_id req" im s2] mq mq2 by auto
  with a cc p im f show ?thesis by blast
qed

text \<open>Claim C11. Who sends to whom. Suppose the member caches and the conversation service agree with the
  member rows of the conversation. A call of SendMessage that puts a message into the broker puts exactly
  one there; its sender is the authenticated user, who is one of the rows; it is addressed to exactly the
  users of the rows; it carries the request's content, client message id, reply and mentions and the next
  sequence number of the conversation; and below the large-group threshold it carries one user sequence
  number per addressee, above it none.\<close>

theorem sent_by_members_to_members:
  assumes "SendMessage env md req s = Some (out, s')" and "tx_mq s' \<noteq> tx_mq s" and "counters_ok s"
    and "members_coherent (smq_conversation_id req) rows s"
    and "members_service_ok env (smq_conversation_id req) rows"
  shows "\<exists>auth im. extract_auth md = Inr auth \<and> tx_mq s' = tx_mq s @ [im] \<and>
     user_id auth \<in> set rows \<and> set (im_member_id_list im) = set rows \<and>
     mg_sender_id (im_message im) = user_id auth \<and>
     mg_conversation_id (im_message im) = smq_conversation_id req \<and>
     mg_content (im_message im) = smq_content req \<and>
     mg_client_msg_id (im_message im) = smq_client_msg_id req \<and>
     mg_reply_to (im_message im) = smq_reply_to req \<and>
     mg_mentioned_user_ids (im_message im) = smq_mentioned_user_ids req \<and>
     unat (mg_seq_id (im_message im)) = cnum (tx_seq_session s) (smq_conversation_id req) + 1 \<and>
     map fst (im_user_seqs im) =
       (if length (im_member_id_list im) \<ge> LARGE_GROUP_THRESHOLD then [] else im_member_id_list im)"
proof -
  from send_published [OF assms(1-3)] obtain auth im s1 s2 where
    a: "extract_auth md = Inr auth" and f: "member_part s1 = member_part s"
      "tx_seq_session s1 = tx_seq_session s" "tx_seq_user s1 = tx_seq_user s" and
    p: "prepare_message env (user_id auth) req s1 = Some (Prep_ok im, s2)" and
    mq: "tx_mq s' = tx_mq s @ [im]" by blast
  from prepare_cases [OF p] obtain t2 t3 r where
    c: "core t3 = core s1" "member_part t2 = member_part s1" and
    l: "resolve_members_loop env 0 3 (smq_conversation_id req) t2 = (Inr r, t3)" and
    u: "user_id auth \<in> set (mres_members r)" and
    n: "number_message env (user_id auth) req (mres_members r) t3 = Some (Prep_ok im, s2)" by blast
  have "members_coherent (smq_conversation_id req) rows t2"
    using assms(4) members_coherent_part [of t2 s] c(2) f(1) by simp
  from resolve_members_loop_ok [OF this assms(5) l] u
  have rows: "set (mres_members r) = set rows" by (auto simp: result_ok_def)
  have cc: "tx_seq_session t3 = tx_seq_session s" "tx_seq_user t3 = tx_seq_user s"
    using c(1) f by (simp_all add: core_def)
  then have "counters_ok t3" using assms(3) by (simp add: counters_ok_def)
  from number_message_spec [OF this n] have nk: "numbered_ok env (user_id auth) req t3 im s2"
    and ml: "im_member_id_list im = mres_members r" by blast+
  then obtain sq mid where msg: "im_message im = assemble_message env (user_id auth) req sq mid"
    by (auto simp: numbered_ok_def)
  have "unat (mg_seq_id (im_message im)) = cnum (tx_seq_session s) (smq_conversation_id req) + 1"
    "map fst (im_user_seqs im) =
       (if length (im_member_id_list im) \<ge> LARGE_GROUP_THRESHOLD then [] else im_member_id_list im)"
    using nk cc by (simp_all add: numbered_ok_def)
  with a mq u rows ml show ?thesis by (intro exI [of _ auth] exI [of _ im]) (simp add: msg assemble_message_def)
qed

definition demo_send_md :: "rpc_metadata option" where
  "demo_send_md = Some \<lparr>md_user_id = ''a'', md_device_id = ''d'', md_trace_id = [], md_jwt_jti = []\<rparr>"

text \<open>An environment in which only the write of the accepted state fails.\<close>

definition demo_send_env :: transmite_env where
  "demo_send_env = demo_tx_env\<lparr>te_up := \<lambda>k _. k \<noteq> 42\<rparr>"

theorem sent_by_members_to_members_witness:
  "\<exists>out s' im. SendMessage demo_send_env demo_send_md (demo_send 0) demo_tx = Some (out, s') \<and>
     tx_mq s' = [im] \<and> set (im_member_id_list im) = {''a'', ''b''} \<and> mg_sender_id (im_message im) = ''a''"
proof -
  have "map_option (\<lambda>(_, t). length (tx_mq t)) (SendMessage demo_send_env demo_send_md (demo_send 0) demo_tx) = Some 1"
    by code_simp
  then obtain out s' where r: "SendMessage demo_send_env demo_send_md (demo_send 0) demo_tx = Some (out, s')"
    and l: "length (tx_mq s') = 1" by auto
  have c: "smq_conversation_id (demo_send 0) = ''g''" and e: "tx_mq demo_tx = []"
    by (simp_all add: demo_send_def demo_tx_def)
  have m: "members_coherent ''g'' [''a'', ''b''] demo_tx"
    by (simp add: members_coherent_def demo_tx_def versions_wf_empty cache_agrees_empty local_ok_def lc.all_ok_def
        lc_sync_def lc_stored_def lc_abs_def LocalCache_new_def)
  have v: "members_service_ok demo_send_env ''g'' [''a'', ''b'']"
    by (simp add: members_service_ok_def fetch_members_from_conversation_service_def demo_send_env_def
        demo_tx_env_def ok_header_def)
  have k: "counters_ok demo_tx" by (simp add: counters_ok_def counters_wf_def demo_tx_def)
  have a: "extract_auth demo_send_md = Inr \<lparr>user_id = ''a'', device_id = ''d'', trace_id = [], jwt_jti = []\<rparr>"
    by (simp add: extract_auth_def demo_send_md_def)
  from l e have "tx_mq s' \<noteq> tx_mq demo_tx" by auto
  from sent_by_members_to_members [OF r this k m [folded c] v [folded c]] r e a show ?thesis by auto
qed

section \<open>The empty mark and its version\<close>

text \<open>
  The path of \<open>resolve_members\<close> that finds the empty mark reads the version after the mark and stores
  both in the local cache. When a member is added in between, the stored version is the one after the
  addition, so later requests take the conversation for empty although Redis lists its member, until the
  entry's time is over or the version moves again.
\<close>

definition marked_redis :: members_redis where
  "marked_redis = empty_members_redis\<lparr>mr_version := (\<lambda>_. None)(''g'' \<mapsto> ''1''), mr_sentinel := (\<lambda>_. False)(''g'' := True)\<rparr>"

definition joined_redis :: members_redis where
  "joined_redis = Members_add True ''g'' ''a'' marked_redis"

lemma incr_one: "redis_incr (Some ''1'') = Some ''2''"
proof -
  have "digits_val ''1'' = 1" "list_all is_digit ''1''" "nat_to_string (Suc (Suc 0)) = ''2''" by code_simp+
  then show ?thesis by (simp add: redis_incr_def)
qed

lemma joined_redis_fields:
  "mr_set joined_redis ''g'' = [''a'']" "mr_version joined_redis ''g'' = Some ''2''"
  by (simp_all add: joined_redis_def Members_add_def marked_redis_def incr_one empty_members_redis_def)

lemma joined_version: "Members_version True ''g'' joined_redis = 2"
proof -
  have "digits_val ''2'' = 2" "list_all is_digit ''2''" by code_simp+
  then show ?thesis
    by (simp add: Members_version_def joined_redis_fields parse_cache_version_def parse_version_loop_eq)
qed

lemma empty_mark_outlives_join:
  "Members_is_sentinel True ''g'' marked_redis \<and> Members_list True ''g'' joined_redis = [''a''] \<and>
   map_option mres_confirmed_empty
     (fst (try_local demo_tx_env 20 0 ''g''
        (set_local_sentinel demo_tx_env 0 ''g'' (Members_version True ''g'' joined_redis)
          (demo_tx\<lparr>tx_members := joined_redis\<rparr>)))) = Some True"
proof (intro conjI)
  show "Members_is_sentinel True ''g'' marked_redis"
    by (simp add: Members_is_sentinel_def marked_redis_def)
  show "Members_list True ''g'' joined_redis = [''a'']"
    by (simp add: Members_list_def joined_redis_fields)
  let ?e = "\<lparr>me_members = [], me_version = 2, me_sentinel = True\<rparr>"
  let ?c = "tx_local_members (set_local_sentinel demo_tx_env 0 ''g'' 2 (demo_tx\<lparr>tx_members := joined_redis\<rparr>))"
  have c: "?c = LocalCache_set 0 (local_members_cache_key ''g'') ?e 60 (LocalCache_new 4)"
    by (simp add: set_local_sentinel_def demo_tx_env_def demo_tx_def randomized_ttl_def cache_version_is_known_def
        kUnknownCacheVersion_def)
  have "fst (LocalCache_get 0 (local_members_cache_key ''g'') ?c) = Some ?e"
    unfolding c by code_simp
  then have "\<exists>c. LocalCache_get 0 (local_members_cache_key ''g'') ?c = (Some ?e, c)"
    by (metis prod.collapse)
  moreover have "cache_l1_version_matches 2 2"
    by (simp add: cache_l1_version_matches_def cache_version_accepts_warm_def cache_version_is_known_def
        kUnknownCacheVersion_def)
  moreover have "te_steady demo_tx_env = 0" "te_up demo_tx_env = all_up" by (simp_all add: demo_tx_env_def)
  moreover have "tx_members (set_local_sentinel demo_tx_env 0 ''g'' 2 (demo_tx\<lparr>tx_members := joined_redis\<rparr>)) = joined_redis"
    by (simp add: set_local_sentinel_def)
  ultimately show "map_option mres_confirmed_empty
     (fst (try_local demo_tx_env 20 0 ''g''
        (set_local_sentinel demo_tx_env 0 ''g'' (Members_version True ''g'' joined_redis)
          (demo_tx\<lparr>tx_members := joined_redis\<rparr>)))) = Some True"
    unfolding joined_version by (auto simp: try_local_def joined_version)
qed

end
