(* ===== verification/Message_Dao.thy ===== *)
theory Message_Dao
  imports Proto Message_Proto "HOL-Library.Char_ord" "HOL-Library.List_Lexorder"
begin

text \<open>
  The tables of the message service (odb/message.hxx, user_timeline.hxx, message_reaction.hxx,
  message_pin.hxx) and their DAO classes MessageTable, UserTimeLineTable, MessageReactionTable
  and MessagePinTable. A table is the list of its rows in the order of their auto-increment ids.
  The message table has three unique indexes (\<open>message_id\<close>, \<open>uk_session_seq\<close>,
  \<open>uk_client_msg\<close>, whose NULLs never clash); ODB reports a clash on any of them as
  \<open>object_already_persistent\<close>. The flag \<open>ok\<close> of a method is its call oracle.
  Where \<open>ORDER BY\<close> leaves ties, the model keeps the order of the ids.
\<close>

section \<open>Rows\<close>

datatype db_message_type = Type_UNKNOWN | Type_TEXT | Type_IMAGE | Type_FILE | Type_AUDIO
  | Type_VIDEO | Type_LOCATION | Type_STICKER | Type_SYSTEM_NOTICE

datatype db_message_status = Status_NORMAL | REVOKED | DELETED | AUDITING

fun message_status_code :: "db_message_status \<Rightarrow> int" where
  "message_status_code Status_NORMAL = 0"
| "message_status_code REVOKED = 1"
| "message_status_code DELETED = 2"
| "message_status_code AUDITING = 3"

record message_row =
  ms_message_id :: u64
  ms_seq_id :: u64
  ms_session_id :: cid
  ms_user_id :: uid
  ms_message_type :: db_message_type
  ms_create_time :: time
  ms_content :: "string option"
  ms_client_msg_id :: "string option"
  ms_file_id :: "string option"
  ms_file_name :: "string option"
  ms_file_size :: "u64 option"
  ms_reply_to_msg_id :: "u64 option"
  ms_status :: db_message_status
  ms_revoke_time :: "time option"
  ms_revoke_by :: "uid option"
  ms_edit_time :: "time option"
  ms_forward_from_uid :: "uid option"
  ms_forward_at :: "time option"

definition Message ::
  "u64 \<Rightarrow> cid \<Rightarrow> uid \<Rightarrow> db_message_type \<Rightarrow> time \<Rightarrow> db_message_status \<Rightarrow> message_row" where
  "Message mid ssid uid mtype create_time status =
     \<lparr>ms_message_id = mid, ms_seq_id = 0, ms_session_id = ssid, ms_user_id = uid,
      ms_message_type = mtype, ms_create_time = create_time, ms_content = None,
      ms_client_msg_id = None, ms_file_id = None, ms_file_name = None, ms_file_size = None,
      ms_reply_to_msg_id = None, ms_status = status, ms_revoke_time = None, ms_revoke_by = None,
      ms_edit_time = None, ms_forward_from_uid = None, ms_forward_at = None\<rparr>"

datatype deliver_status = DELIVER_PENDING | DELIVERED | READ

fun deliver_code :: "deliver_status \<Rightarrow> nat" where
  "deliver_code DELIVER_PENDING = 0"
| "deliver_code DELIVERED = 1"
| "deliver_code READ = 2"

record timeline_row =
  tl_user_id :: uid
  tl_user_seq :: u64
  tl_session_id :: cid
  tl_session_seq :: u64
  tl_message_id :: u64
  tl_message_time :: time
  tl_deliver_status :: deliver_status

record reaction_row =
  rx_message_id :: u64
  rx_user_id :: uid
  rx_emoji :: string
  rx_create_time :: time

record pin_row =
  pn_session_id :: cid
  pn_message_id :: u64
  pn_pinned_by :: uid
  pn_pinned_at :: time

record message_db =
  messages :: "message_row list"
  timelines :: "timeline_row list"
  reactions :: "reaction_row list"
  pins :: "pin_row list"

definition rx_key :: "reaction_row \<Rightarrow> u64 \<times> uid \<times> string" where
  "rx_key r = (rx_message_id r, rx_user_id r, rx_emoji r)"

definition pn_key :: "pin_row \<Rightarrow> cid \<times> u64" where
  "pn_key p = (pn_session_id p, pn_message_id p)"

text \<open>What a statement of a transaction can raise.\<close>

datatype db_exn = Already_persistent | Database_exception

section \<open>MessageTable\<close>

definition message_clash :: "message_row \<Rightarrow> message_row \<Rightarrow> bool" where
  "message_clash m r =
     (ms_message_id r = ms_message_id m
      \<or> ms_session_id r = ms_session_id m \<and> ms_seq_id r = ms_seq_id m
      \<or> ms_client_msg_id m \<noteq> None \<and> ms_user_id r = ms_user_id m \<and> ms_client_msg_id r = ms_client_msg_id m)"

definition MessageTable_insert :: "bool \<Rightarrow> message_row \<Rightarrow> message_row list \<Rightarrow> db_exn + message_row list" where
  "MessageTable_insert ok msg rs =
     (if \<not> ok then Inl Database_exception
      else if list_ex (message_clash msg) rs then Inl Already_persistent
      else Inr (rs @ [msg]))"

fun MessageTable_insert_many ::
  "bool \<Rightarrow> message_row list \<Rightarrow> message_row list \<Rightarrow> db_exn + message_row list" where
  "MessageTable_insert_many ok [] rs = Inr rs"
| "MessageTable_insert_many ok (m # ms) rs =
     (case MessageTable_insert ok m rs of
        Inl e \<Rightarrow> Inl e
      | Inr rs' \<Rightarrow> MessageTable_insert_many ok ms rs')"

definition select_by_client_msg :: "bool \<Rightarrow> uid \<Rightarrow> string \<Rightarrow> message_row list \<Rightarrow> message_row option" where
  "select_by_client_msg ok uid client_msg_id rs =
     (if client_msg_id = [] \<or> \<not> ok then None
      else query_one (\<lambda>m. ms_user_id m = uid \<and> ms_client_msg_id m = Some client_msg_id) rs)"

text \<open>One row is found by its id and written back; \<open>message_id\<close> is unique.\<close>

definition put_message :: "message_row \<Rightarrow> message_row list \<Rightarrow> message_row list" where
  "put_message m rs = put_row ms_message_id m rs"

definition update_status_to_recalled ::
  "bool \<Rightarrow> time \<Rightarrow> u64 \<Rightarrow> message_row list \<Rightarrow> bool \<times> message_row list" where
  "update_status_to_recalled ok now mid rs =
     (if \<not> ok then (False, rs)
      else case query_one (\<lambda>m. ms_message_id m = mid \<and> ms_status m = Status_NORMAL) rs of
             None \<Rightarrow> (False, rs)
           | Some m \<Rightarrow> (True, put_message (m\<lparr>ms_status := REVOKED, ms_content := Some [],
                                             ms_revoke_time := Some now\<rparr>) rs))"

definition session_rows :: "cid \<Rightarrow> message_row list \<Rightarrow> message_row list" where
  "session_rows cid rs = filter (\<lambda>m. ms_session_id m = cid) rs"

text \<open>\<open>ORDER BY seq_id\<close>, ascending and descending.\<close>

definition by_seq :: "message_row list \<Rightarrow> message_row list" where
  "by_seq rs = sort_key ms_seq_id rs"

definition by_seq_desc :: "message_row list \<Rightarrow> message_row list" where
  "by_seq_desc rs = rev (sort_key ms_seq_id (rev rs))"

definition select_max_seq_by_conversation :: "bool \<Rightarrow> cid \<Rightarrow> message_row list \<Rightarrow> u64" where
  "select_max_seq_by_conversation ok cid rs =
     (if \<not> ok then 0
      else case by_seq_desc (session_rows cid rs) of [] \<Rightarrow> 0 | m # _ \<Rightarrow> ms_seq_id m)"

definition select_history :: "bool \<Rightarrow> cid \<Rightarrow> u64 \<Rightarrow> int \<Rightarrow> message_row list \<Rightarrow> message_row list" where
  "select_history ok cid before_seq limit rs =
     (if \<not> ok then []
      else take (nat limit) (by_seq_desc
             (filter (\<lambda>m. ms_session_id m = cid \<and> ms_seq_id m < before_seq \<and> ms_status m \<noteq> DELETED) rs)))"

definition select_after :: "bool \<Rightarrow> cid \<Rightarrow> u64 \<Rightarrow> int \<Rightarrow> message_row list \<Rightarrow> message_row list" where
  "select_after ok cid after_seq limit rs =
     (if \<not> ok then []
      else take (nat limit) (by_seq
             (filter (\<lambda>m. ms_session_id m = cid \<and> after_seq < ms_seq_id m \<and> ms_status m \<noteq> DELETED) rs)))"

definition select_by_id :: "bool \<Rightarrow> u64 \<Rightarrow> message_row list \<Rightarrow> message_row option" where
  "select_by_id ok mid rs = (if \<not> ok then None else query_one (\<lambda>m. ms_message_id m = mid) rs)"

definition select_by_ids :: "bool \<Rightarrow> u64 list \<Rightarrow> message_row list \<Rightarrow> message_row list" where
  "select_by_ids ok ids rs =
     (if ids = [] \<or> \<not> ok then [] else by_seq (filter (\<lambda>m. ms_message_id m \<in> set ids) rs))"

definition recent_by_seq :: "bool \<Rightarrow> cid \<Rightarrow> int \<Rightarrow> message_row list \<Rightarrow> message_row list" where
  "recent_by_seq ok ssid count rs =
     (if \<not> ok then [] else rev (take (nat count) (by_seq_desc (session_rows ssid rs))))"

definition range_by_seq :: "bool \<Rightarrow> cid \<Rightarrow> u64 \<Rightarrow> u64 \<Rightarrow> message_row list \<Rightarrow> message_row list" where
  "range_by_seq ok ssid start_seq end_seq rs =
     (if end_seq < start_seq \<or> \<not> ok then []
      else by_seq (filter (\<lambda>m. start_seq \<le> ms_seq_id m \<and> ms_seq_id m \<le> end_seq) (session_rows ssid rs)))"

definition max_seq_of_session :: "bool \<Rightarrow> cid \<Rightarrow> message_row list \<Rightarrow> u64" where
  "max_seq_of_session ok ssid rs =
     (if \<not> ok then 0
      else case by_seq_desc (session_rows ssid rs) of [] \<Rightarrow> 0 | m # _ \<Rightarrow> ms_seq_id m)"

definition MessageTable_range :: "bool \<Rightarrow> cid \<Rightarrow> time \<Rightarrow> time \<Rightarrow> message_row list \<Rightarrow> message_row list" where
  "MessageTable_range ok ssid stime etime rs =
     (if \<not> ok then []
      else by_seq (filter (\<lambda>m. stime \<le> ms_create_time m \<and> ms_create_time m \<le> etime) (session_rows ssid rs)))"

definition mark_revoked :: "bool \<Rightarrow> time \<Rightarrow> u64 \<Rightarrow> uid \<Rightarrow> message_row list \<Rightarrow> bool \<times> message_row list" where
  "mark_revoked ok now mid operator_id rs =
     (if \<not> ok then (False, rs)
      else case query_one (\<lambda>m. ms_message_id m = mid) rs of
             None \<Rightarrow> (False, rs)
           | Some m \<Rightarrow> (True, put_message (m\<lparr>ms_status := REVOKED, ms_revoke_time := Some now,
                                             ms_revoke_by := Some operator_id\<rparr>) rs))"

definition mark_deleted :: "bool \<Rightarrow> u64 \<Rightarrow> message_row list \<Rightarrow> bool \<times> message_row list" where
  "mark_deleted ok mid rs =
     (if \<not> ok then (False, rs)
      else case query_one (\<lambda>m. ms_message_id m = mid) rs of
             None \<Rightarrow> (False, rs)
           | Some m \<Rightarrow> (True, put_message (m\<lparr>ms_status := DELETED\<rparr>) rs))"

definition remove_by_session :: "bool \<Rightarrow> cid \<Rightarrow> message_row list \<Rightarrow> bool \<times> message_row list" where
  "remove_by_session ok ssid rs =
     (if \<not> ok then (False, rs) else (True, filter (\<lambda>m. ms_session_id m \<noteq> ssid) rs))"

text \<open>\<open>SELECT session_id, MAX(seq_id) ... GROUP BY session_id\<close>.\<close>

definition max_u64 :: "u64 list \<Rightarrow> u64" where
  "max_u64 xs = foldl max 0 xs"

definition select_max_seq_by_session :: "bool \<Rightarrow> message_row list \<Rightarrow> (cid \<times> u64) list" where
  "select_max_seq_by_session ok rs =
     (if \<not> ok then []
      else map (\<lambda>ssid. (ssid, max_u64 (map ms_seq_id (session_rows ssid rs))))
             (remdups (map ms_session_id rs)))"

section \<open>UserTimeLineTable\<close>

text \<open>Only the auto-increment id is unique, so a row that reaches the database is stored.\<close>

definition UserTimeLineTable_insert ::
  "bool \<Rightarrow> timeline_row list \<Rightarrow> timeline_row list \<Rightarrow> db_exn + timeline_row list" where
  "UserTimeLineTable_insert ok tls rs =
     (if tls = [] then Inr rs else if \<not> ok then Inl Database_exception else Inr (rs @ tls))"

definition list_global_after :: "bool \<Rightarrow> uid \<Rightarrow> u64 \<Rightarrow> nat \<Rightarrow> timeline_row list \<Rightarrow> timeline_row list" where
  "list_global_after ok uid after_user_seq limit rs =
     (if \<not> ok then []
      else take limit (sort_key tl_user_seq
             (filter (\<lambda>t. tl_user_id t = uid \<and> after_user_seq < tl_user_seq t) rs)))"

definition timeline_of :: "uid \<Rightarrow> cid \<Rightarrow> timeline_row list \<Rightarrow> timeline_row list" where
  "timeline_of uid ssid rs = filter (\<lambda>t. tl_user_id t = uid \<and> tl_session_id t = ssid) rs"

definition list_session_after ::
  "bool \<Rightarrow> uid \<Rightarrow> cid \<Rightarrow> u64 \<Rightarrow> nat \<Rightarrow> timeline_row list \<Rightarrow> timeline_row list" where
  "list_session_after ok uid ssid after_session_seq limit rs =
     (if \<not> ok then []
      else take limit (sort_key tl_session_seq
             (filter (\<lambda>t. after_session_seq < tl_session_seq t) (timeline_of uid ssid rs))))"

text \<open>Fetched in descending order and reversed for display.\<close>

definition latest_first :: "(timeline_row \<Rightarrow> u64) \<Rightarrow> timeline_row list \<Rightarrow> timeline_row list" where
  "latest_first seq rs = rev (sort_key seq (rev rs))"

definition list_session_before ::
  "bool \<Rightarrow> uid \<Rightarrow> cid \<Rightarrow> u64 \<Rightarrow> nat \<Rightarrow> timeline_row list \<Rightarrow> timeline_row list" where
  "list_session_before ok uid ssid before_session_seq limit rs =
     (if \<not> ok then []
      else rev (take limit (latest_first tl_session_seq
             (filter (\<lambda>t. tl_session_seq t < before_session_seq) (timeline_of uid ssid rs)))))"

definition list_session_latest :: "bool \<Rightarrow> uid \<Rightarrow> cid \<Rightarrow> nat \<Rightarrow> timeline_row list \<Rightarrow> timeline_row list" where
  "list_session_latest ok uid ssid limit rs =
     (if \<not> ok then [] else rev (take limit (latest_first tl_session_seq (timeline_of uid ssid rs))))"

definition UserTimeLineTable_range ::
  "bool \<Rightarrow> uid \<Rightarrow> cid \<Rightarrow> time \<Rightarrow> time \<Rightarrow> timeline_row list \<Rightarrow> timeline_row list" where
  "UserTimeLineTable_range ok uid ssid stime etime rs =
     (if \<not> ok then []
      else filter (\<lambda>t. stime \<le> tl_message_time t \<and> tl_message_time t \<le> etime) (timeline_of uid ssid rs))"

definition latest_user_seq :: "bool \<Rightarrow> uid \<Rightarrow> timeline_row list \<Rightarrow> u64" where
  "latest_user_seq ok uid rs =
     (if \<not> ok then 0
      else case latest_first tl_user_seq (filter (\<lambda>t. tl_user_id t = uid) rs) of
             [] \<Rightarrow> 0 | t # _ \<Rightarrow> tl_user_seq t)"

definition latest_session_seq :: "bool \<Rightarrow> uid \<Rightarrow> cid \<Rightarrow> timeline_row list \<Rightarrow> u64" where
  "latest_session_seq ok uid ssid rs =
     (if \<not> ok then 0
      else case latest_first tl_session_seq (timeline_of uid ssid rs) of
             [] \<Rightarrow> 0 | t # _ \<Rightarrow> tl_session_seq t)"

definition unread_count_by_seq :: "bool \<Rightarrow> uid \<Rightarrow> cid \<Rightarrow> u64 \<Rightarrow> timeline_row list \<Rightarrow> nat" where
  "unread_count_by_seq ok uid ssid last_read_seq rs =
     (if \<not> ok then 0
      else length (filter (\<lambda>t. last_read_seq < tl_session_seq t) (timeline_of uid ssid rs)))"

text \<open>\<open>_set_status\<close> only moves forward: PENDING, DELIVERED, READ.\<close>

definition advance_status :: "deliver_status \<Rightarrow> timeline_row \<Rightarrow> timeline_row" where
  "advance_status st t =
     (if deliver_code (tl_deliver_status t) < deliver_code st then t\<lparr>tl_deliver_status := st\<rparr> else t)"

fun update_first :: "('r \<Rightarrow> bool) \<Rightarrow> ('r \<Rightarrow> 'r) \<Rightarrow> 'r list \<Rightarrow> 'r list" where
  "update_first P f [] = []"
| "update_first P f (r # rs) = (if P r then f r # rs else r # update_first P f rs)"

definition set_status ::
  "bool \<Rightarrow> uid \<Rightarrow> u64 \<Rightarrow> deliver_status \<Rightarrow> timeline_row list \<Rightarrow> bool \<times> timeline_row list" where
  "set_status ok uid mid st rs =
     (let P = (\<lambda>t. tl_user_id t = uid \<and> tl_message_id t = mid)
      in if \<not> ok \<or> query_one P rs = None then (False, rs)
         else (True, update_first P (advance_status st) rs))"

definition mark_delivered :: "bool \<Rightarrow> uid \<Rightarrow> u64 \<Rightarrow> timeline_row list \<Rightarrow> bool \<times> timeline_row list" where
  "mark_delivered ok uid mid rs = set_status ok uid mid DELIVERED rs"

definition mark_read :: "bool \<Rightarrow> uid \<Rightarrow> u64 \<Rightarrow> timeline_row list \<Rightarrow> bool \<times> timeline_row list" where
  "mark_read ok uid mid rs = set_status ok uid mid READ rs"

definition remove_by_user_session :: "bool \<Rightarrow> uid \<Rightarrow> cid \<Rightarrow> timeline_row list \<Rightarrow> bool \<times> timeline_row list" where
  "remove_by_user_session ok uid ssid rs =
     (if \<not> ok then (False, rs)
      else (True, filter (\<lambda>t. \<not> (tl_user_id t = uid \<and> tl_session_id t = ssid)) rs))"

definition delete_by_message_ids ::
  "bool \<Rightarrow> uid \<Rightarrow> cid \<Rightarrow> u64 list \<Rightarrow> timeline_row list \<Rightarrow> timeline_row list" where
  "delete_by_message_ids ok uid cid mids rs =
     (if mids = [] \<or> \<not> ok then rs
      else filter (\<lambda>t. \<not> (tl_user_id t = uid \<and> tl_session_id t = cid \<and> tl_message_id t \<in> set mids)) rs)"

definition delete_by_conversation :: "bool \<Rightarrow> uid \<Rightarrow> cid \<Rightarrow> timeline_row list \<Rightarrow> timeline_row list" where
  "delete_by_conversation ok uid cid rs =
     (if \<not> ok then rs else filter (\<lambda>t. \<not> (tl_user_id t = uid \<and> tl_session_id t = cid)) rs)"

definition select_max_user_seq :: "bool \<Rightarrow> timeline_row list \<Rightarrow> (uid \<times> u64) list" where
  "select_max_user_seq ok rs =
     (if \<not> ok then []
      else map (\<lambda>u. (u, max_u64 (map tl_user_seq (filter (\<lambda>t. tl_user_id t = u) rs))))
             (remdups (map tl_user_id rs)))"

section \<open>MessageReactionTable\<close>

text \<open>A clash with the unique index counts as success.\<close>

definition MessageReactionTable_insert ::
  "bool \<Rightarrow> time \<Rightarrow> u64 \<Rightarrow> uid \<Rightarrow> string \<Rightarrow> reaction_row list \<Rightarrow> bool \<times> reaction_row list" where
  "MessageReactionTable_insert ok now mid uid emoji rs =
     (if \<not> ok then (False, rs)
      else case persist rx_key \<lparr>rx_message_id = mid, rx_user_id = uid, rx_emoji = emoji,
                                rx_create_time = now\<rparr> rs of
             None \<Rightarrow> (True, rs)
           | Some rs' \<Rightarrow> (True, rs'))"

definition MessageReactionTable_remove ::
  "bool \<Rightarrow> u64 \<Rightarrow> uid \<Rightarrow> string \<Rightarrow> reaction_row list \<Rightarrow> bool \<times> reaction_row list" where
  "MessageReactionTable_remove ok mid uid emoji rs =
     (if \<not> ok then (False, rs) else (True, filter (\<lambda>r. rx_key r \<noteq> (mid, uid, emoji)) rs))"

definition select_by_message :: "bool \<Rightarrow> u64 \<Rightarrow> reaction_row list \<Rightarrow> reaction_row list" where
  "select_by_message ok mid rs = (if \<not> ok then [] else filter (\<lambda>r. rx_message_id r = mid) rs)"

definition select_by_messages :: "bool \<Rightarrow> u64 list \<Rightarrow> reaction_row list \<Rightarrow> reaction_row list" where
  "select_by_messages ok mids rs =
     (if mids = [] \<or> \<not> ok then []
      else sort_key rx_message_id (filter (\<lambda>r. rx_message_id r \<in> set mids) rs))"

section \<open>MessagePinTable\<close>

definition MessagePinTable_insert ::
  "bool \<Rightarrow> time \<Rightarrow> cid \<Rightarrow> u64 \<Rightarrow> uid \<Rightarrow> pin_row list \<Rightarrow> bool \<times> pin_row list" where
  "MessagePinTable_insert ok now cid mid pinner rs =
     (if \<not> ok then (False, rs)
      else case persist pn_key \<lparr>pn_session_id = cid, pn_message_id = mid, pn_pinned_by = pinner,
                                pn_pinned_at = now\<rparr> rs of
             None \<Rightarrow> (True, rs)
           | Some rs' \<Rightarrow> (True, rs'))"

definition MessagePinTable_remove :: "bool \<Rightarrow> cid \<Rightarrow> u64 \<Rightarrow> pin_row list \<Rightarrow> bool \<times> pin_row list" where
  "MessagePinTable_remove ok cid mid rs =
     (if \<not> ok then (False, rs) else (True, filter (\<lambda>p. pn_key p \<noteq> (cid, mid)) rs))"

definition count_by_conversation :: "bool \<Rightarrow> cid \<Rightarrow> pin_row list \<Rightarrow> int" where
  "count_by_conversation ok cid rs =
     (if \<not> ok then 0 else int (length (filter (\<lambda>p. pn_session_id p = cid) rs)))"

definition list_by_conversation :: "bool \<Rightarrow> cid \<Rightarrow> int \<Rightarrow> pin_row list \<Rightarrow> u64 list" where
  "list_by_conversation ok cid limit rs =
     (if \<not> ok then []
      else map pn_message_id (take (nat limit)
             (sort_key (\<lambda>p. - pn_pinned_at p) (filter (\<lambda>p. pn_session_id p = cid) rs))))"

definition list_pinned_in :: "bool \<Rightarrow> cid \<Rightarrow> u64 list \<Rightarrow> pin_row list \<Rightarrow> u64 list" where
  "list_pinned_in ok cid mids rs =
     (if mids = [] \<or> \<not> ok then []
      else map pn_message_id (filter (\<lambda>p. pn_session_id p = cid \<and> pn_message_id p \<in> set mids) rs))"

end
