(* ===== verification/Notify_Proto.thy ===== *)
theory Notify_Proto
  imports Message_Proto
begin

text \<open>
  The notification envelope of proto/push/notify.proto, with one constructor per member of its
  oneof; \<open>No_remarks\<close> is the unset oneof. \<open>notify_event_id\<close> and \<open>trace_id\<close> are optional fields.
\<close>

definition FRIEND_ADD_APPLY_NOTIFY :: int where "FRIEND_ADD_APPLY_NOTIFY = 0"
definition FRIEND_ADD_PROCESS_NOTIFY :: int where "FRIEND_ADD_PROCESS_NOTIFY = 1"
definition CONVERSATION_CREATE_NOTIFY :: int where "CONVERSATION_CREATE_NOTIFY = 2"
definition CHAT_MESSAGE_NOTIFY :: int where "CHAT_MESSAGE_NOTIFY = 3"
definition FRIEND_REMOVE_NOTIFY :: int where "FRIEND_REMOVE_NOTIFY = 4"
definition MESSAGE_RECALLED_NOTIFY :: int where "MESSAGE_RECALLED_NOTIFY = 5"
definition PRESENCE_CHANGE_NOTIFY :: int where "PRESENCE_CHANGE_NOTIFY = 6"
definition TYPING_NOTIFY :: int where "TYPING_NOTIFY = 7"
definition REACTION_CHANGED_NOTIFY :: int where "REACTION_CHANGED_NOTIFY = 8"
definition PIN_CHANGED_NOTIFY :: int where "PIN_CHANGED_NOTIFY = 9"
definition READ_RECEIPT_NOTIFY :: int where "READ_RECEIPT_NOTIFY = 10"
definition KICKED_BY_NEW_DEVICE :: int where "KICKED_BY_NEW_DEVICE = 11"
definition KICKED_BY_REVOKE :: int where "KICKED_BY_REVOKE = 12"
definition FORCE_LOGOUT :: int where "FORCE_LOGOUT = 13"
definition CONVERSATION_DISMISSED_NOTIFY :: int where "CONVERSATION_DISMISSED_NOTIFY = 14"
definition CLIENT_AUTH :: int where "CLIENT_AUTH = 49"
definition MSG_PUSH_ACK :: int where "MSG_PUSH_ACK = 50"
definition CLIENT_HEARTBEAT :: int where "CLIENT_HEARTBEAT = 51"

lemmas notify_type_defs = FRIEND_ADD_APPLY_NOTIFY_def FRIEND_ADD_PROCESS_NOTIFY_def
  CONVERSATION_CREATE_NOTIFY_def CHAT_MESSAGE_NOTIFY_def FRIEND_REMOVE_NOTIFY_def
  MESSAGE_RECALLED_NOTIFY_def PRESENCE_CHANGE_NOTIFY_def TYPING_NOTIFY_def
  REACTION_CHANGED_NOTIFY_def PIN_CHANGED_NOTIFY_def READ_RECEIPT_NOTIFY_def
  KICKED_BY_NEW_DEVICE_def KICKED_BY_REVOKE_def FORCE_LOGOUT_def CONVERSATION_DISMISSED_NOTIFY_def
  CLIENT_AUTH_def MSG_PUSH_ACK_def CLIENT_HEARTBEAT_def

record push_ack =
  pa_user_id :: uid
  pa_device_id :: string
  pa_message_id :: int
  pa_user_seq :: u64
  pa_conversation_id :: cid
  pa_seq_id :: u64

datatype notify_remarks =
    No_remarks
  | Friend_add_apply user_info
  | Friend_process_result bool user_info
  | Friend_remove uid
  | New_conversation_info string
  | New_message_info message_p
  | Msg_push_ack push_ack
  | Heartbeat uid u64
  | Client_auth string string "u64 option"
  | Message_recalled cid int
  | Presence_change uid string
  | Typing uid cid bool
  | Reaction_changed cid int uid string bool
  | Pin_changed cid int uid bool
  | Read_receipt cid uid u64
  | Kicked int string

record notify_message =
  nm_notify_event_id :: "string option"
  nm_notify_type :: int
  nm_trace_id :: "string option"
  nm_remarks :: notify_remarks

definition notify :: "int \<Rightarrow> notify_remarks \<Rightarrow> notify_message" where
  "notify t r = \<lparr>nm_notify_event_id = None, nm_notify_type = t, nm_trace_id = None, nm_remarks = r\<rparr>"

end
