(* ===== verification/Message_Service.thy ===== *)
theory Message_Service
  imports Message_Dao Notify_Proto Conversation_Dao Es_Outbox Transmite
begin

text \<open>
  The message service (message/source/message_server.h): the fifteen RPC handlers of
  \<open>MessageServiceImpl\<close>, the two queue consumers \<open>onDBMessage\<close> and \<open>onESIndexMessage\<close>, the
  notification helpers, the outbox reapers and the sequence backfill at start-up, with
  \<open>ESMessage\<close> (common/dao/data_es.hpp) and \<open>PushOutbox\<close> (common/dao/data_redis.hpp).

  State: the message tables, the member table, the idempotency keys, the search index, the two
  queues the service publishes to and their outboxes, and the notifications sent to the push
  service. Parameters: clock, failures, protobuf, the broker's answers, Elasticsearch's ranking
  and whether a push channel exists. The server is the one \<open>MessageServerBuilder\<close> builds, so
  tables and outboxes exist; the publishers may not.
\<close>

section \<open>State and environment\<close>

definition kRecallTimeoutMs :: int where "kRecallTimeoutMs = 120 * 1000"
definition kPinLimit :: int where "kPinLimit = 10"
definition kMaxLimit :: int where "kMaxLimit = 100"
definition kMaxSearchLimit :: int where "kMaxSearchLimit = 50"
definition kMaxEmojiBytes :: nat where "kMaxEmojiBytes = 16"
definition kSystemUserId :: uid where "kSystemUserId = ''__system__''"

record es_message_doc =
  ed_user_id :: uid
  ed_message_id :: u64
  ed_seq_id :: u64
  ed_create_time :: int  \<comment> \<open>seconds\<close>
  ed_chat_session_id :: cid
  ed_content :: string
  ed_status :: int

type_synonym es_message_index = "u64 \<Rightarrow> es_message_doc option"

record es_index_event =
  ev_message_id :: int
  ev_conversation_id :: cid
  ev_sender_id :: uid
  ev_content_text :: string
  ev_created_at_ms :: int
  ev_seq_id :: u64
  ev_message_type :: int

datatype ConsumeAction = Ack | NackRequeue | NackDiscard

record message_state =
  mv_db :: message_db
  mv_members :: conv_db
  mv_idem :: "string \<Rightarrow> string option"
  mv_es :: es_message_index
  mv_push_mq :: "string list"
  mv_push_outbox :: zset
  mv_es_mq :: "string list"
  mv_es_outbox :: zset
  mv_pushed :: "(uid \<times> notify_message) list"

record message_env =
  me_now_ms :: time
  me_time :: int
  me_up :: calls
  me_push_publisher :: bool
  me_es_publisher :: bool
  me_publish_push :: "string \<Rightarrow> publish_outcome"
  me_publish_es :: "string \<Rightarrow> publish_outcome"
  me_push_channel :: bool
  me_es_search :: "es_message_index \<Rightarrow> string \<Rightarrow> cid \<Rightarrow> int \<Rightarrow> es_message_doc list"
  me_serialize_internal :: "internal_message \<Rightarrow> string"
  me_parse_internal :: "string \<Rightarrow> internal_message option"
  me_serialize_notify :: "notify_message \<Rightarrow> string"
  me_serialize_es_event :: "es_index_event \<Rightarrow> string"
  me_parse_es_event :: "string \<Rightarrow> es_index_event option"

section \<open>ESMessage and PushOutbox\<close>

definition ESMessage_appendData ::
  "bool \<Rightarrow> uid \<Rightarrow> u64 \<Rightarrow> u64 \<Rightarrow> int \<Rightarrow> cid \<Rightarrow> string \<Rightarrow> es_message_index \<Rightarrow> bool \<times> es_message_index" where
  "ESMessage_appendData ok uid mid seq create_secs ssid content idx =
     (if \<not> ok then (False, idx)
      else (True, idx(mid \<mapsto> \<lparr>ed_user_id = uid, ed_message_id = mid, ed_seq_id = seq,
              ed_create_time = create_secs, ed_chat_session_id = ssid, ed_content = content, ed_status = 0\<rparr>)))"

text \<open>A hit becomes a default \<open>Message\<close> with the indexed fields set.\<close>

definition message_of_doc :: "es_message_doc \<Rightarrow> message_row" where
  "message_of_doc d =
     (Message (ed_message_id d) (ed_chat_session_id d) (ed_user_id d) Type_TEXT
        (ed_create_time d * 1000) Status_NORMAL)
       \<lparr>ms_seq_id := ed_seq_id d, ms_content := Some (ed_content d)\<rparr>"

definition ESMessage_search ::
  "message_env \<Rightarrow> string \<Rightarrow> cid \<Rightarrow> int \<Rightarrow> es_message_index \<Rightarrow> message_row list" where
  "ESMessage_search env key ssid n idx = map message_of_doc (me_es_search env idx key ssid n)"

definition PushOutbox_enqueue :: "bool \<Rightarrow> string \<Rightarrow> int \<Rightarrow> zset \<Rightarrow> zset" where
  "PushOutbox_enqueue ok payload score z = (if ok then zadd payload score z else z)"

definition PushOutbox_peek :: "bool \<Rightarrow> nat \<Rightarrow> zset \<Rightarrow> string list" where
  "PushOutbox_peek ok limit z = (if ok then take limit (zordered z) else [])"

definition PushOutbox_remove :: "bool \<Rightarrow> string \<Rightarrow> zset \<Rightarrow> zset" where
  "PushOutbox_remove ok payload z = (if ok then zrem payload z else z)"

section \<open>Permission checks\<close>

definition require_member_m :: "message_env \<Rightarrow> nat \<Rightarrow> cid \<Rightarrow> uid \<Rightarrow> message_state \<Rightarrow> exn option" where
  "require_member_m env k cid uid s =
     (if uid = kSystemUserId then None
      else case ConversationMemberTable_select_self (me_up env k 0) cid uid (mv_members s) of
             None \<Rightarrow> Some (ServiceError kConversationNotMember ''user not member of conversation'')
           | Some self \<Rightarrow>
               if cm_is_quit self
               then Some (ServiceError kConversationNotMember ''user not member of conversation'')
               else None)"

definition conv_role_m :: "message_env \<Rightarrow> nat \<Rightarrow> cid \<Rightarrow> uid \<Rightarrow> message_state \<Rightarrow> exn + member_role" where
  "conv_role_m env k cid uid s =
     (if uid = kSystemUserId then Inr OWNER
      else case ConversationMemberTable_select_self (me_up env k 0) cid uid (mv_members s) of
             None \<Rightarrow> Inl (ServiceError kConversationNotMember ''user not member of conversation'')
           | Some self \<Rightarrow>
               if cm_is_quit self
               then Inl (ServiceError kConversationNotMember ''user not member of conversation'')
               else Inr (cm_role self))"

section \<open>Conversions\<close>

fun content_of_row :: "db_message_type \<Rightarrow> message_row \<Rightarrow> message_content" where
  "content_of_row Type_IMAGE db =
     \<lparr>mc_type = IMAGE, mc_body = Image_body (nullable_str (ms_file_id db)) 0 0 []\<rparr>"
| "content_of_row Type_FILE db =
     (let fsize = (case ms_file_size db of None \<Rightarrow> 0 | Some v \<Rightarrow> v)
      in \<lparr>mc_type = FILE, mc_body = File_body (nullable_str (ms_file_id db)) (nullable_str (ms_file_name db))
            (if 0 < fsize then sint fsize else 0) []\<rparr>)"
| "content_of_row Type_AUDIO db =
     \<lparr>mc_type = AUDIO, mc_body = Audio_body (nullable_str (ms_file_id db)) 0\<rparr>"
| "content_of_row _ db = \<lparr>mc_type = TEXT, mc_body = Text_body (nullable_str (ms_content db))\<rparr>"

definition convert_db_message_to_proto :: "message_row \<Rightarrow> message_p" where
  "convert_db_message_to_proto db = empty_message
     \<lparr>mg_message_id := sint (ms_message_id db), mg_conversation_id := ms_session_id db,
      mg_sender_id := ms_user_id db, mg_seq_id := ms_seq_id db,
      mg_client_msg_id := nullable_str (ms_client_msg_id db),
      mg_status := message_status_code (ms_status db),
      mg_created_at_ms := (if ms_create_time db < 0 then 0 else ms_create_time db),
      mg_content := content_of_row (ms_message_type db) db\<rparr>"

text \<open>
  The grouping loop: a \<open>std::map\<close> from emoji to users, so one group per emoji in byte order,
  users in the order of the rows, the first three kept.
\<close>

definition group_reactions :: "uid \<Rightarrow> reaction_row list \<Rightarrow> reaction_group list" where
  "group_reactions caller rows =
     map (\<lambda>emoji. let uids = map rx_user_id (filter (\<lambda>r. rx_emoji r = emoji) rows)
                  in \<lparr>rg_emoji = emoji, rg_count = int (length uids),
                      rg_recent_user_ids = take 3 uids, rg_self_reacted = (caller \<in> set uids)\<rparr>)
       (sort (remdups (map rx_emoji rows)))"

definition fill_reactions_for_messages ::
  "message_env \<Rightarrow> u64 list \<Rightarrow> uid \<Rightarrow> message_state \<Rightarrow> message_p list \<Rightarrow> message_p list" where
  "fill_reactions_for_messages env mids caller s msgs =
     (if mids = [] then msgs
      else let rows = select_by_messages (me_up env 20 0) mids (reactions (mv_db s))
           in map (\<lambda>m. m\<lparr>mg_reactions := mg_reactions m @ group_reactions caller
                      (filter (\<lambda>r. rx_message_id r = of_int (mg_message_id m)) rows)\<rparr>) msgs)"

definition fill_reactions_by_mids ::
  "message_env \<Rightarrow> u64 list \<Rightarrow> uid \<Rightarrow> message_state \<Rightarrow> message_p list \<Rightarrow> message_p list" where
  "fill_reactions_by_mids env mids caller s msgs = fill_reactions_for_messages env mids caller s msgs"

definition fill_pin_flag_for_messages ::
  "message_env \<Rightarrow> cid \<Rightarrow> u64 list \<Rightarrow> message_state \<Rightarrow> message_p list \<Rightarrow> message_p list" where
  "fill_pin_flag_for_messages env cid mids s msgs =
     (if mids = [] then msgs
      else let pinned = list_pinned_in (me_up env 21 0) cid mids (pins (mv_db s))
           in map (\<lambda>m. m\<lparr>mg_is_pinned := (of_int (mg_message_id m) \<in> set pinned)\<rparr>) msgs)"

section \<open>Publication\<close>

text \<open>
  \<open>publish_confirm\<close> with the callback and the catch branch every caller has: anything but an
  acknowledgement puts the payload into the outbox.
\<close>

definition publish_or_enqueue ::
  "bool \<Rightarrow> int \<Rightarrow> publish_outcome \<Rightarrow> string \<Rightarrow> string list \<Rightarrow> zset \<Rightarrow> string list \<times> zset" where
  "publish_or_enqueue ok now outcome payload mq outbox =
     (case outcome of
        Publish_throws \<Rightarrow> (mq, PushOutbox_enqueue ok payload now outbox)
      | Confirmed st delivered \<Rightarrow>
          (if st = Acked \<or> delivered then mq @ [payload] else mq,
           if st = Acked then outbox else PushOutbox_enqueue ok payload now outbox))"

definition publish_push :: "message_env \<Rightarrow> nat \<Rightarrow> string \<Rightarrow> message_state \<Rightarrow> message_state" where
  "publish_push env k payload s =
     (case publish_or_enqueue (me_up env k 0) (me_time env) (me_publish_push env payload) payload
             (mv_push_mq s) (mv_push_outbox s) of
        (mq, ob) \<Rightarrow> s\<lparr>mv_push_mq := mq, mv_push_outbox := ob\<rparr>)"

definition publish_recalled_notify :: "message_env \<Rightarrow> cid \<Rightarrow> int \<Rightarrow> message_state \<Rightarrow> message_state" where
  "publish_recalled_notify env cid mid s =
     (if \<not> me_push_publisher env then s
      else publish_push env 30
             (me_serialize_notify env (notify MESSAGE_RECALLED_NOTIFY (Message_recalled cid mid))) s)"

definition publish_pin_notify :: "message_env \<Rightarrow> cid \<Rightarrow> int \<Rightarrow> uid \<Rightarrow> bool \<Rightarrow> message_state \<Rightarrow> message_state" where
  "publish_pin_notify env cid mid actor is_pinned s =
     (if \<not> me_push_publisher env then s
      else publish_push env 31
             (me_serialize_notify env (notify PIN_CHANGED_NOTIFY (Pin_changed cid mid actor is_pinned))) s)"

text \<open>A reaction is pushed to the author only, by an RPC whose outcome nobody waits for.\<close>

definition publish_reaction_notify ::
  "message_env \<Rightarrow> uid \<Rightarrow> cid \<Rightarrow> int \<Rightarrow> uid \<Rightarrow> string \<Rightarrow> bool \<Rightarrow> message_state \<Rightarrow> message_state" where
  "publish_reaction_notify env target cid mid actor emoji added s =
     (if target = actor \<or> \<not> me_push_publisher env \<or> \<not> me_push_channel env then s
      else s\<lparr>mv_pushed := mv_pushed s @
               [(target, notify REACTION_CHANGED_NOTIFY (Reaction_changed cid mid actor emoji added))]\<rparr>)"

section \<open>Reading\<close>

text \<open>What GetHistory and SyncMessages do with the rows: one more row than asked tells \<open>has_more\<close>.\<close>

definition page_of_rows :: "int \<Rightarrow> message_row list \<Rightarrow> bool \<times> message_row list" where
  "page_of_rows limit rows =
     (let has_more = (limit < int (length rows)) in (has_more, if has_more then butlast rows else rows))"

definition decorate ::
  "message_env \<Rightarrow> cid \<Rightarrow> uid \<Rightarrow> message_state \<Rightarrow> message_row list \<Rightarrow> message_p list" where
  "decorate env cid caller s rows =
     (let mids = map ms_message_id rows
      in fill_pin_flag_for_messages env cid mids s
           (fill_reactions_for_messages env mids caller s (map convert_db_message_to_proto rows)))"

definition GetHistory ::
  "message_env \<Rightarrow> auth_context \<Rightarrow> cid \<Rightarrow> u64 \<Rightarrow> int \<Rightarrow> message_state \<Rightarrow>
     (exn + message_p list \<times> bool) \<times> message_state" where
  "GetHistory env auth cid before_seq limit s =
     (if limit \<le> 0 \<or> kMaxLimit < limit
      then (Inl (ServiceError kSystemInvalidArgument ''limit out of range''), s)
      else if before_seq = 0
      then (Inl (ServiceError kSystemInvalidArgument ''before_seq must > 0''), s)
      else case require_member_m env 0 cid (user_id auth) s of
             Some e \<Rightarrow> (Inl e, s)
           | None \<Rightarrow>
               (case page_of_rows limit
                       (select_history (me_up env 1 0) cid before_seq (limit + 1) (messages (mv_db s))) of
                  (has_more, rows) \<Rightarrow> (Inr (decorate env cid (user_id auth) s rows, has_more), s)))"

definition SyncMessages ::
  "message_env \<Rightarrow> auth_context \<Rightarrow> cid \<Rightarrow> u64 \<Rightarrow> int \<Rightarrow> message_state \<Rightarrow>
     (exn + message_p list \<times> bool \<times> u64) \<times> message_state" where
  "SyncMessages env auth cid after_seq limit s =
     (if limit \<le> 0 \<or> kMaxLimit < limit
      then (Inl (ServiceError kSystemInvalidArgument ''limit out of range''), s)
      else case require_member_m env 0 cid (user_id auth) s of
             Some e \<Rightarrow> (Inl e, s)
           | None \<Rightarrow>
               (case page_of_rows limit
                       (select_after (me_up env 1 0) cid after_seq (limit + 1) (messages (mv_db s))) of
                  (has_more, rows) \<Rightarrow>
                    (Inr (decorate env cid (user_id auth) s rows, has_more,
                          select_max_seq_by_conversation (me_up env 2 0) cid (messages (mv_db s))), s)))"

text \<open>The permission filter of GetMessagesById asks once per row.\<close>

fun visible_rows :: "message_env \<Rightarrow> uid \<Rightarrow> message_state \<Rightarrow> nat \<Rightarrow> message_row list \<Rightarrow> message_row list" where
  "visible_rows env uid s i [] = []"
| "visible_rows env uid s i (m # ms) =
     (case ConversationMemberTable_select_self (me_up env 2 i) (ms_session_id m) uid (mv_members s) of
        None \<Rightarrow> visible_rows env uid s (Suc i) ms
      | Some self \<Rightarrow> if cm_is_quit self then visible_rows env uid s (Suc i) ms
                     else m # visible_rows env uid s (Suc i) ms)"

definition GetMessagesById ::
  "message_env \<Rightarrow> auth_context \<Rightarrow> int list \<Rightarrow> message_state \<Rightarrow> (exn + message_p list) \<times> message_state" where
  "GetMessagesById env auth mids s =
     (if mids = [] \<or> kMaxLimit < int (length mids)
      then (Inl (ServiceError kSystemInvalidArgument ''message_ids size out of range''), s)
      else let rows = visible_rows env (user_id auth) s 0
                        (select_by_ids (me_up env 1 0) (map of_int mids) (messages (mv_db s)));
               out = map convert_db_message_to_proto rows
           in (Inr (fill_reactions_by_mids env (map (\<lambda>m. of_int (mg_message_id m)) out) (user_id auth) s out), s))"

definition SearchMessages ::
  "message_env \<Rightarrow> auth_context \<Rightarrow> cid \<Rightarrow> string \<Rightarrow> int \<Rightarrow> message_state \<Rightarrow>
     (exn + message_p list) \<times> message_state" where
  "SearchMessages env auth cid keyword limit s =
     (if keyword = [] then (Inl (ServiceError kMessageContentInvalid ''keyword empty''), s)
      else if limit \<le> 0 \<or> kMaxSearchLimit < limit
      then (Inl (ServiceError kSystemInvalidArgument ''limit out of range''), s)
      else case require_member_m env 0 cid (user_id auth) s of
             Some e \<Rightarrow> (Inl e, s)
           | None \<Rightarrow> (Inr (map convert_db_message_to_proto
                             (ESMessage_search env keyword cid limit (mv_es s))), s))"

definition SelectByClientMsgId ::
  "message_env \<Rightarrow> auth_context \<Rightarrow> string \<Rightarrow> message_state \<Rightarrow> (exn + message_p option) \<times> message_state" where
  "SelectByClientMsgId env auth client_msg_id s =
     (if client_msg_id = [] then (Inr None, s)
      else (Inr (map_option convert_db_message_to_proto
                  (select_by_client_msg (me_up env 1 0) (user_id auth) client_msg_id (messages (mv_db s)))), s))"

section \<open>Recall\<close>

definition set_messages :: "message_row list \<Rightarrow> message_state \<Rightarrow> message_state" where
  "set_messages rs s = s\<lparr>mv_db := (mv_db s)\<lparr>messages := rs\<rparr>\<rparr>"

definition RecallMessage ::
  "message_env \<Rightarrow> auth_context \<Rightarrow> cid \<Rightarrow> int \<Rightarrow> message_state \<Rightarrow> (exn + unit) \<times> message_state" where
  "RecallMessage env auth cid mid s =
     (case select_by_id (me_up env 0 0) (of_int mid) (messages (mv_db s)) of
        None \<Rightarrow> (Inl (ServiceError kMessageNotFound ''mid not found''), s)
      | Some msg \<Rightarrow>
          if ms_session_id msg \<noteq> cid then (Inl (ServiceError kMessageNotFound ''cid mismatch''), s)
          else if ms_status msg = REVOKED
          then (Inl (ServiceError kMessageAlreadyRecalled ''already recalled''), s)
          else if ms_status msg = DELETED then (Inl (ServiceError kMessageNotFound ''deleted''), s)
          else (case conv_role_m env 1 cid (user_id auth) s of
                  Inl e \<Rightarrow> (Inl e, s)
                | Inr role \<Rightarrow>
                    let is_admin = (role = OWNER \<or> role = ADMIN);
                        is_self = (ms_user_id msg = user_id auth);
                        age_ms = me_now_ms env - ms_create_time msg
                    in if \<not> is_admin \<and> \<not> is_self
                       then (Inl (ServiceError kConversationNoPermission ''not msg author''), s)
                       else if \<not> is_admin \<and> kRecallTimeoutMs \<le> age_ms
                       then (Inl (ServiceError kMessageRecallTimeout ''exceed 120s window''), s)
                       else (case update_status_to_recalled (me_up env 2 0) (me_now_ms env) (of_int mid)
                                    (messages (mv_db s)) of
                               (False, _) \<Rightarrow>
                                 (Inl (ServiceError kMessageAlreadyRecalled ''race lost or not recallable''), s)
                             | (True, rs) \<Rightarrow>
                                 (Inr (), publish_recalled_notify env cid mid (set_messages rs s)))))"

section \<open>Reactions\<close>

definition bad_emoji :: "string \<Rightarrow> bool" where
  "bad_emoji emoji = (emoji = [] \<or> kMaxEmojiBytes < length emoji)"

definition AddReaction ::
  "message_env \<Rightarrow> auth_context \<Rightarrow> int \<Rightarrow> string \<Rightarrow> message_state \<Rightarrow> (exn + unit) \<times> message_state" where
  "AddReaction env auth mid emoji s =
     (if bad_emoji emoji then (Inl (ServiceError kMessageContentInvalid ''emoji length invalid''), s)
      else case select_by_id (me_up env 0 0) (of_int mid) (messages (mv_db s)) of
             None \<Rightarrow> (Inl (ServiceError kMessageNotFound ''mid''), s)
           | Some msg \<Rightarrow>
               (case require_member_m env 1 (ms_session_id msg) (user_id auth) s of
                  Some e \<Rightarrow> (Inl e, s)
                | None \<Rightarrow>
                    (case MessageReactionTable_insert (me_up env 2 0) (me_now_ms env) (of_int mid)
                            (user_id auth) emoji (reactions (mv_db s)) of
                       (False, _) \<Rightarrow> (Inl (ServiceError kSystemInternalError ''reaction insert failed''), s)
                     | (True, rs) \<Rightarrow>
                         (Inr (), publish_reaction_notify env (ms_user_id msg) (ms_session_id msg) mid
                            (user_id auth) emoji True (s\<lparr>mv_db := (mv_db s)\<lparr>reactions := rs\<rparr>\<rparr>)))))"

definition RemoveReaction ::
  "message_env \<Rightarrow> auth_context \<Rightarrow> int \<Rightarrow> string \<Rightarrow> message_state \<Rightarrow> (exn + unit) \<times> message_state" where
  "RemoveReaction env auth mid emoji s =
     (if bad_emoji emoji then (Inl (ServiceError kMessageContentInvalid ''emoji''), s)
      else case select_by_id (me_up env 0 0) (of_int mid) (messages (mv_db s)) of
             None \<Rightarrow> (Inl (ServiceError kMessageNotFound ''mid''), s)
           | Some msg \<Rightarrow>
               (case require_member_m env 1 (ms_session_id msg) (user_id auth) s of
                  Some e \<Rightarrow> (Inl e, s)
                | None \<Rightarrow>
                    (case MessageReactionTable_remove (me_up env 2 0) (of_int mid) (user_id auth) emoji
                            (reactions (mv_db s)) of
                       (False, _) \<Rightarrow> (Inl (ServiceError kSystemInternalError ''remove failed''), s)
                     | (True, rs) \<Rightarrow> (Inr (), s\<lparr>mv_db := (mv_db s)\<lparr>reactions := rs\<rparr>\<rparr>))))"

definition GetReactions ::
  "message_env \<Rightarrow> auth_context \<Rightarrow> int \<Rightarrow> message_state \<Rightarrow> (exn + reaction_group list) \<times> message_state" where
  "GetReactions env auth mid s =
     (case select_by_id (me_up env 0 0) (of_int mid) (messages (mv_db s)) of
        None \<Rightarrow> (Inl (ServiceError kMessageNotFound ''mid''), s)
      | Some msg \<Rightarrow>
          (case require_member_m env 1 (ms_session_id msg) (user_id auth) s of
             Some e \<Rightarrow> (Inl e, s)
           | None \<Rightarrow> (Inr (group_reactions (user_id auth)
                            (select_by_message (me_up env 2 0) (of_int mid) (reactions (mv_db s)))), s)))"

section \<open>Pins\<close>

text \<open>In a private conversation (\<open>p_\<close>) every member may pin.\<close>

definition may_pin :: "cid \<Rightarrow> member_role \<Rightarrow> bool" where
  "may_pin cid role = (role = OWNER \<or> role = ADMIN \<or> take 2 cid = ''p_'')"

definition set_pins :: "pin_row list \<Rightarrow> message_state \<Rightarrow> message_state" where
  "set_pins ps s = s\<lparr>mv_db := (mv_db s)\<lparr>pins := ps\<rparr>\<rparr>"

definition PinMessage ::
  "message_env \<Rightarrow> auth_context \<Rightarrow> cid \<Rightarrow> int \<Rightarrow> message_state \<Rightarrow> (exn + unit) \<times> message_state" where
  "PinMessage env auth cid mid s =
     (case conv_role_m env 0 cid (user_id auth) s of
        Inl e \<Rightarrow> (Inl e, s)
      | Inr role \<Rightarrow>
          if \<not> may_pin cid role
          then (Inl (ServiceError kConversationNoPermission ''only OWNER/ADMIN can pin''), s)
          else (case select_by_id (me_up env 1 0) (of_int mid) (messages (mv_db s)) of
                  None \<Rightarrow> (Inl (ServiceError kMessageNotFound ''mid''), s)
                | Some msg \<Rightarrow>
                    if ms_session_id msg \<noteq> cid then (Inl (ServiceError kMessageNotFound ''mid''), s)
                    else if kPinLimit \<le> count_by_conversation (me_up env 2 0) cid (pins (mv_db s))
                    then (Inl (ServiceError kSystemInvalidArgument ''pin limit exceeded (10)''), s)
                    else (case MessagePinTable_insert (me_up env 3 0) (me_now_ms env) cid (of_int mid)
                                 (user_id auth) (pins (mv_db s)) of
                            (False, _) \<Rightarrow> (Inl (ServiceError kSystemInternalError ''pin insert failed''), s)
                          | (True, ps) \<Rightarrow>
                              (Inr (), publish_pin_notify env cid mid (user_id auth) True (set_pins ps s)))))"

definition UnpinMessage ::
  "message_env \<Rightarrow> auth_context \<Rightarrow> cid \<Rightarrow> int \<Rightarrow> message_state \<Rightarrow> (exn + unit) \<times> message_state" where
  "UnpinMessage env auth cid mid s =
     (case conv_role_m env 0 cid (user_id auth) s of
        Inl e \<Rightarrow> (Inl e, s)
      | Inr role \<Rightarrow>
          if \<not> may_pin cid role
          then (Inl (ServiceError kConversationNoPermission ''only OWNER/ADMIN can unpin''), s)
          else (case MessagePinTable_remove (me_up env 1 0) cid (of_int mid) (pins (mv_db s)) of
                  (False, _) \<Rightarrow> (Inl (ServiceError kSystemInternalError ''unpin failed''), s)
                | (True, ps) \<Rightarrow>
                    (Inr (), publish_pin_notify env cid mid (user_id auth) False (set_pins ps s))))"

definition ListPinnedMessages ::
  "message_env \<Rightarrow> auth_context \<Rightarrow> cid \<Rightarrow> message_state \<Rightarrow> (exn + message_p list) \<times> message_state" where
  "ListPinnedMessages env auth cid s =
     (case require_member_m env 0 cid (user_id auth) s of
        Some e \<Rightarrow> (Inl e, s)
      | None \<Rightarrow>
          (let mids = list_by_conversation (me_up env 1 0) cid kPinLimit (pins (mv_db s))
           in if mids = [] then (Inr [], s)
              else let rows = filter (\<lambda>m. ms_status m \<noteq> DELETED)
                                (select_by_ids (me_up env 2 0) mids (messages (mv_db s)));
                       out = fill_reactions_for_messages env (map ms_message_id rows) (user_id auth) s
                               (map convert_db_message_to_proto rows)
                   in (Inr (map (\<lambda>m. m\<lparr>mg_is_pinned := True\<rparr>) out), s)))"

section \<open>Deletion and acknowledgement\<close>

definition set_timelines :: "timeline_row list \<Rightarrow> message_state \<Rightarrow> message_state" where
  "set_timelines ts s = s\<lparr>mv_db := (mv_db s)\<lparr>timelines := ts\<rparr>\<rparr>"

definition DeleteMessages ::
  "message_env \<Rightarrow> auth_context \<Rightarrow> cid \<Rightarrow> int list \<Rightarrow> message_state \<Rightarrow> (exn + unit) \<times> message_state" where
  "DeleteMessages env auth cid mids s =
     (if mids = [] \<or> kMaxLimit < int (length mids)
      then (Inl (ServiceError kSystemInvalidArgument ''message_ids size out of range''), s)
      else case require_member_m env 0 cid (user_id auth) s of
             Some e \<Rightarrow> (Inl e, s)
           | None \<Rightarrow> (Inr (), set_timelines (delete_by_message_ids (me_up env 1 0) (user_id auth) cid
                                (map of_int mids) (timelines (mv_db s))) s))"

definition ClearConversation ::
  "message_env \<Rightarrow> auth_context \<Rightarrow> cid \<Rightarrow> message_state \<Rightarrow> (exn + unit) \<times> message_state" where
  "ClearConversation env auth cid s =
     (case require_member_m env 0 cid (user_id auth) s of
        Some e \<Rightarrow> (Inl e, s)
      | None \<Rightarrow> (Inr (), set_timelines (delete_by_conversation (me_up env 1 0) (user_id auth) cid
                           (timelines (mv_db s))) s))"

definition UpdateReadAck ::
  "message_env \<Rightarrow> auth_context \<Rightarrow> cid \<Rightarrow> u64 \<Rightarrow> message_state \<Rightarrow> (exn + unit) \<times> message_state" where
  "UpdateReadAck env auth cid seq s =
     (if seq = 0 then (Inl (ServiceError kSystemInvalidArgument ''seq_id required''), s)
      else case require_member_m env 0 cid (user_id auth) s of
             Some e \<Rightarrow> (Inl e, s)
           | None \<Rightarrow>
               (case ConversationMemberTable_update_last_ack_seq (me_up env 1 0) cid (user_id auth) seq
                       (mv_members s) of
                  (False, _) \<Rightarrow> (Inl (ServiceError kSystemInternalError ''update last_ack_seq failed''), s)
                | (True, db) \<Rightarrow> (Inr (), s\<lparr>mv_members := db\<rparr>)))"

section \<open>The database consumer\<close>

text \<open>The content switch: text, file id, name and size; an unknown type is discarded.\<close>

record extracted =
  xt_type :: db_message_type
  xt_text :: string
  xt_file_id :: string
  xt_file_name :: string
  xt_file_size :: int

fun body_text :: "content_body \<Rightarrow> string" where
  "body_text (Text_body t) = t"
| "body_text _ = []"

fun body_file_name :: "content_body \<Rightarrow> string" where
  "body_file_name (File_body _ n _ _) = n"
| "body_file_name _ = []"

fun body_file_size :: "content_body \<Rightarrow> int" where
  "body_file_size (File_body _ _ n _) = n"
| "body_file_size _ = 0"

definition extract_content :: "message_content \<Rightarrow> extracted option" where
  "extract_content ct =
     (let b = mc_body ct;
          x = (if mc_type ct = TEXT then Some \<lparr>xt_type = Type_TEXT, xt_text = body_text b,
                 xt_file_id = [], xt_file_name = [], xt_file_size = 0\<rparr>
               else if mc_type ct = IMAGE then Some \<lparr>xt_type = Type_IMAGE, xt_text = [],
                 xt_file_id = body_image_file_id b, xt_file_name = [], xt_file_size = 0\<rparr>
               else if mc_type ct = FILE then Some \<lparr>xt_type = Type_FILE, xt_text = [],
                 xt_file_id = body_file_file_id b, xt_file_name = body_file_name b,
                 xt_file_size = body_file_size b\<rparr>
               else if mc_type ct = AUDIO then Some \<lparr>xt_type = Type_AUDIO, xt_text = [],
                 xt_file_id = body_audio_file_id b, xt_file_name = [], xt_file_size = 0\<rparr>
               else None)
      in case x of
           None \<Rightarrow> None
         | Some e \<Rightarrow> if mc_type ct \<noteq> TEXT \<and> xt_file_id e = [] then None else Some e)"

definition row_of_message :: "message_p \<Rightarrow> extracted \<Rightarrow> message_row" where
  "row_of_message m e =
     (Message (of_int (mg_message_id m)) (mg_conversation_id m) (mg_sender_id m) (xt_type e)
        (mg_created_at_ms m) Status_NORMAL)
       \<lparr>ms_seq_id := mg_seq_id m, ms_content := Some (xt_text e), ms_file_id := Some (xt_file_id e),
        ms_file_name := Some (xt_file_name e), ms_file_size := Some (of_int (xt_file_size e)),
        ms_client_msg_id := (if mg_client_msg_id m = [] then None else Some (mg_client_msg_id m))\<rparr>"

text \<open>Write fan-out: one inbox row per member, with the user's sequence number if the message
  carries one (the last pair for a user wins, as in the hash map); large groups have none.\<close>

definition timeline_rows :: "internal_message \<Rightarrow> timeline_row list" where
  "timeline_rows im =
     (let m = im_message im; uid2seq = map_of (rev (im_user_seqs im))
      in if im_is_large_group im then []
         else map (\<lambda>u. \<lparr>tl_user_id = u, tl_user_seq = (case uid2seq u of None \<Rightarrow> 0 | Some q \<Rightarrow> q),
                        tl_session_id = mg_conversation_id m, tl_session_seq = mg_seq_id m,
                        tl_message_id = of_int (mg_message_id m), tl_message_time = mg_created_at_ms m,
                        tl_deliver_status = DELIVER_PENDING\<rparr>) (im_member_id_list im))"

text \<open>Message and inbox rows in one transaction.\<close>

definition store_message ::
  "message_env \<Rightarrow> message_row \<Rightarrow> timeline_row list \<Rightarrow> message_db \<Rightarrow> db_exn + message_db" where
  "store_message env msg tls db =
     (case MessageTable_insert (me_up env 0 0) msg (messages db) of
        Inl e \<Rightarrow> Inl e
      | Inr ms \<Rightarrow>
          (case UserTimeLineTable_insert (me_up env 1 0) tls (timelines db) of
             Inl e \<Rightarrow> Inl e
           | Inr ts \<Rightarrow> if me_up env 2 0 then Inr (db\<lparr>messages := ms, timelines := ts\<rparr>)
                       else Inl Database_exception))"

definition mark_idempotency_persisted ::
  "message_env \<Rightarrow> uid \<Rightarrow> string \<Rightarrow> u64 \<Rightarrow> message_state \<Rightarrow> message_state" where
  "mark_idempotency_persisted env sender client_msg_id mid s =
     (if client_msg_id = [] \<or> sender = [] \<or> mid = 0 \<or> \<not> me_up env 3 0 then s
      else s\<lparr>mv_idem := (mv_idem s)(idempotency_key_for sender client_msg_id \<mapsto>
               serialize_idempotency_state (mk_idem Persisted mid))\<rparr>)"

definition push_stored :: "message_env \<Rightarrow> internal_message \<Rightarrow> message_state \<Rightarrow> message_state" where
  "push_stored env im s =
     (let payload = me_serialize_internal env im
      in if me_push_publisher env then publish_push env 5 payload s
         else s\<lparr>mv_push_outbox := PushOutbox_enqueue (me_up env 5 0) payload (me_time env) (mv_push_outbox s)\<rparr>)"

definition es_event_of :: "message_p \<Rightarrow> string \<Rightarrow> es_index_event" where
  "es_event_of m content_text =
     \<lparr>ev_message_id = mg_message_id m, ev_conversation_id = mg_conversation_id m,
      ev_sender_id = mg_sender_id m, ev_content_text = content_text,
      ev_created_at_ms = mg_created_at_ms m, ev_seq_id = mg_seq_id m,
      ev_message_type = mc_type (mg_content m)\<rparr>"

definition publish_es_event :: "message_env \<Rightarrow> message_p \<Rightarrow> string \<Rightarrow> message_state \<Rightarrow> message_state" where
  "publish_es_event env m content_text s =
     (if mc_type (mg_content m) = TEXT \<and> content_text \<noteq> [] \<and> me_es_publisher env
      then let payload = me_serialize_es_event env (es_event_of m content_text)
           in (case publish_or_enqueue (me_up env 6 0) (me_time env) (me_publish_es env payload) payload
                      (mv_es_mq s) (mv_es_outbox s) of
                 (mq, ob) \<Rightarrow> s\<lparr>mv_es_mq := mq, mv_es_outbox := ob\<rparr>)
      else s)"

definition onDBMessage ::
  "message_env \<Rightarrow> string \<Rightarrow> bool \<Rightarrow> message_state \<Rightarrow> ConsumeAction \<times> message_state" where
  "onDBMessage env body redelivered s =
     (case me_parse_internal env body of
        None \<Rightarrow> (NackDiscard, s)
      | Some im \<Rightarrow>
          let m = im_message im; mid = of_int (mg_message_id m)
          in (case extract_content (mg_content m) of
                None \<Rightarrow> (NackDiscard, s)
              | Some e \<Rightarrow>
                  (case store_message env (row_of_message m e) (timeline_rows im) (mv_db s) of
                     Inl Already_persistent \<Rightarrow>
                       if select_by_id (me_up env 4 0) mid (messages (mv_db s)) \<noteq> None then (Ack, s)
                       else (if redelivered then NackDiscard else NackRequeue, s)
                   | Inl Database_exception \<Rightarrow> (if redelivered then NackDiscard else NackRequeue, s)
                   | Inr db \<Rightarrow>
                       (Ack, publish_es_event env m (xt_text e)
                               (push_stored env im
                                  (mark_idempotency_persisted env (mg_sender_id m) (mg_client_msg_id m) mid
                                     (s\<lparr>mv_db := db\<rparr>)))))))"

section \<open>The index consumer\<close>

text \<open>C++ division truncates towards zero.\<close>

definition trunc_div :: "int \<Rightarrow> int \<Rightarrow> int" where
  "trunc_div a b = (if a < 0 then - ((- a) div b) else a div b)"

definition onESIndexMessage ::
  "message_env \<Rightarrow> string \<Rightarrow> bool \<Rightarrow> message_state \<Rightarrow> ConsumeAction \<times> message_state" where
  "onESIndexMessage env body redelivered s =
     (case me_parse_es_event env body of
        None \<Rightarrow> (NackDiscard, s)
      | Some ev \<Rightarrow>
          if ev_message_type ev \<noteq> TEXT then (Ack, s)
          else (case ESMessage_appendData (me_up env 0 0) (ev_sender_id ev) (of_int (ev_message_id ev))
                       (ev_seq_id ev) (trunc_div (ev_created_at_ms ev) 1000) (ev_conversation_id ev)
                       (ev_content_text ev) (mv_es s) of
                  (True, idx) \<Rightarrow> (Ack, s\<lparr>mv_es := idx\<rparr>)
                | (False, _) \<Rightarrow> (if redelivered then NackDiscard else NackRequeue, s)))"

section \<open>Outbox reapers\<close>

text \<open>
  One turn of a reaper thread. \<open>publish_confirm\<close> may throw, which ends the turn; an item leaves
  the outbox when the broker acknowledges it.
\<close>

fun republish_items ::
  "(nat \<Rightarrow> bool) \<Rightarrow> (string \<Rightarrow> publish_outcome) \<Rightarrow> nat \<Rightarrow> string list \<Rightarrow> string list \<Rightarrow> zset \<Rightarrow> string list \<times> zset" where
  "republish_items ok publish i [] mq ob = (mq, ob)"
| "republish_items ok publish i (item # items) mq ob =
     (case publish item of
        Publish_throws \<Rightarrow> (mq, ob)
      | Confirmed st delivered \<Rightarrow>
          republish_items ok publish (Suc i) items
            (if st = Acked \<or> delivered then mq @ [item] else mq)
            (if st = Acked then PushOutbox_remove (ok i) item ob else ob))"

definition push_outbox_reaper_turn :: "message_env \<Rightarrow> bool \<Rightarrow> message_state \<Rightarrow> message_state" where
  "push_outbox_reaper_turn env is_leader s =
     (if \<not> is_leader then s
      else let items = PushOutbox_peek (me_up env 0 0) 50 (mv_push_outbox s)
           in if items = [] \<or> \<not> me_push_publisher env then s
              else (case republish_items (me_up env 1) (me_publish_push env) 0 items (mv_push_mq s) (mv_push_outbox s) of
                      (mq, ob) \<Rightarrow> s\<lparr>mv_push_mq := mq, mv_push_outbox := ob\<rparr>))"

definition es_outbox_reaper_turn :: "message_env \<Rightarrow> bool \<Rightarrow> message_state \<Rightarrow> message_state" where
  "es_outbox_reaper_turn env is_leader s =
     (if \<not> is_leader then s
      else (case republish_items (me_up env 1) (me_publish_es env) 0
                   (ESOutbox_peek (me_up env 0 0) 50 (mv_es_outbox s)) (mv_es_mq s) (mv_es_outbox s) of
              (mq, ob) \<Rightarrow> s\<lparr>mv_es_mq := mq, mv_es_outbox := ob\<rparr>))"

section \<open>Backfill of the sequence counters\<close>

fun backfill_all :: "(nat \<Rightarrow> bool) \<Rightarrow> nat \<Rightarrow> ('k \<times> u64) list \<Rightarrow> ('k \<Rightarrow> string option) \<Rightarrow> ('k \<Rightarrow> string option)" where
  "backfill_all ok i [] m = m"
| "backfill_all ok i ((k, max_seq) # rest) m =
     backfill_all ok (Suc i) rest (if 0 < max_seq then backfill_seq (ok i) k (max_seq + 1) m else m)"

text \<open>\<open>locked\<close>: the mutex was obtained.\<close>

definition backfill_seq_from_db ::
  "message_env \<Rightarrow> bool \<Rightarrow> message_db \<Rightarrow> (cid \<Rightarrow> string option) \<times> (uid \<Rightarrow> string option) \<Rightarrow>
     (cid \<Rightarrow> string option) \<times> (uid \<Rightarrow> string option)" where
  "backfill_seq_from_db env locked db seqs =
     (if \<not> locked then seqs
      else (backfill_all (me_up env 1) 0 (select_max_seq_by_session (me_up env 0 0) (messages db)) (fst seqs),
            backfill_all (me_up env 3) 0 (select_max_user_seq (me_up env 2 0) (timelines db)) (snd seqs)))"

end
