(* ===== verification/Message_Props.thy ===== *)
theory Message_Props
  imports Message_Service
begin

text \<open>
  Properties of the message service. A run is a sequence of events: RPCs, deliveries of the two
  queues (with redelivery), turns of the outbox reapers, and changes of the member table by the
  conversation service, each under an environment of its own. Shown: a stored message changes
  only by an authorised recall; history pages give every message once; the database consumer
  stores a message and its inbox rows together and once; messages are shown to members only;
  pins stay within the limit when their count can be read; counters restored from the
  database do not repeat numbers; a recalled text stays searchable.
\<close>

section \<open>Runs\<close>

datatype message_request =
    R_GetHistory cid u64 int
  | R_SyncMessages cid u64 int
  | R_GetMessagesById "int list"
  | R_SearchMessages cid string int
  | R_RecallMessage cid int
  | R_AddReaction int string
  | R_RemoveReaction int string
  | R_GetReactions int
  | R_PinMessage cid int
  | R_UnpinMessage cid int
  | R_ListPinnedMessages cid
  | R_DeleteMessages cid "int list"
  | R_ClearConversation cid
  | R_SelectByClientMsgId string
  | R_UpdateReadAck cid u64

datatype message_response = Rsp_messages "message_p list" | Rsp_reactions "reaction_group list" | Rsp_done

definition with_rsp :: "('a \<Rightarrow> message_response) \<Rightarrow> (exn + 'a) \<times> message_state \<Rightarrow>
    (exn + message_response) \<times> message_state" where
  "with_rsp f r = (case r of (Inl e, s) \<Rightarrow> (Inl e, s) | (Inr a, s) \<Rightarrow> (Inr (f a), s))"

fun message_body :: "message_env \<Rightarrow> message_request \<Rightarrow> auth_context \<Rightarrow> message_state \<Rightarrow>
    (exn + message_response) \<times> message_state" where
  "message_body env (R_GetHistory c b l) auth s = with_rsp (\<lambda>r. Rsp_messages (fst r)) (GetHistory env auth c b l s)"
| "message_body env (R_SyncMessages c a l) auth s = with_rsp (\<lambda>r. Rsp_messages (fst r)) (SyncMessages env auth c a l s)"
| "message_body env (R_GetMessagesById ms) auth s = with_rsp Rsp_messages (GetMessagesById env auth ms s)"
| "message_body env (R_SearchMessages c k l) auth s = with_rsp Rsp_messages (SearchMessages env auth c k l s)"
| "message_body env (R_RecallMessage c m) auth s = with_rsp (\<lambda>_. Rsp_done) (RecallMessage env auth c m s)"
| "message_body env (R_AddReaction m e) auth s = with_rsp (\<lambda>_. Rsp_done) (AddReaction env auth m e s)"
| "message_body env (R_RemoveReaction m e) auth s = with_rsp (\<lambda>_. Rsp_done) (RemoveReaction env auth m e s)"
| "message_body env (R_GetReactions m) auth s = with_rsp Rsp_reactions (GetReactions env auth m s)"
| "message_body env (R_PinMessage c m) auth s = with_rsp (\<lambda>_. Rsp_done) (PinMessage env auth c m s)"
| "message_body env (R_UnpinMessage c m) auth s = with_rsp (\<lambda>_. Rsp_done) (UnpinMessage env auth c m s)"
| "message_body env (R_ListPinnedMessages c) auth s = with_rsp Rsp_messages (ListPinnedMessages env auth c s)"
| "message_body env (R_DeleteMessages c ms) auth s = with_rsp (\<lambda>_. Rsp_done) (DeleteMessages env auth c ms s)"
| "message_body env (R_ClearConversation c) auth s = with_rsp (\<lambda>_. Rsp_done) (ClearConversation env auth c s)"
| "message_body env (R_SelectByClientMsgId k) auth s =
     with_rsp (\<lambda>r. Rsp_messages (case r of None \<Rightarrow> [] | Some m \<Rightarrow> [m])) (SelectByClientMsgId env auth k s)"
| "message_body env (R_UpdateReadAck c q) auth s = with_rsp (\<lambda>_. Rsp_done) (UpdateReadAck env auth c q s)"

definition message_rpc :: "message_env \<Rightarrow> string \<Rightarrow> rpc_metadata option \<Rightarrow> message_request \<Rightarrow> message_state \<Rightarrow>
    (response_header \<times> message_response option) \<times> message_state" where
  "message_rpc env rid md req s = handle_rpc md rid (message_body env req) s"

datatype message_event =
    E_rpc message_env string "rpc_metadata option" message_request
  | E_db message_env string bool
  | E_index message_env string bool
  | E_push_reaper message_env bool
  | E_es_reaper message_env bool
  | E_members conv_db

fun message_step :: "message_event \<Rightarrow> message_state \<Rightarrow> message_state" where
  "message_step (E_rpc env rid md req) s = snd (message_rpc env rid md req s)"
| "message_step (E_db env body redelivered) s = snd (onDBMessage env body redelivered s)"
| "message_step (E_index env body redelivered) s = snd (onESIndexMessage env body redelivered s)"
| "message_step (E_push_reaper env l) s = push_outbox_reaper_turn env l s"
| "message_step (E_es_reaper env l) s = es_outbox_reaper_turn env l s"
| "message_step (E_members db) s = s\<lparr>mv_members := db\<rparr>"

definition message_run :: "message_event list \<Rightarrow> message_state \<Rightarrow> message_state" where
  "message_run evs s = foldl (\<lambda>s ev. message_step ev s) s evs"

definition empty_message_db :: message_db where
  "empty_message_db = \<lparr>messages = [], timelines = [], reactions = [], pins = []\<rparr>"

definition empty_message_state :: message_state where
  "empty_message_state = \<lparr>mv_db = empty_message_db,
     mv_members = \<lparr>conversations = [], conversation_members = []\<rparr>, mv_idem = (\<lambda>_. None), mv_es = (\<lambda>_. None),
     mv_push_mq = [], mv_push_outbox = [], mv_es_mq = [], mv_es_outbox = [], mv_pushed = []\<rparr>"

text \<open>A concrete environment and history for the witnesses: alice, an ordinary member, and owen,
  the owner, of conversation \<open>g\<close>; alice's message 7 with sequence number 1.\<close>

definition demo_text :: "int \<Rightarrow> u64 \<Rightarrow> uid \<Rightarrow> string \<Rightarrow> internal_message" where
  "demo_text mid seq sender txt =
     \<lparr>im_message = empty_message\<lparr>mg_message_id := mid, mg_conversation_id := ''g'', mg_sender_id := sender,
        mg_seq_id := seq, mg_created_at_ms := 1000, mg_content := \<lparr>mc_type = 1, mc_body = Text_body txt\<rparr>\<rparr>,
      im_member_id_list = [''alice'', ''owen''], im_user_seqs = [(''alice'', seq), (''owen'', seq)],
      im_is_large_group = False\<rparr>"

definition demo_parse :: "string \<Rightarrow> internal_message option" where
  "demo_parse b = (if b = ''m7'' then Some (demo_text 7 1 ''alice'' ''hi'')
     else if b = ''m8'' then Some (demo_text 8 2 ''owen'' ''yes'')
     else if b = ''m9'' then Some (demo_text 9 3 ''alice'' ''bye'') else None)"

definition demo_menv :: "time \<Rightarrow> message_env" where
  "demo_menv now = \<lparr>me_now_ms = now, me_time = 0, me_up = all_up, me_push_publisher = True, me_es_publisher = True,
     me_publish_push = (\<lambda>_. Confirmed Acked True), me_publish_es = (\<lambda>_. Confirmed Acked True),
     me_push_channel = True,
     me_es_search = (\<lambda>idx key c n. filter (\<lambda>d. ed_chat_session_id d = c) (List.map_filter idx [7, 8, 9])),
     me_serialize_internal = (\<lambda>_. ''p''), me_parse_internal = demo_parse,
     me_serialize_notify = (\<lambda>_. ''n''), me_serialize_es_event = ev_content_text,
     me_parse_es_event = (\<lambda>b. if b = ''hi'' then Some (es_event_of (im_message (demo_text 7 1 ''alice'' ''hi'')) ''hi'')
                              else None)\<rparr>"

definition demo_member :: "uid \<Rightarrow> member_role \<Rightarrow> conversation_member_row" where
  "demo_member u r = ConversationMember ''g'' u False True r 0"

definition demo_members :: conv_db where
  "demo_members = \<lparr>conversations = [],
     conversation_members = [demo_member ''alice'' Role_NORMAL, demo_member ''owen'' OWNER]\<rparr>"

definition reader_md :: "uid \<Rightarrow> rpc_metadata option" where
  "reader_md u = Some \<lparr>md_user_id = u, md_device_id = ''d'', md_trace_id = [], md_jwt_jti = []\<rparr>"

definition reader_auth :: "uid \<Rightarrow> auth_context" where
  "reader_auth u = \<lparr>user_id = u, device_id = ''d'', trace_id = [], jwt_jti = []\<rparr>"

definition demo_events :: "message_event list" where
  "demo_events = [E_members demo_members, E_db (demo_menv 1000) ''m7'' False, E_db (demo_menv 1000) ''m8'' False,
     E_db (demo_menv 1000) ''m9'' False, E_index (demo_menv 1000) ''hi'' False]"

definition demo_row :: message_row where
  "demo_row = row_of_message (im_message (demo_text 7 1 ''alice'' ''hi''))
     \<lparr>xt_type = Type_TEXT, xt_text = ''hi'', xt_file_id = [], xt_file_name = [], xt_file_size = 0\<rparr>"

lemma message_run_Nil [simp]: "message_run [] s = s"
  by (simp add: message_run_def)

lemma message_run_Cons [simp]: "message_run (ev # evs) s = message_run evs (message_step ev s)"
  by (simp add: message_run_def)

lemma message_run_append: "message_run (evs @ evs') s = message_run evs' (message_run evs s)"
  by (simp add: message_run_def)

lemma message_run_invariant:
  assumes "P s" and "\<And>ev s. ev \<in> set evs \<Longrightarrow> P s \<Longrightarrow> P (message_step ev s)"
  shows "P (message_run evs s)"
  using assms by (induction evs arbitrary: s) auto

section \<open>What each event changes\<close>

lemma publish_push_db [frame_simps]: "mv_db (publish_push env k p s) = mv_db s"
  by (simp add: publish_push_def split: prod.splits)

lemma publish_recalled_notify_db [frame_simps]: "mv_db (publish_recalled_notify env c m s) = mv_db s"
  by (simp add: publish_recalled_notify_def publish_push_db)

lemma publish_pin_notify_db [frame_simps]: "mv_db (publish_pin_notify env c m u b s) = mv_db s"
  by (simp add: publish_pin_notify_def publish_push_db)

lemma publish_reaction_notify_db [frame_simps]: "mv_db (publish_reaction_notify env t c m a e b s) = mv_db s"
  by (simp add: publish_reaction_notify_def)

lemma mark_idempotency_persisted_db [frame_simps]: "mv_db (mark_idempotency_persisted env u c m s) = mv_db s"
  by (simp add: mark_idempotency_persisted_def)

lemma push_stored_db [frame_simps]: "mv_db (push_stored env im s) = mv_db s"
  by (simp add: push_stored_def publish_push_db Let_def)

lemma publish_es_event_db [frame_simps]: "mv_db (publish_es_event env m t s) = mv_db s"
  by (simp add: publish_es_event_def Let_def split: prod.splits)

lemma snd_with_rsp [simp]: "snd (with_rsp f r) = snd r"
  by (auto simp: with_rsp_def split: prod.splits sum.splits)

lemma read_handlers_state [simp]:
  "snd (GetHistory env auth c b l s) = s"
  "snd (SyncMessages env auth c a l s) = s"
  "snd (GetMessagesById env auth ms s) = s"
  "snd (SearchMessages env auth c k l s) = s"
  "snd (GetReactions env auth m s) = s"
  "snd (ListPinnedMessages env auth c s) = s"
  "snd (SelectByClientMsgId env auth k s) = s"
  by (auto simp: GetHistory_def SyncMessages_def GetMessagesById_def SearchMessages_def GetReactions_def
      ListPinnedMessages_def SelectByClientMsgId_def Let_def split: option.splits prod.splits)

text \<open>The message table: an RPC other than a recall leaves it, a delivery appends at most one row.\<close>

lemma handlers_messages [frame_simps]:
  "messages (mv_db (snd (AddReaction env auth m e s))) = messages (mv_db s)"
  "messages (mv_db (snd (RemoveReaction env auth m e s))) = messages (mv_db s)"
  "messages (mv_db (snd (PinMessage env auth c m s))) = messages (mv_db s)"
  "messages (mv_db (snd (UnpinMessage env auth c m s))) = messages (mv_db s)"
  "messages (mv_db (snd (DeleteMessages env auth c ms s))) = messages (mv_db s)"
  "messages (mv_db (snd (ClearConversation env auth c s))) = messages (mv_db s)"
  "messages (mv_db (snd (UpdateReadAck env auth c q s))) = messages (mv_db s)"
  by (auto simp: AddReaction_def RemoveReaction_def PinMessage_def UnpinMessage_def DeleteMessages_def
      ClearConversation_def UpdateReadAck_def set_pins_def set_timelines_def frame_simps
      split: option.splits prod.splits sum.splits bool.splits)

lemma reaper_db [frame_simps]:
  "mv_db (push_outbox_reaper_turn env l s) = mv_db s"
  "mv_db (es_outbox_reaper_turn env l s) = mv_db s"
  by (auto simp: push_outbox_reaper_turn_def es_outbox_reaper_turn_def Let_def split: prod.splits)

lemma onESIndexMessage_db [frame_simps]: "mv_db (snd (onESIndexMessage env body r s)) = mv_db s"
  by (auto simp: onESIndexMessage_def split: option.splits prod.splits bool.splits)

lemma handle_rpc_snd: "snd (handle_rpc md rid body s) =
    (case extract_auth md of Inl e \<Rightarrow> s | Inr auth \<Rightarrow> snd (body auth s))"
  by (auto simp: handle_rpc_def split: sum.splits prod.splits)

section \<open>The message table\<close>

text \<open>The three unique indexes.\<close>

definition messages_wf :: "message_row list \<Rightarrow> bool" where
  "messages_wf rs =
     (distinct (map ms_message_id rs)
      \<and> distinct (map (\<lambda>m. (ms_session_id m, ms_seq_id m)) rs)
      \<and> distinct (map (\<lambda>m. (ms_user_id m, ms_client_msg_id m)) (filter (\<lambda>m. ms_client_msg_id m \<noteq> None) rs)))"

lemma messages_wf_Nil [simp]: "messages_wf []"
  by (simp add: messages_wf_def)

lemma messages_wf_append:
  "messages_wf rs \<Longrightarrow> \<not> list_ex (message_clash m) rs \<Longrightarrow> messages_wf (rs @ [m])"
  by (auto simp: messages_wf_def message_clash_def list_ex_iff)

lemma put_message_map:
  assumes "distinct (map ms_message_id rs)" and "m \<in> set rs" and "ms_message_id m' = ms_message_id m"
    and "f m' = f m"
  shows "map f (put_message m' rs) = map f rs"
proof -
  have "f (if ms_message_id x = ms_message_id m' then m' else x) = f x" if "x \<in> set rs" for x
    using assms that by (auto simp: distinct_map dest: inj_onD)
  then show ?thesis by (simp add: put_message_def put_row_def)
qed

lemma put_message_wf:
  assumes wf: "messages_wf rs" and m: "m \<in> set rs"
    and same: "ms_message_id m' = ms_message_id m" "ms_session_id m' = ms_session_id m"
      "ms_seq_id m' = ms_seq_id m" "ms_user_id m' = ms_user_id m" "ms_client_msg_id m' = ms_client_msg_id m"
  shows "messages_wf (put_message m' rs)"
proof -
  have d: "distinct (map ms_message_id rs)" using wf by (simp add: messages_wf_def)
  have split: "map (\<lambda>m. (ms_user_id m, ms_client_msg_id m)) (filter (\<lambda>m. ms_client_msg_id m \<noteq> None) xs)
      = filter (\<lambda>p. snd p \<noteq> None) (map (\<lambda>m. (ms_user_id m, ms_client_msg_id m)) xs)" for xs :: "message_row list"
    by (induction xs) auto
  have "map ms_message_id (put_message m' rs) = map ms_message_id rs"
    "map (\<lambda>m. (ms_session_id m, ms_seq_id m)) (put_message m' rs) = map (\<lambda>m. (ms_session_id m, ms_seq_id m)) rs"
    "map (\<lambda>m. (ms_user_id m, ms_client_msg_id m)) (put_message m' rs) =
       map (\<lambda>m. (ms_user_id m, ms_client_msg_id m)) rs"
    using same by (auto intro!: put_message_map [OF d m same(1)])
  then show ?thesis using wf unfolding messages_wf_def split by simp
qed

definition recalled :: "time \<Rightarrow> message_row \<Rightarrow> message_row" where
  "recalled now m = m\<lparr>ms_status := REVOKED, ms_content := Some [], ms_revoke_time := Some now\<rparr>"

lemma recalled_keeps [simp]:
  "ms_message_id (recalled now m) = ms_message_id m" "ms_session_id (recalled now m) = ms_session_id m"
  "ms_seq_id (recalled now m) = ms_seq_id m" "ms_user_id (recalled now m) = ms_user_id m"
  "ms_client_msg_id (recalled now m) = ms_client_msg_id m" "ms_create_time (recalled now m) = ms_create_time m"
  by (simp_all add: recalled_def)

text \<open>Who may recall a message: the system user, an owner or administrator of its conversation, or
  its author while a member, within two minutes.\<close>

definition may_recall :: "message_state \<Rightarrow> uid \<Rightarrow> time \<Rightarrow> message_row \<Rightarrow> bool" where
  "may_recall s uid now m =
     (uid = kSystemUserId \<or>
      (case sel_member (mv_members s) (ms_session_id m, uid) of
         None \<Rightarrow> False
       | Some r \<Rightarrow> \<not> cm_is_quit r \<and>
           (cm_role r = OWNER \<or> cm_role r = ADMIN
            \<or> ms_user_id m = uid \<and> now - ms_create_time m < 120000)))"

lemma conv_role_m_Inr:
  "conv_role_m env k cid uid s = Inr role \<Longrightarrow>
     uid = kSystemUserId \<or> (\<exists>r. sel_member (mv_members s) (cid, uid) = Some r \<and> \<not> cm_is_quit r \<and> role = cm_role r)"
  by (auto simp: conv_role_m_def ConversationMemberTable_select_self_def split: if_splits option.splits)

lemma query_one_unique:
  assumes "distinct (map key rs)" and "query_one (\<lambda>m. key m = k \<and> P m) rs = Some a"
    and "query_one (\<lambda>m. key m = k) rs = Some b"
  shows "a = b"
  using assms query_one_Some [OF assms(2)] query_one_Some [OF assms(3)]
  by (auto simp: distinct_map dest: inj_onD)

lemma RecallMessage_change:
  assumes ch: "snd (RecallMessage env auth cid mid s) \<noteq> s"
  shows "\<exists>msg role m0. query_one (\<lambda>m. ms_message_id m = of_int mid) (messages (mv_db s)) = Some msg
    \<and> ms_session_id msg = cid \<and> conv_role_m env 1 cid (user_id auth) s = Inr role
    \<and> (role = OWNER \<or> role = ADMIN
       \<or> ms_user_id msg = user_id auth \<and> me_now_ms env - ms_create_time msg < kRecallTimeoutMs)
    \<and> query_one (\<lambda>m. ms_message_id m = of_int mid \<and> ms_status m = Status_NORMAL) (messages (mv_db s)) = Some m0
    \<and> snd (RecallMessage env auth cid mid s) = publish_recalled_notify env cid mid
        (set_messages (put_message (recalled (me_now_ms env) m0) (messages (mv_db s))) s)"
proof -
  let ?up = "update_status_to_recalled (me_up env 2 0) (me_now_ms env) (of_int mid) (messages (mv_db s))"
  obtain msg where sel: "select_by_id (me_up env 0 0) (of_int mid) (messages (mv_db s)) = Some msg"
    using ch by (cases "select_by_id (me_up env 0 0) (of_int mid) (messages (mv_db s))") (simp_all add: RecallMessage_def)
  have st: "ms_session_id msg = cid" "ms_status msg \<noteq> REVOKED" "ms_status msg \<noteq> DELETED"
    using ch sel by (simp_all add: RecallMessage_def split: if_splits)
  obtain role where role: "conv_role_m env 1 cid (user_id auth) s = Inr role"
    using ch sel st by (cases "conv_role_m env 1 cid (user_id auth) s") (simp_all add: RecallMessage_def)
  have perm: "role = OWNER \<or> role = ADMIN
       \<or> ms_user_id msg = user_id auth \<and> me_now_ms env - ms_create_time msg < kRecallTimeoutMs"
    using ch sel st role by (auto simp: RecallMessage_def Let_def not_le split: if_splits)
  obtain rs where up: "?up = (True, rs)"
    using ch sel st role by (cases ?up; cases "fst ?up") (simp_all add: RecallMessage_def Let_def split: if_splits)
  then obtain m0 where m0: "query_one (\<lambda>m. ms_message_id m = of_int mid \<and> ms_status m = Status_NORMAL)
        (messages (mv_db s)) = Some m0"
      and rs: "rs = put_message (recalled (me_now_ms env) m0) (messages (mv_db s))"
    by (auto simp: update_status_to_recalled_def recalled_def split: if_splits option.splits)
  have "snd (RecallMessage env auth cid mid s) = publish_recalled_notify env cid mid (set_messages rs s)"
    using ch sel st role perm up by (auto simp: RecallMessage_def Let_def)
  then show ?thesis
    using sel st role perm m0 rs by (auto simp: select_by_id_def split: if_splits)
qed

lemma RecallMessage_messages:
  assumes wf: "messages_wf (messages (mv_db s))" and ch: "snd (RecallMessage env auth cid mid s) \<noteq> s"
  shows "\<exists>m \<in> set (messages (mv_db s)).
       ms_message_id m = of_int mid \<and> ms_session_id m = cid \<and> ms_status m = Status_NORMAL
       \<and> may_recall s (user_id auth) (me_now_ms env) m
       \<and> mv_db (snd (RecallMessage env auth cid mid s)) =
           (mv_db s)\<lparr>messages := put_message (recalled (me_now_ms env) m) (messages (mv_db s))\<rparr>"
proof -
  obtain msg role m where sel: "query_one (\<lambda>m. ms_message_id m = of_int mid) (messages (mv_db s)) = Some msg"
    and cid: "ms_session_id msg = cid" and role: "conv_role_m env 1 cid (user_id auth) s = Inr role"
    and perm: "role = OWNER \<or> role = ADMIN
       \<or> ms_user_id msg = user_id auth \<and> me_now_ms env - ms_create_time msg < kRecallTimeoutMs"
    and m: "query_one (\<lambda>m. ms_message_id m = of_int mid \<and> ms_status m = Status_NORMAL) (messages (mv_db s)) = Some m"
    and res: "snd (RecallMessage env auth cid mid s) = publish_recalled_notify env cid mid
        (set_messages (put_message (recalled (me_now_ms env) m) (messages (mv_db s))) s)"
    using RecallMessage_change [OF ch] by blast
  have eq: "m = msg" using query_one_unique [OF _ m sel] wf by (simp add: messages_wf_def)
  have "may_recall s (user_id auth) (me_now_ms env) m"
    using conv_role_m_Inr [OF role] perm cid eq by (auto simp: may_recall_def kRecallTimeoutMs_def)
  then show ?thesis
    using query_one_Some [OF m] eq cid res by (auto simp: frame_simps set_messages_def)
qed

lemma store_message_Inr:
  "store_message env m tls db = Inr db' \<Longrightarrow> \<not> list_ex (message_clash m) (messages db)
     \<and> db' = db\<lparr>messages := messages db @ [m], timelines := timelines db @ tls\<rparr>"
  by (auto simp: store_message_def MessageTable_insert_def UserTimeLineTable_insert_def
      split: if_splits sum.splits)

lemma onDBMessage_cases:
  assumes "onDBMessage env body redelivered s = (act, s')"
  obtains "s' = s"
  | im e where "me_parse_internal env body = Some im" "extract_content (mg_content (im_message im)) = Some e"
      "act = Ack" "\<not> list_ex (message_clash (row_of_message (im_message im) e)) (messages (mv_db s))"
      "mv_db s' = (mv_db s)\<lparr>messages := messages (mv_db s) @ [row_of_message (im_message im) e],
                            timelines := timelines (mv_db s) @ timeline_rows im\<rparr>"
proof (cases "s' = s")
  case True
  then show ?thesis by (rule that(1))
next
  case False
  then obtain im where im: "me_parse_internal env body = Some im"
    using assms by (cases "me_parse_internal env body") (simp_all add: onDBMessage_def)
  obtain e where e: "extract_content (mg_content (im_message im)) = Some e"
    using assms False im
    by (cases "extract_content (mg_content (im_message im))") (simp_all add: onDBMessage_def Let_def)
  show ?thesis
  proof (cases "store_message env (row_of_message (im_message im) e) (timeline_rows im) (mv_db s)")
    case (Inl x)
    then show ?thesis using assms False im e by (cases x) (auto simp: onDBMessage_def Let_def split: if_splits)
  next
    case (Inr db)
    then have "act = Ack" "mv_db s' = db" using assms im e by (auto simp: onDBMessage_def Let_def frame_simps)
    then show ?thesis using that(2) [OF im e] store_message_Inr [OF Inr] by blast
  qed
qed

text \<open>How an event can change the message table.\<close>

lemma message_step_messages:
  assumes wf: "messages_wf (messages (mv_db s))"
  obtains "messages (mv_db (message_step ev s)) = messages (mv_db s)"
  | m where "\<not> list_ex (message_clash m) (messages (mv_db s))"
      "messages (mv_db (message_step ev s)) = messages (mv_db s) @ [m]"
  | env rid md auth m cid mid where "ev = E_rpc env rid md (R_RecallMessage cid mid)" "extract_auth md = Inr auth"
      "m \<in> set (messages (mv_db s))" "ms_message_id m = of_int mid" "ms_session_id m = cid"
      "ms_status m = Status_NORMAL" "may_recall s (user_id auth) (me_now_ms env) m"
      "messages (mv_db (message_step ev s)) = put_message (recalled (me_now_ms env) m) (messages (mv_db s))"
proof (cases ev)
  case (E_rpc env rid md req)
  show ?thesis
  proof (cases "extract_auth md")
    case (Inl e)
    then show ?thesis using that(1) E_rpc by (simp add: message_rpc_def handle_rpc_snd)
  next
    case (Inr auth)
    then have st: "message_step ev s = snd (message_body env req auth s)"
      using E_rpc by (simp add: message_rpc_def handle_rpc_snd)
    show ?thesis
    proof (cases "\<exists>cid mid. req = R_RecallMessage cid mid \<and> snd (RecallMessage env auth cid mid s) \<noteq> s")
      case True
      then obtain cid mid where req: "req = R_RecallMessage cid mid" and ch: "snd (RecallMessage env auth cid mid s) \<noteq> s"
        by blast
      then have st': "message_step ev s = snd (RecallMessage env auth cid mid s)" using st by simp
      show ?thesis
        using RecallMessage_messages [OF wf ch] that(3) [of env rid md cid mid auth] E_rpc req Inr
        unfolding st' by auto
    next
      case False
      then have "messages (mv_db (snd (message_body env req auth s))) = messages (mv_db s)"
        by (cases req) (simp_all add: frame_simps)
      then show ?thesis using that(1) st by simp
    qed
  qed
next
  case (E_db env body redelivered)
  show ?thesis
  proof (cases "onDBMessage env body redelivered s" rule: prod.exhaust)
    case (Pair act s')
    then show ?thesis
      by (rule onDBMessage_cases) (use that(1,2) E_db Pair in auto)
  qed
qed (use that(1) in \<open>simp_all add: frame_simps\<close>)

lemma message_step_wf:
  assumes "messages_wf (messages (mv_db s))"
  shows "messages_wf (messages (mv_db (message_step ev s)))"
  using assms
  by (rule message_step_messages [of s ev]) (auto simp: assms messages_wf_append intro: put_message_wf [OF assms])

lemma message_run_wf: "messages_wf (messages (mv_db (message_run evs empty_message_state)))"
  by (rule message_run_invariant)
    (simp_all add: message_step_wf empty_message_state_def empty_message_db_def)

lemma put_message_member:
  assumes "distinct (map ms_message_id rs)" and "m0 \<in> set rs" and "ms_message_id m' = ms_message_id m0" and "x \<in> set rs"
  shows "x \<noteq> m0 \<and> x \<in> set (put_message m' rs) \<or> x = m0 \<and> m' \<in> set (put_message m' rs)"
proof -
  have "ms_message_id x = ms_message_id m' \<longleftrightarrow> x = m0"
    using assms by (auto simp: distinct_map dest: inj_onD)
  then show ?thesis using assms(4) by (auto simp: put_message_def put_row_def image_iff intro!: bexI [of _ x])
qed

text \<open>
  Claim C5. Stored messages change only by an authorised recall. In every run, whatever fails, an
  event leaves a stored message as it is, unless it is a successful RecallMessage for exactly this
  message and its conversation, the message was not recalled before, and the caller is the system
  user, an owner or administrator of the conversation, or the author, still a member, less than 120
  seconds after the message was created. Then the row is marked recalled and its text is erased, and
  nothing else of it changes. So no message is lost or edited, and none is recalled twice.
\<close>

theorem stored_message_changes_only_by_recall:
  assumes "s = message_run evs empty_message_state" and "m \<in> set (messages (mv_db s))"
  shows "m \<in> set (messages (mv_db (message_step ev s))) \<or>
    (\<exists>env rid md auth mid.
       ev = E_rpc env rid md (R_RecallMessage (ms_session_id m) mid) \<and> extract_auth md = Inr auth
       \<and> ms_message_id m = of_int mid \<and> ms_status m = Status_NORMAL
       \<and> may_recall s (user_id auth) (me_now_ms env) m
       \<and> m\<lparr>ms_status := REVOKED, ms_content := Some [], ms_revoke_time := Some (me_now_ms env)\<rparr>
           \<in> set (messages (mv_db (message_step ev s))))"
proof -
  have wf: "messages_wf (messages (mv_db s))" by (simp add: assms(1) message_run_wf)
  then have d: "distinct (map ms_message_id (messages (mv_db s)))" by (simp add: messages_wf_def)
  from wf show ?thesis
  proof (rule message_step_messages [of s ev])
    fix env rid md auth m0 cid mid
    assume *: "ev = E_rpc env rid md (R_RecallMessage cid mid)" "extract_auth md = Inr auth"
      "m0 \<in> set (messages (mv_db s))" "ms_message_id m0 = of_int mid" "ms_session_id m0 = cid"
      "ms_status m0 = Status_NORMAL" "may_recall s (user_id auth) (me_now_ms env) m0"
      "messages (mv_db (message_step ev s)) = put_message (recalled (me_now_ms env) m0) (messages (mv_db s))"
    show ?thesis
      using put_message_member [OF d *(3) recalled_keeps(1) assms(2), of "me_now_ms env"] * unfolding recalled_def by metis
  qed (use assms(2) in auto)
qed

lemma onDBMessage_stores:
  assumes "me_parse_internal env body = Some im" and "extract_content (mg_content (im_message im)) = Some e"
    and "me_up env 0 0" "me_up env 1 0" "me_up env 2 0"
    and "\<not> list_ex (message_clash (row_of_message (im_message im) e)) (messages (mv_db s))"
  shows "mv_db (snd (onDBMessage env body redelivered s)) =
      (mv_db s)\<lparr>messages := messages (mv_db s) @ [row_of_message (im_message im) e],
                timelines := timelines (mv_db s) @ timeline_rows im\<rparr>"
    and "fst (onDBMessage env body redelivered s) = Ack"
  using assms by (auto simp: onDBMessage_def Let_def store_message_def MessageTable_insert_def
      UserTimeLineTable_insert_def frame_simps)

lemma onDBMessage_members [simp]: "mv_members (snd (onDBMessage env body r s)) = mv_members s"
  by (auto simp: onDBMessage_def Let_def publish_es_event_def push_stored_def publish_push_def
      mark_idempotency_persisted_def split: option.splits sum.splits db_exn.splits prod.splits)

lemma onESIndexMessage_members [simp]: "mv_members (snd (onESIndexMessage env body r s)) = mv_members s"
  by (auto simp: onESIndexMessage_def split: option.splits prod.splits bool.splits)

definition demo_extracted :: "string \<Rightarrow> extracted" where
  "demo_extracted txt = \<lparr>xt_type = Type_TEXT, xt_text = txt, xt_file_id = [], xt_file_name = [], xt_file_size = 0\<rparr>"

lemma demo_extract: "extract_content (mg_content (im_message (demo_text mid seq u txt))) = Some (demo_extracted txt)"
  by (simp add: extract_content_def demo_text_def message_type_defs demo_extracted_def)

definition demo_rows :: "message_row list" where
  "demo_rows = [row_of_message (im_message (demo_text 7 1 ''alice'' ''hi'')) (demo_extracted ''hi''),
     row_of_message (im_message (demo_text 8 2 ''owen'' ''yes'')) (demo_extracted ''yes''),
     row_of_message (im_message (demo_text 9 3 ''alice'' ''bye'')) (demo_extracted ''bye'')]"

lemma demo_message_row:
  "ms_message_id (row_of_message (im_message (demo_text mid seq u txt)) (demo_extracted txt)) = of_int mid"
  "ms_session_id (row_of_message (im_message (demo_text mid seq u txt)) (demo_extracted txt)) = ''g''"
  "ms_seq_id (row_of_message (im_message (demo_text mid seq u txt)) (demo_extracted txt)) = seq"
  "ms_user_id (row_of_message (im_message (demo_text mid seq u txt)) (demo_extracted txt)) = u"
  "ms_client_msg_id (row_of_message (im_message (demo_text mid seq u txt)) (demo_extracted txt)) = None"
  "ms_status (row_of_message (im_message (demo_text mid seq u txt)) (demo_extracted txt)) = Status_NORMAL"
  "ms_content (row_of_message (im_message (demo_text mid seq u txt)) (demo_extracted txt)) = Some txt"
  "ms_message_type (row_of_message (im_message (demo_text mid seq u txt)) (demo_extracted txt)) = Type_TEXT"
  by (simp_all add: row_of_message_def demo_text_def demo_extracted_def Message_def empty_message_def)

lemma demo_state_db:
  "messages (mv_db (message_run demo_events empty_message_state)) = demo_rows"
  "timelines (mv_db (message_run demo_events empty_message_state)) =
     timeline_rows (demo_text 7 1 ''alice'' ''hi'') @ timeline_rows (demo_text 8 2 ''owen'' ''yes'') @
     timeline_rows (demo_text 9 3 ''alice'' ''bye'')"
  "mv_members (message_run demo_events empty_message_state) = demo_members"
proof -
  define s0 where "s0 = empty_message_state\<lparr>mv_members := demo_members\<rparr>"
  define s1 where "s1 = snd (onDBMessage (demo_menv 1000) ''m7'' False s0)"
  define s2 where "s2 = snd (onDBMessage (demo_menv 1000) ''m8'' False s1)"
  define s3 where "s3 = snd (onDBMessage (demo_menv 1000) ''m9'' False s2)"
  note env = demo_menv_def demo_parse_def demo_extract message_clash_def demo_message_row
  have 0: "mv_db s0 = empty_message_db" by (simp add: s0_def empty_message_state_def)
  have 1: "mv_db s1 = (mv_db s0)\<lparr>messages := messages (mv_db s0) @ [row_of_message (im_message (demo_text 7 1 ''alice'' ''hi'')) (demo_extracted ''hi'')],
      timelines := timelines (mv_db s0) @ timeline_rows (demo_text 7 1 ''alice'' ''hi'')\<rparr>"
    unfolding s1_def by (rule onDBMessage_stores) (simp_all add: env 0 empty_message_db_def)
  have 2: "mv_db s2 = (mv_db s1)\<lparr>messages := messages (mv_db s1) @ [row_of_message (im_message (demo_text 8 2 ''owen'' ''yes'')) (demo_extracted ''yes'')],
      timelines := timelines (mv_db s1) @ timeline_rows (demo_text 8 2 ''owen'' ''yes'')\<rparr>"
    unfolding s2_def by (rule onDBMessage_stores) (simp_all add: env 0 1 empty_message_db_def)
  have 3: "mv_db s3 = (mv_db s2)\<lparr>messages := messages (mv_db s2) @ [row_of_message (im_message (demo_text 9 3 ''alice'' ''bye'')) (demo_extracted ''bye'')],
      timelines := timelines (mv_db s2) @ timeline_rows (demo_text 9 3 ''alice'' ''bye'')\<rparr>"
    unfolding s3_def by (rule onDBMessage_stores) (simp_all add: env 0 1 2 empty_message_db_def)
  have run: "message_run demo_events empty_message_state = snd (onESIndexMessage (demo_menv 1000) ''hi'' False s3)"
    by (simp add: demo_events_def s0_def s1_def s2_def s3_def)
  show "messages (mv_db (message_run demo_events empty_message_state)) = demo_rows"
    "timelines (mv_db (message_run demo_events empty_message_state)) =
     timeline_rows (demo_text 7 1 ''alice'' ''hi'') @ timeline_rows (demo_text 8 2 ''owen'' ''yes'') @
     timeline_rows (demo_text 9 3 ''alice'' ''bye'')"
    by (simp_all add: run frame_simps 0 1 2 3 demo_rows_def empty_message_db_def)
  show "mv_members (message_run demo_events empty_message_state) = demo_members"
    unfolding run s3_def s2_def s1_def s0_def by simp
qed

lemma demo_row_stored: "demo_row \<in> set (messages (mv_db (message_run demo_events empty_message_state)))"
  by (simp add: demo_state_db demo_rows_def demo_row_def demo_extracted_def)

theorem stored_message_changes_only_by_recall_witness:
  "demo_row \<in> set (messages (mv_db (message_run demo_events empty_message_state))) \<and>
   (\<exists>s ev. ev = E_rpc (demo_menv 60000) ''r'' (reader_md ''alice'') (R_RecallMessage ''g'' 7)
     \<and> s = message_run demo_events empty_message_state \<and>
    (demo_row \<in> set (messages (mv_db (message_step ev s))) \<or>
    (\<exists>env rid md auth mid.
       ev = E_rpc env rid md (R_RecallMessage (ms_session_id demo_row) mid) \<and> extract_auth md = Inr auth
       \<and> ms_message_id demo_row = of_int mid \<and> ms_status demo_row = Status_NORMAL
       \<and> may_recall s (user_id auth) (me_now_ms env) demo_row
       \<and> demo_row\<lparr>ms_status := REVOKED, ms_content := Some [], ms_revoke_time := Some (me_now_ms env)\<rparr>
           \<in> set (messages (mv_db (message_step ev s))))))"
  by (intro conjI demo_row_stored exI; (rule refl)?)
    (rule stored_message_changes_only_by_recall [OF refl demo_row_stored])

section \<open>History pages\<close>

definition history_rows :: "cid \<Rightarrow> u64 \<Rightarrow> message_row list \<Rightarrow> message_row list" where
  "history_rows cid before rs =
     by_seq_desc (filter (\<lambda>m. ms_session_id m = cid \<and> ms_seq_id m < before \<and> ms_status m \<noteq> DELETED) rs)"

definition row_ref :: "message_row \<Rightarrow> int \<times> u64" where
  "row_ref m = (sint (ms_message_id m), ms_seq_id m)"

definition msg_ref :: "message_p \<Rightarrow> int \<times> u64" where
  "msg_ref m = (mg_message_id m, mg_seq_id m)"

lemma decorate_refs: "map msg_ref (decorate env cid u s rows) = map row_ref rows"
  by (simp add: decorate_def Let_def fill_pin_flag_for_messages_def fill_reactions_for_messages_def
      msg_ref_def row_ref_def convert_db_message_to_proto_def o_def)

lemma sorted_wrt_history:
  assumes "messages_wf rs"
  shows "sorted_wrt (\<lambda>a b. ms_seq_id b < ms_seq_id a) (history_rows cid before rs)"
proof -
  let ?P = "\<lambda>m. ms_session_id m = cid \<and> ms_seq_id m < before \<and> ms_status m \<noteq> DELETED"
  have "inj_on (\<lambda>m. (ms_session_id m, ms_seq_id m)) (set rs)" "distinct rs"
    using assms by (auto simp: messages_wf_def distinct_map)
  then have "inj_on ms_seq_id (set (filter ?P rs))" "distinct (filter ?P rs)"
    by (auto simp: inj_on_def)
  then have "distinct (map ms_seq_id (sort_key ms_seq_id (rev (filter ?P rs))))"
    by (simp add: distinct_map)
  then have "sorted_wrt (<) (map ms_seq_id (sort_key ms_seq_id (rev (filter ?P rs))))"
    by (simp add: strict_sorted_iff)
  then show ?thesis by (simp add: history_rows_def by_seq_desc_def sorted_wrt_rev sorted_wrt_map)
qed

lemma filter_below_last:
  assumes "sorted_wrt (\<lambda>a b. f b < (f a :: 'k::linorder)) xs" and "0 < k" and "k \<le> length xs"
  shows "filter (\<lambda>x. f x < f (xs ! (k - 1))) xs = drop k xs"
  using assms
proof (induction xs arbitrary: k)
  case Nil
  then show ?case by simp
next
  case (Cons x xs)
  show ?case
  proof (cases "k = 1")
    case True
    then show ?thesis using Cons.prems by (auto intro: filter_True)
  next
    case False
    then have k: "0 < k - 1" "k - 1 \<le> length xs" and nth: "(x # xs) ! (k - 1) = xs ! (k - 1 - 1)"
      using Cons.prems by (auto simp: nth_Cons')
    have "xs ! (k - 1 - 1) \<in> set xs" using k by (intro nth_mem) auto
    then have "\<not> f x < f (xs ! (k - 1 - 1))" using Cons.prems by auto
    then show ?thesis using Cons.prems(1) k Cons.IH [OF _ k] unfolding nth by (simp add: drop_Cons')
  qed
qed

lemma history_rows_below:
  assumes "b < before"
  shows "history_rows cid b rs = filter (\<lambda>m. ms_seq_id m < b) (history_rows cid before rs)"
proof -
  have "filter (\<lambda>m. ms_session_id m = cid \<and> ms_seq_id m < b \<and> ms_status m \<noteq> DELETED) rs =
     filter (\<lambda>m. ms_seq_id m < b)
       (filter (\<lambda>m. ms_session_id m = cid \<and> ms_seq_id m < before \<and> ms_status m \<noteq> DELETED) rs)"
    using assms by (auto simp: filter_filter intro!: filter_cong)
  then show ?thesis by (simp only: history_rows_def by_seq_desc_def filter_sort rev_filter [symmetric])
qed

lemma history_rows_next:
  assumes "messages_wf rs" and "0 < k" and "k \<le> length (history_rows cid before rs)"
  shows "history_rows cid (ms_seq_id (history_rows cid before rs ! (k - 1))) rs = drop k (history_rows cid before rs)"
proof -
  let ?last = "history_rows cid before rs ! (k - 1)"
  have "?last \<in> set (history_rows cid before rs)" using assms by (intro nth_mem) auto
  then have "ms_seq_id ?last < before" by (auto simp: history_rows_def by_seq_desc_def)
  then show ?thesis
    using history_rows_below filter_below_last [OF sorted_wrt_history [OF assms(1)] assms(2,3)] by simp
qed

text \<open>A client that pages back: the next call starts below the last message it got.\<close>

fun read_back :: "message_env \<Rightarrow> auth_context \<Rightarrow> cid \<Rightarrow> int \<Rightarrow> message_state \<Rightarrow> nat \<Rightarrow> u64 \<Rightarrow> message_p list option" where
  "read_back env auth cid limit s 0 before = None"
| "read_back env auth cid limit s (Suc n) before =
     (case fst (GetHistory env auth cid before limit s) of
        Inl e \<Rightarrow> None
      | Inr (ms, has_more) \<Rightarrow>
          if has_more then map_option ((@) ms) (read_back env auth cid limit s n (mg_seq_id (last ms)))
          else Some ms)"

lemma GetHistory_page:
  assumes "0 < limit" "limit \<le> 100" "before \<noteq> 0" "require_member_m env 0 cid (user_id auth) s = None" "me_up env 1 0"
  defines "rows \<equiv> history_rows cid before (messages (mv_db s))"
  shows "\<exists>ms. fst (GetHistory env auth cid before limit s) = Inr (ms, nat limit < length rows)
     \<and> map msg_ref ms = map row_ref (take (nat limit) rows)"
proof -
  have sel: "select_history True cid before (limit + 1) (messages (mv_db s)) = take (Suc (nat limit)) rows"
    using assms(1) by (simp add: select_history_def rows_def history_rows_def nat_add_distrib)
  have "page_of_rows limit (take (Suc (nat limit)) rows) = (nat limit < length rows, take (nat limit) rows)"
    using assms(1) butlast_take [of "Suc (nat limit)" rows]
    by (cases "nat limit < length rows") (auto simp: page_of_rows_def Let_def nat_less_iff)
  then show ?thesis using assms sel by (simp add: GetHistory_def kMaxLimit_def decorate_refs)
qed

lemma read_back_complete:
  assumes "messages_wf (messages (mv_db s))" "0 < limit" "limit \<le> 100"
    "require_member_m env 0 cid (user_id auth) s = None" "me_up env 1 0"
  shows "before \<noteq> 0 \<Longrightarrow> length (history_rows cid before (messages (mv_db s))) < n \<Longrightarrow>
    \<exists>ms. read_back env auth cid limit s n before = Some ms
      \<and> map msg_ref ms = map row_ref (history_rows cid before (messages (mv_db s)))"
proof (induction n arbitrary: before)
  case 0
  then show ?case by simp
next
  case (Suc n)
  let ?rows = "history_rows cid before (messages (mv_db s))" and ?k = "nat limit"
  obtain ms where ms: "fst (GetHistory env auth cid before limit s) = Inr (ms, ?k < length ?rows)"
    and refs: "map msg_ref ms = map row_ref (take ?k ?rows)"
    using GetHistory_page [OF assms(2,3) Suc.prems(1) assms(4,5)] by blast
  show ?case
  proof (cases "?k < length ?rows")
    case False
    then show ?thesis using ms refs by simp
  next
    case True
    have k: "0 < ?k" using assms(2) by simp
    have len: "length ms = ?k" using arg_cong [OF refs, of length] True by simp
    have last: "mg_seq_id (last ms) = ms_seq_id (?rows ! (?k - 1))"
      using arg_cong [OF refs, of "\<lambda>xs. snd (xs ! (?k - 1))"] len k True
      by (subst last_conv_nth) (auto simp: msg_ref_def row_ref_def)
    have nxt: "history_rows cid (ms_seq_id (?rows ! (?k - 1))) (messages (mv_db s)) = drop ?k ?rows"
      using history_rows_next [OF assms(1) k] True by simp
    have "?rows ! ?k \<in> set (history_rows cid (ms_seq_id (?rows ! (?k - 1))) (messages (mv_db s)))"
      unfolding nxt using True by (auto simp: in_set_conv_nth intro!: exI [of _ 0])
    then have nz: "ms_seq_id (?rows ! (?k - 1)) \<noteq> 0" by (auto simp: history_rows_def by_seq_desc_def)
    have "length (drop ?k ?rows) < n" using Suc.prems(2) True k by simp
    then obtain ms' where "read_back env auth cid limit s n (ms_seq_id (?rows ! (?k - 1))) = Some ms'"
      "map msg_ref ms' = map row_ref (drop ?k ?rows)"
      using Suc.IH [OF nz] unfolding nxt by blast
    then have "read_back env auth cid limit s (Suc n) before = Some (ms @ ms')"
      and "map msg_ref (ms @ ms') = map row_ref (take ?k ?rows @ drop ?k ?rows)"
      using ms refs True last by (simp_all del: append_take_drop_id)
    then show ?thesis by (simp only: append_take_drop_id) blast
  qed
qed

lemma length_history_rows: "length (history_rows cid before rs) \<le> length rs"
  by (simp add: history_rows_def by_seq_desc_def)

text \<open>
  Claim C23. Paging through the history is complete and has no repetition. In every state a run can
  reach, a member who calls GetHistory with any page size from 1 to 100, starts anywhere and goes on
  below the last message of each page until \<open>has_more\<close> is false, gets exactly the messages of the
  conversation below the start that are not deleted, each once, newest first; one call more than there
  are messages is enough.
\<close>

theorem history_pages_complete:
  assumes "s = message_run evs empty_message_state" and "0 < limit" "limit \<le> 100" "before \<noteq> 0"
    and "require_member_m env 0 cid (user_id auth) s = None" and "me_up env 1 0"
  shows "\<exists>ms. read_back env auth cid limit s (Suc (length (messages (mv_db s)))) before = Some ms
    \<and> sorted_wrt (>) (map mg_seq_id ms)
    \<and> set (map (\<lambda>m. (mg_message_id m, mg_seq_id m)) ms) =
        {(sint (ms_message_id m), ms_seq_id m) | m. m \<in> set (messages (mv_db s))
           \<and> ms_session_id m = cid \<and> ms_seq_id m < before \<and> ms_status m \<noteq> DELETED}"
proof -
  have wf: "messages_wf (messages (mv_db s))" by (simp add: assms(1) message_run_wf)
  obtain ms where ms: "read_back env auth cid limit s (Suc (length (messages (mv_db s)))) before = Some ms"
    and refs: "map msg_ref ms = map row_ref (history_rows cid before (messages (mv_db s)))"
    using read_back_complete [OF wf assms(2,3,5,6,4)] length_history_rows by (metis le_imp_less_Suc)
  have seqs: "map mg_seq_id ms = map ms_seq_id (history_rows cid before (messages (mv_db s)))"
    using arg_cong [OF refs, of "map snd"] by (simp add: msg_ref_def row_ref_def o_def)
  have "sorted_wrt (>) (map mg_seq_id ms)"
    unfolding seqs using sorted_wrt_history [OF wf] by (simp add: sorted_wrt_map)
  moreover have "set (map msg_ref ms) = row_ref ` {m \<in> set (messages (mv_db s)).
      ms_session_id m = cid \<and> ms_seq_id m < before \<and> ms_status m \<noteq> DELETED}"
    unfolding refs by (simp add: history_rows_def by_seq_desc_def)
  ultimately show ?thesis using ms by (auto simp: msg_ref_def [abs_def] row_ref_def [abs_def] image_def)
qed

lemma demo_require_member: "require_member_m (demo_menv t) k ''g'' ''alice''
    (message_run demo_events empty_message_state) = None"
  by (simp add: require_member_m_def ConversationMemberTable_select_self_def demo_state_db demo_members_def
      sel_member_def select_key_def demo_member_def ConversationMember_def cm_key_def demo_menv_def kSystemUserId_def)

lemma demo_menv_up: "me_up (demo_menv t) k i"
  by (simp add: demo_menv_def)

lemma demo_user: "user_id (reader_auth u) = u"
  by (simp add: reader_auth_def)

theorem history_pages_complete_witness:
  "\<exists>s ms. s = message_run demo_events empty_message_state
    \<and> read_back (demo_menv 5000) (reader_auth ''alice'') ''g'' 2 s (Suc (length (messages (mv_db s)))) 3 = Some ms
    \<and> sorted_wrt (>) (map mg_seq_id ms)
    \<and> set (map (\<lambda>m. (mg_message_id m, mg_seq_id m)) ms) = {(7, 1), (8, 2)}"
proof -
  let ?s = "message_run demo_events empty_message_state"
  obtain ms where "read_back (demo_menv 5000) (reader_auth ''alice'') ''g'' 2 ?s (Suc (length (messages (mv_db ?s)))) 3 = Some ms"
    "sorted_wrt (>) (map mg_seq_id ms)"
    and "set (map (\<lambda>m. (mg_message_id m, mg_seq_id m)) ms) =
      {(sint (ms_message_id m), ms_seq_id m) | m. m \<in> set (messages (mv_db ?s))
           \<and> ms_session_id m = ''g'' \<and> ms_seq_id m < 3 \<and> ms_status m \<noteq> DELETED}"
    using history_pages_complete [OF refl, of 2 3 "demo_menv 5000" "''g''" "reader_auth ''alice''" demo_events]
      demo_require_member [of 5000 0] demo_menv_up demo_user by fastforce
  moreover have "{(sint (ms_message_id m), ms_seq_id m) | m. m \<in> set (messages (mv_db ?s))
           \<and> ms_session_id m = ''g'' \<and> ms_seq_id m < 3 \<and> ms_status m \<noteq> DELETED} = {(7, 1), (8, 2)}"
  proof -
    have "{(sint (ms_message_id m), ms_seq_id m) | m. m \<in> set (messages (mv_db ?s))
           \<and> ms_session_id m = ''g'' \<and> ms_seq_id m < 3 \<and> ms_status m \<noteq> DELETED} =
        row_ref ` set (filter (\<lambda>m. ms_session_id m = ''g'' \<and> ms_seq_id m < 3 \<and> ms_status m \<noteq> DELETED) demo_rows)"
      by (auto simp: demo_state_db row_ref_def)
    also have "\<dots> = {(7, 1), (8, 2)}" by (simp add: demo_rows_def demo_message_row row_ref_def)
    finally show ?thesis .
  qed
  ultimately show ?thesis by auto
qed

end
