(* ===== verification/Message_Store.thy ===== *)
theory Message_Store
  imports Message_Props
begin

text \<open>
  More of the message service: the database consumer stores each message and its inbox rows
  together and once; messages are shown to members only; pins stay within the limit when their
  count can be read; sequence counters restored from the database do not repeat stored numbers;
  a recalled text stays in the search index.
\<close>

section \<open>Inbox rows refer to stored messages\<close>

definition inbox_ref :: "message_db \<Rightarrow> timeline_row \<Rightarrow> bool" where
  "inbox_ref db t = (\<exists>m \<in> set (messages db). ms_message_id m = tl_message_id t
     \<and> ms_session_id m = tl_session_id t \<and> ms_seq_id m = tl_session_seq t
     \<and> ms_create_time m = tl_message_time t)"

definition pin_ref :: "message_db \<Rightarrow> pin_row \<Rightarrow> bool" where
  "pin_ref db p = (\<exists>m \<in> set (messages db). ms_message_id m = pn_message_id p \<and> ms_session_id m = pn_session_id p)"

definition store_ok :: "message_state \<Rightarrow> bool" where
  "store_ok s = (messages_wf (messages (mv_db s))
     \<and> (\<forall>t \<in> set (timelines (mv_db s)). inbox_ref (mv_db s) t)
     \<and> (\<forall>p \<in> set (pins (mv_db s)). pin_ref (mv_db s) p))"

text \<open>The parts of a message row that no event changes.\<close>

definition row_core :: "message_row \<Rightarrow> u64 \<times> cid \<times> u64 \<times> time" where
  "row_core m = (ms_message_id m, ms_session_id m, ms_seq_id m, ms_create_time m)"

lemma step_keeps_core:
  assumes wf: "messages_wf (messages (mv_db s))"
  shows "row_core ` set (messages (mv_db s)) \<subseteq> row_core ` set (messages (mv_db (message_step ev s)))"
  using wf
proof (rule message_step_messages [of s ev])
  fix env rid md auth m cid mid
  assume m: "m \<in> set (messages (mv_db s))"
    and eq: "messages (mv_db (message_step ev s)) = put_message (recalled (me_now_ms env) m) (messages (mv_db s))"
  have d: "distinct (map ms_message_id (messages (mv_db s)))" using wf by (simp add: messages_wf_def)
  show ?thesis
    using put_message_map [OF d m recalled_keeps(1), of row_core "me_now_ms env"]
    by (metis eq image_set order_refl row_core_def recalled_keeps)
qed auto

lemma inbox_ref_core: "inbox_ref db t \<longleftrightarrow>
    (tl_message_id t, tl_session_id t, tl_session_seq t, tl_message_time t) \<in> row_core ` set (messages db)"
  by (simp add: inbox_ref_def row_core_def image_iff) metis

lemma pin_ref_core: "pin_ref db p \<longleftrightarrow> (\<exists>q t. (pn_message_id p, pn_session_id p, q, t) \<in> row_core ` set (messages db))"
  by (simp add: pin_ref_def row_core_def image_iff) metis

lemma timeline_rows_ref:
  "t \<in> set (timeline_rows im) \<Longrightarrow>
     (tl_message_id t, tl_session_id t, tl_session_seq t, tl_message_time t) =
       row_core (row_of_message (im_message im) e)"
  by (auto simp: timeline_rows_def row_core_def row_of_message_def Message_def Let_def split: if_splits)

lemma handlers_timelines [frame_simps]:
  "timelines (mv_db (snd (AddReaction env auth m e s))) = timelines (mv_db s)"
  "timelines (mv_db (snd (RemoveReaction env auth m e s))) = timelines (mv_db s)"
  "timelines (mv_db (snd (PinMessage env auth c m s))) = timelines (mv_db s)"
  "timelines (mv_db (snd (UnpinMessage env auth c m s))) = timelines (mv_db s)"
  "timelines (mv_db (snd (UpdateReadAck env auth c q s))) = timelines (mv_db s)"
  by (auto simp: AddReaction_def RemoveReaction_def PinMessage_def UnpinMessage_def
      UpdateReadAck_def set_pins_def frame_simps
      split: option.splits prod.splits sum.splits bool.splits)

lemma delete_timelines:
  "set (timelines (mv_db (snd (DeleteMessages env auth c ms s)))) \<subseteq> set (timelines (mv_db s))"
  "set (timelines (mv_db (snd (ClearConversation env auth c s)))) \<subseteq> set (timelines (mv_db s))"
  by (auto simp: DeleteMessages_def ClearConversation_def set_timelines_def delete_by_message_ids_def
      delete_by_conversation_def split: option.splits if_splits)

lemma RecallMessage_db:
  "mv_db (snd (RecallMessage env auth c m s)) = (mv_db s)\<lparr>messages := messages (mv_db (snd (RecallMessage env auth c m s)))\<rparr>"
proof (cases "snd (RecallMessage env auth c m s) = s")
  case True
  then show ?thesis by simp
next
  case False
  then show ?thesis using RecallMessage_change [OF False] by (auto simp: frame_simps set_messages_def)
qed

lemma message_body_timelines:
  "set (timelines (mv_db (snd (message_body env req auth s)))) \<subseteq> set (timelines (mv_db s))"
proof (cases req)
  case (R_RecallMessage c m)
  then show ?thesis using arg_cong [OF RecallMessage_db [of env auth c m s], of timelines] by simp
qed (use delete_timelines in \<open>auto simp: frame_simps\<close>)

lemma message_step_timelines:
  assumes "t \<in> set (timelines (mv_db (message_step ev s)))"
  shows "t \<in> set (timelines (mv_db s)) \<or>
    (tl_message_id t, tl_session_id t, tl_session_seq t, tl_message_time t)
      \<in> row_core ` set (messages (mv_db (message_step ev s)))"
proof (cases ev)
  case (E_rpc env rid md req)
  then show ?thesis using assms message_body_timelines [of env req _ s]
    by (auto simp: message_rpc_def handle_rpc_snd split: sum.splits)
next
  case (E_db env body r)
  obtain act s' where res: "onDBMessage env body r s = (act, s')" by fastforce
  from res show ?thesis
  proof (rule onDBMessage_cases)
    assume "s' = s"
    then show ?thesis using assms E_db res by simp
  next
    fix im e
    assume "mv_db s' = (mv_db s)\<lparr>messages := messages (mv_db s) @ [row_of_message (im_message im) e],
      timelines := timelines (mv_db s) @ timeline_rows im\<rparr>"
    then show ?thesis using assms E_db res timeline_rows_ref [of t im e] by auto
  qed
qed (use assms in \<open>simp_all add: frame_simps\<close>)

section \<open>Pins\<close>

lemma handlers_pins [frame_simps]:
  "pins (mv_db (snd (AddReaction env auth m e s))) = pins (mv_db s)"
  "pins (mv_db (snd (RemoveReaction env auth m e s))) = pins (mv_db s)"
  "pins (mv_db (snd (DeleteMessages env auth c ms s))) = pins (mv_db s)"
  "pins (mv_db (snd (ClearConversation env auth c s))) = pins (mv_db s)"
  "pins (mv_db (snd (UpdateReadAck env auth c q s))) = pins (mv_db s)"
  by (auto simp: AddReaction_def RemoveReaction_def DeleteMessages_def ClearConversation_def
      UpdateReadAck_def set_timelines_def frame_simps
      split: option.splits prod.splits sum.splits bool.splits)

lemma UnpinMessage_pins: "\<exists>P. pins (mv_db (snd (UnpinMessage env auth c m s))) = filter P (pins (mv_db s))"
proof (cases "pins (mv_db (snd (UnpinMessage env auth c m s))) = pins (mv_db s)")
  case True
  then show ?thesis by (intro exI [of _ "\<lambda>_. True"]) simp
next
  case False
  then show ?thesis
    by (intro exI [of _ "\<lambda>p. pn_key p \<noteq> (c, of_int m)"])
      (auto simp: UnpinMessage_def MessagePinTable_remove_def set_pins_def frame_simps split: sum.splits if_splits)
qed

lemma length_filter_filter_le: "length (filter Q (filter P xs)) \<le> length (filter Q xs)"
  by (induction xs) auto

lemma PinMessage_pins:
  obtains "pins (mv_db (snd (PinMessage env auth c m s))) = pins (mv_db s)"
  | p where "pins (mv_db (snd (PinMessage env auth c m s))) = pins (mv_db s) @ [p]"
      "pn_session_id p = c" "pin_ref (mv_db s) p"
      "count_by_conversation (me_up env 2 0) c (pins (mv_db s)) < kPinLimit"
proof (cases "pins (mv_db (snd (PinMessage env auth c m s))) = pins (mv_db s)")
  case True
  then show ?thesis by (rule that(1))
next
  case False
  then obtain role where role: "conv_role_m env 0 c (user_id auth) s = Inr role" "may_pin c role"
    by (cases "conv_role_m env 0 c (user_id auth) s") (auto simp: PinMessage_def split: if_splits)
  then obtain msg where msg: "select_by_id (me_up env 1 0) (of_int m) (messages (mv_db s)) = Some msg"
    using False by (cases "select_by_id (me_up env 1 0) (of_int m) (messages (mv_db s))") (auto simp: PinMessage_def)
  have ok: "ms_session_id msg = c" "count_by_conversation (me_up env 2 0) c (pins (mv_db s)) < kPinLimit"
    using False role msg by (auto simp: PinMessage_def not_le split: if_splits)
  let ?p = "\<lparr>pn_session_id = c, pn_message_id = of_int m, pn_pinned_by = user_id auth, pn_pinned_at = me_now_ms env\<rparr>"
  have "pins (mv_db (snd (PinMessage env auth c m s))) = pins (mv_db s) @ [?p]"
    using False role msg ok
    by (auto simp: PinMessage_def MessagePinTable_insert_def persist_def set_pins_def frame_simps split: if_splits)
  moreover have "pin_ref (mv_db s) ?p"
    using msg ok query_one_Some by (fastforce simp: pin_ref_def select_by_id_def split: if_splits)
  ultimately show ?thesis using that(2) ok(2) by simp
qed

lemma message_step_pins:
  obtains "set (pins (mv_db (message_step ev s))) \<subseteq> set (pins (mv_db s))"
      "\<And>c. length (filter (\<lambda>p. pn_session_id p = c) (pins (mv_db (message_step ev s))))
        \<le> length (filter (\<lambda>p. pn_session_id p = c) (pins (mv_db s)))"
  | p env rid md mid where "ev = E_rpc env rid md (R_PinMessage (pn_session_id p) mid)"
      "pins (mv_db (message_step ev s)) = pins (mv_db s) @ [p]" "pin_ref (mv_db s) p"
      "count_by_conversation (me_up env 2 0) (pn_session_id p) (pins (mv_db s)) < kPinLimit"
proof (cases ev)
  case (E_rpc env rid md req)
  show ?thesis
  proof (cases "extract_auth md")
    case (Inl e)
    then show ?thesis using that(1) E_rpc by (simp add: message_rpc_def handle_rpc_snd)
  next
    case (Inr auth)
    then have st: "message_step ev s = snd (message_body env req auth s)"
      using E_rpc by (simp add: message_rpc_def handle_rpc_snd)
    show ?thesis
    proof (cases req)
      case (R_RecallMessage c m)
      then show ?thesis using that(1) st arg_cong [OF RecallMessage_db [of env auth c m s], of pins] by simp
    next
      case (R_PinMessage c m)
      then have st': "message_step ev s = snd (PinMessage env auth c m s)" using st by simp
      show ?thesis
        by (rule PinMessage_pins [of env auth c m s])
          (use that(1) that(2) [of env rid md _ m] E_rpc R_PinMessage st' in auto)
    next
      case (R_UnpinMessage c m)
      then have st': "message_step ev s = snd (UnpinMessage env auth c m s)" using st by simp
      obtain P where "pins (mv_db (message_step ev s)) = filter P (pins (mv_db s))"
        using UnpinMessage_pins [of env auth c m s] unfolding st' by blast
      then show ?thesis using that(1) by (simp add: length_filter_filter_le del: filter_filter)
    qed (use that(1) st in \<open>simp_all add: frame_simps\<close>)
  qed
next
  case (E_db env body r)
  obtain act s' where res: "onDBMessage env body r s = (act, s')" by fastforce
  from res show ?thesis
    by (rule onDBMessage_cases) (use that(1) E_db res in auto)
qed (use that(1) in \<open>simp_all add: frame_simps\<close>)

section \<open>The invariant of the store\<close>

lemma store_ok_step:
  assumes "store_ok s"
  shows "store_ok (message_step ev s)"
proof -
  have wf: "messages_wf (messages (mv_db s))" using assms by (simp add: store_ok_def)
  note core = step_keeps_core [OF wf, of ev]
  have "inbox_ref (mv_db (message_step ev s)) t" if t: "t \<in> set (timelines (mv_db (message_step ev s)))" for t
    using message_step_timelines [OF t] assms core by (auto simp: store_ok_def inbox_ref_core)
  moreover have "pin_ref (mv_db (message_step ev s)) p" if p: "p \<in> set (pins (mv_db (message_step ev s)))" for p
  proof -
    have "p \<in> set (pins (mv_db s)) \<or> pin_ref (mv_db s) p"
      by (rule message_step_pins [of ev s]) (use p in auto)
    then have "pin_ref (mv_db s) p" using assms by (auto simp: store_ok_def)
    then show ?thesis using core unfolding pin_ref_core by blast
  qed
  ultimately show ?thesis using message_step_wf [OF wf] by (simp add: store_ok_def)
qed

lemma store_ok_run: "store_ok (message_run evs empty_message_state)"
  by (rule message_run_invariant)
    (simp_all add: store_ok_step, simp add: store_ok_def empty_message_state_def empty_message_db_def)

section \<open>The database consumer\<close>

lemma clash_id: "\<exists>m \<in> set rs. ms_message_id m = ms_message_id r \<Longrightarrow> list_ex (message_clash r) rs"
  by (auto simp: list_ex_iff message_clash_def)

lemma row_of_message_id [simp]: "ms_message_id (row_of_message m e) = of_int (mg_message_id m)"
  by (simp add: row_of_message_def Message_def)

lemma onDBMessage_Ack_stored:
  assumes "onDBMessage env body r s = (Ack, s')" and "me_parse_internal env body = Some im"
    and "extract_content (mg_content (im_message im)) = Some e"
  shows "\<exists>m \<in> set (messages (mv_db s')). ms_message_id m = of_int (mg_message_id (im_message im))"
proof (cases "store_message env (row_of_message (im_message im) e) (timeline_rows im) (mv_db s)")
  case (Inl x)
  have "select_by_id (me_up env 4 0) (of_int (mg_message_id (im_message im))) (messages (mv_db s)) \<noteq> None \<and> s' = s"
    using assms Inl by (cases x) (auto simp: onDBMessage_def Let_def split: if_splits)
  then show ?thesis by (auto simp: select_by_id_def dest!: query_one_Some split: if_splits)
next
  case (Inr db)
  then have "mv_db s' = db" using assms by (auto simp: onDBMessage_def Let_def frame_simps)
  then show ?thesis using store_message_Inr [OF Inr] by auto
qed

lemma length_filter_key:
  "distinct (map f xs) \<Longrightarrow> length (filter (\<lambda>x. f x = k) xs) = (if k \<in> f ` set xs then 1 else 0)"
  by (induction xs) auto

text \<open>
  Claim C2. The database consumer stores a message and its inbox rows together and at most once. In
  every run, whatever fails and however often the broker redelivers: after an acknowledgement exactly
  one row with the message's id is stored; anything but an acknowledgement leaves the whole state as
  it was; a message that is already stored changes nothing; a message that is new when acknowledged
  adds exactly its row and one inbox row per recipient; and every inbox row refers to a stored message
  with the same id, conversation, sequence number and time.
\<close>

theorem db_consumer_stores_once:
  assumes s: "s = message_run evs empty_message_state"
    and res: "onDBMessage env body redelivered s = (act, s')"
    and im: "me_parse_internal env body = Some im"
    and e: "extract_content (mg_content (im_message im)) = Some e"
  shows "(act = Ack \<longrightarrow> length (filter (\<lambda>m. ms_message_id m = of_int (mg_message_id (im_message im)))
             (messages (mv_db s'))) = 1)
    \<and> (act \<noteq> Ack \<longrightarrow> s' = s)
    \<and> ((\<exists>m \<in> set (messages (mv_db s)). ms_message_id m = of_int (mg_message_id (im_message im))) \<longrightarrow> s' = s)
    \<and> (act = Ack \<and> (\<forall>m \<in> set (messages (mv_db s)). ms_message_id m \<noteq> of_int (mg_message_id (im_message im))) \<longrightarrow>
         messages (mv_db s') = messages (mv_db s) @ [row_of_message (im_message im) e]
         \<and> timelines (mv_db s') = timelines (mv_db s) @ timeline_rows im)
    \<and> (\<forall>t \<in> set (timelines (mv_db s')). inbox_ref (mv_db s') t)"
proof -
  have ok: "store_ok s" by (simp add: s store_ok_run)
  have s': "s' = message_step (E_db env body redelivered) s" using res by simp
  have ok': "store_ok s'" unfolding s' by (rule store_ok_step [OF ok])
  have once: "act = Ack \<longrightarrow> length (filter (\<lambda>m. ms_message_id m = of_int (mg_message_id (im_message im)))
             (messages (mv_db s'))) = 1"
  proof
    assume "act = Ack"
    then have "of_int (mg_message_id (im_message im)) \<in> ms_message_id ` set (messages (mv_db s'))"
      using onDBMessage_Ack_stored [OF _ im e, of redelivered s s'] res by force
    then show "length (filter (\<lambda>m. ms_message_id m = of_int (mg_message_id (im_message im))) (messages (mv_db s'))) = 1"
      using ok' by (simp add: length_filter_key store_ok_def messages_wf_def)
  qed
  have nack: "act \<noteq> Ack \<longrightarrow> s' = s" by (rule onDBMessage_cases [OF res]) auto
  have known: "(\<exists>m \<in> set (messages (mv_db s)). ms_message_id m = of_int (mg_message_id (im_message im))) \<longrightarrow> s' = s"
    by (rule onDBMessage_cases [OF res]) (use im e clash_id [of "messages (mv_db s)" "row_of_message (im_message im) e"] in auto)
  have new: "act = Ack \<and> (\<forall>m \<in> set (messages (mv_db s)). ms_message_id m \<noteq> of_int (mg_message_id (im_message im))) \<longrightarrow>
         messages (mv_db s') = messages (mv_db s) @ [row_of_message (im_message im) e]
         \<and> timelines (mv_db s') = timelines (mv_db s) @ timeline_rows im"
    by (rule onDBMessage_cases [OF res]) (use im e onDBMessage_Ack_stored [OF _ im e, of redelivered s s'] res in auto)
  show ?thesis using once nack known new ok' by (simp add: store_ok_def)
qed

definition demo_before :: "message_event list" where
  "demo_before = [E_members demo_members, E_db (demo_menv 1000) ''m7'' False]"

lemma demo_before_db:
  "messages (mv_db (message_run demo_before empty_message_state)) =
     [row_of_message (im_message (demo_text 7 1 ''alice'' ''hi'')) (demo_extracted ''hi'')]"
  "timelines (mv_db (message_run demo_before empty_message_state)) = timeline_rows (demo_text 7 1 ''alice'' ''hi'')"
  by (simp_all add: demo_before_def onDBMessage_stores(1) [of _ _ "demo_text 7 1 ''alice'' ''hi''" "demo_extracted ''hi''"]
      demo_menv_def demo_parse_def demo_extract empty_message_state_def empty_message_db_def)

theorem db_consumer_stores_once_witness:
  "\<exists>s s'. s = message_run demo_before empty_message_state
     \<and> onDBMessage (demo_menv 1000) ''m8'' True s = (Ack, s')
     \<and> length (filter (\<lambda>m. ms_message_id m = 8) (messages (mv_db s'))) = 1
     \<and> timelines (mv_db s') = timelines (mv_db s) @ timeline_rows (demo_text 8 2 ''owen'' ''yes'')
     \<and> length (timelines (mv_db s')) = 4"
proof -
  let ?s = "message_run demo_before empty_message_state" and ?im = "demo_text 8 2 ''owen'' ''yes''"
  let ?s' = "snd (onDBMessage (demo_menv 1000) ''m8'' True ?s)"
  have im: "me_parse_internal (demo_menv 1000) ''m8'' = Some ?im" by (simp add: demo_menv_def demo_parse_def)
  have id: "mg_message_id (im_message ?im) = 8" by (simp add: demo_text_def empty_message_def)
  have "\<not> list_ex (message_clash (row_of_message (im_message ?im) (demo_extracted ''yes''))) (messages (mv_db ?s))"
    by (simp add: demo_before_db message_clash_def demo_message_row del: row_of_message_id)
  then have ack: "fst (onDBMessage (demo_menv 1000) ''m8'' True ?s) = Ack"
    by (intro onDBMessage_stores(2) [OF im demo_extract]) (simp_all add: demo_menv_up)
  then have res: "onDBMessage (demo_menv 1000) ''m8'' True ?s = (Ack, ?s')" by (metis prod.collapse)
  have fresh: "\<forall>m \<in> set (messages (mv_db ?s)). ms_message_id m \<noteq> 8" by (simp add: demo_before_db demo_text_def empty_message_def)
  note once = db_consumer_stores_once [OF refl res im demo_extract, unfolded id]
  have one: "length (filter (\<lambda>m. ms_message_id m = 8) (messages (mv_db ?s'))) = 1"
    and tls: "timelines (mv_db ?s') = timelines (mv_db ?s) @ timeline_rows ?im"
    using once fresh id by simp_all
  moreover have "length (timelines (mv_db ?s')) = 4"
    unfolding tls demo_before_db by (simp add: timeline_rows_def demo_text_def Let_def)
  ultimately show ?thesis using res by blast
qed

section \<open>Who sees messages\<close>

definition active_member :: "message_state \<Rightarrow> cid \<Rightarrow> uid \<Rightarrow> bool" where
  "active_member s cid uid =
     (case sel_member (mv_members s) (cid, uid) of None \<Rightarrow> False | Some r \<Rightarrow> \<not> cm_is_quit r)"

lemma require_member_m_None:
  "require_member_m env k cid uid s = None \<Longrightarrow> uid = kSystemUserId \<or> active_member s cid uid"
  by (auto simp: require_member_m_def ConversationMemberTable_select_self_def active_member_def
      split: if_splits option.splits)

lemma convert_conversation [simp]: "mg_conversation_id (convert_db_message_to_proto m) = ms_session_id m"
  by (simp add: convert_db_message_to_proto_def)

lemma convert_sender [simp]: "mg_sender_id (convert_db_message_to_proto m) = ms_user_id m"
  by (simp add: convert_db_message_to_proto_def)

lemma fill_reactions_conversations:
  "map mg_conversation_id (fill_reactions_for_messages env mids u s ms) = map mg_conversation_id ms"
  by (simp add: fill_reactions_for_messages_def Let_def o_def)

lemma decorate_conversations: "map mg_conversation_id (decorate env cid u s rows) = map ms_session_id rows"
  by (simp add: decorate_def Let_def fill_pin_flag_for_messages_def fill_reactions_for_messages_def o_def)

lemma conversation_in_map: "m \<in> set ms \<Longrightarrow> map mg_conversation_id ms = map f rows \<Longrightarrow>
    \<exists>r \<in> set rows. mg_conversation_id m = f r"
  by (metis image_eqI image_iff list.set_map)

lemma page_of_rows_subset: "page_of_rows limit rows = (b, rows') \<Longrightarrow> set rows' \<subseteq> set rows"
  by (auto simp: page_of_rows_def Let_def dest: in_set_butlastD split: if_splits)

lemma select_history_session: "m \<in> set (select_history ok cid b l rs) \<Longrightarrow> ms_session_id m = cid"
  by (auto simp: select_history_def by_seq_desc_def dest: in_set_takeD split: if_splits)

lemma select_after_session: "m \<in> set (select_after ok cid b l rs) \<Longrightarrow> ms_session_id m = cid"
  by (auto simp: select_after_def by_seq_def dest: in_set_takeD split: if_splits)

lemma GetHistory_members:
  assumes "fst (GetHistory env auth cid b l s) = Inr (ms, hm)" and "m \<in> set ms"
  shows "user_id auth = kSystemUserId \<or> active_member s (mg_conversation_id m) (user_id auth)"
proof -
  have req: "require_member_m env 0 cid (user_id auth) s = None"
    using assms(1) by (auto simp: GetHistory_def split: if_splits option.splits prod.splits)
  then obtain hm' rows where page: "page_of_rows l (select_history (me_up env 1 0) cid b (l + 1) (messages (mv_db s))) = (hm', rows)"
    and ms: "ms = decorate env cid (user_id auth) s rows"
    using assms(1) by (auto simp: GetHistory_def split: if_splits prod.splits)
  obtain r where "r \<in> set rows" "mg_conversation_id m = ms_session_id r"
    using conversation_in_map [OF assms(2)] decorate_conversations unfolding ms by metis
  then have "mg_conversation_id m = cid"
    using page_of_rows_subset [OF page] select_history_session by (metis subsetD)
  then show ?thesis using require_member_m_None [OF req] by simp
qed

lemma SyncMessages_members:
  assumes "fst (SyncMessages env auth cid b l s) = Inr (ms, hm)" and "m \<in> set ms"
  shows "user_id auth = kSystemUserId \<or> active_member s (mg_conversation_id m) (user_id auth)"
proof -
  have req: "require_member_m env 0 cid (user_id auth) s = None"
    using assms(1) by (auto simp: SyncMessages_def split: if_splits option.splits prod.splits)
  then obtain hm' rows where page: "page_of_rows l (select_after (me_up env 1 0) cid b (l + 1) (messages (mv_db s))) = (hm', rows)"
    and ms: "ms = decorate env cid (user_id auth) s rows"
    using assms(1) by (auto simp: SyncMessages_def split: if_splits prod.splits)
  obtain r where "r \<in> set rows" "mg_conversation_id m = ms_session_id r"
    using conversation_in_map [OF assms(2)] decorate_conversations unfolding ms by metis
  then have "mg_conversation_id m = cid"
    using page_of_rows_subset [OF page] select_after_session by (metis subsetD)
  then show ?thesis using require_member_m_None [OF req] by simp
qed

lemma select_self_active: "ConversationMemberTable_select_self ok c u (mv_members s) = Some r \<Longrightarrow>
    \<not> cm_is_quit r \<Longrightarrow> active_member s c u"
  by (simp add: ConversationMemberTable_select_self_def active_member_def split: if_splits)

lemma visible_rows_member: "r \<in> set (visible_rows env uid s i rows) \<Longrightarrow> active_member s (ms_session_id r) uid"
  by (induction rows arbitrary: i) (auto intro: select_self_active split: option.splits if_splits)

lemma GetMessagesById_members:
  assumes "fst (GetMessagesById env auth mids s) = Inr ms" and "m \<in> set ms"
  shows "active_member s (mg_conversation_id m) (user_id auth)"
proof -
  let ?rows = "visible_rows env (user_id auth) s 0 (select_by_ids (me_up env 1 0) (map of_int mids) (messages (mv_db s)))"
  have "map mg_conversation_id ms = map ms_session_id ?rows"
    using assms(1)
    by (auto simp: GetMessagesById_def Let_def fill_reactions_by_mids_def fill_reactions_conversations o_def split: if_splits)
  then show ?thesis using conversation_in_map [OF assms(2)] visible_rows_member by metis
qed

lemma SearchMessages_members:
  assumes "fst (SearchMessages env auth cid k l s) = Inr ms" and "m \<in> set ms"
    and "\<And>d. d \<in> set (me_es_search env (mv_es s) k cid l) \<Longrightarrow> ed_chat_session_id d = cid"
  shows "user_id auth = kSystemUserId \<or> active_member s (mg_conversation_id m) (user_id auth)"
proof -
  have "require_member_m env 0 cid (user_id auth) s = None"
    and ms: "ms = map convert_db_message_to_proto (ESMessage_search env k cid l (mv_es s))"
    using assms(1) by (auto simp: SearchMessages_def split: if_splits option.splits)
  moreover have "mg_conversation_id m = cid"
    using assms(2,3) by (auto simp: ms ESMessage_search_def message_of_doc_def Message_def)
  ultimately show ?thesis using require_member_m_None by simp
qed

lemma ListPinnedMessages_members:
  assumes "store_ok s" and "fst (ListPinnedMessages env auth cid s) = Inr ms" and "m \<in> set ms"
  shows "user_id auth = kSystemUserId \<or> active_member s (mg_conversation_id m) (user_id auth)"
proof -
  let ?mids = "list_by_conversation (me_up env 1 0) cid kPinLimit (pins (mv_db s))"
  let ?rows = "filter (\<lambda>m. ms_status m \<noteq> DELETED) (select_by_ids (me_up env 2 0) ?mids (messages (mv_db s)))"
  have req: "require_member_m env 0 cid (user_id auth) s = None"
    using assms(2) by (auto simp: ListPinnedMessages_def split: option.splits)
  have "map mg_conversation_id ms = map ms_session_id ?rows"
    using assms(2,3) req by (auto simp: ListPinnedMessages_def Let_def o_def fill_reactions_for_messages_def split: if_splits)
  then obtain r where r: "r \<in> set ?rows" "mg_conversation_id m = ms_session_id r"
    using conversation_in_map [OF assms(3)] by metis
  then have in_db: "r \<in> set (messages (mv_db s))" and "ms_message_id r \<in> set ?mids"
    by (auto simp: select_by_ids_def by_seq_def split: if_splits)
  then obtain p where p: "p \<in> set (pins (mv_db s))" "pn_message_id p = ms_message_id r" "pn_session_id p = cid"
    by (auto simp: list_by_conversation_def dest!: in_set_takeD split: if_splits)
  then obtain m' where m': "m' \<in> set (messages (mv_db s))" "ms_message_id m' = ms_message_id r" "ms_session_id m' = cid"
    using assms(1) by (auto simp: store_ok_def pin_ref_def)
  have "m' = r" using assms(1) m' in_db by (auto simp: store_ok_def messages_wf_def distinct_map dest: inj_onD)
  then show ?thesis using r(2) m'(3) require_member_m_None [OF req] by simp
qed

lemma SelectByClientMsgId_sender:
  assumes "fst (SelectByClientMsgId env auth k s) = Inr (Some m)"
  shows "mg_sender_id m = user_id auth"
  using assms by (auto simp: SelectByClientMsgId_def select_by_client_msg_def dest!: query_one_Some split: if_splits)

lemma fst_with_rsp: "fst (with_rsp f r) = Inr y \<longleftrightarrow> (\<exists>a. fst r = Inr a \<and> y = f a)"
  by (auto simp: with_rsp_def split: prod.splits sum.splits)

text \<open>
  Claim C12. Messages are shown to members only. In every state a run can reach and for every request,
  each message in the response belongs to a conversation of which the caller is an active member at
  that moment, unless the caller is the system user or the message is the caller's own (the lookup by
  client message id). The search hits are the search engine's; the hypothesis is what its term filter
  on \<open>chat_session_id\<close> promises.
\<close>

theorem messages_shown_to_members:
  assumes s: "s = message_run evs empty_message_state"
    and es: "\<And>idx k c l d. d \<in> set (me_es_search env idx k c l) \<Longrightarrow> ed_chat_session_id d = c"
    and rsp: "fst (message_body env req auth s) = Inr (Rsp_messages ms)" and m: "m \<in> set ms"
  shows "user_id auth = kSystemUserId \<or> active_member s (mg_conversation_id m) (user_id auth)
    \<or> mg_sender_id m = user_id auth"
proof (cases req)
  case (R_GetHistory c b l)
  then show ?thesis using rsp m GetHistory_members by (fastforce simp: fst_with_rsp)
next
  case (R_SyncMessages c b l)
  then show ?thesis using rsp m SyncMessages_members by (fastforce simp: fst_with_rsp)
next
  case (R_GetMessagesById mids)
  then show ?thesis using rsp m GetMessagesById_members by (fastforce simp: fst_with_rsp)
next
  case (R_SearchMessages c k l)
  then have "fst (SearchMessages env auth c k l s) = Inr ms" using rsp by (auto simp: fst_with_rsp)
  then have "user_id auth = kSystemUserId \<or> active_member s (mg_conversation_id m) (user_id auth)"
    using m by (rule SearchMessages_members) (rule es)
  then show ?thesis by blast
next
  case (R_ListPinnedMessages c)
  then have "fst (ListPinnedMessages env auth c s) = Inr ms" using rsp by (auto simp: fst_with_rsp)
  then show ?thesis using ListPinnedMessages_members [of s env auth c ms m] m store_ok_run [of evs] s by blast
next
  case (R_SelectByClientMsgId k)
  then show ?thesis using rsp m SelectByClientMsgId_sender [of env auth k s m]
    by (auto simp: fst_with_rsp split: option.splits)
qed (use rsp in \<open>auto simp: fst_with_rsp\<close>)

theorem messages_shown_to_members_witness:
  "\<exists>s ms. s = message_run demo_events empty_message_state
     \<and> fst (message_body (demo_menv 5000) (R_GetHistory ''g'' 3 10) (reader_auth ''alice'') s) = Inr (Rsp_messages ms)
     \<and> map mg_message_id ms = [8, 7]
     \<and> (user_id (reader_auth ''alice'') = kSystemUserId \<or> active_member s (mg_conversation_id (hd ms)) (user_id (reader_auth ''alice''))
        \<or> mg_sender_id (hd ms) = user_id (reader_auth ''alice''))"
proof -
  let ?s = "message_run demo_events empty_message_state" and ?e = "demo_menv 5000" and ?a = "reader_auth ''alice''"
  have rows: "history_rows ''g'' 3 (messages (mv_db ?s)) = rev (take 2 demo_rows)"
    by (simp add: history_rows_def demo_state_db demo_rows_def by_seq_desc_def demo_message_row word_le_nat_alt)
  obtain ms b where ms: "fst (GetHistory ?e ?a ''g'' 3 10 ?s) = Inr (ms, b)"
    and refs: "map msg_ref ms = map row_ref (take 10 (rev (take 2 demo_rows)))"
    using GetHistory_page [of 10 3 ?e "''g''" ?a ?s] demo_require_member [of 5000 0] rows
    by (auto simp: demo_menv_up demo_user)
  have mids: "map mg_message_id ms = [8, 7]"
    using arg_cong [OF refs, of "map fst"] by (simp add: demo_rows_def row_ref_def msg_ref_def o_def demo_text_def empty_message_def)
  have rsp: "fst (message_body ?e (R_GetHistory ''g'' 3 10) ?a ?s) = Inr (Rsp_messages ms)"
    using ms by (simp add: fst_with_rsp)
  have "hd ms \<in> set ms" using mids by (cases ms) auto
  moreover have "\<And>idx k c l d. d \<in> set (me_es_search ?e idx k c l) \<Longrightarrow> ed_chat_session_id d = c"
    by (simp add: demo_menv_def)
  ultimately have "user_id ?a = kSystemUserId \<or> active_member ?s (mg_conversation_id (hd ms)) (user_id ?a)
      \<or> mg_sender_id (hd ms) = user_id ?a"
    by (intro messages_shown_to_members [OF refl _ rsp])
  with rsp mids show ?thesis by (intro exI conjI) (rule refl)
qed

section \<open>The pin limit\<close>

text \<open>A pin request whose count of the existing pins can be read.\<close>

fun pin_count_readable :: "message_event \<Rightarrow> bool" where
  "pin_count_readable (E_rpc env rid md (R_PinMessage c m)) = me_up env 2 0"
| "pin_count_readable _ = True"

definition pins_of :: "message_state \<Rightarrow> cid \<Rightarrow> pin_row list" where
  "pins_of s c = filter (\<lambda>p. pn_session_id p = c) (pins (mv_db s))"

lemma pins_of_step:
  assumes "\<forall>c. length (pins_of s c) \<le> 10" and "pin_count_readable ev"
  shows "\<forall>c. length (pins_of (message_step ev s) c) \<le> 10"
proof (rule message_step_pins [of ev s])
  assume "\<And>c. length (filter (\<lambda>p. pn_session_id p = c) (pins (mv_db (message_step ev s))))
        \<le> length (filter (\<lambda>p. pn_session_id p = c) (pins (mv_db s)))"
  then show ?thesis using assms(1) by (auto simp: pins_of_def intro: order_trans)
next
  fix p env rid md mid
  assume ev: "ev = E_rpc env rid md (R_PinMessage (pn_session_id p) mid)"
    and pins: "pins (mv_db (message_step ev s)) = pins (mv_db s) @ [p]"
    and count: "count_by_conversation (me_up env 2 0) (pn_session_id p) (pins (mv_db s)) < kPinLimit"
  have "length (pins_of s (pn_session_id p)) < 10"
    using count assms(2) ev by (simp add: count_by_conversation_def pins_of_def kPinLimit_def)
  then show ?thesis using assms(1) by (auto simp: pins_of_def pins)
qed

text \<open>
  A conversation never has more than ten pinned messages, in any run in which every pin
  request can read the number of existing pins; the other calls may fail at will.
\<close>

theorem at_most_ten_pins:
  assumes "\<forall>ev \<in> set evs. pin_count_readable ev"
  shows "length (filter (\<lambda>p. pn_session_id p = c) (pins (mv_db (message_run evs empty_message_state)))) \<le> 10"
proof -
  have "\<forall>c. length (pins_of (message_run evs empty_message_state) c) \<le> 10"
    by (rule message_run_invariant [of "\<lambda>s. \<forall>c. length (pins_of s c) \<le> 10"])
      (use assms pins_of_step in \<open>auto simp: pins_of_def empty_message_state_def empty_message_db_def\<close>)
  then show ?thesis by (simp add: pins_of_def)
qed

theorem at_most_ten_pins_witness:
  "length (filter (\<lambda>p. pn_session_id p = ''g'') (pins (mv_db (message_run
     (demo_events @ [E_rpc (demo_menv 5000) ''r'' (reader_md ''owen'') (R_PinMessage ''g'' 7)]) empty_message_state)))) \<le> 10"
  by (rule at_most_ten_pins) (simp add: demo_events_def demo_menv_up)

text \<open>Without it the limit does not hold: a failed count reads as zero, and the pin is stored.\<close>

lemma pin_limit_passed_when_count_fails:
  assumes "conv_role_m env 0 c (user_id auth) s = Inr OWNER"
    and "select_by_id (me_up env 1 0) (of_int m) (messages (mv_db s)) = Some msg" "ms_session_id msg = c"
    and "\<not> me_up env 2 0" "me_up env 3 0" "(c, of_int m) \<notin> pn_key ` set (pins (mv_db s))"
  shows "length (pins (mv_db (snd (PinMessage env auth c m s)))) = Suc (length (pins (mv_db s)))"
  using assms by (auto simp: PinMessage_def may_pin_def count_by_conversation_def kPinLimit_def
      MessagePinTable_insert_def persist_def set_pins_def frame_simps pn_key_def image_iff)

section \<open>Recall and search\<close>

lemma RecallMessage_es [simp]: "mv_es (snd (RecallMessage env auth c m s)) = mv_es s"
proof (cases "snd (RecallMessage env auth c m s) = s")
  case False
  then show ?thesis using RecallMessage_change [OF False]
    by (auto simp: publish_recalled_notify_def publish_push_def set_messages_def split: prod.splits)
qed simp

lemma RecallMessage_members [simp]: "mv_members (snd (RecallMessage env auth c m s)) = mv_members s"
proof (cases "snd (RecallMessage env auth c m s) = s")
  case False
  then show ?thesis using RecallMessage_change [OF False]
    by (auto simp: publish_recalled_notify_def publish_push_def set_messages_def split: prod.splits)
qed simp

text \<open>
  A recall does not reach the search index. Whatever SearchMessages returned before a
  RecallMessage it returns after it, text and normal status included, for every caller, keyword and
  search engine; the search restricts to status 0, but nothing ever writes another status.
\<close>

theorem recalled_text_still_searchable:
  "fst (SearchMessages env' auth' cid' keyword limit (snd (RecallMessage env auth cid mid s))) =
   fst (SearchMessages env' auth' cid' keyword limit s)"
  by (simp add: SearchMessages_def require_member_m_def split: option.splits)

end
