(* ===== verification/Seq_Backfill.thy ===== *)
theory Seq_Backfill
  imports Send_Race Message_Store
begin

text \<open>
  The message service restores the sequence counters of the transmite service when it starts:
  \<open>backfill_seq_from_db\<close> raises each Redis counter to one more than the largest number in the
  database. Shown: after it no stored conversation or inbox number is given out again.
\<close>

lemma foldl_max_ge: "a \<le> foldl max a xs \<and> (\<forall>x \<in> set xs. x \<le> foldl max a (xs :: u64 list))"
proof (induction xs arbitrary: a)
  case Nil
  then show ?case by simp
next
  case (Cons x xs)
  have "max a x \<le> foldl max (max a x) xs" using Cons.IH by blast
  then show ?case using Cons.IH [of "max a x"] by auto
qed

lemma max_u64_ge: "x \<in> set xs \<Longrightarrow> x \<le> max_u64 xs"
  using foldl_max_ge [of 0 xs] by (simp add: max_u64_def)

lemma foldl_max_in: "foldl max a xs \<in> insert a (set (xs :: u64 list))"
proof (induction xs arbitrary: a)
  case Nil
  then show ?case by simp
next
  case (Cons x xs)
  then show ?case using Cons.IH [of "max a x"] by (auto simp: max_def split: if_splits)
qed

lemma max_u64_in: "max_u64 xs = 0 \<or> max_u64 xs \<in> set xs"
  using foldl_max_in [of 0 xs] by (auto simp: max_u64_def)

lemma backfill_counter_spec:
  assumes "counters_wf m"
  shows "counters_wf (backfill_seq ok k base m) \<and> counters_le m (backfill_seq ok k base m)
    \<and> (ok \<longrightarrow> unat base \<le> cnum (backfill_seq ok k base m) k)"
  using assms unat_u64 [of base]
  by (auto simp: backfill_seq_def counters_wf_def counters_le_def cnum_def u64_to_string_def
      split: option.splits)

lemma backfill_all_spec:
  assumes "counters_wf m" and "\<And>i. ok i"
  shows "counters_wf (backfill_all ok i xs m) \<and> counters_le m (backfill_all ok i xs m)
    \<and> (\<forall>(k, mx) \<in> set xs. 0 < mx \<longrightarrow> unat (mx + 1) \<le> cnum (backfill_all ok i xs m) k)"
  using assms(1)
proof (induction xs arbitrary: i m)
  case Nil
  then show ?case by simp
next
  case (Cons p xs)
  obtain k mx where p: "p = (k, mx)" by fastforce
  let ?m = "if 0 < mx then backfill_seq (ok i) k (mx + 1) m else m"
  have m: "counters_wf ?m" "counters_le m ?m" "0 < mx \<longrightarrow> unat (mx + 1) \<le> cnum ?m k"
    using backfill_counter_spec [OF Cons.prems, of "ok i" k "mx + 1"] assms(2) Cons.prems by auto
  note IH = Cons.IH [OF m(1), of "Suc i"]
  have "0 < mx \<longrightarrow> unat (mx + 1) \<le> cnum (backfill_all ok (Suc i) xs ?m) k"
    using m(3) IH by (auto simp: counters_le_def intro: order_trans)
  then show ?case using IH m(2) counters_le_trans by (auto simp: p)
qed

lemma unat_plus_one: "x < - 1 \<Longrightarrow> unat (x + 1) = unat x + 1" for x :: u64
proof -
  assume "x < - 1"
  then have "unat x + 1 < 2 ^ 64" by (simp add: word_less_nat_alt unsigned_minus_1_eq_mask mask_eq_exp_minus_1)
  then show ?thesis by (simp add: unat_word_ariths(1))
qed

text \<open>The number that follows is above every number whose maximum was backfilled.\<close>

lemma next_after_backfill:
  assumes "counters_wf m" and "\<And>i. ok i" and "(k, max_u64 xs) \<in> set ps" and "\<And>x. x \<in> set xs \<Longrightarrow> x < - 1"
    and "next_seq up k (backfill_all ok 0 ps m) = (Some v, m')" and "x \<in> set xs"
  shows "x < v"
proof -
  let ?m = "backfill_all ok 0 ps m"
  have spec: "counters_wf ?m" "0 < max_u64 xs \<longrightarrow> unat (max_u64 xs + 1) \<le> cnum ?m k"
    using backfill_all_spec [of m ok 0 ps, OF assms(1,2)] assms(3) by auto
  have v: "unat v = cnum ?m k + 1" using next_seq_spec [OF spec(1) assms(5)] by blast
  have le: "x \<le> max_u64 xs" using assms(6) by (rule max_u64_ge)
  show ?thesis
  proof (cases "0 < max_u64 xs")
    case True
    then have "max_u64 xs < - 1" using max_u64_in [of xs] assms(4) by auto
    then have "unat x < unat v" using spec(2) True v le unat_plus_one [of "max_u64 xs"] by (simp add: word_le_nat_alt)
    then show ?thesis by (simp add: word_less_nat_alt)
  next
    case False
    then have "x = 0" using le by (simp add: word_neq_0_conv [symmetric])
    then show ?thesis using v by (simp add: word_less_nat_alt)
  qed
qed


definition demo_stored :: message_db where
  "demo_stored = empty_message_db\<lparr>messages := [demo_row], timelines := timeline_rows (demo_text 7 1 ''alice'' ''hi'')\<rparr>"

lemma demo_backfill: "backfill_seq_from_db (demo_menv 0) True demo_stored (\<lambda>_. None, \<lambda>_. None) =
    ((\<lambda>_. None)(''g'' \<mapsto> nat_to_string 2), (\<lambda>_. None)(''alice'' \<mapsto> nat_to_string 2, ''owen'' \<mapsto> nat_to_string 2))"
  by (simp add: backfill_seq_from_db_def demo_menv_up demo_stored_def select_max_seq_by_session_def demo_row_def
      select_max_user_seq_def timeline_rows_def demo_text_def row_of_message_def Message_def empty_message_def
      session_rows_def max_u64_def backfill_seq_def u64_to_string_def empty_message_db_def)


end
