(* ===== verification/Presence_Redis.thy ===== *)
theory Presence_Redis
  imports Redis_Hash
begin

text \<open>
  The Redis keys the push and the presence service share (common/utils/redis_keys.hpp and the
  literals of presence/source/presence_server.h): one hash per device of a user, and the sets of
  subscribers and of typing users. A key is the string the code builds. Expiry is an operation of
  its own; a set that becomes empty is gone. A \<open>SCAN\<close> with a pattern that ends in a star gives every
  key with that prefix; user ids hold no pattern characters.
\<close>

type_synonym redis_hash = "(string \<times> string) list"

record presence_redis =
  pz_hashes :: "(string \<times> redis_hash) list"
  pz_sets :: "(string \<times> string list) list"

definition no_presence :: presence_redis where
  "no_presence = \<lparr>pz_hashes = [], pz_sets = []\<rparr>"

definition fields_of :: "string \<Rightarrow> (string \<times> 'a list) list \<Rightarrow> 'a list" where
  "fields_of k al = (case map_of al k of None \<Rightarrow> [] | Some v \<Rightarrow> v)"

definition redis_hset :: "string \<Rightarrow> string \<Rightarrow> string \<Rightarrow> presence_redis \<Rightarrow> presence_redis" where
  "redis_hset k f v r = r\<lparr>pz_hashes := hset k (hset f v (fields_of k (pz_hashes r))) (pz_hashes r)\<rparr>"

definition redis_hget :: "string \<Rightarrow> string \<Rightarrow> presence_redis \<Rightarrow> string option" where
  "redis_hget k f r = map_of (fields_of k (pz_hashes r)) f"

definition redis_expire_key :: "string \<Rightarrow> presence_redis \<Rightarrow> presence_redis" where
  "redis_expire_key k r = r\<lparr>pz_hashes := hdel k (pz_hashes r), pz_sets := hdel k (pz_sets r)\<rparr>"

definition redis_smembers :: "string \<Rightarrow> presence_redis \<Rightarrow> string list" where
  "redis_smembers k r = fields_of k (pz_sets r)"

definition redis_sadd :: "string \<Rightarrow> string \<Rightarrow> presence_redis \<Rightarrow> presence_redis" where
  "redis_sadd k m r = r\<lparr>pz_sets := hset k (List.insert m (fields_of k (pz_sets r))) (pz_sets r)\<rparr>"

definition redis_srem :: "string \<Rightarrow> string \<Rightarrow> presence_redis \<Rightarrow> presence_redis" where
  "redis_srem k m r =
     (let ms = filter (\<lambda>x. x \<noteq> m) (fields_of k (pz_sets r))
      in if k \<notin> fst ` set (pz_sets r) then r
         else r\<lparr>pz_sets := (if ms = [] then hdel k (pz_sets r) else hset k ms (pz_sets r))\<rparr>)"

definition has_prefix_key :: "string \<Rightarrow> string \<Rightarrow> bool" where
  "has_prefix_key p k = (take (length p) k = p)"

definition scan_hashes :: "string \<Rightarrow> presence_redis \<Rightarrow> string list" where
  "scan_hashes p r = filter (has_prefix_key p) (map fst (pz_hashes r))"

definition scan_sets :: "string \<Rightarrow> presence_redis \<Rightarrow> string list" where
  "scan_sets p r = filter (has_prefix_key p) (map fst (pz_sets r))"

definition presence_device_prefix :: "string \<Rightarrow> string" where
  "presence_device_prefix uid = ''im:presence:device:'' @ hash_tag uid @ '':''"

definition presence_device_key :: "string \<Rightarrow> string \<Rightarrow> string" where
  "presence_device_key uid did = ''im:presence:device:'' @ hash_tag uid @ '':'' @ did"

definition presence_sub_key :: "string \<Rightarrow> string" where
  "presence_sub_key uid = ''im:presence:sub:'' @ hash_tag uid"

lemma fields_of_hset [simp]: "fields_of k (hset k' v al) = (if k = k' then v else fields_of k al)"
  by (simp add: fields_of_def)

lemma fields_of_hdel [simp]: "fields_of k (hdel k' al) = (if k = k' then [] else fields_of k al)"
  by (simp add: fields_of_def)

lemma hget_hset [simp]:
  "redis_hget k f (redis_hset k' f' v r) = (if k = k' \<and> f = f' then Some v else redis_hget k f r)"
  by (simp add: redis_hget_def redis_hset_def)

lemma smembers_sadd:
  "set (redis_smembers k (redis_sadd k' m r)) = set (redis_smembers k r) \<union> (if k = k' then {m} else {})"
  by (auto simp: redis_smembers_def redis_sadd_def)

lemma smembers_srem:
  "set (redis_smembers k (redis_srem k' m r)) = set (redis_smembers k r) - (if k = k' then {m} else {})"
proof -
  have "k' \<notin> fst ` set (pz_sets r) \<Longrightarrow> fields_of k' (pz_sets r) = []"
    by (simp add: fields_of_def map_of_eq_None_iff [THEN iffD2])
  then show ?thesis by (auto simp: redis_smembers_def redis_srem_def Let_def filter_empty_conv)
qed

lemma set_scan_hashes: "k \<in> set (scan_hashes p r) \<longleftrightarrow> has_prefix_key p k \<and> k \<in> fst ` set (pz_hashes r)"
  by (auto simp: scan_hashes_def)

lemma has_prefix_key_append [simp]: "has_prefix_key p (p @ x)"
  by (simp add: has_prefix_key_def)

lemma device_key_prefix [simp]: "has_prefix_key (presence_device_prefix u) (presence_device_key u d)"
  using has_prefix_key_append [of "presence_device_prefix u" d]
  by (simp add: presence_device_prefix_def presence_device_key_def)

end
