(* ===== verification/Presence.thy ===== *)
theory Presence
  imports Presence_Redis Rpc Notify_Proto "HOL-Library.Char_ord" "HOL-Library.List_Lexorder"
begin

text \<open>
  The presence service (presence/source/presence_server.h): the aggregator over the device hashes of
  a user, the five RPCs and one sweep of the change scanner. The pushes it asks the push service for
  are recorded; their answers are not used. \<open>pn_up\<close> says which Redis calls complete; a call that
  does not throws. The conversions \<open>std::stoi\<close> and \<open>std::stoll\<close> throw as the C++ library does.
\<close>

section \<open>Types\<close>

definition PRESENCE_UNSPECIFIED :: int where "PRESENCE_UNSPECIFIED = 0"
definition ONLINE :: int where "ONLINE = 1"
definition AWAY :: int where "AWAY = 2"
definition BUSY :: int where "BUSY = 3"
definition OFFLINE :: int where "OFFLINE = 4"
definition INVISIBLE :: int where "INVISIBLE = 5"

lemmas presence_state_defs = PRESENCE_UNSPECIFIED_def ONLINE_def AWAY_def BUSY_def OFFLINE_def INVISIBLE_def

definition PresenceState_Name :: "int \<Rightarrow> string" where
  "PresenceState_Name s =
     (if s = PRESENCE_UNSPECIFIED then ''PRESENCE_UNSPECIFIED'' else if s = ONLINE then ''ONLINE''
      else if s = AWAY then ''AWAY'' else if s = BUSY then ''BUSY'' else if s = OFFLINE then ''OFFLINE''
      else if s = INVISIBLE then ''INVISIBLE'' else [])"

record device_presence =
  dp_device_id :: string
  dp_platform :: int
  dp_state :: int
  dp_last_active_at_ms :: int

record presence =
  pp_user_id :: uid
  pp_aggregated_state :: int
  pp_last_active_at_ms :: int
  pp_devices :: "device_presence list"

record presence_env =
  pn_now_ms :: int
  pn_up :: "nat \<Rightarrow> string \<Rightarrow> bool"
  pn_push_channel :: bool

record presence_svc =
  sv_redis :: presence_redis
  sv_pushes :: "(uid \<times> notify_message) list"

definition redis_error :: exn where
  "redis_error = StdException ''redis''"

section \<open>PresenceAggregator\<close>

definition int64_min :: int where "int64_min = - 9223372036854775808"
definition int64_max :: int where "int64_max = 9223372036854775807"

definition stoll_unsigned :: "int \<Rightarrow> string \<Rightarrow> stoi_error + int" where
  "stoll_unsigned sign s =
     (let ds = takeWhile is_digit s; v = sign * int (digits_val ds)
      in if ds = [] then Inl Invalid_argument
         else if v < int64_min \<or> int64_max < v then Inl Out_of_range
         else Inr v)"

definition stoll :: "string \<Rightarrow> stoi_error + int" where
  "stoll s =
     (case dropWhile is_space s of
        [] \<Rightarrow> Inl Invalid_argument
      | c # cs \<Rightarrow> if c = CHR ''-'' then stoll_unsigned (- 1) cs
                  else if c = CHR ''+'' then stoll_unsigned 1 cs
                  else stoll_unsigned 1 (c # cs))"

text \<open>The text after the last colon.\<close>

definition device_of_key :: "string \<Rightarrow> string" where
  "device_of_key key =
     (if CHR '':'' \<in> set key then rev (takeWhile (\<lambda>c. c \<noteq> CHR '':'') (rev key)) else key)"

definition state_rank :: "int \<Rightarrow> int" where
  "state_rank s = (if s = ONLINE then 0 else if s = BUSY then 1 else if s = AWAY then 2 else 3)"

definition kPresenceStaleMs :: int where
  "kPresenceStaleMs = 125000"

text \<open>
  One device hash: \<open>Inl\<close> when a conversion throws, \<open>None\<close> when the device is skipped (no state field,
  or last active too long ago).
\<close>

definition read_device :: "int \<Rightarrow> string \<Rightarrow> presence_redis \<Rightarrow> stoi_error + device_presence option" where
  "read_device now_ms key r =
     (case redis_hget key ''state'' r of
        None \<Rightarrow> Inr None
      | Some st \<Rightarrow>
          (case stoi st of
             Inl e \<Rightarrow> Inl e
           | Inr s \<Rightarrow>
               (case map_option stoll (redis_hget key ''last_active_at_ms'' r) of
                  Some (Inl e) \<Rightarrow> Inl e
                | l \<Rightarrow>
                    let last = (case l of Some (Inr ms) \<Rightarrow> Some ms | _ \<Rightarrow> None) in
                    if (case last of None \<Rightarrow> False | Some ms \<Rightarrow> kPresenceStaleMs < now_ms - ms) then Inr None
                    else (case map_option stoi (redis_hget key ''platform'' r) of
                            Some (Inl e) \<Rightarrow> Inl e
                          | pl \<Rightarrow>
                              Inr (Some \<lparr>dp_device_id = device_of_key key,
                                    dp_platform = (case pl of Some (Inr x) \<Rightarrow> x | _ \<Rightarrow> 0),
                                    dp_state = s,
                                    dp_last_active_at_ms = (case last of None \<Rightarrow> 0 | Some ms \<Rightarrow> ms)\<rparr>)))))"

text \<open>The loop keeps the best rank and the latest activity.\<close>

fun aggregate_loop ::
  "presence_env \<Rightarrow> presence_redis \<Rightarrow> string list \<Rightarrow> int \<Rightarrow> int \<Rightarrow> device_presence list \<Rightarrow>
     exn + (int \<times> int \<times> device_presence list)" where
  "aggregate_loop env r [] best_rank best_active devs = Inr (best_rank, best_active, devs)"
| "aggregate_loop env r (key # keys) best_rank best_active devs =
     (if \<not> pn_up env 1 key then Inl redis_error
      else case read_device (pn_now_ms env) key r of
             Inl e \<Rightarrow> Inl (StdException ''stoi'')
           | Inr None \<Rightarrow> aggregate_loop env r keys best_rank best_active devs
           | Inr (Some d) \<Rightarrow>
               let rank = state_rank (dp_state d) in
               aggregate_loop env r keys
                 (if rank < best_rank \<or> (rank = best_rank \<and> dp_state d = ONLINE) then rank else best_rank)
                 (if best_active < dp_last_active_at_ms d then dp_last_active_at_ms d else best_active)
                 (devs @ [d]))"

definition aggregated_state :: "int \<Rightarrow> int" where
  "aggregated_state best_rank =
     (if 3 \<le> best_rank then OFFLINE else if best_rank = 0 then ONLINE else if best_rank = 1 then BUSY
      else if best_rank = 2 then AWAY else OFFLINE)"

definition aggregate :: "presence_env \<Rightarrow> uid \<Rightarrow> presence_redis \<Rightarrow> exn + presence" where
  "aggregate env uid r =
     (if \<not> pn_up env 0 uid then Inl redis_error
      else let keys = scan_hashes (presence_device_prefix uid) r in
           if keys = [] then Inr \<lparr>pp_user_id = uid, pp_aggregated_state = OFFLINE, pp_last_active_at_ms = 0, pp_devices = []\<rparr>
           else case aggregate_loop env r keys 999 0 [] of
                  Inl e \<Rightarrow> Inl e
                | Inr (rank, active, devs) \<Rightarrow>
                    Inr \<lparr>pp_user_id = uid, pp_aggregated_state = aggregated_state rank,
                         pp_last_active_at_ms = active, pp_devices = devs\<rparr>)"

definition sub_prefix :: string where
  "sub_prefix = ''im:presence:sub:''"

definition subscribed_uids :: "presence_env \<Rightarrow> presence_redis \<Rightarrow> exn + uid list" where
  "subscribed_uids env r =
     (if \<not> pn_up env 2 [] then Inl redis_error
      else Inr (remdups_adj (sort (map (drop (length sub_prefix)) (scan_sets sub_prefix r)))))"

section \<open>The RPCs\<close>

definition GetPresence :: "presence_env \<Rightarrow> auth_context \<Rightarrow> uid \<Rightarrow> presence_svc \<Rightarrow> (exn + presence) \<times> presence_svc" where
  "GetPresence env auth uid s = (aggregate env uid (sv_redis s), s)"

fun batch_presence :: "presence_env \<Rightarrow> presence_redis \<Rightarrow> uid list \<Rightarrow> exn + (uid \<times> presence) list" where
  "batch_presence env r [] = Inr []"
| "batch_presence env r (u # us) =
     (case aggregate env u r of
        Inl e \<Rightarrow> Inl e
      | Inr p \<Rightarrow> map_sum id (\<lambda>ps. (u, p) # ps) (batch_presence env r us))"

definition BatchGetPresence ::
  "presence_env \<Rightarrow> auth_context \<Rightarrow> uid list \<Rightarrow> presence_svc \<Rightarrow> (exn + (uid \<times> presence) list) \<times> presence_svc" where
  "BatchGetPresence env auth uids s = (batch_presence env (sv_redis s) uids, s)"

text \<open>The first call that throws leaves the handler; what was written before stays.\<close>

fun each_target ::
  "(uid \<Rightarrow> bool) \<Rightarrow> (uid \<Rightarrow> presence_redis \<Rightarrow> presence_redis) \<Rightarrow> uid list \<Rightarrow> presence_redis \<Rightarrow>
     (exn + unit) \<times> presence_redis" where
  "each_target up f [] r = (Inr (), r)"
| "each_target up f (t # ts) r = (if up t then each_target up f ts (f t r) else (Inl redis_error, r))"

definition SubscribePresence ::
  "presence_env \<Rightarrow> auth_context \<Rightarrow> uid list \<Rightarrow> presence_svc \<Rightarrow> (exn + unit) \<times> presence_svc" where
  "SubscribePresence env auth targets s =
     (case each_target (pn_up env 3) (\<lambda>t. redis_sadd (sub_prefix @ t) (user_id auth)) targets (sv_redis s) of
        (x, r) \<Rightarrow> (x, s\<lparr>sv_redis := r\<rparr>))"

definition UnsubscribePresence ::
  "presence_env \<Rightarrow> auth_context \<Rightarrow> uid list \<Rightarrow> presence_svc \<Rightarrow> (exn + unit) \<times> presence_svc" where
  "UnsubscribePresence env auth targets s =
     (case each_target (pn_up env 4) (\<lambda>t. redis_srem (sub_prefix @ t) (user_id auth)) targets (sv_redis s) of
        (x, r) \<Rightarrow> (x, s\<lparr>sv_redis := r\<rparr>))"

definition typing_key :: "cid \<Rightarrow> string" where
  "typing_key cid = ''im:presence:typing:'' @ cid"

definition typing_write :: "presence_env \<Rightarrow> uid \<Rightarrow> cid \<Rightarrow> bool \<Rightarrow> presence_redis \<Rightarrow> presence_redis" where
  "typing_write env uid cid is_typing r =
     (if is_typing then redis_sadd (typing_key cid) (uid @ '':'' @ int_to_string (pn_now_ms env)) r
      else fold (\<lambda>m. redis_srem (typing_key cid) m)
             (filter (has_prefix_key (uid @ '':'')) (redis_smembers (typing_key cid) r)) r)"

text \<open>The other user of a private conversation id \<open>p_lo_hi\<close> that names the caller.\<close>

definition typing_target :: "uid \<Rightarrow> cid \<Rightarrow> uid option" where
  "typing_target uid cid =
     (if \<not> has_prefix_key ''p_'' cid then None
      else let rest = drop 2 cid; lo = takeWhile (\<lambda>c. c \<noteq> CHR ''_'') rest; hi = drop (Suc (length lo)) rest in
           if CHR ''_'' \<notin> set rest then None
           else if lo \<noteq> uid \<and> hi \<noteq> uid then None
           else Some (if lo = uid then hi else lo))"

definition SendTyping ::
  "presence_env \<Rightarrow> auth_context \<Rightarrow> cid \<Rightarrow> bool \<Rightarrow> presence_svc \<Rightarrow> (exn + unit) \<times> presence_svc" where
  "SendTyping env auth cid is_typing s =
     (if \<not> pn_up env 5 cid then (Inl redis_error, s)
      else let s1 = s\<lparr>sv_redis := typing_write env (user_id auth) cid is_typing (sv_redis s)\<rparr> in
           (case typing_target (user_id auth) cid of
              None \<Rightarrow> (Inr (), s1)
            | Some target \<Rightarrow>
                if \<not> pn_push_channel env then (Inr (), s1)
                else (Inr (), s1\<lparr>sv_pushes := sv_pushes s1 @
                        [(target, notify TYPING_NOTIFY (Typing (user_id auth) cid is_typing))]\<rparr>)))"

text \<open>
  \<open>GetPresence\<close> and \<open>BatchGetPresence\<close> turn every exception into a header, as \<open>HANDLE_RPC\<close> does. The
  other three handlers catch only \<open>ServiceError\<close>: \<open>None\<close> is a handler left by another exception.
\<close>

definition catch_service_error ::
  "rpc_metadata option \<Rightarrow> string \<Rightarrow> (auth_context \<Rightarrow> 's \<Rightarrow> (exn + unit) \<times> 's) \<Rightarrow> 's \<Rightarrow> response_header option \<times> 's" where
  "catch_service_error md rid body s =
     (case extract_auth md of
        Inl e \<Rightarrow> (Some (error_header rid e), s)
      | Inr auth \<Rightarrow>
          (case body auth s of
             (Inl (ServiceError c m), s') \<Rightarrow> (Some (error_header rid (ServiceError c m)), s')
           | (Inl (StdException m), s') \<Rightarrow> (None, s')
           | (Inr _, s') \<Rightarrow> (Some (ok_header rid), s')))"

section \<open>The change scanner\<close>

definition notify_subscribers :: "presence_env \<Rightarrow> uid \<Rightarrow> presence \<Rightarrow> presence_svc \<Rightarrow> (exn + unit) \<times> presence_svc" where
  "notify_subscribers env uid p s =
     (if \<not> pn_up env 6 uid then (Inl redis_error, s)
      else let subs = redis_smembers (sub_prefix @ uid) (sv_redis s) in
           if subs = [] \<or> \<not> pn_push_channel env then (Inr (), s)
           else (Inr (), s\<lparr>sv_pushes := sv_pushes s @
                   map (\<lambda>u. (u, notify PRESENCE_CHANGE_NOTIFY
                                 (Presence_change uid (PresenceState_Name (pp_aggregated_state p))))) subs\<rparr>))"

text \<open>One sweep over the subscribed users; an exception ends it.\<close>

fun scan_users ::
  "presence_env \<Rightarrow> uid list \<Rightarrow> (uid \<times> int) list \<Rightarrow> presence_svc \<Rightarrow> (exn + unit) \<times> (uid \<times> int) list \<times> presence_svc" where
  "scan_users env [] last_state s = (Inr (), last_state, s)"
| "scan_users env (u # us) last_state s =
     (case aggregate env u (sv_redis s) of
        Inl e \<Rightarrow> (Inl e, last_state, s)
      | Inr p \<Rightarrow>
          if map_of last_state u = Some (pp_aggregated_state p) then scan_users env us last_state s
          else (case notify_subscribers env u p s of
                  (Inl e, s1) \<Rightarrow> (Inl e, hset u (pp_aggregated_state p) last_state, s1)
                | (Inr _, s1) \<Rightarrow> scan_users env us (hset u (pp_aggregated_state p) last_state) s1))"

definition change_scan ::
  "presence_env \<Rightarrow> (uid \<times> int) list \<Rightarrow> presence_svc \<Rightarrow> (uid \<times> int) list \<times> presence_svc" where
  "change_scan env last_state s =
     (case subscribed_uids env (sv_redis s) of
        Inl e \<Rightarrow> (last_state, s)
      | Inr us \<Rightarrow> snd (scan_users env us last_state s))"

end
