(* ===== verification/Connection_Table.thy ===== *)
theory Connection_Table
  imports Cpp_Strings
begin

text \<open>
  The connection table of the push service (push/source/connection.hpp): for each user and device
  the set of its WebSocket connections, and for each connection the identity it authenticated
  with. A connection is a number; closing one is a value the operations return. The tables agree,
  and a device has at most one connection, as long as no connection authenticates twice.
\<close>

type_synonym conn = nat
type_synonym did = string

record client =
  cl_uid :: uid
  cl_device_id :: did
  cl_jwt_jti :: string
  cl_last_active_ts :: int

text \<open>An absent device entry and an empty set read alike: every method erases the sets it empties.\<close>

record connection_table =
  ct_devices :: "uid \<times> did \<Rightarrow> conn list"
  ct_clients :: "(conn \<times> client) list"

definition empty_connections :: connection_table where
  "empty_connections = \<lparr>ct_devices = (\<lambda>_. []), ct_clients = []\<rparr>"

text \<open>\<open>insert\<close> closes the old connections of the device and gives them as its result.\<close>

definition Connection_insert ::
  "int \<Rightarrow> conn \<Rightarrow> uid \<Rightarrow> did \<Rightarrow> string \<Rightarrow> connection_table \<Rightarrow> conn list \<times> connection_table" where
  "Connection_insert now c uid did jti t =
     (let olds = ct_devices t (uid, did);
          clients = filter (\<lambda>e. fst e \<notin> set olds) (ct_clients t)
      in (olds, t\<lparr>ct_devices := (ct_devices t)((uid, did) := [c]),
                  ct_clients := (c, \<lparr>cl_uid = uid, cl_device_id = did, cl_jwt_jti = jti,
                                     cl_last_active_ts = now\<rparr>) # filter (\<lambda>e. fst e \<noteq> c) clients\<rparr>))"

definition Connection_connections :: "uid \<Rightarrow> did \<Rightarrow> connection_table \<Rightarrow> conn list" where
  "Connection_connections uid did t = ct_devices t (uid, did)"

definition Connection_client :: "conn \<Rightarrow> connection_table \<Rightarrow> (uid \<times> did \<times> string) option" where
  "Connection_client c t =
     map_option (\<lambda>cl. (cl_uid cl, cl_device_id cl, cl_jwt_jti cl)) (map_of (ct_clients t) c)"

text \<open>One mutex per connection of the device that has a client entry.\<close>

definition Connection_send_mutexes :: "uid \<Rightarrow> did \<Rightarrow> connection_table \<Rightarrow> conn list" where
  "Connection_send_mutexes uid did t =
     filter (\<lambda>c. map_of (ct_clients t) c \<noteq> None) (ct_devices t (uid, did))"

definition Connection_touch :: "int \<Rightarrow> conn \<Rightarrow> connection_table \<Rightarrow> connection_table" where
  "Connection_touch now c t =
     t\<lparr>ct_clients := map (\<lambda>e. if fst e = c then (c, (snd e)\<lparr>cl_last_active_ts := now\<rparr>) else e) (ct_clients t)\<rparr>"

definition Connection_remove :: "conn \<Rightarrow> connection_table \<Rightarrow> connection_table" where
  "Connection_remove c t =
     (case map_of (ct_clients t) c of
        None \<Rightarrow> t
      | Some cl \<Rightarrow>
          let k = (cl_uid cl, cl_device_id cl)
          in t\<lparr>ct_devices := (ct_devices t)(k := filter (\<lambda>x. x \<noteq> c) (ct_devices t k)),
               ct_clients := filter (\<lambda>e. fst e \<noteq> c) (ct_clients t)\<rparr>)"

text \<open>\<open>reap\<close>: the idle connections, in the order of the table.\<close>

definition Connection_reap ::
  "int \<Rightarrow> int \<Rightarrow> connection_table \<Rightarrow> (uid \<times> conn) list \<times> connection_table" where
  "Connection_reap now ttl_sec t =
     (let idle = filter (\<lambda>e. ttl_sec < now - cl_last_active_ts (snd e)) (ct_clients t)
      in (map (\<lambda>e. (cl_uid (snd e), fst e)) idle, foldl (\<lambda>t e. Connection_remove (fst e) t) t idle))"

section \<open>The tables agree\<close>

definition conns_ok :: "connection_table \<Rightarrow> bool" where
  "conns_ok t = (distinct (map fst (ct_clients t))
     \<and> (\<forall>k c. c \<in> set (ct_devices t k) \<longleftrightarrow>
          (\<exists>cl. map_of (ct_clients t) c = Some cl \<and> (cl_uid cl, cl_device_id cl) = k))
     \<and> (\<forall>k. length (ct_devices t k) \<le> 1))"

lemma conns_ok_agree:
  "conns_ok t \<Longrightarrow> c \<in> set (ct_devices t k) \<longleftrightarrow>
     (\<exists>cl. map_of (ct_clients t) c = Some cl \<and> (cl_uid cl, cl_device_id cl) = k)"
  unfolding conns_ok_def by blast

lemma conns_ok_single: "conns_ok t \<Longrightarrow> length (ct_devices t k) \<le> 1"
  unfolding conns_ok_def by blast

lemma conns_ok_distinct: "conns_ok t \<Longrightarrow> distinct (map fst (ct_clients t))"
  unfolding conns_ok_def by blast

lemma conns_okI:
  assumes "distinct (map fst (ct_clients t))"
    and "\<And>k c. c \<in> set (ct_devices t k) \<longleftrightarrow>
          (\<exists>cl. map_of (ct_clients t) c = Some cl \<and> (cl_uid cl, cl_device_id cl) = k)"
    and "\<And>k. length (ct_devices t k) \<le> 1"
  shows "conns_ok t"
  unfolding conns_ok_def using assms by blast

lemma map_of_filter_other: "map_of (filter (\<lambda>e. P (fst e)) xs) c = (if P c then map_of xs c else None)"
  by (induction xs) auto

lemma conns_ok_empty: "conns_ok empty_connections"
  by (simp add: conns_ok_def empty_connections_def)

lemma conns_ok_insert:
  assumes ok: "conns_ok t" and fresh: "map_of (ct_clients t) c = None"
  shows "conns_ok (snd (Connection_insert now c uid did jti t))"
proof -
  let ?t = "snd (Connection_insert now c uid did jti t)"
  have m: "map_of (ct_clients ?t) x = (if x = c then Some \<lparr>cl_uid = uid, cl_device_id = did, cl_jwt_jti = jti,
      cl_last_active_ts = now\<rparr> else if x \<in> set (ct_devices t (uid, did)) then None else map_of (ct_clients t) x)" for x
    using map_of_filter_other [of "\<lambda>x. x \<notin> set (ct_devices t (uid, did)) \<and> x \<noteq> c" "ct_clients t" x]
    by (simp add: Connection_insert_def Let_def)
  have d: "ct_devices ?t k = (if k = (uid, did) then [c] else ct_devices t k)" for k
    by (simp add: Connection_insert_def Let_def)
  note agree = conns_ok_agree [OF ok]
  have "distinct (map fst (ct_clients ?t))"
    using ok by (auto simp: Connection_insert_def Let_def conns_ok_def intro: distinct_map_filter)
  moreover have "x \<in> set (ct_devices ?t k) \<longleftrightarrow>
      (\<exists>cl. map_of (ct_clients ?t) x = Some cl \<and> (cl_uid cl, cl_device_id cl) = k)" for k x
    unfolding m d using agree fresh by auto
  moreover have "length (ct_devices ?t k) \<le> 1" for k using conns_ok_single [OF ok] by (simp add: d)
  ultimately show ?thesis by (rule conns_okI)
qed

lemma conns_ok_remove:
  assumes ok: "conns_ok t"
  shows "conns_ok (Connection_remove c t)"
proof (cases "map_of (ct_clients t) c")
  case None
  then show ?thesis using ok by (simp add: Connection_remove_def)
next
  case (Some cl)
  let ?t = "Connection_remove c t" and ?k = "(cl_uid cl, cl_device_id cl)"
  have m: "map_of (ct_clients ?t) x = (if x = c then None else map_of (ct_clients t) x)" for x
    using map_of_filter_other [of "\<lambda>x. x \<noteq> c" "ct_clients t" x] by (simp add: Connection_remove_def Some Let_def)
  have d: "ct_devices ?t k = (if k = ?k then filter (\<lambda>x. x \<noteq> c) (ct_devices t k) else ct_devices t k)" for k
    by (simp add: Connection_remove_def Some Let_def)
  note agree = conns_ok_agree [OF ok]
  have "distinct (map fst (ct_clients ?t))"
    using ok by (auto simp: Connection_remove_def Some Let_def conns_ok_def intro: distinct_map_filter)
  moreover have "x \<in> set (ct_devices ?t k) \<longleftrightarrow>
      (\<exists>cl. map_of (ct_clients ?t) x = Some cl \<and> (cl_uid cl, cl_device_id cl) = k)" for k x
    unfolding m d using agree Some by auto
  moreover have "length (ct_devices ?t k) \<le> 1" for k
    unfolding d using conns_ok_single [OF ok, of k] length_filter_le [of "\<lambda>x. x \<noteq> c" "ct_devices t k"]
    by (cases "k = ?k") (simp_all only: if_True if_False simp_thms)
  ultimately show ?thesis by (rule conns_okI)
qed

lemma map_of_touch:
  "map_of (map (\<lambda>e. if fst e = c then (c, f (snd e)) else e) xs) x =
     (if x = c then map_option f (map_of xs x) else map_of xs x)"
  by (induction xs) auto

lemma conns_ok_touch:
  assumes "conns_ok t"
  shows "conns_ok (Connection_touch now c t)"
proof -
  let ?t = "Connection_touch now c t"
  note agree = conns_ok_agree [OF assms]
  have m: "map_of (ct_clients ?t) x =
      (if x = c then map_option (\<lambda>cl. cl\<lparr>cl_last_active_ts := now\<rparr>) (map_of (ct_clients t) x)
       else map_of (ct_clients t) x)" for x
    by (simp add: Connection_touch_def map_of_touch)
  have f: "map fst (ct_clients ?t) = map fst (ct_clients t)" and d: "ct_devices ?t = ct_devices t"
    by (auto simp: Connection_touch_def)
  have "x \<in> set (ct_devices t k) \<longleftrightarrow>
      (\<exists>cl. map_of (ct_clients ?t) x = Some cl \<and> (cl_uid cl, cl_device_id cl) = k)" for k x
    unfolding m agree by auto
  then show ?thesis
    using conns_ok_distinct [OF assms] conns_ok_single [OF assms] by (intro conns_okI) (simp_all only: f d)
qed

lemma conns_ok_reap: "conns_ok t \<Longrightarrow> conns_ok (snd (Connection_reap now ttl t))"
proof -
  have "conns_ok t \<Longrightarrow> conns_ok (foldl (\<lambda>t e. Connection_remove (fst e) t) t es)" for es :: "(conn \<times> client) list"
    by (induction es arbitrary: t) (simp_all add: conns_ok_remove)
  then show "conns_ok t \<Longrightarrow> ?thesis" by (simp add: Connection_reap_def Let_def)
qed

text \<open>The runs of the table in which a connection authenticates once.\<close>

inductive conns_reach :: "connection_table \<Rightarrow> bool" where
  start: "conns_reach empty_connections"
| auth: "conns_reach t \<Longrightarrow> Connection_client c t = None \<Longrightarrow> conns_reach (snd (Connection_insert now c uid did jti t))"
| beat: "conns_reach t \<Longrightarrow> conns_reach (Connection_touch now c t)"
| close: "conns_reach t \<Longrightarrow> conns_reach (Connection_remove c t)"
| reap: "conns_reach t \<Longrightarrow> conns_reach (snd (Connection_reap now ttl t))"

lemma conns_reach_ok: "conns_reach t \<Longrightarrow> conns_ok t"
  by (induction rule: conns_reach.induct)
    (simp_all add: conns_ok_empty conns_ok_insert conns_ok_touch conns_ok_remove conns_ok_reap Connection_client_def)

text \<open>
  The two tables of the push service's connections agree. When no connection authenticates
  twice, then after any sequence of logins, activity, closures and idle sweeps a connection is listed
  under a device exactly if it authenticated as that user and device, a device has at most one
  connection, and a mutex is found for every connection listed.
\<close>

theorem connection_tables_agree:
  assumes "conns_reach t"
  shows "(c \<in> set (Connection_connections uid did t) \<longleftrightarrow> (\<exists>jti. Connection_client c t = Some (uid, did, jti)))
    \<and> length (Connection_connections uid did t) \<le> 1
    \<and> Connection_send_mutexes uid did t = Connection_connections uid did t"
proof -
  note agree = conns_ok_agree [OF conns_reach_ok [OF assms]]
  have "Connection_send_mutexes uid did t = Connection_connections uid did t"
    using agree by (auto simp: Connection_send_mutexes_def Connection_connections_def filter_id_conv)
  then show ?thesis
    using agree conns_reach_ok [OF assms]
    by (auto simp: Connection_connections_def Connection_client_def dest: conns_ok_single [of t "(uid, did)"])
qed

theorem connection_tables_agree_witness:
  "\<exists>t. t = snd (Connection_insert 9 2 ''u'' ''d'' ''j2'' (snd (Connection_insert 5 1 ''u'' ''d'' ''j1'' empty_connections)))
    \<and> (2 \<in> set (Connection_connections ''u'' ''d'' t) \<longleftrightarrow> (\<exists>jti. Connection_client 2 t = Some (''u'', ''d'', jti)))
    \<and> length (Connection_connections ''u'' ''d'' t) \<le> 1
    \<and> Connection_send_mutexes ''u'' ''d'' t = Connection_connections ''u'' ''d'' t
    \<and> Connection_connections ''u'' ''d'' t = [2]"
proof -
  let ?t1 = "snd (Connection_insert 5 1 ''u'' ''d'' ''j1'' empty_connections)"
  let ?t = "snd (Connection_insert 9 2 ''u'' ''d'' ''j2'' ?t1)"
  have 1: "conns_reach ?t1" by (intro conns_reach.intros) (simp add: empty_connections_def Connection_client_def)
  have "conns_reach ?t"
    by (rule conns_reach.auth [OF 1]) (simp add: empty_connections_def Connection_client_def Connection_insert_def Let_def)
  from connection_tables_agree [OF this, of 2 "''u''" "''d''"] show ?thesis
    by (intro exI [of _ ?t] conjI refl) (auto simp: Connection_connections_def Connection_insert_def Let_def)
qed

text \<open>A second login on the same connection: under another identity it stays listed for the first,
  under the same one it closes itself.\<close>

lemma second_login_leaves_stale_entry:
  assumes "conns_ok t" "Connection_client c t = Some (u, d, j)" "(u, d) \<noteq> (u', d')"
  shows "c \<in> set (Connection_connections u d (snd (Connection_insert now c u' d' j' t)))
    \<and> Connection_client c (snd (Connection_insert now c u' d' j' t)) = Some (u', d', j')"
  using assms conns_ok_agree [OF assms(1), of c "(u, d)"]
  by (auto simp: Connection_connections_def Connection_client_def Connection_insert_def Let_def)

lemma second_login_closes_itself:
  assumes "conns_ok t" "Connection_client c t = Some (u, d, j)"
  shows "c \<in> set (fst (Connection_insert now c u d j' t))"
  using assms(2) conns_ok_agree [OF assms(1), of c "(u, d)"]
  by (auto simp: Connection_client_def Connection_insert_def Let_def)

end
