(* ===== verification/Push_Redis.thy ===== *)
theory Push_Redis
  imports Es_Outbox Members_Cache Connection_Table Presence_Redis
begin

text \<open>
  What the push service keeps in Redis: the route table (class OnlineRoute), the per-device ledger of
  unacknowledged pushes (class UnackedPush: a sorted set of sequence numbers by time and a hash of
  payloads, changed together by Lua scripts) and the outbox of cross-instance batches (class
  CrossInstanceOutbox), all of common/dao/data_redis.hpp. Expiry is an operation of its own. The
  scripts' argument and key type checks hold for the calls the classes make, and the cursor of the
  repair scan only chooses which hash fields \<open>peek_due\<close> looks at: the chosen fields are an argument.
\<close>

section \<open>OnlineRoute\<close>

record online_route =
  or_routes :: "uid \<Rightarrow> (did \<times> string) list"
  or_device_set :: "uid \<Rightarrow> did list"

definition OnlineRoute_bind :: "bool \<Rightarrow> uid \<Rightarrow> did \<Rightarrow> string \<Rightarrow> online_route \<Rightarrow> online_route" where
  "OnlineRoute_bind ok uid did inst r =
     (if \<not> ok then r
      else r\<lparr>or_routes := (or_routes r)(uid := hset did inst (or_routes r uid)),
             or_device_set := (or_device_set r)(uid := List.insert did (or_device_set r uid))\<rparr>)"

text \<open>With an empty device every route of the user to this instance goes.\<close>

definition OnlineRoute_unbind :: "bool \<Rightarrow> uid \<Rightarrow> did \<Rightarrow> string \<Rightarrow> online_route \<Rightarrow> online_route" where
  "OnlineRoute_unbind ok uid did inst r =
     (if \<not> ok then r
      else let gone = (if did = [] then map fst (filter (\<lambda>e. snd e = inst) (or_routes r uid))
                       else if map_of (or_routes r uid) did = Some inst then [did] else [])
           in r\<lparr>or_routes := (or_routes r)(uid := filter (\<lambda>e. fst e \<notin> set gone) (or_routes r uid)),
                or_device_set := (or_device_set r)(uid := filter (\<lambda>d. d \<notin> set gone) (or_device_set r uid))\<rparr>)"

definition OnlineRoute_devices :: "bool \<Rightarrow> uid \<Rightarrow> online_route \<Rightarrow> did list" where
  "OnlineRoute_devices ok uid r = (if \<not> ok then [] else map fst (or_routes r uid))"

definition OnlineRoute_device_instances_map :: "bool \<Rightarrow> uid \<Rightarrow> online_route \<Rightarrow> (did \<times> string) list" where
  "OnlineRoute_device_instances_map ok uid r = (if \<not> ok then [] else or_routes r uid)"

text \<open>The strict form lets the Redis error out.\<close>

definition device_instances_map_strict :: "bool \<Rightarrow> uid \<Rightarrow> online_route \<Rightarrow> (did \<times> string) list option" where
  "device_instances_map_strict ok uid r = (if \<not> ok then None else Some (or_routes r uid))"

definition OnlineRoute_device_instance :: "bool \<Rightarrow> uid \<Rightarrow> did \<Rightarrow> online_route \<Rightarrow> string" where
  "OnlineRoute_device_instance ok uid did r =
     (if \<not> ok then [] else case map_of (or_routes r uid) did of None \<Rightarrow> [] | Some i \<Rightarrow> i)"

definition OnlineRoute_online :: "bool \<Rightarrow> uid \<Rightarrow> online_route \<Rightarrow> bool" where
  "OnlineRoute_online ok uid r = (ok \<and> 0 < length (or_routes r uid))"

definition OnlineRoute_expire :: "uid \<Rightarrow> online_route \<Rightarrow> online_route" where
  "OnlineRoute_expire uid r = r\<lparr>or_routes := (or_routes r)(uid := [])\<rparr>"

section \<open>UnackedPush\<close>

record unacked =
  ua_scores :: "(u64 \<times> int) list"
  ua_payloads :: "(u64 \<times> string) list"

definition no_unacked :: unacked where
  "no_unacked = \<lparr>ua_scores = [], ua_payloads = []\<rparr>"

text \<open>The four scripts.\<close>

definition kPushLua :: "int \<Rightarrow> u64 \<Rightarrow> string \<Rightarrow> unacked \<Rightarrow> unacked" where
  "kPushLua score seq payload u =
     u\<lparr>ua_scores := hset seq score (ua_scores u), ua_payloads := hset seq payload (ua_payloads u)\<rparr>"

definition kAckLua :: "u64 \<Rightarrow> unacked \<Rightarrow> unacked" where
  "kAckLua seq u = u\<lparr>ua_scores := hdel seq (ua_scores u), ua_payloads := hdel seq (ua_payloads u)\<rparr>"

text \<open>\<open>ZRANGEBYSCORE -inf cutoff LIMIT 0 limit\<close>: by score, members of equal score in byte order.\<close>

definition due_seqs :: "int \<Rightarrow> nat \<Rightarrow> unacked \<Rightarrow> u64 list" where
  "due_seqs cutoff limit u =
     take limit (map fst (sort_key (\<lambda>e. (snd e, u64_to_string (fst e)))
       (filter (\<lambda>e. snd e \<le> cutoff) (ua_scores u))))"

fun peek_loop :: "u64 list \<Rightarrow> unacked \<Rightarrow> (u64 \<times> string) list \<times> unacked" where
  "peek_loop [] u = ([], u)"
| "peek_loop (q # qs) u =
     (case map_of (ua_payloads u) q of
        Some p \<Rightarrow> (case peek_loop qs u of (rs, u') \<Rightarrow> ((q, p) # rs, u'))
      | None \<Rightarrow> peek_loop qs (u\<lparr>ua_scores := hdel q (ua_scores u)\<rparr>))"

definition kPeekDueLua :: "int \<Rightarrow> nat \<Rightarrow> u64 list \<Rightarrow> unacked \<Rightarrow> (u64 \<times> string) list \<times> unacked" where
  "kPeekDueLua cutoff limit scanned u =
     (case peek_loop (due_seqs cutoff limit u) u of
        (rs, u') \<Rightarrow>
          (rs, u'\<lparr>ua_payloads := filter (\<lambda>e. \<not> (fst e \<in> set scanned \<and> map_of (ua_scores u') (fst e) = None))
                                  (ua_payloads u')\<rparr>))"

fun kBumpScoreLua :: "int \<Rightarrow> u64 list \<Rightarrow> unacked \<Rightarrow> unacked" where
  "kBumpScoreLua score [] u = u"
| "kBumpScoreLua score (q # qs) u =
     kBumpScoreLua score qs
       (if map_of (ua_payloads u) q \<noteq> None
        then if map_of (ua_scores u) q \<noteq> None then u\<lparr>ua_scores := hset q score (ua_scores u)\<rparr> else u
        else u\<lparr>ua_scores := hdel q (ua_scores u)\<rparr>)"

type_synonym unacked_redis = "uid \<times> did \<Rightarrow> unacked"

text \<open>\<open>push\<close> lets a Redis error out (\<open>None\<close>); the other methods catch it.\<close>

definition UnackedPush_push ::
  "bool \<Rightarrow> uid \<Rightarrow> did \<Rightarrow> u64 \<Rightarrow> string \<Rightarrow> int \<Rightarrow> unacked_redis \<Rightarrow> unacked_redis option" where
  "UnackedPush_push ok uid did seq payload_b64 score_ts m =
     (if \<not> ok then None else Some (m((uid, did) := kPushLua score_ts seq payload_b64 (m (uid, did)))))"

definition UnackedPush_ack :: "bool \<Rightarrow> uid \<Rightarrow> did \<Rightarrow> u64 \<Rightarrow> unacked_redis \<Rightarrow> unacked_redis" where
  "UnackedPush_ack ok uid did seq m =
     (if \<not> ok then m else m((uid, did) := kAckLua seq (m (uid, did))))"

definition UnackedPush_peek_due ::
  "bool \<Rightarrow> int \<Rightarrow> uid \<Rightarrow> did \<Rightarrow> int \<Rightarrow> int \<Rightarrow> u64 list \<Rightarrow> unacked_redis \<Rightarrow>
     (u64 \<times> string) list \<times> unacked_redis" where
  "UnackedPush_peek_due ok now uid did limit max_age_sec scanned m =
     (if limit \<le> 0 \<or> \<not> ok then ([], m)
      else (case kPeekDueLua (now - max_age_sec) (nat limit) scanned (m (uid, did)) of
              (rs, u) \<Rightarrow> (rs, m((uid, did) := u))))"

definition UnackedPush_bump_score ::
  "bool \<Rightarrow> int \<Rightarrow> uid \<Rightarrow> did \<Rightarrow> u64 list \<Rightarrow> unacked_redis \<Rightarrow> unacked_redis" where
  "UnackedPush_bump_score ok now uid did seqs m =
     (if seqs = [] \<or> \<not> ok then m else m((uid, did) := kBumpScoreLua now seqs (m (uid, did))))"

section \<open>CrossInstanceOutbox\<close>

fun join_uids :: "uid list \<Rightarrow> string" where
  "join_uids [] = []"
| "join_uids [u] = ''\"'' @ u @ ''\"''"
| "join_uids (u # us) = ''\"'' @ u @ ''\",'' @ join_uids us"

definition CrossInstanceOutbox_member :: "string \<Rightarrow> uid list \<Rightarrow> string \<Rightarrow> string" where
  "CrossInstanceOutbox_member payload_b64 failed_uids peer =
     ''{\"k\":\"'' @ payload_b64 @ ''\",\"u\":['' @ join_uids failed_uids @ ''],\"p\":\"'' @ peer @ ''\"}''"

definition CrossInstanceOutbox_enqueue_raw :: "bool \<Rightarrow> string \<Rightarrow> int \<Rightarrow> zset \<Rightarrow> zset" where
  "CrossInstanceOutbox_enqueue_raw ok member score z = (if ok then zadd member score z else z)"

definition CrossInstanceOutbox_enqueue :: "bool \<Rightarrow> string \<Rightarrow> uid list \<Rightarrow> string \<Rightarrow> int \<Rightarrow> zset \<Rightarrow> zset" where
  "CrossInstanceOutbox_enqueue ok payload_b64 failed_uids peer score z =
     CrossInstanceOutbox_enqueue_raw ok (CrossInstanceOutbox_member payload_b64 failed_uids peer) score z"

definition CrossInstanceOutbox_peek :: "bool \<Rightarrow> nat \<Rightarrow> zset \<Rightarrow> string list" where
  "CrossInstanceOutbox_peek ok limit z = (if ok then take limit (zordered z) else [])"

definition CrossInstanceOutbox_remove :: "bool \<Rightarrow> string \<Rightarrow> zset \<Rightarrow> zset" where
  "CrossInstanceOutbox_remove ok member z = (if ok then zrem member z else z)"

section \<open>The ledger keeps its two halves together\<close>

definition ledger_ok :: "unacked \<Rightarrow> bool" where
  "ledger_ok u = (distinct (map fst (ua_scores u)) \<and> distinct (map fst (ua_payloads u))
     \<and> fst ` set (ua_scores u) = fst ` set (ua_payloads u))"

text \<open>What the ledger promises: a map from sequence numbers to payloads.\<close>

definition pending :: "unacked \<Rightarrow> u64 \<Rightarrow> string option" where
  "pending u = map_of (ua_payloads u)"

lemma ledger_ok_none: "ledger_ok no_unacked"
  by (simp add: ledger_ok_def no_unacked_def)

lemma ledger_ok_push: "ledger_ok u \<Longrightarrow> ledger_ok (kPushLua score q p u)"
  by (simp add: ledger_ok_def kPushLua_def distinct_hset)

lemma ledger_ok_ack: "ledger_ok u \<Longrightarrow> ledger_ok (kAckLua q u)"
  by (simp add: ledger_ok_def kAckLua_def distinct_hdel)

lemma ledger_in_scores: "ledger_ok u \<Longrightarrow> map_of (ua_scores u) q = None \<longleftrightarrow> map_of (ua_payloads u) q = None"
  by (simp add: ledger_ok_def map_of_eq_None_iff)

lemma due_seqs_in: "q \<in> set (due_seqs cutoff limit u) \<Longrightarrow> q \<in> fst ` set (ua_scores u)"
  by (auto simp: due_seqs_def dest!: in_set_takeD)

lemma peek_loop_ok:
  assumes "ledger_ok u" and "set qs \<subseteq> fst ` set (ua_scores u)"
  shows "peek_loop qs u = (map (\<lambda>q. (q, the (pending u q))) qs, u)"
  using assms(2)
proof (induction qs)
  case Nil
  then show ?case by simp
next
  case (Cons q qs)
  then obtain p where "map_of (ua_payloads u) q = Some p"
    using assms(1) by (metis insert_subset ledger_ok_def list.simps(15) map_of_eq_None_iff option.exhaust)
  then show ?case using Cons by (simp add: pending_def)
qed

text \<open>On a ledger in good order the repair of \<open>peek_due\<close> changes nothing.\<close>

lemma kPeekDueLua_ok:
  assumes "ledger_ok u"
  shows "kPeekDueLua cutoff limit scanned u =
    (map (\<lambda>q. (q, the (pending u q))) (due_seqs cutoff limit u), u)"
proof -
  have "map_of (ua_scores u) (fst e) \<noteq> None" if "e \<in> set (ua_payloads u)" for e
    using imageI [OF that, of fst] assms by (simp only: map_of_eq_None_iff ledger_ok_def) simp
  then have "filter (\<lambda>e. \<not> (fst e \<in> set scanned \<and> map_of (ua_scores u) (fst e) = None)) (ua_payloads u) = ua_payloads u"
    by (intro filter_True ballI) blast
  then show ?thesis
    by (simp add: kPeekDueLua_def peek_loop_ok [OF assms] subsetI due_seqs_in)
qed

lemma kBumpScoreLua_ok: "ledger_ok u \<Longrightarrow> ledger_ok (kBumpScoreLua score qs u) \<and> pending (kBumpScoreLua score qs u) = pending u"
proof (induction qs arbitrary: u)
  case Nil
  then show ?case by simp
next
  case (Cons q qs)
  let ?u = "if map_of (ua_payloads u) q \<noteq> None
        then if map_of (ua_scores u) q \<noteq> None then u\<lparr>ua_scores := hset q score (ua_scores u)\<rparr> else u
        else u\<lparr>ua_scores := hdel q (ua_scores u)\<rparr>"
  have "ledger_ok ?u \<and> pending ?u = pending u"
    using Cons.prems ledger_in_scores [OF Cons.prems, of q]
    by (auto simp: ledger_ok_def pending_def distinct_hset distinct_hdel map_of_eq_None_iff insert_absorb)
  then show ?case using Cons.IH [of ?u] by simp
qed

lemma due_seqs_complete:
  assumes "distinct (map fst (ua_scores u))" "map_of (ua_scores u) q = Some sc" "sc \<le> cutoff" "length (ua_scores u) \<le> limit"
  shows "q \<in> set (due_seqs cutoff limit u)"
proof -
  let ?xs = "filter (\<lambda>e. snd e \<le> cutoff) (ua_scores u)"
  have "length ?xs \<le> limit" using assms(4) length_filter_le [of "\<lambda>e. snd e \<le> cutoff" "ua_scores u"] by linarith
  then have "due_seqs cutoff limit u = map fst (sort_key (\<lambda>e. (snd e, u64_to_string (fst e))) ?xs)"
    by (simp add: due_seqs_def)
  then show ?thesis using map_of_SomeD [OF assms(2)] assms(3) by (force simp: image_iff)
qed

text \<open>The operations on one ledger.\<close>

datatype ledger_op = L_push int u64 string | L_ack u64 | L_peek int nat "u64 list" | L_bump int "u64 list"

fun ledger_step :: "ledger_op \<Rightarrow> unacked \<Rightarrow> unacked" where
  "ledger_step (L_push score q p) u = kPushLua score q p u"
| "ledger_step (L_ack q) u = kAckLua q u"
| "ledger_step (L_peek cutoff limit scanned) u = snd (kPeekDueLua cutoff limit scanned u)"
| "ledger_step (L_bump score qs) u = kBumpScoreLua score qs u"

fun ledger_spec :: "ledger_op \<Rightarrow> (u64 \<Rightarrow> string option) \<Rightarrow> (u64 \<Rightarrow> string option)" where
  "ledger_spec (L_push score q p) m = m(q \<mapsto> p)"
| "ledger_spec (L_ack q) m = m(q := None)"
| "ledger_spec (L_peek cutoff limit scanned) m = m"
| "ledger_spec (L_bump score qs) m = m"

lemma ledger_step_refines:
  assumes "ledger_ok u"
  shows "ledger_ok (ledger_step op u) \<and> pending (ledger_step op u) = ledger_spec op (pending u)"
proof (cases op)
  case (L_push score q p)
  then show ?thesis using ledger_ok_push [OF assms] by (simp add: pending_def kPushLua_def)
next
  case (L_ack q)
  then show ?thesis using ledger_ok_ack [OF assms] by (simp add: pending_def kAckLua_def)
next
  case (L_peek cutoff limit scanned)
  then show ?thesis using assms by (simp add: kPeekDueLua_ok)
next
  case (L_bump score qs)
  then show ?thesis using kBumpScoreLua_ok [OF assms] by simp
qed

lemma ledger_run_refines:
  "ledger_ok u \<Longrightarrow> ledger_ok (fold ledger_step ops u) \<and> pending (fold ledger_step ops u) = fold ledger_spec ops (pending u)"
  by (induction ops arbitrary: u) (simp_all add: ledger_step_refines)

text \<open>
  Claim C25. The ledger of unacknowledged pushes refines a map from sequence numbers to payloads: a push
  writes one entry, an acknowledgement removes exactly that one, and looking for due entries (with
  its repair scan) or moving their times changes none. After any sequence of these scripts a look
  whose limit covers the ledger returns every pending entry that is old enough, with the payload last
  pushed for it, and nothing that was acknowledged or never pushed.
\<close>

theorem unacked_ledger_refines:
  assumes "u = fold ledger_step ops no_unacked" and "length (ua_scores u) \<le> limit"
  shows "pending u = fold ledger_spec ops (\<lambda>_. None)
    \<and> (\<forall>q p. (q, p) \<in> set (fst (kPeekDueLua cutoff limit scanned u)) \<longleftrightarrow>
         pending u q = Some p \<and> the (map_of (ua_scores u) q) \<le> cutoff)"
proof -
  have ok: "ledger_ok u" and pend: "pending u = fold ledger_spec ops (\<lambda>_. None)"
    using ledger_run_refines [OF ledger_ok_none, of ops] assms(1) by (auto simp: pending_def no_unacked_def)
  have "(q, p) \<in> set (fst (kPeekDueLua cutoff limit scanned u)) \<longleftrightarrow>
         pending u q = Some p \<and> the (map_of (ua_scores u) q) \<le> cutoff" for q p
  proof
    assume "(q, p) \<in> set (fst (kPeekDueLua cutoff limit scanned u))"
    then have q: "q \<in> set (due_seqs cutoff limit u)" and p: "p = the (pending u q)"
      by (auto simp: kPeekDueLua_ok [OF ok])
    from q obtain sc where "(q, sc) \<in> set (ua_scores u)" "sc \<le> cutoff"
      by (auto simp: due_seqs_def dest!: in_set_takeD)
    then have sc: "map_of (ua_scores u) q = Some sc" "sc \<le> cutoff" using ok by (auto simp: ledger_ok_def)
    then have "pending u q \<noteq> None" using ledger_in_scores [OF ok, of q] by (auto simp: pending_def)
    then show "pending u q = Some p \<and> the (map_of (ua_scores u) q) \<le> cutoff" using p sc by auto
  next
    assume *: "pending u q = Some p \<and> the (map_of (ua_scores u) q) \<le> cutoff"
    then obtain sc where "map_of (ua_scores u) q = Some sc" "sc \<le> cutoff"
      using ledger_in_scores [OF ok, of q] by (auto simp: pending_def)
    then have "q \<in> set (due_seqs cutoff limit u)"
      using due_seqs_complete assms(2) ok by (auto simp: ledger_ok_def)
    then show "(q, p) \<in> set (fst (kPeekDueLua cutoff limit scanned u))"
      using * by (force simp: kPeekDueLua_ok [OF ok])
  qed
  then show ?thesis using pend by blast
qed

theorem unacked_ledger_refines_witness:
  "\<exists>u. u = fold ledger_step [L_push 10 1 ''a'', L_push 20 2 ''b'', L_ack 1] no_unacked
     \<and> pending u = (\<lambda>_. None)(2 \<mapsto> ''b'')
     \<and> (2, ''b'') \<in> set (fst (kPeekDueLua 30 5 [] u)) \<and> (1, ''a'') \<notin> set (fst (kPeekDueLua 30 5 [] u))"
proof -
  let ?ops = "[L_push 10 1 ''a'', L_push 20 2 ''b'', L_ack 1]"
  let ?u = "fold ledger_step ?ops no_unacked"
  have len: "length (ua_scores ?u) \<le> 5" and sc: "map_of (ua_scores ?u) 2 = Some 20"
    by (simp_all add: no_unacked_def kPushLua_def kAckLua_def hset_def hdel_def)
  note r = unacked_ledger_refines [OF refl len, of 30 "[]"]
  have p: "pending ?u = (\<lambda>_. None)(2 \<mapsto> ''b'')" using conjunct1 [OF r] by (auto simp: fun_eq_iff)
  note iff = conjunct2 [OF r, rule_format]
  have 2: "(2, ''b'') \<in> set (fst (kPeekDueLua 30 5 [] ?u))" by (rule iff [THEN iffD2]) (simp only: p sc, simp)
  have 1: "(1, ''a'') \<notin> set (fst (kPeekDueLua 30 5 [] ?u))"
    using iff [of 1 "''a''"] by (simp only: p) simp
  from p 2 1 show ?thesis by (intro exI [of _ ?u] conjI refl)
qed

end
