(* ===== verification/Jwt.thy ===== *)
theory Jwt
  imports Rpc
begin

text \<open>
  Tokens: \<open>JwtConfig\<close> and \<open>JwtCodec\<close> of common/auth/jwt_codec.hpp, with the time checks of the
  jwt-cpp verifier, and \<open>JwtStore\<close> of common/auth/jwt_store.hpp over Redis keys with expiry times.

  The library behind the codec is a parameter: encoding and signing a token, decoding it, and the test of
  the signature. Times are milliseconds; the claims of a token are whole seconds, as jwt-cpp writes them.
  Every method of the store catches the Redis error; the Boolean says whether the call completes. Of the message of
  a failed verification the text of the library is left out.
\<close>

section \<open>Configuration and claims\<close>

record jwt_config =
  jw_current_kid :: string
  jw_keys :: "(string \<times> string) list"
  jw_access_ttl_sec :: int
  jw_refresh_ttl_sec :: int

text \<open>\<open>validate_or_throw\<close>: the text of the exception, \<open>None\<close> when the configuration passes.\<close>

definition short_key :: "string \<times> string \<Rightarrow> bool" where
  "short_key kv = (length (snd kv) < 32)"

definition validate_or_throw :: "jwt_config \<Rightarrow> string option" where
  "validate_or_throw cfg =
     (if jw_current_kid cfg = [] then Some ''auth.jwt.current_kid is empty''
      else if map_of (jw_keys cfg) (jw_current_kid cfg) = None
      then Some (''auth.jwt.current_kid not in keys: '' @ jw_current_kid cfg)
      else if jw_access_ttl_sec cfg \<le> 0 then Some ''auth.jwt.access_ttl_sec must be > 0''
      else if jw_refresh_ttl_sec cfg \<le> 0 then Some ''auth.jwt.refresh_ttl_sec must be > 0''
      else map_option (\<lambda>kv. ''auth.jwt.keys['' @ fst kv @ ''] must be >=32 bytes, got '' @
                             nat_to_string (length (snd kv)))
             (find short_key (jw_keys cfg)))"

record jwt_claims =
  jc_sub :: uid
  jc_did :: string
  jc_jti :: string
  jc_kid :: string
  jc_iat_sec :: int
  jc_exp_sec :: int
  jc_is_refresh :: bool

text \<open>A decoded token: header, registered times and the payload claims that are strings.\<close>

record jwt_decoded =
  jd_alg :: string
  jd_kid :: "string option"
  jd_iat :: "int option"
  jd_exp :: "int option"
  jd_nbf :: "int option"
  jd_claims :: "(string \<times> string) list"

record jwt_lib =
  jl_sign :: "string \<Rightarrow> jwt_decoded \<Rightarrow> string"
  jl_decode :: "string \<Rightarrow> jwt_decoded option"
  jl_signature_ok :: "string \<Rightarrow> string \<Rightarrow> bool"

section \<open>JwtCodec\<close>

definition token_payload ::
  "jwt_config \<Rightarrow> time \<Rightarrow> uid \<Rightarrow> string \<Rightarrow> string \<Rightarrow> int \<Rightarrow> bool \<Rightarrow> jwt_decoded" where
  "token_payload cfg now_ms uid did jti ttl_sec is_refresh =
     \<lparr>jd_alg = ''HS256'', jd_kid = Some (jw_current_kid cfg), jd_iat = Some (now_ms div 1000),
      jd_exp = Some ((now_ms + ttl_sec * 1000) div 1000), jd_nbf = None,
      jd_claims = [(''sub'', uid), (''did'', did), (''jti'', jti)] @
        (if is_refresh then [(''typ'', ''refresh'')] else [])\<rparr>"

text \<open>\<open>keys.at(kid)\<close> throws when the key is missing. \<open>random\<close> is what \<open>random_jti\<close> would give.\<close>

definition sign_internal ::
  "jwt_lib \<Rightarrow> jwt_config \<Rightarrow> time \<Rightarrow> string \<Rightarrow> uid \<Rightarrow> string \<Rightarrow> string \<Rightarrow> int \<Rightarrow> bool \<Rightarrow> exn + string" where
  "sign_internal lib cfg now_ms random uid did jti ttl_sec is_refresh =
     (case map_of (jw_keys cfg) (jw_current_kid cfg) of
        None \<Rightarrow> Inl (StdException ''unordered_map::at'')
      | Some key \<Rightarrow> Inr (jl_sign lib key
          (token_payload cfg now_ms uid did (if jti = [] then random else jti) ttl_sec is_refresh)))"

definition sign_access ::
  "jwt_lib \<Rightarrow> jwt_config \<Rightarrow> time \<Rightarrow> string \<Rightarrow> uid \<Rightarrow> string \<Rightarrow> string \<Rightarrow> exn + string" where
  "sign_access lib cfg now_ms random uid did jti =
     sign_internal lib cfg now_ms random uid did jti (jw_access_ttl_sec cfg) False"

definition sign_refresh ::
  "jwt_lib \<Rightarrow> jwt_config \<Rightarrow> time \<Rightarrow> string \<Rightarrow> uid \<Rightarrow> string \<Rightarrow> string \<Rightarrow> exn + string" where
  "sign_refresh lib cfg now_ms random uid did jti =
     sign_internal lib cfg now_ms random uid did jti (jw_refresh_ttl_sec cfg) True"

text \<open>The verifier of jwt-cpp with HS256 and one key: signature, then the three times with a leeway.\<close>

definition jwt_verifier :: "jwt_lib \<Rightarrow> string \<Rightarrow> int \<Rightarrow> time \<Rightarrow> string \<Rightarrow> jwt_decoded \<Rightarrow> bool" where
  "jwt_verifier lib key leeway now_ms token d =
     (jd_alg d = ''HS256'' \<and> jl_signature_ok lib key token \<and>
      (case jd_exp d of None \<Rightarrow> True | Some x \<Rightarrow> \<not> x * 1000 + leeway * 1000 < now_ms) \<and>
      (case jd_iat d of None \<Rightarrow> True | Some x \<Rightarrow> \<not> now_ms < x * 1000 - leeway * 1000) \<and>
      (case jd_nbf d of None \<Rightarrow> True | Some x \<Rightarrow> \<not> now_ms < x * 1000 - leeway * 1000))"

definition token_expired :: "time \<Rightarrow> jwt_decoded \<Rightarrow> bool" where
  "token_expired now_ms d = (case jd_exp d of None \<Rightarrow> False | Some x \<Rightarrow> x * 1000 \<le> now_ms)"

text \<open>A missing time claim throws another exception than \<open>ServiceError\<close>.\<close>

definition claims_of :: "string \<Rightarrow> jwt_decoded \<Rightarrow> bool \<Rightarrow> exn + jwt_claims" where
  "claims_of kid d require_refresh =
     (case (map_of (jd_claims d) ''sub'', map_of (jd_claims d) ''did'', map_of (jd_claims d) ''jti'') of
        (Some sub, Some did, Some jti) \<Rightarrow>
          (case (jd_iat d, jd_exp d) of
             (Some iat, Some x) \<Rightarrow>
               let r = (map_of (jd_claims d) ''typ'' = Some ''refresh'') in
               if require_refresh \<noteq> r
               then Inl (ServiceError kAuthTokenInvalid
                      (if require_refresh then ''expected refresh token'' else ''unexpected refresh token''))
               else Inr \<lparr>jc_sub = sub, jc_did = did, jc_jti = jti, jc_kid = kid, jc_iat_sec = iat,
                         jc_exp_sec = x, jc_is_refresh = r\<rparr>
           | _ \<Rightarrow> Inl (StdException ''claim not found''))
      | _ \<Rightarrow> Inl (ServiceError kAuthTokenInvalid ''claims missing sub/did/jti''))"

definition JwtCodec_verify :: "jwt_lib \<Rightarrow> jwt_config \<Rightarrow> time \<Rightarrow> string \<Rightarrow> bool \<Rightarrow> exn + jwt_claims" where
  "JwtCodec_verify lib cfg now_ms token require_refresh =
     (case jl_decode lib token of
        None \<Rightarrow> Inl (ServiceError kAuthTokenInvalid ''token decode failed'')
      | Some d \<Rightarrow>
          if jd_alg d \<noteq> ''HS256'' then Inl (ServiceError kAuthTokenInvalid ''alg not HS256'')
          else case jd_kid d of
            None \<Rightarrow> Inl (ServiceError kAuthTokenInvalid ''missing kid'')
          | Some kid \<Rightarrow>
              (case map_of (jw_keys cfg) kid of
                 None \<Rightarrow> Inl (ServiceError kAuthTokenInvalid (''unknown kid: '' @ kid))
               | Some key \<Rightarrow>
                   if token_expired now_ms d then
                     (if jwt_verifier lib key 60 now_ms token d
                      then Inl (ServiceError kAuthTokenExpired ''token expired'')
                      else Inl (ServiceError kAuthTokenInvalid ''signature invalid''))
                   else if \<not> jwt_verifier lib key 0 now_ms token d
                   then Inl (ServiceError kAuthTokenInvalid ''verify failed'')
                   else claims_of kid d require_refresh))"

section \<open>JwtStore\<close>

type_synonym jwt_redis = "string \<Rightarrow> (string \<times> time) option"

definition revoked_key :: "string \<Rightarrow> string" where
  "revoked_key jti = ''im:jwt:revoked:'' @ jti"

definition refresh_key :: "uid \<Rightarrow> string \<Rightarrow> string" where
  "refresh_key uid did = ''im:jwt:rt:'' @ uid @ '':'' @ did"

definition chain_key :: "string \<Rightarrow> string" where
  "chain_key jti = ''im:jwt:rt_chain:'' @ jti"

definition kv_get :: "time \<Rightarrow> string \<Rightarrow> jwt_redis \<Rightarrow> string option" where
  "kv_get now k m = (case m k of None \<Rightarrow> None | Some (v, x) \<Rightarrow> if now < x then Some v else None)"

definition kv_set :: "time \<Rightarrow> string \<Rightarrow> string \<Rightarrow> int \<Rightarrow> jwt_redis \<Rightarrow> jwt_redis" where
  "kv_set now k v ttl_sec m = m(k \<mapsto> (v, now + ttl_sec * 1000))"

definition kv_set_nx :: "time \<Rightarrow> string \<Rightarrow> string \<Rightarrow> int \<Rightarrow> jwt_redis \<Rightarrow> bool \<times> jwt_redis" where
  "kv_set_nx now k v ttl_sec m =
     (if kv_get now k m = None then (True, kv_set now k v ttl_sec m) else (False, m))"

definition JwtStore_revoke :: "bool \<Rightarrow> time \<Rightarrow> string \<Rightarrow> int \<Rightarrow> jwt_redis \<Rightarrow> jwt_redis" where
  "JwtStore_revoke ok now jti ttl_sec m =
     (if jti = [] \<or> ttl_sec \<le> 0 \<or> \<not> ok then m else kv_set now (revoked_key jti) ''1'' ttl_sec m)"

definition JwtStore_is_revoked :: "bool \<Rightarrow> time \<Rightarrow> string \<Rightarrow> jwt_redis \<Rightarrow> bool" where
  "JwtStore_is_revoked ok now jti m = (jti \<noteq> [] \<and> ok \<and> kv_get now (revoked_key jti) m \<noteq> None)"

definition put_active_refresh :: "bool \<Rightarrow> time \<Rightarrow> uid \<Rightarrow> string \<Rightarrow> string \<Rightarrow> int \<Rightarrow> jwt_redis \<Rightarrow> jwt_redis" where
  "put_active_refresh ok now uid did jti ttl_sec m =
     (if uid = [] \<or> did = [] \<or> jti = [] \<or> \<not> ok then m else kv_set now (refresh_key uid did) jti ttl_sec m)"

definition get_active_refresh :: "bool \<Rightarrow> time \<Rightarrow> uid \<Rightarrow> string \<Rightarrow> jwt_redis \<Rightarrow> string" where
  "get_active_refresh ok now uid did m =
     (if \<not> ok then [] else case kv_get now (refresh_key uid did) m of None \<Rightarrow> [] | Some v \<Rightarrow> v)"

definition clear_active_refresh :: "bool \<Rightarrow> uid \<Rightarrow> string \<Rightarrow> jwt_redis \<Rightarrow> jwt_redis" where
  "clear_active_refresh ok uid did m = (if ok then m(refresh_key uid did := None) else m)"

datatype RotateResult = RotateOk | ReuseDetected

definition kChainTtlSec :: int where
  "kChainTtlSec = 24 * 3600"

text \<open>When the chain entry cannot be written the rotation goes on.\<close>

definition rotate_refresh_or_detect_reuse ::
  "bool \<Rightarrow> bool \<Rightarrow> time \<Rightarrow> uid \<Rightarrow> string \<Rightarrow> string \<Rightarrow> string \<Rightarrow> int \<Rightarrow> jwt_redis \<Rightarrow> RotateResult \<times> jwt_redis" where
  "rotate_refresh_or_detect_reuse ok1 ok2 now uid did old_jti new_jti ttl_sec m =
     (case (if ok1 then kv_set_nx now (chain_key old_jti) ''rotated'' kChainTtlSec m else (True, m)) of
        (False, m1) \<Rightarrow> (ReuseDetected, m1)
      | (True, m1) \<Rightarrow> (RotateOk, put_active_refresh ok2 now uid did new_jti ttl_sec m1))"

section \<open>Keys\<close>

lemma jwt_keys_inject [simp]:
  "revoked_key a = revoked_key b \<longleftrightarrow> a = b" "chain_key a = chain_key b \<longleftrightarrow> a = b"
  by (simp_all add: revoked_key_def chain_key_def)

lemma jwt_keys_differ [simp]:
  "revoked_key a \<noteq> chain_key b" "chain_key b \<noteq> revoked_key a" "revoked_key a \<noteq> refresh_key u d"
  "refresh_key u d \<noteq> revoked_key a" "chain_key b \<noteq> refresh_key u d" "refresh_key u d \<noteq> chain_key b"
  by (simp_all add: revoked_key_def chain_key_def refresh_key_def)

lemma kv_get_set [simp]:
  "kv_get t k (kv_set now k' v ttl m) = (if k = k' then (if t < now + ttl * 1000 then Some v else None) else kv_get t k m)"
  by (simp add: kv_get_def kv_set_def)

lemma kv_get_upd_None [simp]: "kv_get t k (m(k' := None)) = (if k = k' then None else kv_get t k m)"
  by (simp add: kv_get_def)

section \<open>Tokens the codec signs\<close>

text \<open>
  Claim C27. A token the codec signs is accepted by the codec until it expires. When the library decodes and
  checks what it signed, the configuration passes its own validation and the clock has not gone back, then verifying
  a token as the kind it was signed as gives back the user, the device, the identifier and the kind, up to
  the last moment before the expiry second; and verifying it as the other kind is refused as invalid.
\<close>

theorem signed_token_verifies:
  assumes "validate_or_throw cfg = None" and "map_of (jw_keys cfg) (jw_current_kid cfg) = Some key"
    and "d = token_payload cfg t uid did jti (if refresh then jw_refresh_ttl_sec cfg else jw_access_ttl_sec cfg) refresh"
    and "token = jl_sign lib key d" and "jl_decode lib token = Some d" and "jl_signature_ok lib key token"
    and "jti \<noteq> []" and "t \<le> now"
    and "now < (t + (if refresh then jw_refresh_ttl_sec cfg else jw_access_ttl_sec cfg) * 1000) div 1000 * 1000"
  shows "(if refresh then sign_refresh else sign_access) lib cfg t r uid did jti = Inr token
    \<and> JwtCodec_verify lib cfg now token refresh =
        Inr \<lparr>jc_sub = uid, jc_did = did, jc_jti = jti, jc_kid = jw_current_kid cfg, jc_iat_sec = t div 1000,
             jc_exp_sec = (t + (if refresh then jw_refresh_ttl_sec cfg else jw_access_ttl_sec cfg) * 1000) div 1000,
             jc_is_refresh = refresh\<rparr>
    \<and> (\<exists>m. JwtCodec_verify lib cfg now token (\<not> refresh) = Inl (ServiceError kAuthTokenInvalid m))"
proof -
  have sgn: "(if refresh then sign_refresh else sign_access) lib cfg t r uid did jti = Inr token"
    using assms(2,3,4,7) by (simp add: sign_access_def sign_refresh_def sign_internal_def)
  have "t div 1000 * 1000 \<le> t" by simp
  then have ver: "jwt_verifier lib key 0 now token d" "\<not> token_expired now d"
    using assms(6,8,9) by (auto simp: assms(3) jwt_verifier_def token_expired_def token_payload_def simp del: div_mult_self1)
  have v: "JwtCodec_verify lib cfg now token k = claims_of (jw_current_kid cfg) d k" for k
    using assms(2,5) ver by (simp add: JwtCodec_verify_def) (simp add: assms(3) token_payload_def)
  show ?thesis
    by (simp only: sgn v) (auto simp: claims_of_def Let_def assms(3) token_payload_def)
qed

definition demo_jwt_config :: jwt_config where
  "demo_jwt_config = \<lparr>jw_current_kid = ''v1'', jw_keys = [(''v1'', replicate 32 (CHR ''k''))], jw_access_ttl_sec = 7200,
     jw_refresh_ttl_sec = 2592000\<rparr>"

definition demo_token :: jwt_decoded where
  "demo_token = token_payload demo_jwt_config 5000 ''u'' ''d'' ''j'' 7200 False"

definition demo_lib :: jwt_lib where
  "demo_lib = \<lparr>jl_sign = (\<lambda>_ _. ''t''), jl_decode = (\<lambda>_. Some demo_token), jl_signature_ok = (\<lambda>_ _. True)\<rparr>"

theorem signed_token_verifies_witness:
  "sign_access demo_lib demo_jwt_config 5000 [] ''u'' ''d'' ''j'' = Inr ''t'' \<and>
   JwtCodec_verify demo_lib demo_jwt_config 7204999 ''t'' False =
     Inr \<lparr>jc_sub = ''u'', jc_did = ''d'', jc_jti = ''j'', jc_kid = ''v1'', jc_iat_sec = 5, jc_exp_sec = 7205,
          jc_is_refresh = False\<rparr>"
  using signed_token_verifies [of demo_jwt_config "replicate 32 (CHR ''k'')" demo_token 5000 "''u''" "''d''" "''j''" False "''t''"
      demo_lib 7204999 "[]"]
  by (simp add: demo_jwt_config_def demo_token_def demo_lib_def validate_or_throw_def short_key_def)

text \<open>
  A token that expired more than a minute ago is reported as invalid, not as expired. The codec means
  to answer an expired token that is well signed with the code for expired tokens, but the verifier
  it calls to check the signature also checks the expiry time, with a leeway of 60 seconds.
\<close>

theorem long_expired_token_reported_invalid:
  assumes "jl_decode lib token = Some d" and "jd_alg d = ''HS256''" and "jd_kid d = Some kid"
    and "map_of (jw_keys cfg) kid = Some key" and "jl_signature_ok lib key token" and "jd_exp d = Some x"
    and "x * 1000 + 60000 < now"
  shows "JwtCodec_verify lib cfg now token b = Inl (ServiceError kAuthTokenInvalid ''signature invalid'')"
  using assms by (simp add: JwtCodec_verify_def token_expired_def jwt_verifier_def)

theorem long_expired_token_reported_invalid_witness:
  "JwtCodec_verify demo_lib demo_jwt_config 7265001 ''t'' False = Inl (ServiceError kAuthTokenInvalid ''signature invalid'') \<and>
   JwtCodec_verify demo_lib demo_jwt_config 7265000 ''t'' False = Inl (ServiceError kAuthTokenExpired ''token expired'')"
  using long_expired_token_reported_invalid [of demo_lib "''t''" demo_token "''v1''" demo_jwt_config "replicate 32 (CHR ''k'')" 7205 7265001 False]
  by (simp add: demo_lib_def demo_token_def token_payload_def demo_jwt_config_def JwtCodec_verify_def token_expired_def jwt_verifier_def)

end
