(* ===== verification/Push.thy ===== *)
theory Push
  imports Push_Redis Jwt Notify_Proto Local_Cache Transmite Message_Service
begin

text \<open>
  The push service (push/source/push_server.h): \<open>PushToUser\<close>, \<open>PushBatch\<close>, the queue consumer
  \<open>onPushMessage\<close> with its calls to other push instances, the WebSocket handlers (login, push
  acknowledgement, heartbeat with resend, close), presence records and notifications, and the route
  cleanups. Several instances share Redis: the state has one Redis part and, per instance, its
  connections, its route cache and what it has sent.

  Parameters: clocks, failures, protobuf, base64 (OpenSSL), the token library, whether a WebSocket
  is open and accepts a frame, and whether a peer instance answers. The reaper of the cross-instance
  outbox is in the theory \<open>Cross_Reaper\<close>.
\<close>

section \<open>State\<close>

record route_entry =
  re_device_ids :: "did list"
  re_device_to_instance :: "(did \<times> string) list"

record push_instance =
  pi_connections :: connection_table
  pi_route_cache :: "route_entry local_cache"
  pi_sent :: "(conn \<times> string) list"
  pi_closed :: "conn list"

record push_redis =
  pr_route :: online_route
  pr_unacked :: unacked_redis
  pr_presence :: presence_redis

record push_world =
  pw_redis :: push_redis
  pw_instance :: "string \<Rightarrow> push_instance"
  pw_read_acks :: "(uid \<times> did \<times> cid \<times> u64) list"

text \<open>
  A call to a peer: the channel pool gives no channel, or the call reaches an instance (the pool of the service is
  entered under the path of every instance, so not always the one that was named) and fails, before or after
  the handler ran there, or is answered.
\<close>

datatype peer_outcome = Peer_unreachable | Peer_call_failed string bool | Peer_answered string

record push_env =
  pe_now :: int
  pe_now_ms :: int
  pe_steady :: time
  pe_route_ttl :: int
  pe_jitter :: int
  pe_up :: calls
  pe_route_ok :: "nat \<Rightarrow> uid \<Rightarrow> bool"
  pe_persist_ok :: "uid \<Rightarrow> did \<Rightarrow> bool"
  pe_open :: "conn \<Rightarrow> bool"
  pe_send_ok :: "conn \<Rightarrow> bool"
  pe_serialize :: "notify_message \<Rightarrow> string"
  pe_parse_notify :: "string \<Rightarrow> notify_message option"
  pe_parse_internal :: "string \<Rightarrow> internal_message option"
  pe_base64_encode :: "string \<Rightarrow> string"
  pe_base64_decode :: "string \<Rightarrow> string"
  pe_trace_id :: string
  pe_jwt :: jwt_lib
  pe_jwt_config :: jwt_config
  pe_peer :: "string \<Rightarrow> peer_outcome"
  pe_message_channel :: bool
  pe_scanned :: "uid \<times> did \<Rightarrow> u64 list"
  pe_resend_batch :: int
  pe_resend_max_age_sec :: int

definition set_instance :: "string \<Rightarrow> push_instance \<Rightarrow> push_world \<Rightarrow> push_world" where
  "set_instance me i w = w\<lparr>pw_instance := (pw_instance w)(me := i)\<rparr>"

definition set_unacked :: "unacked_redis \<Rightarrow> push_world \<Rightarrow> push_world" where
  "set_unacked u w = w\<lparr>pw_redis := (pw_redis w)\<lparr>pr_unacked := u\<rparr>\<rparr>"

definition set_route :: "online_route \<Rightarrow> push_world \<Rightarrow> push_world" where
  "set_route r w = w\<lparr>pw_redis := (pw_redis w)\<lparr>pr_route := r\<rparr>\<rparr>"

section \<open>Routes and sending\<close>

definition local_route_cache_key :: "uid \<Rightarrow> string" where
  "local_route_cache_key uid = ''local:route:'' @ hash_tag uid"

definition route_of_map :: "(did \<times> string) list \<Rightarrow> route_entry" where
  "route_of_map dmap = \<lparr>re_device_ids = map fst dmap, re_device_to_instance = dmap\<rparr>"

text \<open>\<open>None\<close>: the Redis error leaves the function. The cache is asked twice, before and after the lock.\<close>

definition resolve_route ::
  "push_env \<Rightarrow> nat \<Rightarrow> string \<Rightarrow> uid \<Rightarrow> push_world \<Rightarrow> route_entry option \<times> push_world" where
  "resolve_route env k me uid w =
     (let key = local_route_cache_key uid; i = pw_instance w me in
      case LocalCache_get (pe_steady env) key (pi_route_cache i) of
        (Some r, c) \<Rightarrow> (Some r, set_instance me (i\<lparr>pi_route_cache := c\<rparr>) w)
      | (None, c) \<Rightarrow>
          (case LocalCache_get (pe_steady env) key c of
             (Some r, c') \<Rightarrow> (Some r, set_instance me (i\<lparr>pi_route_cache := c'\<rparr>) w)
           | (None, c') \<Rightarrow>
               (case device_instances_map_strict (pe_route_ok env k uid) uid (pr_route (pw_redis w)) of
                  None \<Rightarrow> (None, set_instance me (i\<lparr>pi_route_cache := c'\<rparr>) w)
                | Some dmap \<Rightarrow>
                    let r = route_of_map dmap
                    in (Some r, set_instance me (i\<lparr>pi_route_cache :=
                          LocalCache_set (pe_steady env) key r
                            (randomized_ttl (pe_jitter env) (pe_route_ttl env)) c'\<rparr>) w))))"

definition local_send :: "push_env \<Rightarrow> string \<Rightarrow> uid \<Rightarrow> did \<Rightarrow> string \<Rightarrow> push_world \<Rightarrow> nat \<times> push_world" where
  "local_send env me uid did payload w =
     (let i = pw_instance w me; t = pi_connections i;
          conns = Connection_connections uid did t;
          n = length (Connection_send_mutexes uid did t);
          ok = filter (\<lambda>c. pe_open env c \<and> pe_send_ok env c) (take n conns)
      in (length ok, set_instance me (i\<lparr>pi_sent := pi_sent i @ map (\<lambda>c. (c, payload)) ok\<rparr>) w))"

definition persist_unacked ::
  "push_env \<Rightarrow> uid \<Rightarrow> did \<Rightarrow> u64 \<Rightarrow> string \<Rightarrow> push_world \<Rightarrow> push_world option" where
  "persist_unacked env uid did seq payload w =
     map_option (\<lambda>u. set_unacked u w)
       (UnackedPush_push (pe_persist_ok env uid did) uid did seq (pe_base64_encode env payload) (pe_now env)
          (pr_unacked (pw_redis w)))"

definition is_chat_message :: "notify_message \<Rightarrow> bool" where
  "is_chat_message nm = (nm_notify_type nm = CHAT_MESSAGE_NOTIFY \<and>
     (case nm_remarks nm of New_message_info _ \<Rightarrow> True | _ \<Rightarrow> False))"

fun set_user_seq :: "u64 \<Rightarrow> notify_remarks \<Rightarrow> notify_remarks" where
  "set_user_seq q (New_message_info m) = New_message_info (m\<lparr>mg_user_seq := q\<rparr>)"
| "set_user_seq q r = r"

text \<open>The payload for one user: a chat message carries that user's sequence number.\<close>

definition user_payload :: "push_env \<Rightarrow> notify_message \<Rightarrow> u64 option \<Rightarrow> string" where
  "user_payload env nm seq =
     (case seq of
        Some q \<Rightarrow> if is_chat_message nm then pe_serialize env (nm\<lparr>nm_remarks := set_user_seq q (nm_remarks nm)\<rparr>)
                  else pe_serialize env nm
      | None \<Rightarrow> pe_serialize env nm)"

section \<open>PushToUser and PushBatch\<close>

fun persist_devices ::
  "push_env \<Rightarrow> uid \<Rightarrow> u64 \<Rightarrow> string \<Rightarrow> did list \<Rightarrow> push_world \<Rightarrow> bool \<times> push_world" where
  "persist_devices env uid q payload [] w = (True, w)"
| "persist_devices env uid q payload (d # ds) w =
     (case persist_unacked env uid d q payload w of
        None \<Rightarrow> (False, w)
      | Some w' \<Rightarrow> persist_devices env uid q payload ds w')"

fun send_devices :: "push_env \<Rightarrow> string \<Rightarrow> uid \<Rightarrow> string \<Rightarrow> did list \<Rightarrow> push_world \<Rightarrow> nat \<times> push_world" where
  "send_devices env me uid payload [] w = (0, w)"
| "send_devices env me uid payload (d # ds) w =
     (case local_send env me uid d payload w of
        (n, w1) \<Rightarrow> (case send_devices env me uid payload ds w1 of
                      (k, w2) \<Rightarrow> (if 0 < n then Suc k else k, w2)))"

record push_to_user_req =
  pu_request_id :: string
  pu_user_id :: uid
  pu_notify :: notify_message
  pu_user_seq :: "u64 option"
  pu_target_device_ids :: "did list"

definition unavailable_header :: "string \<Rightarrow> response_header" where
  "unavailable_header rid =
     \<lparr>hdr_request_id = rid, hdr_success = False, hdr_error_code = kSystemUnavailable,
      hdr_error_message = ''unacked persistence unavailable''\<rparr>"

definition PushToUser ::
  "push_env \<Rightarrow> string \<Rightarrow> push_to_user_req \<Rightarrow> push_world \<Rightarrow> (response_header \<times> nat) \<times> push_world" where
  "PushToUser env me req w =
     (let payload = user_payload env (pu_notify req) (pu_user_seq req); uid = pu_user_id req in
      case resolve_route env 0 me uid w of
        (None, w1) \<Rightarrow> ((unavailable_header (pu_request_id req), 0), w1)
      | (Some route, w1) \<Rightarrow>
          let ds = (if pu_target_device_ids req = [] then re_device_ids route
                    else filter (\<lambda>d. d \<in> set (pu_target_device_ids req)) (re_device_ids route))
          in (case (case pu_user_seq req of
                      None \<Rightarrow> (True, w1)
                    | Some q \<Rightarrow> persist_devices env uid q payload ds w1) of
                (False, w2) \<Rightarrow> ((unavailable_header (pu_request_id req), 0), w2)
              | (True, w2) \<Rightarrow>
                  (case send_devices env me uid payload ds w2 of
                     (n, w3) \<Rightarrow> ((ok_header (pu_request_id req), n), w3))))"

record push_batch_req =
  pb_request_id :: string
  pb_user_id_list :: "uid list"
  pb_notify :: notify_message
  pb_user_seqs :: "(uid \<times> u64) list"

text \<open>Per device: persist when the user has a number, then send.\<close>

fun batch_devices ::
  "push_env \<Rightarrow> string \<Rightarrow> uid \<Rightarrow> u64 option \<Rightarrow> string \<Rightarrow> did list \<Rightarrow> push_world \<Rightarrow> nat option \<times> push_world" where
  "batch_devices env me uid seq payload [] w = (Some 0, w)"
| "batch_devices env me uid seq payload (d # ds) w =
     (case (case seq of None \<Rightarrow> Some w | Some q \<Rightarrow> persist_unacked env uid d q payload w) of
        None \<Rightarrow> (None, w)
      | Some w1 \<Rightarrow>
          (case local_send env me uid d payload w1 of
             (n, w2) \<Rightarrow>
               (case batch_devices env me uid seq payload ds w2 of
                  (None, w3) \<Rightarrow> (None, w3)
                | (Some k, w3) \<Rightarrow> (Some (if 0 < n then Suc k else k), w3))))"

fun batch_users ::
  "push_env \<Rightarrow> string \<Rightarrow> notify_message \<Rightarrow> (uid \<Rightarrow> u64 option) \<Rightarrow> uid list \<Rightarrow> push_world \<Rightarrow> nat option \<times> push_world" where
  "batch_users env me nm uid2seq [] w = (Some 0, w)"
| "batch_users env me nm uid2seq (u # us) w =
     (case resolve_route env 1 me u w of
        (None, w1) \<Rightarrow> (None, w1)
      | (Some route, w1) \<Rightarrow>
          (case batch_devices env me u (uid2seq u) (user_payload env nm (uid2seq u)) (re_device_ids route) w1 of
             (None, w2) \<Rightarrow> (None, w2)
           | (Some n, w2) \<Rightarrow>
               (case batch_users env me nm uid2seq us w2 of
                  (None, w3) \<Rightarrow> (None, w3)
                | (Some k, w3) \<Rightarrow> (Some (n + k), w3))))"

definition PushBatch ::
  "push_env \<Rightarrow> string \<Rightarrow> push_batch_req \<Rightarrow> push_world \<Rightarrow> (response_header \<times> nat) \<times> push_world" where
  "PushBatch env me req w =
     (case batch_users env me (pb_notify req) (map_of (rev (pb_user_seqs req))) (pb_user_id_list req) w of
        (None, w') \<Rightarrow> ((unavailable_header (pb_request_id req), 0), w')
      | (Some n, w') \<Rightarrow> ((ok_header (pb_request_id req), n), w'))"

section \<open>The queue consumer\<close>

definition chat_notify :: "push_env \<Rightarrow> message_p \<Rightarrow> notify_message" where
  "chat_notify env m =
     (notify CHAT_MESSAGE_NOTIFY (New_message_info m))
       \<lparr>nm_trace_id := (if pe_trace_id env = [] then None else Some (pe_trace_id env))\<rparr>"

text \<open>The devices of one user that are connected here. \<open>None\<close>: persistence failed, requeue.\<close>

fun deliver_devices ::
  "push_env \<Rightarrow> string \<Rightarrow> uid \<Rightarrow> u64 option \<Rightarrow> notify_message \<Rightarrow> (did \<times> string) list \<Rightarrow> did list \<Rightarrow> bool \<Rightarrow>
     push_world \<Rightarrow> bool option \<times> push_world" where
  "deliver_devices env me uid seq nm insts [] any_local w = (Some any_local, w)"
| "deliver_devices env me uid seq nm insts (d # ds) any_local w =
     (if map_of insts d \<noteq> Some me then deliver_devices env me uid seq nm insts ds any_local w
      else case seq of
             Some q \<Rightarrow>
               (case persist_unacked env uid d q (user_payload env nm seq) w of
                  None \<Rightarrow> (None, w)
                | Some w1 \<Rightarrow>
                    (case local_send env me uid d (user_payload env nm seq) w1 of
                       (n, w2) \<Rightarrow> deliver_devices env me uid seq nm insts ds (any_local \<or> 0 < n) w2))
           | None \<Rightarrow>
               deliver_devices env me uid seq nm insts ds True (snd (local_send env me uid d (pe_serialize env nm) w)))"

text \<open>First pass over the members: the users left for other instances, or \<open>None\<close> to requeue.\<close>

fun deliver_local ::
  "push_env \<Rightarrow> string \<Rightarrow> notify_message \<Rightarrow> (uid \<Rightarrow> u64 option) \<Rightarrow> uid list \<Rightarrow> push_world \<Rightarrow> uid list option \<times> push_world" where
  "deliver_local env me nm uid2seq [] w = (Some [], w)"
| "deliver_local env me nm uid2seq (u # us) w =
     (case resolve_route env 2 me u w of
        (None, w1) \<Rightarrow> (None, w1)
      | (Some route, w1) \<Rightarrow>
          (case (if re_device_ids route = [] then (Some False, w1)
                 else deliver_devices env me u (uid2seq u) nm (re_device_to_instance route)
                        (re_device_ids route) False w1) of
             (None, w2) \<Rightarrow> (None, w2)
           | (Some any_local, w2) \<Rightarrow>
               (case deliver_local env me nm uid2seq us w2 of
                  (None, w3) \<Rightarrow> (None, w3)
                | (Some remote, w3) \<Rightarrow> (Some (if any_local then remote else u # remote), w3))))"

definition add_peer :: "uid \<Rightarrow> string \<Rightarrow> (string \<times> uid list) list \<Rightarrow> (string \<times> uid list) list" where
  "add_peer u peer g =
     hset peer (case map_of g peer of None \<Rightarrow> [u] | Some us \<Rightarrow> List.insert u us) g"

definition peers_of :: "string \<Rightarrow> route_entry \<Rightarrow> string list" where
  "peers_of me route =
     filter (\<lambda>p. p \<noteq> [] \<and> p \<noteq> me)
       (map (\<lambda>d. case map_of (re_device_to_instance route) d of None \<Rightarrow> [] | Some p \<Rightarrow> p) (re_device_ids route))"

fun group_by_peer ::
  "push_env \<Rightarrow> string \<Rightarrow> uid list \<Rightarrow> (string \<times> uid list) list \<Rightarrow> push_world \<Rightarrow>
     (string \<times> uid list) list option \<times> push_world" where
  "group_by_peer env me [] g w = (Some g, w)"
| "group_by_peer env me (u # us) g w =
     (case resolve_route env 3 me u w of
        (None, w1) \<Rightarrow> (None, w1)
      | (Some route, w1) \<Rightarrow> group_by_peer env me us (fold (add_peer u) (peers_of me route) g) w1)"

definition peer_request ::
  "notify_message \<Rightarrow> string \<Rightarrow> (uid \<Rightarrow> u64 option) \<Rightarrow> uid list \<Rightarrow> push_batch_req" where
  "peer_request nm rid uid2seq us =
     \<lparr>pb_request_id = rid, pb_user_id_list = us, pb_notify = nm,
      pb_user_seqs = List.map_filter (\<lambda>u. map_option (Pair u) (uid2seq u)) us\<rparr>"

text \<open>One synchronous \<open>PushBatch\<close> per peer; the first failure requeues.\<close>

fun call_peers ::
  "push_env \<Rightarrow> notify_message \<Rightarrow> string \<Rightarrow> (uid \<Rightarrow> u64 option) \<Rightarrow> (string \<times> uid list) list \<Rightarrow> push_world \<Rightarrow>
     bool \<times> push_world" where
  "call_peers env nm rid uid2seq [] w = (True, w)"
| "call_peers env nm rid uid2seq ((peer, us) # rest) w =
     (case pe_peer env peer of
        Peer_unreachable \<Rightarrow> (False, w)
      | Peer_call_failed reached done_there \<Rightarrow>
          (False, if done_there then snd (PushBatch env reached (peer_request nm rid uid2seq us) w) else w)
      | Peer_answered reached \<Rightarrow>
          (case PushBatch env reached (peer_request nm rid uid2seq us) w of
             ((h, _), w1) \<Rightarrow>
               if hdr_success h then call_peers env nm rid uid2seq rest w1 else (False, w1)))"

definition onPushMessage ::
  "push_env \<Rightarrow> string \<Rightarrow> string \<Rightarrow> push_world \<Rightarrow> ConsumeAction \<times> push_world" where
  "onPushMessage env me body w =
     (case pe_parse_internal env body of
        None \<Rightarrow> (NackDiscard, w)
      | Some im \<Rightarrow>
          let m = im_message im; uid2seq = map_of (rev (im_user_seqs im)); nm = chat_notify env m
          in (case deliver_local env me nm uid2seq (im_member_id_list im) w of
                (None, w1) \<Rightarrow> (NackRequeue, w1)
              | (Some remote, w1) \<Rightarrow>
                  if remote = [] then (Ack, w1)
                  else (case group_by_peer env me remote [] w1 of
                          (None, w2) \<Rightarrow> (NackRequeue, w2)
                        | (Some g, w2) \<Rightarrow>
                            (case call_peers env nm (mg_client_msg_id m) uid2seq g w2 of
                               (True, w3) \<Rightarrow> (Ack, w3)
                             | (False, w3) \<Rightarrow> (NackRequeue, w3)))))"

end
