(* ===== verification/Push_Clients.thy ===== *)
theory Push_Clients
  imports Push Reliability_State
begin

text \<open>
  The client side of the push service (push/source/push_server.h): presence records and their
  notifications, login, push acknowledgements, heartbeats with resend, the WebSocket message and
  close handlers, the route cleanups at shutdown and of dead instances, and the kick notice.

  An operation that can let an exception out returns a Boolean first: \<open>False\<close> when one left it. A
  pipeline is applied whole or not at all. Asynchronous calls to peers run at once; a closed
  connection is recorded, its close handler is an event of its own. Refreshing a time to live has no
  effect here, as expiry is an operation of its own.
\<close>

section \<open>Presence\<close>

definition write_presence :: "push_env \<Rightarrow> nat \<Rightarrow> string \<Rightarrow> uid \<Rightarrow> did \<Rightarrow> push_world \<Rightarrow> push_world" where
  "write_presence env k st uid did w =
     (if pe_up env k 0
      then w\<lparr>pw_redis := (pw_redis w)\<lparr>pr_presence :=
               redis_hset (presence_device_key uid did) ''last_active_at_ms'' (int_to_string (pe_now_ms env))
                 (redis_hset (presence_device_key uid did) ''state'' st (pr_presence (pw_redis w)))\<rparr>\<rparr>
      else w)"

definition write_presence_online :: "push_env \<Rightarrow> uid \<Rightarrow> did \<Rightarrow> push_world \<Rightarrow> push_world" where
  "write_presence_online env = write_presence env 10 ''ONLINE''"

definition write_presence_offline :: "push_env \<Rightarrow> uid \<Rightarrow> did \<Rightarrow> push_world \<Rightarrow> push_world" where
  "write_presence_offline env = write_presence env 11 ''OFFLINE''"

type_synonym peer_groups = "(string \<times> uid list) list"

definition push_to_group :: "uid \<Rightarrow> string \<Rightarrow> peer_groups \<Rightarrow> peer_groups" where
  "push_to_group u peer g = hset peer ((case map_of g peer of None \<Rightarrow> [] | Some us \<Rightarrow> us) @ [u]) g"

fun presence_devices ::
  "push_env \<Rightarrow> string \<Rightarrow> string \<Rightarrow> uid \<Rightarrow> (did \<times> string) list \<Rightarrow> did list \<Rightarrow> peer_groups \<Rightarrow> push_world \<Rightarrow>
     peer_groups \<times> push_world" where
  "presence_devices env me payload sub insts [] g w = (g, w)"
| "presence_devices env me payload sub insts (d # ds) g w =
     (let inst = (case map_of insts d of None \<Rightarrow> [] | Some i \<Rightarrow> i) in
      if inst = [] \<or> inst = me
      then presence_devices env me payload sub insts ds g (snd (local_send env me sub d payload w))
      else presence_devices env me payload sub insts ds (push_to_group sub inst g) w)"

fun presence_subs ::
  "push_env \<Rightarrow> string \<Rightarrow> string \<Rightarrow> uid list \<Rightarrow> peer_groups \<Rightarrow> push_world \<Rightarrow> peer_groups option \<times> push_world" where
  "presence_subs env me payload [] g w = (Some g, w)"
| "presence_subs env me payload (s # ss) g w =
     (case resolve_route env 5 me s w of
        (None, w1) \<Rightarrow> (None, w1)
      | (Some route, w1) \<Rightarrow>
          (case presence_devices env me payload s (re_device_to_instance route) (re_device_ids route) g w1 of
             (g2, w2) \<Rightarrow> presence_subs env me payload ss g2 w2))"

definition presence_request :: "uid \<Rightarrow> notify_message \<Rightarrow> uid list \<Rightarrow> push_batch_req" where
  "presence_request uid nm us =
     \<lparr>pb_request_id = ''presence-notify-'' @ uid, pb_user_id_list = remdups_adj (sort us), pb_notify = nm,
      pb_user_seqs = []\<rparr>"

fun presence_peers :: "push_env \<Rightarrow> uid \<Rightarrow> notify_message \<Rightarrow> peer_groups \<Rightarrow> push_world \<Rightarrow> push_world" where
  "presence_peers env uid nm [] w = w"
| "presence_peers env uid nm ((peer, us) # rest) w =
     presence_peers env uid nm rest
       (case pe_peer env peer of
          Peer_unreachable \<Rightarrow> w
        | Peer_call_failed reached done_there \<Rightarrow>
            if done_there then snd (PushBatch env reached (presence_request uid nm us) w) else w
        | Peer_answered reached \<Rightarrow> snd (PushBatch env reached (presence_request uid nm us) w))"

text \<open>An exception while the subscribers' routes are read ends the notification.\<close>

definition notify_presence_change :: "push_env \<Rightarrow> string \<Rightarrow> uid \<Rightarrow> string \<Rightarrow> push_world \<Rightarrow> push_world" where
  "notify_presence_change env me uid st w =
     (let subs = redis_smembers (presence_sub_key uid) (pr_presence (pw_redis w)); nm = notify PRESENCE_CHANGE_NOTIFY (Presence_change uid st) in
      if \<not> pe_up env 12 0 \<or> subs = [] then w
      else case presence_subs env me (pe_serialize env nm) subs [] w of
             (None, w1) \<Rightarrow> w1
           | (Some g, w1) \<Rightarrow> presence_peers env uid nm g w1)"

section \<open>Login, acknowledgement and heartbeat\<close>

definition close_conn :: "string \<Rightarrow> conn \<Rightarrow> push_world \<Rightarrow> push_world" where
  "close_conn me c w =
     set_instance me ((pw_instance w me)\<lparr>pi_closed := pi_closed (pw_instance w me) @ [c]\<rparr>) w"

definition resend_one :: "push_env \<Rightarrow> string \<Rightarrow> uid \<Rightarrow> did \<Rightarrow> u64 \<times> string \<Rightarrow> push_world \<Rightarrow> push_world" where
  "resend_one env me uid did e w =
     (let payload = pe_base64_decode env (snd e) in
      if payload = [] then w else snd (local_send env me uid did payload w))"

fun resend_devices :: "push_env \<Rightarrow> string \<Rightarrow> uid \<Rightarrow> did list \<Rightarrow> push_world \<Rightarrow> push_world" where
  "resend_devices env me uid [] w = w"
| "resend_devices env me uid (d # ds) w =
     (case UnackedPush_peek_due (pe_up env 13 0) (pe_now env) uid d (pe_resend_batch env)
             (pe_resend_max_age_sec env) (pe_scanned env (uid, d)) (pr_unacked (pw_redis w)) of
        (due, m) \<Rightarrow>
          let w1 = set_unacked m w in
          if due = [] then resend_devices env me uid ds w1
          else let w2 = fold (resend_one env me uid d) due w1
               in resend_devices env me uid ds
                    (set_unacked (UnackedPush_bump_score (pe_up env 14 0) (pe_now env) uid d (map fst due)
                                    (pr_unacked (pw_redis w2))) w2))"

definition on_heartbeat_resend :: "push_env \<Rightarrow> string \<Rightarrow> uid \<Rightarrow> push_world \<Rightarrow> bool \<times> push_world" where
  "on_heartbeat_resend env me uid w =
     (if uid = [] then (True, w)
      else case resolve_route env 4 me uid w of
             (None, w1) \<Rightarrow> (False, w1)
           | (Some route, w1) \<Rightarrow> (True, resend_devices env me uid (re_device_ids route) w1))"

definition connect_client :: "push_env \<Rightarrow> string \<Rightarrow> conn \<Rightarrow> jwt_claims \<Rightarrow> push_world \<Rightarrow> push_world" where
  "connect_client env me c cl w =
     (let i = pw_instance w me in
      case Connection_insert (pe_now env) c (jc_sub cl) (jc_did cl) (jc_jti cl) (pi_connections i) of
        (olds, t) \<Rightarrow>
          set_route (OnlineRoute_bind (pe_up env 15 0) (jc_sub cl) (jc_did cl) me (pr_route (pw_redis w)))
            (set_instance me (i\<lparr>pi_connections := t, pi_closed := pi_closed i @ olds\<rparr>) w))"

definition handle_client_auth ::
  "push_env \<Rightarrow> string \<Rightarrow> conn \<Rightarrow> string \<Rightarrow> did \<Rightarrow> u64 option \<Rightarrow> push_world \<Rightarrow> bool \<times> push_world" where
  "handle_client_auth env me c access_token dev last_user_seq w =
     (if access_token = [] \<or> dev = [] then (True, close_conn me c w)
      else case JwtCodec_verify (pe_jwt env) (pe_jwt_config env) (pe_now_ms env) access_token False of
             Inl (ServiceError _ _) \<Rightarrow> (True, close_conn me c w)
           | Inl (StdException _) \<Rightarrow> (False, w)
           | Inr cl \<Rightarrow>
               let w1 = connect_client env me c cl w;
                   w2 = write_presence_online env (jc_sub cl) (jc_did cl) w1;
                   w3 = notify_presence_change env me (jc_sub cl) ''ONLINE'' w2
               in (case last_user_seq of
                     None \<Rightarrow> (True, w3)
                   | Some q \<Rightarrow> if 0 < q then on_heartbeat_resend env me (jc_sub cl) w3 else (True, w3)))"

definition client_auth_fields :: "notify_message \<Rightarrow> string \<times> string \<times> u64 option" where
  "client_auth_fields nm = (case nm_remarks nm of Client_auth t d q \<Rightarrow> (t, d, q) | _ \<Rightarrow> ([], [], None))"

definition msg_push_ack_field :: "notify_message \<Rightarrow> push_ack" where
  "msg_push_ack_field nm =
     (case nm_remarks nm of
        Msg_push_ack a \<Rightarrow> a
      | _ \<Rightarrow> \<lparr>pa_user_id = [], pa_device_id = [], pa_message_id = 0, pa_user_seq = 0,
              pa_conversation_id = [], pa_seq_id = 0\<rparr>)"

definition heartbeat_user :: "notify_message \<Rightarrow> uid" where
  "heartbeat_user nm = (case nm_remarks nm of Heartbeat u _ \<Rightarrow> u | _ \<Rightarrow> [])"

definition is_valid_push_ack_ids :: "u64 \<Rightarrow> int \<Rightarrow> bool" where
  "is_valid_push_ack_ids user_seq message_id = (0 < user_seq \<and> 0 < message_id)"

definition handle_push_ack :: "push_env \<Rightarrow> string \<Rightarrow> conn \<Rightarrow> push_ack \<Rightarrow> push_world \<Rightarrow> push_world" where
  "handle_push_ack env me c a w =
     (if \<not> is_valid_push_ack_ids (pa_user_seq a) (pa_message_id a) \<or> pa_user_id a = [] \<or> pa_device_id a = []
      then w
      else case Connection_client c (pi_connections (pw_instance w me)) of
             None \<Rightarrow> w
           | Some (uid, did, jti) \<Rightarrow>
               if uid \<noteq> pa_user_id a \<or> did \<noteq> pa_device_id a then w
               else let w1 = set_unacked (UnackedPush_ack (pe_up env 16 0) (pa_user_id a) (pa_device_id a)
                                            (pa_user_seq a) (pr_unacked (pw_redis w))) w
                    in if \<not> (0 < pa_seq_id a \<and> pa_conversation_id a \<noteq> []) \<or> \<not> pe_message_channel env then w1
                       else w1\<lparr>pw_read_acks := pw_read_acks w1 @
                                 [(uid, did, pa_conversation_id a, pa_seq_id a)]\<rparr>)"

definition onClientNotify ::
  "push_env \<Rightarrow> string \<Rightarrow> conn \<Rightarrow> notify_message \<Rightarrow> push_world \<Rightarrow> bool \<times> push_world" where
  "onClientNotify env me c nm w =
     (if nm_notify_type nm = CLIENT_AUTH then
        (case client_auth_fields nm of (t, d, q) \<Rightarrow> handle_client_auth env me c t d q w)
      else if nm_notify_type nm = MSG_PUSH_ACK then (True, handle_push_ack env me c (msg_push_ack_field nm) w)
      else if nm_notify_type nm = CLIENT_HEARTBEAT then on_heartbeat_resend env me (heartbeat_user nm) w
      else (True, w))"

section \<open>The WebSocket handlers\<close>

definition has_client_auth :: "notify_message \<Rightarrow> bool" where
  "has_client_auth nm = (case nm_remarks nm of Client_auth _ _ _ \<Rightarrow> True | _ \<Rightarrow> False)"

definition touch_connection :: "push_env \<Rightarrow> string \<Rightarrow> conn \<Rightarrow> push_world \<Rightarrow> push_world" where
  "touch_connection env me c w =
     (let i = pw_instance w me
      in set_instance me (i\<lparr>pi_connections := Connection_touch (pe_now env) c (pi_connections i)\<rparr>) w)"

definition ws_message :: "push_env \<Rightarrow> string \<Rightarrow> conn \<Rightarrow> string \<Rightarrow> push_world \<Rightarrow> bool \<times> push_world" where
  "ws_message env me c payload w =
     (case pe_parse_notify env payload of
        None \<Rightarrow> (True, close_conn me c w)
      | Some nm \<Rightarrow>
          (case Connection_client c (pi_connections (pw_instance w me)) of
             None \<Rightarrow>
               if nm_notify_type nm \<noteq> CLIENT_AUTH \<or> \<not> has_client_auth nm then (True, close_conn me c w)
               else onClientNotify env me c nm w
           | Some _ \<Rightarrow> onClientNotify env me c nm (touch_connection env me c w)))"

definition invalidate_route :: "string \<Rightarrow> uid \<Rightarrow> push_world \<Rightarrow> push_world" where
  "invalidate_route me uid w =
     (let i = pw_instance w me
      in set_instance me (i\<lparr>pi_route_cache := LocalCache_invalidate (local_route_cache_key uid) (pi_route_cache i)\<rparr>) w)"

definition unbind_route :: "push_env \<Rightarrow> uid \<Rightarrow> did \<Rightarrow> string \<Rightarrow> push_world \<Rightarrow> push_world" where
  "unbind_route env uid did inst w =
     set_route (OnlineRoute_unbind (pe_up env 17 0) uid did inst (pr_route (pw_redis w))) w"

definition ws_close :: "push_env \<Rightarrow> string \<Rightarrow> conn \<Rightarrow> push_world \<Rightarrow> push_world" where
  "ws_close env me c w =
     (case Connection_client c (pi_connections (pw_instance w me)) of
        None \<Rightarrow> w
      | Some (uid, did, jti) \<Rightarrow>
          let i = pw_instance w me;
              w1 = set_instance me (i\<lparr>pi_connections := Connection_remove c (pi_connections i)\<rparr>) w;
              w2 = invalidate_route me uid (unbind_route env uid did me w1);
              w3 = write_presence_offline env uid did w2
          in notify_presence_change env me uid ''OFFLINE'' w3)"

section \<open>Cleanups\<close>

definition online_key :: "uid \<Rightarrow> string" where
  "online_key uid = ''im:online:'' @ hash_tag uid"

definition uid_from_online_key :: "string \<Rightarrow> uid option" where
  "uid_from_online_key key =
     (let prefix = ''im:online:''; tagged = drop (length prefix) key in
      if take (length prefix) key \<noteq> prefix \<or> length key = length prefix then None
      else if length tagged < 3 \<or> hd tagged \<noteq> CHR ''{'' \<or> last tagged \<noteq> CHR ''}'' then None
      else Some (take (length tagged - 2) (drop 1 tagged)))"

text \<open>The keys a complete \<open>SCAN\<close> returned are an argument of both cleanups.\<close>

definition shutdown_key :: "push_env \<Rightarrow> string \<Rightarrow> string \<Rightarrow> push_world \<Rightarrow> push_world" where
  "shutdown_key env me key w =
     (case uid_from_online_key key of
        None \<Rightarrow> w
      | Some uid \<Rightarrow>
          invalidate_route me uid
            (fold (\<lambda>e w. if snd e = me then unbind_route env uid (fst e) me w else w)
               (or_routes (pr_route (pw_redis w)) uid) w))"

definition shutdown_cleanup :: "push_env \<Rightarrow> string \<Rightarrow> string list \<Rightarrow> push_world \<Rightarrow> push_world" where
  "shutdown_cleanup env me scanned w = fold (shutdown_key env me) scanned w"

definition stale_of_key :: "string list \<Rightarrow> push_world \<Rightarrow> string \<Rightarrow> (uid \<times> did \<times> string) list" where
  "stale_of_key alive w key =
     (case uid_from_online_key key of
        None \<Rightarrow> []
      | Some uid \<Rightarrow> map (\<lambda>e. (uid, e)) (filter (\<lambda>e. snd e \<notin> set alive) (or_routes (pr_route (pw_redis w)) uid)))"

text \<open>One sweep. \<open>ls\<close> is the answer of etcd, \<open>None\<close> when the call threw.\<close>

definition reap_stale_routes ::
  "push_env \<Rightarrow> string \<Rightarrow> bool \<Rightarrow> string list option \<Rightarrow> string list \<Rightarrow> push_world \<Rightarrow> push_world" where
  "reap_stale_routes env me leader ls scanned w =
     (if \<not> leader then w
      else case ls of
             None \<Rightarrow> w
           | Some alive \<Rightarrow>
               if alive = [] then w
               else fold (\<lambda>(uid, did, inst) w. invalidate_route me uid (unbind_route env uid did inst w))
                      (concat (map (stale_of_key alive w) scanned)) w)"

definition publish_kicked ::
  "push_env \<Rightarrow> string \<Rightarrow> uid \<Rightarrow> did \<Rightarrow> int \<Rightarrow> string \<Rightarrow> push_world \<Rightarrow> push_world" where
  "publish_kicked env me uid did reason msg w =
     snd (local_send env me uid did (pe_serialize env (notify reason (Kicked reason msg))) w)"

end
