(* ===== verification/Push_Props.thy ===== *)
theory Push_Props
  imports Push_Clients "HOL-Library.Sublist"
begin

text \<open>
  Properties of the push service: an acknowledged queue message is in the ledger of every device its
  members are reached on, a device elsewhere is forgotten when another device of the user is served
  here, and no client message removes a ledger entry but the device's own acknowledgement.
\<close>

section \<open>Fresh route caches\<close>

definition route_now :: "push_world \<Rightarrow> uid \<Rightarrow> route_entry" where
  "route_now w uid = route_of_map (or_routes (pr_route (pw_redis w)) uid)"

definition routes_fresh :: "push_world \<Rightarrow> bool" where
  "routes_fresh w = (\<forall>me. lc.all_ok (\<lambda>k r. \<forall>uid. k = local_route_cache_key uid \<longrightarrow> r = route_now w uid)
     (pi_route_cache (pw_instance w me)))"

lemma local_route_cache_key_inject [simp]: "local_route_cache_key u = local_route_cache_key v \<longleftrightarrow> u = v"
  by (simp add: local_route_cache_key_def hash_tag_def)

lemma set_instance_simps [simp]:
  "pw_redis (set_instance me i w) = pw_redis w" "pw_instance (set_instance me i w) = (pw_instance w)(me := i)"
  by (simp_all add: set_instance_def)

lemma set_unacked_simps [simp]:
  "pr_route (pw_redis (set_unacked u w)) = pr_route (pw_redis w)" "pr_unacked (pw_redis (set_unacked u w)) = u"
  "pw_instance (set_unacked u w) = pw_instance w"
  by (simp_all add: set_unacked_def)

lemma route_now_set [simp]:
  "route_now (set_instance me i w) = route_now w" "route_now (set_unacked u w) = route_now w"
  by (simp_all add: route_now_def fun_eq_iff)

lemma routes_fresh_set_unacked [simp]: "routes_fresh (set_unacked u w) = routes_fresh w"
  by (simp add: routes_fresh_def)

lemma routes_fresh_set_instance:
  assumes "routes_fresh w"
    and "lc.all_ok (\<lambda>k r. \<forall>uid. k = local_route_cache_key uid \<longrightarrow> r = route_now w uid) (pi_route_cache i)"
  shows "routes_fresh (set_instance me i w)"
  using assms by (simp add: routes_fresh_def)

text \<open>What a lookup of a route may change: the cache of the instance that asks.\<close>

definition same_but_cache :: "push_world \<Rightarrow> push_world \<Rightarrow> bool" where
  "same_but_cache w w' = (pw_redis w' = pw_redis w \<and> pw_read_acks w' = pw_read_acks w \<and>
     (\<forall>x. pi_connections (pw_instance w' x) = pi_connections (pw_instance w x) \<and>
          pi_sent (pw_instance w' x) = pi_sent (pw_instance w x) \<and>
          pi_closed (pw_instance w' x) = pi_closed (pw_instance w x)))"

lemma resolve_route_frame:
  assumes "resolve_route env k me uid w = (r, w')"
  shows "same_but_cache w w'" and "x \<noteq> me \<Longrightarrow> pw_instance w' x = pw_instance w x"
  using assms
  by (auto simp: resolve_route_def same_but_cache_def set_instance_def Let_def split: prod.splits option.splits)

lemma resolve_route_fresh:
  assumes "resolve_route env k me uid w = (r, w')" and "routes_fresh w"
  shows "routes_fresh w' \<and> (\<forall>x. r = Some x \<longrightarrow> x = route_now w uid)"
proof -
  let ?P = "\<lambda>k r. \<forall>uid. k = local_route_cache_key uid \<longrightarrow> r = route_now w uid"
  let ?key = "local_route_cache_key uid" and ?i = "pw_instance w me"
  obtain r1 c1 where g1: "LocalCache_get (pe_steady env) ?key (pi_route_cache ?i) = (r1, c1)" by fastforce
  obtain r2 c2 where g2: "LocalCache_get (pe_steady env) ?key c1 = (r2, c2)" by fastforce
  have ok: "lc.all_ok ?P (pi_route_cache ?i)" using assms(2) by (simp add: routes_fresh_def)
  note ok1 = lc.all_ok_get [OF ok g1] and ok2 = lc.all_ok_get [OF conjunct1 [OF lc.all_ok_get [OF ok g1]] g2]
  have put: "lc.all_ok ?P (LocalCache_set t ?key (route_now w uid) ttl c2)" for t ttl
    by (rule lc.all_ok_put [OF conjunct1 [OF ok2]]) simp
  show ?thesis
    using assms(1) ok1 ok2
    by (auto simp: resolve_route_def g1 g2 Let_def device_instances_map_strict_def simp flip: route_now_def
        intro!: routes_fresh_set_instance [OF assms(2)] put split: option.splits if_splits)
qed

lemma local_send_frame:
  assumes "local_send env me uid d p w = (n, w')"
  shows "pw_redis w' = pw_redis w" "pi_route_cache (pw_instance w' x) = pi_route_cache (pw_instance w x)"
    "pi_connections (pw_instance w' x) = pi_connections (pw_instance w x)"
    "x \<noteq> me \<Longrightarrow> pw_instance w' x = pw_instance w x"
  using assms by (auto simp: local_send_def Let_def)

lemma local_send_fresh: "local_send env me uid d p w = (n, w') \<Longrightarrow> routes_fresh w' = routes_fresh w"
  by (simp add: routes_fresh_def route_now_def local_send_frame)

section \<open>The ledger only grows while a message is pushed\<close>

definition ledgered :: "push_env \<Rightarrow> notify_message \<Rightarrow> (uid \<Rightarrow> u64 option) \<Rightarrow> push_world \<Rightarrow> (uid \<times> did) set" where
  "ledgered env nm f w = {(u, d). \<exists>q. f u = Some q \<and>
     pending (pr_unacked (pw_redis w) (u, d)) q = Some (pe_base64_encode env (user_payload env nm (Some q)))}"

definition grows :: "push_env \<Rightarrow> notify_message \<Rightarrow> (uid \<Rightarrow> u64 option) \<Rightarrow> push_world \<Rightarrow> push_world \<Rightarrow> bool" where
  "grows env nm f w w' = (pr_route (pw_redis w') = pr_route (pw_redis w) \<and> routes_fresh w' \<and>
     ledgered env nm f w \<subseteq> ledgered env nm f w')"

lemma grows_refl: "routes_fresh w \<Longrightarrow> grows env nm f w w"
  by (simp add: grows_def)

lemma grows_trans: "grows env nm f w w1 \<Longrightarrow> grows env nm f w1 w2 \<Longrightarrow> grows env nm f w w2"
  by (auto simp: grows_def)

lemma grows_fresh: "grows env nm f w w' \<Longrightarrow> routes_fresh w' \<and> route_now w' = route_now w"
  by (auto simp: grows_def route_now_def fun_eq_iff)

lemma grows_ledgered: "grows env nm f w w' \<Longrightarrow> x \<in> ledgered env nm f w \<Longrightarrow> x \<in> ledgered env nm f w'"
  by (auto simp: grows_def)

lemma grows_resolve:
  assumes "resolve_route env k me uid w = (r, w')" and "routes_fresh w"
  shows "grows env nm f w w'"
  using resolve_route_fresh [OF assms] resolve_route_frame [OF assms(1)]
  by (simp add: grows_def same_but_cache_def ledgered_def)

lemma grows_send: "local_send env me uid d p w = (n, w') \<Longrightarrow> routes_fresh w \<Longrightarrow> grows env nm f w w'"
  by (simp add: grows_def ledgered_def local_send_fresh local_send_frame)

lemma grows_persist:
  assumes "persist_unacked env u d q (user_payload env nm (Some q)) w = Some w'" and "f u = Some q" and "routes_fresh w"
  shows "grows env nm f w w' \<and> (u, d) \<in> ledgered env nm f w'"
proof -
  from assms(1) have w': "w' = set_unacked ((pr_unacked (pw_redis w))((u, d) :=
      kPushLua (pe_now env) q (pe_base64_encode env (user_payload env nm (Some q))) (pr_unacked (pw_redis w) (u, d)))) w"
    by (auto simp: persist_unacked_def UnackedPush_push_def split: if_splits)
  have "ledgered env nm f w \<subseteq> ledgered env nm f w'"
    using assms(2) by (auto simp: w' ledgered_def pending_def kPushLua_def split: if_splits)
  moreover have "(u, d) \<in> ledgered env nm f w'"
    using assms(2) by (auto simp: w' ledgered_def pending_def kPushLua_def)
  ultimately show ?thesis using assms(3) by (simp add: grows_def w')
qed

lemma deliver_devices_grows:
  assumes "deliver_devices env me u (f u) nm insts ds al w = (Some al', w')" and "routes_fresh w"
  shows "grows env nm f w w' \<and>
    (\<forall>d \<in> set ds. map_of insts d = Some me \<longrightarrow> f u \<noteq> None \<longrightarrow> (u, d) \<in> ledgered env nm f w') \<and>
    (al' \<longrightarrow> al \<or> (\<exists>d \<in> set ds. map_of insts d = Some me))"
  using assms
proof (induction ds arbitrary: al w)
  case Nil
  then show ?case by (simp add: grows_refl)
next
  case (Cons d ds)
  show ?case
  proof (cases "map_of insts d = Some me")
    case False
    then show ?thesis using Cons.IH [OF _ Cons.prems(2), of al] Cons.prems(1) by auto
  next
    case here: True
    show ?thesis
    proof (cases "f u")
      case None
      obtain n w1 where s: "local_send env me u d (pe_serialize env nm) w = (n, w1)" by fastforce
      note g = grows_send [OF s Cons.prems(2), of nm f]
      show ?thesis
        using Cons.IH [of True w1] Cons.prems(1) here None s g grows_fresh [OF g]
        by (auto intro: grows_trans)
    next
      case (Some q)
      then obtain w1 where p: "persist_unacked env u d q (user_payload env nm (Some q)) w = Some w1"
        using Cons.prems(1) here by (auto split: option.splits)
      obtain n w2 where s: "local_send env me u d (user_payload env nm (Some q)) w1 = (n, w2)" by fastforce
      note g1 = grows_persist [where f = f, OF p Some Cons.prems(2)]
      note g2 = grows_send [OF s conjunct1 [OF grows_fresh [OF conjunct1 [OF g1]]], of nm f]
      note g12 = grows_trans [OF conjunct1 [OF g1] g2]
      have ih: "grows env nm f w2 w' \<and>
          (\<forall>d \<in> set ds. map_of insts d = Some me \<longrightarrow> f u \<noteq> None \<longrightarrow> (u, d) \<in> ledgered env nm f w') \<and>
          (al' \<longrightarrow> (al \<or> 0 < n) \<or> (\<exists>d \<in> set ds. map_of insts d = Some me))"
        using Cons.IH [of "al \<or> 0 < n" w2] Cons.prems(1) here Some p s grows_fresh [OF g12] by simp
      moreover have "(u, d) \<in> ledgered env nm f w'"
        using grows_ledgered [OF g2 conjunct2 [OF g1]] grows_ledgered conjunct1 [OF ih] by blast
      ultimately show ?thesis using grows_trans [OF g12] here by auto
    qed
  qed
qed

lemma deliver_local_grows:
  assumes "deliver_local env me nm f us w = (Some remote, w')" and "routes_fresh w"
  shows "grows env nm f w w' \<and>
    (\<forall>u \<in> set us. \<forall>d. map_of (or_routes (pr_route (pw_redis w)) u) d = Some me \<longrightarrow> f u \<noteq> None \<longrightarrow>
       (u, d) \<in> ledgered env nm f w') \<and>
    (\<forall>u \<in> set us. me \<notin> snd ` set (or_routes (pr_route (pw_redis w)) u) \<longrightarrow> u \<in> set remote)"
  using assms
proof (induction us arbitrary: w remote)
  case Nil
  then show ?case by (simp add: grows_refl)
next
  case (Cons u us)
  let ?r = "route_now w u"
  obtain route w1 where r: "resolve_route env 2 me u w = (Some route, w1)"
    using Cons.prems(1) by (auto split: prod.splits option.splits)
  have route: "route = ?r" using resolve_route_fresh [OF r Cons.prems(2)] by simp
  note g1 = grows_resolve [OF r Cons.prems(2), of nm f]
  obtain al w2 where d: "(if re_device_ids ?r = [] then (Some False, w1)
      else deliver_devices env me u (f u) nm (re_device_to_instance ?r) (re_device_ids ?r) False w1) = (Some al, w2)"
    using Cons.prems(1) r route by (auto split: prod.splits option.splits)
  have g2: "grows env nm f w1 w2 \<and>
      (\<forall>d \<in> set (re_device_ids ?r). map_of (re_device_to_instance ?r) d = Some me \<longrightarrow> f u \<noteq> None \<longrightarrow>
         (u, d) \<in> ledgered env nm f w2) \<and>
      (al \<longrightarrow> (\<exists>d \<in> set (re_device_ids ?r). map_of (re_device_to_instance ?r) d = Some me))"
    using d deliver_devices_grows [where f = f and u = u, of env me nm "re_device_to_instance ?r" "re_device_ids ?r" False w1 al w2]
      grows_fresh [OF g1] by (auto simp: grows_refl split: if_splits)
  note g12 = grows_trans [OF g1 conjunct1 [OF g2]]
  obtain remote' where l: "deliver_local env me nm f us w2 = (Some remote', w')"
    and rem: "remote = (if al then remote' else u # remote')"
    using Cons.prems(1) r route d by (auto split: prod.splits option.splits if_splits)
  have same: "pr_route (pw_redis w2) = pr_route (pw_redis w)" using g12 by (simp add: grows_def)
  have ih: "grows env nm f w2 w' \<and>
    (\<forall>u \<in> set us. \<forall>d. map_of (or_routes (pr_route (pw_redis w)) u) d = Some me \<longrightarrow> f u \<noteq> None \<longrightarrow>
       (u, d) \<in> ledgered env nm f w') \<and>
    (\<forall>u \<in> set us. me \<notin> snd ` set (or_routes (pr_route (pw_redis w)) u) \<longrightarrow> u \<in> set remote')"
    using Cons.IH [OF l conjunct1 [OF grows_fresh [OF g12]]] by (simp add: same)
  have here: "(u, d) \<in> ledgered env nm f w'"
    if "map_of (or_routes (pr_route (pw_redis w)) u) d = Some me" "f u \<noteq> None" for d
  proof -
    have "d \<in> fst ` set (or_routes (pr_route (pw_redis w)) u)"
      using that(1) by (metis map_of_eq_None_iff option.distinct(1))
    then have "(u, d) \<in> ledgered env nm f w2" using g2 that by (auto simp: route_now_def route_of_map_def)
    then show ?thesis using ih grows_ledgered by blast
  qed
  have away: "\<not> al" if "me \<notin> snd ` set (or_routes (pr_route (pw_redis w)) u)"
    using g2 that by (force simp: route_now_def route_of_map_def dest: map_of_SomeD)
  from ih here away grows_trans [OF g12] show ?case by (auto simp: rem)
qed

lemma batch_devices_grows:
  assumes "batch_devices env me u (f u) (user_payload env nm (f u)) ds w = (Some n, w')" and "routes_fresh w"
  shows "grows env nm f w w' \<and> (\<forall>d \<in> set ds. f u \<noteq> None \<longrightarrow> (u, d) \<in> ledgered env nm f w')"
  using assms
proof (induction ds arbitrary: w n)
  case Nil
  then show ?case by (simp add: grows_refl)
next
  case (Cons d ds)
  let ?p = "user_payload env nm (f u)"
  obtain w1 where p: "(case f u of None \<Rightarrow> Some w | Some q \<Rightarrow> persist_unacked env u d q ?p w) = Some w1"
    using Cons.prems(1) by (auto split: option.splits)
  obtain k w2 where s: "local_send env me u d ?p w1 = (k, w2)" by fastforce
  obtain m where b: "batch_devices env me u (f u) ?p ds w2 = (Some m, w')"
    using Cons.prems(1) p s by (auto split: prod.splits option.splits)
  have g1: "grows env nm f w w1 \<and> (f u \<noteq> None \<longrightarrow> (u, d) \<in> ledgered env nm f w1)"
    using p grows_persist [where f = f, OF _ _ Cons.prems(2)] grows_refl [OF Cons.prems(2)]
    by (cases "f u") auto
  note g2 = grows_send [OF s conjunct1 [OF grows_fresh [OF conjunct1 [OF g1]]], of nm f]
  note ih = Cons.IH [OF b conjunct1 [OF grows_fresh [OF g2]]]
  have "grows env nm f w w'" using g1 g2 ih grows_trans by blast
  moreover have "(u, d) \<in> ledgered env nm f w'" if "f u \<noteq> None"
    using that g1 grows_ledgered [OF grows_trans [OF g2 conjunct1 [OF ih]]] by blast
  ultimately show ?case using ih by auto
qed

lemma batch_users_grows:
  assumes "batch_users env me nm g us w = (Some n, w')" and "routes_fresh w" and "\<forall>u \<in> set us. g u = f u"
  shows "grows env nm f w w' \<and>
    (\<forall>u \<in> set us. \<forall>d \<in> fst ` set (or_routes (pr_route (pw_redis w)) u). f u \<noteq> None \<longrightarrow> (u, d) \<in> ledgered env nm f w')"
  using assms
proof (induction us arbitrary: w n)
  case Nil
  then show ?case by (simp add: grows_refl)
next
  case (Cons u us)
  obtain route w1 where r: "resolve_route env 1 me u w = (Some route, w1)"
    using Cons.prems(1) by (auto split: prod.splits option.splits)
  have route: "route = route_now w u" using resolve_route_fresh [OF r Cons.prems(2)] by simp
  note g1 = grows_resolve [OF r Cons.prems(2), of nm f]
  have gu: "g u = f u" using Cons.prems(3) by simp
  obtain k w2 where d: "batch_devices env me u (f u) (user_payload env nm (f u)) (re_device_ids route) w1 = (Some k, w2)"
    using Cons.prems(1) r gu by (auto split: prod.splits option.splits)
  note g2 = batch_devices_grows [where f = f, OF d conjunct1 [OF grows_fresh [OF g1]]]
  note g12 = grows_trans [OF g1 conjunct1 [OF g2]]
  obtain m where b: "batch_users env me nm g us w2 = (Some m, w')"
    using Cons.prems(1) r gu d by (auto split: prod.splits option.splits)
  have same: "pr_route (pw_redis w2) = pr_route (pw_redis w)" using g12 by (simp add: grows_def)
  note ih = Cons.IH [OF b conjunct1 [OF grows_fresh [OF g12]]]
  have "grows env nm f w w'" using ih Cons.prems(3) grows_trans [OF g12] by simp
  moreover have "(u, d) \<in> ledgered env nm f w'"
    if "d \<in> fst ` set (or_routes (pr_route (pw_redis w)) u)" "f u \<noteq> None" for d
    using g2 that grows_ledgered [of env nm f w2 w'] ih Cons.prems(3)
    by (auto simp: route route_now_def route_of_map_def)
  ultimately show ?case using ih Cons.prems(3) by (auto simp: same)
qed

section \<open>Other instances\<close>

lemma map_of_rev_pairs:
  "u \<in> set us \<Longrightarrow> map_of (rev (List.map_filter (\<lambda>u. map_option (Pair u) (f u)) us)) u = f u"
proof -
  have in_set: "(v, q) \<in> set (List.map_filter (\<lambda>u. map_option (Pair u) (f u)) us) \<Longrightarrow> f v = Some q \<and> v \<in> set us" for v q
    by (induction us) (auto simp: List.map_filter_simps split: option.splits)
  have mem: "u \<in> set us \<Longrightarrow> f u = Some q \<Longrightarrow> u \<in> fst ` set (List.map_filter (\<lambda>u. map_option (Pair u) (f u)) us)" for q
    by (induction us) (auto simp: List.map_filter_simps split: option.splits)
  assume u: "u \<in> set us"
  show ?thesis
  proof (cases "map_of (rev (List.map_filter (\<lambda>u. map_option (Pair u) (f u)) us)) u")
    case None
    then have "u \<notin> fst ` set (List.map_filter (\<lambda>u. map_option (Pair u) (f u)) us)"
      using map_of_eq_None_iff [of "rev (List.map_filter (\<lambda>u. map_option (Pair u) (f u)) us)" u] by (simp only: set_rev) blast
    then have "f u = None" using mem [OF u] by (cases "f u") blast+
    then show ?thesis using None by simp
  next
    case (Some q)
    then have "(u, q) \<in> set (List.map_filter (\<lambda>u. map_option (Pair u) (f u)) us)" using map_of_SomeD by fastforce
    then show ?thesis using in_set Some by simp
  qed
qed

lemma PushBatch_grows:
  assumes "PushBatch env peer (peer_request nm rid f us) w = ((h, n), w')" and "hdr_success h" and "routes_fresh w"
  shows "grows env nm f w w' \<and>
    (\<forall>u \<in> set us. \<forall>d \<in> fst ` set (or_routes (pr_route (pw_redis w)) u). f u \<noteq> None \<longrightarrow> (u, d) \<in> ledgered env nm f w')"
proof -
  obtain k where "batch_users env peer nm
      (map_of (rev (List.map_filter (\<lambda>u. map_option (Pair u) (f u)) us))) us w = (Some k, w')"
    using assms(1,2)
    by (auto simp: PushBatch_def peer_request_def unavailable_header_def split: prod.splits option.splits)
  then show ?thesis by (rule batch_users_grows [OF _ assms(3)]) (simp add: map_of_rev_pairs)
qed

lemma call_peers_grows:
  assumes "call_peers env nm rid f g w = (True, w')" and "routes_fresh w"
  shows "grows env nm f w w' \<and>
    (\<forall>(p, us) \<in> set g. \<forall>u \<in> set us. \<forall>d \<in> fst ` set (or_routes (pr_route (pw_redis w)) u).
       f u \<noteq> None \<longrightarrow> (u, d) \<in> ledgered env nm f w')"
  using assms
proof (induction g arbitrary: w)
  case Nil
  then show ?case by (simp add: grows_refl)
next
  case (Cons e g)
  obtain p us where e: "e = (p, us)" by fastforce
  obtain q where q: "pe_peer env p = Peer_answered q"
    using Cons.prems(1) e by (auto split: peer_outcome.splits)
  obtain h n w1 where b: "PushBatch env q (peer_request nm rid f us) w = ((h, n), w1)" by (metis prod.exhaust)
  have h: "hdr_success h" and c: "call_peers env nm rid f g w1 = (True, w')"
    using Cons.prems(1) e b q by (auto split: if_splits)
  note g1 = PushBatch_grows [OF b h Cons.prems(2)]
  have same: "pr_route (pw_redis w1) = pr_route (pw_redis w)" using g1 by (simp add: grows_def)
  note ih = Cons.IH [OF c conjunct1 [OF grows_fresh [OF conjunct1 [OF g1]]]]
  have "grows env nm f w w'" using g1 ih grows_trans by blast
  moreover have "(u, d) \<in> ledgered env nm f w'"
    if "u \<in> set us" "d \<in> fst ` set (or_routes (pr_route (pw_redis w)) u)" "f u \<noteq> None" for u d
    using g1 that grows_ledgered [OF conjunct1 [OF ih]] by blast
  ultimately show ?case using ih by (simp only: same e list.set ball_simps split_conv) blast
qed

definition in_group :: "(string \<times> uid list) list \<Rightarrow> string \<Rightarrow> uid \<Rightarrow> bool" where
  "in_group g p u = (\<exists>us. map_of g p = Some us \<and> u \<in> set us)"

lemma in_group_add_peer: "in_group (add_peer u p g) q v \<longleftrightarrow> in_group g q v \<or> (q = p \<and> v = u)"
  by (auto simp: in_group_def add_peer_def split: option.splits)

lemma in_group_fold: "in_group (fold (add_peer u) ps g) q v \<longleftrightarrow> in_group g q v \<or> (q \<in> set ps \<and> v = u)"
  by (induction ps arbitrary: g) (auto simp: in_group_add_peer)

lemma group_by_peer_groups:
  assumes "group_by_peer env me us g w = (Some g', w')" and "routes_fresh w"
  shows "grows env nm f w w' \<and> (\<forall>p u. in_group g p u \<longrightarrow> in_group g' p u) \<and>
    (\<forall>u \<in> set us. \<forall>p \<in> set (peers_of me (route_now w u)). in_group g' p u)"
  using assms
proof (induction us arbitrary: g w)
  case Nil
  then show ?case by (simp add: grows_refl)
next
  case (Cons u us)
  obtain route w1 where r: "resolve_route env 3 me u w = (Some route, w1)"
    using Cons.prems(1) by (auto split: prod.splits option.splits)
  have route: "route = route_now w u" using resolve_route_fresh [OF r Cons.prems(2)] by simp
  note g1 = grows_resolve [OF r Cons.prems(2), of nm f]
  have "group_by_peer env me us (fold (add_peer u) (peers_of me route) g) w1 = (Some g', w')"
    using Cons.prems(1) r by simp
  from Cons.IH [OF this conjunct1 [OF grows_fresh [OF g1]]] show ?case
    using grows_trans [OF g1] grows_fresh [OF g1] by (auto simp: in_group_fold route)
qed


section \<open>An acknowledged message is in the ledger\<close>



text \<open>Two instances; user \<open>u\<close> has device \<open>p\<close> on \<open>B\<close>, user \<open>v\<close> has \<open>p\<close> on \<open>B\<close> and \<open>t\<close> on \<open>A\<close>.\<close>

definition demo_internal :: "uid \<Rightarrow> internal_message" where
  "demo_internal u = \<lparr>im_message = empty_message, im_member_id_list = [u], im_user_seqs = [(u, 7)],
     im_is_large_group = False\<rparr>"

definition demo_penv :: push_env where
  "demo_penv = \<lparr>pe_now = 100, pe_now_ms = 100000, pe_steady = 0, pe_route_ttl = 2, pe_jitter = 0, pe_up = all_up,
     pe_route_ok = \<lambda>_ _. True, pe_persist_ok = \<lambda>_ _. True, pe_open = \<lambda>_. True, pe_send_ok = \<lambda>_. True,
     pe_serialize = \<lambda>_. ''x'', pe_parse_notify = \<lambda>_. None, pe_parse_internal = \<lambda>u. Some (demo_internal u),
     pe_base64_encode = id, pe_base64_decode = id, pe_trace_id = [], pe_jwt = demo_lib, pe_jwt_config = demo_jwt_config,
     pe_peer = Peer_answered, pe_message_channel = True, pe_scanned = \<lambda>_. [], pe_resend_batch = 50,
     pe_resend_max_age_sec = 5\<rparr>"

definition demo_instance :: "string \<Rightarrow> push_instance" where
  "demo_instance i = \<lparr>pi_connections = (if i = ''A'' then snd (Connection_insert 1 1 ''v'' ''t'' ''j'' empty_connections)
       else if i = ''B'' then snd (Connection_insert 1 2 ''v'' ''p'' ''j'' empty_connections) else empty_connections),
     pi_route_cache = LocalCache_new 4, pi_sent = [], pi_closed = []\<rparr>"

definition demo_world :: push_world where
  "demo_world = \<lparr>pw_redis = \<lparr>pr_route = \<lparr>or_routes = (\<lambda>u. if u = ''u'' then [(''p'', ''B'')]
         else if u = ''v'' then [(''t'', ''A''), (''p'', ''B'')] else []), or_device_set = (\<lambda>_. [])\<rparr>,
       pr_unacked = (\<lambda>_. no_unacked), pr_presence = no_presence\<rparr>,
     pw_instance = demo_instance, pw_read_acks = []\<rparr>"

lemma demo_world_fresh: "routes_fresh demo_world"
  by (simp add: routes_fresh_def lc.all_ok_def demo_world_def demo_instance_def lc_sync_def lc_stored_def lc_abs_def LocalCache_new_def)



section \<open>A device elsewhere is forgotten\<close>

lemma persist_unacked_frame:
  assumes "persist_unacked env u d q p w = Some w'"
  shows "pw_instance w' = pw_instance w" "k \<noteq> (u, d) \<Longrightarrow> pr_unacked (pw_redis w') k = pr_unacked (pw_redis w) k"
  using assms by (auto simp: persist_unacked_def UnackedPush_push_def split: if_splits)

lemma local_send_count:
  "fst (local_send env me u d p w) =
     length (filter (\<lambda>c. pe_open env c \<and> pe_send_ok env c)
       (take (length (Connection_send_mutexes u d (pi_connections (pw_instance w me))))
          (Connection_connections u d (pi_connections (pw_instance w me)))))"
  by (simp add: local_send_def Let_def)

lemma deliver_devices_elsewhere:
  assumes "deliver_devices env me u (Some q) nm insts ds al w = (Some al', w')" and "map_of insts d \<noteq> Some me"
  shows "pr_unacked (pw_redis w') (u, d) = pr_unacked (pw_redis w) (u, d) \<and>
    (\<forall>x. x \<noteq> me \<longrightarrow> pw_instance w' x = pw_instance w x) \<and>
    (\<forall>e p. e \<in> set ds \<longrightarrow> map_of insts e = Some me \<longrightarrow> 0 < fst (local_send env me u e p w) \<longrightarrow> al') \<and> (al \<longrightarrow> al')"
  using assms
proof (induction ds arbitrary: al w)
  case Nil
  then show ?case by simp
next
  case (Cons e ds)
  show ?case
  proof (cases "map_of insts e = Some me")
    case False
    then show ?thesis using Cons by auto
  next
    case True
    let ?p = "user_payload env nm (Some q)"
    obtain w1 where p: "persist_unacked env u e q ?p w = Some w1"
      using Cons.prems(1) True by (auto split: option.splits)
    obtain n w2 where s: "local_send env me u e ?p w1 = (n, w2)" by fastforce
    have n: "n = fst (local_send env me u e ?p w1)" by (simp add: s)
    have rest: "deliver_devices env me u (Some q) nm insts ds (al \<or> 0 < n) w2 = (Some al', w')"
      using Cons.prems(1) True p s by simp
    have conns: "pi_connections (pw_instance w2 me) = pi_connections (pw_instance w me)"
      by (simp add: local_send_frame(3) [OF s] persist_unacked_frame(1) [OF p])
    note ih = Cons.IH [OF rest Cons.prems(2)]
    have "(u, d) \<noteq> (u, e)" using True Cons.prems(2) by auto
    moreover have sent2: "fst (local_send env me u x y w2) = fst (local_send env me u x y w)" for x y
      by (simp add: local_send_count conns)
    moreover have "n = fst (local_send env me u e z w)" for z
      by (simp add: n local_send_count persist_unacked_frame(1) [OF p])
    ultimately show ?thesis
      using ih by (auto simp: sent2 local_send_frame(1,4) [OF s] persist_unacked_frame [OF p])
  qed
qed

text \<open>
  A device on another instance can be lost silently. When the only member of a message has
  one device connected to the consuming instance, which takes the frame, and another device on some
  other instance, then the message is acknowledged with nothing sent on any other instance and
  no ledger entry for the other device: it is neither pushed there nor kept for a later resend.
\<close>

theorem second_instance_device_forgotten:
  assumes "routes_fresh w" and "pe_parse_internal env body = Some im" and "im_member_id_list im = [u]"
    and "map_of (rev (im_user_seqs im)) u = Some q"
    and "map_of (or_routes (pr_route (pw_redis w)) u) here = Some me" and "0 < fst (local_send env me u here p w)"
    and "map_of (or_routes (pr_route (pw_redis w)) u) there = Some other" and "other \<noteq> me"
    and "pe_route_ok env 2 u" and "\<And>d. pe_persist_ok env u d"
    and "onPushMessage env me body w = (r, w')"
  shows "r = Ack \<and> pr_unacked (pw_redis w') (u, there) = pr_unacked (pw_redis w) (u, there)
    \<and> (\<forall>x. x \<noteq> me \<longrightarrow> pw_instance w' x = pw_instance w x)"
proof -
  let ?f = "map_of (rev (im_user_seqs im))" and ?nm = "chat_notify env (im_message im)" and ?r = "route_now w u"
  obtain ro w1 where r1: "resolve_route env 2 me u w = (ro, w1)" by fastforce
  have "ro \<noteq> None"
    using r1 assms(9) by (auto simp: resolve_route_def device_instances_map_strict_def Let_def split: prod.splits option.splits)
  then have ro: "ro = Some ?r" using resolve_route_fresh [OF r1 assms(1)] by auto
  have red: "pw_redis w1 = pw_redis w" "pi_connections (pw_instance w1 x) = pi_connections (pw_instance w x)" for x
    using resolve_route_frame(1) [OF r1] by (simp_all add: same_but_cache_def)
  have ok: "fst (deliver_devices env me u (Some q) ?nm insts ds al v) \<noteq> None" for insts ds al v
    by (induction ds arbitrary: al v)
      (auto simp: persist_unacked_def UnackedPush_push_def assms(10) split: prod.splits option.splits)
  obtain al w2 where d: "deliver_devices env me u (Some q) ?nm (re_device_to_instance ?r) (re_device_ids ?r) False w1 = (Some al, w2)"
    using ok [of "re_device_to_instance ?r" "re_device_ids ?r" False w1] by (metis option.exhaust prod.collapse)
  have ids: "here \<in> set (re_device_ids ?r)" "re_device_to_instance ?r = or_routes (pr_route (pw_redis w)) u"
    using assms(5) by (auto simp: route_now_def route_of_map_def image_iff dest!: map_of_SomeD intro: rev_bexI)
  have "map_of (re_device_to_instance ?r) there \<noteq> Some me" using assms(7,8) by (simp add: ids(2))
  note e = deliver_devices_elsewhere [OF d this]
  have "0 < fst (local_send env me u here p w1)" using assms(6) by (simp add: local_send_count red)
  then have al using e ids assms(5) by (metis ids(2))
  then have "deliver_local env me ?nm ?f (im_member_id_list im) w = (Some [], w2)"
    using assms(3,4) r1 ro d ids(1) by (cases "re_device_ids ?r") simp_all
  then have "onPushMessage env me body w = (Ack, w2)" using assms(2) by (simp add: onPushMessage_def Let_def)
  then show ?thesis using assms(11) e red resolve_route_frame(2) [OF r1] by auto
qed

theorem second_instance_device_forgotten_witness:
  "\<exists>w'. onPushMessage demo_penv ''A'' ''v'' demo_world = (Ack, w') \<and>
     pr_unacked (pw_redis w') (''v'', ''p'') = no_unacked \<and> pw_instance w' ''B'' = demo_instance ''B''"
proof -
  obtain r w' where w': "onPushMessage demo_penv ''A'' ''v'' demo_world = (r, w')" by fastforce
  have "r = Ack \<and> pr_unacked (pw_redis w') (''v'', ''p'') = pr_unacked (pw_redis demo_world) (''v'', ''p'')
    \<and> (\<forall>x. x \<noteq> ''A'' \<longrightarrow> pw_instance w' x = pw_instance demo_world x)"
    by (rule second_instance_device_forgotten [OF demo_world_fresh, where im = "demo_internal ''v''" and q = 7
          and other = "''B''" and ?here = "''t''" and p = "[]", OF _ _ _ _ _ _ _ _ _ w'])
      (simp_all add: demo_penv_def demo_internal_def demo_world_def local_send_count demo_instance_def Connection_insert_def
        Connection_connections_def Connection_send_mutexes_def empty_connections_def Let_def)
  then show ?thesis using w' by (auto simp: demo_world_def)
qed


section \<open>What a client message may remove\<close>

definition ledgers_ok :: "push_world \<Rightarrow> bool" where
  "ledgers_ok w = (\<forall>k. ledger_ok (pr_unacked (pw_redis w) k))"

definition all_pending :: "push_world \<Rightarrow> uid \<times> did \<Rightarrow> u64 \<Rightarrow> string option" where
  "all_pending w k = pending (pr_unacked (pw_redis w) k)"

text \<open>Steps after which every ledger holds the same entries.\<close>

definition keeps_pending :: "push_world \<Rightarrow> push_world \<Rightarrow> bool" where
  "keeps_pending w w' = (ledgers_ok w \<longrightarrow> ledgers_ok w' \<and> all_pending w' = all_pending w)"

lemma keeps_refl: "pr_unacked (pw_redis w') = pr_unacked (pw_redis w) \<Longrightarrow> keeps_pending w w'"
  by (simp add: keeps_pending_def ledgers_ok_def all_pending_def fun_eq_iff)

lemma keeps_trans: "keeps_pending w w1 \<Longrightarrow> keeps_pending w1 w2 \<Longrightarrow> keeps_pending w w2"
  by (simp add: keeps_pending_def)

lemma resolve_redis: "resolve_route env k me u w = (r, w') \<Longrightarrow> pw_redis w' = pw_redis w"
  using resolve_route_frame(1) [of env k me u w r w'] by (simp add: same_but_cache_def)

lemma send_redis: "pw_redis (snd (local_send env me u d p w)) = pw_redis w"
  using local_send_frame(1) by (metis prod.collapse)

lemma batch_devices_unnumbered:
  "pw_redis (snd (batch_devices env me u None p ds w)) = pw_redis w"
proof (induction ds arbitrary: w)
  case (Cons d ds)
  then show ?case
    using send_redis [of env me u d p w] by (auto split: prod.splits option.splits) (metis snd_conv)+
qed simp

lemma batch_users_unnumbered:
  "pw_redis (snd (batch_users env me nm (\<lambda>_. None) us w)) = pw_redis w"
proof (induction us arbitrary: w)
  case (Cons u us)
  obtain r w1 where r: "resolve_route env 1 me u w = (r, w1)" by fastforce
  show ?case
  proof (cases r)
    case None
    then show ?thesis using r resolve_redis [OF r] by simp
  next
    case (Some route)
    obtain b w2 where b: "batch_devices env me u None (user_payload env nm None) (re_device_ids route) w1 = (b, w2)" by fastforce
    obtain c w3 where c: "batch_users env me nm (\<lambda>_. None) us w2 = (c, w3)" by fastforce
    show ?thesis
      using r Some b c Cons [of w2] resolve_redis [OF r]
        batch_devices_unnumbered [of env me u "user_payload env nm None" "re_device_ids route" w1]
      by (auto split: option.splits)
  qed
qed simp

lemma presence_batch_redis:
  "pw_redis (snd (PushBatch env p (presence_request u nm us) w)) = pw_redis w"
  using batch_users_unnumbered [of env p nm "remdups_adj (sort us)" w]
  by (auto simp: PushBatch_def presence_request_def split: prod.splits option.splits)

lemma presence_peers_redis: "pw_redis (presence_peers env u nm g w) = pw_redis w"
  by (induction env u nm g w rule: presence_peers.induct)
    (auto simp: presence_batch_redis split: peer_outcome.splits)

lemma presence_devices_redis:
  "pw_redis (snd (presence_devices env me p u insts ds g w)) = pw_redis w"
  by (induction ds arbitrary: g w) (auto simp: Let_def send_redis)

lemma presence_subs_redis:
  "pw_redis (snd (presence_subs env me p us g w)) = pw_redis w"
proof (induction us arbitrary: g w)
  case (Cons u us)
  obtain r w1 where r: "resolve_route env 5 me u w = (r, w1)" by fastforce
  show ?case
  proof (cases r)
    case None
    then show ?thesis using r resolve_redis [OF r] by simp
  next
    case (Some route)
    obtain g2 w2 where d: "presence_devices env me p u (re_device_to_instance route) (re_device_ids route) g w1 = (g2, w2)" by fastforce
    show ?thesis
      using r Some d Cons [of g2 w2] resolve_redis [OF r]
        presence_devices_redis [of env me p u "re_device_to_instance route" "re_device_ids route" g w1] by simp
  qed
qed simp

lemma notify_presence_redis:
  "pw_redis (notify_presence_change env me u st w) = pw_redis w"
  using presence_subs_redis [of env me]
  by (auto simp: notify_presence_change_def Let_def presence_peers_redis split: prod.splits option.splits)
    (metis snd_conv)+

lemma resend_one_redis: "pw_redis (resend_one env me u d e w) = pw_redis w"
  by (simp add: resend_one_def Let_def send_redis)

lemma fold_resend_redis: "pw_redis (fold (resend_one env me u d) es w) = pw_redis w"
  by (induction es arbitrary: w) (simp_all add: resend_one_redis)

lemma peek_keeps:
  assumes "ledger_ok (m (u, d))"
  shows "snd (UnackedPush_peek_due ok now u d lim age scanned m) = m"
  using assms by (simp add: UnackedPush_peek_due_def kPeekDueLua_ok)

lemma resend_devices_keeps: "keeps_pending w (resend_devices env me u ds w)"
proof (induction ds arbitrary: w)
  case Nil
  then show ?case by (simp add: keeps_refl)
next
  case (Cons d ds)
  show ?case
  proof (cases "ledgers_ok w")
    case False
    then show ?thesis by (simp add: keeps_pending_def)
  next
    case True
    let ?m = "pr_unacked (pw_redis w)"
    obtain due m where pk: "UnackedPush_peek_due (pe_up env 13 0) (pe_now env) u d (pe_resend_batch env)
        (pe_resend_max_age_sec env) (pe_scanned env (u, d)) ?m = (due, m)" by fastforce
    have m: "m = ?m" using peek_keeps [of ?m u d] True pk by (metis ledgers_ok_def snd_conv)
    let ?w2 = "fold (resend_one env me u d) due (set_unacked m w)"
    let ?w3 = "set_unacked (UnackedPush_bump_score (pe_up env 14 0) (pe_now env) u d (map fst due) ?m) ?w2"
    have bump: "keeps_pending w ?w3"
      using True kBumpScoreLua_ok [of "?m (u, d)"]
      by (auto simp: keeps_pending_def ledgers_ok_def all_pending_def UnackedPush_bump_score_def fun_eq_iff)
    have "keeps_pending w (set_unacked m w)" by (rule keeps_refl) (simp add: m)
    with bump Cons show ?thesis
      using pk by (auto simp: Let_def fold_resend_redis m intro: keeps_trans)
  qed
qed

lemma heartbeat_keeps: "on_heartbeat_resend env me u w = (b, w') \<Longrightarrow> keeps_pending w w'"
  using resolve_redis [of env 4 me u w] keeps_trans [OF keeps_refl resend_devices_keeps]
  by (auto simp: on_heartbeat_resend_def keeps_refl split: prod.splits option.splits if_splits)

lemma write_presence_unacked [simp]: "pr_unacked (pw_redis (write_presence env k st u d w)) = pr_unacked (pw_redis w)"
  by (simp add: write_presence_def)

lemma connect_client_unacked: "pr_unacked (pw_redis (connect_client env me c cl w)) = pr_unacked (pw_redis w)"
  by (simp add: connect_client_def Let_def set_route_def split: prod.splits)

lemma client_auth_keeps:
  assumes "handle_client_auth env me c tok dev q w = (b, w')"
  shows "keeps_pending w w'"
proof -
  have "keeps_pending w (notify_presence_change env me u st (write_presence_online env u d (connect_client env me c cl w)))" for u st d cl
    by (rule keeps_refl) (simp add: notify_presence_redis write_presence_online_def connect_client_unacked)
  then show ?thesis
    using assms keeps_trans [OF _ heartbeat_keeps]
    by (auto simp: handle_client_auth_def close_conn_def keeps_refl Let_def split: sum.splits exn.splits option.splits if_splits)
      (blast intro: keeps_trans heartbeat_keeps)
qed

lemma handle_push_ack_cases:
  "pr_unacked (pw_redis (handle_push_ack env me c a w)) = pr_unacked (pw_redis w) \<or>
   (\<exists>jti. Connection_client c (pi_connections (pw_instance w me)) = Some (pa_user_id a, pa_device_id a, jti)) \<and>
   pa_user_id a \<noteq> [] \<and>
   pr_unacked (pw_redis (handle_push_ack env me c a w)) = (pr_unacked (pw_redis w))((pa_user_id a, pa_device_id a) :=
     kAckLua (pa_user_seq a) (pr_unacked (pw_redis w) (pa_user_id a, pa_device_id a)))"
  by (auto simp: handle_push_ack_def UnackedPush_ack_def Let_def split: option.splits)

lemma ack_changes_own_entry:
  assumes "w' = handle_push_ack env me c a w" and "ledgers_ok w"
  shows "ledgers_ok w' \<and> (all_pending w' (u, d) q = all_pending w (u, d) q \<or>
    all_pending w' (u, d) q = None \<and> pa_user_id a = u \<and> pa_device_id a = d \<and> pa_user_seq a = q \<and> u \<noteq> [] \<and>
    (\<exists>jti. Connection_client c (pi_connections (pw_instance w me)) = Some (u, d, jti)))"
proof -
  have p: "pending (kAckLua x l) q = (if q = x then None else pending l q)" for x l
    by (simp add: pending_def kAckLua_def)
  from handle_push_ack_cases [of env me c a w] show ?thesis
    using assms ledger_ok_ack by (auto simp: ledgers_ok_def all_pending_def p split: if_splits)
qed

text \<open>
  Claim C14. No message on a WebSocket connection removes or changes an unacknowledged push except the
  acknowledgement of the device itself. Whatever bytes a client sends, with every failure of the
  calls, an entry of the ledgers changes only if the message is a push acknowledgement naming that
  user, device and sequence number on a connection that authenticated as exactly that user and device,
  and then the entry is removed.
\<close>

theorem only_own_ack_removes_push:
  assumes "ledgers_ok w" and "ws_message env me c bytes w = (b, w')"
  shows "ledgers_ok w' \<and>
    (all_pending w' (u, d) q = all_pending w (u, d) q \<or>
     all_pending w' (u, d) q = None \<and>
     (\<exists>nm a jti. pe_parse_notify env bytes = Some nm \<and> nm_notify_type nm = MSG_PUSH_ACK \<and> nm_remarks nm = Msg_push_ack a
        \<and> pa_user_id a = u \<and> pa_device_id a = d \<and> pa_user_seq a = q
        \<and> Connection_client c (pi_connections (pw_instance w me)) = Some (u, d, jti)))"
proof (cases "pe_parse_notify env bytes")
  case None
  then show ?thesis using assms by (auto simp: ws_message_def close_conn_def ledgers_ok_def all_pending_def)
next
  case (Some nm)
  let ?w = "if Connection_client c (pi_connections (pw_instance w me)) = None then w else touch_connection env me c w"
  have un: "pr_unacked (pw_redis ?w) = pr_unacked (pw_redis w)" by (simp add: touch_connection_def Let_def)
  have cl: "Connection_client c (pi_connections (pw_instance ?w me)) = None \<longleftrightarrow>
      Connection_client c (pi_connections (pw_instance w me)) = None"
    and same: "Connection_client c (pi_connections (pw_instance ?w me)) = Connection_client c (pi_connections (pw_instance w me))"
    by (auto simp: touch_connection_def Let_def Connection_client_def Connection_touch_def map_of_touch option.map_comp comp_def)
  consider (closed) "w' = close_conn me c w" | (handled) "onClientNotify env me c nm ?w = (b, w')"
    using assms(2) Some by (auto simp: ws_message_def split: option.splits if_splits)
  then show ?thesis
  proof cases
    case closed
    then show ?thesis using assms(1) by (auto simp: close_conn_def ledgers_ok_def all_pending_def)
  next
    case handled
    have keep: "keeps_pending ?w w' \<Longrightarrow> ?thesis"
      using assms(1) un by (simp add: keeps_pending_def ledgers_ok_def all_pending_def)
    show ?thesis
    proof (cases "nm_notify_type nm = MSG_PUSH_ACK")
      case False
      then show ?thesis
        using handled keep client_auth_keeps heartbeat_keeps
        by (auto simp: onClientNotify_def keeps_refl split: prod.splits if_splits)
    next
      case True
      let ?a = "msg_push_ack_field nm"
      have w': "w' = handle_push_ack env me c ?a ?w" using handled True by (simp add: onClientNotify_def notify_type_defs)
      have ok: "ledgers_ok ?w" using assms(1) un by (simp add: ledgers_ok_def)
      have a: "nm_remarks nm = Msg_push_ack ?a" if "pa_user_id ?a \<noteq> []"
        using that by (cases "nm_remarks nm") (auto simp: msg_push_ack_field_def)
      have "all_pending ?w = all_pending w" using un by (simp add: all_pending_def fun_eq_iff)
      then show ?thesis
        using ack_changes_own_entry [OF w' ok, of u d q] a Some True unfolding same by metis
    qed
  qed
qed


definition demo_ack :: notify_message where
  "demo_ack = notify MSG_PUSH_ACK (Msg_push_ack \<lparr>pa_user_id = ''v'', pa_device_id = ''t'', pa_message_id = 5,
     pa_user_seq = 7, pa_conversation_id = [], pa_seq_id = 0\<rparr>)"

definition demo_ledger_world :: push_world where
  "demo_ledger_world = set_unacked (\<lambda>k. kPushLua 1 7 ''x'' no_unacked) demo_world"

lemma demo_ledger_ok: "ledgers_ok demo_ledger_world"
  using ledger_ok_push [OF ledger_ok_none] by (simp add: ledgers_ok_def demo_ledger_world_def)

theorem only_own_ack_removes_push_witness:
  "\<exists>w'. ws_message (demo_penv\<lparr>pe_parse_notify := \<lambda>_. Some demo_ack\<rparr>) ''A'' 1 [] demo_ledger_world = (True, w')
     \<and> all_pending w' (''v'', ''t'') 7 = None \<and> all_pending w' (''v'', ''p'') 7 = Some ''x''"
proof -
  let ?env = "demo_penv\<lparr>pe_parse_notify := \<lambda>_. Some demo_ack\<rparr>"
  obtain b w' where w': "ws_message ?env ''A'' 1 [] demo_ledger_world = (b, w')" by fastforce
  have b: "b \<and> all_pending w' (''v'', ''t'') 7 = None"
    using w' by (auto simp: ws_message_def demo_ack_def notify_def onClientNotify_def notify_type_defs handle_push_ack_def
      demo_ledger_world_def demo_world_def demo_instance_def touch_connection_def Connection_touch_def Connection_insert_def
      Connection_client_def empty_connections_def is_valid_push_ack_ids_def msg_push_ack_field_def demo_penv_def
      UnackedPush_ack_def kAckLua_def all_pending_def pending_def Let_def)
  have "all_pending w' (''v'', ''p'') 7 = all_pending demo_ledger_world (''v'', ''p'') 7"
    using only_own_ack_removes_push [OF demo_ledger_ok w', of "''v''" "''p''" 7]
    by (auto simp: demo_ack_def notify_def)
  then show ?thesis using b w'
    by (auto simp: demo_ledger_world_def all_pending_def pending_def kPushLua_def hset_def no_unacked_def)
qed

section \<open>A heartbeat sends again what is due\<close>

lemma local_send_open:
  assumes "Connection_connections u d (pi_connections (pw_instance w me)) = [c]"
    and "Connection_client c (pi_connections (pw_instance w me)) \<noteq> None" and "pe_open env c" and "pe_send_ok env c"
  shows "pi_sent (pw_instance (snd (local_send env me u d p w)) me) = pi_sent (pw_instance w me) @ [(c, p)]"
  using assms
  by (auto simp: local_send_def Let_def Connection_connections_def Connection_send_mutexes_def Connection_client_def)

lemma local_send_prefix: "prefix (pi_sent (pw_instance w me)) (pi_sent (pw_instance (snd (local_send env me u d p w)) me))"
  by (simp add: local_send_def Let_def)

lemma resend_one_frame:
  "pi_connections (pw_instance (resend_one env me u d e w) me) = pi_connections (pw_instance w me)"
  "set (pi_sent (pw_instance w me)) \<subseteq> set (pi_sent (pw_instance (resend_one env me u d e w) me))"
  using local_send_prefix [of w me env u d "pe_base64_decode env (snd e)"]
  by (auto simp: resend_one_def local_send_def Let_def prefix_def)

lemma fold_resend_frame:
  "pi_connections (pw_instance (fold (resend_one env me u d) es w) me) = pi_connections (pw_instance w me)"
  "set (pi_sent (pw_instance w me)) \<subseteq> set (pi_sent (pw_instance (fold (resend_one env me u d) es w) me))"
  by (induction es arbitrary: w) (use resend_one_frame in \<open>auto; blast\<close>)+

lemma fold_resend_sends:
  assumes "(q, b) \<in> set es" and "pe_base64_decode env b \<noteq> []"
    and "Connection_connections u d (pi_connections (pw_instance w me)) = [c]"
    and "Connection_client c (pi_connections (pw_instance w me)) \<noteq> None" and "pe_open env c" and "pe_send_ok env c"
  shows "(c, pe_base64_decode env b) \<in> set (pi_sent (pw_instance (fold (resend_one env me u d) es w) me))"
  using assms
proof (induction es arbitrary: w)
  case (Cons e es)
  show ?case
  proof (cases "e = (q, b)")
    case True
    have "(c, pe_base64_decode env b) \<in> set (pi_sent (pw_instance (resend_one env me u d e w) me))"
      using True Cons.prems(2) local_send_open [OF Cons.prems(3-6), of "pe_base64_decode env b"]
      by (simp add: resend_one_def Let_def)
    then show ?thesis
      using subsetD [OF fold_resend_frame(2) [where w = "resend_one env me u d e w" and es = es]] by simp
  next
    case False
    then have "(q, b) \<in> set es" using Cons.prems(1) by auto
    then show ?thesis
      using Cons.IH [of "resend_one env me u d e w"] Cons.prems(2-6) by (simp add: resend_one_frame)
  qed
qed simp


text \<open>One device of the loop: look, send, move the times.\<close>

definition resend_device :: "push_env \<Rightarrow> string \<Rightarrow> uid \<Rightarrow> did \<Rightarrow> push_world \<Rightarrow> push_world" where
  "resend_device env me u d w = resend_devices env me u [d] w"

lemma resend_devices_Cons: "resend_devices env me u (d # ds) w = resend_devices env me u ds (resend_device env me u d w)"
  by (simp add: resend_device_def Let_def split: prod.splits)

lemma resend_device_frame:
  "pi_connections (pw_instance (resend_device env me u d w) me) = pi_connections (pw_instance w me)"
  "set (pi_sent (pw_instance w me)) \<subseteq> set (pi_sent (pw_instance (resend_device env me u d w) me))"
  "k \<noteq> (u, d) \<Longrightarrow> pr_unacked (pw_redis (resend_device env me u d w)) k = pr_unacked (pw_redis w) k"
  using subsetD [OF fold_resend_frame(2) [where env = env and me = me and u = u and d = d]]
  by (auto simp: resend_device_def Let_def fold_resend_frame(1) fold_resend_redis UnackedPush_peek_due_def
      UnackedPush_bump_score_def split: prod.splits if_splits)

lemma resend_devices_sent: "set (pi_sent (pw_instance w me)) \<subseteq> set (pi_sent (pw_instance (resend_devices env me u ds w) me))"
proof (induction ds arbitrary: w)
  case (Cons d ds)
  show ?case unfolding resend_devices_Cons by (rule order_trans [OF resend_device_frame(2) Cons])
qed simp

lemma resend_device_sends:
  assumes "ledger_ok (pr_unacked (pw_redis w) (u, d))" and "pe_up env 13 0"
    and "Connection_connections u d (pi_connections (pw_instance w me)) = [c]"
    and "Connection_client c (pi_connections (pw_instance w me)) \<noteq> None" and "pe_open env c" and "pe_send_ok env c"
    and "all_pending w (u, d) q = Some b" and "pe_base64_decode env b \<noteq> []"
    and "map_of (ua_scores (pr_unacked (pw_redis w) (u, d))) q = Some sc" and "sc \<le> pe_now env - pe_resend_max_age_sec env"
    and "length (ua_scores (pr_unacked (pw_redis w) (u, d))) \<le> nat (pe_resend_batch env)"
  shows "(c, pe_base64_decode env b) \<in> set (pi_sent (pw_instance (resend_device env me u d w) me))"
proof -
  let ?l = "pr_unacked (pw_redis w) (u, d)"
  let ?due = "map (\<lambda>q. (q, the (pending ?l q))) (due_seqs (pe_now env - pe_resend_max_age_sec env) (nat (pe_resend_batch env)) ?l)"
  have q: "q \<in> set (due_seqs (pe_now env - pe_resend_max_age_sec env) (nat (pe_resend_batch env)) ?l)"
    using due_seqs_complete [OF _ assms(9,10,11)] assms(1) by (simp add: ledger_ok_def)
  then have e: "(q, b) \<in> set ?due" using assms(7) by (force simp: all_pending_def)
  have "0 < pe_resend_batch env" using assms(9,11) by (cases "ua_scores ?l") auto
  then have pk: "UnackedPush_peek_due (pe_up env 13 0) (pe_now env) u d (pe_resend_batch env) (pe_resend_max_age_sec env)
      (pe_scanned env (u, d)) (pr_unacked (pw_redis w)) = (?due, pr_unacked (pw_redis w))"
    using assms(1,2) by (simp add: UnackedPush_peek_due_def kPeekDueLua_ok)
  have "?due \<noteq> []" using e by auto
  then show ?thesis
    using fold_resend_sends [OF e assms(8), of u d "set_unacked (pr_unacked (pw_redis w)) w" me c] assms(3-6)
    unfolding resend_device_def by (simp add: pk Let_def del: map_is_Nil_conv)
qed




section \<open>Further facts\<close>

text \<open>The user of a route key is read back from it, but for the empty user id.\<close>

lemma uid_from_online_key_roundtrip: "uid_from_online_key (online_key u) = (if u = [] then None else Some u)"
  by (auto simp: uid_from_online_key_def online_key_def hash_tag_def Let_def)

text \<open>A body that parses without members is acknowledged and pushed to nobody.\<close>

lemma no_members_no_push:
  "pe_parse_internal env body = Some im \<Longrightarrow> im_member_id_list im = [] \<Longrightarrow> onPushMessage env me body w = (Ack, w)"
  by (simp add: onPushMessage_def Let_def)

text \<open>The close handler of an old connection marks a device offline that has moved to another instance.\<close>

lemma close_after_move_marks_offline:
  assumes "Connection_client c (pi_connections (pw_instance w me)) = Some (u, d, j)" and "pe_up env 11 0"
    and "redis_smembers (presence_sub_key u) (pr_presence (pw_redis w)) = []"
    and "or_routes (pr_route (pw_redis w)) u = [(d, other)]" and "other \<noteq> me" and "d \<noteq> []"
  shows "redis_hget (presence_device_key u d) ''state'' (pr_presence (pw_redis (ws_close env me c w))) = Some ''OFFLINE''
    \<and> or_routes (pr_route (pw_redis (ws_close env me c w))) u = [(d, other)]"
  using assms
  by (simp add: ws_close_def Let_def write_presence_offline_def write_presence_def notify_presence_change_def
      invalidate_route_def unbind_route_def set_route_def OnlineRoute_unbind_def redis_smembers_def redis_hset_def redis_hget_def)

end
