(* ===== verification/Presence_Props.thy ===== *)
theory Presence_Props
  imports Presence Push_Props
begin

text \<open>
  What the presence aggregator computes, against a reference definition, and what the push and the
  presence service make of each other's Redis records.
\<close>

section \<open>The aggregate\<close>

text \<open>The devices a user is seen on: the hashes that are read and not too old.\<close>

definition live_devices :: "int \<Rightarrow> uid \<Rightarrow> presence_redis \<Rightarrow> device_presence list" where
  "live_devices now_ms uid r =
     List.map_filter (\<lambda>k. case read_device now_ms k r of Inr (Some d) \<Rightarrow> Some d | _ \<Rightarrow> None)
       (scan_hashes (presence_device_prefix uid) r)"

text \<open>The state others see: the most available one of the live devices; invisible counts as offline.\<close>

definition visible_state :: "int list \<Rightarrow> int" where
  "visible_state ss =
     (if ONLINE \<in> set ss then ONLINE else if BUSY \<in> set ss then BUSY else if AWAY \<in> set ss then AWAY else OFFLINE)"

definition latest :: "int list \<Rightarrow> int" where
  "latest ts = foldr max ts 0"

lemma aggregate_loop_reads:
  assumes "\<And>k. k \<in> set keys \<Longrightarrow> pn_up env 1 k \<and> (\<exists>x. read_device (pn_now_ms env) k r = Inr x)"
  shows "aggregate_loop env r keys b a devs =
    (let ds = List.map_filter (\<lambda>k. case read_device (pn_now_ms env) k r of Inr (Some d) \<Rightarrow> Some d | _ \<Rightarrow> None) keys
     in Inr (foldl (\<lambda>b d. min b (state_rank (dp_state d))) b ds,
             foldl (\<lambda>a d. max a (dp_last_active_at_ms d)) a ds, devs @ ds))"
  using assms
proof (induction keys arbitrary: b a devs)
  case Nil
  then show ?case by (simp add: List.map_filter_simps Let_def)
next
  case (Cons k keys)
  then obtain x where x: "read_device (pn_now_ms env) k r = Inr x" by fastforce
  have best: "(if rk < b \<or> (rk = b \<and> P) then rk else b) = min b rk" for rk b :: int and P by auto
  have late: "(if a < t then t else a) = max a t" for a t :: int by auto
  show ?case
    using Cons x by (cases x) (auto simp: List.map_filter_simps Let_def best late)
qed

lemma foldl_min_le:
  "foldl (\<lambda>b d. min b (f d)) b ds \<le> (k :: int) \<longleftrightarrow> b \<le> k \<or> (\<exists>d \<in> set ds. f d \<le> k)"
  by (induction ds arbitrary: b) auto

lemma state_rank_le:
  "state_rank s \<le> 0 \<longleftrightarrow> s = ONLINE" "state_rank s \<le> 1 \<longleftrightarrow> s = ONLINE \<or> s = BUSY"
  "state_rank s \<le> 2 \<longleftrightarrow> s = ONLINE \<or> s = BUSY \<or> s = AWAY" "0 \<le> state_rank s"
  by (auto simp: state_rank_def presence_state_defs)

lemma best_rank_state:
  "aggregated_state (foldl (\<lambda>b d. min b (state_rank (dp_state d))) 999 ds) = visible_state (map dp_state ds)"
proof -
  let ?m = "foldl (\<lambda>b d. min b (state_rank (dp_state d))) 999 ds"
  have "\<not> state_rank s \<le> - 1" for s using state_rank_le(4) [of s] by simp
  then have "\<not> ?m \<le> - 1" by (simp add: foldl_min_le)
  then have "aggregated_state ?m = (if ?m \<le> 0 then ONLINE else if ?m \<le> 1 then BUSY else if ?m \<le> 2 then AWAY else OFFLINE)"
    by (auto simp: aggregated_state_def)
  then show ?thesis
    unfolding foldl_min_le state_rank_le by (auto simp: visible_state_def image_iff)
qed

lemma foldl_max_latest: "foldl (\<lambda>a d. max a (f d)) a ds = max a (latest (map f ds))" if "0 \<le> a"
  using that by (induction ds arbitrary: a) (auto simp: latest_def max.assoc max.left_commute max.commute)


definition demo_presence :: presence_redis where
  "demo_presence = \<lparr>pz_hashes = [(presence_device_key ''u'' ''d1'', [(''state'', ''3''), (''last_active_at_ms'', ''500'')]),
     (presence_device_key ''u'' ''d2'', [(''state'', ''5''), (''last_active_at_ms'', ''700'')])], pz_sets = []\<rparr>"

definition demo_presence_env :: presence_env where
  "demo_presence_env = \<lparr>pn_now_ms = 1000, pn_up = \<lambda>_ _. True, pn_push_channel = True\<rparr>"


section \<open>Presence records of the push service\<close>

lemma aggregate_loop_throws:
  assumes "k \<in> set keys" and "read_device (pn_now_ms env) k r = Inl e"
  shows "\<exists>m. aggregate_loop env r keys b a devs = Inl (StdException m)"
  using assms by (induction keys arbitrary: b a devs) (auto simp: redis_error_def Let_def split: sum.splits option.splits)

lemma stoi_words: "stoi ''ONLINE'' = Inl Invalid_argument" "stoi ''OFFLINE'' = Inl Invalid_argument"
  by code_simp+

lemma aggregate_throws:
  assumes "redis_hget (presence_device_key u d) ''state'' r = Some st" and "stoi st = Inl e"
  shows "\<exists>m. aggregate env u r = Inl (StdException m)"
proof -
  let ?k = "presence_device_key u d"
  have "?k \<in> fst ` set (pz_hashes r)"
    using assms(1) by (auto simp: redis_hget_def fields_of_def split: option.splits dest!: map_of_SomeD intro: rev_image_eqI)
  then have k: "?k \<in> set (scan_hashes (presence_device_prefix u) r)" by (simp add: set_scan_hashes)
  have "read_device (pn_now_ms env) ?k r = Inl e" using assms by (simp add: read_device_def)
  from aggregate_loop_throws [OF k this] obtain m
    where "aggregate_loop env r (scan_hashes (presence_device_prefix u) r) 999 0 [] = Inl (StdException m)" by blast
  then show ?thesis using k by (auto simp: aggregate_def redis_error_def Let_def)
qed

lemma resend_devices_presence: "pr_presence (pw_redis (resend_devices env me u ds w)) = pr_presence (pw_redis w)"
proof (induction ds arbitrary: w)
  case (Cons d ds)
  have p: "pr_presence (pw_redis (set_unacked m v)) = pr_presence (pw_redis v)" for m v by (simp add: set_unacked_def)
  show ?case by (auto simp: Let_def Cons p fold_resend_redis split: prod.splits)
qed simp

lemma heartbeat_presence: "on_heartbeat_resend env me u w = (b, w') \<Longrightarrow> pr_presence (pw_redis w') = pr_presence (pw_redis w)"
  using resolve_redis [of env 4 me u w]
  by (auto simp: on_heartbeat_resend_def resend_devices_presence split: prod.splits option.splits if_splits)

lemma login_presence:
  assumes "handle_client_auth env me c tok dev q w = (b, w')" and "tok \<noteq> []" and "dev \<noteq> []"
    and "JwtCodec_verify (pe_jwt env) (pe_jwt_config env) (pe_now_ms env) tok False = Inr cl" and "pe_up env 10 0"
  shows "redis_hget (presence_device_key (jc_sub cl) (jc_did cl)) ''state'' (pr_presence (pw_redis w')) = Some ''ONLINE''"
proof -
  let ?v = "notify_presence_change env me (jc_sub cl) ''ONLINE''
      (write_presence_online env (jc_sub cl) (jc_did cl) (connect_client env me c cl w))"
  have "pr_presence (pw_redis w') = pr_presence (pw_redis ?v)"
    using assms(1-4) heartbeat_presence [of env me "jc_sub cl" ?v]
    by (auto simp: handle_client_auth_def Let_def split: option.splits if_splits)
  then show ?thesis using assms(5) by (simp add: notify_presence_redis write_presence_online_def write_presence_def)
qed

text \<open>
  The presence of a user who is online cannot be read. The push service writes the state of a
  device as the word ONLINE or OFFLINE; the presence service converts that field with \<open>std::stoi\<close>. After any
  successful login whose presence record was written, a request for that user's presence is
  answered with an internal error, whatever the other devices and whatever Redis calls complete.
\<close>

theorem online_presence_unreadable:
  assumes "handle_client_auth env me c tok dev q w = (b, w')" and "tok \<noteq> []" and "dev \<noteq> []"
    and "JwtCodec_verify (pe_jwt env) (pe_jwt_config env) (pe_now_ms env) tok False = Inr cl" and "pe_up env 10 0" and "sv_redis s = pr_presence (pw_redis w')"
    and "extract_auth md = Inr auth"
  shows "fst (handle_rpc md rid (\<lambda>a. GetPresence penv a (jc_sub cl)) s) =
    (\<lparr>hdr_request_id = rid, hdr_success = False, hdr_error_code = kSystemInternalError,
      hdr_error_message = ''internal error''\<rparr>, None)"
proof -
  obtain m where "aggregate penv (jc_sub cl) (sv_redis s) = Inl (StdException m)"
    using aggregate_throws [OF login_presence [OF assms(1-5)] stoi_words(1), of penv] assms(6) by auto
  then show ?thesis using assms(7) by (simp add: handle_rpc_def GetPresence_def)
qed

definition demo_claims :: jwt_claims where
  "demo_claims = \<lparr>jc_sub = ''u'', jc_did = ''d'', jc_jti = ''j'', jc_kid = ''v1'', jc_iat_sec = 5, jc_exp_sec = 7205,
     jc_is_refresh = False\<rparr>"

theorem online_presence_unreadable_witness:
  "\<exists>b w'. handle_client_auth demo_penv ''A'' 9 ''tok'' ''d''
      None demo_world = (b, w') \<and>
    fst (handle_rpc (Some \<lparr>md_user_id = ''v'', md_device_id = ''p'', md_trace_id = [], md_jwt_jti = []\<rparr>) ''r''
      (\<lambda>a. GetPresence demo_presence_env a ''u'') \<lparr>sv_redis = pr_presence (pw_redis w'), sv_pushes = []\<rparr>) =
    (\<lparr>hdr_request_id = ''r'', hdr_success = False, hdr_error_code = kSystemInternalError,
      hdr_error_message = ''internal error''\<rparr>, None)"
proof -
  let ?env = "demo_penv"
  let ?md = "Some \<lparr>md_user_id = ''v'', md_device_id = ''p'', md_trace_id = [], md_jwt_jti = []\<rparr>"
  have v: "JwtCodec_verify (pe_jwt demo_penv) (pe_jwt_config demo_penv) (pe_now_ms demo_penv) ''tok'' False = Inr demo_claims"
    by code_simp
  obtain b w' where h: "handle_client_auth ?env ''A'' 9 ''tok'' ''d'' None demo_world = (b, w')" by fastforce
  have "fst (handle_rpc ?md ''r'' (\<lambda>a. GetPresence demo_presence_env a (jc_sub demo_claims))
      \<lparr>sv_redis = pr_presence (pw_redis w'), sv_pushes = []\<rparr>) =
    (\<lparr>hdr_request_id = ''r'', hdr_success = False, hdr_error_code = kSystemInternalError,
      hdr_error_message = ''internal error''\<rparr>, None)"
    by (rule online_presence_unreadable [OF h _ _ v, where auth = "\<lparr>user_id = ''v'', device_id = ''p'', trace_id = [], jwt_jti = []\<rparr>"])
      (simp_all add: demo_penv_def extract_auth_def)
  with h show ?thesis by (auto simp: demo_claims_def)
qed

section \<open>Subscriptions\<close>

datatype sub_op = Sub presence_env auth_context "uid list" | Unsub presence_env auth_context "uid list"

fun sub_step :: "sub_op \<Rightarrow> presence_svc \<Rightarrow> presence_svc" where
  "sub_step (Sub env auth ts) s = snd (SubscribePresence env auth ts s)"
| "sub_step (Unsub env auth ts) s = snd (UnsubscribePresence env auth ts s)"

fun sub_targets :: "sub_op \<Rightarrow> uid list" where
  "sub_targets (Sub env auth ts) = ts"
| "sub_targets (Unsub env auth ts) = ts"

lemma each_target_other:
  assumes "\<And>t r. t \<in> set ts \<Longrightarrow> redis_smembers k (f t r) = redis_smembers k r"
  shows "redis_smembers k (snd (each_target up f ts r)) = redis_smembers k r"
  using assms by (induction ts arbitrary: r) auto

lemma smembers_other:
  "k \<noteq> k' \<Longrightarrow> redis_smembers k (redis_sadd k' m r) = redis_smembers k r"
  "k \<noteq> k' \<Longrightarrow> redis_smembers k (redis_srem k' m r) = redis_smembers k r"
  by (simp_all add: redis_smembers_def redis_sadd_def redis_srem_def Let_def)

lemma sub_key_differs: "presence_sub_key u = sub_prefix @ t \<longleftrightarrow> t = hash_tag u"
  by (auto simp: presence_sub_key_def sub_prefix_def)

lemma sub_step_other:
  assumes "hash_tag u \<notin> set (sub_targets op)"
  shows "redis_smembers (presence_sub_key u) (sv_redis (sub_step op s)) = redis_smembers (presence_sub_key u) (sv_redis s)"
proof -
  have ne: "presence_sub_key u \<noteq> sub_prefix @ t" if "t \<in> set (sub_targets op)" for t
    using that assms by (auto simp: sub_key_differs)
  show ?thesis
  proof (cases op)
    case (Sub env auth ts)
    then show ?thesis
      using each_target_other [of ts "presence_sub_key u" "\<lambda>t. redis_sadd (sub_prefix @ t) (user_id auth)" "pn_up env 3" "sv_redis s"]
        ne by (simp add: SubscribePresence_def smembers_other prod.case_eq_if)
  next
    case (Unsub env auth ts)
    then show ?thesis
      using each_target_other [of ts "presence_sub_key u" "\<lambda>t. redis_srem (sub_prefix @ t) (user_id auth)" "pn_up env 4" "sv_redis s"]
        ne by (simp add: UnsubscribePresence_def smembers_other prod.case_eq_if)
  qed
qed

lemma sub_run_other:
  assumes "\<forall>op \<in> set ops. hash_tag u \<notin> set (sub_targets op)"
  shows "redis_smembers (presence_sub_key u) (sv_redis (fold sub_step ops s)) = redis_smembers (presence_sub_key u) (sv_redis s)"
  using assms by (induction ops arbitrary: s) (simp_all add: sub_step_other)

text \<open>
  A subscription to a user's presence never reaches the push service. The presence service keeps
  the subscribers of a user under a key with the plain user id, the push service looks under a key with
  the user id in braces. From a state without entries under the latter, after any subscriptions and
  cancellations (of targets that are not themselves user ids in braces) and a completed one to the user,
  the subscriber is recorded, and yet a change of that user's presence makes the push service do nothing.
\<close>

theorem subscription_never_pushed:
  assumes "redis_smembers (presence_sub_key u) (sv_redis s) = []"
    and "\<forall>op \<in> set ops. hash_tag u \<notin> set (sub_targets op)" and "pn_up env 3 u"
    and "s' = snd (SubscribePresence env auth [u] (fold sub_step ops s))"
    and "pr_presence (pw_redis w) = sv_redis s'" and "u \<noteq> hash_tag u"
  shows "user_id auth \<in> set (redis_smembers (sub_prefix @ u) (sv_redis s')) \<and> notify_presence_change penv me u st w = w"
proof -
  have "redis_smembers (presence_sub_key u) (sv_redis s') = []"
    using assms(1,2,6) sub_run_other [of "ops @ [Sub env auth [u]]" u s] by (simp add: assms(4))
  moreover have "user_id auth \<in> set (redis_smembers (sub_prefix @ u) (sv_redis s'))"
    using assms(3) smembers_sadd [of "sub_prefix @ u"] by (simp add: assms(4) SubscribePresence_def)
  ultimately show ?thesis using assms(5) by (simp add: notify_presence_change_def Let_def)
qed

theorem subscription_never_pushed_witness:
  "\<exists>s' w. s' = snd (SubscribePresence demo_presence_env \<lparr>user_id = ''v'', device_id = ''p'', trace_id = [], jwt_jti = []\<rparr> [''u'']
        \<lparr>sv_redis = no_presence, sv_pushes = []\<rparr>) \<and> pr_presence (pw_redis w) = sv_redis s' \<and>
     ''v'' \<in> set (redis_smembers (sub_prefix @ ''u'') (sv_redis s')) \<and> notify_presence_change demo_penv ''A'' ''u'' ''ONLINE'' w = w"
proof -
  let ?a = "\<lparr>user_id = ''v'', device_id = ''p'', trace_id = [], jwt_jti = []\<rparr>" and ?s = "\<lparr>sv_redis = no_presence, sv_pushes = []\<rparr>"
  let ?s' = "snd (SubscribePresence demo_presence_env ?a [''u''] ?s)"
  let ?w = "demo_world\<lparr>pw_redis := (pw_redis demo_world)\<lparr>pr_presence := sv_redis ?s'\<rparr>\<rparr>"
  have "user_id ?a \<in> set (redis_smembers (sub_prefix @ ''u'') (sv_redis ?s')) \<and> notify_presence_change demo_penv ''A'' ''u'' ''ONLINE'' ?w = ?w"
    by (rule subscription_never_pushed [where s = ?s and ops = "[]" and env = demo_presence_env and auth = ?a])
      (simp_all add: no_presence_def redis_smembers_def fields_of_def demo_presence_env_def hash_tag_def)
  then show ?thesis by (intro exI [of _ ?s'] exI [of _ ?w]) simp
qed

end
