(* ===== verification/Service_Manager.thy ===== *)
theory Service_Manager
  imports Prelude
begin

text \<open>
  The pools of backend channels: \<open>ServiceChannel\<close> and \<open>ServiceManager\<close> of common/mq/channel.hpp, and
  \<open>Discovery\<close> of common/infra/etcd.hpp, which feeds them from etcd.

  A channel is named by the host it was opened to. \<open>shared_ptr<ServiceChannel>\<close> is a reference into a
  store, because two keys of the manager can share one pool. The round-robin counter is a 32-bit word. Shown:
  a pool holds each host once, whatever the events; the counter deals the hosts evenly while it does not wrap;
  a host that went offline is not chosen; a key that names one instance chooses among all of them.
\<close>

section \<open>ServiceChannel\<close>

record service_channel =
  sc_hosts :: "string set"
  sc_channels :: "string list"
  sc_index :: "32 word"

definition new_channel :: service_channel where
  "new_channel = \<lparr>sc_hosts = {}, sc_channels = [], sc_index = 0\<rparr>"

text \<open>\<open>ok\<close>: whether \<open>brpc::Channel::Init\<close> accepts the host.\<close>

definition ServiceChannel_append :: "bool \<Rightarrow> string \<Rightarrow> service_channel \<Rightarrow> service_channel" where
  "ServiceChannel_append ok host c =
     (if host \<in> sc_hosts c \<or> \<not> ok then c
      else c\<lparr>sc_hosts := insert host (sc_hosts c), sc_channels := sc_channels c @ [host]\<rparr>)"

definition ServiceChannel_remove :: "string \<Rightarrow> service_channel \<Rightarrow> service_channel" where
  "ServiceChannel_remove host c =
     (if host \<notin> sc_hosts c then c
      else c\<lparr>sc_hosts := sc_hosts c - {host}, sc_channels := remove1 host (sc_channels c)\<rparr>)"

definition ServiceChannel_choose :: "service_channel \<Rightarrow> string option \<times> service_channel" where
  "ServiceChannel_choose c =
     (if sc_channels c = [] then (None, c)
      else (Some (sc_channels c ! (unat (sc_index c) mod length (sc_channels c))), c\<lparr>sc_index := sc_index c + 1\<rparr>))"

section \<open>ServiceManager\<close>

record service_manager =
  sm_follow :: "string list"
  sm_services :: "string \<Rightarrow> nat option"
  sm_store :: "nat \<Rightarrow> service_channel"
  sm_fresh :: nat

definition new_manager :: service_manager where
  "new_manager = \<lparr>sm_follow = [], sm_services = (\<lambda>_. None), sm_store = (\<lambda>_. new_channel), sm_fresh = 0\<rparr>"

text \<open>\<open>getServiceName\<close>: what stands before the last slash, everything when there is none.\<close>

definition getServiceName :: "string \<Rightarrow> string" where
  "getServiceName service_instance =
     (if CHR ''/'' \<in> set service_instance
      then rev (tl (dropWhile (\<lambda>c. c \<noteq> CHR ''/'') (rev service_instance))) else service_instance)"

definition ServiceManager_choose :: "string \<Rightarrow> service_manager \<Rightarrow> string option \<times> service_manager" where
  "ServiceManager_choose key m =
     (case sm_services m key of
        None \<Rightarrow> (None, m)
      | Some ref \<Rightarrow>
          (case ServiceChannel_choose (sm_store m ref) of
             (r, c) \<Rightarrow> (r, m\<lparr>sm_store := (sm_store m)(ref := c)\<rparr>)))"

definition declared :: "string \<Rightarrow> service_manager \<Rightarrow> service_manager" where
  "declared service_name m = m\<lparr>sm_follow := List.insert service_name (sm_follow m)\<rparr>"

text \<open>The pool of a service is made at its first instance and entered under the instance too.\<close>

definition onServiceOnline :: "bool \<Rightarrow> string \<Rightarrow> string \<Rightarrow> service_manager \<Rightarrow> service_manager" where
  "onServiceOnline ok service_instance host m =
     (let service_name = getServiceName service_instance in
      if service_name \<notin> set (sm_follow m) then m
      else
        let (ref, m1) =
              (case sm_services m service_name of
                 Some ref \<Rightarrow> (ref, m)
               | None \<Rightarrow> (sm_fresh m,
                   m\<lparr>sm_services := (sm_services m)(service_name \<mapsto> sm_fresh m),
                     sm_store := (sm_store m)(sm_fresh m := new_channel), sm_fresh := Suc (sm_fresh m)\<rparr>))
        in m1\<lparr>sm_services := (sm_services m1)(service_instance \<mapsto> ref),
              sm_store := (sm_store m1)(ref := ServiceChannel_append ok host (sm_store m1 ref))\<rparr>)"

definition onServiceOffline :: "string \<Rightarrow> string \<Rightarrow> service_manager \<Rightarrow> service_manager" where
  "onServiceOffline service_instance host m =
     (case sm_services m (getServiceName service_instance) of
        None \<Rightarrow> m
      | Some ref \<Rightarrow> m\<lparr>sm_store := (sm_store m)(ref := ServiceChannel_remove host (sm_store m ref))\<rparr>)"

section \<open>Discovery\<close>

datatype etcd_event = PUT string string | DELETE string string

definition full_sync :: "bool \<Rightarrow> (string \<times> string) list option \<Rightarrow> service_manager \<Rightarrow> service_manager" where
  "full_sync ok reply m =
     (case reply of None \<Rightarrow> m | Some kvs \<Rightarrow> foldl (\<lambda>m kv. onServiceOnline ok (fst kv) (snd kv) m) m kvs)"

fun etcd_apply :: "bool \<Rightarrow> etcd_event \<Rightarrow> service_manager \<Rightarrow> service_manager" where
  "etcd_apply ok (PUT k v) m = onServiceOnline ok k v m"
| "etcd_apply ok (DELETE k v) m = onServiceOffline k v m"

definition Discovery_callback :: "bool \<Rightarrow> etcd_event list option \<Rightarrow> service_manager \<Rightarrow> service_manager" where
  "Discovery_callback ok resp m = (case resp of None \<Rightarrow> m | Some evs \<Rightarrow> foldl (\<lambda>m ev. etcd_apply ok ev m) m evs)"

section \<open>Pools\<close>

definition channel_wf :: "service_channel \<Rightarrow> bool" where
  "channel_wf c = (distinct (sc_channels c) \<and> set (sc_channels c) = sc_hosts c)"

definition manager_wf :: "service_manager \<Rightarrow> bool" where
  "manager_wf m = (\<forall>ref. channel_wf (sm_store m ref))"

lemma channel_wf_new [simp]: "channel_wf new_channel"
  by (simp add: channel_wf_def new_channel_def)

lemma channel_wf_append: "channel_wf c \<Longrightarrow> channel_wf (ServiceChannel_append ok host c)"
  by (auto simp: channel_wf_def ServiceChannel_append_def)

lemma channel_wf_remove: "channel_wf c \<Longrightarrow> channel_wf (ServiceChannel_remove host c)"
  by (auto simp: channel_wf_def ServiceChannel_remove_def)

lemma channel_wf_choose: "channel_wf c \<Longrightarrow> channel_wf (snd (ServiceChannel_choose c))"
  by (auto simp: channel_wf_def ServiceChannel_choose_def)

lemma manager_wf_new: "manager_wf new_manager"
  by (simp add: manager_wf_def new_manager_def)

lemma manager_wf_online: "manager_wf m \<Longrightarrow> manager_wf (onServiceOnline ok inst host m)"
  by (auto simp: manager_wf_def onServiceOnline_def Let_def intro: channel_wf_append split: option.splits)

lemma manager_wf_offline: "manager_wf m \<Longrightarrow> manager_wf (onServiceOffline inst host m)"
  by (auto simp: manager_wf_def onServiceOffline_def intro: channel_wf_remove split: option.splits)

lemma manager_wf_choose: "manager_wf m \<Longrightarrow> manager_wf (snd (ServiceManager_choose key m))"
  by (auto simp: manager_wf_def ServiceManager_choose_def channel_wf_choose prod.case_eq_if split: option.splits)

lemma choose_member:
  assumes "ServiceManager_choose key m = (Some h, m')" and "sm_services m key = Some ref"
  shows "h \<in> set (sc_channels (sm_store m ref))"
  using assms
  by (auto simp: ServiceManager_choose_def ServiceChannel_choose_def split: if_splits)

lemma offline_not_chosen:
  assumes "manager_wf m" and "ServiceManager_choose (getServiceName inst) (onServiceOffline inst host m) = (Some h, m')"
  shows "h \<noteq> host"
proof -
  from assms(2) obtain ref where ref: "sm_services m (getServiceName inst) = Some ref"
    by (auto simp: onServiceOffline_def ServiceManager_choose_def split: option.splits)
  then have "h \<in> set (sc_channels (ServiceChannel_remove host (sm_store m ref)))"
    using choose_member [OF assms(2)] by (simp add: onServiceOffline_def)
  moreover have "channel_wf (sm_store m ref)" using assms(1) by (simp add: manager_wf_def)
  ultimately show ?thesis by (auto simp: ServiceChannel_remove_def channel_wf_def split: if_splits)
qed

section \<open>Round robin\<close>

text \<open>\<open>n\<close> consecutive choices.\<close>

fun choices :: "nat \<Rightarrow> service_channel \<Rightarrow> string option list \<times> service_channel" where
  "choices 0 c = ([], c)"
| "choices (Suc n) c =
     (case ServiceChannel_choose c of (r, c') \<Rightarrow> case choices n c' of (rs, c'') \<Rightarrow> (r # rs, c''))"

lemma choices_nth:
  assumes "sc_channels c \<noteq> []"
  shows "fst (choices n c) =
    map (\<lambda>k. Some (sc_channels c ! (unat (sc_index c + of_nat k) mod length (sc_channels c)))) [0..<n]"
  using assms
proof (induction n arbitrary: c)
  case (Suc n)
  let ?c = "c\<lparr>sc_index := sc_index c + 1\<rparr>"
  have ch: "ServiceChannel_choose c = (Some (sc_channels c ! (unat (sc_index c) mod length (sc_channels c))), ?c)"
    using Suc.prems by (simp add: ServiceChannel_choose_def)
  have "fst (choices (Suc n) c) = fst (ServiceChannel_choose c) # fst (choices n ?c)"
    using ch by (simp add: case_prod_beta)
  also have "\<dots> = map (\<lambda>k. Some (sc_channels c ! (unat (sc_index c + of_nat k) mod length (sc_channels c)))) (0 # map Suc [0..<n])"
    using Suc.IH [of ?c] Suc.prems ch by (simp add: add.assoc)
  finally show ?case by (simp only: map_Suc_upt) (simp add: upt_conv_Cons del: upt_Suc)
qed simp

lemma inj_mod_shift: "inj_on (\<lambda>k. (a + k) mod n) {0..<n::nat}"
proof (rule linorder_inj_onI')
  fix x y assume "x \<in> {0..<n}" "y \<in> {0..<n}" "x < y"
  show "(a + x) mod n \<noteq> (a + y) mod n"
  proof
    assume "(a + x) mod n = (a + y) mod n"
    then have "n dvd (a + y) - (a + x)" using \<open>x < y\<close> by (subst (asm) eq_commute) (simp add: mod_eq_dvd_iff_nat)
    then have "n dvd y - x" by simp
    then have "n \<le> y - x" using \<open>x < y\<close> by (auto dest: dvd_imp_le)
    then show False using \<open>y \<in> _\<close> by simp
  qed
qed

text \<open>
  Round robin is fair: in a pool of \<open>n\<close> hosts, any \<open>n\<close> choices in a row that do not
  cross the wrap of the 32-bit counter return every host, and none twice.
\<close>

theorem round_robin_fair:
  assumes "channel_wf c" and "sc_channels c \<noteq> []" and "unat (sc_index c) + length (sc_channels c) \<le> 2 ^ 32"
  shows "distinct (fst (choices (length (sc_channels c)) c))
    \<and> set (fst (choices (length (sc_channels c)) c)) = Some ` sc_hosts c"
proof -
  let ?n = "length (sc_channels c)" and ?f = "\<lambda>k. (unat (sc_index c) + k) mod length (sc_channels c)"
  have n: "0 < ?n" using assms(2) by simp
  have "unat (sc_index c + of_nat k) = unat (sc_index c) + k" if "k < ?n" for k
    using that assms(3) by (simp add: unat_word_ariths unat_of_nat)
  then have eq: "fst (choices ?n c) = map (\<lambda>k. Some (sc_channels c ! ?f k)) [0..<?n]"
    by (simp add: choices_nth [OF assms(2)])
  have im: "?f ` {0..<?n} = {0..<?n}"
    by (rule endo_inj_surj [OF _ _ inj_mod_shift]) (use n in auto)
  have "(\<lambda>k. Some (sc_channels c ! ?f k)) ` {0..<?n} = Some ` ((!) (sc_channels c) ` (?f ` {0..<?n}))"
    by (simp add: image_image)
  also have "\<dots> = Some ` set (sc_channels c)"
    by (simp only: im) (fastforce simp: set_conv_nth)
  finally have st: "(\<lambda>k. Some (sc_channels c ! ?f k)) ` {0..<?n} = Some ` set (sc_channels c)" .
  have "inj_on (\<lambda>k. Some (sc_channels c ! ?f k)) {0..<?n}"
  proof (rule inj_onI)
    fix x y assume xy: "x \<in> {0..<?n}" "y \<in> {0..<?n}" and "Some (sc_channels c ! ?f x) = Some (sc_channels c ! ?f y)"
    then have "?f x = ?f y"
      using assms(1) n nth_eq_iff_index_eq [of "sc_channels c" "?f x" "?f y"] by (simp add: channel_wf_def)
    then show "x = y" by (rule inj_onD [OF inj_mod_shift _ xy])
  qed
  then show ?thesis
    using st assms(1) by (simp add: eq distinct_map channel_wf_def)
qed

definition demo_pool :: service_channel where
  "demo_pool = \<lparr>sc_hosts = {''a'', ''b'', ''c''}, sc_channels = [''a'', ''b'', ''c''], sc_index = 7\<rparr>"

theorem round_robin_fair_witness:
  "distinct (fst (choices 3 demo_pool)) \<and> set (fst (choices 3 demo_pool)) = Some ` {''a'', ''b'', ''c''}"
proof -
  have "channel_wf demo_pool" "sc_channels demo_pool \<noteq> []"
    "unat (sc_index demo_pool) + length (sc_channels demo_pool) \<le> 2 ^ 32"
    by (simp_all add: demo_pool_def channel_wf_def)
  note fair = round_robin_fair [OF this]
  have "length (sc_channels demo_pool) = 3" "sc_hosts demo_pool = {''a'', ''b'', ''c''}"
    by (simp_all add: demo_pool_def)
  with fair show ?thesis by (simp only:)
qed

text \<open>
  The path of an instance does not reach that instance. \<open>onServiceOnline\<close> enters the pool of the
  service under the path of the instance, so when two instances of a service are online, one of any two choices
  in a row for the path of the first returns the host of the second.
\<close>

theorem instance_path_not_direct:
  assumes "inst1 = svc @ ''/'' @ a" and "inst2 = svc @ ''/'' @ b" and "CHR ''/'' \<notin> set a" and "CHR ''/'' \<notin> set b"
    and "svc \<in> set (sm_follow m)" and "sm_services m svc = None" and "h1 \<noteq> h2"
    and "m1 = onServiceOnline True inst2 h2 (onServiceOnline True inst1 h1 m)"
    and "ServiceManager_choose inst1 m1 = (r1, m2)" and "ServiceManager_choose inst1 m2 = (r2, m3)"
  shows "r1 = Some h1 \<and> r2 = Some h2"
proof -
  have "dropWhile (\<lambda>c. c \<noteq> CHR ''/'') (rev x @ CHR ''/'' # rev svc) = CHR ''/'' # rev svc" if "CHR ''/'' \<notin> set x" for x
    using that by (subst dropWhile_append2) auto
  with assms(1-4) have nm: "getServiceName inst1 = svc" "getServiceName inst2 = svc"
    by (simp_all add: getServiceName_def)
  have ne: "inst1 \<noteq> svc" "inst2 \<noteq> svc" using assms(1,2) by auto
  show ?thesis
    using assms(5-10) ne
    by (auto simp: onServiceOnline_def nm Let_def ServiceManager_choose_def ServiceChannel_choose_def
        ServiceChannel_append_def new_channel_def split: if_splits)
qed

definition demo_manager :: service_manager where
  "demo_manager = declared ''/service/push'' new_manager"

theorem instance_path_not_direct_witness:
  "let m1 = onServiceOnline True ''/service/push/2'' ''h2'' (onServiceOnline True ''/service/push/1'' ''h1'' demo_manager)
   in fst (ServiceManager_choose ''/service/push/1'' (snd (ServiceManager_choose ''/service/push/1'' m1))) = Some ''h2''"
proof -
  define m1 where "m1 = onServiceOnline True ''/service/push/2'' ''h2'' (onServiceOnline True ''/service/push/1'' ''h1'' demo_manager)"
  obtain r1 m2 where c1: "ServiceManager_choose ''/service/push/1'' m1 = (r1, m2)" by fastforce
  obtain r2 m3 where c2: "ServiceManager_choose ''/service/push/1'' m2 = (r2, m3)" by fastforce
  have "r1 = Some ''h1'' \<and> r2 = Some ''h2''"
    by (rule instance_path_not_direct [OF _ _ _ _ _ _ _ m1_def c1 c2, where svc = "''/service/push''" and a = "''1''" and b = "''2''"])
      (simp_all add: demo_manager_def declared_def new_manager_def)
  with c1 c2 show ?thesis by (simp add: m1_def Let_def)
qed

end
