(* ===== verification/Gateway.thy ===== *)
theory Gateway
  imports Jwt Service_Manager
begin

text \<open>
  The HTTP gateway: gateway/source/gateway_auth.hpp (bearer tokens), gateway/source/gateway_trace.hpp with
  common/utils/trace_id.hpp (trace ids), and the route table, the entry and the forwarder of
  gateway/source/gateway_server.h.

  A request that is forwarded leaves a record of the backend call: host, service, method, timeout, metadata and
  body. What protobuf does with a body (whether it parses as the request of a method), what the backend
  replies and the random draws are arguments. Header names are compared without case, as httplib does.
\<close>

section \<open>Trace ids\<close>

definition hex_digit :: "char \<Rightarrow> bool" where
  "hex_digit c = (let n = (of_char c :: nat) in 48 \<le> n \<and> n \<le> 57 \<or> 97 \<le> n \<and> n \<le> 102)"

definition is_valid_trace_id :: "string \<Rightarrow> bool" where
  "is_valid_trace_id s = (length s = 32 \<and> list_all hex_digit s)"

definition hex_char :: "u64 \<Rightarrow> char" where
  "hex_char v = ''0123456789abcdef'' ! (unat v mod 16)"

text \<open>\<open>write_u64\<close>: \<open>n\<close> hexadecimal digits, the most significant first.\<close>

fun write_u64 :: "nat \<Rightarrow> u64 \<Rightarrow> string" where
  "write_u64 0 v = []"
| "write_u64 (Suc n) v = write_u64 n (drop_bit 4 v) @ [hex_char v]"

definition gen_trace_id :: "u64 \<Rightarrow> u64 \<Rightarrow> string" where
  "gen_trace_id hi lo = write_u64 16 hi @ write_u64 16 lo"

section \<open>HTTP\<close>

record http_request =
  hq_path :: string
  hq_headers :: "(string \<times> string) list"
  hq_body :: string

record http_response =
  hp_status :: int
  hp_content :: string
  hp_content_type :: string
  hp_headers :: "(string \<times> string) list"

definition empty_response :: http_response where
  "empty_response = \<lparr>hp_status = 200, hp_content = [], hp_content_type = [], hp_headers = []\<rparr>"

definition lower_char :: "char \<Rightarrow> char" where
  "lower_char c = (let n = (of_char c :: nat) in if 65 \<le> n \<and> n \<le> 90 then char_of (n + 32) else c)"

definition find_header :: "string \<Rightarrow> http_request \<Rightarrow> string option" where
  "find_header name req =
     map_option snd (find (\<lambda>h. map lower_char (fst h) = map lower_char name) (hq_headers req))"

definition set_content :: "string \<Rightarrow> string \<Rightarrow> http_response \<Rightarrow> http_response" where
  "set_content body content_type res = res\<lparr>hp_content := body, hp_content_type := content_type\<rparr>"

section \<open>Environment\<close>

datatype backend_service =
  Identity_svc | Relationship_svc | Conversation_svc | Message_svc | Transmite_svc | Media_svc | Presence_svc | Push_svc

datatype GatewayAuth = WHITELISTED | JWT_REQUIRED

record gateway_route =
  gr_path :: string
  gr_service :: backend_service
  gr_auth :: GatewayAuth
  gr_method :: string
  gr_timeout_ms :: int

definition route :: "string \<Rightarrow> backend_service \<Rightarrow> GatewayAuth \<Rightarrow> string \<Rightarrow> int \<Rightarrow> gateway_route" where
  "route path svc auth rpc_method timeout_ms =
     \<lparr>gr_path = path, gr_service = svc, gr_auth = auth, gr_method = rpc_method, gr_timeout_ms = timeout_ms\<rparr>"

record backend_call =
  bc_host :: string
  bc_service :: backend_service
  bc_method :: string
  bc_timeout_ms :: int
  bc_metadata :: rpc_metadata
  bc_body :: string

datatype call_result = Call_failed bool string | Call_reply string

record gateway_env =
  ge_up :: bool
  ge_now :: time
  ge_jwt :: jwt_lib
  ge_config :: jwt_config
  ge_random1 :: "u64 \<times> u64"
  ge_random2 :: "u64 \<times> u64"
  ge_service_name :: "backend_service \<Rightarrow> string"
  ge_parses :: "string \<Rightarrow> string \<Rightarrow> bool"
  ge_header_bytes :: "response_header \<Rightarrow> string"
  ge_error_bytes :: "string \<Rightarrow> response_header \<Rightarrow> string"
  ge_backend :: "backend_call \<Rightarrow> call_result"

record gateway_state =
  gs_kv :: jwt_redis
  gs_channels :: service_manager
  gs_calls :: "backend_call list"

section \<open>Authentication\<close>

record auth_info =
  ai_authed :: bool
  ai_user_id :: string
  ai_device_id :: string
  ai_jwt_jti :: string

definition no_auth :: auth_info where
  "no_auth = \<lparr>ai_authed = False, ai_user_id = [], ai_device_id = [], ai_jwt_jti = []\<rparr>"

definition fail_header :: "int \<Rightarrow> string \<Rightarrow> response_header" where
  "fail_header err msg = \<lparr>hdr_request_id = [], hdr_success = False, hdr_error_code = err, hdr_error_message = msg\<rparr>"

definition write_401 :: "gateway_env \<Rightarrow> int \<Rightarrow> string \<Rightarrow> http_response \<Rightarrow> http_response" where
  "write_401 env err msg res =
     set_content (ge_header_bytes env (fail_header err msg)) ''application/x-protobuf'' (res\<lparr>hp_status := 401\<rparr>)"

definition kPrefix :: string where
  "kPrefix = ''Bearer ''"

text \<open>\<open>Inl\<close>: the request is refused and the response is written.\<close>

definition jwt_authenticate ::
  "gateway_env \<Rightarrow> http_request \<Rightarrow> http_response \<Rightarrow> bool \<Rightarrow> jwt_redis \<Rightarrow> http_response + auth_info" where
  "jwt_authenticate env req res whitelisted kv =
     (if whitelisted then Inr no_auth
      else case find_header ''Authorization'' req of
        None \<Rightarrow> Inl (write_401 env kAuthTokenInvalid ''missing Authorization'' res)
      | Some h \<Rightarrow>
          if length h \<le> length kPrefix \<or> take (length kPrefix) h \<noteq> kPrefix
          then Inl (write_401 env kAuthTokenInvalid ''missing Bearer prefix'' res)
          else case JwtCodec_verify (ge_jwt env) (ge_config env) (ge_now env) (drop (length kPrefix) h) False of
            Inl (ServiceError err msg) \<Rightarrow> Inl (write_401 env err msg res)
          | Inl (StdException _) \<Rightarrow> Inl (write_401 env kSystemInternalError ''auth internal error'' res)
          | Inr c \<Rightarrow>
              if JwtStore_is_revoked (ge_up env) (ge_now env) (jc_jti c) kv
              then Inl (write_401 env kAuthTokenInvalid ''token revoked'' res)
              else Inr \<lparr>ai_authed = True, ai_user_id = jc_sub c, ai_device_id = jc_did c, ai_jwt_jti = jc_jti c\<rparr>)"

definition resolve_trace_id :: "u64 \<times> u64 \<Rightarrow> http_request \<Rightarrow> string" where
  "resolve_trace_id rnd req =
     (case find_header ''X-Trace-Id'' req of
        Some t \<Rightarrow> if is_valid_trace_id t then t else gen_trace_id (fst rnd) (snd rnd)
      | None \<Rightarrow> gen_trace_id (fst rnd) (snd rnd))"

definition gateway_setup_trace :: "u64 \<times> u64 \<Rightarrow> http_request \<Rightarrow> rpc_metadata \<Rightarrow> rpc_metadata" where
  "gateway_setup_trace rnd req meta = meta\<lparr>md_trace_id := resolve_trace_id rnd req\<rparr>"

definition apply_auth_to_brpc :: "auth_info \<Rightarrow> rpc_metadata \<Rightarrow> rpc_metadata" where
  "apply_auth_to_brpc a meta =
     meta\<lparr>md_user_id := (if ai_user_id a \<noteq> [] then ai_user_id a else md_user_id meta),
          md_device_id := (if ai_device_id a \<noteq> [] then ai_device_id a else md_device_id meta),
          md_jwt_jti := (if ai_authed a \<and> ai_jwt_jti a \<noteq> [] then ai_jwt_jti a else md_jwt_jti meta)\<rparr>"

section \<open>Forwarding\<close>

definition empty_metadata :: rpc_metadata where
  "empty_metadata = \<lparr>md_user_id = [], md_device_id = [], md_trace_id = [], md_jwt_jti = []\<rparr>"

definition write_err :: "gateway_env \<Rightarrow> string \<Rightarrow> int \<Rightarrow> string \<Rightarrow> http_response \<Rightarrow> http_response" where
  "write_err env rpc_method err msg res =
     set_content (ge_error_bytes env rpc_method (fail_header err msg)) ''application/x-protobuf'' res"

definition forward ::
  "gateway_env \<Rightarrow> http_request \<Rightarrow> http_response \<Rightarrow> auth_info \<Rightarrow> gateway_route \<Rightarrow> gateway_state \<Rightarrow>
     http_response \<times> gateway_state" where
  "forward env req res a r s =
     (if \<not> ge_parses env (gr_method r) (hq_body req)
      then (write_err env (gr_method r) kSystemInvalidArgument ''parse request body failed'' res, s)
      else case ServiceManager_choose (ge_service_name env (gr_service r)) (gs_channels s) of
        (None, m) \<Rightarrow> (write_err env (gr_method r) kSystemUnavailable ''no backend available'' res, s\<lparr>gs_channels := m\<rparr>)
      | (Some host, m) \<Rightarrow>
          let call = \<lparr>bc_host = host, bc_service = gr_service r, bc_method = gr_method r, bc_timeout_ms = gr_timeout_ms r,
                      bc_metadata = apply_auth_to_brpc a (gateway_setup_trace (ge_random2 env) req empty_metadata),
                      bc_body = hq_body req\<rparr>;
              s' = s\<lparr>gs_channels := m, gs_calls := gs_calls s @ [call]\<rparr>
          in case ge_backend env call of
               Call_failed timed_out txt \<Rightarrow>
                 (write_err env (gr_method r) (if timed_out then kSystemTimeout else kSystemUnavailable) txt res, s')
             | Call_reply bytes \<Rightarrow> (set_content bytes ''application/x-protobuf'' res, s'))"

section \<open>Routes\<close>

definition identity_routes :: "gateway_route list" where
  "identity_routes =
     [route ''/service/identity/register'' Identity_svc WHITELISTED ''Register'' 3000,
      route ''/service/identity/login'' Identity_svc WHITELISTED ''Login'' 3000,
      route ''/service/identity/send_verify_code'' Identity_svc WHITELISTED ''SendVerifyCode'' 3000,
      route ''/service/identity/refresh_token'' Identity_svc WHITELISTED ''RefreshToken'' 3000,
      route ''/service/identity/logout'' Identity_svc JWT_REQUIRED ''Logout'' 3000,
      route ''/service/identity/get_profile'' Identity_svc JWT_REQUIRED ''GetProfile'' 3000,
      route ''/service/identity/update_profile'' Identity_svc JWT_REQUIRED ''UpdateProfile'' 3000,
      route ''/service/identity/search_users'' Identity_svc JWT_REQUIRED ''SearchUsers'' 3000,
      route ''/service/identity/get_multi_info'' Identity_svc JWT_REQUIRED ''GetMultiUserInfo'' 3000]"

definition relationship_routes :: "gateway_route list" where
  "relationship_routes =
     [route ''/service/relationship/list_friends'' Relationship_svc JWT_REQUIRED ''ListFriends'' 3000,
      route ''/service/relationship/send_friend_request'' Relationship_svc JWT_REQUIRED ''SendFriendRequest'' 3000,
      route ''/service/relationship/handle_friend_request'' Relationship_svc JWT_REQUIRED ''HandleFriendRequest'' 3000,
      route ''/service/relationship/remove_friend'' Relationship_svc JWT_REQUIRED ''RemoveFriend'' 3000,
      route ''/service/relationship/search_friends'' Relationship_svc JWT_REQUIRED ''SearchFriends'' 3000,
      route ''/service/relationship/block_user'' Relationship_svc JWT_REQUIRED ''BlockUser'' 3000,
      route ''/service/relationship/unblock_user'' Relationship_svc JWT_REQUIRED ''UnblockUser'' 3000,
      route ''/service/relationship/list_blocked'' Relationship_svc JWT_REQUIRED ''ListBlockedUsers'' 3000,
      route ''/service/relationship/list_pending'' Relationship_svc JWT_REQUIRED ''ListPendingRequests'' 3000]"

definition conversation_routes :: "gateway_route list" where
  "conversation_routes =
     [route ''/service/conversation/list'' Conversation_svc JWT_REQUIRED ''ListConversations'' 3000,
      route ''/service/conversation/get'' Conversation_svc JWT_REQUIRED ''GetConversation'' 3000,
      route ''/service/conversation/create'' Conversation_svc JWT_REQUIRED ''CreateConversation'' 3000,
      route ''/service/conversation/update'' Conversation_svc JWT_REQUIRED ''UpdateConversation'' 3000,
      route ''/service/conversation/dismiss'' Conversation_svc JWT_REQUIRED ''DismissConversation'' 3000,
      route ''/service/conversation/add_members'' Conversation_svc JWT_REQUIRED ''AddMembers'' 3000,
      route ''/service/conversation/remove_members'' Conversation_svc JWT_REQUIRED ''RemoveMembers'' 3000,
      route ''/service/conversation/transfer_owner'' Conversation_svc JWT_REQUIRED ''TransferOwner'' 3000,
      route ''/service/conversation/change_role'' Conversation_svc JWT_REQUIRED ''ChangeMemberRole'' 3000,
      route ''/service/conversation/list_members'' Conversation_svc JWT_REQUIRED ''ListMembers'' 3000,
      route ''/service/conversation/set_mute'' Conversation_svc JWT_REQUIRED ''SetMute'' 3000,
      route ''/service/conversation/set_pin'' Conversation_svc JWT_REQUIRED ''SetPin'' 3000,
      route ''/service/conversation/set_visible'' Conversation_svc JWT_REQUIRED ''SetVisible'' 3000,
      route ''/service/conversation/quit'' Conversation_svc JWT_REQUIRED ''QuitConversation'' 3000,
      route ''/service/conversation/mark_read'' Conversation_svc JWT_REQUIRED ''MarkRead'' 3000,
      route ''/service/conversation/save_draft'' Conversation_svc JWT_REQUIRED ''SaveDraft'' 3000,
      route ''/service/conversation/search'' Conversation_svc JWT_REQUIRED ''SearchConversations'' 3000,
      route ''/service/conversation/get_member_ids'' Conversation_svc JWT_REQUIRED ''GetMemberIds'' 3000]"

definition message_routes :: "gateway_route list" where
  "message_routes =
     [route ''/service/message/sync'' Message_svc JWT_REQUIRED ''SyncMessages'' 10000,
      route ''/service/message/get_history'' Message_svc JWT_REQUIRED ''GetHistory'' 3000,
      route ''/service/message/get_by_id'' Message_svc JWT_REQUIRED ''GetMessagesById'' 3000,
      route ''/service/message/search'' Message_svc JWT_REQUIRED ''SearchMessages'' 3000,
      route ''/service/message/recall'' Message_svc JWT_REQUIRED ''RecallMessage'' 3000,
      route ''/service/message/add_reaction'' Message_svc JWT_REQUIRED ''AddReaction'' 3000,
      route ''/service/message/remove_reaction'' Message_svc JWT_REQUIRED ''RemoveReaction'' 3000,
      route ''/service/message/get_reactions'' Message_svc JWT_REQUIRED ''GetReactions'' 3000,
      route ''/service/message/pin'' Message_svc JWT_REQUIRED ''PinMessage'' 3000,
      route ''/service/message/unpin'' Message_svc JWT_REQUIRED ''UnpinMessage'' 3000,
      route ''/service/message/list_pinned'' Message_svc JWT_REQUIRED ''ListPinnedMessages'' 3000,
      route ''/service/message/delete'' Message_svc JWT_REQUIRED ''DeleteMessages'' 3000,
      route ''/service/message/clear'' Message_svc JWT_REQUIRED ''ClearConversation'' 3000,
      route ''/service/message/update_read_ack'' Message_svc JWT_REQUIRED ''UpdateReadAck'' 3000,
      route ''/service/message/select_by_client_msg_id'' Message_svc JWT_REQUIRED ''SelectByClientMsgId'' 3000]"

definition transmite_routes :: "gateway_route list" where
  "transmite_routes =
     [route ''/service/transmite/send'' Transmite_svc JWT_REQUIRED ''SendMessage'' 1000]"

definition media_routes :: "gateway_route list" where
  "media_routes =
     [route ''/service/media/apply_upload'' Media_svc JWT_REQUIRED ''ApplyUpload'' 3000,
      route ''/service/media/complete_upload'' Media_svc JWT_REQUIRED ''CompleteUpload'' 3000,
      route ''/service/media/apply_download'' Media_svc JWT_REQUIRED ''ApplyDownload'' 3000,
      route ''/service/media/get_file_info'' Media_svc JWT_REQUIRED ''GetFileInfo'' 3000,
      route ''/service/media/speech_recognition'' Media_svc JWT_REQUIRED ''SpeechRecognition'' 3000]"

definition presence_routes :: "gateway_route list" where
  "presence_routes =
     [route ''/service/presence/get'' Presence_svc JWT_REQUIRED ''GetPresence'' 3000,
      route ''/service/presence/batch_get'' Presence_svc JWT_REQUIRED ''BatchGetPresence'' 3000,
      route ''/service/presence/subscribe'' Presence_svc JWT_REQUIRED ''SubscribePresence'' 3000,
      route ''/service/presence/unsubscribe'' Presence_svc JWT_REQUIRED ''UnsubscribePresence'' 3000,
      route ''/service/presence/send_typing'' Presence_svc JWT_REQUIRED ''SendTyping'' 3000]"

definition routes :: "gateway_route list" where
  "routes = identity_routes @ relationship_routes @ conversation_routes @ message_routes @ transmite_routes @
     media_routes @ presence_routes"

section \<open>The entry\<close>

definition handle_request ::
  "gateway_env \<Rightarrow> http_request \<Rightarrow> gateway_state \<Rightarrow> http_response \<times> gateway_state" where
  "handle_request env req s =
     (case find (\<lambda>r. hq_path req = gr_path r) routes of
        None \<Rightarrow> (set_content ''{\"error\":\"not found\"}'' ''application/json'' (empty_response\<lparr>hp_status := 404\<rparr>), s)
      | Some r \<Rightarrow>
          (case jwt_authenticate env req empty_response (gr_auth r = WHITELISTED) (gs_kv s) of
             Inl res \<Rightarrow> (res, s)
           | Inr a \<Rightarrow>
               forward env req (empty_response\<lparr>hp_headers := [(''X-Trace-Id'', resolve_trace_id (ge_random1 env) req)]\<rparr>)
                 a r s))"

end
