(* ===== verification/Identity_Dao.thy ===== *)
theory Identity_Dao
  imports Es_Outbox User_Info_Cache Jwt
begin

text \<open>
  The stores of the identity service: the user table (odb/user.hxx and class \<open>UserTable\<close> of
  common/dao/mysql_user.hpp), the search index of users (class \<open>ESUser\<close> of common/dao/data_es.hpp) and
  the verification codes (class \<open>Codes\<close> of common/dao/data_redis.hpp).

  A row is identified by its business id, which is unique and which no operation changes. Mail and phone are
  nullable columns with a unique index: null never collides, a string does, the empty one too. Nicknames, mails and
  phones are compared under the collation of the column, which the server decides: \<open>coll\<close> maps a string to its
  sort key. Identifiers are lower-case hexadecimal and compared as they are. A statement
  that MySQL refuses for another reason (a value longer than its column, a lost connection) is a call that
  does not complete. Shown: every operation keeps the unique indexes, and the reads agree with them.
\<close>

section \<open>The user table\<close>

datatype gender = Gender_UNKNOWN | Gender_MALE | Gender_FEMALE | Gender_OTHER

datatype user_status = User_NORMAL | User_FROZEN | User_BANNED | User_DEACTIVE

record user_row =
  us_user_id :: uid
  us_nickname :: "string option"
  us_description :: "string option"
  us_password :: "string option"
  us_password_salt :: "string option"
  us_mail :: "string option"
  us_phone :: "string option"
  us_avatar_id :: "string option"
  us_gender :: gender
  us_region :: "string option"
  us_status :: user_status
  us_register_time :: time
  us_last_login_time :: "time option"
  us_last_login_ip :: "string option"
  us_update_time :: time

text \<open>The constructor of a registration; the times are set by the insert.\<close>

definition new_user :: "uid \<Rightarrow> string \<Rightarrow> string \<Rightarrow> user_row" where
  "new_user uid nickname password =
     \<lparr>us_user_id = uid, us_nickname = Some nickname, us_description = None, us_password = Some password,
      us_password_salt = None, us_mail = None, us_phone = None, us_avatar_id = None, us_gender = Gender_UNKNOWN,
      us_region = None, us_status = User_NORMAL, us_register_time = 0, us_last_login_time = None,
      us_last_login_ip = None, us_update_time = 0\<rparr>"

definition same_key :: "('k \<Rightarrow> 'k) \<Rightarrow> ('r \<Rightarrow> 'k option) \<Rightarrow> 'r \<Rightarrow> 'r \<Rightarrow> bool" where
  "same_key coll key r r' = (key r \<noteq> None \<and> map_option coll (key r) = map_option coll (key r'))"

definition user_conflict :: "(string \<Rightarrow> string) \<Rightarrow> user_row \<Rightarrow> user_row \<Rightarrow> bool" where
  "user_conflict coll r r' =
     (us_user_id r = us_user_id r' \<or> same_key coll us_mail r r' \<or> same_key coll us_phone r r')"

definition UserTable_insert ::
  "(string \<Rightarrow> string) \<Rightarrow> bool \<Rightarrow> time \<Rightarrow> user_row \<Rightarrow> user_row list \<Rightarrow> bool \<times> user_row list" where
  "UserTable_insert coll ok now user rs =
     (let row = user\<lparr>us_register_time := now, us_update_time := now\<rparr>
      in if \<not> ok \<or> list_ex (user_conflict coll row) rs then (False, rs) else (True, rs @ [row]))"

definition put_user :: "user_row \<Rightarrow> user_row list \<Rightarrow> user_row list" where
  "put_user row rs = update_where (\<lambda>r. us_user_id r = us_user_id row) (\<lambda>_. row) rs"

text \<open>Updating a row that is not in the table raises, as does a duplicate mail or phone.\<close>

definition UserTable_update ::
  "(string \<Rightarrow> string) \<Rightarrow> bool \<Rightarrow> time \<Rightarrow> user_row \<Rightarrow> user_row list \<Rightarrow> bool \<times> user_row list" where
  "UserTable_update coll ok now user rs =
     (let row = user\<lparr>us_update_time := now\<rparr>
      in if \<not> ok \<or> \<not> list_ex (\<lambda>r. us_user_id r = us_user_id row) rs
            \<or> list_ex (\<lambda>r. us_user_id r \<noteq> us_user_id row \<and> user_conflict coll row r) rs
         then (False, rs) else (True, put_user row rs))"

definition same_text :: "(string \<Rightarrow> string) \<Rightarrow> ('r \<Rightarrow> string option) \<Rightarrow> string \<Rightarrow> 'r \<Rightarrow> bool" where
  "same_text coll col v r = (map_option coll (col r) = Some (coll v))"

definition UserTable_select_by_nickname ::
  "(string \<Rightarrow> string) \<Rightarrow> bool \<Rightarrow> string \<Rightarrow> user_row list \<Rightarrow> user_row option" where
  "UserTable_select_by_nickname coll ok nickname rs =
     (if ok then query_one (same_text coll us_nickname nickname) rs else None)"

definition UserTable_select_by_mail ::
  "(string \<Rightarrow> string) \<Rightarrow> bool \<Rightarrow> string \<Rightarrow> user_row list \<Rightarrow> user_row option" where
  "UserTable_select_by_mail coll ok mail rs = (if ok then query_one (same_text coll us_mail mail) rs else None)"

definition UserTable_select_by_phone ::
  "(string \<Rightarrow> string) \<Rightarrow> bool \<Rightarrow> string \<Rightarrow> user_row list \<Rightarrow> user_row option" where
  "UserTable_select_by_phone coll ok phone rs = (if ok then query_one (same_text coll us_phone phone) rs else None)"

definition UserTable_select_by_id :: "bool \<Rightarrow> uid \<Rightarrow> user_row list \<Rightarrow> user_row option" where
  "UserTable_select_by_id ok uid rs = (if ok then query_one (\<lambda>r. us_user_id r = uid) rs else None)"

definition UserTable_select_multi_users :: "bool \<Rightarrow> uid list \<Rightarrow> user_row list \<Rightarrow> user_row list" where
  "UserTable_select_multi_users ok id_list rs =
     (if id_list = [] \<or> \<not> ok then [] else filter (\<lambda>r. us_user_id r \<in> set id_list) rs)"

definition UserTable_touch_login ::
  "bool \<Rightarrow> time \<Rightarrow> uid \<Rightarrow> string \<Rightarrow> user_row list \<Rightarrow> bool \<times> user_row list" where
  "UserTable_touch_login ok now uid login_ip rs =
     (case UserTable_select_by_id ok uid rs of
        None \<Rightarrow> (False, rs)
      | Some u \<Rightarrow>
          let u1 = u\<lparr>us_last_login_time := Some now\<rparr>;
              u2 = (if login_ip \<noteq> [] then u1\<lparr>us_last_login_ip := Some login_ip\<rparr> else u1)
          in (True, put_user (u2\<lparr>us_update_time := now\<rparr>) rs))"

definition UserTable_set_status ::
  "bool \<Rightarrow> time \<Rightarrow> uid \<Rightarrow> user_status \<Rightarrow> user_row list \<Rightarrow> bool \<times> user_row list" where
  "UserTable_set_status ok now uid status rs =
     (case UserTable_select_by_id ok uid rs of
        None \<Rightarrow> (False, rs)
      | Some u \<Rightarrow> (True, put_user (u\<lparr>us_status := status, us_update_time := now\<rparr>) rs))"

section \<open>The search index of users\<close>

definition user_doc ::
  "uid \<Rightarrow> string \<Rightarrow> string \<Rightarrow> string \<Rightarrow> string \<Rightarrow> string \<Rightarrow> int \<Rightarrow> es_doc" where
  "user_doc uid mail phone nickname description avatar_id status =
     map_of [(''user_id'', JString uid), (''nickname'', JString nickname), (''mail'', JString mail),
             (''phone'', JString phone), (''description'', JString description),
             (''avatar_id'', JString avatar_id), (''status'', JInt status)]"

definition ESUser_append_data ::
  "uid \<Rightarrow> string \<Rightarrow> string \<Rightarrow> string \<Rightarrow> string \<Rightarrow> string \<Rightarrow> int \<Rightarrow> bool \<Rightarrow> es_index \<Rightarrow> bool \<times> es_index" where
  "ESUser_append_data uid mail phone nickname description avatar_id status ok idx =
     (if \<not> ok then (False, idx)
      else (True, idx(uid \<mapsto> user_doc uid mail phone nickname description avatar_id status)))"

text \<open>A field of a hit: an absent one is null, which reads as the empty string.\<close>

definition src_string :: "es_doc \<Rightarrow> string \<Rightarrow> string option" where
  "src_string src k = json_asString (case src k of None \<Rightarrow> JNull | Some j \<Rightarrow> j)"

definition hit_user :: "es_doc \<Rightarrow> user_row option" where
  "hit_user src =
     Option.bind (src_string src ''user_id'') (\<lambda>uid.
     Option.bind (src_string src ''nickname'') (\<lambda>nickname.
     Option.bind (src_string src ''description'') (\<lambda>description.
     Option.bind (src_string src ''mail'') (\<lambda>mail.
     Option.bind (src_string src ''phone'') (\<lambda>phone.
     Option.bind (src_string src ''avatar_id'') (\<lambda>avatar_id.
       Some ((new_user uid nickname [])\<lparr>us_password := None, us_description := Some description,
               us_mail := Some mail, us_phone := Some phone, us_avatar_id := Some avatar_id\<rparr>)))))))"

fun hit_users :: "es_doc list \<Rightarrow> user_row list option" where
  "hit_users [] = Some []"
| "hit_users (d # ds) =
     (case hit_user d of None \<Rightarrow> None | Some u \<Rightarrow> map_option (Cons u) (hit_users ds))"

text \<open>
  The query (the key against mail, phone, id and nickname, without the listed ids, at most \<open>size\<close> hits) is
  run by Elasticsearch: \<open>query\<close> gives the hits, \<open>None\<close> when the request fails. A field that is no string
  raises, which is the \<open>Inl\<close> branch.
\<close>

definition ESUser_search ::
  "(string \<Rightarrow> uid list \<Rightarrow> int \<Rightarrow> es_index \<Rightarrow> es_doc list option) \<Rightarrow> string \<Rightarrow> uid list \<Rightarrow> int \<Rightarrow> es_index \<Rightarrow>
     exn + user_row list" where
  "ESUser_search query key uid_list n idx =
     (case query key uid_list n idx of
        None \<Rightarrow> Inr []
      | Some hits \<Rightarrow>
          (case hit_users hits of
             None \<Rightarrow> Inl (StdException ''Value is not convertible to string.'')
           | Some us \<Rightarrow> Inr us))"

section \<open>Verification codes\<close>

definition code_key :: "string \<Rightarrow> string" where
  "code_key cid = ''im:code:'' @ cid"

definition Codes_append :: "bool \<Rightarrow> time \<Rightarrow> string \<Rightarrow> string \<Rightarrow> int \<Rightarrow> jwt_redis \<Rightarrow> jwt_redis" where
  "Codes_append ok now cid vcode ttl_sec m = (if ok then kv_set now (code_key cid) vcode ttl_sec m else m)"

definition Codes_remove :: "bool \<Rightarrow> string \<Rightarrow> jwt_redis \<Rightarrow> jwt_redis" where
  "Codes_remove ok cid m = (if ok then m(code_key cid := None) else m)"

definition Codes_code :: "bool \<Rightarrow> time \<Rightarrow> string \<Rightarrow> jwt_redis \<Rightarrow> string option" where
  "Codes_code ok now cid m = (if ok then kv_get now (code_key cid) m else None)"

section \<open>The unique indexes\<close>

definition users_wf :: "(string \<Rightarrow> string) \<Rightarrow> user_row list \<Rightarrow> bool" where
  "users_wf coll rs = (distinct (map us_user_id rs)
     \<and> (\<forall>r \<in> set rs. \<forall>r' \<in> set rs. us_user_id r \<noteq> us_user_id r' \<longrightarrow> 
          \<not> same_key coll us_mail r r' \<and> \<not> same_key coll us_phone r r'))"

lemma users_wf_Nil [simp]: "users_wf coll []"
  by (simp add: users_wf_def)

lemma same_key_sym: "same_key coll key r r' = same_key coll key r' r"
  by (cases "key r"; cases "key r'") (auto simp: same_key_def)

lemma users_wf_insert:
  assumes "users_wf coll rs"
  shows "users_wf coll (snd (UserTable_insert coll ok now u rs))"
  using assms
  by (auto simp: UserTable_insert_def Let_def users_wf_def list_ex_iff user_conflict_def same_key_sym)

lemma set_put_user: "r \<in> set (put_user row rs) \<Longrightarrow> r = row \<or> r \<in> set rs \<and> us_user_id r \<noteq> us_user_id row"
  by (auto simp: put_user_def set_update_where)

lemma ids_put_user [simp]: "map us_user_id (put_user row rs) = map us_user_id rs"
  by (auto simp: put_user_def update_where_def)

lemma put_user_member: "r \<in> set rs \<Longrightarrow> us_user_id r = us_user_id row \<Longrightarrow> row \<in> set (put_user row rs)"
  by (force simp: put_user_def set_update_where)

lemma users_wfD:
  "users_wf coll rs \<Longrightarrow> r \<in> set rs \<Longrightarrow> r' \<in> set rs \<Longrightarrow> us_user_id r \<noteq> us_user_id r' \<Longrightarrow> \<not> user_conflict coll r r'"
  unfolding users_wf_def user_conflict_def by blast

lemma user_conflict_cong:
  "us_user_id r = us_user_id q \<Longrightarrow> us_mail r = us_mail q \<Longrightarrow> us_phone r = us_phone q \<Longrightarrow>
     user_conflict coll r r' = user_conflict coll q r'"
  by (simp add: user_conflict_def same_key_def)

lemma users_wf_put:
  assumes "users_wf coll rs" and "\<And>r. r \<in> set rs \<Longrightarrow> us_user_id r \<noteq> us_user_id row \<Longrightarrow> \<not> user_conflict coll row r"
  shows "users_wf coll (put_user row rs)"
  using assms by (auto simp: users_wf_def user_conflict_def same_key_sym dest!: set_put_user)

lemma users_wf_update:
  assumes "users_wf coll rs"
  shows "users_wf coll (snd (UserTable_update coll ok now u rs))"
  using assms by (auto simp: UserTable_update_def Let_def list_ex_iff intro!: users_wf_put)

lemma select_by_id_unique:
  assumes "users_wf coll rs" and "r \<in> set rs"
  shows "UserTable_select_by_id True (us_user_id r) rs = Some r"
proof -
  obtain r' where r': "query_one (\<lambda>x. us_user_id x = us_user_id r) rs = Some r'"
    using query_one_ex [of "\<lambda>x. us_user_id x = us_user_id r" rs] assms(2) by blast
  then have "r' = r"
    using query_one_Some [OF r'] assms by (auto simp: users_wf_def dest: inj_onD distinct_map [THEN iffD1])
  with r' show ?thesis by (simp add: UserTable_select_by_id_def)
qed

lemma users_wf_same_keys:
  assumes "users_wf coll rs" and "u \<in> set rs" and "us_user_id row = us_user_id u" and "us_mail row = us_mail u"
    and "us_phone row = us_phone u"
  shows "users_wf coll (put_user row rs)"
  using assms by (intro users_wf_put) (auto simp: users_wf_def user_conflict_def same_key_def)

lemma users_wf_touch:
  assumes "users_wf coll rs"
  shows "users_wf coll (snd (UserTable_touch_login ok now uid ip rs))"
    and "users_wf coll (snd (UserTable_set_status ok now uid st rs))"
proof -
  have *: "u \<in> set rs" if "UserTable_select_by_id ok uid rs = Some u" for u
    using that query_one_Some by (fastforce simp: UserTable_select_by_id_def split: if_splits)
  show "users_wf coll (snd (UserTable_touch_login ok now uid ip rs))"
    using assms * by (auto simp: UserTable_touch_login_def Let_def intro: users_wf_same_keys split: option.splits)
  show "users_wf coll (snd (UserTable_set_status ok now uid st rs))"
    using assms * by (auto simp: UserTable_set_status_def intro: users_wf_same_keys split: option.splits)
qed

end
