(* ===== verification/Identity.thy ===== *)
theory Identity
  imports Identity_Dao
begin

text \<open>
  The identity service, identity/source/identity_server.h: registration, login, logout, the rolling refresh of
  tokens, verification codes, profiles and the search for users, with the outbox of its search index.

  The state is the user table, the search index and its outbox, the Redis keys of tokens and codes, the profile
  cache and the mails sent. Not in the repository, and so arguments of a request: bcrypt, the JWT library, the
  random draws (token identifiers, the uuid, the code), jsoncpp, Elasticsearch and the collation. The five requests that
  need no login answer through \<open>open_rpc\<close>, the others through \<open>handle_rpc\<close>.
\<close>

section \<open>State, environment, messages\<close>

record id_state =
  is_users :: "user_row list"
  is_es :: es_index
  is_outbox :: zset
  is_kv :: jwt_redis
  is_info :: user_info_redis
  is_mails :: "(string \<times> string) list"

record id_env =
  ie_up :: calls
  ie_now :: time
  ie_jwt :: jwt_lib
  ie_config :: jwt_config
  ie_access_jti :: string
  ie_refresh_jti :: string
  ie_random :: string
  ie_uuid :: string
  ie_code :: string
  ie_code_ttl :: int
  ie_hashpw :: "string \<Rightarrow> string option"
  ie_checkpw :: "string \<Rightarrow> string \<Rightarrow> bool"
  ie_serialize :: "json \<Rightarrow> string"
  ie_query :: "string \<Rightarrow> uid list \<Rightarrow> int \<Rightarrow> es_index \<Rightarrow> es_doc list option"
  ie_media_prefix :: string
  ie_coll :: "string \<Rightarrow> string"

datatype credential = No_credential | Username_pwd string string | Phone_code string string string

record auth_tokens =
  at_access_token :: string
  at_refresh_token :: string
  at_access_expires_in_sec :: int
  at_refresh_expires_in_sec :: int

record login_rsp =
  lr_tokens :: auth_tokens
  lr_user_info :: user_info

record update_profile_req =
  up_nickname :: "string option"
  up_bio :: "string option"
  up_avatar_file_id :: "string option"
  up_phone :: "string option"

datatype destination = No_destination | Email string | Phone string

text \<open>The answer to a request that carries no identity: the same headers, without \<open>extract_auth\<close>.\<close>

definition open_rpc :: "string \<Rightarrow> ('s \<Rightarrow> (exn + 'r) \<times> 's) \<Rightarrow> 's \<Rightarrow> (response_header \<times> 'r option) \<times> 's" where
  "open_rpc rid body s =
     (case body s of
        (Inl e, s') \<Rightarrow> ((error_header rid e, None), s')
      | (Inr r, s') \<Rightarrow> ((ok_header rid, Some r), s'))"

section \<open>Checks and passwords\<close>

definition name_char :: "char \<Rightarrow> bool" where
  "name_char c = (let n = (of_char c :: nat) in
     97 \<le> n \<and> n \<le> 122 \<or> 65 \<le> n \<and> n \<le> 90 \<or> 48 \<le> n \<and> n \<le> 57 \<or> c = CHR ''_'' \<or> c = CHR ''-'')"

definition nickname_check :: "string \<Rightarrow> bool" where
  "nickname_check nickname = (3 \<le> length nickname \<and> length nickname \<le> 22 \<and> list_all name_char nickname)"

definition password_check :: "string \<Rightarrow> bool" where
  "password_check password = (6 \<le> length password \<and> length password \<le> 15 \<and> list_all name_char password)"

definition mail_check :: "string \<Rightarrow> bool" where
  "mail_check mail = (CHR ''@'' \<in> set mail \<and> CHR ''.'' \<in> set mail \<and> CHR '' '' \<notin> set mail)"

text \<open>bcrypt reads C strings: a password ends at its first zero byte.\<close>

definition c_str :: "string \<Rightarrow> string" where
  "c_str s = takeWhile (\<lambda>c. (of_char c :: nat) \<noteq> 0) s"

definition hash_password :: "id_env \<Rightarrow> string \<Rightarrow> exn + string" where
  "hash_password env pw =
     (if pw = [] then Inl (StdException ''password must not be empty'')
      else case ie_hashpw env (c_str pw) of
             None \<Rightarrow> Inl (StdException ''bcrypt_hashpw failed'')
           | Some h \<Rightarrow> Inr h)"

definition check_password :: "id_env \<Rightarrow> string \<Rightarrow> string \<Rightarrow> bool" where
  "check_password env pw hash = (pw \<noteq> [] \<and> hash \<noteq> [] \<and> ie_checkpw env (c_str pw) (c_str hash))"

section \<open>User info\<close>

definition make_avatar_url :: "id_env \<Rightarrow> string \<Rightarrow> string" where
  "make_avatar_url env avatar_id =
     (if avatar_id = [] \<or> ie_media_prefix env = [] then [] else ie_media_prefix env @ ''/'' @ avatar_id)"

definition fill_user_info :: "id_env \<Rightarrow> user_row \<Rightarrow> user_info" where
  "fill_user_info env user =
     \<lparr>ui_user_id = us_user_id user, ui_nickname = nullable_str (us_nickname user),
      ui_bio = nullable_str (us_description user), ui_phone = nullable_str (us_phone user),
      ui_avatar_url = make_avatar_url env (nullable_str (us_avatar_id user))\<rparr>"

text \<open>\<open>make_media_config\<close>: the trailing slashes go.\<close>

definition make_media_config :: "string \<Rightarrow> string" where
  "make_media_config public_url_prefix = rev (dropWhile (\<lambda>c. c = CHR ''/'') (rev public_url_prefix))"

section \<open>The outbox of the search index\<close>

definition user_payload_upsert ::
  "uid \<Rightarrow> string \<Rightarrow> string \<Rightarrow> string \<Rightarrow> string \<Rightarrow> string \<Rightarrow> int \<Rightarrow> json" where
  "user_payload_upsert uid mail phone nickname description avatar_id status = JObject
     [(''op'', JString ''upsert''), (''uid'', JString uid), (''mail'', JString mail), (''phone'', JString phone),
      (''nick'', JString nickname), (''desc'', JString description), (''avatar'', JString avatar_id),
      (''status'', JInt status)]"

definition user_es_write :: "id_env \<Rightarrow> nat \<Rightarrow> user_row \<Rightarrow> id_state \<Rightarrow> id_state" where
  "user_es_write env k user s =
     (let uid = us_user_id user; mail = nullable_str (us_mail user); phone = nullable_str (us_phone user);
          nickname = nullable_str (us_nickname user); description = nullable_str (us_description user);
          avatar_id = nullable_str (us_avatar_id user)
      in case retry_es_write (ie_up env k)
                (ie_serialize env (user_payload_upsert uid mail phone nickname description avatar_id 0)) (ie_now env)
                (ESUser_append_data uid mail phone nickname description avatar_id 0) (is_es s, is_outbox s) of
           (_, idx, z) \<Rightarrow> s\<lparr>is_es := idx, is_outbox := z\<rparr>)"

text \<open>\<open>replay_es_write_\<close>; \<open>None\<close> when a JSON accessor raises.\<close>

definition replay_user_write ::
  "(string \<Rightarrow> json option) \<Rightarrow> bool \<Rightarrow> string \<Rightarrow> es_index \<Rightarrow> (bool \<times> es_index) option" where
  "replay_user_write unser ok payload idx =
     (case unser payload of
        None \<Rightarrow> Some (False, idx)
      | Some root \<Rightarrow>
          Option.bind (get_string ''op'' root) (\<lambda>op.
            if op = ''upsert'' then
              Option.bind (get_string ''uid'' root) (\<lambda>uid.
              Option.bind (get_string ''mail'' root) (\<lambda>mail.
              Option.bind (get_string ''phone'' root) (\<lambda>phone.
              Option.bind (get_string ''nick'' root) (\<lambda>nickname.
              Option.bind (get_string ''desc'' root) (\<lambda>description.
              Option.bind (get_string ''avatar'' root) (\<lambda>avatar_id.
              Option.bind (get_int ''status'' root) (\<lambda>status.
                Some (ESUser_append_data uid mail phone nickname description avatar_id status ok idx))))))))
            else Some (False, idx)))"

fun reap_user_items ::
  "(string \<Rightarrow> json option) \<Rightarrow> calls \<Rightarrow> nat \<Rightarrow> string list \<Rightarrow> es_index \<times> zset \<Rightarrow> es_index \<times> zset" where
  "reap_user_items unser up i [] s = s"
| "reap_user_items unser up i (item # items) (idx, z) =
     (case replay_user_write unser (up 1 i) item idx of
        None \<Rightarrow> (idx, z)
      | Some (True, idx') \<Rightarrow> reap_user_items unser up (Suc i) items (idx', ESOutbox_remove (up 2 i) item z)
      | Some (False, idx') \<Rightarrow> reap_user_items unser up (Suc i) items (idx', z))"

text \<open>One pass of the reaper thread.\<close>

definition user_reaper_pass :: "(string \<Rightarrow> json option) \<Rightarrow> calls \<Rightarrow> id_state \<Rightarrow> id_state" where
  "user_reaper_pass unser up s =
     (case reap_user_items unser up 0 (ESOutbox_peek (up 0 0) 50 (is_outbox s)) (is_es s, is_outbox s) of
        (idx, z) \<Rightarrow> s\<lparr>is_es := idx, is_outbox := z\<rparr>)"

section \<open>Login, Logout\<close>

text \<open>
  Signing the two tokens and recording the refresh token, the steps Login and Register share. The record is
  written with call \<open>k\<close>.
\<close>

definition sign_pair :: "id_env \<Rightarrow> uid \<Rightarrow> string \<Rightarrow> exn + auth_tokens" where
  "sign_pair env uid did =
     (case sign_access (ie_jwt env) (ie_config env) (ie_now env) (ie_random env) uid did (ie_access_jti env) of
        Inl e \<Rightarrow> Inl e
      | Inr access \<Rightarrow>
          (case sign_refresh (ie_jwt env) (ie_config env) (ie_now env) (ie_random env) uid did (ie_refresh_jti env) of
             Inl e \<Rightarrow> Inl e
           | Inr refresh \<Rightarrow>
               Inr \<lparr>at_access_token = access, at_refresh_token = refresh,
                    at_access_expires_in_sec = jw_access_ttl_sec (ie_config env),
                    at_refresh_expires_in_sec = jw_refresh_ttl_sec (ie_config env)\<rparr>))"

definition issue_tokens :: "id_env \<Rightarrow> nat \<Rightarrow> uid \<Rightarrow> string \<Rightarrow> id_state \<Rightarrow> (exn + auth_tokens) \<times> id_state" where
  "issue_tokens env k uid did s =
     (case sign_pair env uid did of
        Inl e \<Rightarrow> (Inl e, s)
      | Inr toks \<Rightarrow>
          (Inr toks, s\<lparr>is_kv := put_active_refresh (ie_up env k 0) (ie_now env) uid did (ie_refresh_jti env)
                                 (jw_refresh_ttl_sec (ie_config env)) (is_kv s)\<rparr>))"

definition named_info :: "uid \<Rightarrow> string \<Rightarrow> user_info" where
  "named_info uid nickname =
     \<lparr>ui_user_id = uid, ui_nickname = nickname, ui_bio = [], ui_phone = [], ui_avatar_url = []\<rparr>"

definition Login :: "id_env \<Rightarrow> credential \<Rightarrow> string \<Rightarrow> id_state \<Rightarrow> (exn + login_rsp) \<times> id_state" where
  "Login env cred req_device_id s =
     (case cred of
        Phone_code _ _ _ \<Rightarrow> (Inl (ServiceError kNotImplemented ''phone_code login not yet supported''), s)
      | No_credential \<Rightarrow> (Inl (ServiceError kAuthInvalidCredentials ''no valid credential provided''), s)
      | Username_pwd username password \<Rightarrow>
          (case UserTable_select_by_nickname (ie_coll env) (ie_up env 0 0) username (is_users s) of
             None \<Rightarrow> (Inl (ServiceError kAuthInvalidCredentials ''username or password incorrect''), s)
           | Some user \<Rightarrow>
               if \<not> check_password env password (nullable_str (us_password user))
               then (Inl (ServiceError kAuthInvalidCredentials ''username or password incorrect''), s)
               else
                 let did = (if req_device_id = [] then ''unknown_device'' else req_device_id)
                 in case issue_tokens env 1 (us_user_id user) did s of
                      (Inl e, s') \<Rightarrow> (Inl e, s')
                    | (Inr toks, s') \<Rightarrow>
                        (Inr \<lparr>lr_tokens = toks,
                              lr_user_info = named_info (us_user_id user) (nullable_str (us_nickname user))\<rparr>, s')))"

definition Logout :: "id_env \<Rightarrow> auth_context \<Rightarrow> id_state \<Rightarrow> (exn + unit) \<times> id_state" where
  "Logout env ctx s =
     (let cfg = ie_config env; now = ie_now env;
          kv1 = (if jwt_jti ctx \<noteq> []
                 then JwtStore_revoke (ie_up env 0 0) now (jwt_jti ctx) (jw_access_ttl_sec cfg) (is_kv s)
                 else is_kv s);
          rt_jti = get_active_refresh (ie_up env 1 0) now (user_id ctx) (device_id ctx) kv1;
          kv2 = (if rt_jti \<noteq> []
                 then clear_active_refresh (ie_up env 3 0) (user_id ctx) (device_id ctx)
                        (JwtStore_revoke (ie_up env 2 0) now rt_jti (jw_refresh_ttl_sec cfg) kv1)
                 else kv1)
      in (Inr (), s\<lparr>is_kv := kv2\<rparr>))"

section \<open>RefreshToken\<close>

definition int32_of :: "int \<Rightarrow> int" where
  "int32_of i = (i + 2147483648) mod 4294967296 - 2147483648"

text \<open>
  What the handler does to Redis, in its order: the blacklist, the active token, the rotation, the blacklist
  entry of the old token, or the clean-up of the two error branches.
\<close>

definition refresh_kv :: "id_env \<Rightarrow> string \<Rightarrow> jwt_redis \<Rightarrow> (exn + auth_tokens) \<times> jwt_redis" where
  "refresh_kv env token kv =
     (let up = (\<lambda>k. ie_up env k 0); now = ie_now env; cfg = ie_config env; ttl = jw_refresh_ttl_sec cfg in
      case JwtCodec_verify (ie_jwt env) cfg now token True of
        Inl e \<Rightarrow> (Inl e, kv)
      | Inr c \<Rightarrow>
          if JwtStore_is_revoked (up 0) now (jc_jti c) kv
          then (Inl (ServiceError kAuthTokenInvalid ''refresh token revoked''), kv)
          else if get_active_refresh (up 1) now (jc_sub c) (jc_did c) kv \<noteq> jc_jti c
          then (Inl (ServiceError kAuthRefreshTokenReused ''refresh token mismatch active''),
                clear_active_refresh (up 3) (jc_sub c) (jc_did c)
                  (JwtStore_revoke (up 2) now (jc_jti c) ttl kv))
          else case sign_pair env (jc_sub c) (jc_did c) of
            Inl e \<Rightarrow> (Inl e, kv)
          | Inr toks \<Rightarrow>
              (case rotate_refresh_or_detect_reuse (up 4) (up 5) now (jc_sub c) (jc_did c) (jc_jti c)
                      (ie_refresh_jti env) ttl kv of
                 (ReuseDetected, kv1) \<Rightarrow>
                   (Inl (ServiceError kAuthRefreshTokenReused ''refresh chain reuse detected''),
                    clear_active_refresh (up 7) (jc_sub c) (jc_did c)
                      (JwtStore_revoke (up 6) now (jc_jti c) ttl kv1))
               | (RotateOk, kv1) \<Rightarrow>
                   let remain = int32_of (jc_exp_sec c - now div 1000)
                   in (Inr toks, if remain > 0 then JwtStore_revoke (up 8) now (jc_jti c) remain kv1 else kv1)))"

definition RefreshToken :: "id_env \<Rightarrow> string \<Rightarrow> id_state \<Rightarrow> (exn + auth_tokens) \<times> id_state" where
  "RefreshToken env refresh_token s =
     (case refresh_kv env refresh_token (is_kv s) of (r, kv) \<Rightarrow> (r, s\<lparr>is_kv := kv\<rparr>))"

section \<open>Register, SendVerifyCode\<close>

definition Register :: "id_env \<Rightarrow> credential \<Rightarrow> string \<Rightarrow> id_state \<Rightarrow> (exn + uid \<times> login_rsp) \<times> id_state" where
  "Register env cred nickname s =
     (case cred of
        Phone_code _ _ _ \<Rightarrow> (Inl (ServiceError kNotImplemented ''phone_code register not yet supported''), s)
      | No_credential \<Rightarrow> (Inl (ServiceError kAuthInvalidCredentials ''no valid credential provided''), s)
      | Username_pwd username password \<Rightarrow>
          if \<not> nickname_check nickname
          then (Inl (ServiceError kAuthInvalidCredentials ''nickname invalid''), s)
          else if \<not> password_check password
          then (Inl (ServiceError kAuthInvalidCredentials ''password invalid''), s)
          else if UserTable_select_by_nickname (ie_coll env) (ie_up env 0 0) nickname (is_users s) \<noteq> None
          then (Inl (ServiceError kAuthUserAlreadyExists ''nickname already taken''), s)
          else case hash_password env password of
            Inl e \<Rightarrow> (Inl e, s)
          | Inr hash \<Rightarrow>
              let user = new_user (ie_uuid env) nickname hash in
              case UserTable_insert (ie_coll env) (ie_up env 1 0) (ie_now env) user (is_users s) of
                (False, _) \<Rightarrow> (Inl (ServiceError kSystemInternalError ''db insert failed''), s)
              | (True, rs) \<Rightarrow>
                  (case issue_tokens env 3 (ie_uuid env) ''default_device''
                          (user_es_write env 2 user (s\<lparr>is_users := rs\<rparr>)) of
                     (Inl e, s') \<Rightarrow> (Inl e, s')
                   | (Inr toks, s') \<Rightarrow>
                       (Inr (ie_uuid env, \<lparr>lr_tokens = toks, lr_user_info = named_info (ie_uuid env) nickname\<rparr>), s')))"

definition SendVerifyCode :: "id_env \<Rightarrow> destination \<Rightarrow> id_state \<Rightarrow> (exn + string) \<times> id_state" where
  "SendVerifyCode env dest s =
     (case dest of
        No_destination \<Rightarrow> (Inl (ServiceError kAuthInvalidCredentials ''no destination specified''), s)
      | Phone _ \<Rightarrow> (Inl (ServiceError kNotImplemented ''phone verification not yet supported''), s)
      | Email mail \<Rightarrow>
          if \<not> mail_check mail then (Inl (ServiceError kAuthInvalidCredentials ''email format invalid''), s)
          else if \<not> ie_up env 0 0 then (Inl (ServiceError kSystemInternalError ''send email failed''), s)
          else (Inr (ie_uuid env),
                s\<lparr>is_mails := is_mails s @ [(mail, ie_code env)],
                  is_kv := Codes_append (ie_up env 1 0) (ie_now env) (ie_uuid env) (ie_code env) (ie_code_ttl env) (is_kv s)\<rparr>))"

section \<open>Profiles\<close>

definition GetProfile :: "id_env \<Rightarrow> auth_context \<Rightarrow> uid option \<Rightarrow> id_state \<Rightarrow> (exn + user_info) \<times> id_state" where
  "GetProfile env auth req_user_id s =
     (let uid = (case req_user_id of None \<Rightarrow> user_id auth | Some u \<Rightarrow> u)
      in case UserTable_select_by_id (ie_up env 0 0) uid (is_users s) of
           None \<Rightarrow> (Inl (ServiceError kAuthUserNotFound (''user not found: '' @ uid)), s)
         | Some user \<Rightarrow> (Inr (fill_user_info env user), s))"

definition apply_profile :: "update_profile_req \<Rightarrow> user_row \<Rightarrow> user_row" where
  "apply_profile req user =
     user\<lparr>us_nickname := (case up_nickname req of None \<Rightarrow> us_nickname user | v \<Rightarrow> v),
          us_description := (case up_bio req of None \<Rightarrow> us_description user | v \<Rightarrow> v),
          us_avatar_id := (case up_avatar_file_id req of None \<Rightarrow> us_avatar_id user | v \<Rightarrow> v),
          us_phone := (case up_phone req of None \<Rightarrow> us_phone user | v \<Rightarrow> v)\<rparr>"

definition UpdateProfile ::
  "id_env \<Rightarrow> auth_context \<Rightarrow> update_profile_req \<Rightarrow> id_state \<Rightarrow> (exn + user_info) \<times> id_state" where
  "UpdateProfile env auth req s =
     (case UserTable_select_by_id (ie_up env 0 0) (user_id auth) (is_users s) of
        None \<Rightarrow> (Inl (ServiceError kAuthUserNotFound ''user not found''), s)
      | Some user0 \<Rightarrow>
          if (case up_nickname req of None \<Rightarrow> False | Some n \<Rightarrow> \<not> nickname_check n)
          then (Inl (ServiceError kAuthInvalidCredentials ''nickname invalid''), s)
          else
            let user = apply_profile req user0;
                s1 = s\<lparr>is_info := snd (UserInfoCache_invalidate (ie_up env 1 0) (user_id auth) (is_info s))\<rparr>
            in case UserTable_update (ie_coll env) (ie_up env 2 0) (ie_now env) user (is_users s1) of
                 (False, _) \<Rightarrow> (Inl (ServiceError kSystemInternalError ''db update failed''), s1)
               | (True, rs) \<Rightarrow>
                   let s2 = s1\<lparr>is_users := rs,
                               is_info := snd (UserInfoCache_invalidate (ie_up env 3 0) (user_id auth) (is_info s1))\<rparr>
                   in (Inr (fill_user_info env user), user_es_write env 4 user s2))"

definition GetMultiUserInfo ::
  "id_env \<Rightarrow> auth_context \<Rightarrow> uid list \<Rightarrow> id_state \<Rightarrow> (exn + (uid \<Rightarrow> user_info option)) \<times> id_state" where
  "GetMultiUserInfo env auth users_id s =
     (let users = UserTable_select_multi_users (ie_up env 0 0) users_id (is_users s)
      in (Inr (foldl (\<lambda>m u. m(us_user_id u \<mapsto> fill_user_info env u)) (\<lambda>_. None) users), s))"

definition SearchUsers :: "id_env \<Rightarrow> auth_context \<Rightarrow> string \<Rightarrow> id_state \<Rightarrow> (exn + user_info list) \<times> id_state" where
  "SearchUsers env auth search_key s =
     (case ESUser_search (ie_query env) search_key [] 20 (is_es s) of
        Inl e \<Rightarrow> (Inl e, s)
      | Inr users \<Rightarrow> (Inr (map (fill_user_info env) users), s))"

end
