(* ===== verification/Refresh_Race.thy ===== *)
theory Refresh_Race
  imports Identity
begin

text \<open>
  Concurrent \<open>RefreshToken\<close> requests. Each Redis call of the handler is one atomic step; the requests, and
  anything else that leaves the rotation entries alone (logins, logouts, registrations), interleave freely on one
  Redis, and the clock moves between steps. Shown: run alone, the steps are the handler; and a refresh token
  buys at most one new pair of tokens within the life of its rotation entry.
\<close>

section \<open>The handler as steps\<close>

datatype refresh_phase =
    R_verify string
  | R_blacklist_check jwt_claims
  | R_active_check jwt_claims
  | R_mismatch jwt_claims
  | R_mismatch_clear jwt_claims
  | R_chain jwt_claims auth_tokens
  | R_put jwt_claims auth_tokens
  | R_reuse jwt_claims
  | R_reuse_clear jwt_claims
  | R_blacklist jwt_claims auth_tokens
  | R_ok jwt_claims auth_tokens
  | R_failed exn

text \<open>One step at time \<open>now\<close>. Only the tokens of the answer carry the time of the request.\<close>

fun refresh_act :: "id_env \<Rightarrow> time \<Rightarrow> refresh_phase \<Rightarrow> jwt_redis \<Rightarrow> refresh_phase \<times> jwt_redis" where
  "refresh_act env now (R_verify token) kv =
     (case JwtCodec_verify (ie_jwt env) (ie_config env) now token True of
        Inl e \<Rightarrow> (R_failed e, kv)
      | Inr c \<Rightarrow> (R_blacklist_check c, kv))"
| "refresh_act env now (R_blacklist_check c) kv =
     (if JwtStore_is_revoked (ie_up env 0 0) now (jc_jti c) kv
      then (R_failed (ServiceError kAuthTokenInvalid ''refresh token revoked''), kv)
      else (R_active_check c, kv))"
| "refresh_act env now (R_active_check c) kv =
     (if get_active_refresh (ie_up env 1 0) now (jc_sub c) (jc_did c) kv \<noteq> jc_jti c then (R_mismatch c, kv)
      else case sign_pair env (jc_sub c) (jc_did c) of
             Inl e \<Rightarrow> (R_failed e, kv)
           | Inr toks \<Rightarrow> (R_chain c toks, kv))"
| "refresh_act env now (R_mismatch c) kv =
     (R_mismatch_clear c, JwtStore_revoke (ie_up env 2 0) now (jc_jti c) (jw_refresh_ttl_sec (ie_config env)) kv)"
| "refresh_act env now (R_mismatch_clear c) kv =
     (R_failed (ServiceError kAuthRefreshTokenReused ''refresh token mismatch active''),
      clear_active_refresh (ie_up env 3 0) (jc_sub c) (jc_did c) kv)"
| "refresh_act env now (R_chain c toks) kv =
     (case (if ie_up env 4 0 then kv_set_nx now (chain_key (jc_jti c)) ''rotated'' kChainTtlSec kv else (True, kv)) of
        (False, kv1) \<Rightarrow> (R_reuse c, kv1)
      | (True, kv1) \<Rightarrow> (R_put c toks, kv1))"
| "refresh_act env now (R_put c toks) kv =
     (R_blacklist c toks, put_active_refresh (ie_up env 5 0) now (jc_sub c) (jc_did c) (ie_refresh_jti env)
                            (jw_refresh_ttl_sec (ie_config env)) kv)"
| "refresh_act env now (R_reuse c) kv =
     (R_reuse_clear c, JwtStore_revoke (ie_up env 6 0) now (jc_jti c) (jw_refresh_ttl_sec (ie_config env)) kv)"
| "refresh_act env now (R_reuse_clear c) kv =
     (R_failed (ServiceError kAuthRefreshTokenReused ''refresh chain reuse detected''),
      clear_active_refresh (ie_up env 7 0) (jc_sub c) (jc_did c) kv)"
| "refresh_act env now (R_blacklist c toks) kv =
     (let remain = int32_of (jc_exp_sec c - now div 1000)
      in (R_ok c toks, if remain > 0 then JwtStore_revoke (ie_up env 8 0) now (jc_jti c) remain kv else kv))"
| "refresh_act env now (R_ok c toks) kv = (R_ok c toks, kv)"
| "refresh_act env now (R_failed e) kv = (R_failed e, kv)"

fun refresh_iter :: "id_env \<Rightarrow> nat \<Rightarrow> refresh_phase \<times> jwt_redis \<Rightarrow> refresh_phase \<times> jwt_redis" where
  "refresh_iter env 0 p = p"
| "refresh_iter env (Suc n) (ph, kv) = refresh_iter env n (refresh_act env (ie_now env) ph kv)"

fun phase_result :: "refresh_phase \<Rightarrow> (exn + auth_tokens) option" where
  "phase_result (R_ok c toks) = Some (Inr toks)"
| "phase_result (R_failed e) = Some (Inl e)"
| "phase_result _ = None"

text \<open>Alone, the six steps of a request are the handler.\<close>

lemma refresh_steps_are_handler:
  assumes "refresh_iter env 6 (R_verify token, kv) = (ph, kv')"
  shows "phase_result ph = Some (fst (refresh_kv env token kv)) \<and> kv' = snd (refresh_kv env token kv)"
proof -
  have n: "6 = Suc (Suc (Suc (Suc (Suc (Suc 0)))))" by simp
  show ?thesis
    using assms unfolding n
    by (auto simp: refresh_kv_def rotate_refresh_or_detect_reuse_def Let_def
        split: sum.splits prod.splits bool.splits if_splits)
qed

section \<open>The race\<close>

record race =
  rc_clock :: time
  rc_kv :: jwt_redis
  rc_phase :: "nat \<Rightarrow> refresh_phase"

inductive rotation_step :: "(nat \<Rightarrow> id_env) \<Rightarrow> race \<Rightarrow> race \<Rightarrow> bool" for envs where
  Request: "rc_clock r \<le> t \<Longrightarrow> refresh_act (envs i) t (rc_phase r i) (rc_kv r) = (ph, kv) \<Longrightarrow>
     rotation_step envs r \<lparr>rc_clock = t, rc_kv = kv, rc_phase = (rc_phase r)(i := ph)\<rparr>"
| Other: "rc_clock r \<le> t \<Longrightarrow> (\<And>j. kv (chain_key j) = rc_kv r (chain_key j)) \<Longrightarrow>
     rotation_step envs r (r\<lparr>rc_clock := t, rc_kv := kv\<rparr>)"

fun rotated_by :: "refresh_phase \<Rightarrow> string option" where
  "rotated_by (R_put c toks) = Some (jc_jti c)"
| "rotated_by (R_blacklist c toks) = Some (jc_jti c)"
| "rotated_by (R_ok c toks) = Some (jc_jti c)"
| "rotated_by _ = None"

definition entry_lives :: "time \<Rightarrow> string \<Rightarrow> jwt_redis \<Rightarrow> bool" where
  "entry_lives t0 j kv = (\<exists>v x. kv (chain_key j) = Some (v, x) \<and> t0 + kChainTtlSec * 1000 \<le> x)"

definition single_use_inv :: "time \<Rightarrow> race \<Rightarrow> bool" where
  "single_use_inv t0 r = (t0 \<le> rc_clock r
     \<and> (\<forall>i j. rotated_by (rc_phase r i) = Some j \<longrightarrow> entry_lives t0 j (rc_kv r))
     \<and> (\<forall>i i' j. rotated_by (rc_phase r i) = Some j \<longrightarrow> rotated_by (rc_phase r i') = Some j \<longrightarrow> i = i'))"

lemma chain_key_frame [simp]:
  "JwtStore_revoke ok now k ttl kv (chain_key j) = kv (chain_key j)"
  "clear_active_refresh ok u d kv (chain_key j) = kv (chain_key j)"
  "put_active_refresh ok now u d k ttl kv (chain_key j) = kv (chain_key j)"
  by (simp_all add: JwtStore_revoke_def clear_active_refresh_def put_active_refresh_def kv_set_def)

text \<open>A step rotates for a token only by writing its entry where none lived; entries are never lost.\<close>

lemma refresh_act_chain:
  assumes "refresh_act env now ph kv = (ph', kv')" and "ie_up env 4 0"
  shows "(rotated_by ph' = rotated_by ph \<or> rotated_by ph = None \<and> rotated_by ph' = None) \<and>
           (\<forall>j. kv' (chain_key j) = kv (chain_key j))
    \<or> (\<exists>j. rotated_by ph = None \<and> rotated_by ph' = Some j \<and> kv_get now (chain_key j) kv = None \<and>
         kv' = kv_set now (chain_key j) ''rotated'' kChainTtlSec kv)"
  using assms
  by (cases ph) (auto simp: Let_def kv_set_nx_def split: sum.splits if_splits prod.splits bool.splits)

lemma entry_lives_get:
  "entry_lives t0 j kv \<Longrightarrow> now < t0 + kChainTtlSec * 1000 \<Longrightarrow> kv_get now (chain_key j) kv \<noteq> None"
  by (auto simp: entry_lives_def kv_get_def)

lemma entry_lives_set:
  "t0 \<le> now \<Longrightarrow> entry_lives t0 j kv \<or> j = k \<Longrightarrow> entry_lives t0 j (kv_set now (chain_key k) v kChainTtlSec kv)"
  by (auto simp: entry_lives_def kv_set_def)

lemma rotation_step_inv:
  assumes "rotation_step envs r r'" and "single_use_inv t0 r" and "\<And>i. ie_up (envs i) 4 0"
    and "rc_clock r' < t0 + kChainTtlSec * 1000"
  shows "single_use_inv t0 r'"
  using assms(1)
proof cases
  case (Other t kv)
  then show ?thesis using assms(2) by (auto simp: single_use_inv_def entry_lives_def)
next
  case (Request t i ph kv)
  have t: "t0 \<le> t" "t < t0 + kChainTtlSec * 1000" using Request assms(2,4) by (auto simp: single_use_inv_def)
  have live: "entry_lives t0 j (rc_kv r)" if "rotated_by (rc_phase r k) = Some j" for k j
    using that assms(2) unfolding single_use_inv_def by blast
  have uniq: "k = k'" if "rotated_by (rc_phase r k) = Some j" "rotated_by (rc_phase r k') = Some j" for k k' j
    using that assms(2) unfolding single_use_inv_def by blast
  from refresh_act_chain [OF Request(3) assms(3)] show ?thesis
  proof
    assume same: "(rotated_by ph = rotated_by (rc_phase r i) \<or> rotated_by (rc_phase r i) = None \<and> rotated_by ph = None) \<and>
      (\<forall>j. kv (chain_key j) = rc_kv r (chain_key j))"
    then have "rotated_by (rc_phase r' k) = rotated_by (rc_phase r k)" for k
      using Request(1) by auto
    moreover have "entry_lives t0 j (rc_kv r') = entry_lives t0 j (rc_kv r)" for j
      using same Request(1) by (simp add: entry_lives_def)
    ultimately show ?thesis using assms(2) t(1) Request(1) by (simp add: single_use_inv_def)
  next
    assume "\<exists>j. rotated_by (rc_phase r i) = None \<and> rotated_by ph = Some j \<and> kv_get t (chain_key j) (rc_kv r) = None \<and>
      kv = kv_set t (chain_key j) ''rotated'' kChainTtlSec (rc_kv r)"
    then obtain j where j: "rotated_by (rc_phase r i) = None" "rotated_by ph = Some j"
      "kv_get t (chain_key j) (rc_kv r) = None" "kv = kv_set t (chain_key j) ''rotated'' kChainTtlSec (rc_kv r)" by blast
    have new: "rotated_by (rc_phase r k) \<noteq> Some j" for k
      using j(3) live entry_lives_get [OF _ t(2)] by blast
    have ph: "rotated_by (rc_phase r' k) = (if k = i then Some j else rotated_by (rc_phase r k))" for k
      using j(2) Request(1) by simp
    have live': "entry_lives t0 j' (rc_kv r')" if "rotated_by (rc_phase r' k) = Some j'" for k j'
      using that live [of k j'] Request(1) j(2,4) entry_lives_set [OF t(1)] by (auto split: if_splits)
    have uniq': "k = k'" if "rotated_by (rc_phase r' k) = Some j'" "rotated_by (rc_phase r' k') = Some j'" for k k' j'
      using that uniq [of k j' k'] new by (auto simp: ph split: if_splits)
    have "t0 \<le> rc_clock r'" using t(1) Request(1) by simp
    with live' uniq' show ?thesis unfolding single_use_inv_def by blast
  qed
qed

lemma race_clock_mono: "rotation_step envs r r' \<Longrightarrow> rc_clock r \<le> rc_clock r'"
  by (cases rule: rotation_step.cases) auto

lemma rotation_inv:
  assumes "(rotation_step envs)\<^sup>*\<^sup>* r r'" and "single_use_inv t0 r" and "\<And>i. ie_up (envs i) 4 0"
    and "rc_clock r' < t0 + kChainTtlSec * 1000"
  shows "single_use_inv t0 r'"
  using assms
proof (induction rule: rtranclp_induct)
  case (step y z)
  then show ?case using race_clock_mono rotation_step_inv by (meson order_le_less_trans)
qed

section \<open>Single use\<close>

text \<open>
  Claim C7. A refresh token is used at most once. Take any number of \<open>RefreshToken\<close> requests that have not
  started, with any tokens, any interleaving of their Redis calls with each other and with other work that
  leaves the rotation entries alone. Within 24 hours, and as long as the calls that write a rotation entry
  complete, two requests that both answer with new tokens did not present the same token identifier.
\<close>

theorem refresh_token_single_use:
  assumes "(rotation_step envs)\<^sup>*\<^sup>* r r'" and "\<And>i. rc_phase r i = R_verify (tokens i)" and "\<And>i. ie_up (envs i) 4 0"
    and "rc_clock r' < rc_clock r + kChainTtlSec * 1000"
    and "rc_phase r' i = R_ok c toks" and "rc_phase r' i' = R_ok c' toks'" and "jc_jti c = jc_jti c'"
  shows "i = i'"
proof -
  have "single_use_inv (rc_clock r) r" using assms(2) by (simp add: single_use_inv_def)
  from rotation_inv [OF assms(1) this assms(3,4)] have "single_use_inv (rc_clock r) r'" .
  with assms(5-7) show ?thesis unfolding single_use_inv_def by (metis rotated_by.simps(3))
qed

text \<open>A request that runs alone is a run of the race.\<close>

lemma solo_run:
  assumes "refresh_iter (envs i) n (rc_phase r i, rc_kv r) = (ph, kv)" and "rc_clock r = ie_now (envs i)"
  shows "(rotation_step envs)\<^sup>*\<^sup>* r (r\<lparr>rc_kv := kv, rc_phase := (rc_phase r)(i := ph)\<rparr>)"
  using assms
proof (induction n arbitrary: r)
  case (Suc n)
  obtain ph1 kv1 where s: "refresh_act (envs i) (rc_clock r) (rc_phase r i) (rc_kv r) = (ph1, kv1)" by fastforce
  let ?r = "\<lparr>rc_clock = rc_clock r, rc_kv = kv1, rc_phase = (rc_phase r)(i := ph1)\<rparr>"
  have "rotation_step envs r ?r" using s by (rule rotation_step.Request [OF order_refl])
  moreover have "(rotation_step envs)\<^sup>*\<^sup>* ?r (?r\<lparr>rc_kv := kv, rc_phase := (rc_phase ?r)(i := ph)\<rparr>)"
    by (rule Suc.IH) (use Suc.prems s in auto)
  moreover have "?r\<lparr>rc_kv := kv, rc_phase := (rc_phase ?r)(i := ph)\<rparr> = r\<lparr>rc_kv := kv, rc_phase := (rc_phase r)(i := ph)\<rparr>"
    by (cases r) simp
  ultimately show ?case by (metis converse_rtranclp_into_rtranclp)
next
  case 0
  then have "r\<lparr>rc_kv := kv, rc_phase := (rc_phase r)(i := ph)\<rparr> = r" by (cases r) auto
  then show ?case by (metis rtranclp.rtrancl_refl)
qed

definition demo_refresh_token :: jwt_decoded where
  "demo_refresh_token = token_payload demo_jwt_config 5000 ''u'' ''d'' ''j'' 2592000 True"

definition demo_refresh_lib :: jwt_lib where
  "demo_refresh_lib = demo_lib\<lparr>jl_decode := \<lambda>_. Some demo_refresh_token\<rparr>"

definition demo_id_env :: id_env where
  "demo_id_env = \<lparr>ie_up = all_up, ie_now = 6000, ie_jwt = demo_refresh_lib, ie_config = demo_jwt_config,
     ie_access_jti = ''k'', ie_refresh_jti = ''l'', ie_random = ''r'', ie_uuid = ''w'', ie_code = ''1234'', ie_code_ttl = 300,
     ie_hashpw = Some, ie_checkpw = (=), ie_serialize = (\<lambda>_. ''p''), ie_query = (\<lambda>_ _ _ _. None),
     ie_media_prefix = ''http://m'', ie_coll = (\<lambda>s. s)\<rparr>"

definition demo_kv :: jwt_redis where
  "demo_kv = put_active_refresh True 5000 ''u'' ''d'' ''j'' 2592000 (\<lambda>_. None)"

definition demo_race :: race where
  "demo_race = \<lparr>rc_clock = 6000, rc_kv = demo_kv, rc_phase = (\<lambda>_. R_verify ''t'')\<rparr>"

lemma demo_refresh_ok:
  "phase_result (fst (refresh_iter demo_id_env 6 (R_verify ''t'', demo_kv))) \<noteq> None \<and>
   rotated_by (fst (refresh_iter demo_id_env 6 (R_verify ''t'', demo_kv))) = Some ''j''"
  by code_simp

text \<open>After request 0 has its tokens, whatever follows within the day, request 1 gets none for that token.\<close>

theorem refresh_token_single_use_witness:
  "\<exists>r c toks. (rotation_step (\<lambda>_. demo_id_env))\<^sup>*\<^sup>* demo_race r \<and> rc_phase r 0 = R_ok c toks \<and> jc_jti c = ''j''
     \<and> (\<nexists>r' c' toks'. (rotation_step (\<lambda>_. demo_id_env))\<^sup>*\<^sup>* r r' \<and> rc_clock r' < 6000 + kChainTtlSec * 1000
          \<and> rc_phase r' 0 = R_ok c toks \<and> rc_phase r' 1 = R_ok c' toks' \<and> jc_jti c' = ''j'')"
proof -
  obtain ph kv where run: "refresh_iter demo_id_env 6 (R_verify ''t'', demo_kv) = (ph, kv)" by fastforce
  then obtain c toks where ph: "ph = R_ok c toks" "jc_jti c = ''j''"
    using demo_refresh_ok by (cases ph) auto
  let ?r = "demo_race\<lparr>rc_kv := kv, rc_phase := (rc_phase demo_race)(0 := ph)\<rparr>"
  have steps: "(rotation_step (\<lambda>_. demo_id_env))\<^sup>*\<^sup>* demo_race ?r"
    by (rule solo_run) (use run in \<open>simp_all add: demo_race_def demo_id_env_def\<close>)
  have "False" if "(rotation_step (\<lambda>_. demo_id_env))\<^sup>*\<^sup>* ?r r'" "rc_clock r' < 6000 + kChainTtlSec * 1000"
    "rc_phase r' 0 = R_ok c toks" "rc_phase r' 1 = R_ok c' toks'" "jc_jti c' = ''j''" for r' c' toks'
  proof -
    have "(0::nat) = 1"
      by (rule refresh_token_single_use [OF rtranclp_trans [OF steps that(1)] _ _ _ that(3,4), where tokens = "\<lambda>_. ''t''"])
        (use that ph in \<open>simp_all add: demo_race_def demo_id_env_def\<close>)
    then show False by simp
  qed
  then show ?thesis using steps ph by (intro exI [of _ ?r] exI [of _ c] exI [of _ toks]) auto
qed

end
