(* ===== verification/Identity_Props.thy ===== *)
theory Identity_Props
  imports Refresh_Race
begin

text \<open>
  What the identity service guarantees on accounts and profiles: the unique keys of the user table survive every
  request, a registered user can log in, a profile update fences the readers of the profile cache; and two
  places where the unique keys do not help: a nickname taken over through a profile update, and the empty
  phone number.
\<close>

section \<open>Requests\<close>

datatype id_request =
    Q_Login credential string
  | Q_Logout
  | Q_RefreshToken string
  | Q_Register credential string
  | Q_SendVerifyCode destination
  | Q_GetProfile "uid option"
  | Q_UpdateProfile update_profile_req
  | Q_GetMultiUserInfo "uid list"
  | Q_SearchUsers string

text \<open>The state after a request, answered through the wrapper its handler has.\<close>

fun id_rpc :: "id_env \<Rightarrow> rpc_metadata option \<Rightarrow> string \<Rightarrow> id_request \<Rightarrow> id_state \<Rightarrow> id_state" where
  "id_rpc env md rid (Q_Login cred did) s = snd (open_rpc rid (Login env cred did) s)"
| "id_rpc env md rid Q_Logout s = snd (handle_rpc md rid (Logout env) s)"
| "id_rpc env md rid (Q_RefreshToken token) s = snd (open_rpc rid (RefreshToken env token) s)"
| "id_rpc env md rid (Q_Register cred nickname) s = snd (open_rpc rid (Register env cred nickname) s)"
| "id_rpc env md rid (Q_SendVerifyCode dest) s = snd (open_rpc rid (SendVerifyCode env dest) s)"
| "id_rpc env md rid (Q_GetProfile u) s = snd (handle_rpc md rid (\<lambda>auth. GetProfile env auth u) s)"
| "id_rpc env md rid (Q_UpdateProfile req) s = snd (handle_rpc md rid (\<lambda>auth. UpdateProfile env auth req) s)"
| "id_rpc env md rid (Q_GetMultiUserInfo us) s = snd (handle_rpc md rid (\<lambda>auth. GetMultiUserInfo env auth us) s)"
| "id_rpc env md rid (Q_SearchUsers k) s = snd (handle_rpc md rid (\<lambda>auth. SearchUsers env auth k) s)"

lemma snd_open_rpc [simp]: "snd (open_rpc rid body s) = snd (body s)"
  by (simp add: open_rpc_def prod.case_eq_if split: sum.splits)

lemma snd_case_sum [simp]:
  "snd (case p of (Inl e, s') \<Rightarrow> (Inl e, s') | (Inr t, s') \<Rightarrow> (Inr (f t), s')) = snd p"
  by (cases p) (simp split: sum.splits)

lemma user_es_write_frame [frame_simps]:
  "is_users (user_es_write env k u s) = is_users s" "is_kv (user_es_write env k u s) = is_kv s"
  "is_info (user_es_write env k u s) = is_info s"
  by (simp_all add: user_es_write_def Let_def prod.case_eq_if)

lemma issue_tokens_frame [frame_simps]:
  "is_users (snd (issue_tokens env k uid did s)) = is_users s"
  by (simp add: issue_tokens_def split: sum.splits)

lemma users_Login: "is_users (snd (Login env cred did s)) = is_users s"
  using issue_tokens_frame [of env 1]
  by (auto simp: Login_def Let_def prod.case_eq_if split: credential.splits option.splits sum.splits)

lemma users_same [frame_simps]:
  "is_users (snd (Logout env auth s)) = is_users s"
  "is_users (snd (RefreshToken env token s)) = is_users s"
  "is_users (snd (SendVerifyCode env dest s)) = is_users s"
  "is_users (snd (GetProfile env auth u s)) = is_users s"
  "is_users (snd (GetMultiUserInfo env auth us s)) = is_users s"
  "is_users (snd (SearchUsers env auth k s)) = is_users s"
  by (simp_all add: Logout_def RefreshToken_def SendVerifyCode_def GetProfile_def GetMultiUserInfo_def
      SearchUsers_def Let_def prod.case_eq_if split: destination.splits option.splits sum.splits)

lemma users_Register:
  "is_users (snd (Register env cred nickname s)) = is_users s \<or>
   (\<exists>u ok now. is_users (snd (Register env cred nickname s)) = snd (UserTable_insert (ie_coll env) ok now u (is_users s)))"
proof (cases cred)
  case (Username_pwd username password)
  show ?thesis
  proof (cases "hash_password env password")
    case (Inl e)
    then show ?thesis by (simp add: Username_pwd Register_def)
  next
    case (Inr hash)
    let ?ins = "UserTable_insert (ie_coll env) (ie_up env 1 0) (ie_now env) (new_user (ie_uuid env) nickname hash) (is_users s)"
    obtain b rs where ins: "?ins = (b, rs)" by fastforce
    have "is_users (snd (Register env cred nickname s)) = is_users s \<or>
        is_users (snd (Register env cred nickname s)) = snd ?ins"
      using ins Inr by (cases b) (simp_all add: Username_pwd Register_def Let_def frame_simps)
    then show ?thesis by blast
  qed
qed (simp_all add: Register_def)

lemma users_UpdateProfile:
  "is_users (snd (UpdateProfile env auth req s)) = is_users s \<or>
   (\<exists>u ok now. is_users (snd (UpdateProfile env auth req s)) = snd (UserTable_update (ie_coll env) ok now u (is_users s)))"
  by (auto simp: UpdateProfile_def Let_def frame_simps split: option.splits prod.splits bool.splits)
    (metis snd_conv)+

lemma id_rpc_users_wf:
  assumes "users_wf (ie_coll env) (is_users s)"
  shows "users_wf (ie_coll env) (is_users (id_rpc env md rid q s))"
proof -
  let ?P = "\<lambda>s. users_wf (ie_coll env) (is_users s)"
  have reg: "?P (snd (Register env cred nickname s))" for cred nickname
    using users_Register [of env cred nickname s] assms users_wf_insert by metis
  have upd: "?P (snd (UpdateProfile env auth req s))" for auth req
    using users_UpdateProfile [of env auth req s] assms users_wf_update by metis
  show ?thesis
    by (cases q) (auto simp: users_Login frame_simps reg upd assms intro!: handle_rpc_state [where P = ?P])
qed


definition empty_id_state :: id_state where
  "empty_id_state = \<lparr>is_users = [], is_es = (\<lambda>_. None), is_outbox = [], is_kv = (\<lambda>_. None),
     is_info = empty_user_info_redis, is_mails = []\<rparr>"

definition demo_register :: "string \<Rightarrow> string \<Rightarrow> id_env \<times> rpc_metadata option \<times> string \<times> id_request" where
  "demo_register uid nickname =
     (demo_id_env\<lparr>ie_uuid := uid\<rparr>, None, ''r'', Q_Register (Username_pwd [] ''secret'') nickname)"

lemma demo_users:
  "map us_user_id (is_users (foldl (\<lambda>s (env, md, rid, q). id_rpc env md rid q s) empty_id_state
     [demo_register ''u1'' ''anna'', demo_register ''u2'' ''anna'', demo_register ''u3'' ''bob''])) = [''u1'', ''u3'']"
  by code_simp


section \<open>Registration and login\<close>

lemma Register_success:
  assumes "Register env (Username_pwd username pw) nickname s = (Inr (uid, rsp), s1)"
  shows "\<exists>hash. hash_password env pw = Inr hash \<and> uid = ie_uuid env
    \<and> UserTable_select_by_nickname (ie_coll env) (ie_up env 0 0) nickname (is_users s) = None
    \<and> is_users s1 = is_users s @
        [(new_user uid nickname hash)\<lparr>us_register_time := ie_now env, us_update_time := ie_now env\<rparr>]"
proof -
  obtain hash where h: "hash_password env pw = Inr hash"
    using assms by (cases "hash_password env pw") (simp_all add: Register_def split: if_splits)
  let ?u = "new_user (ie_uuid env) nickname hash"
  obtain b rs where ins: "UserTable_insert (ie_coll env) (ie_up env 1 0) (ie_now env) ?u (is_users s) = (b, rs)" by fastforce
  have b: "b" using assms h ins by (cases b) (simp_all add: Register_def Let_def split: if_splits)
  have g: "UserTable_select_by_nickname (ie_coll env) (ie_up env 0 0) nickname (is_users s) = None"
    and t: "(case issue_tokens env 3 (ie_uuid env) ''default_device'' (user_es_write env 2 ?u (s\<lparr>is_users := rs\<rparr>)) of
        (Inl e, s') \<Rightarrow> (Inl e, s')
      | (Inr toks, s') \<Rightarrow> (Inr (ie_uuid env, \<lparr>lr_tokens = toks, lr_user_info = named_info (ie_uuid env) nickname\<rparr>), s'))
      = (Inr (uid, rsp), s1)"
    using assms h ins b by (simp_all add: Register_def Let_def split: if_splits)
  have "is_users s1 = rs"
    using arg_cong [OF t, of "\<lambda>p. is_users (snd p)"] by (simp add: frame_simps)
  moreover have "uid = ie_uuid env" using t by (auto split: sum.splits prod.splits)
  moreover have "rs = is_users s @ [?u\<lparr>us_register_time := ie_now env, us_update_time := ie_now env\<rparr>]"
    using ins b by (auto simp: UserTable_insert_def Let_def split: if_splits)
  ultimately show ?thesis using h g by auto
qed

lemma sign_pair_ok:
  assumes "map_of (jw_keys (ie_config env)) (jw_current_kid (ie_config env)) \<noteq> None"
  shows "\<exists>toks. sign_pair env uid did = Inr toks"
  using assms by (auto simp: sign_pair_def sign_access_def sign_refresh_def sign_internal_def)

text \<open>
  Claim C29. A registered user can log in. When registration succeeds and its check of the nickname reached the
  database, then later, with further users registered since, a login with that nickname and password
  succeeds as the registered user and leaves the new refresh token active for the device. Of bcrypt this uses that
  a password matches the hash made from it; of the configuration, that the signing key exists.
\<close>

theorem registered_user_can_log_in:
  assumes "Register env (Username_pwd username pw) nickname s = (Inr (uid, rsp), s1)" and "ie_up env 0 0"
    and "\<And>h. ie_hashpw env (c_str pw) = Some h \<Longrightarrow> h \<noteq> [] \<and> ie_checkpw env' (c_str pw) (c_str h)"
    and "is_users s2 = is_users s1 @ later" and "ie_up env' 0 0" and "ie_up env' 1 0" and "ie_coll env' = ie_coll env"
    and "map_of (jw_keys (ie_config env')) (jw_current_kid (ie_config env')) \<noteq> None"
    and "uid \<noteq> []" and "ie_refresh_jti env' \<noteq> []" and "0 < jw_refresh_ttl_sec (ie_config env')"
  shows "\<exists>rsp' s3. Login env' (Username_pwd nickname pw) did s2 = (Inr rsp', s3) \<and> ui_user_id (lr_user_info rsp') = uid
    \<and> get_active_refresh True (ie_now env') uid (if did = [] then ''unknown_device'' else did) (is_kv s3) = ie_refresh_jti env'"
proof -
  obtain hash where h: "hash_password env pw = Inr hash"
    and free: "UserTable_select_by_nickname (ie_coll env) (ie_up env 0 0) nickname (is_users s) = None"
    and rows: "is_users s1 = is_users s @ [(new_user uid nickname hash)\<lparr>us_register_time := ie_now env, us_update_time := ie_now env\<rparr>]"
    using Register_success [OF assms(1)] by blast
  let ?row = "(new_user uid nickname hash)\<lparr>us_register_time := ie_now env, us_update_time := ie_now env\<rparr>"
  have bc: "pw \<noteq> []" "hash \<noteq> []" "ie_checkpw env' (c_str pw) (c_str hash)"
    using h assms(3) [of hash] by (auto simp: hash_password_def split: if_splits option.splits)
  have "query_one (same_text (ie_coll env) us_nickname nickname) (is_users s2) = Some ?row"
    using free assms(2) by (simp add: assms(4) rows query_one_append UserTable_select_by_nickname_def same_text_def new_user_def)
  then have sel: "UserTable_select_by_nickname (ie_coll env') (ie_up env' 0 0) nickname (is_users s2) = Some ?row"
    using assms(5,7) by (simp add: UserTable_select_by_nickname_def)
  have fields: "us_user_id ?row = uid" "us_password ?row = Some hash" "us_nickname ?row = Some nickname"
    by (simp_all add: new_user_def)
  obtain toks where t: "sign_pair env' uid (if did = [] then ''unknown_device'' else did) = Inr toks"
    using sign_pair_ok [OF assms(8)] by blast
  have "Login env' (Username_pwd nickname pw) did s2 =
      (Inr \<lparr>lr_tokens = toks, lr_user_info = named_info uid nickname\<rparr>,
       s2\<lparr>is_kv := put_active_refresh True (ie_now env') uid (if did = [] then ''unknown_device'' else did)
            (ie_refresh_jti env') (jw_refresh_ttl_sec (ie_config env')) (is_kv s2)\<rparr>)"
    using sel t bc assms(6)
    by (simp add: Login_def issue_tokens_def fields check_password_def nullable_str_def Let_def)
  then show ?thesis
    using assms(9-11) by (simp add: named_info_def get_active_refresh_def put_active_refresh_def)
qed

theorem registered_user_can_log_in_witness:
  "\<exists>rsp' s3. Login demo_id_env (Username_pwd ''anna'' ''secret'') [] (snd (Register demo_id_env (Username_pwd [] ''secret'') ''anna'' empty_id_state))
     = (Inr rsp', s3) \<and> ui_user_id (lr_user_info rsp') = ''w'' \<and> get_active_refresh True 6000 ''w'' ''unknown_device'' (is_kv s3) = ''l''"
proof -
  have "\<not> isl (fst (Register demo_id_env (Username_pwd [] ''secret'') ''anna'' empty_id_state))" by code_simp
  then obtain uid rsp s1 where r: "Register demo_id_env (Username_pwd [] ''secret'') ''anna'' empty_id_state = (Inr (uid, rsp), s1)"
    by (metis isl_def old.sum.exhaust prod.collapse)
  then have uid: "uid = ''w''" using Register_success [OF r] by (auto simp: demo_id_env_def)
  show ?thesis
    using registered_user_can_log_in [OF r, of demo_id_env s1 "[]" "[]"] r
    by (simp add: uid demo_id_env_def demo_jwt_config_def c_str_def)
qed

section \<open>Profile updates\<close>

text \<open>What an update that succeeds did, with the calls of its steps.\<close>

lemma UpdateProfile_success:
  assumes "UpdateProfile env auth req s = (Inr info, s')"
  shows "\<exists>user0. UserTable_select_by_id (ie_up env 0 0) (user_id auth) (is_users s) = Some user0
    \<and> info = fill_user_info env (apply_profile req user0)
    \<and> UserTable_update (ie_coll env) (ie_up env 2 0) (ie_now env) (apply_profile req user0) (is_users s) = (True, is_users s')
    \<and> is_info s' = snd (UserInfoCache_invalidate (ie_up env 3 0) (user_id auth)
         (snd (UserInfoCache_invalidate (ie_up env 1 0) (user_id auth) (is_info s))))"
proof -
  obtain user0 where u: "UserTable_select_by_id (ie_up env 0 0) (user_id auth) (is_users s) = Some user0"
    using assms by (cases "UserTable_select_by_id (ie_up env 0 0) (user_id auth) (is_users s)") (simp_all add: UpdateProfile_def)
  obtain b rs where upd: "UserTable_update (ie_coll env) (ie_up env 2 0) (ie_now env) (apply_profile req user0) (is_users s) = (b, rs)"
    by fastforce
  have nick: "\<not> (case up_nickname req of None \<Rightarrow> False | Some n \<Rightarrow> \<not> nickname_check n)"
    using assms u by (auto simp: UpdateProfile_def simp del: not_None_eq split: if_splits)
  from upd nick u assms show ?thesis
    by (cases b) (auto simp: UpdateProfile_def Let_def frame_simps)
qed

lemma apply_profile_id [simp]: "us_user_id (apply_profile req u) = us_user_id u"
  by (simp add: apply_profile_def)

text \<open>
  Claim C33. A profile update fences the profile cache. When an update succeeds and both its invalidations reach
  Redis, then a reader that took the generation before the update, or between the first invalidation and the
  commit, and so may hold the old row, cannot store it: its write is a conflict, Redis keeps no profile of the
  user, nothing is published locally, and the table has the row the answer shows.
\<close>

theorem profile_update_fences_readers:
  assumes "UpdateProfile env auth req s = (Inr info, s')" and "ie_up env 1 0" and "ie_up env 3 0"
    and "generations_wf (is_info s)" and "gnum (user_id auth) (is_info s) + 2 < 2 ^ 63" and "users_wf (ie_coll env) (is_users s)"
    and "r \<in> {is_info s, snd (UserInfoCache_invalidate True (user_id auth) (is_info s))}"
    and "UserInfoCache_generation True (user_id auth) r = Some g"
  shows "UserInfoCache_set_if_generation True (user_id auth) old g (is_info s') = (Conflict, is_info s')
    \<and> UserInfoCache_get True (user_id auth) (is_info s') = None \<and> publish_user_info_l1 Conflict publish c = c
    \<and> (\<exists>row. UserTable_select_by_id True (user_id auth) (is_users s') = Some row \<and> info = fill_user_info env row)"
proof -
  let ?u = "user_id auth"
  obtain user0 where u: "UserTable_select_by_id (ie_up env 0 0) ?u (is_users s) = Some user0"
    and info: "info = fill_user_info env (apply_profile req user0)"
    and upd: "UserTable_update (ie_coll env) (ie_up env 2 0) (ie_now env) (apply_profile req user0) (is_users s) = (True, is_users s')"
    and inv: "is_info s' = snd (UserInfoCache_invalidate True ?u (snd (UserInfoCache_invalidate True ?u (is_info s))))"
    using UpdateProfile_success [OF assms(1)] assms(2,3) by auto
  obtain r1 where r1: "UserInfoCache_invalidate True ?u (is_info s) = (True, r1)" "generations_wf r1" "gnum ?u r1 = gnum ?u (is_info s) + 1"
    using invalidate_gnum [OF assms(4), of ?u] assms(5) by auto
  obtain r2 where r2: "UserInfoCache_invalidate True ?u r1 = (True, r2)" "generations_wf r2" "gnum ?u r2 = gnum ?u (is_info s) + 2"
    "ur_value r2 ?u = None"
    using invalidate_gnum [OF r1(2), of ?u] assms(5) r1(3) by auto
  have s': "is_info s' = r2" using inv r1(1) r2(1) by simp
  have "generations_wf r" "gnum ?u r < gnum ?u r2" using assms(4,7) r1 r2(3) by auto
  then have "unat g < gnum ?u r2"
    using generation_gnum(1,3) [of r ?u] assms(8) by (simp add: unat_small)
  then have "lua_generation ?u r2 \<noteq> Some (unat g)" using generation_gnum(2) [OF r2(2), of ?u] by simp
  moreover define row where row: "row = (apply_profile req user0)\<lparr>us_update_time := ie_now env\<rparr>"
  moreover have user0: "user0 \<in> set (is_users s)" "us_user_id user0 = ?u"
    using u query_one_Some [of "\<lambda>r. us_user_id r = ?u" "is_users s" user0]
    by (auto simp: UserTable_select_by_id_def split: if_splits)
  moreover have "row \<in> set (is_users s')"
    using upd put_user_member [OF user0(1), of row]
    by (auto simp: row UserTable_update_def Let_def split: if_splits)
  moreover have "users_wf (ie_coll env) (is_users s')" using users_wf_update [OF assms(6)] upd by (metis snd_conv)
  ultimately show ?thesis
    using select_by_id_unique [of "ie_coll env" "is_users s'" row] r2(4)
    by (auto simp: s' info UserInfoCache_set_if_generation_def execute_generation_write_def UserInfoCache_get_def
        publish_user_info_l1_def fill_user_info_def)
qed

section \<open>Nicknames and empty phones\<close>

lemma put_user_append:
  assumes "us_user_id row \<notin> us_user_id ` set xs"
  shows "put_user row (xs @ ys) = xs @ put_user row ys"
proof -
  have "us_user_id x \<noteq> us_user_id row" if "x \<in> set xs" for x using assms that by (metis imageI)
  then show ?thesis by (simp add: put_user_def update_where_def map_idI)
qed

text \<open>
  A nickname can be taken over through a profile update, and the one who took it can no longer log in.
  Registration refuses a nickname in use, an update does not look. When the later of two users sets the nickname
  of the earlier one, the update succeeds; a login under that nickname reads the earlier row, so the
  password of the later user is refused.
\<close>

theorem nickname_takeover_locks_out:
  assumes "is_users s = xs @ a # ys" and "users_wf (ie_coll env) (is_users s)" and "us_nickname a = Some n"
    and "\<forall>x \<in> set xs. \<not> same_text (ie_coll env) us_nickname n x" and "b \<in> set ys" and "user_id auth = us_user_id b"
    and "nickname_check n" and "ie_up env = all_up"
    and "req = \<lparr>up_nickname = Some n, up_bio = None, up_avatar_file_id = None, up_phone = None\<rparr>"
    and "ie_coll env' = ie_coll env" and "\<not> check_password env' pw (nullable_str (us_password a))"
  shows "\<exists>info s' m. UpdateProfile env auth req s = (Inr info, s') \<and> ui_nickname info = n
    \<and> fst (Login env' (Username_pwd n pw) did s') = Inl (ServiceError kAuthInvalidCredentials m)"
proof -
  let ?row = "(apply_profile req b)\<lparr>us_update_time := ie_now env\<rparr>"
  have sel: "UserTable_select_by_id True (us_user_id b) (is_users s) = Some b"
    using select_by_id_unique [OF assms(2), of b] assms(1,5) by simp
  have "\<not> user_conflict (ie_coll env) ?row r" if "r \<in> set (is_users s)" "us_user_id r \<noteq> us_user_id b" for r
    using users_wfD [OF assms(2), of b r] that assms(1,5) user_conflict_cong [of ?row b]
    by (simp add: assms(9) apply_profile_def)
  then have upd: "UserTable_update (ie_coll env) True (ie_now env) (apply_profile req b) (is_users s) = (True, put_user ?row (is_users s))"
    using assms(1,5) by (auto simp: UserTable_update_def Let_def list_ex_iff)
  have "us_user_id b \<in> us_user_id ` set ys" using assms(5) by simp
  moreover have "us_user_id ` set (xs @ [a]) \<inter> us_user_id ` set ys = {}"
    using assms(1,2) by (auto simp: users_wf_def)
  ultimately have "us_user_id ?row \<notin> us_user_id ` set (xs @ [a])" by (auto simp del: set_append)
  then have rows: "put_user ?row (is_users s) = xs @ a # put_user ?row ys"
    using put_user_append [of ?row "xs @ [a]" ys] by (simp add: assms(1))
  obtain info s' where r: "UpdateProfile env auth req s = (Inr info, s')" "ui_nickname info = n" "is_users s' = xs @ a # put_user ?row ys"
    using sel upd rows assms(6-9)
    by (simp add: UpdateProfile_def Let_def frame_simps fill_user_info_def apply_profile_def nullable_str_def)
  have "query_one (same_text (ie_coll env) us_nickname n) (is_users s') = Some a"
  proof -
    have "query_one (same_text (ie_coll env) us_nickname n) xs = None" using assms(4) by (simp add: query_one_None)
    then show ?thesis using assms(3) by (simp add: r(3) query_one_append same_text_def)
  qed
  then have "\<exists>m. fst (Login env' (Username_pwd n pw) did s') = Inl (ServiceError kAuthInvalidCredentials m)"
    using assms(10,11) by (simp add: Login_def UserTable_select_by_nickname_def)
  with r show ?thesis by blast
qed

definition demo_two_users :: id_state where
  "demo_two_users = empty_id_state\<lparr>is_users := [new_user ''u1'' ''anna'' ''pw-anna'', new_user ''u2'' ''bob'' ''pw-bob'']\<rparr>"

definition demo_bob :: auth_context where
  "demo_bob = \<lparr>user_id = ''u2'', device_id = ''d'', trace_id = [], jwt_jti = ''j''\<rparr>"

definition rename_to :: "string \<Rightarrow> update_profile_req" where
  "rename_to n = \<lparr>up_nickname = Some n, up_bio = None, up_avatar_file_id = None, up_phone = None\<rparr>"

lemma demo_two_users_wf: "users_wf (ie_coll demo_id_env) (is_users demo_two_users)"
  by (simp add: demo_two_users_def demo_id_env_def users_wf_def new_user_def same_key_def)

theorem nickname_takeover_locks_out_witness:
  "\<exists>info s' m. UpdateProfile demo_id_env demo_bob (rename_to ''anna'') demo_two_users = (Inr info, s') \<and> ui_nickname info = ''anna''
     \<and> fst (Login demo_id_env (Username_pwd ''anna'' ''pw-bob'') ''d'' s') = Inl (ServiceError kAuthInvalidCredentials m)"
proof -
  have "nickname_check ''anna''" "\<not> check_password demo_id_env ''pw-bob'' (nullable_str (Some ''pw-anna''))" by code_simp+
  then show ?thesis
    by (intro nickname_takeover_locks_out [OF _ demo_two_users_wf, where xs = "[]" and b = "new_user ''u2'' ''bob'' ''pw-bob''"
          and ys = "[new_user ''u2'' ''bob'' ''pw-bob'']" and a = "new_user ''u1'' ''anna'' ''pw-anna''"])
      (simp_all add: demo_two_users_def new_user_def demo_bob_def rename_to_def, simp_all add: demo_id_env_def)
qed

lemma demo_update_ok: "\<not> isl (fst (UpdateProfile demo_id_env demo_bob (rename_to ''robert'') demo_two_users))"
proof -
  have "nickname_check ''robert''" by code_simp
  moreover have "ie_up demo_id_env k i" for k i by (simp add: demo_id_env_def)
  ultimately show ?thesis
    by (simp add: UpdateProfile_def UserTable_select_by_id_def UserTable_update_def Let_def demo_two_users_def demo_bob_def
        rename_to_def new_user_def apply_profile_def user_conflict_def same_key_def)
qed

theorem profile_update_fences_readers_witness:
  "let s' = snd (UpdateProfile demo_id_env demo_bob (rename_to ''robert'') demo_two_users)
   in fst (UserInfoCache_set_if_generation True ''u2'' ''old'' 0 (is_info s')) = Conflict
      \<and> UserInfoCache_get True ''u2'' (is_info s') = None"
proof -
  obtain info s' where r: "UpdateProfile demo_id_env demo_bob (rename_to ''robert'') demo_two_users = (Inr info, s')"
    using demo_update_ok by (metis isl_def old.sum.exhaust prod.collapse)
  have "UserInfoCache_set_if_generation True (user_id demo_bob) ''old'' 0 (is_info s') = (Conflict, is_info s')
      \<and> UserInfoCache_get True (user_id demo_bob) (is_info s') = None"
  proof -
    have up: "ie_up demo_id_env k i" for k i by (simp add: demo_id_env_def)
    have a: "generations_wf (is_info demo_two_users)"
      by (simp add: demo_two_users_def empty_id_state_def generations_wf_def empty_user_info_redis_def)
    have b: "gnum (user_id demo_bob) (is_info demo_two_users) + 2 < 2 ^ 63"
      by (simp add: demo_two_users_def empty_id_state_def gnum_def empty_user_info_redis_def)
    have g: "UserInfoCache_generation True (user_id demo_bob) (is_info demo_two_users) = Some 0"
      by (simp add: demo_two_users_def empty_id_state_def empty_user_info_redis_def UserInfoCache_generation_def)
    note f = profile_update_fences_readers [OF r up up a b demo_two_users_wf _ g, where old = "''old''" and c = "()"]
    show ?thesis by (rule conjI [OF conjunct1 [OF f] conjunct1 [OF conjunct2 [OF f]]]) simp_all
  qed
  moreover have "user_id demo_bob = ''u2''" by (simp add: demo_bob_def)
  ultimately show ?thesis by (simp add: r)
qed

text \<open>The empty phone number is a value of the unique index: a second user cannot clear the phone.\<close>

lemma second_empty_phone_refused:
  assumes "users_wf (ie_coll env) (is_users s)" and "a \<in> set (is_users s)" and "b \<in> set (is_users s)"
    and "us_user_id a \<noteq> us_user_id b" and "us_phone a = Some []" and "user_id auth = us_user_id b" and "ie_up env 0 0"
    and "up_nickname req = None" and "up_phone req = Some []"
  shows "fst (UpdateProfile env auth req s) = Inl (ServiceError kSystemInternalError ''db update failed'')
    \<and> is_users (snd (UpdateProfile env auth req s)) = is_users s"
proof -
  have sel: "UserTable_select_by_id True (us_user_id b) (is_users s) = Some b"
    using select_by_id_unique [OF assms(1,3)] .
  have "UserTable_update (ie_coll env) (ie_up env 2 0) (ie_now env) (apply_profile req b) (is_users s) = (False, is_users s)"
    using assms(2,4,5,9)
    by (auto simp: UserTable_update_def Let_def list_ex_iff user_conflict_def same_key_def apply_profile_def)
  then show ?thesis using sel assms(6-8) by (simp add: UpdateProfile_def Let_def)
qed

end
