(* ===== verification/Gateway_Props.thy ===== *)
theory Gateway_Props
  imports Gateway Identity_Props
begin

text \<open>
  What the gateway guarantees: which requests reach a backend and as whom, the trace ids it hands out, and, with
  the identity service, that a logout ends the session.
\<close>

section \<open>The route table\<close>

definition open_methods :: "string list" where
  "open_methods = [''Register'', ''Login'', ''SendVerifyCode'', ''RefreshToken'']"

lemmas route_tables = routes_def identity_routes_def relationship_routes_def conversation_routes_def
  message_routes_def transmite_routes_def media_routes_def presence_routes_def

lemma whitelisted_routes:
  "list_all (\<lambda>r. (gr_auth r = WHITELISTED) = (gr_service r = Identity_svc \<and> gr_method r \<in> set open_methods)) routes"
  by code_simp

lemma route_paths_distinct: "distinct (map gr_path routes)"
  by code_simp

section \<open>Who reaches a backend\<close>

definition identity_of_token :: "gateway_env \<Rightarrow> http_request \<Rightarrow> jwt_redis \<Rightarrow> jwt_claims \<Rightarrow> bool" where
  "identity_of_token env req kv c =
     (\<exists>token. find_header ''Authorization'' req = Some (kPrefix @ token) \<and>
        JwtCodec_verify (ge_jwt env) (ge_config env) (ge_now env) token False = Inr c \<and>
        \<not> JwtStore_is_revoked (ge_up env) (ge_now env) (jc_jti c) kv)"

lemma jwt_authenticate_Inr:
  assumes "jwt_authenticate env req res False kv = Inr a"
  shows "\<exists>c. identity_of_token env req kv c \<and>
    a = \<lparr>ai_authed = True, ai_user_id = jc_sub c, ai_device_id = jc_did c, ai_jwt_jti = jc_jti c\<rparr>"
proof -
  obtain h where h: "find_header ''Authorization'' req = Some h" "take (length kPrefix) h = kPrefix"
    using assms by (auto simp: jwt_authenticate_def split: option.splits if_splits)
  then have hh: "h = kPrefix @ drop (length kPrefix) h" by (metis append_take_drop_id)
  obtain c where c: "JwtCodec_verify (ge_jwt env) (ge_config env) (ge_now env) (drop (length kPrefix) h) False = Inr c"
    "\<not> JwtStore_is_revoked (ge_up env) (ge_now env) (jc_jti c) kv"
    "a = \<lparr>ai_authed = True, ai_user_id = jc_sub c, ai_device_id = jc_did c, ai_jwt_jti = jc_jti c\<rparr>"
    using assms h by (auto simp: jwt_authenticate_def split: sum.splits exn.splits if_splits)
  show ?thesis using h(1) hh c unfolding identity_of_token_def by metis
qed

lemma forward_calls:
  "gs_calls (snd (forward env req res a r s)) = gs_calls s \<or>
   (\<exists>call. gs_calls (snd (forward env req res a r s)) = gs_calls s @ [call] \<and> bc_service call = gr_service r \<and>
      bc_method call = gr_method r \<and> bc_body call = hq_body req \<and>
      bc_metadata call = apply_auth_to_brpc a (gateway_setup_trace (ge_random2 env) req empty_metadata))"
  by (auto simp: forward_def Let_def split: prod.splits option.splits call_result.splits)

text \<open>
  Claim C8. Only authenticated requests reach a backend as a user. A request to the gateway makes at most one backend
  call. Either that call is one of the four open methods of the identity service, and its metadata names no user, so
  that a handler which asks for an identity refuses it; or the request carries a bearer token that verifies as an
  access token and is not revoked, and the metadata names exactly the user, device and token of its claims.
\<close>

theorem forwarded_calls_are_authenticated:
  "gs_calls (snd (handle_request env req s)) = gs_calls s \<or>
   (\<exists>call. gs_calls (snd (handle_request env req s)) = gs_calls s @ [call] \<and>
     (let md = bc_metadata call in
      bc_service call = Identity_svc \<and> bc_method call \<in> set open_methods \<and> md_user_id md = [] \<and>
        (\<exists>e. extract_auth (Some md) = Inl e)
      \<or> (\<exists>c. identity_of_token env req (gs_kv s) c \<and> md_user_id md = jc_sub c \<and> md_device_id md = jc_did c \<and>
           md_jwt_jti md = jc_jti c)))"
proof (cases "find (\<lambda>r. hq_path req = gr_path r) routes")
  case None
  then show ?thesis by (simp add: handle_request_def)
next
  case (Some r)
  show ?thesis
  proof (cases "jwt_authenticate env req empty_response (gr_auth r = WHITELISTED) (gs_kv s)")
    case (Inl res)
    then show ?thesis using Some by (simp add: handle_request_def)
  next
    case (Inr a)
    let ?res = "empty_response\<lparr>hp_headers := [(''X-Trace-Id'', resolve_trace_id (ge_random1 env) req)]\<rparr>"
    have s': "snd (handle_request env req s) = snd (forward env req ?res a r s)"
      using Some Inr by (simp add: handle_request_def)
    have r: "(gr_auth r = WHITELISTED) = (gr_service r = Identity_svc \<and> gr_method r \<in> set open_methods)"
      using whitelisted_routes Some by (auto simp: list_all_iff find_Some_iff)
    show ?thesis
    proof (cases "gr_auth r = WHITELISTED")
      case True
      then have "a = no_auth" using Inr by (simp add: jwt_authenticate_def)
      then show ?thesis
        using forward_calls [of env req ?res a r s] r True unfolding s'
        by (auto simp: apply_auth_to_brpc_def no_auth_def gateway_setup_trace_def empty_metadata_def extract_auth_def)
    next
      case False
      then obtain c where c: "identity_of_token env req (gs_kv s) c"
        and a: "a = \<lparr>ai_authed = True, ai_user_id = jc_sub c, ai_device_id = jc_did c, ai_jwt_jti = jc_jti c\<rparr>"
        using jwt_authenticate_Inr [of env req empty_response "gs_kv s" a] Inr by auto
      have "md_user_id (apply_auth_to_brpc a (gateway_setup_trace rnd req empty_metadata)) = jc_sub c"
        "md_device_id (apply_auth_to_brpc a (gateway_setup_trace rnd req empty_metadata)) = jc_did c"
        "md_jwt_jti (apply_auth_to_brpc a (gateway_setup_trace rnd req empty_metadata)) = jc_jti c" for rnd
        by (simp_all add: a apply_auth_to_brpc_def gateway_setup_trace_def empty_metadata_def)
      with c show ?thesis
        using forward_calls [of env req ?res a r s] unfolding s' Let_def by metis
    qed
  qed
qed

section \<open>Trace ids\<close>

lemma hex_chars: "list_all hex_digit ''0123456789abcdef''" "distinct ''0123456789abcdef''" "length ''0123456789abcdef'' = 16"
  by code_simp+

lemma hex_digit_hex_char: "hex_digit (hex_char v)"
  using hex_chars(1,3) by (simp add: hex_char_def list_all_length)

lemma hex_char_inject: "hex_char v = hex_char w \<longleftrightarrow> unat v mod 16 = unat w mod 16"
  unfolding hex_char_def by (rule nth_eq_iff_index_eq [OF hex_chars(2)]) simp_all

lemma write_u64_valid: "length (write_u64 n v) = n" "list_all hex_digit (write_u64 n v)"
  by (induction n arbitrary: v) (simp_all add: hex_digit_hex_char)

lemma gen_trace_id_valid: "is_valid_trace_id (gen_trace_id hi lo)"
  by (simp add: is_valid_trace_id_def gen_trace_id_def write_u64_valid)

lemma write_u64_inject: "write_u64 n v = write_u64 n w \<Longrightarrow> unat v mod 16 ^ n = unat w mod 16 ^ n"
proof (induction n arbitrary: v w)
  case (Suc n)
  then have d: "unat v mod 16 = unat w mod 16" and "write_u64 n (drop_bit 4 v) = write_u64 n (drop_bit 4 w)"
    by (auto simp: hex_char_inject)
  then have "(unat v div 16) mod 16 ^ n = (unat w div 16) mod 16 ^ n"
    using Suc.IH [of "drop_bit 4 v" "drop_bit 4 w"] by (simp add: unsigned_drop_bit_eq drop_bit_eq_div unat_div)
  then show ?case using d by (simp add: mod_mult2_eq)
qed simp

lemma gen_trace_id_inject: "gen_trace_id a b = gen_trace_id c d \<longleftrightarrow> a = c \<and> b = d"
proof -
  have "v = w" if "write_u64 16 v = write_u64 16 w" for v w
  proof -
    have "unat v < 16 ^ 16" "unat w < 16 ^ 16" using unsigned_less [of v] unsigned_less [of w] by simp_all
    then show ?thesis using write_u64_inject [OF that] by (simp add: word_eq_iff_unsigned [where ?'a = nat])
  qed
  then show ?thesis by (auto simp: gen_trace_id_def write_u64_valid)
qed

text \<open>
  The gateway resolves the trace id twice. Both the id in the response and the id in the metadata of
  the backend call are valid. They agree when the client sent a valid id; when it did not, each is drawn
  afresh, so they agree only if the two random draws do, and the id the client is given does not find the
  logs of the backends.
\<close>

theorem trace_id_of_response_and_call:
  assumes "handle_request env req s = (res, s')" and "gs_calls s' = gs_calls s @ [call]"
  shows "\<exists>t. hp_headers res = [(''X-Trace-Id'', t)] \<and> is_valid_trace_id t \<and> is_valid_trace_id (md_trace_id (bc_metadata call))
    \<and> (t = md_trace_id (bc_metadata call) \<longleftrightarrow>
         (case find_header ''X-Trace-Id'' req of None \<Rightarrow> False | Some x \<Rightarrow> is_valid_trace_id x) \<or> ge_random1 env = ge_random2 env)"
proof -
  obtain r where r: "find (\<lambda>r. hq_path req = gr_path r) routes = Some r"
    using assms by (cases "find (\<lambda>r. hq_path req = gr_path r) routes") (auto simp: handle_request_def)
  obtain a where a: "jwt_authenticate env req empty_response (gr_auth r = WHITELISTED) (gs_kv s) = Inr a"
    using assms r by (cases "jwt_authenticate env req empty_response (gr_auth r = WHITELISTED) (gs_kv s)")
      (auto simp: handle_request_def)
  let ?t = "resolve_trace_id (ge_random1 env) req" and ?t2 = "resolve_trace_id (ge_random2 env) req"
  have f: "forward env req (empty_response\<lparr>hp_headers := [(''X-Trace-Id'', ?t)]\<rparr>) a r s = (res, s')"
    using assms(1) r a by (simp add: handle_request_def)
  have "hp_headers res = [(''X-Trace-Id'', ?t)]"
    using f by (auto simp: forward_def Let_def write_err_def set_content_def split: if_splits prod.splits option.splits call_result.splits)
  moreover have "md_trace_id (bc_metadata call) = ?t2"
    using forward_calls [of env req "empty_response\<lparr>hp_headers := [(''X-Trace-Id'', ?t)]\<rparr>" a r s] f assms(2)
    by (auto simp: apply_auth_to_brpc_def gateway_setup_trace_def)
  moreover have "is_valid_trace_id (resolve_trace_id rnd req)" for rnd
    by (auto simp: resolve_trace_id_def gen_trace_id_valid split: option.splits)
  moreover have "?t = ?t2 \<longleftrightarrow> (case find_header ''X-Trace-Id'' req of None \<Rightarrow> False | Some x \<Rightarrow> is_valid_trace_id x) \<or>
      ge_random1 env = ge_random2 env"
    by (auto simp: resolve_trace_id_def gen_trace_id_inject prod_eq_iff split: option.splits)
  ultimately show ?thesis by auto
qed

definition demo_gateway_env :: gateway_env where
  "demo_gateway_env = \<lparr>ge_up = True, ge_now = 6000, ge_jwt = demo_lib, ge_config = demo_jwt_config, ge_random1 = (1, 2),
     ge_random2 = (3, 4), ge_service_name = (\<lambda>_. ''/service/push''), ge_parses = (\<lambda>_ _. True), ge_header_bytes = (\<lambda>_. ''h''),
     ge_error_bytes = (\<lambda>_ _. ''e''), ge_backend = (\<lambda>_. Call_reply ''ok'')\<rparr>"

definition demo_gateway :: gateway_state where
  "demo_gateway = \<lparr>gs_kv = (\<lambda>_. None), gs_channels = onServiceOnline True ''/service/push/1'' ''h1'' demo_manager, gs_calls = []\<rparr>"

definition demo_request :: http_request where
  "demo_request = \<lparr>hq_path = ''/service/identity/get_profile'', hq_headers = [(''authorization'', ''Bearer t'')], hq_body = ''b''\<rparr>"

lemma demo_request_forwarded: "length (gs_calls (snd (handle_request demo_gateway_env demo_request demo_gateway))) = 1"
  by code_simp

theorem trace_id_of_response_and_call_witness:
  "\<exists>res s' call t. handle_request demo_gateway_env demo_request demo_gateway = (res, s') \<and> gs_calls s' = [call]
     \<and> hp_headers res = [(''X-Trace-Id'', t)] \<and> t \<noteq> md_trace_id (bc_metadata call)"
proof -
  obtain res s' where h: "handle_request demo_gateway_env demo_request demo_gateway = (res, s')" by fastforce
  then obtain call where c: "gs_calls s' = gs_calls demo_gateway @ [call]"
    using demo_request_forwarded by (auto simp: demo_gateway_def length_Suc_conv)
  have "find_header ''X-Trace-Id'' demo_request = None" by code_simp
  with trace_id_of_response_and_call [OF h c] h c show ?thesis
    by (auto simp: demo_gateway_env_def demo_gateway_def)
qed

section \<open>Logout\<close>

text \<open>A signed token that verifies has the identifier it was signed with and is within its life.\<close>

lemma verified_signed_token:
  assumes "JwtCodec_verify lib cfg now token k = Inr c" and "jl_decode lib token = Some (token_payload cfg t uid did jti ttl rf)"
  shows "jc_jti c = jti \<and> now < t + ttl * 1000"
proof -
  have "\<not> token_expired now (token_payload cfg t uid did jti ttl rf)"
    and c: "claims_of (jw_current_kid cfg) (token_payload cfg t uid did jti ttl rf) k = Inr c"
    using assms by (auto simp: JwtCodec_verify_def token_payload_def split: option.splits if_splits)
  then have "now < (t + ttl * 1000) div 1000 * 1000" by (simp add: token_expired_def token_payload_def)
  moreover have "(t + ttl * 1000) div 1000 * 1000 \<le> t + ttl * 1000" by simp
  moreover have "jc_jti c = jti"
    using c by (auto simp: claims_of_def token_payload_def Let_def split: if_splits)
  ultimately show ?thesis by linarith
qed

definition session_token :: "id_env \<Rightarrow> uid \<Rightarrow> string \<Rightarrow> bool \<Rightarrow> jwt_decoded" where
  "session_token env uid did refresh = token_payload (ie_config env) (ie_now env) uid did
     (if refresh then ie_refresh_jti env else ie_access_jti env)
     (if refresh then jw_refresh_ttl_sec (ie_config env) else jw_access_ttl_sec (ie_config env)) refresh"

lemma sign_pair_tokens:
  assumes "sign_pair env uid did = Inr toks" and "ie_access_jti env \<noteq> []" and "ie_refresh_jti env \<noteq> []"
  shows "\<exists>key. at_access_token toks = jl_sign (ie_jwt env) key (session_token env uid did False)
    \<and> at_refresh_token toks = jl_sign (ie_jwt env) key (session_token env uid did True)"
  using assms
  by (auto simp: sign_pair_def sign_access_def sign_refresh_def sign_internal_def session_token_def split: sum.splits option.splits)

lemma Logout_revokes:
  assumes "Logout env ctx s = (Inr (), s')" and "ie_up env = all_up" and "jwt_jti ctx \<noteq> []" and "rj \<noteq> []"
    and "jwt_jti ctx \<noteq> rj" and "get_active_refresh True (ie_now env) (user_id ctx) (device_id ctx) (is_kv s) = rj"
    and "0 < jw_access_ttl_sec (ie_config env)" and "0 < jw_refresh_ttl_sec (ie_config env)"
  shows "kv_get t (revoked_key (jwt_jti ctx)) (is_kv s') =
      (if t < ie_now env + jw_access_ttl_sec (ie_config env) * 1000 then Some ''1'' else None)
    \<and> kv_get t (revoked_key rj) (is_kv s') =
      (if t < ie_now env + jw_refresh_ttl_sec (ie_config env) * 1000 then Some ''1'' else None)"
proof -
  have "get_active_refresh True (ie_now env) (user_id ctx) (device_id ctx)
      (JwtStore_revoke True (ie_now env) (jwt_jti ctx) (jw_access_ttl_sec (ie_config env)) (is_kv s)) = rj"
    using assms(6) by (simp add: get_active_refresh_def JwtStore_revoke_def)
  then have "is_kv s' = clear_active_refresh True (user_id ctx) (device_id ctx)
      (JwtStore_revoke True (ie_now env) rj (jw_refresh_ttl_sec (ie_config env))
        (JwtStore_revoke True (ie_now env) (jwt_jti ctx) (jw_access_ttl_sec (ie_config env)) (is_kv s)))"
    using assms(1-4) by (auto simp: Logout_def Let_def)
  then show ?thesis using assms(3-5,7,8) by (simp add: clear_active_refresh_def JwtStore_revoke_def)
qed


definition demo_session_lib :: jwt_lib where
  "demo_session_lib = \<lparr>jl_sign = (\<lambda>_ d. if map_of (jd_claims d) ''typ'' = None then ''a'' else ''r''),
     jl_decode = (\<lambda>t. Some (if t = ''a'' then token_payload demo_jwt_config 6000 ''u1'' ''d'' ''k'' 7200 False
                            else token_payload demo_jwt_config 6000 ''u1'' ''d'' ''l'' 2592000 True)),
     jl_signature_ok = (\<lambda>_ _. True)\<rparr>"

definition demo_session_env :: id_env where
  "demo_session_env = demo_id_env\<lparr>ie_jwt := demo_session_lib\<rparr>"

definition demo_anna :: auth_context where
  "demo_anna = \<lparr>user_id = ''u1'', device_id = ''d'', trace_id = [], jwt_jti = ''k''\<rparr>"

definition demo_logged_in :: id_state where
  "demo_logged_in = snd (Login demo_session_env (Username_pwd ''anna'' ''pw-anna'') ''d'' demo_two_users)"

definition demo_bearer :: http_request where
  "demo_bearer = \<lparr>hq_path = ''/service/identity/get_profile'', hq_headers = [(''Authorization'', ''Bearer a'')], hq_body = []\<rparr>"

lemma demo_session:
  "sign_pair demo_session_env ''u1'' ''d'' = Inr \<lparr>at_access_token = ''a'', at_refresh_token = ''r'',
     at_access_expires_in_sec = 7200, at_refresh_expires_in_sec = 2592000\<rparr>"
  "get_active_refresh True 6000 ''u1'' ''d'' (is_kv demo_logged_in) = ''l''"
  "find_header ''Authorization'' demo_bearer = Some (kPrefix @ ''a'')"
  by code_simp+


end
