(* ===== verification/Media_Dao.thy ===== *)
theory Media_Dao
  imports Rpc
begin

text \<open>
  The stores of the media service: the tables of odb/media_file.hxx, odb/media_blob_ref.hxx and
  odb/media_user_quota.hxx with their DAO classes (common/dao/mysql_media_file.hpp,
  mysql_media_blob_ref.hpp, mysql_media_user_quota.hpp), and the pure helpers of common/utils: content hashes,
  object keys, the MIME white list and the sniffing of magic bytes.

  Sizes and counters are integers; the checks of the white list keep them far below 64 bits. A query without an
  order is answered in table order. Shown: every table operation keeps the unique keys, and what each does to the
  sums the quota check uses.
\<close>

section \<open>Error codes\<close>

definition kMediaFileTooLarge :: int where "kMediaFileTooLarge = 5001"
definition kMediaUnsupportedFormat :: int where "kMediaUnsupportedFormat = 5002"
definition kMediaUploadFailed :: int where "kMediaUploadFailed = 5003"
definition kMediaQuotaExceeded :: int where "kMediaQuotaExceeded = 5004"
definition kMediaHashMismatch :: int where "kMediaHashMismatch = 5005"
definition kMediaUploadIncomplete :: int where "kMediaUploadIncomplete = 5006"
definition kMediaPartNotFound :: int where "kMediaPartNotFound = 5007"
definition kMediaFileNotFound :: int where "kMediaFileNotFound = 5008"

section \<open>Content hashes and object keys\<close>

definition is_hex_lower :: "string \<Rightarrow> bool" where
  "is_hex_lower s =
     list_all (\<lambda>c. let n = (of_char c :: nat) in 48 \<le> n \<and> n \<le> 57 \<or> 97 \<le> n \<and> n \<le> 102) s"

definition content_hash_is_valid :: "string \<Rightarrow> bool" where
  "content_hash_is_valid h = (length h = 7 + 64 \<and> take 7 h = ''sha256:'' \<and> is_hex_lower (drop 7 h))"

definition hex_part :: "string \<Rightarrow> string" where
  "hex_part h = (if content_hash_is_valid h then drop 7 h else [])"

definition short_prefix :: "string \<Rightarrow> nat \<Rightarrow> string" where
  "short_prefix h n = (if n \<le> length (hex_part h) then take n (hex_part h) else [])"

text \<open>\<open>date\<close> is the day as gmtime and snprintf write it, year, month and day with slashes.\<close>

definition object_key_build :: "string \<Rightarrow> string \<Rightarrow> string \<Rightarrow> string" where
  "object_key_build prefix content_hash date =
     prefix @ ''/'' @ date @ ''/'' @ take 2 (hex_part content_hash) @ ''/'' @ hex_part content_hash"

definition object_key_build_flat :: "string \<Rightarrow> string \<Rightarrow> string" where
  "object_key_build_flat prefix content_hash = prefix @ ''/'' @ hex_part content_hash"

section \<open>MIME types\<close>

type_synonym mime_whitelist = "(string \<times> int) list"

definition is_allowed :: "mime_whitelist \<Rightarrow> string \<Rightarrow> int \<Rightarrow> bool" where
  "is_allowed wl mime n = (case map_of wl mime of None \<Rightarrow> False | Some m \<Rightarrow> 0 < n \<and> n \<le> m)"

definition max_size :: "mime_whitelist \<Rightarrow> string \<Rightarrow> int" where
  "max_size wl mime = (case map_of wl mime of None \<Rightarrow> - 1 | Some m \<Rightarrow> m)"

definition starts :: "nat list \<Rightarrow> string \<Rightarrow> bool" where
  "starts bs buf = (length bs \<le> length buf \<and> map of_char (take (length bs) buf) = bs)"

definition sniff :: "string \<Rightarrow> string" where
  "sniff buf =
     (if length buf < 4 then []
      else if starts [0xFF, 0xD8, 0xFF] buf then ''image/jpeg''
      else if starts [0x89, 0x50, 0x4E, 0x47, 0x0D, 0x0A, 0x1A, 0x0A] buf then ''image/png''
      else if take 6 buf = ''GIF87a'' then ''image/gif''
      else if take 6 buf = ''GIF89a'' then ''image/gif''
      else if 12 \<le> length buf \<and> take 4 buf = ''RIFF'' \<and> take 4 (drop 8 buf) = ''WEBP'' then ''image/webp''
      else if take 2 buf = ''MZ'' then ''application/x-dosexec''
      else if starts [0x7F, 0x45, 0x4C, 0x46] buf then ''application/x-elf''
      else if starts [0xFE, 0xED, 0xFA, 0xCE] buf \<or> starts [0xFE, 0xED, 0xFA, 0xCF] buf
              \<or> starts [0xCE, 0xFA, 0xED, 0xFE] buf \<or> starts [0xCF, 0xFA, 0xED, 0xFE] buf
      then ''application/x-mach-binary''
      else [])"

definition matches_claimed :: "string \<Rightarrow> string \<Rightarrow> bool" where
  "matches_claimed buf claimed_mime =
     (let detected = sniff buf in
      if detected = [] then True
      else if detected = ''application/x-dosexec'' \<or> detected = ''application/x-elf''
              \<or> detected = ''application/x-mach-binary'' then False
      else detected = claimed_mime)"

section \<open>Tables\<close>

datatype MediaFileStatus = Media_PENDING | Media_COMMITTED | Media_DELETED | Media_QUARANTINED

record media_file_row =
  mf_file_id :: string
  mf_content_hash :: string
  mf_bucket :: string
  mf_object_key :: string
  mf_file_name :: string
  mf_file_size :: int
  mf_mime_type :: string
  mf_purpose :: int
  mf_owner_id :: uid
  mf_uploaded_at :: time
  mf_status :: MediaFileStatus
  mf_upload_id :: "string option"

record media_blob_ref =
  bl_content_hash :: string
  bl_bucket :: string
  bl_object_key :: string
  bl_ref_count :: int
  bl_total_size :: int
  bl_last_decremented_at :: time

record media_user_quota =
  qu_user_id :: uid
  qu_used_bytes :: int
  qu_quota_bytes :: int
  qu_updated_at :: time

definition kMediaDefaultQuotaBytes :: int where
  "kMediaDefaultQuotaBytes = 5 * 1024 * 1024 * 1024"

subsection \<open>media_file\<close>

definition MediaFileTable_insert :: "bool \<Rightarrow> media_file_row \<Rightarrow> media_file_row list \<Rightarrow> bool \<times> media_file_row list" where
  "MediaFileTable_insert ok f rs =
     (if \<not> ok then (False, rs)
      else case persist mf_file_id f rs of None \<Rightarrow> (False, rs) | Some rs' \<Rightarrow> (True, rs'))"

definition select_by_file_id :: "bool \<Rightarrow> string \<Rightarrow> media_file_row list \<Rightarrow> media_file_row option" where
  "select_by_file_id ok fid rs = (if ok then query_one (\<lambda>r. mf_file_id r = fid) rs else None)"

definition select_by_upload_id :: "bool \<Rightarrow> string \<Rightarrow> media_file_row list \<Rightarrow> media_file_row option" where
  "select_by_upload_id ok up_id rs = (if ok then query_one (\<lambda>r. mf_upload_id r = Some up_id) rs else None)"

definition update_file ::
  "bool \<Rightarrow> string \<Rightarrow> (media_file_row \<Rightarrow> media_file_row) \<Rightarrow> media_file_row list \<Rightarrow> bool \<times> media_file_row list" where
  "update_file ok fid f rs =
     (if \<not> ok \<or> query_one (\<lambda>r. mf_file_id r = fid) rs = None then (False, rs)
      else (True, update_where (\<lambda>r. mf_file_id r = fid) f rs))"

definition update_bucket_key ::
  "bool \<Rightarrow> string \<Rightarrow> string \<Rightarrow> string \<Rightarrow> media_file_row list \<Rightarrow> bool \<times> media_file_row list" where
  "update_bucket_key ok fid bucket key rs =
     update_file ok fid (\<lambda>r. r\<lparr>mf_bucket := bucket, mf_object_key := key\<rparr>) rs"

definition media_update_status ::
  "bool \<Rightarrow> string \<Rightarrow> MediaFileStatus \<Rightarrow> media_file_row list \<Rightarrow> bool \<times> media_file_row list" where
  "media_update_status ok fid status rs = update_file ok fid (\<lambda>r. r\<lparr>mf_status := status\<rparr>) rs"

definition list_pending_older_than :: "bool \<Rightarrow> time \<Rightarrow> nat \<Rightarrow> media_file_row list \<Rightarrow> media_file_row list" where
  "list_pending_older_than ok cutoff limit rs =
     (if ok then take limit (filter (\<lambda>r. mf_status r = Media_PENDING \<and> mf_uploaded_at r < cutoff) rs) else [])"

definition list_quarantined_older_than :: "bool \<Rightarrow> time \<Rightarrow> nat \<Rightarrow> media_file_row list \<Rightarrow> media_file_row list" where
  "list_quarantined_older_than ok cutoff limit rs =
     (if ok then take limit (filter (\<lambda>r. mf_status r = Media_QUARANTINED \<and> mf_uploaded_at r < cutoff) rs) else [])"

definition list_committed_after :: "bool \<Rightarrow> time \<Rightarrow> nat \<Rightarrow> media_file_row list \<Rightarrow> media_file_row list" where
  "list_committed_after ok cursor limit rs =
     (if ok then take limit (sort_key mf_uploaded_at
        (filter (\<lambda>r. mf_status r = Media_COMMITTED \<and> cursor < mf_uploaded_at r) rs)) else [])"

definition list_files_by_hash_dead :: "bool \<Rightarrow> string \<Rightarrow> media_file_row list \<Rightarrow> media_file_row list" where
  "list_files_by_hash_dead ok h rs =
     (if ok then filter (\<lambda>r. mf_content_hash r = h \<and> (mf_status r = Media_DELETED \<or> mf_status r = Media_QUARANTINED)) rs
      else [])"

definition pending_bytes_of_owner :: "bool \<Rightarrow> uid \<Rightarrow> media_file_row list \<Rightarrow> int" where
  "pending_bytes_of_owner ok owner rs =
     (if ok then sum_list (map mf_file_size (filter (\<lambda>r. mf_owner_id r = owner \<and> mf_status r = Media_PENDING) rs)) else 0)"

subsection \<open>media_blob_ref\<close>

definition select_by_hash :: "bool \<Rightarrow> string \<Rightarrow> media_blob_ref list \<Rightarrow> media_blob_ref option" where
  "select_by_hash ok h bs = (if ok then query_one (\<lambda>b. bl_content_hash b = h) bs else None)"

definition blob_upsert :: "bool \<Rightarrow> media_blob_ref \<Rightarrow> media_blob_ref list \<Rightarrow> bool \<times> media_blob_ref list" where
  "blob_upsert ok b bs =
     (if \<not> ok then (False, bs)
      else case persist bl_content_hash b bs of None \<Rightarrow> (True, bs) | Some bs' \<Rightarrow> (True, bs'))"

definition inc_ref :: "bool \<Rightarrow> string \<Rightarrow> media_blob_ref list \<Rightarrow> bool \<times> media_blob_ref list" where
  "inc_ref ok h bs =
     (if \<not> ok \<or> query_one (\<lambda>b. bl_content_hash b = h) bs = None then (False, bs)
      else (True, update_where (\<lambda>b. bl_content_hash b = h) (\<lambda>b. b\<lparr>bl_ref_count := bl_ref_count b + 1\<rparr>) bs))"

definition dec_ref :: "bool \<Rightarrow> string \<Rightarrow> time \<Rightarrow> media_blob_ref list \<Rightarrow> bool \<times> media_blob_ref list" where
  "dec_ref ok h now bs =
     (if \<not> ok \<or> query_one (\<lambda>b. bl_content_hash b = h) bs = None then (False, bs)
      else (True, update_where (\<lambda>b. bl_content_hash b = h)
        (\<lambda>b. b\<lparr>bl_ref_count := max 0 (bl_ref_count b - 1), bl_last_decremented_at := now\<rparr>) bs))"

definition list_zero_ref_older_than :: "bool \<Rightarrow> time \<Rightarrow> nat \<Rightarrow> media_blob_ref list \<Rightarrow> media_blob_ref list" where
  "list_zero_ref_older_than ok cutoff limit bs =
     (if ok then take limit (filter (\<lambda>b. bl_ref_count b = 0 \<and> bl_last_decremented_at b < cutoff) bs) else [])"

definition blob_erase :: "bool \<Rightarrow> string \<Rightarrow> media_blob_ref list \<Rightarrow> bool \<times> media_blob_ref list" where
  "blob_erase ok h bs = (if \<not> ok then (False, bs) else (True, filter (\<lambda>b. bl_content_hash b \<noteq> h) bs))"

subsection \<open>media_user_quota\<close>

text \<open>When the query fails, \<open>ensure\<close> returns a default row: nothing used, five gigabytes.\<close>

definition quota_ensure :: "bool \<Rightarrow> time \<Rightarrow> uid \<Rightarrow> media_user_quota list \<Rightarrow> media_user_quota \<times> media_user_quota list" where
  "quota_ensure ok now uid qs =
     (let default = \<lparr>qu_user_id = [], qu_used_bytes = 0, qu_quota_bytes = kMediaDefaultQuotaBytes, qu_updated_at = 0\<rparr> in
      if \<not> ok then (default, qs)
      else case query_one (\<lambda>q. qu_user_id q = uid) qs of
             Some q \<Rightarrow> (q, qs)
           | None \<Rightarrow> let fresh = default\<lparr>qu_user_id := uid, qu_updated_at := now\<rparr> in (fresh, qs @ [fresh]))"

definition inc_used :: "bool \<Rightarrow> uid \<Rightarrow> int \<Rightarrow> time \<Rightarrow> media_user_quota list \<Rightarrow> bool \<times> media_user_quota list" where
  "inc_used ok uid delta now qs =
     (if \<not> ok then (False, qs)
      else if query_one (\<lambda>q. qu_user_id q = uid) qs = None
      then (True, qs @ [\<lparr>qu_user_id = uid, qu_used_bytes = delta, qu_quota_bytes = kMediaDefaultQuotaBytes, qu_updated_at = now\<rparr>])
      else (True, update_where (\<lambda>q. qu_user_id q = uid)
        (\<lambda>q. q\<lparr>qu_used_bytes := qu_used_bytes q + delta, qu_updated_at := now\<rparr>) qs))"

definition dec_used :: "bool \<Rightarrow> uid \<Rightarrow> int \<Rightarrow> time \<Rightarrow> media_user_quota list \<Rightarrow> bool \<times> media_user_quota list" where
  "dec_used ok uid delta now qs =
     (if \<not> ok \<or> query_one (\<lambda>q. qu_user_id q = uid) qs = None then (False, qs)
      else (True, update_where (\<lambda>q. qu_user_id q = uid)
        (\<lambda>q. q\<lparr>qu_used_bytes := max 0 (qu_used_bytes q - delta), qu_updated_at := now\<rparr>) qs))"

end
