(* ===== verification/Media.thy ===== *)
theory Media
  imports Media_Dao Jwt
begin

text \<open>
  The media service: media/source/upload_handler.hpp, multipart_handler.hpp, download_handler.hpp,
  speech_handler.hpp and the tasks of cleanup_worker.hpp; media_server.h only forwards to the handlers inside
  \<open>HANDLE_RPC\<close>.

  The state is the three tables, the objects of the S3 store, its running multipart uploads, the lease of the
  cleanup worker in Redis and the cursor of its sniffing task. S3 behaves as documented: HEAD and GET fail for an
  absent object, deleting an absent object succeeds; the signed URLs, the assembled content of a multipart upload
  and the fresh identifiers are arguments. A call that fails is one the oracle says does not complete.
\<close>

section \<open>State and environment\<close>

record s3_upload =
  su_bucket :: string
  su_key :: string
  su_upload_id :: string
  su_initiated_ms :: time

record media_state =
  ms_files :: "media_file_row list"
  ms_blobs :: "media_blob_ref list"
  ms_quota :: "media_user_quota list"
  ms_objects :: "string \<times> string \<Rightarrow> string option"
  ms_uploads :: "s3_upload list"
  ms_lease :: jwt_redis
  ms_cursor :: time

record media_env =
  me_up :: calls
  me_now :: time
  me_date :: string
  me_file_id :: string
  me_upload_id :: string
  me_assembled :: string
  me_mime :: mime_whitelist
  me_pub_b :: string
  me_pri_b :: string
  me_presign :: int
  me_sign :: "string \<Rightarrow> string \<Rightarrow> string"

record apply_upload_req =
  aq_file_name :: string
  aq_file_size :: int
  aq_mime_type :: string
  aq_content_hash :: string
  aq_purpose :: int

record apply_upload_rsp =
  ar_file_id :: string
  ar_already_exists :: bool
  ar_upload_url :: string
  ar_headers :: "(string \<times> string) list"
  ar_expires_in_sec :: int

record init_multipart_rsp =
  ir_file_id :: string
  ir_upload_id :: string
  ir_recommended_part_size_bytes :: int

record file_info =
  fi_file_id :: string
  fi_file_name :: string
  fi_file_size :: int
  fi_mime_type :: string
  fi_uploaded_at_ms :: int

definition storage_error :: exn where
  "storage_error = ServiceError kMediaUploadFailed ''media storage error''"

section \<open>Helpers\<close>

text \<open>The purposes of the protocol: 1 avatar, 2 group avatar, 3 chat, 4 sticker.\<close>

definition pick_bucket :: "int \<Rightarrow> string \<Rightarrow> string \<Rightarrow> string" where
  "pick_bucket p pub_b pri_b = (if p = 1 \<or> p = 2 \<or> p = 4 then pub_b else pri_b)"

definition purpose_prefix :: "int \<Rightarrow> string" where
  "purpose_prefix p =
     (if p = 1 then ''avatar'' else if p = 2 then ''group_avatar'' else if p = 4 then ''sticker'' else ''chat'')"

definition fill_file_info :: "media_file_row \<Rightarrow> file_info" where
  "fill_file_info f = \<lparr>fi_file_id = mf_file_id f, fi_file_name = mf_file_name f, fi_file_size = mf_file_size f,
     fi_mime_type = mf_mime_type f, fi_uploaded_at_ms = mf_uploaded_at f\<rparr>"

definition upload_key :: "media_env \<Rightarrow> apply_upload_req \<Rightarrow> string" where
  "upload_key env req =
     (if aq_purpose req = 3 then object_key_build (purpose_prefix (aq_purpose req)) (aq_content_hash req) (me_date env)
      else object_key_build_flat (purpose_prefix (aq_purpose req)) (aq_content_hash req))"

definition pending_row ::
  "media_env \<Rightarrow> uid \<Rightarrow> apply_upload_req \<Rightarrow> string \<Rightarrow> string \<Rightarrow> string option \<Rightarrow> media_file_row" where
  "pending_row env uid req bucket key upload =
     \<lparr>mf_file_id = me_file_id env, mf_content_hash = aq_content_hash req, mf_bucket = bucket, mf_object_key = key,
      mf_file_name = aq_file_name req, mf_file_size = aq_file_size req, mf_mime_type = aq_mime_type req,
      mf_purpose = aq_purpose req mod 256, mf_owner_id = uid, mf_uploaded_at = me_now env, mf_status = Media_PENDING,
      mf_upload_id = upload\<rparr>"

section \<open>S3\<close>

definition delete_object :: "bool \<Rightarrow> string \<Rightarrow> string \<Rightarrow> media_state \<Rightarrow> media_state" where
  "delete_object ok bucket key s = (if ok then s\<lparr>ms_objects := (ms_objects s)((bucket, key) := None)\<rparr> else s)"

definition head_object :: "bool \<Rightarrow> string \<Rightarrow> string \<Rightarrow> media_state \<Rightarrow> int option" where
  "head_object ok bucket key s = (if ok then map_option (\<lambda>c. int (length c)) (ms_objects s (bucket, key)) else None)"

definition get_range :: "bool \<Rightarrow> string \<Rightarrow> string \<Rightarrow> nat \<Rightarrow> media_state \<Rightarrow> string option" where
  "get_range ok bucket key n s = (if ok then map_option (take n) (ms_objects s (bucket, key)) else None)"

definition abort_multipart :: "bool \<Rightarrow> string \<Rightarrow> string \<Rightarrow> string \<Rightarrow> media_state \<Rightarrow> media_state" where
  "abort_multipart ok bucket key up_id s =
     (if ok then s\<lparr>ms_uploads := filter (\<lambda>u. \<not> (su_bucket u = bucket \<and> su_key u = key \<and> su_upload_id u = up_id)) (ms_uploads s)\<rparr>
      else s)"

text \<open>The PUT of a client with a signed URL.\<close>

definition client_put :: "string \<Rightarrow> string \<Rightarrow> string \<Rightarrow> media_state \<Rightarrow> media_state" where
  "client_put bucket key content s = s\<lparr>ms_objects := (ms_objects s)((bucket, key) \<mapsto> content)\<rparr>"

section \<open>Status changes\<close>

definition set_files :: "media_file_row list \<Rightarrow> media_state \<Rightarrow> media_state" where
  "set_files fs s = s\<lparr>ms_files := fs\<rparr>"

definition set_file_status :: "bool \<Rightarrow> string \<Rightarrow> MediaFileStatus \<Rightarrow> media_state \<Rightarrow> media_state" where
  "set_file_status ok fid status s = set_files (snd (media_update_status ok fid status (ms_files s))) s"

section \<open>ApplyUpload\<close>

text \<open>Hash, MIME type, size and quota; the exception, or none, and the state with the quota row.\<close>

definition check_upload :: "media_env \<Rightarrow> uid \<Rightarrow> apply_upload_req \<Rightarrow> media_state \<Rightarrow> exn option \<times> media_state" where
  "check_upload env uid req s =
     (if \<not> content_hash_is_valid (aq_content_hash req)
      then (Some (ServiceError kMediaHashMismatch ''bad content_hash''), s)
      else if \<not> is_allowed (me_mime env) (aq_mime_type req) (aq_file_size req)
      then (Some (if max_size (me_mime env) (aq_mime_type req) < 0
                  then ServiceError kMediaUnsupportedFormat ''mime not allowed''
                  else ServiceError kMediaFileTooLarge ''file too large for mime''), s)
      else case quota_ensure (me_up env 0 0) (me_now env) uid (ms_quota s) of
        (q, qs) \<Rightarrow>
          let s1 = s\<lparr>ms_quota := qs\<rparr>;
              pending_others = pending_bytes_of_owner (me_up env 1 0) uid (ms_files s1)
          in if qu_used_bytes q + aq_file_size req + pending_others > qu_quota_bytes q
             then (Some (ServiceError kMediaQuotaExceeded ''user quota exceeded''), s1)
             else (None, s1))"

definition insert_file :: "bool \<Rightarrow> media_file_row \<Rightarrow> media_state \<Rightarrow> bool \<times> media_state" where
  "insert_file ok f s = (case MediaFileTable_insert ok f (ms_files s) of (b, fs) \<Rightarrow> (b, set_files fs s))"

text \<open>The committed blob of a hash, when some file refers to it.\<close>

definition live_blob :: "bool \<Rightarrow> string \<Rightarrow> media_state \<Rightarrow> media_blob_ref option" where
  "live_blob ok h s =
     (case select_by_hash ok h (ms_blobs s) of
        None \<Rightarrow> None
      | Some b \<Rightarrow> if bl_ref_count b > 0 then Some b else None)"

definition ApplyUpload :: "media_env \<Rightarrow> auth_context \<Rightarrow> apply_upload_req \<Rightarrow> media_state \<Rightarrow> (exn + apply_upload_rsp) \<times> media_state" where
  "ApplyUpload env auth req s =
     (let uid = user_id auth in
      case check_upload env uid req s of
        (Some e, s1) \<Rightarrow> (Inl e, s1)
      | (None, s1) \<Rightarrow>
          (case live_blob (me_up env 2 0) (aq_content_hash req) s1 of
             Some blob \<Rightarrow>
               (case insert_file (me_up env 3 0) (pending_row env uid req (bl_bucket blob) (bl_object_key blob) None) s1 of
                  (False, s2) \<Rightarrow> (Inl (ServiceError kMediaUploadFailed ''media_file insert''), s2)
                | (True, s2) \<Rightarrow>
                    (Inr \<lparr>ar_file_id = me_file_id env, ar_already_exists = True, ar_upload_url = [], ar_headers = [],
                          ar_expires_in_sec = 0\<rparr>, s2))
           | None \<Rightarrow>
               let bucket = pick_bucket (aq_purpose req) (me_pub_b env) (me_pri_b env); key = upload_key env req in
               case insert_file (me_up env 3 0) (pending_row env uid req bucket key None) s1 of
                 (False, s2) \<Rightarrow> (Inl (ServiceError kMediaUploadFailed ''media_file insert''), s2)
               | (True, s2) \<Rightarrow>
                   if me_sign env bucket key = [] then (Inl storage_error, s2)
                   else (Inr \<lparr>ar_file_id = me_file_id env, ar_already_exists = False, ar_upload_url = me_sign env bucket key,
                              ar_headers = [(''Content-Length'', int_to_string (aq_file_size req)), (''Content-Type'', aq_mime_type req)],
                              ar_expires_in_sec = me_presign env\<rparr>, s2)))"

section \<open>CompleteUpload\<close>

text \<open>
  The tail that both ways of completing share: the blob of the content (an earlier one with another key
  replaces this object), the reference count, the status, the quota. The results of the updates are not looked at.
\<close>

definition adopt_blob :: "media_env \<Rightarrow> media_file_row \<Rightarrow> media_state \<Rightarrow> media_state" where
  "adopt_blob env file s =
     (case select_by_hash (me_up env 4 0) (mf_content_hash file) (ms_blobs s) of
        Some existing \<Rightarrow>
          if bl_object_key existing \<noteq> mf_object_key file then
            (let s1 = delete_object (me_up env 5 0) (mf_bucket file) (mf_object_key file) s
             in set_files (snd (update_bucket_key (me_up env 6 0) (mf_file_id file) (bl_bucket existing)
                                  (bl_object_key existing) (ms_files s1))) s1)
          else s
      | None \<Rightarrow>
          s\<lparr>ms_blobs := snd (blob_upsert (me_up env 7 0)
              \<lparr>bl_content_hash = mf_content_hash file, bl_bucket = mf_bucket file, bl_object_key = mf_object_key file,
               bl_ref_count = 0, bl_total_size = mf_file_size file, bl_last_decremented_at = me_now env\<rparr> (ms_blobs s))\<rparr>)"

definition commit_file :: "media_env \<Rightarrow> uid \<Rightarrow> media_file_row \<Rightarrow> media_state \<Rightarrow> media_state" where
  "commit_file env uid file s =
     (let s1 = adopt_blob env file s;
          s2 = s1\<lparr>ms_blobs := snd (inc_ref (me_up env 8 0) (mf_content_hash file) (ms_blobs s1))\<rparr>;
          s3 = set_file_status (me_up env 9 0) (mf_file_id file) Media_COMMITTED s2
      in s3\<lparr>ms_quota := snd (inc_used (me_up env 10 0) uid (mf_file_size file) (me_now env) (ms_quota s3))\<rparr>)"

definition CompleteUpload :: "media_env \<Rightarrow> auth_context \<Rightarrow> string \<Rightarrow> media_state \<Rightarrow> (exn + file_info) \<times> media_state" where
  "CompleteUpload env auth fid s =
     (case select_by_file_id (me_up env 0 0) fid (ms_files s) of
        None \<Rightarrow> (Inl (ServiceError kMediaFileNotFound ''file not found''), s)
      | Some file \<Rightarrow>
          if mf_owner_id file \<noteq> user_id auth then (Inl (ServiceError kMediaFileNotFound ''owner mismatch''), s)
          else if mf_status file = Media_COMMITTED then (Inr (fill_file_info file), s)
          else if mf_status file \<noteq> Media_PENDING then (Inl (ServiceError kMediaUploadFailed ''bad status''), s)
          else case head_object (me_up env 1 0) (mf_bucket file) (mf_object_key file) s of
            None \<Rightarrow>
              (Inl (ServiceError kMediaUploadIncomplete ''object not found in storage''),
               set_file_status (me_up env 2 0) (mf_file_id file) Media_DELETED s)
          | Some n \<Rightarrow>
              if n \<noteq> mf_file_size file then
                (Inl (ServiceError kMediaHashMismatch ''size mismatch''),
                 set_file_status (me_up env 2 0) (mf_file_id file) Media_DELETED
                   (delete_object (me_up env 3 0) (mf_bucket file) (mf_object_key file) s))
              else (Inr (fill_file_info file), commit_file env (user_id auth) file s))"

section \<open>Multipart uploads\<close>

definition InitMultipartUpload ::
  "media_env \<Rightarrow> auth_context \<Rightarrow> apply_upload_req \<Rightarrow> media_state \<Rightarrow> (exn + init_multipart_rsp) \<times> media_state" where
  "InitMultipartUpload env auth req s =
     (let uid = user_id auth in
      case check_upload env uid req s of
        (Some e, s1) \<Rightarrow> (Inl e, s1)
      | (None, s1) \<Rightarrow>
          (case live_blob (me_up env 2 0) (aq_content_hash req) s1 of
             Some blob \<Rightarrow>
               (case insert_file (me_up env 3 0) (pending_row env uid req (bl_bucket blob) (bl_object_key blob) None) s1 of
                  (False, s2) \<Rightarrow> (Inl (ServiceError kMediaUploadFailed ''media_file insert''), s2)
                | (True, s2) \<Rightarrow>
                    (Inr \<lparr>ir_file_id = me_file_id env, ir_upload_id = [], ir_recommended_part_size_bytes = 0\<rparr>, s2))
           | None \<Rightarrow>
               let bucket = pick_bucket (aq_purpose req) (me_pub_b env) (me_pri_b env); key = upload_key env req in
               if \<not> me_up env 4 0 then (Inl storage_error, s1)
               else
                 let s2 = s1\<lparr>ms_uploads := ms_uploads s1 @ [\<lparr>su_bucket = bucket, su_key = key, su_upload_id = me_upload_id env,
                                                             su_initiated_ms = me_now env\<rparr>]\<rparr>
                 in case insert_file (me_up env 3 0) (pending_row env uid req bucket key (Some (me_upload_id env))) s2 of
                      (False, s3) \<Rightarrow> (Inl (ServiceError kMediaUploadFailed ''media_file insert''),
                        abort_multipart (me_up env 5 0) bucket key (me_upload_id env) s3)
                    | (True, s3) \<Rightarrow>
                        (Inr \<lparr>ir_file_id = me_file_id env, ir_upload_id = me_upload_id env,
                              ir_recommended_part_size_bytes = 8 * 1024 * 1024\<rparr>, s3)))"

definition ApplyPartUpload ::
  "media_env \<Rightarrow> auth_context \<Rightarrow> string \<Rightarrow> int \<Rightarrow> media_state \<Rightarrow> (exn + string \<times> int) \<times> media_state" where
  "ApplyPartUpload env auth up_id part_number s =
     (if part_number < 1 \<or> part_number > 10000
      then (Inl (ServiceError kSystemInvalidArgument ''part_number out of range''), s)
      else case select_by_upload_id (me_up env 0 0) up_id (ms_files s) of
        None \<Rightarrow> (Inl (ServiceError kMediaFileNotFound ''upload not found''), s)
      | Some file \<Rightarrow>
          if mf_owner_id file \<noteq> user_id auth then (Inl (ServiceError kMediaFileNotFound ''owner mismatch''), s)
          else if mf_status file \<noteq> Media_PENDING then (Inl (ServiceError kMediaUploadFailed ''bad status''), s)
          else if me_sign env (mf_bucket file) (mf_object_key file) = [] then (Inl storage_error, s)
          else (Inr (me_sign env (mf_bucket file) (mf_object_key file) @ ''&partNumber='' @ int_to_string part_number @
                     ''&uploadId='' @ up_id, me_presign env), s))"

text \<open>\<open>complete_multipart\<close> of S3: the assembled object appears and the upload is gone.\<close>

definition complete_multipart :: "media_env \<Rightarrow> media_file_row \<Rightarrow> string \<Rightarrow> media_state \<Rightarrow> media_state" where
  "complete_multipart env file up_id s =
     abort_multipart True (mf_bucket file) (mf_object_key file) up_id
       (client_put (mf_bucket file) (mf_object_key file) (me_assembled env) s)"

definition CompleteMultipartUpload ::
  "media_env \<Rightarrow> auth_context \<Rightarrow> string \<Rightarrow> (int \<times> string) list \<Rightarrow> media_state \<Rightarrow> (exn + file_info) \<times> media_state" where
  "CompleteMultipartUpload env auth up_id parts s =
     (case select_by_upload_id (me_up env 0 0) up_id (ms_files s) of
        None \<Rightarrow> (Inl (ServiceError kMediaFileNotFound ''upload not found''), s)
      | Some file \<Rightarrow>
          if mf_owner_id file \<noteq> user_id auth then (Inl (ServiceError kMediaFileNotFound ''owner mismatch''), s)
          else if mf_status file = Media_COMMITTED then (Inr (fill_file_info file), s)
          else if mf_status file \<noteq> Media_PENDING then (Inl (ServiceError kMediaUploadFailed ''bad status''), s)
          else if parts = [] then (Inl (ServiceError kMediaPartNotFound ''no parts to complete''), s)
          else if \<not> me_up env 11 0 then (Inl storage_error, s)
          else
            let s1 = complete_multipart env file up_id s
            in case head_object (me_up env 1 0) (mf_bucket file) (mf_object_key file) s1 of
                 None \<Rightarrow> (Inl storage_error, s1)
               | Some n \<Rightarrow>
                   if n \<noteq> mf_file_size file then
                     (Inl (ServiceError kMediaHashMismatch ''size mismatch''),
                      set_file_status (me_up env 2 0) (mf_file_id file) Media_DELETED
                        (delete_object (me_up env 3 0) (mf_bucket file) (mf_object_key file) s1))
                   else (Inr (fill_file_info file), commit_file env (user_id auth) file s1))"

definition AbortMultipartUpload :: "media_env \<Rightarrow> auth_context \<Rightarrow> string \<Rightarrow> media_state \<Rightarrow> (exn + unit) \<times> media_state" where
  "AbortMultipartUpload env auth up_id s =
     (case select_by_upload_id (me_up env 0 0) up_id (ms_files s) of
        None \<Rightarrow> (Inr (), s)
      | Some file \<Rightarrow>
          if mf_owner_id file \<noteq> user_id auth then (Inl (ServiceError kMediaFileNotFound ''owner mismatch''), s)
          else (Inr (), set_file_status (me_up env 2 0) (mf_file_id file) Media_DELETED
                          (abort_multipart (me_up env 1 0) (mf_bucket file) (mf_object_key file) up_id s)))"

section \<open>Download and speech\<close>

definition ApplyDownload :: "media_env \<Rightarrow> auth_context \<Rightarrow> string \<Rightarrow> media_state \<Rightarrow> (exn + string \<times> int \<times> file_info) \<times> media_state" where
  "ApplyDownload env auth fid s =
     (case select_by_file_id (me_up env 0 0) fid (ms_files s) of
        None \<Rightarrow> (Inl (ServiceError kMediaFileNotFound ''no such file''), s)
      | Some file \<Rightarrow>
          if mf_status file \<noteq> Media_COMMITTED then (Inl (ServiceError kMediaFileNotFound ''not committed''), s)
          else if me_sign env (mf_bucket file) (mf_object_key file) = [] then (Inl storage_error, s)
          else (Inr (me_sign env (mf_bucket file) (mf_object_key file), me_presign env, fill_file_info file), s))"

definition GetFileInfo :: "media_env \<Rightarrow> auth_context \<Rightarrow> string \<Rightarrow> media_state \<Rightarrow> (exn + file_info) \<times> media_state" where
  "GetFileInfo env auth fid s =
     (case select_by_file_id (me_up env 0 0) fid (ms_files s) of
        None \<Rightarrow> (Inl (ServiceError kMediaFileNotFound ''no such file''), s)
      | Some file \<Rightarrow>
          if mf_status file \<noteq> Media_COMMITTED then (Inl (ServiceError kMediaFileNotFound ''no such file''), s)
          else (Inr (fill_file_info file), s))"

definition SpeechRecognition :: "string \<Rightarrow> exn + string" where
  "SpeechRecognition speech_content =
     (if length speech_content > 2 * 1024 * 1024 then Inl (ServiceError kMediaFileTooLarge ''speech > 2MB'') else Inr [])"

section \<open>The cleanup worker\<close>

definition kMediaGcLeaseKey :: string where "kMediaGcLeaseKey = ''im:media:gc:lease''"
definition kMediaGcLeaseTtlSec :: int where "kMediaGcLeaseTtlSec = 600"

definition try_acquire_lease :: "bool \<Rightarrow> time \<Rightarrow> string \<Rightarrow> jwt_redis \<Rightarrow> bool \<times> jwt_redis" where
  "try_acquire_lease ok now instance_id m =
     (if \<not> ok then (False, m)
      else case kv_get now kMediaGcLeaseKey m of
             None \<Rightarrow> (True, kv_set now kMediaGcLeaseKey instance_id kMediaGcLeaseTtlSec m)
           | Some v \<Rightarrow> if v = instance_id then (True, kv_set now kMediaGcLeaseKey v kMediaGcLeaseTtlSec m) else (False, m))"

definition try_release_lease :: "bool \<Rightarrow> time \<Rightarrow> string \<Rightarrow> jwt_redis \<Rightarrow> jwt_redis" where
  "try_release_lease ok now instance_id m =
     (if ok \<and> kv_get now kMediaGcLeaseKey m = Some instance_id then m(kMediaGcLeaseKey := None) else m)"

text \<open>Each loop is over rows read at its start; \<open>i\<close> counts the iterations.\<close>

fun pending_timeout_rows :: "media_env \<Rightarrow> nat \<Rightarrow> media_file_row list \<Rightarrow> media_state \<Rightarrow> media_state" where
  "pending_timeout_rows env i [] s = s"
| "pending_timeout_rows env i (r # rs) s =
     (let s1 = (case select_by_hash (me_up env 1 i) (mf_content_hash r) (ms_blobs s) of
                  None \<Rightarrow> delete_object (me_up env 2 i) (mf_bucket r) (mf_object_key r) s
                | Some b \<Rightarrow> if bl_ref_count b = 0 then delete_object (me_up env 2 i) (mf_bucket r) (mf_object_key r) s else s);
          s2 = (case mf_upload_id r of
                  None \<Rightarrow> s1
                | Some up_id \<Rightarrow> if up_id \<noteq> [] then abort_multipart (me_up env 3 i) (mf_bucket r) (mf_object_key r) up_id s1 else s1)
      in pending_timeout_rows env (Suc i) rs (set_file_status (me_up env 4 i) (mf_file_id r) Media_DELETED s2))"

definition task_pending_timeout :: "media_env \<Rightarrow> media_state \<Rightarrow> media_state" where
  "task_pending_timeout env s =
     pending_timeout_rows env 0 (list_pending_older_than (me_up env 0 0) (me_now env - 3600 * 1000) 200 (ms_files s)) s"

fun orphan_uploads :: "media_env \<Rightarrow> nat \<Rightarrow> s3_upload list \<Rightarrow> media_state \<Rightarrow> media_state" where
  "orphan_uploads env i [] s = s"
| "orphan_uploads env i (u # us) s =
     (if su_initiated_ms u > me_now env - 24 * 3600 * 1000 then orphan_uploads env (Suc i) us s
      else
        let s1 = abort_multipart (me_up env 1 i) (su_bucket u) (su_key u) (su_upload_id u) s;
            s2 = (case select_by_upload_id (me_up env 2 i) (su_upload_id u) (ms_files s1) of
                    None \<Rightarrow> s1
                  | Some file \<Rightarrow> if mf_status file = Media_PENDING
                                 then set_file_status (me_up env 3 i) (mf_file_id file) Media_DELETED s1 else s1)
        in orphan_uploads env (Suc i) us s2)"

definition task_multipart_orphan :: "media_env \<Rightarrow> media_state \<Rightarrow> media_state" where
  "task_multipart_orphan env s =
     (let bucket_uploads = (\<lambda>k bucket s. if me_up env 0 k then filter (\<lambda>u. su_bucket u = bucket) (ms_uploads s) else []);
          s1 = orphan_uploads env 0 (bucket_uploads 0 (me_pub_b env) s) s
      in orphan_uploads env (length (ms_uploads s)) (bucket_uploads 1 (me_pri_b env) s1) s1)"

fun refund_owners :: "media_env \<Rightarrow> nat \<Rightarrow> int \<Rightarrow> media_file_row list \<Rightarrow> media_user_quota list \<Rightarrow> media_user_quota list" where
  "refund_owners env i n [] qs = qs"
| "refund_owners env i n (f # fs) qs =
     refund_owners env (Suc i) n fs (snd (dec_used (me_up env 4 i) (mf_owner_id f) n (me_now env) qs))"

fun unref_blobs :: "media_env \<Rightarrow> nat \<Rightarrow> media_blob_ref list \<Rightarrow> media_state \<Rightarrow> media_state" where
  "unref_blobs env i [] s = s"
| "unref_blobs env i (b # bs) s =
     (if \<not> me_up env 1 i then unref_blobs env (Suc i) bs s
      else
        let s1 = delete_object True (bl_bucket b) (bl_object_key b) s;
            orphans = list_files_by_hash_dead (me_up env 2 i) (bl_content_hash b) (ms_files s1);
            s2 = s1\<lparr>ms_quota := refund_owners env i (bl_total_size b) orphans (ms_quota s1),
                    ms_blobs := snd (blob_erase (me_up env 3 i) (bl_content_hash b) (ms_blobs s1))\<rparr>
        in unref_blobs env (Suc i) bs s2)"

definition task_unref_blob_gc :: "media_env \<Rightarrow> media_state \<Rightarrow> media_state" where
  "task_unref_blob_gc env s =
     unref_blobs env 0 (list_zero_ref_older_than (me_up env 0 0) (me_now env - 7 * 24 * 3600 * 1000) 200 (ms_blobs s)) s"

fun quarantine_rows :: "media_env \<Rightarrow> nat \<Rightarrow> media_file_row list \<Rightarrow> media_state \<Rightarrow> media_state" where
  "quarantine_rows env i [] s = s"
| "quarantine_rows env i (r # rs) s =
     quarantine_rows env (Suc i) rs (set_file_status (me_up env 2 i) (mf_file_id r) Media_DELETED
       (delete_object (me_up env 1 i) (mf_bucket r) (mf_object_key r) s))"

definition task_quarantine_gc :: "media_env \<Rightarrow> media_state \<Rightarrow> media_state" where
  "task_quarantine_gc env s =
     quarantine_rows env 0 (list_quarantined_older_than (me_up env 0 0) (me_now env - 7 * 24 * 3600 * 1000) 200 (ms_files s)) s"

fun sniff_rows :: "media_env \<Rightarrow> nat \<Rightarrow> media_file_row list \<Rightarrow> media_state \<Rightarrow> media_state" where
  "sniff_rows env i [] s = s"
| "sniff_rows env i (r # rs) s =
     (let s1 = (case get_range (me_up env 1 i) (mf_bucket r) (mf_object_key r) 512 s of
                  None \<Rightarrow> s
                | Some buf \<Rightarrow> if \<not> matches_claimed buf (mf_mime_type r)
                              then set_file_status (me_up env 2 i) (mf_file_id r) Media_QUARANTINED s else s)
      in sniff_rows env (Suc i) rs (s1\<lparr>ms_cursor := max (ms_cursor s1) (mf_uploaded_at r)\<rparr>))"

definition task_magic_sniff :: "media_env \<Rightarrow> media_state \<Rightarrow> media_state" where
  "task_magic_sniff env s = sniff_rows env 0 (list_committed_after (me_up env 0 0) (ms_cursor s) 100 (ms_files s)) s"

end
