(* ===== verification/Media_Props.thy ===== *)
theory Media_Props
  imports Media
begin

text \<open>
  What the media service guarantees and what it does not: the quota of a user bounds what is committed and pending
  in every sequence of requests and cleanup tasks; and a request that claims a wrong size for known content deletes
  the object other users' files refer to.
\<close>

section \<open>Sums over the tables\<close>

definition ssum :: "MediaFileStatus \<Rightarrow> uid \<Rightarrow> media_file_row list \<Rightarrow> int" where
  "ssum st u fs = sum_list (map (\<lambda>r. if mf_owner_id r = u \<and> mf_status r = st then mf_file_size r else 0) fs)"

lemma ssum_simps [simp]:
  "ssum st u [] = 0"
  "ssum st u (r # fs) = (if mf_owner_id r = u \<and> mf_status r = st then mf_file_size r else 0) + ssum st u fs"
  "ssum st u (xs @ ys) = ssum st u xs + ssum st u ys"
  by (simp_all add: ssum_def)

lemma pending_bytes_ssum: "pending_bytes_of_owner True u fs = ssum Media_PENDING u fs"
  by (induction fs) (simp_all add: pending_bytes_of_owner_def)

lemma ssum_update_le:
  assumes "\<And>r. mf_owner_id (f r) = mf_owner_id r" and "\<And>r. mf_file_size (f r) = mf_file_size r"
    and "\<And>r. mf_status (f r) = st \<Longrightarrow> mf_status r = st" and "\<forall>r \<in> set fs. 0 \<le> mf_file_size r"
  shows "ssum st u (update_where P f fs) \<le> ssum st u fs"
  using assms(4)
proof (induction fs)
  case (Cons r fs)
  then have "ssum st u (update_where P f fs) \<le> ssum st u fs" "0 \<le> mf_file_size r" by simp_all
  then show ?case using assms(1-3) [of r] by auto
qed simp

lemma ssum_update_key: "ssum st u (update_where P (\<lambda>x. x\<lparr>mf_bucket := b, mf_object_key := k\<rparr>) fs) = ssum st u fs"
  by (induction fs) auto

lemma ssum_commit:
  assumes "distinct (map mf_file_id fs)" and "r \<in> set fs" and "mf_status r = Media_PENDING" and "st \<noteq> Media_PENDING"
  shows "ssum a u (update_where (\<lambda>x. mf_file_id x = mf_file_id r) (\<lambda>x. x\<lparr>mf_status := st\<rparr>) fs) =
    ssum a u fs + (if mf_owner_id r = u then (if a = st then mf_file_size r else 0) -
      (if a = Media_PENDING then mf_file_size r else 0) else 0)"
  using assms(1,2)
proof (induction fs)
  case (Cons x fs)
  show ?case
  proof (cases "x = r")
    case True
    then have "\<not> mf_file_id y = mf_file_id r" if "y \<in> set fs" for y
      using Cons.prems(1) that by (metis distinct.simps(2) imageI list.simps(9) list.set_map)
    then show ?thesis using True assms(3,4) by (auto simp: update_where_none)
  next
    case False
    then have "mf_file_id x \<noteq> mf_file_id r" using Cons.prems by (auto simp: image_iff)
    then show ?thesis using Cons False by simp
  qed
qed simp

definition used_of :: "uid \<Rightarrow> media_user_quota list \<Rightarrow> int" where
  "used_of u qs = (case query_one (\<lambda>q. qu_user_id q = u) qs of None \<Rightarrow> 0 | Some q \<Rightarrow> qu_used_bytes q)"

definition limit_of :: "uid \<Rightarrow> media_user_quota list \<Rightarrow> int" where
  "limit_of u qs = (case query_one (\<lambda>q. qu_user_id q = u) qs of None \<Rightarrow> kMediaDefaultQuotaBytes | Some q \<Rightarrow> qu_quota_bytes q)"

lemma query_quota_update:
  assumes "\<And>q. qu_user_id (f q) = qu_user_id q"
  shows "query_one (\<lambda>q. qu_user_id q = v) (update_where (\<lambda>q. qu_user_id q = u) f qs) =
    (if v = u then map_option f (query_one (\<lambda>q. qu_user_id q = u) qs) else query_one (\<lambda>q. qu_user_id q = v) qs)"
  using assms by (induction qs) auto

lemma inc_used_sums:
  "used_of v (snd (inc_used ok u d now qs)) = used_of v qs + (if v = u \<and> ok then d else 0)"
  "limit_of v (snd (inc_used ok u d now qs)) = limit_of v qs"
  by (auto simp: inc_used_def used_of_def limit_of_def query_quota_update query_one_append split: option.splits)

lemma ensure_sums:
  assumes "quota_ensure True now u qs = (q, qs')"
  shows "qu_used_bytes q = used_of u qs" "qu_quota_bytes q = limit_of u qs" "used_of v qs' = used_of v qs" "limit_of v qs' = limit_of v qs"
  using assms
  by (auto simp: quota_ensure_def Let_def used_of_def limit_of_def query_one_append split: option.splits if_splits)

section \<open>Steps that only shrink\<close>

definition base_ok :: "media_state \<Rightarrow> bool" where
  "base_ok s = (distinct (map mf_file_id (ms_files s)) \<and> (\<forall>r \<in> set (ms_files s). 0 \<le> mf_file_size r)
     \<and> (\<forall>b \<in> set (ms_blobs s). 0 < bl_ref_count b))"

text \<open>Pending and committed bytes only fall, the quota rows keep their amounts.\<close>

definition shrinks :: "media_state \<Rightarrow> media_state \<Rightarrow> bool" where
  "shrinks s s' = (base_ok s \<longrightarrow> base_ok s' \<and> (\<forall>u. ssum Media_PENDING u (ms_files s') \<le> ssum Media_PENDING u (ms_files s)
     \<and> ssum Media_COMMITTED u (ms_files s') \<le> ssum Media_COMMITTED u (ms_files s)
     \<and> used_of u (ms_quota s') = used_of u (ms_quota s) \<and> limit_of u (ms_quota s') = limit_of u (ms_quota s)))"

lemma shrinks_refl [simp]: "shrinks s s"
  by (simp add: shrinks_def)

lemma shrinks_trans [trans]: "shrinks s s' \<Longrightarrow> shrinks s' s'' \<Longrightarrow> shrinks s s''"
  unfolding shrinks_def by (intro impI; (elim impE; blast?); clarsimp; metis order_trans)

lemma shrinks_same:
  "ms_files s' = ms_files s \<Longrightarrow> ms_quota s' = ms_quota s \<Longrightarrow> ms_blobs s' = ms_blobs s \<Longrightarrow> shrinks s s'"
  by (simp add: shrinks_def base_ok_def)

lemma shrinks_s3 [simp]:
  "shrinks s (delete_object ok b k s)" "shrinks s (abort_multipart ok b k i s)" "shrinks s (client_put b k c s)"
  "shrinks s (s\<lparr>ms_cursor := cur\<rparr>)" "shrinks s (s\<lparr>ms_uploads := us\<rparr>)"
  by (rule shrinks_same; simp add: delete_object_def abort_multipart_def client_put_def)+

lemma shrinks_update_file:
  assumes "\<And>r. mf_file_id (f r) = mf_file_id r" and "\<And>r. mf_owner_id (f r) = mf_owner_id r"
    and "\<And>r. mf_file_size (f r) = mf_file_size r"
    and "\<And>r st. st \<in> {Media_PENDING, Media_COMMITTED} \<Longrightarrow> mf_status (f r) = st \<Longrightarrow> mf_status r = st"
  shows "shrinks s (set_files (snd (update_file ok fid f (ms_files s))) s)"
proof (cases "fst (update_file ok fid f (ms_files s))")
  case True
  then have eq: "snd (update_file ok fid f (ms_files s)) = update_where (\<lambda>r. mf_file_id r = fid) f (ms_files s)"
    by (auto simp: update_file_def split: if_splits)
  show ?thesis
    unfolding shrinks_def base_ok_def eq
    using assms(1,3) ssum_update_le [OF assms(2,3) assms(4)]
    by (auto simp: set_files_def map_key_update_where set_update_where)
next
  case False
  then have "snd (update_file ok fid f (ms_files s)) = ms_files s" by (auto simp: update_file_def split: if_splits)
  then show ?thesis by (intro shrinks_same) (simp_all add: set_files_def)
qed

lemma shrinks_status [simp]: "st \<in> {Media_DELETED, Media_QUARANTINED} \<Longrightarrow> shrinks s (set_file_status ok fid st s)"
  unfolding set_file_status_def media_update_status_def by (rule shrinks_update_file) auto

lemma shrinks_bucket_key [simp]: "shrinks s (set_files (snd (update_bucket_key ok fid b k (ms_files s))) s)"
  unfolding update_bucket_key_def by (rule shrinks_update_file) simp_all

lemma shrinks_status_of:
  "shrinks s t \<Longrightarrow> st \<in> {Media_DELETED, Media_QUARANTINED} \<Longrightarrow> shrinks s (set_file_status ok fid st t)"
  using shrinks_trans shrinks_status by blast

section \<open>The cleanup tasks shrink\<close>

lemma shrinks_pending_timeout: "shrinks s (pending_timeout_rows env i rs s)"
proof (induction rs arbitrary: i s)
  case (Cons r rs)
  let ?s1 = "case select_by_hash (me_up env 1 i) (mf_content_hash r) (ms_blobs s) of
      None \<Rightarrow> delete_object (me_up env 2 i) (mf_bucket r) (mf_object_key r) s
    | Some b \<Rightarrow> if bl_ref_count b = 0 then delete_object (me_up env 2 i) (mf_bucket r) (mf_object_key r) s else s"
  let ?s2 = "case mf_upload_id r of None \<Rightarrow> ?s1
    | Some up_id \<Rightarrow> if up_id \<noteq> [] then abort_multipart (me_up env 3 i) (mf_bucket r) (mf_object_key r) up_id ?s1 else ?s1"
  have "shrinks s ?s1" by (simp split: option.splits)
  moreover have "shrinks ?s1 ?s2" by (simp split: option.split)
  ultimately have "shrinks s (set_file_status (me_up env 4 i) (mf_file_id r) Media_DELETED ?s2)"
    by (meson shrinks_trans shrinks_status_of insertI1)
  also have "shrinks \<dots> (pending_timeout_rows env (Suc i) rs \<dots>)" by (rule Cons.IH)
  finally show ?case by (simp only: pending_timeout_rows.simps Let_def)
qed simp

lemma shrinks_orphans: "shrinks s (orphan_uploads env i us s)"
proof (induction us arbitrary: i s)
  case (Cons u us)
  let ?s1 = "abort_multipart (me_up env 1 i) (su_bucket u) (su_key u) (su_upload_id u) s"
  have "shrinks s (case select_by_upload_id (me_up env 2 i) (su_upload_id u) (ms_files ?s1) of
        None \<Rightarrow> ?s1
      | Some file \<Rightarrow> if mf_status file = Media_PENDING
                     then set_file_status (me_up env 3 i) (mf_file_id file) Media_DELETED ?s1 else ?s1)"
    by (simp add: shrinks_status_of split: option.split)
  from shrinks_trans [OF this Cons.IH] Cons.IH show ?case by (simp del: One_nat_def add: Let_def)
qed simp

lemma shrinks_quarantine: "shrinks s (quarantine_rows env i rs s)"
proof (induction rs arbitrary: i s)
  case (Cons r rs)
  have "shrinks s (set_file_status (me_up env 2 i) (mf_file_id r) Media_DELETED
       (delete_object (me_up env 1 i) (mf_bucket r) (mf_object_key r) s))" by (simp add: shrinks_status_of)
  from shrinks_trans [OF this Cons.IH] show ?case by simp
qed simp

lemma shrinks_sniff: "shrinks s (sniff_rows env i rs s)"
proof (induction rs arbitrary: i s)
  case (Cons r rs)
  let ?s1 = "case get_range (me_up env 1 i) (mf_bucket r) (mf_object_key r) 512 s of
        None \<Rightarrow> s
      | Some buf \<Rightarrow> if \<not> matches_claimed buf (mf_mime_type r)
                    then set_file_status (me_up env 2 i) (mf_file_id r) Media_QUARANTINED s else s"
  have "shrinks s ?s1" by (simp split: option.split)
  then have "shrinks s (?s1\<lparr>ms_cursor := max (ms_cursor ?s1) (mf_uploaded_at r)\<rparr>)" using shrinks_s3(4) shrinks_trans by blast
  from shrinks_trans [OF this Cons.IH] show ?case by (simp only: sniff_rows.simps Let_def)
qed simp

lemma tasks_shrink:
  "shrinks s (task_pending_timeout env s)" "shrinks s (task_multipart_orphan env s)" "shrinks s (task_quarantine_gc env s)"
  "shrinks s (task_magic_sniff env s)"
  by (simp_all add: task_pending_timeout_def shrinks_pending_timeout task_quarantine_gc_def shrinks_quarantine
      task_magic_sniff_def shrinks_sniff task_multipart_orphan_def Let_def shrinks_trans [OF shrinks_orphans shrinks_orphans])

text \<open>No blob has a count of zero, since nothing calls \<open>dec_ref\<close>: the collection of unreferenced blobs does nothing.\<close>

lemma unref_task_idle: "base_ok s \<Longrightarrow> task_unref_blob_gc env s = s"
proof -
  assume "base_ok s"
  then have "filter (\<lambda>b. bl_ref_count b = 0 \<and> bl_last_decremented_at b < cutoff) (ms_blobs s) = []" for cutoff
    by (auto simp: base_ok_def filter_empty_conv)
  then show ?thesis by (simp add: task_unref_blob_gc_def list_zero_ref_older_than_def)
qed

section \<open>The quota invariant\<close>

definition media_inv :: "media_state \<Rightarrow> bool" where
  "media_inv s = (base_ok s \<and> (\<forall>u. ssum Media_COMMITTED u (ms_files s) \<le> used_of u (ms_quota s)
     \<and> used_of u (ms_quota s) + ssum Media_PENDING u (ms_files s) \<le> kMediaDefaultQuotaBytes
     \<and> limit_of u (ms_quota s) = kMediaDefaultQuotaBytes))"

lemma media_inv_shrinks: "shrinks s s' \<Longrightarrow> media_inv s \<Longrightarrow> media_inv s'"
  unfolding shrinks_def media_inv_def by (smt (verit))

lemma check_upload_shrinks:
  assumes "me_up env 0 0" and "check_upload env u req s = (r, s')"
  shows "shrinks s s'"
proof (cases "quota_ensure True (me_now env) u (ms_quota s)")
  case (Pair q qs)
  have "shrinks s (s\<lparr>ms_quota := qs\<rparr>)" using ensure_sums(3,4) [OF Pair] by (simp add: shrinks_def base_ok_def)
  then show ?thesis using assms Pair by (auto simp: check_upload_def Let_def split: if_splits)
qed

lemma check_upload_room:
  assumes "me_up env 0 0" and "me_up env 1 0" and "check_upload env u req s = (None, s')"
  shows "0 < aq_file_size req"
    and "used_of u (ms_quota s') + aq_file_size req + ssum Media_PENDING u (ms_files s') \<le> limit_of u (ms_quota s')"
proof -
  obtain q qs where q: "quota_ensure True (me_now env) u (ms_quota s) = (q, qs)" by fastforce
  show "0 < aq_file_size req" using assms(3) by (auto simp: check_upload_def is_allowed_def split: if_splits option.splits)
  show "used_of u (ms_quota s') + aq_file_size req + ssum Media_PENDING u (ms_files s') \<le> limit_of u (ms_quota s')"
    using assms q ensure_sums [OF q]
    by (auto simp: check_upload_def Let_def pending_bytes_ssum split: if_splits)
qed

lemma insert_file_inv:
  assumes "media_inv s" and "insert_file ok (pending_row env u req b k i) s = (r, s')" and "0 < aq_file_size req"
    and "used_of u (ms_quota s) + aq_file_size req + ssum Media_PENDING u (ms_files s) \<le> limit_of u (ms_quota s)"
  shows "media_inv s'"
proof (cases "ok \<and> (\<forall>x \<in> set (ms_files s). mf_file_id x \<noteq> me_file_id env)")
  case True
  then have "ms_files s' = ms_files s @ [pending_row env u req b k i]" "ms_quota s' = ms_quota s" "ms_blobs s' = ms_blobs s"
    using assms(2) by (auto simp: insert_file_def MediaFileTable_insert_def persist_def pending_row_def set_files_def
        split: prod.splits option.splits if_splits)
  then show ?thesis using assms(1,3,4) True by (auto simp: media_inv_def base_ok_def pending_row_def image_iff)
next
  case False
  then have "MediaFileTable_insert ok (pending_row env u req b k i) (ms_files s) = (False, ms_files s)"
    by (force simp: MediaFileTable_insert_def persist_def pending_row_def)
  then have "s' = s" using assms(2) by (simp add: insert_file_def set_files_def)
  then show ?thesis using assms(1) by simp
qed

lemma ApplyUpload_inv:
  assumes "me_up env 0 0" and "me_up env 1 0" and "media_inv s"
  shows "media_inv (snd (ApplyUpload env auth req s))"
proof (cases "check_upload env (user_id auth) req s")
  case (Pair r s1)
  note inv = media_inv_shrinks [OF check_upload_shrinks [OF assms(1) Pair] assms(3)]
  show ?thesis
  proof (cases r)
    case None
    note room = check_upload_room [OF assms(1,2) Pair [unfolded None]]
    note ins = insert_file_inv [OF inv _ room]
    show ?thesis using Pair None ins
      by (simp add: ApplyUpload_def Let_def split: option.split prod.split bool.split)
  qed (simp add: ApplyUpload_def Pair inv)
qed

lemma InitMultipartUpload_inv:
  assumes "me_up env 0 0" and "me_up env 1 0" and "media_inv s"
  shows "media_inv (snd (InitMultipartUpload env auth req s))"
proof (cases "check_upload env (user_id auth) req s")
  case (Pair r s1)
  note inv = media_inv_shrinks [OF check_upload_shrinks [OF assms(1) Pair] assms(3)]
  show ?thesis
  proof (cases r)
    case None
    note room = check_upload_room [OF assms(1,2) Pair [unfolded None]]
    note ins = insert_file_inv [OF inv _ room]
    have up: "media_inv (s1\<lparr>ms_uploads := us\<rparr>)" for us using media_inv_shrinks [OF shrinks_s3(5) inv] .
    note ins_up = insert_file_inv [OF up, where env = env and req = req and u = "user_id auth"]
    show ?thesis using Pair None inv ins ins_up room media_inv_shrinks [OF shrinks_s3(2)]
      by (simp add: InitMultipartUpload_def Let_def split: option.split prod.split bool.split)
  qed (simp add: InitMultipartUpload_def Pair inv)
qed

section \<open>Completing an upload\<close>

lemma adopt_blob_frame:
  assumes "base_ok s" and "r \<in> set (ms_files s)"
  shows "distinct (map mf_file_id (ms_files (adopt_blob env r s)))" (is ?A)
    and "\<forall>x \<in> set (ms_files (adopt_blob env r s)). 0 \<le> mf_file_size x" (is ?B)
    and "ms_quota (adopt_blob env r s) = ms_quota s" (is ?C)
    and "ssum st u (ms_files (adopt_blob env r s)) = ssum st u (ms_files s)" (is ?D)
    and "\<exists>x \<in> set (ms_files (adopt_blob env r s)). mf_file_id x = mf_file_id r \<and> mf_status x = mf_status r
      \<and> mf_owner_id x = mf_owner_id r \<and> mf_file_size x = mf_file_size r" (is ?E)
proof -
  let ?f = "\<lambda>x b k. x\<lparr>mf_bucket := b, mf_object_key := k\<rparr>"
  have "(\<exists>b k. ms_files (adopt_blob env r s) = update_where (\<lambda>x. mf_file_id x = mf_file_id r) (\<lambda>x. ?f x b k) (ms_files s))
      \<or> ms_files (adopt_blob env r s) = update_where (\<lambda>_. False) (\<lambda>x. ?f x [] []) (ms_files s)"
    by (cases "fst (update_bucket_key (me_up env 6 0) (mf_file_id r) b k (ms_files s))")
      (auto simp: adopt_blob_def Let_def update_bucket_key_def update_file_def delete_object_def set_files_def
        update_where_none split: option.split if_splits)
  then obtain P b k where eq: "ms_files (adopt_blob env r s) = update_where P (\<lambda>x. ?f x b k) (ms_files s)" by blast
  show ?A ?B using assms(1) by (auto simp: eq base_ok_def map_key_update_where set_update_where)
  show ?C by (simp add: adopt_blob_def Let_def delete_object_def set_files_def split: option.split)
  show ?D by (simp add: eq ssum_update_key)
  show ?E unfolding eq set_update_where
    by (rule bexI [OF _ imageI [OF assms(2)]]) simp
qed

lemma adopt_blob_blobs:
  assumes "base_ok s"
  shows "\<forall>b \<in> set (ms_blobs (adopt_blob env r s)). 0 < bl_ref_count b \<or> bl_content_hash b = mf_content_hash r"
  using assms
  by (auto simp: base_ok_def adopt_blob_def Let_def blob_upsert_def persist_def delete_object_def set_files_def
      split: option.split)

lemma adopt_blob_nonneg: "base_ok s \<Longrightarrow> \<forall>b \<in> set (ms_blobs (adopt_blob env r s)). 0 \<le> bl_ref_count b"
  by (auto simp: base_ok_def adopt_blob_def Let_def blob_upsert_def persist_def delete_object_def set_files_def
      split: option.split)

lemma inc_ref_positive:
  assumes "\<forall>b \<in> set bs. 0 < bl_ref_count b \<or> bl_content_hash b = h" and "\<forall>b \<in> set bs. 0 \<le> bl_ref_count b"
  shows "\<forall>b \<in> set (snd (inc_ref True h bs)). 0 < bl_ref_count b"
proof (cases "query_one (\<lambda>b. bl_content_hash b = h) bs = None")
  case True
  then show ?thesis using assms(1) by (auto simp: inc_ref_def query_one_None)
next
  case False
  then have "snd (inc_ref True h bs) = update_where (\<lambda>b. bl_content_hash b = h) (\<lambda>b. b\<lparr>bl_ref_count := bl_ref_count b + 1\<rparr>) bs"
    unfolding inc_ref_def by (simp only: if_False simp_thms snd_conv)
  then show ?thesis using assms by (auto simp: set_update_where intro!: add_nonneg_pos)
qed

lemma commit_file_inv:
  assumes "me_up env 8 0" and "me_up env 9 0" and "me_up env 10 0"
    and "media_inv s" and "r \<in> set (ms_files s)" and "mf_status r = Media_PENDING"
  shows "media_inv (commit_file env (mf_owner_id r) r s)"
proof -
  let ?a = "adopt_blob env r s" and ?t = "commit_file env (mf_owner_id r) r s"
  have base: "base_ok s" using assms(4) by (simp add: media_inv_def)
  note frame = adopt_blob_frame [OF base assms(5)]
  obtain x where x: "x \<in> set (ms_files ?a)" "mf_file_id x = mf_file_id r" "mf_status x = Media_PENDING"
      "mf_owner_id x = mf_owner_id r" "mf_file_size x = mf_file_size r"
    using frame(5) assms(6) by fastforce
  obtain y where found: "query_one (\<lambda>y. mf_file_id y = mf_file_id r) (ms_files ?a) = Some y"
    using x(1,2) query_one_None by (metis (mono_tags, lifting) not_None_eq)
  then have files: "ms_files ?t = update_where (\<lambda>y. mf_file_id y = mf_file_id x) (\<lambda>y. y\<lparr>mf_status := Media_COMMITTED\<rparr>) (ms_files ?a)"
    using assms(2) x(2) by (simp add: commit_file_def Let_def set_file_status_def media_update_status_def update_file_def set_files_def)
  have quota: "ms_quota ?t = snd (inc_used True (mf_owner_id r) (mf_file_size r) (me_now env) (ms_quota s))"
    using assms(3) frame(3) by (simp add: commit_file_def Let_def set_file_status_def set_files_def)
  have blobs: "ms_blobs ?t = snd (inc_ref True (mf_content_hash r) (ms_blobs ?a))"
    using assms(1) by (simp add: commit_file_def Let_def set_file_status_def set_files_def)
  have "base_ok ?t"
    using frame(1,2) inc_ref_positive [OF adopt_blob_blobs adopt_blob_nonneg, OF base base]
    by (auto simp: base_ok_def files blobs map_key_update_where set_update_where)
  moreover have "ssum st u (ms_files ?t) = ssum st u (ms_files s) + (if mf_owner_id r = u
      then (if st = Media_COMMITTED then mf_file_size r else 0) - (if st = Media_PENDING then mf_file_size r else 0) else 0)" for st u
    unfolding files by (subst ssum_commit) (use frame x in auto)
  ultimately show ?thesis using assms(4) by (auto simp: media_inv_def quota inc_used_sums)
qed

lemma CompleteUpload_inv:
  assumes "me_up env 8 0" and "me_up env 9 0" and "me_up env 10 0" and "media_inv s"
  shows "media_inv (snd (CompleteUpload env auth fid s))"
proof (cases "select_by_file_id (me_up env 0 0) fid (ms_files s)")
  case (Some r)
  then have mem: "r \<in> set (ms_files s)" by (auto simp: select_by_file_id_def dest: query_one_Some split: if_splits)
  note del = media_inv_shrinks [OF shrinks_status, of Media_DELETED]
    media_inv_shrinks [OF shrinks_status_of [OF shrinks_s3(1)], of Media_DELETED]
  show ?thesis using assms(4) del commit_file_inv [OF assms mem]
    by (auto simp: CompleteUpload_def Some split: option.split)
qed (simp add: CompleteUpload_def assms(4))

lemma CompleteMultipartUpload_inv:
  assumes "me_up env 8 0" and "me_up env 9 0" and "me_up env 10 0" and "media_inv s"
  shows "media_inv (snd (CompleteMultipartUpload env auth up_id parts s))"
proof (cases "select_by_upload_id (me_up env 0 0) up_id (ms_files s)")
  case (Some r)
  let ?s1 = "complete_multipart env r up_id s"
  have "shrinks s ?s1" unfolding complete_multipart_def using shrinks_s3(2,3) shrinks_trans by blast
  then have inv: "media_inv ?s1" using assms(4) by (rule media_inv_shrinks)
  have "ms_files ?s1 = ms_files s" by (simp add: complete_multipart_def abort_multipart_def client_put_def)
  then have mem: "r \<in> set (ms_files ?s1)" using Some by (auto simp: select_by_upload_id_def dest: query_one_Some split: if_splits)
  note del = media_inv_shrinks [OF shrinks_status_of [OF shrinks_s3(1)], of Media_DELETED]
  show ?thesis using assms(4) inv del commit_file_inv [OF assms(1-3) inv mem]
    by (auto simp: CompleteMultipartUpload_def Some Let_def split: option.split)
qed (simp add: CompleteMultipartUpload_def assms(4))

lemma AbortMultipartUpload_shrinks: "shrinks s (snd (AbortMultipartUpload env auth up_id s))"
  by (auto simp: AbortMultipartUpload_def shrinks_status_of split: option.split)

section \<open>Sequences of requests and cleanup tasks\<close>

datatype media_action =
    Act_ApplyUpload media_env auth_context apply_upload_req
  | Act_CompleteUpload media_env auth_context string
  | Act_InitMultipartUpload media_env auth_context apply_upload_req
  | Act_CompleteMultipartUpload media_env auth_context string "(int \<times> string) list"
  | Act_AbortMultipartUpload media_env auth_context string
  | Act_client_put string string string
  | Act_pending_timeout media_env
  | Act_multipart_orphan media_env
  | Act_unref_blob_gc media_env
  | Act_quarantine_gc media_env
  | Act_magic_sniff media_env

fun media_act :: "media_action \<Rightarrow> media_state \<Rightarrow> media_state" where
  "media_act (Act_ApplyUpload env auth req) s = snd (ApplyUpload env auth req s)"
| "media_act (Act_CompleteUpload env auth fid) s = snd (CompleteUpload env auth fid s)"
| "media_act (Act_InitMultipartUpload env auth req) s = snd (InitMultipartUpload env auth req s)"
| "media_act (Act_CompleteMultipartUpload env auth up_id parts) s = snd (CompleteMultipartUpload env auth up_id parts s)"
| "media_act (Act_AbortMultipartUpload env auth up_id) s = snd (AbortMultipartUpload env auth up_id s)"
| "media_act (Act_client_put bucket key content) s = client_put bucket key content s"
| "media_act (Act_pending_timeout env) s = task_pending_timeout env s"
| "media_act (Act_multipart_orphan env) s = task_multipart_orphan env s"
| "media_act (Act_unref_blob_gc env) s = task_unref_blob_gc env s"
| "media_act (Act_quarantine_gc env) s = task_quarantine_gc env s"
| "media_act (Act_magic_sniff env) s = task_magic_sniff env s"

text \<open>
  The MySQL calls the accounting relies on: the two reads of the quota check, and the three updates of a completion
  (reference count, status, quota), whose results the handlers ignore. Every other call may fail.
\<close>

fun accounting_up :: "media_action \<Rightarrow> bool" where
  "accounting_up (Act_ApplyUpload env _ _) = (me_up env 0 0 \<and> me_up env 1 0)"
| "accounting_up (Act_InitMultipartUpload env _ _) = (me_up env 0 0 \<and> me_up env 1 0)"
| "accounting_up (Act_CompleteUpload env _ _) = (me_up env 8 0 \<and> me_up env 9 0 \<and> me_up env 10 0)"
| "accounting_up (Act_CompleteMultipartUpload env _ _ _) = (me_up env 8 0 \<and> me_up env 9 0 \<and> me_up env 10 0)"
| "accounting_up _ = True"

lemma media_act_inv: "accounting_up a \<Longrightarrow> media_inv s \<Longrightarrow> media_inv (media_act a s)"
proof (cases a)
  case (Act_unref_blob_gc env)
  then show "media_inv s \<Longrightarrow> ?thesis" by (simp add: unref_task_idle media_inv_def)
qed (simp_all add: ApplyUpload_inv CompleteUpload_inv InitMultipartUpload_inv CompleteMultipartUpload_inv
    media_inv_shrinks [OF AbortMultipartUpload_shrinks] media_inv_shrinks [OF shrinks_s3(3)]
    tasks_shrink [THEN media_inv_shrinks])

lemma media_acts_inv: "list_all accounting_up acts \<Longrightarrow> media_inv s \<Longrightarrow> media_inv (fold media_act acts s)"
  by (induction acts arbitrary: s) (simp_all add: media_act_inv)


definition wit_env :: media_env where
  "wit_env = \<lparr>me_up = \<lambda>_ _. True, me_now = 1000, me_date = ''2026/01/02'', me_file_id = ''f1'', me_upload_id = ''up1'',
     me_assembled = ''data'', me_mime = [(''text/plain'', 100)], me_pub_b = ''pub'', me_pri_b = ''pri'', me_presign = 900,
     me_sign = \<lambda>b k. ''https'' @ b @ k\<rparr>"

definition wit_auth :: "string \<Rightarrow> auth_context" where
  "wit_auth u = \<lparr>user_id = u, device_id = ''d'', trace_id = ''t'', jwt_jti = ''j''\<rparr>"

definition wit_hash :: string where
  "wit_hash = ''sha256:'' @ replicate 64 CHR ''a''"

lemma wit_hash_valid [simp]: "content_hash_is_valid wit_hash"
  by (simp add: content_hash_is_valid_def is_hex_lower_def wit_hash_def list_all_iff)

definition wit_req :: "int \<Rightarrow> apply_upload_req" where
  "wit_req n = \<lparr>aq_file_name = ''a.txt'', aq_file_size = n, aq_mime_type = ''text/plain'',
     aq_content_hash = wit_hash, aq_purpose = 3\<rparr>"

definition wit_empty :: media_state where
  "wit_empty = \<lparr>ms_files = [], ms_blobs = [], ms_quota = [], ms_objects = \<lambda>_. None, ms_uploads = [], ms_lease = \<lambda>_. None, ms_cursor = 0\<rparr>"

definition wit_acts :: "media_action list" where
  "wit_acts = [Act_ApplyUpload wit_env (wit_auth ''alice'') (wit_req 4),
     Act_client_put ''pri'' (upload_key wit_env (wit_req 4)) ''data'', Act_CompleteUpload wit_env (wit_auth ''alice'') ''f1'']"

definition wit_row :: "MediaFileStatus \<Rightarrow> media_file_row" where
  "wit_row st = (pending_row wit_env ''alice'' (wit_req 4) ''pri'' (upload_key wit_env (wit_req 4)) None)\<lparr>mf_status := st\<rparr>"

definition wit_blob :: media_blob_ref where
  "wit_blob = \<lparr>bl_content_hash = wit_hash, bl_bucket = ''pri'', bl_object_key = upload_key wit_env (wit_req 4),
     bl_ref_count = 1, bl_total_size = 4, bl_last_decremented_at = 1000\<rparr>"

definition wit_quota :: "int \<Rightarrow> media_user_quota" where
  "wit_quota n = \<lparr>qu_user_id = ''alice'', qu_used_bytes = n, qu_quota_bytes = kMediaDefaultQuotaBytes, qu_updated_at = 1000\<rparr>"

definition wit_committed :: media_state where
  "wit_committed = wit_empty\<lparr>ms_files := [wit_row Media_COMMITTED], ms_blobs := [wit_blob], ms_quota := [wit_quota 4],
     ms_objects := [(''pri'', upload_key wit_env (wit_req 4)) \<mapsto> ''data'']\<rparr>"

lemmas wit_defs = wit_empty_def wit_env_def wit_auth_def wit_row_def wit_blob_def wit_quota_def

lemma wit_apply: "snd (ApplyUpload wit_env (wit_auth ''alice'') (wit_req 4) wit_empty) =
    wit_empty\<lparr>ms_files := [wit_row Media_PENDING], ms_quota := [wit_quota 0]\<rparr>"
  by (simp add: wit_defs wit_req_def ApplyUpload_def check_upload_def is_allowed_def quota_ensure_def Let_def
      kMediaDefaultQuotaBytes_def pending_bytes_of_owner_def live_blob_def select_by_hash_def insert_file_def
      MediaFileTable_insert_def persist_def pending_row_def set_files_def pick_bucket_def)

lemma wit_complete: "fold media_act wit_acts wit_empty = wit_committed"
proof -
  have "mf_bucket (wit_row st) = ''pri''" "mf_object_key (wit_row st) = upload_key wit_env (wit_req 4)" "mf_file_size (wit_row st) = 4"
      "mf_file_id (wit_row st) = ''f1''" "mf_owner_id (wit_row st) = ''alice''" "mf_status (wit_row st) = st"
      "mf_content_hash (wit_row st) = wit_hash" "(wit_row st)\<lparr>mf_status := st'\<rparr> = wit_row st'" for st st'
    by (simp_all add: wit_row_def pending_row_def wit_req_def wit_env_def)
  note row = this
  have none: "ms_files wit_empty = []" "ms_blobs wit_empty = []" "ms_quota wit_empty = []" "ms_objects wit_empty = (\<lambda>_. None)"
    by (simp_all add: wit_empty_def)
  have env: "me_up wit_env i j" "me_now wit_env = 1000" "user_id (wit_auth u) = u" for i j u by (simp_all add: wit_env_def wit_auth_def)
  show ?thesis
    by (simp add: wit_acts_def wit_apply client_put_def CompleteUpload_def select_by_file_id_def row env head_object_def
        commit_file_def Let_def adopt_blob_def select_by_hash_def none blob_upsert_def persist_def inc_ref_def
        set_file_status_def media_update_status_def update_file_def set_files_def inc_used_def wit_quota_def wit_committed_def wit_blob_def)
qed


section \<open>A wrong size for known content\<close>

lemma check_upload_frame:
  "check_upload env u req s = (r, s') \<Longrightarrow> ms_files s' = ms_files s \<and> ms_blobs s' = ms_blobs s \<and> ms_objects s' = ms_objects s"
  by (auto simp: check_upload_def Let_def split: if_splits prod.splits)

lemma apply_known_content:
  assumes "\<forall>i j. me_up env i j" and "check_upload env (user_id auth) req s = (None, s1)"
    and "query_one (\<lambda>x. bl_content_hash x = aq_content_hash req) (ms_blobs s) = Some b" and "0 < bl_ref_count b"
    and "\<forall>x \<in> set (ms_files s). mf_file_id x \<noteq> me_file_id env"
  shows "ApplyUpload env auth req s =
    (Inr \<lparr>ar_file_id = me_file_id env, ar_already_exists = True, ar_upload_url = [], ar_headers = [], ar_expires_in_sec = 0\<rparr>,
     set_files (ms_files s @ [pending_row env (user_id auth) req (bl_bucket b) (bl_object_key b) None]) s1)"
proof -
  have "me_file_id env \<notin> mf_file_id ` set (ms_files s)" using assms(5) by auto
  then show ?thesis
    using assms(1-4) check_upload_frame [OF assms(2)]
    by (simp add: ApplyUpload_def live_blob_def select_by_hash_def insert_file_def MediaFileTable_insert_def persist_def pending_row_def)
qed

text \<open>
  Claim C37. Content is named by its hash alone, and the size a request claims is only compared at completion, with
  the object all files of that content share: whoever knows the hash of a committed file and claims another size for
  it gets a size mismatch, and the handler deletes the shared object. The owner's row stays committed and the
  reference to the blob stays, so that later uploads of the content are still answered as already present; but
  nothing is behind the URL a download returns.
\<close>

theorem wrong_size_claim_deletes_shared_object:
  assumes "\<forall>i j. me_up env i j" and "\<forall>i j. me_up env' i j"
    and "r \<in> set (ms_files s)" and "mf_status r = Media_COMMITTED"
    and "query_one (\<lambda>x. bl_content_hash x = aq_content_hash req) (ms_blobs s) = Some b" and "0 < bl_ref_count b"
    and "ms_objects s (bl_bucket b, bl_object_key b) = Some content" and "aq_file_size req \<noteq> int (length content)"
    and "fst (check_upload env (user_id auth) req s) = None" and "\<forall>x \<in> set (ms_files s). mf_file_id x \<noteq> me_file_id env"
  shows "case ApplyUpload env auth req s of
      (rsp, s1) \<Rightarrow> (case CompleteUpload env' auth (me_file_id env) s1 of
        (result, s2) \<Rightarrow> result = Inl (ServiceError kMediaHashMismatch ''size mismatch'')
          \<and> ms_objects s2 (bl_bucket b, bl_object_key b) = None
          \<and> r \<in> set (ms_files s2) \<and> live_blob True (aq_content_hash req) s2 = Some b)"
proof -
  obtain s0 where ck: "check_upload env (user_id auth) req s = (None, s0)" using assms(9) by (metis prod.collapse)
  let ?row = "pending_row env (user_id auth) req (bl_bucket b) (bl_object_key b) None"
  let ?s1 = "set_files (ms_files s @ [?row]) s0"
  have applied: "snd (ApplyUpload env auth req s) = ?s1"
    using apply_known_content [OF assms(1) ck assms(5,6,10)] by simp
  have s1: "ms_files ?s1 = ms_files s @ [?row]" "ms_blobs ?s1 = ms_blobs s" "ms_objects ?s1 = ms_objects s"
    using check_upload_frame [OF ck] by (simp_all add: set_files_def)
  have row: "mf_file_id ?row = me_file_id env" "mf_owner_id ?row = user_id auth" "mf_status ?row = Media_PENDING"
      "mf_bucket ?row = bl_bucket b" "mf_object_key ?row = bl_object_key b" "mf_file_size ?row = aq_file_size req"
    by (simp_all add: pending_row_def)
  have "query_one (\<lambda>x. mf_file_id x = me_file_id env) (ms_files s) = None" using assms(10) by (simp add: query_one_None)
  then have sel: "select_by_file_id True (me_file_id env) (ms_files ?s1) = Some ?row"
    using row(1) s1(1) by (simp add: select_by_file_id_def query_one_append)
  have complete: "CompleteUpload env' auth (me_file_id env) ?s1 =
      (Inl (ServiceError kMediaHashMismatch ''size mismatch''),
       set_file_status True (me_file_id env) Media_DELETED (delete_object True (bl_bucket b) (bl_object_key b) ?s1))"
    using assms(2,7,8) sel row s1 by (simp add: CompleteUpload_def head_object_def)
  have "r \<in> set (update_where (\<lambda>x. mf_file_id x = me_file_id env) (\<lambda>x. x\<lparr>mf_status := Media_DELETED\<rparr>) (ms_files s @ [?row]))"
    using assms(3,10) by (auto simp: set_update_where intro!: image_eqI [of r _ r])
  then show ?thesis
    using applied complete s1 assms(3,5,6)
    by (auto simp: prod.case_eq_if set_file_status_def media_update_status_def update_file_def delete_object_def set_files_def
        live_blob_def select_by_hash_def)
qed

text \<open>Alice's file is committed; Mallory claims five bytes for the same hash.\<close>

theorem wrong_size_claim_witness:
  "case ApplyUpload (wit_env\<lparr>me_file_id := ''f2''\<rparr>) (wit_auth ''mallory'') (wit_req 5) wit_committed of
      (rsp, s1) \<Rightarrow> (case CompleteUpload wit_env (wit_auth ''mallory'') ''f2'' s1 of
        (result, s2) \<Rightarrow> result = Inl (ServiceError kMediaHashMismatch ''size mismatch'')
          \<and> ms_objects s2 (bl_bucket wit_blob, bl_object_key wit_blob) = None
          \<and> hd (ms_files wit_committed) \<in> set (ms_files s2) \<and> live_blob True (aq_content_hash (wit_req 5)) s2 = Some wit_blob)"
proof -
  have 1: "query_one (\<lambda>x. bl_content_hash x = aq_content_hash (wit_req 5)) (ms_blobs wit_committed) = Some wit_blob"
    by (simp add: wit_committed_def wit_blob_def wit_req_def)
  have 2: "fst (check_upload (wit_env\<lparr>me_file_id := ''f2''\<rparr>) (user_id (wit_auth ''mallory'')) (wit_req 5) wit_committed) = None"
    by (simp add: wit_committed_def wit_defs wit_req_def check_upload_def is_allowed_def quota_ensure_def Let_def
        kMediaDefaultQuotaBytes_def pending_bytes_of_owner_def pending_row_def)
  have 3: "ms_files wit_committed = [wit_row Media_COMMITTED]" "mf_file_id (wit_row Media_COMMITTED) = ''f1''"
      "mf_status (wit_row Media_COMMITTED) = Media_COMMITTED"
      "ms_objects wit_committed (bl_bucket wit_blob, bl_object_key wit_blob) = Some ''data''"
    by (simp_all add: wit_committed_def wit_defs pending_row_def)
  show ?thesis
    using wrong_size_claim_deletes_shared_object [OF _ _ _ _ 1 _ 3(4) _ 2, of wit_env "wit_row Media_COMMITTED"] 3
    by (simp add: wit_env_def wit_blob_def wit_req_def)
qed

end
