(* ===== verification/Media_Rpc.thy ===== *)
theory Media_Rpc
  imports Media_Props
begin

text \<open>
  The nine RPC overrides of \<open>MediaServiceImpl\<close> (media/source/media_server.h): each runs its handler inside
  HANDLE_RPC with the user of the request metadata. Shown: a request without valid metadata changes
  nothing, the four reading requests change nothing, and every other request changes the state by its handler
  alone or not at all, so that the properties of the handlers are properties of the service.
\<close>

datatype media_request =
    Q_ApplyUpload apply_upload_req
  | Q_CompleteUpload string
  | Q_InitMultipartUpload apply_upload_req
  | Q_ApplyPartUpload string int
  | Q_CompleteMultipartUpload string "(int \<times> string) list"
  | Q_AbortMultipartUpload string
  | Q_ApplyDownload string
  | Q_GetFileInfo string
  | Q_SpeechRecognition string

datatype media_response =
    R_ApplyUpload apply_upload_rsp
  | R_FileInfo file_info
  | R_InitMultipart init_multipart_rsp
  | R_ApplyPart string int
  | R_Abort
  | R_ApplyDownload string int file_info
  | R_Speech string

definition answer :: "('a \<Rightarrow> 'b) \<Rightarrow> (exn + 'a) \<times> 's \<Rightarrow> (exn + 'b) \<times> 's" where
  "answer f r = (map_sum id f (fst r), snd r)"

fun media_body :: "media_env \<Rightarrow> media_request \<Rightarrow> auth_context \<Rightarrow> media_state \<Rightarrow> (exn + media_response) \<times> media_state" where
  "media_body env (Q_ApplyUpload req) auth s = answer R_ApplyUpload (ApplyUpload env auth req s)"
| "media_body env (Q_CompleteUpload fid) auth s = answer R_FileInfo (CompleteUpload env auth fid s)"
| "media_body env (Q_InitMultipartUpload req) auth s = answer R_InitMultipart (InitMultipartUpload env auth req s)"
| "media_body env (Q_ApplyPartUpload up_id n) auth s = answer (\<lambda>(url, ttl). R_ApplyPart url ttl) (ApplyPartUpload env auth up_id n s)"
| "media_body env (Q_CompleteMultipartUpload up_id parts) auth s = answer R_FileInfo (CompleteMultipartUpload env auth up_id parts s)"
| "media_body env (Q_AbortMultipartUpload up_id) auth s = answer (\<lambda>_. R_Abort) (AbortMultipartUpload env auth up_id s)"
| "media_body env (Q_ApplyDownload fid) auth s = answer (\<lambda>(url, ttl, i). R_ApplyDownload url ttl i) (ApplyDownload env auth fid s)"
| "media_body env (Q_GetFileInfo fid) auth s = answer R_FileInfo (GetFileInfo env auth fid s)"
| "media_body env (Q_SpeechRecognition snd_bytes) auth s = answer R_Speech (SpeechRecognition snd_bytes, s)"

definition media_rpc ::
  "media_env \<Rightarrow> rpc_metadata option \<Rightarrow> string \<Rightarrow> media_request \<Rightarrow> media_state \<Rightarrow> (response_header \<times> media_response option) \<times> media_state" where
  "media_rpc env md rid q s = handle_rpc md rid (media_body env q) s"

lemma snd_answer [simp]: "snd (answer f r) = snd r"
  by (simp add: answer_def)

fun reading :: "media_request \<Rightarrow> bool" where
  "reading (Q_ApplyPartUpload up_id n) = True"
| "reading (Q_ApplyDownload fid) = True"
| "reading (Q_GetFileInfo fid) = True"
| "reading (Q_SpeechRecognition b) = True"
| "reading _ = False"

lemma reading_body_keeps: "reading q \<Longrightarrow> snd (media_body env q auth s) = s"
  by (cases q) (auto simp: ApplyPartUpload_def ApplyDownload_def GetFileInfo_def Let_def split: option.splits)

lemma reading_keeps_state: "reading q \<Longrightarrow> snd (media_rpc env md rid q s) = s"
  unfolding media_rpc_def by (rule handle_rpc_state [where P = "\<lambda>t. t = s"]) (auto simp: reading_body_keeps)

lemma unauthenticated_media_request:
  "extract_auth md = Inl e \<Longrightarrow> media_rpc env md rid q s = ((error_header rid e, None), s)"
  by (simp add: media_rpc_def handle_rpc_unauthenticated)

lemma writing_body_is_action: "\<not> reading q \<Longrightarrow> \<exists>a. snd (media_body env q auth s) = media_act a s"
proof (cases q)
  case (Q_ApplyUpload req)
  then show ?thesis by (auto intro: exI [of _ "Act_ApplyUpload env auth req"])
next
  case (Q_CompleteUpload fid)
  then show ?thesis by (auto intro: exI [of _ "Act_CompleteUpload env auth fid"])
next
  case (Q_InitMultipartUpload req)
  then show ?thesis by (auto intro: exI [of _ "Act_InitMultipartUpload env auth req"])
next
  case (Q_CompleteMultipartUpload up_id parts)
  then show ?thesis by (auto intro: exI [of _ "Act_CompleteMultipartUpload env auth up_id parts"])
next
  case (Q_AbortMultipartUpload up_id)
  then show ?thesis by (auto intro: exI [of _ "Act_AbortMultipartUpload env auth up_id"])
qed auto

text \<open>Every request is one action of the service, or leaves its state as it is.\<close>

lemma media_rpc_is_action: "snd (media_rpc env md rid q s) = s \<or> (\<exists>a. snd (media_rpc env md rid q s) = media_act a s)"
  unfolding media_rpc_def
  by (rule handle_rpc_state [where P = "\<lambda>t. t = s \<or> (\<exists>a. t = media_act a s)"])
    (auto intro: writing_body_is_action simp: reading_body_keeps dest: writing_body_is_action)

end
