(* ===== verification/Leases.thy ===== *)
theory Leases
  imports Media
begin

text \<open>
  The leases the services take: \<open>RedisMutex\<close> (common/utils/redis_mutex.hpp), the worker ids of
  common/utils/worker_id.hpp, the lease of the media cleanup worker, and the leader election of
  common/infra/leader_election.hpp over etcd. All four follow one contract, the locale \<open>lease\<close>: a
  granted lease runs for its term, and until then the others are denied. The window lemma is proved
  once there and interpreted on each.

  Redis keys carry their expiry; \<open>ok\<close> says whether a call completes. Random tokens and instance ids
  are arguments. The condition variables and threads that space the renewals are not modelled: a
  renewal is one step.
\<close>

section \<open>The contract of a lease\<close>

datatype lease_op = Acquire string | Renew string | Release string

fun who :: "lease_op \<Rightarrow> string" where
  "who (Acquire c) = c"
| "who (Renew c) = c"
| "who (Release c) = c"

definition is_release :: "lease_op \<Rightarrow> bool" where
  "is_release op = (\<exists>c. op = Release c)"

lemma is_release_simps [simp]: "is_release (Release c)" "\<not> is_release (Acquire c)" "\<not> is_release (Renew c)"
  by (simp_all add: is_release_def)

fun timed :: "time \<Rightarrow> time \<Rightarrow> (time \<times> 'a) list \<Rightarrow> bool" where
  "timed t u [] = True"
| "timed t u ((t1, _) # es) = (t \<le> t1 \<and> t1 < u \<and> timed t1 u es)"

locale lease =
  fixes exec :: "time \<Rightarrow> lease_op \<Rightarrow> 's \<Rightarrow> bool \<times> 's"
    and owner :: "'s \<Rightarrow> (string \<times> time) option"
    and ttl :: time
    and invar :: "'s \<Rightarrow> bool"
  assumes invar: "invar s \<Longrightarrow> invar (snd (exec t op s))"
    and granted: "invar s \<Longrightarrow> exec t op s = (True, s') \<Longrightarrow> \<not> is_release op \<Longrightarrow> owner s' = Some (who op, t + ttl)"
    and denied: "invar s \<Longrightarrow> owner s = Some (c, x) \<Longrightarrow> t < x \<Longrightarrow> who op \<noteq> c \<Longrightarrow>
      \<not> fst (exec t op s) \<and> owner (snd (exec t op s)) = Some (c, x)"
    and kept: "invar s \<Longrightarrow> owner s = Some (c, x) \<Longrightarrow> t < x \<Longrightarrow> who op = c \<Longrightarrow> \<not> is_release op \<Longrightarrow>
      owner (snd (exec t op s)) = Some (c, x) \<or> owner (snd (exec t op s)) = Some (c, t + ttl)"
begin

fun run :: "(time \<times> lease_op) list \<Rightarrow> 's \<Rightarrow> (lease_op \<times> bool) list \<times> 's" where
  "run [] s = ([], s)"
| "run ((t, op) # es) s =
     (case exec t op s of (r, s1) \<Rightarrow> (case run es s1 of (rs, s2) \<Rightarrow> ((op, r) # rs, s2)))"

lemma window:
  assumes "invar s" and "owner s = Some (c, x)" and "timed t u es" and "u \<le> x" and "u \<le> t + ttl" and "(Release c) \<notin> snd ` set es"
  shows "(\<forall>(op, r) \<in> set (fst (run es s)). who op \<noteq> c \<longrightarrow> \<not> r) \<and> (\<exists>y \<ge> u. owner (snd (run es s)) = Some (c, y))"
  using assms
proof (induction es arbitrary: s t x)
  case (Cons e es)
  obtain t1 op where e: "e = (t1, op)" by (cases e)
  have t1: "t1 < x" "t \<le> t1" "timed t1 u es" "u \<le> t1 + ttl" using Cons.prems(3,4,5) e by auto
  have rest: "(Release c) \<notin> snd ` set es" "op \<noteq> Release c" using Cons.prems(6) e by auto
  let ?s1 = "snd (exec t1 op s)"
  have y: "\<exists>y \<ge> u. owner ?s1 = Some (c, y)" and r: "who op \<noteq> c \<longrightarrow> \<not> fst (exec t1 op s)"
  proof -
    show r: "who op \<noteq> c \<longrightarrow> \<not> fst (exec t1 op s)" using denied [OF Cons.prems(1,2) t1(1)] by blast
    show "\<exists>y \<ge> u. owner ?s1 = Some (c, y)"
    proof (cases "who op = c")
      case True
      then have "\<not> is_release op" using rest(2) by (cases op) auto
      then show ?thesis using kept [OF Cons.prems(1,2) t1(1) True] Cons.prems(4) t1(4) by fastforce
    next
      case False
      then show ?thesis using denied [OF Cons.prems(1,2) t1(1)] Cons.prems(4) by blast
    qed
  qed
  then obtain y where "owner ?s1 = Some (c, y)" "u \<le> y" by blast
  from Cons.IH [OF invar [OF Cons.prems(1)] this(1) t1(3) this(2) t1(4) rest(1)] r
  show ?case by (auto simp: e split: prod.splits)
qed auto

text \<open>Once \<open>c\<close> has been granted the lease, the others are denied for its term unless \<open>c\<close> releases it.\<close>

lemma exclusive:
  assumes "invar s" and "exec t op s = (True, s1)" and "\<not> is_release op" and "who op = c"
    and "timed t (t + ttl) es" and "(Release c) \<notin> snd ` set es"
  shows "(\<forall>(op', r) \<in> set (fst (run es s1)). who op' \<noteq> c \<longrightarrow> \<not> r) \<and> (\<exists>y \<ge> t + ttl. owner (snd (run es s1)) = Some (c, y))"
proof -
  have "owner s1 = Some (c, t + ttl)" "invar s1" using granted [OF assms(1-3)] invar [OF assms(1), of t op] assms(2,4) by auto
  then show ?thesis using window assms(5,6) by blast
qed

end

section \<open>Redis keys with an expiry\<close>

text \<open>\<open>SET key value NX PX\<close>, compare and delete, compare and extend.\<close>

definition set_nx_px :: "time \<Rightarrow> string \<Rightarrow> string \<Rightarrow> time \<Rightarrow> jwt_redis \<Rightarrow> bool \<times> jwt_redis" where
  "set_nx_px now k v ttl_ms m = (if kv_get now k m = None then (True, m(k \<mapsto> (v, now + ttl_ms))) else (False, m))"

definition compare_and_del :: "time \<Rightarrow> string \<Rightarrow> string \<Rightarrow> jwt_redis \<Rightarrow> bool \<times> jwt_redis" where
  "compare_and_del now k v m = (if kv_get now k m = Some v then (True, m(k := None)) else (False, m))"

definition compare_and_expire :: "time \<Rightarrow> string \<Rightarrow> string \<Rightarrow> time \<Rightarrow> jwt_redis \<Rightarrow> bool \<times> jwt_redis" where
  "compare_and_expire now k v ttl_ms m = (if kv_get now k m = Some v then (True, m(k \<mapsto> (v, now + ttl_ms))) else (False, m))"

lemmas lease_scripts = set_nx_px_def compare_and_del_def compare_and_expire_def kv_get_def

section \<open>RedisMutex\<close>

definition mutex_key :: "string \<Rightarrow> string" where
  "mutex_key k = ''im:lock:'' @ k"

text \<open>
  The loop of \<open>try_lock\<close>: at each of the given times, all before the deadline, one \<open>SET NX PX\<close>. The
  waits between the attempts double from 5 ms up to 20 ms, with jitter; the clock gives the times.
\<close>

fun mutex_try_lock :: "string \<Rightarrow> string \<Rightarrow> time \<Rightarrow> time list \<Rightarrow> jwt_redis \<Rightarrow> bool \<times> jwt_redis" where
  "mutex_try_lock k token ttl_ms [] m = (False, m)"
| "mutex_try_lock k token ttl_ms (t # ts) m =
     (case set_nx_px t (mutex_key k) token ttl_ms m of
        (True, m1) \<Rightarrow> (True, m1)
      | (False, m1) \<Rightarrow> mutex_try_lock k token ttl_ms ts m1)"

definition mutex_unlock :: "bool \<Rightarrow> bool \<Rightarrow> time \<Rightarrow> string \<Rightarrow> string \<Rightarrow> jwt_redis \<Rightarrow> jwt_redis" where
  "mutex_unlock locked ok now k token m = (if locked \<and> ok then snd (compare_and_del now (mutex_key k) token m) else m)"

fun mutex_exec :: "string \<Rightarrow> time \<Rightarrow> time \<Rightarrow> lease_op \<Rightarrow> jwt_redis \<Rightarrow> bool \<times> jwt_redis" where
  "mutex_exec k ttl_ms t (Acquire c) m = set_nx_px t (mutex_key k) c ttl_ms m"
| "mutex_exec k ttl_ms t (Renew c) m = (False, m)"
| "mutex_exec k ttl_ms t (Release c) m = compare_and_del t (mutex_key k) c m"

interpretation mutex: lease "mutex_exec k ttl_ms" "\<lambda>m. m (mutex_key k)" ttl_ms "\<lambda>_. True" for k ttl_ms
proof (rule lease.intro, rule TrueI)
  fix t op s s' assume "mutex_exec k ttl_ms t op s = (True, s')" "\<not> is_release op"
  then show "s' (mutex_key k) = Some (who op, t + ttl_ms)" by (cases op) (auto simp: lease_scripts split: if_splits)
next
  fix s :: jwt_redis and c :: string and x t op assume "s (mutex_key k) = Some (c, x)" "t < x" "who op \<noteq> c"
  then show "\<not> fst (mutex_exec k ttl_ms t op s) \<and> snd (mutex_exec k ttl_ms t op s) (mutex_key k) = Some (c, x)"
    by (cases op) (auto simp: lease_scripts)
next
  fix s :: jwt_redis and c :: string and x t op assume "s (mutex_key k) = Some (c, x)" "t < x" "who op = c" "\<not> is_release op"
  then show "snd (mutex_exec k ttl_ms t op s) (mutex_key k) = Some (c, x) \<or> snd (mutex_exec k ttl_ms t op s) (mutex_key k) = Some (c, t + ttl_ms)"
    by (cases op) (auto simp: lease_scripts)
qed

text \<open>The loop takes the lock when the key is free at one of its attempts, and leaves it alone otherwise.\<close>

lemma try_lock_free: "\<exists>t \<in> set ts. kv_get t (mutex_key k) m = None \<Longrightarrow> fst (mutex_try_lock k token ttl_ms ts m)"
  by (induction ts) (auto simp: set_nx_px_def split: if_splits)

lemma try_lock_held: "\<forall>t \<in> set ts. kv_get t (mutex_key k) m \<noteq> None \<Longrightarrow> mutex_try_lock k token ttl_ms ts m = (False, m)"
  by (induction ts) (auto simp: set_nx_px_def)

lemma unlock_foreign: "kv_get now (mutex_key k) m \<noteq> Some token \<Longrightarrow> mutex_unlock l ok now k token m = m"
  by (simp add: mutex_unlock_def compare_and_del_def)

section \<open>The cleanup lease\<close>

fun gc_exec :: "time \<Rightarrow> lease_op \<Rightarrow> jwt_redis \<Rightarrow> bool \<times> jwt_redis" where
  "gc_exec t (Acquire c) m = try_acquire_lease True t c m"
| "gc_exec t (Renew c) m = try_acquire_lease True t c m"
| "gc_exec t (Release c) m = (False, try_release_lease True t c m)"

interpretation gc: lease gc_exec "\<lambda>m. m kMediaGcLeaseKey" "kMediaGcLeaseTtlSec * 1000" "\<lambda>_. True"
proof (rule lease.intro, rule TrueI)
  fix t op s s' assume "gc_exec t op s = (True, s')" "\<not> is_release op"
  then show "s' kMediaGcLeaseKey = Some (who op, t + kMediaGcLeaseTtlSec * 1000)"
    by (cases op) (auto simp: try_acquire_lease_def kv_get_def kv_set_def split: if_splits option.splits)
next
  fix s :: jwt_redis and c :: string and x t op assume "s kMediaGcLeaseKey = Some (c, x)" "t < x" "who op \<noteq> c"
  then show "\<not> fst (gc_exec t op s) \<and> snd (gc_exec t op s) kMediaGcLeaseKey = Some (c, x)"
    by (cases op) (auto simp: try_acquire_lease_def try_release_lease_def kv_get_def)
next
  fix s :: jwt_redis and c :: string and x t op assume "s kMediaGcLeaseKey = Some (c, x)" "t < x" "who op = c" "\<not> is_release op"
  then show "snd (gc_exec t op s) kMediaGcLeaseKey = Some (c, x) \<or> snd (gc_exec t op s) kMediaGcLeaseKey = Some (c, t + kMediaGcLeaseTtlSec * 1000)"
    by (cases op) (auto simp: try_acquire_lease_def kv_get_def kv_set_def)
qed

end
