(* ===== verification/Worker_Id.thy ===== *)
theory Worker_Id
  imports Leases Snowflake
begin

text \<open>
  The worker ids of the id generator: common/utils/worker_id.hpp, class \<open>WorkerIdAllocator\<close>, which
  the transmite service uses for its snowflake ids. A slot is a Redis key with a lease of 300 s that
  the renewal thread extends every 60 s. Shown: while the lease an instance was granted on its slot
  runs, no other instance of the service gets the same worker id, so their message ids differ; and
  an instance whose renewals fail with an error does not notice that the lease has ended.
\<close>

definition kMaxWorkers :: nat where "kMaxWorkers = 1024"
definition kLeaseSec :: int where "kLeaseSec = 300"

record worker_alloc =
  wa_service :: string
  wa_owner :: string
  wa_allocated :: int
  wa_lease_lost :: bool

record worker_redis =
  wr_seq :: "string \<Rightarrow> int"
  wr_keys :: jwt_redis

definition seq_key :: "string \<Rightarrow> string" where
  "seq_key service = ''im:worker:'' @ service @ '':seq''"

definition slot_key :: "string \<Rightarrow> nat \<Rightarrow> string" where
  "slot_key service i = ''im:worker:'' @ service @ '':slot:'' @ nat_to_string i"

section \<open>Operations\<close>

text \<open>
  The scan of the slots: the call for candidate number \<open>i\<close> happens at \<open>clk i\<close> and completes when
  \<open>up 1 i\<close>. The result is the slot, nothing when every slot is taken or a call throws.
\<close>

fun scan_slots :: "calls \<Rightarrow> (nat \<Rightarrow> time) \<Rightarrow> string \<Rightarrow> string \<Rightarrow> nat \<Rightarrow> nat list \<Rightarrow> jwt_redis \<Rightarrow> nat option \<times> jwt_redis" where
  "scan_slots up clk service own i [] m = (None, m)"
| "scan_slots up clk service own i (c # cs) m =
     (if \<not> up 1 i then (None, m)
      else case set_nx_px (clk i) (slot_key service c) own (kLeaseSec * 1000) m of
             (True, m1) \<Rightarrow> (Some c, m1)
           | (False, m1) \<Rightarrow> scan_slots up clk service own (Suc i) cs m1)"

definition candidates :: "int \<Rightarrow> nat list" where
  "candidates base =
     (let start = nat ((base - 1) mod int kMaxWorkers) in map (\<lambda>i. (start + i) mod kMaxWorkers) [0..<kMaxWorkers])"

definition acquire_slot :: "calls \<Rightarrow> (nat \<Rightarrow> time) \<Rightarrow> worker_alloc \<Rightarrow> worker_redis \<Rightarrow> nat option \<times> worker_redis" where
  "acquire_slot up clk a r =
     (if \<not> up 0 0 then (None, r)
      else let base = wr_seq r (seq_key (wa_service a)) + 1;
               r1 = r\<lparr>wr_seq := (wr_seq r)(seq_key (wa_service a) := base)\<rparr>
           in case scan_slots up clk (wa_service a) (wa_owner a) 0 (candidates base) (wr_keys r1) of
                (s, m) \<Rightarrow> (s, r1\<lparr>wr_keys := m\<rparr>))"

definition WorkerIdAllocator_acquire ::
  "calls \<Rightarrow> (nat \<Rightarrow> time) \<Rightarrow> int \<Rightarrow> worker_alloc \<Rightarrow> worker_redis \<Rightarrow> int \<times> worker_alloc \<times> worker_redis" where
  "WorkerIdAllocator_acquire up clk fallback_worker_id a r =
     (case acquire_slot up clk a r of
        (Some c, r1) \<Rightarrow> (int c, a\<lparr>wa_allocated := int c\<rparr>, r1)
      | (None, r1) \<Rightarrow> (fallback_worker_id, a\<lparr>wa_allocated := fallback_worker_id\<rparr>, r1))"

text \<open>One turn of the renewal thread; it ends once the lease is lost. An exception is only logged.\<close>

definition renew_tick :: "bool \<Rightarrow> time \<Rightarrow> worker_alloc \<Rightarrow> jwt_redis \<Rightarrow> worker_alloc \<times> jwt_redis" where
  "renew_tick ok now a m =
     (if wa_lease_lost a \<or> wa_allocated a < 0 \<or> wa_allocated a \<ge> int kMaxWorkers \<or> \<not> ok then (a, m)
      else case compare_and_expire now (slot_key (wa_service a) (nat (wa_allocated a))) (wa_owner a) (kLeaseSec * 1000) m of
             (True, m1) \<Rightarrow> (a, m1)
           | (False, m1) \<Rightarrow> (a\<lparr>wa_lease_lost := True\<rparr>, m1))"

definition WorkerIdAllocator_stop :: "bool \<Rightarrow> time \<Rightarrow> worker_alloc \<Rightarrow> jwt_redis \<Rightarrow> jwt_redis" where
  "WorkerIdAllocator_stop ok now a m =
     (if wa_allocated a \<ge> 0 \<and> wa_allocated a < int kMaxWorkers \<and> \<not> wa_lease_lost a \<and> ok
      then snd (compare_and_del now (slot_key (wa_service a) (nat (wa_allocated a))) (wa_owner a) m) else m)"

section \<open>Slots are leases\<close>

fun slot_exec :: "string \<Rightarrow> nat \<Rightarrow> time \<Rightarrow> lease_op \<Rightarrow> jwt_redis \<Rightarrow> bool \<times> jwt_redis" where
  "slot_exec service i t (Acquire c) m = set_nx_px t (slot_key service i) c (kLeaseSec * 1000) m"
| "slot_exec service i t (Renew c) m = compare_and_expire t (slot_key service i) c (kLeaseSec * 1000) m"
| "slot_exec service i t (Release c) m = compare_and_del t (slot_key service i) c m"

interpretation slot: lease "slot_exec service i" "\<lambda>m. m (slot_key service i)" "kLeaseSec * 1000" "\<lambda>_. True" for service i
proof (rule lease.intro, rule TrueI)
  fix t op s s' assume "slot_exec service i t op s = (True, s')" "\<not> is_release op"
  then show "s' (slot_key service i) = Some (who op, t + kLeaseSec * 1000)"
    by (cases op) (auto simp: lease_scripts split: if_splits)
next
  fix s :: jwt_redis and c :: string and x t op assume "s (slot_key service i) = Some (c, x)" "t < x" "who op \<noteq> c"
  then show "\<not> fst (slot_exec service i t op s) \<and> snd (slot_exec service i t op s) (slot_key service i) = Some (c, x)"
    by (cases op) (auto simp: lease_scripts)
next
  fix s :: jwt_redis and c :: string and x t op assume "s (slot_key service i) = Some (c, x)" "t < x" "who op = c" "\<not> is_release op"
  then show "snd (slot_exec service i t op s) (slot_key service i) = Some (c, x) \<or>
      snd (slot_exec service i t op s) (slot_key service i) = Some (c, t + kLeaseSec * 1000)"
    by (cases op) (auto simp: lease_scripts split: option.splits if_splits)
qed

lemma slot_key_inject [simp]: "slot_key service i = slot_key service j \<longleftrightarrow> i = j"
  by (simp add: slot_key_def nat_to_string_inject)

text \<open>The operations of all instances of a service, each on one slot at one time.\<close>

fun slots_run :: "string \<Rightarrow> (time \<times> nat \<times> lease_op) list \<Rightarrow> jwt_redis \<Rightarrow> jwt_redis" where
  "slots_run service [] m = m"
| "slots_run service ((t, i, op) # es) m = slots_run service es (snd (slot_exec service i t op m))"

lemma slot_exec_other: "i \<noteq> j \<Longrightarrow> snd (slot_exec service i t op m) (slot_key service j) = m (slot_key service j)"
  by (cases op) (auto simp: lease_scripts)

text \<open>The holder of a slot keeps it through the operations of the others.\<close>

lemma slots_window:
  assumes "m (slot_key service i) = Some (c, x)" and "timed t u es" and "u \<le> x" and "u \<le> t + kLeaseSec * 1000"
    and "\<forall>e \<in> set es. snd e \<noteq> (i, Release c)"
  shows "\<exists>y \<ge> u. slots_run service es m (slot_key service i) = Some (c, y)"
  using assms
proof (induction es arbitrary: m t x)
  case (Cons e es)
  obtain t1 j op where e: "e = (t1, j, op)" by (cases e) auto
  have t1: "t1 < x" "t \<le> t1" "timed t1 u es" "u \<le> t1 + kLeaseSec * 1000" using Cons.prems(2,3,4) e by auto
  let ?m1 = "snd (slot_exec service j t1 op m)"
  have "\<exists>y \<ge> u. ?m1 (slot_key service i) = Some (c, y)"
  proof (cases "j = i \<and> who op = c")
    case True
    then have "\<not> is_release op" using Cons.prems(5) e by (cases op) auto
    then show ?thesis using slot.kept [where s = m and service = service and i = i, OF TrueI Cons.prems(1) t1(1)] True Cons.prems(3) t1(4) by fastforce
  next
    case False
    then have "?m1 (slot_key service i) = m (slot_key service i)"
      using Cons.prems(1) slot_exec_other slot.denied [where s = m and service = service and i = i, OF TrueI Cons.prems(1) t1(1)] by (cases "j = i") auto
    then show ?thesis using Cons.prems(1,3) by auto
  qed
  then obtain y where y: "?m1 (slot_key service i) = Some (c, y)" "u \<le> y" by blast
  from Cons.IH [of ?m1, OF y(1) t1(3) y(2) t1(4)] Cons.prems(5) show ?case by (simp add: e)
qed auto

section \<open>Distinct worker ids\<close>

lemma scan_slots_free:
  assumes "scan_slots up clk service own i cs m = (Some c, m')"
  shows "c \<in> set cs \<and> (\<exists>j. j < i + length cs \<and> i \<le> j \<and> kv_get (clk j) (slot_key service c) m = None
    \<and> slot_exec service c (clk j) (Acquire own) m = (True, m'))"
  using assms
proof (induction cs arbitrary: i)
  case (Cons d cs)
  show ?case
  proof (cases "kv_get (clk i) (slot_key service d) m = None")
    case True
    then show ?thesis using Cons.prems by (auto simp: set_nx_px_def split: if_splits intro!: exI [of _ i])
  next
    case False
    then have "scan_slots up clk service own (Suc i) cs m = (Some c, m')"
      using Cons.prems by (auto simp: set_nx_px_def split: if_splits)
    from Cons.IH [OF this] show ?thesis by auto
  qed
qed simp

lemma acquire_slot_free:
  assumes "acquire_slot up clk a r = (Some c, r')"
  shows "c < kMaxWorkers \<and> (\<exists>j < kMaxWorkers. kv_get (clk j) (slot_key (wa_service a) c) (wr_keys r) = None
    \<and> slot_exec (wa_service a) c (clk j) (Acquire (wa_owner a)) (wr_keys r) = (True, wr_keys r'))"
proof -
  let ?cs = "candidates (wr_seq r (seq_key (wa_service a)) + 1)"
  from assms obtain m where "scan_slots up clk (wa_service a) (wa_owner a) 0 ?cs (wr_keys r) = (Some c, m)" "wr_keys r' = m"
    by (auto simp: acquire_slot_def Let_def split: if_splits prod.splits)
  moreover have "length ?cs = kMaxWorkers" "\<forall>c \<in> set ?cs. c < kMaxWorkers"
    by (auto simp: candidates_def Let_def kMaxWorkers_def)
  ultimately show ?thesis using scan_slots_free by fastforce
qed

text \<open>
  Claim C22. Message ids of two instances. An instance has been granted slot \<open>a\<close> or has renewed it at time \<open>t\<close>;
  for 300 seconds, whatever the instances of the service do in between as long as this one does not give its slot
  up, another instance that acquires a worker id gets a different one, and the message ids the two generators
  hand out are disjoint.
\<close>

theorem worker_ids_keep_message_ids_apart:
  assumes "slot_exec (wa_service B) a t op m = (True, m1)" and "op = Acquire own \<or> op = Renew own" and "a < kMaxWorkers"
    and "timed t (t + 300000) es" and "\<forall>e \<in> set es. snd e \<noteq> (a, Release own)"
    and "wr_keys r = slots_run (wa_service B) es m1" and "\<forall>j. clk j < t + 300000"
    and "acquire_slot up clk B r = (Some b, r')"
    and "SnowflakeId (of_nat a) epoch wait = Inr g" and "SnowflakeId (of_nat b) epoch wait' = Inr g'"
    and "clock_in_range epoch sclk" and "clock_in_range epoch sclk'"
  shows "b \<noteq> a \<and> set (ids sclk n g k) \<inter> set (ids sclk' n' g' k') = {}"
proof -
  have "m1 (slot_key (wa_service B) a) = Some (own, t + kLeaseSec * 1000)"
    using slot.granted [OF TrueI assms(1)] assms(2) by auto
  then obtain y where y: "t + 300000 \<le> y" "wr_keys r (slot_key (wa_service B) a) = Some (own, y)"
    using slots_window [of m1 "wa_service B" a own _ t "t + 300000" es] assms(4,5,6) by (auto simp: kLeaseSec_def)
  obtain j where j: "b < kMaxWorkers" "kv_get (clk j) (slot_key (wa_service B) b) (wr_keys r) = None"
    using acquire_slot_free [OF assms(8)] by blast
  have "clk j < y" using assms(7) y(1) order_less_le_trans by blast
  then have ne: "b \<noteq> a" using y(2) j(2) by (auto simp: kv_get_def)
  then have "(of_nat a :: u64) \<noteq> of_nat b"
    using assms(3) j(1) by (auto simp: word_of_nat_eq_iff take_bit_nat_eq_self kMaxWorkers_def)
  then show ?thesis using ne ids_of_two_workers [OF assms(9,10) _ assms(11,12)] by blast
qed

definition wit_first :: jwt_redis where
  "wit_first = (\<lambda>_. None)(slot_key ''transmite'' 0 \<mapsto> (''host1'', 300000))"

definition wit_second :: worker_alloc where
  "wit_second = \<lparr>wa_service = ''transmite'', wa_owner = ''host2'', wa_allocated = - 1, wa_lease_lost = False\<rparr>"

definition wit_redis :: worker_redis where
  "wit_redis = \<lparr>wr_seq = \<lambda>_. 0, wr_keys = wit_first\<rparr>"

lemma wit_candidates: "\<exists>cs. candidates 1 = 0 # 1 # cs"
proof -
  have k: "Suc 0 < kMaxWorkers" by (simp add: kMaxWorkers_def)
  then have "[0..<kMaxWorkers] = 0 # 1 # [2..<kMaxWorkers]"
    using upt_conv_Cons [of 0 kMaxWorkers] upt_conv_Cons [of "Suc 0" kMaxWorkers] by (simp add: numeral_2_eq_2)
  with k show ?thesis by (simp add: candidates_def)
qed

lemma wit_acquired: "fst (acquire_slot (\<lambda>_ _. True) (\<lambda>_. 1000) wit_second wit_redis) = Some 1"
  using wit_candidates
  by (auto simp: acquire_slot_def wit_second_def wit_redis_def wit_first_def Let_def set_nx_px_def kv_get_def split: prod.split)

text \<open>The first instance holds slot 0; the second scans from slot 0 and gets slot 1.\<close>

theorem worker_ids_keep_message_ids_apart_witness:
  "\<exists>g g'. SnowflakeId (of_nat 0) 0 True = Inr g \<and> SnowflakeId (of_nat 1) 0 True = Inr g'
     \<and> set (ids (\<lambda>_. 5) 1 g 0) \<inter> set (ids (\<lambda>_. 5) 1 g' 0) = {}"
proof -
  obtain r' where acq: "acquire_slot (\<lambda>_ _. True) (\<lambda>_. 1000) wit_second wit_redis = (Some 1, r')"
    using wit_acquired by (metis prod.collapse)
  have grant: "slot_exec (wa_service wit_second) 0 0 (Acquire ''host1'') (\<lambda>_. None) = (True, wit_first)"
    by (simp add: wit_second_def wit_first_def lease_scripts kLeaseSec_def)
  obtain g where g: "SnowflakeId (of_nat 0) 0 True = Inr g" by (simp add: SnowflakeId_def)
  obtain g' where g': "SnowflakeId (of_nat 1) 0 True = Inr g'" by (simp add: SnowflakeId_def kMaxWorkerId_def)
  have "clock_in_range 0 (\<lambda>_. 5)" by (simp add: clock_in_range_def)
  then have "set (ids (\<lambda>_. 5) 1 g 0) \<inter> set (ids (\<lambda>_. 5) 1 g' 0) = {}"
    using worker_ids_keep_message_ids_apart [OF grant _ _ _ _ _ _ acq g g', of "''host1''" "[]" "\<lambda>_. 5" "\<lambda>_. 5" 1 0 1 0]
    by (simp add: kMaxWorkers_def wit_redis_def)
  with g g' show ?thesis by blast
qed

section \<open>Renewals that fail\<close>

text \<open>Renewals that end in an exception leave the instance believing in its lease.\<close>

lemma failed_renewals_unnoticed: "renew_tick False now a m = (a, m)"
  by (simp add: renew_tick_def)

text \<open>After the lease has run out, the slot goes to the next instance that tries it, and both use the worker id.\<close>

lemma expired_slot_is_shared:
  assumes "m (slot_key service i) = Some (own, x)" and "x \<le> t"
  shows "slot_exec service i t (Acquire other) m = (True, m(slot_key service i \<mapsto> (other, t + 300000)))"
  using assms by (simp add: lease_scripts kLeaseSec_def)

end
