(* ===== verification/Worker_Start.thy ===== *)
theory Worker_Start
  imports Worker_Id Leader_Election
begin

text \<open>
  How a transmite server gets its worker id and what watches over it:
  \<open>TransmiteServerBuilder::make_id_generator_object\<close>, \<open>lease_lost\<close> of the two allocators and the watchdog of
  \<open>TransmiteServer::start\<close> (transmite/source/transmite_server.h, common/infra/snowflake.hpp,
  common/utils/worker_id.hpp). The constructor of \<open>SnowflakeId\<close> refuses an id beyond 1023, which ends the
  process.

  Shown: an instance that came up through Redis and whose slot was taken over stops at the first round of the
  watchdog after a renewal that reached Redis; renewals that fail leave the watchdog without notice, and two
  instances without Redis and etcd draw ids with the same worker id.
\<close>

datatype allocator = Redis_allocator worker_alloc | Etcd_allocator "election option" | No_allocator

record start_env =
  se_etcd :: bool
  se_cluster :: bool
  se_redis :: bool
  se_owner :: string
  se_fallback :: int
  se_up :: calls
  se_etcd_up :: "nat \<Rightarrow> nat \<Rightarrow> bool"
  se_clock :: "nat \<Rightarrow> time"

definition make_id_generator_object ::
  "start_env \<Rightarrow> worker_redis \<times> etcd_state \<Rightarrow> (int \<times> allocator) option \<times> worker_redis \<times> etcd_state" where
  "make_id_generator_object se st =
     (case (if se_etcd se \<and> se_cluster se
            then (case etcd_acquire (se_etcd_up se) (se_clock se) (se_owner se) 60 [0..<kMaxWorkers] (snd st) of
                    (Some (slot, el), e) \<Rightarrow> (int slot, Etcd_allocator (Some el), fst st, e)
                  | (None, e) \<Rightarrow> (se_fallback se, Etcd_allocator None, fst st, e))
            else if se_redis se
            then (case WorkerIdAllocator_acquire (se_up se) (se_clock se) (se_fallback se)
                         \<lparr>wa_service = ''transmite'', wa_owner = se_owner se, wa_allocated = - 1, wa_lease_lost = False\<rparr> (fst st) of
                    (i, a, r) \<Rightarrow> (i, Redis_allocator a, r, snd st))
            else (se_fallback se, No_allocator, st)) of
        (i, a, st') \<Rightarrow> (if 0 \<le> i \<and> i < int kMaxWorkers then Some (i, a) else None, st'))"

fun lease_lost :: "allocator \<Rightarrow> bool" where
  "lease_lost (Redis_allocator a) = wa_lease_lost a"
| "lease_lost (Etcd_allocator (Some el)) = (\<not> le_is_leader el)"
| "lease_lost (Etcd_allocator None) = False"
| "lease_lost No_allocator = False"

datatype process = Running allocator | Aborted

definition watchdog_round :: "process \<Rightarrow> process" where
  "watchdog_round p = (case p of Running a \<Rightarrow> if lease_lost a then Aborted else p | Aborted \<Rightarrow> Aborted)"

text \<open>A renewal of the slot that reaches Redis after another owner took it, then a round of the watchdog.\<close>

lemma taken_slot_stops_process:
  assumes "0 \<le> wa_allocated a" "wa_allocated a < int kMaxWorkers" "\<not> wa_lease_lost a"
    and "kv_get now (slot_key (wa_service a) (nat (wa_allocated a))) m \<noteq> Some (wa_owner a)"
  shows "watchdog_round (Running (Redis_allocator (fst (renew_tick True now a m)))) = Aborted"
  using assms by (simp add: renew_tick_def compare_and_expire_def watchdog_round_def)

lemma failed_renewal_keeps_running:
  assumes "\<not> wa_lease_lost a"
  shows "watchdog_round (Running (Redis_allocator (fst (renew_tick False now a m)))) = Running (Redis_allocator a)"
  using assms by (simp add: renew_tick_def watchdog_round_def)

text \<open>A leader that lost its lease is stopped after its fifth failed check, not before.\<close>

lemma lost_lease_stops_at_fifth_check:
  assumes "le_is_leader el" "le_failures el = 0" and "\<And>now. timetolive now (le_lease el) e \<le> 0"
  shows "watchdog_round (Running (Etcd_allocator (Some (hold_checks (replicate n (True, now)) el e)))) =
    (if n < kMaxTtlFailures then Running (Etcd_allocator (Some (hold_checks (replicate n (True, now)) el e))) else Aborted)"
proof -
  have tt: "\<not> 0 < timetolive t (le_lease el) e" for t using assms(3) [of t] by simp
  have "le_is_leader (hold_checks (replicate n (True, now)) el' e) = (le_failures el' + n < kMaxTtlFailures)"
    if "le_is_leader el'" "le_failures el' < kMaxTtlFailures" "le_lease el' = le_lease el" for el'
    using that
  proof (induction n arbitrary: el')
    case (Suc n)
    have stopped: "le_is_leader (hold_checks cs x e) = False" if "\<not> le_is_leader x" for cs x
      using that by (induction cs arbitrary: x) (auto simp: hold_check_def)
    show ?case
    proof (cases "Suc (le_failures el') \<ge> kMaxTtlFailures")
      case True
      then show ?thesis using Suc.prems stopped by (simp add: hold_check_def tt)
    next
      case False
      then show ?thesis
        using Suc.IH [of "el'\<lparr>le_failures := Suc (le_failures el')\<rparr>"] Suc.prems by (simp add: hold_check_def tt)
    qed
  qed simp
  from this [of el] assms(1,2) show ?thesis
    by (auto simp: watchdog_round_def kMaxTtlFailures_def)
qed

text \<open>Without Redis and etcd every instance gets the configured id.\<close>

lemma same_fallback_id:
  assumes "\<not> se_redis se" "\<not> se_redis se'" "\<not> se_etcd se" "\<not> se_etcd se'" "se_fallback se' = se_fallback se"
    and "fst (make_id_generator_object se st) = Some (i, a)"
  shows "fst (make_id_generator_object se' st') = Some (i, a)"
  using assms by (simp add: make_id_generator_object_def split: if_splits)

end
