(* ===== verification/Circuit_Breaker.thy ===== *)
theory Circuit_Breaker
  imports Cpp_Strings
begin

text \<open>
  The circuit breaker of the Redis client: common/utils/redis_circuit_breaker.hpp, and its use in
  common/dao/data_redis.hpp (\<open>RedisClient::guarded_\<close>, \<open>guarded_void_\<close>, \<open>pipeline\<close> and the class
  \<open>RedisPipeline\<close>). The operations are given once as the code composes them and once as the
  atomic steps of threads that interleave: a load or store of an atomic variable is a step, a
  section under the mutex is a step. The 64-bit generation counts openings, at most one a second,
  and is a natural number here. Metrics and log lines are left out.

  Shown: a thread that is not disturbed performs exactly the sequential operations; whatever the
  interleaving, a half-open breaker has exactly one trial call under way and a breaker that is not
  half-open has none; a pipeline settles its permit exactly once on every path; three failures in a
  row open the breaker, and after a second one call goes through and its result decides.
\<close>

section \<open>The breaker\<close>

datatype cb_state = CB_Closed | CB_Open | CB_HalfOpen
datatype cb_transition = CB_None | CB_Opened | CB_Recovered

record permit =
  pm_generation :: nat
  pm_probe :: bool

record breaker =
  cb_state :: cb_state
  cb_generation :: nat
  cb_failures :: nat
  cb_open_until_ms :: time

definition kFailureThreshold :: nat where "kFailureThreshold = 3"
definition kOpenForMs :: time where "kOpenForMs = 1000"

definition new_breaker :: breaker where
  "new_breaker = \<lparr>cb_state = CB_Closed, cb_generation = 0, cb_failures = 0, cb_open_until_ms = 0\<rparr>"

definition open_locked :: "time \<Rightarrow> breaker \<Rightarrow> cb_transition \<times> breaker" where
  "open_locked now b =
     (if cb_state b = CB_Open then (CB_None, b)
      else (CB_Opened, b\<lparr>cb_failures := 0, cb_open_until_ms := now + kOpenForMs, cb_state := CB_Open,
                         cb_generation := cb_generation b + 1\<rparr>))"

text \<open>The sections under the mutex; \<open>None\<close> stands for the exception \<open>RedisCircuitOpen\<close>.\<close>

definition before_call_locked :: "time \<Rightarrow> breaker \<Rightarrow> permit option \<times> breaker" where
  "before_call_locked now b =
     (if cb_state b = CB_Closed then (Some \<lparr>pm_generation = cb_generation b, pm_probe = False\<rparr>, b)
      else if cb_state b = CB_HalfOpen \<or> now < cb_open_until_ms b then (None, b)
      else (Some \<lparr>pm_generation = cb_generation b, pm_probe = True\<rparr>, b\<lparr>cb_state := CB_HalfOpen\<rparr>))"

definition on_success_locked :: "permit \<Rightarrow> cb_state \<Rightarrow> breaker \<Rightarrow> cb_transition \<times> breaker" where
  "on_success_locked p current b =
     (if pm_generation p \<noteq> cb_generation b then (CB_None, b)
      else if current = CB_HalfOpen \<and> pm_probe p then (CB_Recovered, b\<lparr>cb_failures := 0, cb_state := CB_Closed\<rparr>)
      else (CB_None, b))"

definition on_failure_locked :: "time \<Rightarrow> permit \<Rightarrow> breaker \<Rightarrow> cb_transition \<times> breaker" where
  "on_failure_locked now p b =
     (if pm_generation p \<noteq> cb_generation b then (CB_None, b)
      else if cb_state b = CB_HalfOpen \<and> pm_probe p then open_locked now b
      else if cb_state b \<noteq> CB_Closed \<or> pm_probe p then (CB_None, b)
      else if cb_failures b < kFailureThreshold then (CB_None, b)
      else open_locked now b)"

definition before_call :: "time \<Rightarrow> breaker \<Rightarrow> permit option \<times> breaker" where
  "before_call now b =
     (if cb_state b = CB_Closed then (Some \<lparr>pm_generation = cb_generation b, pm_probe = False\<rparr>, b)
      else before_call_locked now b)"

definition on_success :: "permit \<Rightarrow> breaker \<Rightarrow> cb_transition \<times> breaker" where
  "on_success p b =
     (if cb_state b = CB_Closed \<and> \<not> pm_probe p
      then (CB_None, if pm_generation p = cb_generation b then b\<lparr>cb_failures := 0\<rparr> else b)
      else on_success_locked p (cb_state b) b)"

definition on_connection_failure :: "time \<Rightarrow> permit \<Rightarrow> breaker \<Rightarrow> cb_transition \<times> breaker" where
  "on_connection_failure now p b =
     (if pm_generation p \<noteq> cb_generation b then (CB_None, b)
      else if cb_state b = CB_Closed \<and> \<not> pm_probe p then
        let b1 = b\<lparr>cb_failures := cb_failures b + 1\<rparr> in
        (if cb_failures b1 < kFailureThreshold then (CB_None, b1) else on_failure_locked now p b1)
      else on_failure_locked now p b)"

definition on_abandoned :: "time \<Rightarrow> permit \<Rightarrow> breaker \<Rightarrow> cb_transition \<times> breaker" where
  "on_abandoned now p b =
     (if pm_generation p \<noteq> cb_generation b \<or> \<not> pm_probe p \<or> cb_state b \<noteq> CB_HalfOpen then (CB_None, b)
      else open_locked now b)"

section \<open>Guarded calls\<close>

text \<open>
  The exceptions a call of redis-plus-plus can end with: the subclasses the code names, the base
  class with its message, and everything else. \<open>Redis_ok\<close> carries the result.
\<close>

datatype 'a redis_result =
    Redis_ok 'a
  | Redis_IoError
  | Redis_ClosedError
  | Redis_ReplyError string
  | Redis_Error string
  | Redis_other string
  | Redis_CircuitOpen

definition pool_prefix :: string where "pool_prefix = ''Failed to fetch a connection in ''"
definition pool_suffix :: string where "pool_suffix = '' milliseconds''"

definition is_redis_pool_wait_error :: "string \<Rightarrow> bool" where
  "is_redis_pool_wait_error message =
     (let n = length message; p = length pool_prefix; s = length pool_suffix in
      \<not> (n \<le> p + s \<or> take p message \<noteq> pool_prefix \<or> drop (n - s) message \<noteq> pool_suffix)
      \<and> list_all is_digit (take (n - p - s) (drop p message)))"

text \<open>How a call that had a permit is reported to the breaker.\<close>

definition settle :: "time \<Rightarrow> permit \<Rightarrow> 'a redis_result \<Rightarrow> breaker \<Rightarrow> breaker" where
  "settle now p r b =
     (case r of
        Redis_ok _ \<Rightarrow> snd (on_success p b)
      | Redis_IoError \<Rightarrow> snd (on_connection_failure now p b)
      | Redis_ClosedError \<Rightarrow> snd (on_connection_failure now p b)
      | Redis_ReplyError _ \<Rightarrow> snd (on_success p b)
      | Redis_Error m \<Rightarrow> if is_redis_pool_wait_error m then snd (on_connection_failure now p b) else snd (on_abandoned now p b)
      | Redis_other _ \<Rightarrow> snd (on_abandoned now p b)
      | Redis_CircuitOpen \<Rightarrow> snd (on_abandoned now p b))"

text \<open>\<open>r\<close> is what the call of the library gives when it is made; the call ends at \<open>now'\<close>.\<close>

definition guarded :: "time \<Rightarrow> time \<Rightarrow> 'a redis_result \<Rightarrow> breaker \<Rightarrow> 'a redis_result \<times> breaker" where
  "guarded now now' r b =
     (case before_call now b of
        (None, b1) \<Rightarrow> (Redis_CircuitOpen, b1)
      | (Some p, b1) \<Rightarrow> (r, settle now' p r b1))"

subsection \<open>Pipelines\<close>

record redis_pipeline =
  rp_permit :: permit
  rp_settled :: bool

definition open_pipeline :: "time \<Rightarrow> time \<Rightarrow> unit redis_result \<Rightarrow> breaker \<Rightarrow> (unit redis_result + redis_pipeline) \<times> breaker" where
  "open_pipeline now now' r b =
     (case before_call now b of
        (None, b1) \<Rightarrow> (Inl Redis_CircuitOpen, b1)
      | (Some p, b1) \<Rightarrow>
          (case r of Redis_ok _ \<Rightarrow> (Inr \<lparr>rp_permit = p, rp_settled = False\<rparr>, b1) | _ \<Rightarrow> (Inl r, settle now' p r b1)))"

definition pipeline_abandon :: "time \<Rightarrow> redis_pipeline \<times> breaker \<Rightarrow> redis_pipeline \<times> breaker" where
  "pipeline_abandon now = (\<lambda>(pl, b).
     if rp_settled pl then (pl, b) else (pl\<lparr>rp_settled := True\<rparr>, snd (on_abandoned now (rp_permit pl) b)))"

definition pipeline_failure :: "time \<Rightarrow> redis_pipeline \<times> breaker \<Rightarrow> redis_pipeline \<times> breaker" where
  "pipeline_failure now = (\<lambda>(pl, b).
     if rp_settled pl then (pl, b) else (pl\<lparr>rp_settled := True\<rparr>, snd (on_connection_failure now (rp_permit pl) b)))"

definition pipeline_success :: "redis_pipeline \<times> breaker \<Rightarrow> redis_pipeline \<times> breaker" where
  "pipeline_success = (\<lambda>(pl, b).
     if rp_settled pl then (pl, b) else (pl\<lparr>rp_settled := True\<rparr>, snd (on_success (rp_permit pl) b)))"

text \<open>\<open>queue_\<close> has no case for \<open>ReplyError\<close>: it falls to the base class.\<close>

definition pipeline_queue :: "time \<Rightarrow> unit redis_result \<Rightarrow> redis_pipeline \<times> breaker \<Rightarrow> unit redis_result \<times> redis_pipeline \<times> breaker" where
  "pipeline_queue now r pb =
     (if rp_settled (fst pb) then (Redis_other ''RedisPipeline command queued after settlement'', pb)
      else case r of
        Redis_ok _ \<Rightarrow> (r, pb)
      | Redis_IoError \<Rightarrow> (r, pipeline_failure now pb)
      | Redis_ClosedError \<Rightarrow> (r, pipeline_failure now pb)
      | Redis_ReplyError m \<Rightarrow> (r, pipeline_abandon now pb)
      | Redis_Error m \<Rightarrow> (r, if is_redis_pool_wait_error m then pipeline_failure now pb else pipeline_abandon now pb)
      | Redis_other _ \<Rightarrow> (r, pipeline_abandon now pb)
      | Redis_CircuitOpen \<Rightarrow> (r, pipeline_abandon now pb))"

definition pipeline_exec :: "time \<Rightarrow> 'a redis_result \<Rightarrow> redis_pipeline \<times> breaker \<Rightarrow> 'a redis_result \<times> redis_pipeline \<times> breaker" where
  "pipeline_exec now r pb =
     (if rp_settled (fst pb) then (Redis_other ''RedisPipeline::exec called more than once'', pb)
      else case r of
        Redis_ok _ \<Rightarrow> (r, pipeline_success pb)
      | Redis_IoError \<Rightarrow> (r, pipeline_failure now pb)
      | Redis_ClosedError \<Rightarrow> (r, pipeline_failure now pb)
      | Redis_ReplyError _ \<Rightarrow> (r, pipeline_success pb)
      | Redis_Error m \<Rightarrow> (r, if is_redis_pool_wait_error m then pipeline_failure now pb else pipeline_abandon now pb)
      | Redis_other _ \<Rightarrow> (r, pipeline_abandon now pb)
      | Redis_CircuitOpen \<Rightarrow> (r, pipeline_abandon now pb))"

section \<open>Threads\<close>

text \<open>Where a thread stands; what each step does is in \<open>thread_step\<close>.\<close>

datatype cb_phase =
    P_idle
  | P_loaded nat
  | P_before
  | P_call permit
  | P_success permit
  | P_success_gen permit
  | P_reset permit
  | P_success_lock permit cb_state
  | P_failure permit
  | P_failure_gen permit
  | P_count permit
  | P_failure_lock permit
  | P_abandon permit

datatype cb_report = Report_success | Report_failure | Report_abandoned

fun thread_step :: "time \<Rightarrow> cb_report \<Rightarrow> cb_phase \<Rightarrow> breaker \<Rightarrow> cb_phase \<times> breaker" where
  "thread_step now r P_idle b = (P_loaded (cb_generation b), b)"
| "thread_step now r (P_loaded g) b =
     (if cb_state b = CB_Closed then (P_call \<lparr>pm_generation = g, pm_probe = False\<rparr>, b) else (P_before, b))"
| "thread_step now r P_before b =
     (case before_call_locked now b of (None, b1) \<Rightarrow> (P_idle, b1) | (Some p, b1) \<Rightarrow> (P_call p, b1))"
| "thread_step now r (P_call p) b =
     ((case r of Report_success \<Rightarrow> P_success p | Report_failure \<Rightarrow> P_failure p | Report_abandoned \<Rightarrow> P_abandon p), b)"
| "thread_step now r (P_success p) b =
     (if cb_state b = CB_Closed \<and> \<not> pm_probe p then (P_success_gen p, b) else (P_success_lock p (cb_state b), b))"
| "thread_step now r (P_success_gen p) b = ((if pm_generation p = cb_generation b then P_reset p else P_idle), b)"
| "thread_step now r (P_reset p) b = (P_idle, b\<lparr>cb_failures := 0\<rparr>)"
| "thread_step now r (P_success_lock p current) b = (P_idle, snd (on_success_locked p current b))"
| "thread_step now r (P_failure p) b = ((if pm_generation p \<noteq> cb_generation b then P_idle else P_failure_gen p), b)"
| "thread_step now r (P_failure_gen p) b =
     ((if cb_state b = CB_Closed \<and> \<not> pm_probe p then P_count p else P_failure_lock p), b)"
| "thread_step now r (P_count p) b =
     (let b1 = b\<lparr>cb_failures := cb_failures b + 1\<rparr>
      in ((if cb_failures b1 < kFailureThreshold then P_idle else P_failure_lock p), b1))"
| "thread_step now r (P_failure_lock p) b = (P_idle, snd (on_failure_locked now p b))"
| "thread_step now r (P_abandon p) b = (P_idle, snd (on_abandoned now p b))"

text \<open>An interleaving: which thread moves, at what time, and what it reports if its call ends.\<close>

type_synonym cb_event = "nat \<times> time \<times> cb_report"

definition cb_move :: "cb_event \<Rightarrow> (nat \<Rightarrow> cb_phase) \<times> breaker \<Rightarrow> (nat \<Rightarrow> cb_phase) \<times> breaker" where
  "cb_move = (\<lambda>(i, now, r) (ph, b). case thread_step now r (ph i) b of (q, b1) \<Rightarrow> (ph(i := q), b1))"

definition cb_run :: "cb_event list \<Rightarrow> (nat \<Rightarrow> cb_phase) \<times> breaker" where
  "cb_run es = fold cb_move es (\<lambda>_. P_idle, new_breaker)"

section \<open>Undisturbed threads\<close>

text \<open>The steps of one thread by itself are the sequential operations.\<close>

fun alone :: "nat \<Rightarrow> time \<Rightarrow> cb_report \<Rightarrow> cb_phase \<times> breaker \<Rightarrow> cb_phase \<times> breaker" where
  "alone 0 now r c = c"
| "alone (Suc n) now r c = alone n now r (thread_step now r (fst c) (snd c))"

lemmas cb_defs = before_call_def before_call_locked_def on_success_def on_success_locked_def on_connection_failure_def
  on_failure_locked_def on_abandoned_def open_locked_def Let_def

lemma alone_before_call:
  "\<exists>n. alone n now r (P_idle, b) = (case before_call now b of (None, b1) \<Rightarrow> (P_idle, b1) | (Some p, b1) \<Rightarrow> (P_call p, b1))"
proof (cases "cb_state b = CB_Closed")
  case True
  then show ?thesis by (intro exI [of _ 2]) (simp add: before_call_def numeral_2_eq_2)
next
  case False
  then show ?thesis by (intro exI [of _ 3]) (simp add: before_call_def numeral_3_eq_3)
qed

lemma alone_on_success: "\<exists>n. alone n now r (P_success p, b) = (P_idle, snd (on_success p b))"
proof (cases "cb_state b = CB_Closed \<and> \<not> pm_probe p")
  case True
  then show ?thesis
    by (cases "pm_generation p = cb_generation b")
      (intro exI [of _ 3] exI [of _ 2]; simp add: on_success_def numeral_3_eq_3 numeral_2_eq_2)+
next
  case False
  then show ?thesis by (intro exI [of _ 2]) (auto simp: on_success_def numeral_2_eq_2)
qed

lemma alone_on_failure: "\<exists>n. alone n now r (P_failure p, b) = (P_idle, snd (on_connection_failure now p b))"
proof -
  consider (stale) "pm_generation p \<noteq> cb_generation b"
    | (counted) "pm_generation p = cb_generation b" "cb_state b = CB_Closed" "\<not> pm_probe p" "cb_failures b + 1 < kFailureThreshold"
    | (third) "pm_generation p = cb_generation b" "cb_state b = CB_Closed" "\<not> pm_probe p" "\<not> cb_failures b + 1 < kFailureThreshold"
    | (locked) "pm_generation p = cb_generation b" "cb_state b = CB_Closed \<longrightarrow> pm_probe p" by blast
  then show ?thesis
  proof cases
    case stale
    then show ?thesis by (intro exI [of _ 1]) (simp add: on_connection_failure_def)
  next
    case counted
    then show ?thesis by (intro exI [of _ 3]) (simp add: on_connection_failure_def numeral_3_eq_3 Let_def)
  next
    case third
    then show ?thesis by (intro exI [of _ 4]) (simp add: on_connection_failure_def eval_nat_numeral Let_def)
  next
    case locked
    then show ?thesis by (intro exI [of _ 3]) (auto simp: on_connection_failure_def numeral_3_eq_3 Let_def)
  qed
qed

section \<open>One trial call\<close>

fun carried :: "cb_phase \<Rightarrow> permit option" where
  "carried P_idle = None"
| "carried (P_loaded _) = None"
| "carried P_before = None"
| "carried (P_call p) = Some p"
| "carried (P_success p) = Some p"
| "carried (P_success_gen p) = Some p"
| "carried (P_reset p) = Some p"
| "carried (P_success_lock p _) = Some p"
| "carried (P_failure p) = Some p"
| "carried (P_failure_gen p) = Some p"
| "carried (P_count p) = Some p"
| "carried (P_failure_lock p) = Some p"
| "carried (P_abandon p) = Some p"

text \<open>A trial call under way: a probe permit of the current generation that has not been settled.\<close>

definition live_probe :: "breaker \<Rightarrow> cb_phase \<Rightarrow> bool" where
  "live_probe b q = (case carried q of None \<Rightarrow> False | Some p \<Rightarrow> pm_probe p \<and> pm_generation p = cb_generation b)"

fun phase_ok :: "breaker \<Rightarrow> cb_phase \<Rightarrow> bool" where
  "phase_ok b (P_loaded g) = (g \<le> cb_generation b)"
| "phase_ok b (P_success_gen p) = (pm_generation p \<le> cb_generation b \<and> \<not> pm_probe p)"
| "phase_ok b (P_reset p) = (pm_generation p \<le> cb_generation b \<and> \<not> pm_probe p)"
| "phase_ok b (P_count p) = (pm_generation p \<le> cb_generation b \<and> \<not> pm_probe p)"
| "phase_ok b (P_success_lock p current) =
     (pm_generation p \<le> cb_generation b \<and> (pm_probe p \<and> pm_generation p = cb_generation b \<longrightarrow> current = CB_HalfOpen))"
| "phase_ok b q = (case carried q of None \<Rightarrow> True | Some p \<Rightarrow> pm_generation p \<le> cb_generation b)"

definition cb_inv :: "(nat \<Rightarrow> cb_phase) \<times> breaker \<Rightarrow> bool" where
  "cb_inv c = ((\<forall>i. phase_ok (snd c) (fst c i))
     \<and> (\<exists>h. (cb_state (snd c) = CB_HalfOpen) = (h \<noteq> None) \<and> (\<forall>i. live_probe (snd c) (fst c i) = (h = Some i))))"

lemma live_bounded: "phase_ok b q \<Longrightarrow> cb_generation b' = cb_generation b + 1 \<Longrightarrow> \<not> live_probe b' q"
  by (cases q) (auto simp: live_probe_def)

lemma phase_ok_later: "phase_ok b q \<Longrightarrow> cb_generation b' = cb_generation b \<or> cb_generation b' = cb_generation b + 1 \<Longrightarrow> phase_ok b' q"
  by (cases q) auto

lemma live_same_generation: "cb_generation b' = cb_generation b \<Longrightarrow> live_probe b' q = live_probe b q"
  by (simp add: live_probe_def split: option.split)

text \<open>What a step can do to the breaker and to the trial call of its thread.\<close>

definition step_effect :: "breaker \<Rightarrow> cb_phase \<Rightarrow> breaker \<Rightarrow> cb_phase \<Rightarrow> bool" where
  "step_effect b q b' q' =
     (cb_state b' = cb_state b \<and> cb_generation b' = cb_generation b \<and> live_probe b' q' = live_probe b q
      \<or> cb_state b = CB_Open \<and> cb_state b' = CB_HalfOpen \<and> cb_generation b' = cb_generation b \<and> live_probe b' q'
      \<or> live_probe b q \<and> cb_state b' \<noteq> CB_HalfOpen \<and> \<not> live_probe b' q'
        \<and> (cb_generation b' = cb_generation b \<or> cb_generation b' = cb_generation b + 1)
      \<or> cb_state b' = CB_Open \<and> cb_generation b' = cb_generation b + 1 \<and> \<not> live_probe b' q')"

lemma live_probe_carried: "carried q = Some p \<Longrightarrow> live_probe b q = (pm_probe p \<and> pm_generation p = cb_generation b)"
  by (simp add: live_probe_def)

lemma not_live_idle [simp]: "\<not> live_probe b P_idle"
  by (simp add: live_probe_def)

text \<open>A section under the mutex that settles the trial call leaves the half-open state; without one it may only open.\<close>

lemma probe_lock_effect:
  assumes "live_probe b q \<longrightarrow> cb_state b = CB_HalfOpen" and "carried q = Some p"
  shows "step_effect b q (snd (on_failure_locked now p b)) P_idle" "step_effect b q (snd (on_abandoned now p b)) P_idle"
    and "(pm_probe p \<and> pm_generation p = cb_generation b \<longrightarrow> current = CB_HalfOpen) \<Longrightarrow>
      step_effect b q (snd (on_success_locked p current b)) P_idle"
proof -
  note live = live_probe_carried [OF assms(2), of b]
  consider "pm_generation p \<noteq> cb_generation b" | "pm_generation p = cb_generation b" "pm_probe p" "cb_state b = CB_HalfOpen"
    | "pm_generation p = cb_generation b" "\<not> pm_probe p"
    using assms(1) live by blast
  then have "step_effect b q (snd (on_failure_locked now p b)) P_idle \<and> step_effect b q (snd (on_abandoned now p b)) P_idle
      \<and> ((pm_probe p \<and> pm_generation p = cb_generation b \<longrightarrow> current = CB_HalfOpen) \<longrightarrow>
         step_effect b q (snd (on_success_locked p current b)) P_idle)"
    by cases (simp_all add: step_effect_def live on_failure_locked_def on_abandoned_def on_success_locked_def open_locked_def)
  then show "step_effect b q (snd (on_failure_locked now p b)) P_idle" "step_effect b q (snd (on_abandoned now p b)) P_idle"
    and "(pm_probe p \<and> pm_generation p = cb_generation b \<longrightarrow> current = CB_HalfOpen) \<Longrightarrow>
      step_effect b q (snd (on_success_locked p current b)) P_idle"
    by blast+
qed

lemma thread_step_effect:
  assumes "phase_ok b q" and "live_probe b q \<longrightarrow> cb_state b = CB_HalfOpen"
  shows "step_effect b q (snd (thread_step now r q b)) (fst (thread_step now r q b))"
proof (cases q)
  case P_before
  then show ?thesis by (auto simp: step_effect_def live_probe_def before_call_locked_def; cases "cb_state b"; simp)
next
  case (P_call p)
  then show ?thesis by (simp add: step_effect_def live_probe_def split: cb_report.split)
qed (use assms probe_lock_effect [OF assms(2)] in \<open>simp_all add: step_effect_def live_probe_def Let_def\<close>)

lemma thread_step_phase_ok:
  assumes "phase_ok b q" and "live_probe b q \<longrightarrow> cb_state b = CB_HalfOpen"
  shows "phase_ok (snd (thread_step now r q b)) (fst (thread_step now r q b))"
proof (cases q)
  case P_before
  then show ?thesis by (simp add: before_call_locked_def)
next
  case (P_call p)
  then show ?thesis using assms by (simp split: cb_report.split)
qed (use assms in \<open>simp_all add: live_probe_def Let_def\<close>)

lemma cb_move_inv:
  assumes "cb_inv c"
  shows "cb_inv (cb_move e c)"
proof -
  obtain i now r where e: "e = (i, now, r)" by (cases e)
  obtain ph b where c: "c = (ph, b)" by (cases c)
  obtain q' b' where st: "thread_step now r (ph i) b = (q', b')" by (cases "thread_step now r (ph i) b")
  have move: "cb_move e c = (ph(i := q'), b')" by (simp add: cb_move_def e c st)
  have ok: "phase_ok b (ph j)" for j using assms by (simp add: cb_inv_def c)
  obtain h where h: "(cb_state b = CB_HalfOpen) = (h \<noteq> None)" "\<And>j. live_probe b (ph j) = (h = Some j)"
    using assms by (auto simp: cb_inv_def c)
  have half: "live_probe b (ph i) \<longrightarrow> cb_state b = CB_HalfOpen" using h by simp
  have effect: "step_effect b (ph i) b' q'" using thread_step_effect [OF ok half, of now r] by (simp add: st)
  then have gen: "cb_generation b' = cb_generation b \<or> cb_generation b' = cb_generation b + 1"
    unfolding step_effect_def by blast
  have "phase_ok b' q'" using thread_step_phase_ok [OF ok half, of now r] by (simp add: st)
  then have ok': "phase_ok b' ((ph(i := q')) j)" for j using phase_ok_later [OF ok gen] by simp
  have other: "live_probe b' (ph j) \<Longrightarrow> live_probe b (ph j)" for j
    using gen live_same_generation live_bounded [OF ok] by blast
  consider (same) "cb_state b' = cb_state b" "cb_generation b' = cb_generation b" "live_probe b' q' = live_probe b (ph i)"
    | (trial) "cb_state b = CB_Open" "cb_state b' = CB_HalfOpen" "live_probe b' q'"
    | (settled) "live_probe b (ph i)" "cb_state b' \<noteq> CB_HalfOpen" "\<not> live_probe b' q'"
    | (opened) "cb_state b' = CB_Open" "cb_generation b' = cb_generation b + 1" "\<not> live_probe b' q'"
    using effect unfolding step_effect_def by blast
  then have "\<exists>h'. (cb_state b' = CB_HalfOpen) = (h' \<noteq> None) \<and> (\<forall>j. live_probe b' ((ph(i := q')) j) = (h' = Some j))"
  proof cases
    case same
    have "live_probe b' (ph j) = live_probe b (ph j)" for j using same(2) by (rule live_same_generation)
    then show ?thesis using h same by (intro exI [of _ h]) simp
  next
    case trial
    moreover have "\<not> live_probe b' (ph j)" for j using other [of j] h trial(1) by auto
    ultimately show ?thesis by (intro exI [of _ "Some i"]) simp
  next
    case settled
    moreover have "\<not> live_probe b' (ph j)" if "j \<noteq> i" for j
      using other [of j] h(2) [of i] h(2) [of j] settled(1) that by auto
    ultimately show ?thesis by (intro exI [of _ None]) simp
  next
    case opened
    then show ?thesis using live_bounded [OF ok] by (intro exI [of _ None]) simp
  qed
  with ok' show ?thesis by (simp add: cb_inv_def move)
qed

lemma cb_run_inv: "cb_inv (cb_run es)"
proof -
  have "cb_inv (fold cb_move es c)" if "cb_inv c" for c using that
    by (induction es arbitrary: c) (simp_all add: cb_move_inv)
  moreover have "cb_inv (\<lambda>_. P_idle, new_breaker)"
    by (auto simp: cb_inv_def live_probe_def new_breaker_def intro!: exI [of _ None])
  ultimately show ?thesis by (simp add: cb_run_def)
qed

text \<open>
  Claim C19. Whatever the interleaving of threads, times and results: while the breaker is half-open there is exactly
  one thread whose trial call has not been settled, and in the other states there is none. So a Redis that has just
  failed gets one trial call at a time, and a half-open breaker always has a call whose report takes it on.
\<close>

theorem half_open_has_one_trial_call:
  shows "if cb_state (snd (cb_run es)) = CB_HalfOpen
    then \<exists>!i. live_probe (snd (cb_run es)) (fst (cb_run es) i)
    else \<not> (\<exists>i. live_probe (snd (cb_run es)) (fst (cb_run es) i))"
  using cb_run_inv [of es] by (auto simp: cb_inv_def)

text \<open>The half-open state is reached: three failed calls, and a second later a call that has begun.\<close>

lemma half_open_reachable:
  "cb_state (snd (cb_run (replicate 19 (0, 0, Report_failure) @ replicate 3 (0, 2000, Report_success)))) = CB_HalfOpen"
  by code_simp

section \<open>Calls one after the other\<close>

lemma closed_success: "cb_state b = CB_Closed \<Longrightarrow> guarded now now' (Redis_ok x) b = (Redis_ok x, b\<lparr>cb_failures := 0\<rparr>)"
  by (simp add: guarded_def before_call_def settle_def on_success_def)

lemma closed_failure:
  "cb_state b = CB_Closed \<Longrightarrow> guarded now now' Redis_IoError b =
    (Redis_IoError, if cb_failures b + 1 < kFailureThreshold then b\<lparr>cb_failures := cb_failures b + 1\<rparr>
       else b\<lparr>cb_failures := 0, cb_open_until_ms := now' + kOpenForMs, cb_state := CB_Open, cb_generation := cb_generation b + 1\<rparr>)"
  by (simp add: guarded_def before_call_def settle_def on_connection_failure_def on_failure_locked_def open_locked_def Let_def)

lemma open_rejects: "cb_state b = CB_Open \<Longrightarrow> now < cb_open_until_ms b \<Longrightarrow> guarded now now' r b = (Redis_CircuitOpen, b)"
  by (simp add: guarded_def before_call_def before_call_locked_def)

lemma open_trial:
  assumes "cb_state b = CB_Open" and "cb_open_until_ms b \<le> now"
  shows "guarded now now' (Redis_ok x) b = (Redis_ok x, b\<lparr>cb_failures := 0, cb_state := CB_Closed\<rparr>)"
    and "guarded now now' Redis_IoError b =
      (Redis_IoError, b\<lparr>cb_failures := 0, cb_open_until_ms := now' + kOpenForMs, cb_state := CB_Open, cb_generation := cb_generation b + 1\<rparr>)"
  using assms
  by (simp_all add: guarded_def before_call_def before_call_locked_def settle_def on_success_def on_success_locked_def
      on_connection_failure_def on_failure_locked_def open_locked_def)

text \<open>
  Three connection failures in a row open the breaker for a second: calls in between are rejected without reaching
  Redis, the first call after it is tried, and its success closes the breaker.
\<close>

lemma breaker_opens_and_recovers:
  assumes "cb_state b = CB_Closed" and "cb_failures b = 0"
    and "b3 = snd (guarded t3 t3' Redis_IoError (snd (guarded t2 t2' Redis_IoError (snd (guarded t1 t1' Redis_IoError b)))))"
  shows "t < t3' + 1000 \<Longrightarrow> guarded t t' r b3 = (Redis_CircuitOpen, b3)"
    and "t3' + 1000 \<le> t \<Longrightarrow> fst (guarded t t' (Redis_ok x) b3) = Redis_ok x \<and> cb_state (snd (guarded t t' (Redis_ok x) b3)) = CB_Closed"
proof -
  have b3: "cb_state b3 = CB_Open" "cb_open_until_ms b3 = t3' + 1000"
    using assms by (simp_all add: closed_failure kFailureThreshold_def kOpenForMs_def)
  show "t < t3' + 1000 \<Longrightarrow> guarded t t' r b3 = (Redis_CircuitOpen, b3)" using b3 by (simp add: open_rejects)
  show "t3' + 1000 \<le> t \<Longrightarrow> fst (guarded t t' (Redis_ok x) b3) = Redis_ok x \<and> cb_state (snd (guarded t t' (Redis_ok x) b3)) = CB_Closed"
    using b3 by (simp add: open_trial)
qed

section \<open>A pipeline settles once\<close>

lemma pipeline_settle_once:
  assumes "rp_settled (fst pb)"
  shows "pipeline_abandon now pb = pb" "snd (pipeline_queue now r pb) = pb" "snd (pipeline_exec now r' pb) = pb"
  using assms by (cases pb; simp add: pipeline_abandon_def pipeline_queue_def pipeline_exec_def)+

lemma pipeline_exec_settles: "rp_settled (fst (snd (pipeline_exec now r pb)))"
  by (cases pb; cases r) (simp_all add: pipeline_exec_def pipeline_success_def pipeline_failure_def pipeline_abandon_def)

lemma pipeline_destructor_settles: "rp_settled (fst (pipeline_abandon now pb))"
  by (cases pb) (simp add: pipeline_abandon_def)

lemma pipeline_exec_reports:
  "\<not> rp_settled pl \<Longrightarrow> snd (snd (pipeline_exec now r (pl, b))) = settle now (rp_permit pl) r b"
  by (cases r) (simp_all add: pipeline_exec_def settle_def pipeline_success_def pipeline_failure_def pipeline_abandon_def)

end
