(* ===== verification/Single_Flight.thy ===== *)
theory Single_Flight
  imports Prelude
begin

text \<open>
  The in-flight registry of common/utils/inflight.hpp: a mutex per key, kept as long as a guard on
  the key exists, so that of the threads that miss a cache only one fetches. \<open>acquire\<close> and
  \<open>release\<close> run under the mutex of the registry and are one step each. The clients
  (\<open>resolve_members\<close> of the transmite service and the route lookup of the push service) take a
  guard, lock its mutex, unlock it and drop the guard, in this order on every path.

  Shown: the reference count of a key is the number of its guards, guards of a key share one mutex,
  and two threads are never inside for the same key.
\<close>

record inflight =
  if_entries :: "string \<Rightarrow> (nat \<times> nat) option"  \<comment> \<open>the mutex and its references\<close>
  if_next :: nat  \<comment> \<open>the next mutex object\<close>

definition InflightRegistry_acquire :: "string \<Rightarrow> inflight \<Rightarrow> nat \<times> inflight" where
  "InflightRegistry_acquire k r =
     (case if_entries r k of
        None \<Rightarrow> (if_next r, r\<lparr>if_entries := (if_entries r)(k \<mapsto> (if_next r, 1)), if_next := Suc (if_next r)\<rparr>)
      | Some (mu, refs) \<Rightarrow> (mu, r\<lparr>if_entries := (if_entries r)(k \<mapsto> (mu, refs + 1))\<rparr>))"

definition InflightRegistry_release :: "string \<Rightarrow> inflight \<Rightarrow> inflight" where
  "InflightRegistry_release k r =
     (case if_entries r k of
        None \<Rightarrow> r
      | Some (mu, refs) \<Rightarrow>
          if refs > 1 then r\<lparr>if_entries := (if_entries r)(k \<mapsto> (mu, refs - 1))\<rparr>
          else r\<lparr>if_entries := (if_entries r)(k := None)\<rparr>)"

section \<open>Threads\<close>

datatype flight = Out | Guarded string nat | Inside string nat | Leaving string nat

record flights =
  fl_thread :: "nat \<Rightarrow> flight"
  fl_registry :: inflight
  fl_locked :: "nat \<Rightarrow> bool"

text \<open>A step of thread \<open>i\<close>; a thread that is out starts with key \<open>k\<close>, one that waits for a mutex stays.\<close>

definition flight_step :: "nat \<times> string \<Rightarrow> flights \<Rightarrow> flights" where
  "flight_step = (\<lambda>(i, k) s.
     case fl_thread s i of
       Out \<Rightarrow> (case InflightRegistry_acquire k (fl_registry s) of
                 (mu, r) \<Rightarrow> s\<lparr>fl_thread := (fl_thread s)(i := Guarded k mu), fl_registry := r\<rparr>)
     | Guarded k' mu \<Rightarrow>
         if fl_locked s mu then s
         else s\<lparr>fl_thread := (fl_thread s)(i := Inside k' mu), fl_locked := (fl_locked s)(mu := True)\<rparr>
     | Inside k' mu \<Rightarrow> s\<lparr>fl_thread := (fl_thread s)(i := Leaving k' mu), fl_locked := (fl_locked s)(mu := False)\<rparr>
     | Leaving k' mu \<Rightarrow>
         s\<lparr>fl_thread := (fl_thread s)(i := Out), fl_registry := InflightRegistry_release k' (fl_registry s)\<rparr>)"

definition no_flights :: flights where
  "no_flights = \<lparr>fl_thread = \<lambda>_. Out, fl_registry = \<lparr>if_entries = \<lambda>_. None, if_next = 0\<rparr>, fl_locked = \<lambda>_. False\<rparr>"

definition flights_run :: "(nat \<times> string) list \<Rightarrow> flights" where
  "flights_run es = fold flight_step es no_flights"

section \<open>The invariant\<close>

fun guard_of :: "flight \<Rightarrow> (string \<times> nat) option" where
  "guard_of Out = None"
| "guard_of (Guarded k mu) = Some (k, mu)"
| "guard_of (Inside k mu) = Some (k, mu)"
| "guard_of (Leaving k mu) = Some (k, mu)"

fun inside :: "flight \<Rightarrow> nat option" where
  "inside (Inside k mu) = Some mu"
| "inside _ = None"

definition guards :: "string \<Rightarrow> (nat \<Rightarrow> flight) \<Rightarrow> nat set" where
  "guards k th = {i. \<exists>mu. guard_of (th i) = Some (k, mu)}"

definition registry_ok :: "(nat \<Rightarrow> flight) \<Rightarrow> inflight \<Rightarrow> bool" where
  "registry_ok th r =
     ((\<forall>i k mu. guard_of (th i) = Some (k, mu) \<longrightarrow> (\<exists>n. if_entries r k = Some (mu, n)))
      \<and> (\<forall>k mu n. if_entries r k = Some (mu, n) \<longrightarrow> 0 < n \<and> n = card (guards k th) \<and> finite (guards k th)))"

definition locks_ok :: "(nat \<Rightarrow> flight) \<Rightarrow> (nat \<Rightarrow> bool) \<Rightarrow> bool" where
  "locks_ok th lk = ((\<forall>mu. lk mu = (\<exists>i. inside (th i) = Some mu))
     \<and> (\<forall>i j mu. inside (th i) = Some mu \<longrightarrow> inside (th j) = Some mu \<longrightarrow> i = j))"

lemma registry_ok_same_guard:
  assumes "registry_ok th r" and "guard_of p = guard_of (th i)"
  shows "registry_ok (th(i := p)) r"
proof -
  have "guards k (th(i := p)) = guards k th" for k using assms(2) by (auto simp: guards_def)
  then show ?thesis using assms by (simp add: registry_ok_def)
qed

text \<open>Two ways to re-establish the invariant: for the key that changes, and for the others.\<close>

lemma registry_okI:
  assumes "registry_ok th r" and "\<And>k'. k' \<noteq> k \<Longrightarrow> if_entries r' k' = if_entries r k'"
    and "\<And>k' mu'. k' \<noteq> k \<Longrightarrow> guard_of (th i) \<noteq> Some (k', mu')" and "\<And>k' mu'. k' \<noteq> k \<Longrightarrow> guard_of p \<noteq> Some (k', mu')"
    and "\<And>j mu'. guard_of ((th(i := p)) j) = Some (k, mu') \<Longrightarrow> \<exists>n. if_entries r' k = Some (mu', n)"
    and "\<And>mu' n. if_entries r' k = Some (mu', n) \<Longrightarrow> 0 < n \<and> n = card (guards k (th(i := p))) \<and> finite (guards k (th(i := p)))"
  shows "registry_ok (th(i := p)) r'"
proof -
  have g: "guards k' (th(i := p)) = guards k' th" if "k' \<noteq> k" for k' using assms(3,4) [OF that] by (auto simp: guards_def)
  have "\<exists>n. if_entries r' k' = Some (mu', n)" if "guard_of ((th(i := p)) j) = Some (k', mu')" for j k' mu'
  proof (cases "k' = k")
    case False
    then have "guard_of (th j) = Some (k', mu')" using that assms(4) by (cases "j = i") auto
    then show ?thesis using assms(1) assms(2) [OF False] unfolding registry_ok_def by auto
  qed (use that assms(5) in blast)
  moreover have "0 < n \<and> n = card (guards k' (th(i := p))) \<and> finite (guards k' (th(i := p)))"
    if "if_entries r' k' = Some (mu', n)" for k' mu' n
  proof (cases "k' = k")
    case False
    then show ?thesis using that assms(1) assms(2) [OF False] unfolding registry_ok_def g [OF False] by auto
  qed (use that assms(6) in blast)
  ultimately show ?thesis unfolding registry_ok_def by blast
qed

lemma registry_entry:
  assumes "registry_ok th r" and "if_entries r k = Some (mu, n)"
  shows "0 < n" "n = card (guards k th)" "finite (guards k th)" "guard_of (th j) = Some (k, mu') \<Longrightarrow> mu' = mu"
  using assms unfolding registry_ok_def by (auto, metis option.inject prod.inject)

lemma registry_ok_acquire:
  assumes "registry_ok th r" and "th i = Out" and "InflightRegistry_acquire k r = (mu, r')"
  shows "registry_ok (th(i := Guarded k mu)) r'"
proof (cases "if_entries r k")
  case None
  then have r': "if_entries r' = (if_entries r)(k \<mapsto> (mu, 1))" using assms(3) by (auto simp: InflightRegistry_acquire_def)
  have no: "guard_of (th j) \<noteq> Some (k, mu')" for j mu' using assms(1) None unfolding registry_ok_def by fastforce
  then have "guards k (th(i := Guarded k mu)) = {i}" by (auto simp: guards_def)
  then show ?thesis using assms(1,2) no by (intro registry_okI [where r = r]) (auto simp: r' split: if_splits)
next
  case (Some e)
  then obtain n where n: "if_entries r k = Some (mu, n)" "r' = r\<lparr>if_entries := (if_entries r)(k \<mapsto> (mu, n + 1))\<rparr>"
    using assms(3) by (cases e) (auto simp: InflightRegistry_acquire_def)
  have "i \<notin> guards k th" "guards k (th(i := Guarded k mu)) = insert i (guards k th)" using assms(2) by (auto simp: guards_def)
  then show ?thesis using assms(1,2) registry_entry [OF assms(1) n(1)]
    by (intro registry_okI [where r = r]) (auto simp: n(2) split: if_splits)
qed

lemma registry_ok_release:
  assumes "registry_ok th r" and g: "guard_of (th i) = Some (k, mu)"
  shows "registry_ok (th(i := Out)) (InflightRegistry_release k r)"
proof -
  obtain n where n: "if_entries r k = Some (mu, n)" using assms unfolding registry_ok_def by blast
  note e = registry_entry [OF assms(1) n]
  have i: "i \<in> guards k th" "guards k (th(i := Out)) = guards k th - {i}" using g by (auto simp: guards_def)
  show ?thesis
  proof (cases "n > 1")
    case True
    then have rel: "if_entries (InflightRegistry_release k r) = (if_entries r)(k \<mapsto> (mu, n - 1))"
      by (simp add: InflightRegistry_release_def n)
    have "card (guards k (th(i := Out))) = n - 1" "finite (guards k (th(i := Out)))"
      using e(2,3) i by (simp_all add: card_Diff_singleton)
    note c = this
    show ?thesis
    proof (rule registry_okI [where r = r and k = k])
      fix j mu' assume "guard_of ((th(i := Out)) j) = Some (k, mu')"
      then have "mu' = mu" using e(4) [of j mu'] by (cases "j = i") auto
      then show "\<exists>n. if_entries (InflightRegistry_release k r) k = Some (mu', n)" by (simp add: rel)
    next
      fix mu' n' assume "if_entries (InflightRegistry_release k r) k = Some (mu', n')"
      then have "n' = n - 1" by (simp add: rel)
      then show "0 < n' \<and> n' = card (guards k (th(i := Out))) \<and> finite (guards k (th(i := Out)))" using c True by simp
    qed (use assms in \<open>simp_all add: rel\<close>)
  next
    case False
    then have "card (guards k th) = 1" using e(1,2) by simp
    then have "guards k th = {i}" using i(1) by (metis card_1_singletonE singletonD)
    then have "\<And>j mu'. j \<noteq> i \<Longrightarrow> guard_of (th j) \<noteq> Some (k, mu')" by (auto simp: guards_def)
    then show ?thesis using assms n False
      by (intro registry_okI [where r = r]) (auto simp: InflightRegistry_release_def split: if_splits)
  qed
qed

lemma locks_ok_same: "locks_ok th lk \<Longrightarrow> inside p = inside (th i) \<Longrightarrow> locks_ok (th(i := p)) lk"
  by (auto simp: locks_ok_def)

lemma locks_ok_lock:
  assumes "locks_ok th lk" and "\<not> lk mu" and "inside (th i) = None"
  shows "locks_ok (th(i := Inside k mu)) (lk(mu := True))"
proof -
  have "inside ((th(i := Inside k mu)) j) = Some m \<longleftrightarrow> (if m = mu then j = i else inside (th j) = Some m)" for j m
    using assms unfolding locks_ok_def by auto
  then show ?thesis using assms(1) unfolding locks_ok_def by auto
qed

lemma locks_ok_unlock:
  assumes "locks_ok th lk" and "inside (th i) = Some mu" and "inside p = None"
  shows "locks_ok (th(i := p)) (lk(mu := False))"
proof -
  have "inside ((th(i := p)) j) = Some m \<longleftrightarrow> m \<noteq> mu \<and> inside (th j) = Some m" for j m
    using assms unfolding locks_ok_def by auto
  then show ?thesis using assms(1) unfolding locks_ok_def by auto
qed

lemma flight_step_inv:
  assumes "registry_ok (fl_thread s) (fl_registry s) \<and> locks_ok (fl_thread s) (fl_locked s)"
  shows "registry_ok (fl_thread (flight_step e s)) (fl_registry (flight_step e s))
    \<and> locks_ok (fl_thread (flight_step e s)) (fl_locked (flight_step e s))"
proof -
  obtain i k where e: "e = (i, k)" by (cases e)
  show ?thesis
  proof (cases "fl_thread s i")
    case Out
    obtain mu r where "InflightRegistry_acquire k (fl_registry s) = (mu, r)" by fastforce
    then show ?thesis using assms Out registry_ok_acquire [of "fl_thread s" _ i] locks_ok_same
      by (auto simp: flight_step_def e)
  next
    case (Guarded k' mu)
    then show ?thesis using assms registry_ok_same_guard [of "fl_thread s" _ _ i] locks_ok_lock [of "fl_thread s" _ mu i]
      by (auto simp: flight_step_def e)
  next
    case (Inside k' mu)
    then show ?thesis using assms registry_ok_same_guard [of "fl_thread s" _ _ i] locks_ok_unlock [of "fl_thread s" _ i mu]
      by (auto simp: flight_step_def e)
  next
    case (Leaving k' mu)
    then show ?thesis using assms registry_ok_release [of "fl_thread s" _ i k' mu] locks_ok_same [of "fl_thread s" _ Out i]
      by (auto simp: flight_step_def e)
  qed
qed

lemma flights_run_inv:
  "registry_ok (fl_thread (flights_run es)) (fl_registry (flights_run es)) \<and> locks_ok (fl_thread (flights_run es)) (fl_locked (flights_run es))"
proof -
  have "registry_ok (fl_thread (fold flight_step es s)) (fl_registry (fold flight_step es s))
      \<and> locks_ok (fl_thread (fold flight_step es s)) (fl_locked (fold flight_step es s))"
    if "registry_ok (fl_thread s) (fl_registry s) \<and> locks_ok (fl_thread s) (fl_locked s)" for s
    using that by (induction es arbitrary: s) (simp_all add: flight_step_inv)
  note keeps = this
  show ?thesis unfolding flights_run_def
    by (rule keeps) (simp add: no_flights_def registry_ok_def locks_ok_def)
qed

text \<open>
  Claim C20. Single flight: whatever the interleaving, two threads that hold the lock of their guard have different keys, and
  a key has an entry exactly while some thread has a guard on it, so the registry does not grow with use.
\<close>

theorem single_flight_per_key:
  assumes "fl_thread (flights_run es) i = Inside k mu" and "fl_thread (flights_run es) j = Inside k mu'"
  shows "i = j \<and> (if_entries (fl_registry (flights_run es)) k' \<noteq> None \<longleftrightarrow> guards k' (fl_thread (flights_run es)) \<noteq> {})"
proof -
  let ?th = "fl_thread (flights_run es)" and ?r = "fl_registry (flights_run es)"
  have reg: "registry_ok ?th ?r" and lk: "locks_ok ?th (fl_locked (flights_run es))" using flights_run_inv by auto
  have "if_entries ?r k' \<noteq> None \<longleftrightarrow> guards k' ?th \<noteq> {}"
  proof
    assume "if_entries ?r k' \<noteq> None"
    then obtain m n where "if_entries ?r k' = Some (m, n)" by auto
    from registry_entry(1,2) [OF reg this] show "guards k' ?th \<noteq> {}" by auto
  next
    assume "guards k' ?th \<noteq> {}"
    then show "if_entries ?r k' \<noteq> None" using reg unfolding registry_ok_def guards_def by fastforce
  qed
  moreover have "mu = mu'" using reg assms unfolding registry_ok_def by (metis guard_of.simps(3) option.inject prod.inject)
  ultimately show ?thesis using lk assms unfolding locks_ok_def by (metis inside.simps(1))
qed

text \<open>Threads 0 and 1 want the same key, thread 2 another: 0 and 2 are inside, 1 waits.\<close>

theorem single_flight_per_key_witness:
  "fl_thread (flights_run [(0, ''a''), (1, ''a''), (2, ''b''), (0, []), (1, []), (2, [])]) 0 = Inside ''a'' 0
   \<and> fl_thread (flights_run [(0, ''a''), (1, ''a''), (2, ''b''), (0, []), (1, []), (2, [])]) 1 = Guarded ''a'' 0
   \<and> (if_entries (fl_registry (flights_run [(0, ''a''), (1, ''a''), (2, ''b''), (0, []), (1, []), (2, [])])) ''c'' \<noteq> None
      \<longleftrightarrow> guards ''c'' (fl_thread (flights_run [(0, ''a''), (1, ''a''), (2, ''b''), (0, []), (1, []), (2, [])])) \<noteq> {})"
proof -
  let ?es = "[(0, ''a''), (1, ''a''), (2, ''b''), (0, []), (1, []), (2, [])]"
  have 0: "fl_thread (flights_run ?es) 0 = Inside ''a'' 0" and 1: "fl_thread (flights_run ?es) 1 = Guarded ''a'' 0" by code_simp+
  show ?thesis using single_flight_per_key [OF 0 0, of "''c''"] 0 1 by blast
qed

end
