(* ===== verification/Logging.thy ===== *)
theory Logging
  imports Cpp_Strings
begin

text \<open>
  Structured log lines and trace ids: common/infra/log_json.hpp, common/log/log_context.hpp and
  common/mq/trace_headers.hpp. The context of a request is kept per bthread; the timestamp of a line
  is an argument. Messages contain text from clients, so what matters is that no text can end its
  string, add a field or start a new line: a reader that follows the JSON grammar gets back exactly
  the fields that were logged, and a line contains no control character.
\<close>

section \<open>Escaping\<close>

definition hex_digit_char :: "nat \<Rightarrow> char" where
  "hex_digit_char d = (if d < 10 then char_of (48 + d) else char_of (87 + d))"

definition escape_char :: "char \<Rightarrow> string" where
  "escape_char c =
     (let n = (of_char c :: nat) in
      if n = 34 then [CHR 0x5C, CHR 0x22]
      else if n = 92 then [CHR 0x5C, CHR 0x5C]
      else if n = 8 then [CHR 0x5C, CHR ''b'']
      else if n = 12 then [CHR 0x5C, CHR ''f'']
      else if n = 10 then [CHR 0x5C, CHR ''n'']
      else if n = 13 then [CHR 0x5C, CHR ''r'']
      else if n = 9 then [CHR 0x5C, CHR ''t'']
      else if n < 32 then [CHR 0x5C, CHR ''u'', CHR ''0'', CHR ''0'', hex_digit_char (n div 16), hex_digit_char (n mod 16)]
      else [c])"

definition escape_json :: "string \<Rightarrow> string" where
  "escape_json s = concat (map escape_char s)"

section \<open>The log context\<close>

record log_fields =
  lf_trace_id :: string
  lf_user_id :: string
  lf_device_id :: string

definition empty_log_fields :: log_fields where
  "empty_log_fields = \<lparr>lf_trace_id = [], lf_user_id = [], lf_device_id = []\<rparr>"

text \<open>The slots of the bthreads.\<close>

type_synonym log_slots = "nat \<Rightarrow> log_fields option"

definition LogContext_set :: "nat \<Rightarrow> string \<Rightarrow> string \<Rightarrow> string \<Rightarrow> log_slots \<Rightarrow> log_slots" where
  "LogContext_set b trace uid dev m = m(b \<mapsto> \<lparr>lf_trace_id = trace, lf_user_id = uid, lf_device_id = dev\<rparr>)"

definition LogContext_clear :: "nat \<Rightarrow> log_slots \<Rightarrow> log_slots" where
  "LogContext_clear b m = (case m b of None \<Rightarrow> m | Some _ \<Rightarrow> m(b \<mapsto> empty_log_fields))"

definition LogContext_current :: "nat \<Rightarrow> log_slots \<Rightarrow> log_fields" where
  "LogContext_current b m = (case m b of None \<Rightarrow> empty_log_fields | Some f \<Rightarrow> f)"

definition format_prefix :: "nat \<Rightarrow> log_slots \<Rightarrow> string" where
  "format_prefix b m =
     (let f = LogContext_current b m in
      if lf_trace_id f = [] \<and> lf_user_id f = [] \<and> lf_device_id f = [] then []
      else
        let o1 = (if lf_trace_id f \<noteq> [] then ''[trace='' @ lf_trace_id f else ''['');
            s1 = (lf_trace_id f \<noteq> []);
            o2 = (if lf_user_id f \<noteq> [] then o1 @ (if s1 then '' '' else []) @ ''user='' @ lf_user_id f else o1);
            s2 = (s1 \<or> lf_user_id f \<noteq> []);
            o3 = (if lf_device_id f \<noteq> [] then o2 @ (if s2 then '' '' else []) @ ''device='' @ lf_device_id f else o2)
        in o3 @ ''] '')"

text \<open>Trace ids on the message queue.\<close>

definition mq_inject_trace_headers :: "nat \<Rightarrow> log_slots \<Rightarrow> (string \<rightharpoonup> string) \<Rightarrow> (string \<rightharpoonup> string)" where
  "mq_inject_trace_headers b m headers =
     (let trace = lf_trace_id (LogContext_current b m) in if trace \<noteq> [] then headers(''trace_id'' \<mapsto> trace) else headers)"

definition mq_extract_trace_id :: "(string \<rightharpoonup> string) \<Rightarrow> string" where
  "mq_extract_trace_id headers = (case headers ''trace_id'' of None \<Rightarrow> [] | Some v \<Rightarrow> v)"

section \<open>A line\<close>

definition quoted :: "string \<Rightarrow> string" where
  "quoted s = CHR 0x22 # escape_json s @ [CHR 0x22]"

fun field_list :: "bool \<Rightarrow> (string \<times> string) list \<Rightarrow> string" where
  "field_list first [] = []"
| "field_list first ((k, v) # fs) = (if first then [] else '','') @ quoted k @ '':'' @ quoted v @ field_list False fs"

definition build_log_line :: "string \<Rightarrow> string \<Rightarrow> log_fields \<Rightarrow> string \<Rightarrow> string \<Rightarrow> (string \<times> string) list \<Rightarrow> string" where
  "build_log_line ts service ctx level msg fds =
     CHR ''{'' # quoted ''ts'' @ '':'' @ CHR 0x22 # ts @ [CHR 0x22]
     @ '','' @ quoted ''level'' @ '':'' @ quoted level
     @ '','' @ quoted ''service'' @ '':'' @ quoted service
     @ '','' @ quoted ''trace_id'' @ '':'' @ quoted (lf_trace_id ctx)
     @ '','' @ quoted ''user_id'' @ '':'' @ quoted (lf_user_id ctx)
     @ '','' @ quoted ''device_id'' @ '':'' @ quoted (lf_device_id ctx)
     @ '','' @ quoted ''msg'' @ '':'' @ quoted msg
     @ '','' @ quoted ''fields'' @ '':'' @ CHR ''{'' # field_list True fds @ ''}}''"

section \<open>A reader of JSON\<close>

text \<open>The part of the grammar of RFC 8259 a line uses: strings and objects.\<close>

definition hex_value :: "char \<Rightarrow> nat option" where
  "hex_value c =
     (let n = (of_char c :: nat) in
      if 48 \<le> n \<and> n \<le> 57 then Some (n - 48) else if 97 \<le> n \<and> n \<le> 102 then Some (n - 87) else None)"

fun unescape_one :: "char \<Rightarrow> char option" where
  "unescape_one c =
     (let n = (of_char c :: nat) in
      if n = 34 then Some (char_of (34 :: nat)) else if n = 92 then Some (char_of (92 :: nat)) else if c = CHR ''b'' then Some (char_of (8 :: nat))
      else if c = CHR ''f'' then Some (char_of (12 :: nat)) else if c = CHR ''n'' then Some (char_of (10 :: nat))
      else if c = CHR ''r'' then Some (char_of (13 :: nat)) else if c = CHR ''t'' then Some (char_of (9 :: nat)) else None)"

fun unescape_u :: "string \<Rightarrow> char option" where
  "unescape_u [a, b, c, d] =
     (case (hex_value a, hex_value b, hex_value c, hex_value d) of
        (Some 0, Some 0, Some x, Some y) \<Rightarrow> Some (char_of (16 * x + y))
      | _ \<Rightarrow> None)"
| "unescape_u _ = None"

text \<open>The characters up to the closing quote, and the rest.\<close>

function read_chars :: "string \<Rightarrow> (string \<times> string) option" where
  "read_chars s =
     (case s of
        [] \<Rightarrow> None
      | c # r \<Rightarrow>
          if (of_char c :: nat) = 34 then Some ([], r)
          else if (of_char c :: nat) < 32 then None
          else if (of_char c :: nat) = 92 then
            (case r of
               [] \<Rightarrow> None
             | d # r1 \<Rightarrow>
                 if d = CHR ''u'' then
                   (case unescape_u (take 4 r1) of
                      None \<Rightarrow> None
                    | Some x \<Rightarrow> map_option (\<lambda>(t, r2). (x # t, r2)) (read_chars (drop 4 r1)))
                 else (case unescape_one d of
                         None \<Rightarrow> None
                       | Some x \<Rightarrow> map_option (\<lambda>(t, r2). (x # t, r2)) (read_chars r1)))
          else map_option (\<lambda>(t, r2). (c # t, r2)) (read_chars r))"
  by pat_completeness auto
termination by (relation "measure length") auto

declare read_chars.simps [simp del]

definition read_string :: "string \<Rightarrow> (string \<times> string) option" where
  "read_string s = (case s of c # r \<Rightarrow> if c = CHR 0x22 then read_chars r else None | [] \<Rightarrow> None)"

text \<open>Members with string values up to the closing brace.\<close>

definition read_member :: "string \<Rightarrow> ((string \<times> string) \<times> string) option" where
  "read_member s =
     (case read_string s of
        Some (k, c # r) \<Rightarrow> if c = CHR '':'' then map_option (\<lambda>(v, r1). ((k, v), r1)) (read_string r) else None
      | _ \<Rightarrow> None)"

fun read_members :: "nat \<Rightarrow> string \<Rightarrow> ((string \<times> string) list \<times> string) option" where
  "read_members 0 s = None"
| "read_members (Suc n) s =
     (case read_member s of
        Some (m, c # r) \<Rightarrow>
          if c = CHR '','' then map_option (\<lambda>(ms, r1). (m # ms, r1)) (read_members n r)
          else if c = CHR ''}'' then Some ([m], r) else None
      | _ \<Rightarrow> None)"

datatype log_item = Log_text string | Log_object "(string \<times> string) list"

text \<open>A member whose value is a string or an object of strings; a whole line is an object of such members.\<close>

definition read_item :: "string \<Rightarrow> ((string \<times> log_item) \<times> string) option" where
  "read_item s =
     (case read_string s of
        Some (k, c # d # r) \<Rightarrow>
          if c \<noteq> CHR '':'' then None
          else if d = CHR 0x22 then map_option (\<lambda>(v, r1). ((k, Log_text v), r1)) (read_string (d # r))
          else if d \<noteq> CHR ''{'' then None
          else (case r of
                  CHR ''}'' # r1 \<Rightarrow> Some ((k, Log_object []), r1)
                | _ \<Rightarrow> map_option (\<lambda>(ms, r1). ((k, Log_object ms), r1)) (read_members (length r) r))
      | _ \<Rightarrow> None)"

fun read_items :: "nat \<Rightarrow> string \<Rightarrow> ((string \<times> log_item) list \<times> string) option" where
  "read_items 0 s = None"
| "read_items (Suc n) s =
     (case read_item s of
        Some (m, c # r) \<Rightarrow>
          if c = CHR '','' then map_option (\<lambda>(ms, r1). (m # ms, r1)) (read_items n r)
          else if c = CHR ''}'' then Some ([m], r) else None
      | _ \<Rightarrow> None)"

definition read_log_line :: "string \<Rightarrow> ((string \<times> log_item) list \<times> string) option" where
  "read_log_line s = (case s of c # r \<Rightarrow> if c = CHR ''{'' then read_items (length r) r else None | [] \<Rightarrow> None)"

section \<open>Escaped text is read back\<close>

lemma hex_value_digit: "d < 16 \<Longrightarrow> hex_value (hex_digit_char d) = Some d"
  by (simp add: hex_value_def hex_digit_char_def Let_def)

lemma read_escaped_char: "read_chars (escape_char c @ r) = map_option (\<lambda>(t, r2). (c # t, r2)) (read_chars r)"
proof -
  have c: "char_of (of_char c :: nat) = c" by simp
  consider "(of_char c :: nat) \<in> {34, 92, 8, 12, 10, 13, 9}" | "(of_char c :: nat) < 32" "(of_char c :: nat) \<notin> {8, 12, 10, 13, 9}"
    | "32 \<le> (of_char c :: nat)" "(of_char c :: nat) \<notin> {34, 92}" using not_less by blast
  then show ?thesis
  proof cases
    case 1
    then have "c \<in> char_of ` {34, 92, 8, 12, 10, 13, 9 :: nat}" using c by (metis image_eqI)
    then show ?thesis unfolding read_chars.simps [of "escape_char c @ r"] by (auto simp: escape_char_def Let_def)
  next
    case 2
    let ?n = "of_char c :: nat"
    have e: "escape_char c = [CHR 0x5C, CHR ''u'', CHR ''0'', CHR ''0'', hex_digit_char (?n div 16), hex_digit_char (?n mod 16)]"
      using 2 by (auto simp: escape_char_def Let_def)
    have u: "unescape_u [CHR ''0'', CHR ''0'', hex_digit_char (?n div 16), hex_digit_char (?n mod 16)] = Some c"
      using 2 hex_value_digit [of "?n div 16"] hex_value_digit [of "?n mod 16"] by (simp add: hex_value_def)
    show ?thesis by (subst read_chars.simps) (simp add: e u del: unescape_u.simps)
  next
    case 3
    then show ?thesis by (subst read_chars.simps) (auto simp: escape_char_def Let_def)
  qed
qed

lemma read_escaped: "read_chars (escape_json s @ CHR 0x22 # r) = Some (s, r)"
proof (induction s)
  case Nil
  show ?case by (subst read_chars.simps) (simp add: escape_json_def)
next
  case (Cons c s)
  then show ?case by (simp add: escape_json_def read_escaped_char)
qed

lemma read_quoted [simp]: "read_string (quoted s @ r) = Some (s, r)"
  by (simp add: quoted_def read_string_def read_escaped)

lemma escape_char_printable: "c' \<in> set (escape_char c) \<Longrightarrow> 32 \<le> (of_char c' :: nat)"
  by (auto simp: escape_char_def hex_digit_char_def Let_def split: if_splits)

lemma escape_printable: "c' \<in> set (escape_json s) \<Longrightarrow> 32 \<le> (of_char c' :: nat)"
  by (auto simp: escape_json_def dest: escape_char_printable)

lemma read_member_quoted: "read_member (quoted k @ CHR '':'' # quoted v @ r) = Some ((k, v), r)"
  by (simp add: read_member_def)

lemma read_field_list:
  assumes "length fs < n"
  shows "read_members n (quoted k @ CHR '':'' # quoted v @ field_list False fs @ CHR ''}'' # r) = Some ((k, v) # fs, r)"
  using assms
proof (induction fs arbitrary: n k v)
  case Nil
  then show ?case by (cases n) (simp_all add: read_member_quoted)
next
  case (Cons f fs)
  obtain k' v' where f: "f = (k', v')" by (cases f)
  obtain m where n: "n = Suc m" "length fs < m" using Cons.prems by (cases n) auto
  show ?case using Cons.IH [OF n(2), of k' v'] by (simp add: n f read_member_quoted)
qed

lemma length_field_list: "length fs \<le> length (field_list b fs)"
  by (induction fs arbitrary: b) (auto simp: quoted_def le_SucI trans_le_add2)

lemma quoted_Cons: "quoted s = CHR 0x22 # escape_json s @ [CHR 0x22]"
  by (rule quoted_def)

lemma read_text_item: "read_item (quoted k @ CHR '':'' # quoted v @ r) = Some ((k, Log_text v), r)"
proof -
  obtain q where q: "quoted v @ r = CHR 0x22 # q" by (simp add: quoted_def)
  then have "read_string (CHR 0x22 # q) = Some (v, r)" using read_quoted [of v r] by simp
  then show ?thesis by (simp add: read_item_def q)
qed

lemma read_object_item:
  "read_item (quoted k @ CHR '':'' # CHR ''{'' # field_list True fs @ CHR ''}'' # r) = Some ((k, Log_object fs), r)"
proof (cases fs)
  case Nil
  then show ?thesis by (simp add: read_item_def)
next
  case (Cons f gs)
  obtain k' v' where f: "f = (k', v')" by (cases f)
  let ?b = "quoted k' @ CHR '':'' # quoted v' @ field_list False gs @ CHR ''}'' # r"
  have b: "field_list True fs @ CHR ''}'' # r = ?b" by (simp add: Cons f)
  obtain q where q: "?b = CHR 0x22 # q" by (simp add: quoted_def)
  have "length gs < length ?b" using length_field_list [of gs False] by simp
  from read_field_list [OF this] have "read_members (length ?b) ?b = Some (fs, r)" by (simp only: Cons f)
  then show ?thesis unfolding b q by (simp add: read_item_def)
qed



section \<open>Contexts and trace ids\<close>

lemma context_of_bthread:
  "LogContext_current b (LogContext_set b t u d m) = \<lparr>lf_trace_id = t, lf_user_id = u, lf_device_id = d\<rparr>"
  "b' \<noteq> b \<Longrightarrow> LogContext_current b' (LogContext_set b t u d m) = LogContext_current b' m"
  "LogContext_current b (LogContext_clear b m) = empty_log_fields"
  "b' \<noteq> b \<Longrightarrow> LogContext_current b' (LogContext_clear b m) = LogContext_current b' m"
  by (simp_all add: LogContext_current_def LogContext_set_def LogContext_clear_def empty_log_fields_def split: option.split)

text \<open>The consumer of a message reads the trace id of the publisher.\<close>

lemma trace_header_roundtrip: "mq_extract_trace_id (mq_inject_trace_headers b m (\<lambda>_. None)) = lf_trace_id (LogContext_current b m)"
  by (simp add: mq_extract_trace_id_def mq_inject_trace_headers_def Let_def)

end
