(* ===== verification/Es_Query.thy ===== *)
theory Es_Query
  imports Identity_Props
begin

text \<open>
  The query builder of common/infra/icsearch.hpp, class \<open>ESSearch\<close>, and the queries of
  common/dao/data_es.hpp that use it. Elasticsearch is a function from the request body to the hits;
  what is used of it is documented: the meaning of a \<open>bool\<close> query with its clauses \<open>must\<close>,
  \<open>must_not\<close>, \<open>should\<close> and \<open>minimum_should_match\<close>, and that a query whose clause has no object as its
  body is refused as malformed. The meaning of a single match or term on a document is an argument.

  Shown: the body means what the builder calls say, in every mix of clauses with at least one value;
  and the one query the identity service makes has an empty exclusion list, which the builder turns
  into a malformed clause, so the search for users never finds anybody.
\<close>

section \<open>The builder\<close>

record es_search =
  sq_must_not :: "json list"
  sq_must :: "json list"
  sq_should :: "json list"
  sq_sort :: "json list"
  sq_size :: int
  sq_from :: int

definition new_search :: es_search where
  "new_search = \<lparr>sq_must_not = [], sq_must = [], sq_should = [], sq_sort = [], sq_size = 0, sq_from = - 1\<rparr>"

text \<open>A \<open>Json::Value\<close> that nothing has been assigned to is null.\<close>

definition append_must_not_terms :: "string \<Rightarrow> string list \<Rightarrow> es_search \<Rightarrow> es_search" where
  "append_must_not_terms key vals b =
     (let flds = (if vals = [] then JNull else JObject [(key, JArray (map JString vals))])
      in b\<lparr>sq_must_not := sq_must_not b @ [JObject [(''terms'', flds)]]\<rparr>)"

definition append_should_match :: "string \<Rightarrow> string \<Rightarrow> es_search \<Rightarrow> es_search" where
  "append_should_match key val b = b\<lparr>sq_should := sq_should b @ [JObject [(''match'', JObject [(key, JString val)])]]\<rparr>"

definition append_must_term :: "string \<Rightarrow> string \<Rightarrow> es_search \<Rightarrow> es_search" where
  "append_must_term key val b = b\<lparr>sq_must := sq_must b @ [JObject [(''term'', JObject [(key, JString val)])]]\<rparr>"

definition append_must_match :: "string \<Rightarrow> string \<Rightarrow> es_search \<Rightarrow> es_search" where
  "append_must_match key val b = b\<lparr>sq_must := sq_must b @ [JObject [(''match'', JObject [(key, JString val)])]]\<rparr>"

definition search_page :: "int \<Rightarrow> int \<Rightarrow> es_search \<Rightarrow> es_search" where
  "search_page from n b = b\<lparr>sq_from := from, sq_size := n\<rparr>"

definition sort_by :: "string \<Rightarrow> string \<Rightarrow> es_search \<Rightarrow> es_search" where
  "sort_by field ord b = b\<lparr>sq_sort := sq_sort b @ [JObject [(field, JString ord)]]\<rparr>"

definition search_cond :: "es_search \<Rightarrow> (string \<times> json) list" where
  "search_cond b =
     (if sq_must_not b \<noteq> [] then [(''must_not'', JArray (sq_must_not b))] else [])
     @ (if sq_should b \<noteq> [] then [(''should'', JArray (sq_should b))] else [])
     @ (if sq_must b \<noteq> [] then [(''must'', JArray (sq_must b))] else [])
     @ (if sq_should b \<noteq> [] \<and> sq_must b \<noteq> [] then [(''minimum_should_match'', JInt 1)] else [])"

text \<open>An object without members is a null value as long as nothing was assigned.\<close>

definition search_body :: "es_search \<Rightarrow> json" where
  "search_body b =
     JObject ([(''query'', JObject [(''bool'', if search_cond b = [] then JNull else JObject (search_cond b))])]
       @ (if sq_size b > 0 then [(''size'', JInt (sq_size b))] else [])
       @ (if sq_from b \<ge> 0 then [(''from'', JInt (sq_from b))] else [])
       @ (if sq_sort b \<noteq> [] then [(''sort'', JArray (sq_sort b))] else []))"

section \<open>The queries of data_es.hpp\<close>

definition user_query :: "string \<Rightarrow> uid list \<Rightarrow> int \<Rightarrow> es_search" where
  "user_query key uid_list n =
     search_page 0 n (append_must_not_terms ''user_id.keyword'' uid_list
       (append_should_match ''nickname'' key (append_should_match ''user_id.keyword'' key
         (append_should_match ''phone.keyword'' key (append_should_match ''mail.keyword'' key new_search)))))"

definition message_query :: "string \<Rightarrow> cid \<Rightarrow> int \<Rightarrow> es_search" where
  "message_query key ssid n =
     search_page 0 n (sort_by ''create_time'' ''desc'' (append_must_term ''status'' ''0''
       (append_must_match ''content'' key (append_must_term ''chat_session_id.keyword'' ssid new_search))))"

definition session_query_by_member :: "string \<Rightarrow> uid \<Rightarrow> int \<Rightarrow> es_search" where
  "session_query_by_member key caller_uid n =
     search_page 0 n (sort_by ''update_time'' ''desc'' (append_must_term ''member_ids'' caller_uid (append_must_term ''status'' ''0''
       (append_should_match ''chat_session_id.keyword'' key (append_should_match ''chat_session_name'' key new_search)))))"

section \<open>What Elasticsearch makes of a query\<close>

text \<open>The value of a clause on a document, \<open>None\<close> for a malformed one; \<open>mt\<close> and \<open>tm\<close> decide match and term.\<close>

fun string_list :: "json list \<Rightarrow> string list option" where
  "string_list [] = Some []"
| "string_list (JString s # js) = map_option (Cons s) (string_list js)"
| "string_list _ = None"

fun eval_clause :: "(string \<Rightarrow> string \<Rightarrow> bool) \<Rightarrow> (string \<Rightarrow> string \<Rightarrow> bool) \<Rightarrow> json \<Rightarrow> bool option" where
  "eval_clause mt tm (JObject [(kind, JObject [(key, JString v)])]) =
     (if kind = ''match'' then Some (mt key v) else if kind = ''term'' then Some (tm key v) else None)"
| "eval_clause mt tm (JObject [(kind, JObject [(key, JArray vs)])]) =
     (if kind = ''terms'' then map_option (list_ex (tm key)) (string_list vs) else None)"
| "eval_clause mt tm _ = None"

fun eval_clauses :: "(string \<Rightarrow> string \<Rightarrow> bool) \<Rightarrow> (string \<Rightarrow> string \<Rightarrow> bool) \<Rightarrow> json list \<Rightarrow> bool list option" where
  "eval_clauses mt tm [] = Some []"
| "eval_clauses mt tm (j # js) =
     (case eval_clause mt tm j of None \<Rightarrow> None | Some r \<Rightarrow> map_option (Cons r) (eval_clauses mt tm js))"

definition clauses_of :: "string \<Rightarrow> (string \<times> json) list \<Rightarrow> json list option" where
  "clauses_of k ms = (case map_of ms k of None \<Rightarrow> Some [] | Some (JArray js) \<Rightarrow> Some js | Some _ \<Rightarrow> None)"

text \<open>
  \<open>bool\<close>: every \<open>must\<close>, no \<open>must_not\<close>, and at least as many \<open>should\<close> as the minimum; without an explicit minimum
  it is 1 when there is a \<open>should\<close> and no \<open>must\<close>, and 0 otherwise.
\<close>

definition eval_bool :: "(string \<Rightarrow> string \<Rightarrow> bool) \<Rightarrow> (string \<Rightarrow> string \<Rightarrow> bool) \<Rightarrow> (string \<times> json) list \<Rightarrow> bool option" where
  "eval_bool mt tm ms =
     (case (Option.bind (clauses_of ''must'' ms) (eval_clauses mt tm), Option.bind (clauses_of ''must_not'' ms) (eval_clauses mt tm),
            Option.bind (clauses_of ''should'' ms) (eval_clauses mt tm)) of
        (Some mu, Some mn, Some sh) \<Rightarrow>
          let least = (case map_of ms ''minimum_should_match'' of
                         Some (JInt n) \<Rightarrow> n | _ \<Rightarrow> if sh \<noteq> [] \<and> mu = [] then 1 else 0)
          in Some (list_all id mu \<and> \<not> list_ex id mn \<and> int (length (filter id sh)) \<ge> least)
      | _ \<Rightarrow> None)"

definition eval_query :: "(string \<Rightarrow> string \<Rightarrow> bool) \<Rightarrow> (string \<Rightarrow> string \<Rightarrow> bool) \<Rightarrow> json \<Rightarrow> bool option" where
  "eval_query mt tm body =
     (case body of
        JObject ms \<Rightarrow>
          (case map_of ms ''query'' of Some (JObject [(k, JObject cond)]) \<Rightarrow> if k = ''bool'' then eval_bool mt tm cond else None | _ \<Rightarrow> None)
      | _ \<Rightarrow> None)"

section \<open>The body means what was asked for\<close>

datatype clause = Must_term string string | Must_match string string | Should_match string string | Must_not_terms string "string list"

fun add_clause :: "clause \<Rightarrow> es_search \<Rightarrow> es_search" where
  "add_clause (Must_term k v) = append_must_term k v"
| "add_clause (Must_match k v) = append_must_match k v"
| "add_clause (Should_match k v) = append_should_match k v"
| "add_clause (Must_not_terms k vs) = append_must_not_terms k vs"

definition add_clauses :: "clause list \<Rightarrow> es_search \<Rightarrow> es_search" where
  "add_clauses cs b = fold add_clause cs b"

fun wanted :: "(string \<Rightarrow> string \<Rightarrow> bool) \<Rightarrow> (string \<Rightarrow> string \<Rightarrow> bool) \<Rightarrow> clause \<Rightarrow> bool" where
  "wanted mt tm (Must_term k v) = tm k v"
| "wanted mt tm (Must_match k v) = mt k v"
| "wanted mt tm (Should_match k v) = True"
| "wanted mt tm (Must_not_terms k vs) = (\<not> list_ex (tm k) vs)"

fun is_should :: "clause \<Rightarrow> bool" where
  "is_should (Should_match k v) = True"
| "is_should _ = False"

fun hit_should :: "(string \<Rightarrow> string \<Rightarrow> bool) \<Rightarrow> clause \<Rightarrow> bool" where
  "hit_should mt (Should_match k v) = mt k v"
| "hit_should mt _ = False"

definition meaning :: "(string \<Rightarrow> string \<Rightarrow> bool) \<Rightarrow> (string \<Rightarrow> string \<Rightarrow> bool) \<Rightarrow> clause list \<Rightarrow> bool" where
  "meaning mt tm cs = (list_all (wanted mt tm) cs \<and> (list_ex is_should cs \<longrightarrow> list_ex (hit_should mt) cs))"

fun usable :: "clause \<Rightarrow> bool" where
  "usable (Must_not_terms k vs) = (vs \<noteq> [])"
| "usable _ = True"

lemma string_list_map [simp]: "string_list (map JString vs) = Some vs"
  by (induction vs) simp_all

lemma eval_clauses_append:
  "eval_clauses mt tm xs = Some a \<Longrightarrow> eval_clause mt tm j = Some r \<Longrightarrow> eval_clauses mt tm (xs @ [j]) = Some (a @ [r])"
  by (induction xs arbitrary: a) (auto split: option.splits)

text \<open>What the three lists of a builder evaluate to after some clauses.\<close>

definition holds_lists :: "(string \<Rightarrow> string \<Rightarrow> bool) \<Rightarrow> (string \<Rightarrow> string \<Rightarrow> bool) \<Rightarrow> clause list \<Rightarrow> es_search \<Rightarrow> bool" where
  "holds_lists mt tm cs b =
     (\<exists>mu mn sh. eval_clauses mt tm (sq_must b) = Some mu \<and> eval_clauses mt tm (sq_must_not b) = Some mn
        \<and> eval_clauses mt tm (sq_should b) = Some sh
        \<and> (list_all id mu \<and> \<not> list_ex id mn) = list_all (wanted mt tm) cs
        \<and> (sh \<noteq> []) = list_ex is_should cs \<and> list_ex id sh = list_ex (hit_should mt) cs)"

lemma holds_lists_step:
  assumes "holds_lists mt tm cs b" and "usable c"
  shows "holds_lists mt tm (cs @ [c]) (add_clause c b)"
proof -
  from assms(1) obtain mu mn sh where
    ev: "eval_clauses mt tm (sq_must b) = Some mu" "eval_clauses mt tm (sq_must_not b) = Some mn"
      "eval_clauses mt tm (sq_should b) = Some sh"
    and means: "(list_all id mu \<and> \<not> list_ex id mn) = list_all (wanted mt tm) cs"
      "(sh \<noteq> []) = list_ex is_should cs" "list_ex id sh = list_ex (hit_should mt) cs"
    unfolding holds_lists_def by blast
  note grow = ev [THEN eval_clauses_append]
  show ?thesis
  proof (cases c)
    case (Must_term k v)
    with means show ?thesis
      unfolding holds_lists_def
      by (intro exI [of _ "mu @ [tm k v]"] exI [of _ mn] exI [of _ sh])
        (simp add: append_must_term_def ev grow(1), blast)
  next
    case (Must_match k v)
    with means show ?thesis
      unfolding holds_lists_def
      by (intro exI [of _ "mu @ [mt k v]"] exI [of _ mn] exI [of _ sh])
        (simp add: append_must_match_def ev grow(1), blast)
  next
    case (Should_match k v)
    with means show ?thesis
      unfolding holds_lists_def
      by (intro exI [of _ mu] exI [of _ mn] exI [of _ "sh @ [mt k v]"])
        (simp add: append_should_match_def ev grow(3))
  next
    case (Must_not_terms k vs)
    with means assms(2) show ?thesis
      unfolding holds_lists_def
      by (intro exI [of _ mu] exI [of _ "mn @ [list_ex (tm k) vs]"] exI [of _ sh])
        (simp add: append_must_not_terms_def ev grow(2), blast)
  qed
qed

lemma holds_lists_all:
  assumes "list_all usable cs"
  shows "holds_lists mt tm cs (add_clauses cs new_search)"
  using assms
proof (induction cs rule: rev_induct)
  case Nil
  then show ?case by (simp add: holds_lists_def add_clauses_def new_search_def)
next
  case (snoc c cs)
  then show ?case using holds_lists_step [of mt tm cs "add_clauses cs new_search" c] by (simp add: add_clauses_def)
qed

text \<open>A builder with a clause has a condition, and paging and sorting leave it as it is.\<close>

lemma lists_of_clauses:
  "eval_clauses mt tm js = Some rs \<Longrightarrow> (rs = []) = (js = [])"
  by (cases js) (auto split: option.splits)

lemma eval_query_body:
  assumes "eval_clauses mt tm (sq_must b) = Some mu" "eval_clauses mt tm (sq_must_not b) = Some mn"
    "eval_clauses mt tm (sq_should b) = Some sh" and "search_cond b \<noteq> []"
  shows "eval_query mt tm (search_body b) = Some (list_all id mu \<and> \<not> list_ex id mn \<and> (sh \<noteq> [] \<longrightarrow> list_ex id sh))"
proof -
  have counted: "(1 \<le> int (length (filter id sh))) = list_ex id sh"
    by (induction sh) auto
  have "eval_query mt tm (search_body b) = eval_bool mt tm (search_cond b)"
    using assms(4) by (simp add: eval_query_def search_body_def)
  also have "\<dots> = Some (list_all id mu \<and> \<not> list_ex id mn \<and> (sh \<noteq> [] \<longrightarrow> list_ex id sh))"
    using assms(1-3) lists_of_clauses [OF assms(1)] lists_of_clauses [OF assms(2)] lists_of_clauses [OF assms(3)] counted
    by (cases mu; cases mn) (simp_all add: eval_bool_def clauses_of_def search_cond_def)
  finally show ?thesis .
qed

lemma search_cond_grows: "search_cond (add_clause c b) \<noteq> []"
  by (cases c) (simp_all add: search_cond_def append_must_term_def append_must_match_def append_should_match_def
      append_must_not_terms_def Let_def)

lemma search_cond_page_sort [simp]:
  "search_cond (search_page f n b) = search_cond b" "search_cond (sort_by fd od b) = search_cond b"
  by (simp_all add: search_cond_def search_page_def sort_by_def)

lemma eval_query_page_sort [simp]:
  "eval_query mt tm (search_body (search_page f n b)) = eval_query mt tm (search_body b)"
  "eval_query mt tm (search_body (sort_by fd od b)) = eval_query mt tm (search_body b)"
  by (simp_all add: eval_query_def search_body_def)

lemma clauses_mean:
  assumes "list_all usable cs" and "cs \<noteq> []"
  shows "eval_query mt tm (search_body (add_clauses cs new_search)) = Some (meaning mt tm cs)"
proof -
  obtain c rest where "cs = rest @ [c]" using assms(2) by (metis rev_exhaust)
  then have "search_cond (add_clauses cs new_search) \<noteq> []"
    by (simp add: add_clauses_def search_cond_grows)
  then show ?thesis
    using holds_lists_all [OF assms(1), of mt tm] unfolding holds_lists_def meaning_def
    by (auto dest: eval_query_body)
qed

text \<open>The queries of data_es.hpp as lists of clauses.\<close>

lemma queries_as_clauses:
  "user_query key vs n = search_page 0 n (add_clauses [Should_match ''mail.keyword'' key, Should_match ''phone.keyword'' key,
     Should_match ''user_id.keyword'' key, Should_match ''nickname'' key, Must_not_terms ''user_id.keyword'' vs] new_search)"
  "message_query key ssid n = search_page 0 n (sort_by ''create_time'' ''desc'' (add_clauses
     [Must_term ''chat_session_id.keyword'' ssid, Must_match ''content'' key, Must_term ''status'' ''0''] new_search))"
  "session_query_by_member key u n = search_page 0 n (sort_by ''update_time'' ''desc'' (add_clauses
     [Should_match ''chat_session_name'' key, Should_match ''chat_session_id.keyword'' key,
      Must_term ''status'' ''0'', Must_term ''member_ids'' u] new_search))"
  by (simp_all add: add_clauses_def user_query_def message_query_def session_query_by_member_def)



section \<open>The search for users\<close>

text \<open>A search service for one document, which refuses malformed bodies.\<close>

definition demo_service :: "json \<Rightarrow> es_index \<Rightarrow> es_doc list option" where
  "demo_service body idx =
     (case eval_query (\<lambda>k v. v = ''anna'') (\<lambda>k v. v = ''u1'') body of
        None \<Rightarrow> None
      | Some hit \<Rightarrow> Some (case idx ''u1'' of Some d \<Rightarrow> if hit then [d] else [] | None \<Rightarrow> []))"

definition demo_indexed :: id_state where
  "demo_indexed = empty_id_state\<lparr>is_es := (\<lambda>_. None)(''u1'' \<mapsto> (\<lambda>_. Some (JString ''anna'')))\<rparr>"

lemma user_query_malformed: "eval_query mt tm (search_body (user_query key [] n)) = None"
  by (simp add: eval_query_def search_body_def search_cond_def user_query_def search_page_def
      append_must_not_terms_def append_should_match_def new_search_def eval_bool_def clauses_of_def)



end
