(* ===== verification/Mq.thy ===== *)
theory Mq
  imports Message_Service
begin

text \<open>
  The message queue of common/mq/rabbitmq.hpp - \<open>MQClient\<close>, \<open>Publisher\<close>, \<open>Subscriber\<close> and the naming of the
  delayed queues - with the exchanges and queues the services declare at start
  (\<open>make_mq_object\<close>, \<open>make_push_publisher\<close>, \<open>make_es_publisher\<close>, \<open>make_es_index_subscriber\<close>).
  The broker is AMQP 0-9-1 as documented: declaring again must agree with what exists, an error closes the
  channel, a message goes to every queue whose binding matches, a message that matches no queue is dropped
  and confirmed, a rejected message returns to the front of its queue or is dead-lettered.

  Shown: a message confirmed after the queue of a subscriber exists stays with that queue until a callback
  settles it, whatever the services, clients and failing callbacks do; the services agree on their
  topology in every order of start; a confirmed message sent before the queue exists is gone.
\<close>

section \<open>The broker\<close>

datatype exchange_kind = Ex_direct | Ex_fanout | Ex_topic | Ex_headers

datatype amqp_arg = Arg_int int | Arg_str string

type_synonym amqp_table = "(string \<times> amqp_arg) list"

text \<open>A message is its body with the mark that it was delivered before.\<close>

record broker_queue =
  bq_args :: amqp_table
  bq_ready :: "(string \<times> bool) list"
  bq_unacked :: "(string \<times> bool) list"

record broker =
  br_exchanges :: "string \<Rightarrow> exchange_kind option"
  br_queues :: "string \<Rightarrow> broker_queue option"
  br_bindings :: "(string \<times> string \<times> string) list"

definition new_broker :: broker where
  "new_broker = \<lparr>br_exchanges = (\<lambda>_. None), br_queues = (\<lambda>_. None), br_bindings = []\<rparr>"

definition declare_exchange :: "string \<Rightarrow> exchange_kind \<Rightarrow> broker \<Rightarrow> bool \<times> broker" where
  "declare_exchange ex ty b =
     (case br_exchanges b ex of
        None \<Rightarrow> (True, b\<lparr>br_exchanges := (br_exchanges b)(ex \<mapsto> ty)\<rparr>)
      | Some t \<Rightarrow> (t = ty, b))"

definition declare_queue :: "string \<Rightarrow> amqp_table \<Rightarrow> broker \<Rightarrow> bool \<times> broker" where
  "declare_queue q args b =
     (case br_queues b q of
        None \<Rightarrow> (True, b\<lparr>br_queues := (br_queues b)(q \<mapsto> \<lparr>bq_args = args, bq_ready = [], bq_unacked = []\<rparr>)\<rparr>)
      | Some old \<Rightarrow> (bq_args old = args, b))"

definition bind_queue :: "string \<Rightarrow> string \<Rightarrow> string \<Rightarrow> broker \<Rightarrow> bool \<times> broker" where
  "bind_queue ex q k b =
     (if br_exchanges b ex = None \<or> br_queues b q = None then (False, b)
      else (True, b\<lparr>br_bindings := List.insert (ex, q, k) (br_bindings b)\<rparr>))"

text \<open>Topic patterns: a star is one word, a hash is any number of them.\<close>

fun topic_words :: "string \<Rightarrow> string list" where
  "topic_words [] = [[]]"
| "topic_words (ch # s) =
     (if ch = CHR ''.'' then [] # topic_words s
      else case topic_words s of w # ws \<Rightarrow> (ch # w) # ws | [] \<Rightarrow> [[ch]])"

fun topic_match :: "string list \<Rightarrow> string list \<Rightarrow> bool" where
  "topic_match [] ws = (ws = [])"
| "topic_match (p # ps) [] = (p = ''#'' \<and> topic_match ps [])"
| "topic_match (p # ps) (w # ws) =
     (if p = ''#'' then topic_match ps (w # ws) \<or> topic_match (p # ps) ws
      else (p = ''*'' \<or> p = w) \<and> topic_match ps ws)"

fun binding_matches :: "exchange_kind \<Rightarrow> string \<Rightarrow> string \<Rightarrow> bool" where
  "binding_matches Ex_direct k key = (k = key)"
| "binding_matches Ex_fanout k key = True"
| "binding_matches Ex_topic k key = topic_match (topic_words k) (topic_words key)"
| "binding_matches Ex_headers k key = True"

definition broker_route :: "broker \<Rightarrow> string \<Rightarrow> string \<Rightarrow> string list" where
  "broker_route b ex key =
     (case br_exchanges b ex of
        None \<Rightarrow> []
      | Some ty \<Rightarrow> remdups [q. (e, q, k) \<leftarrow> br_bindings b, e = ex \<and> binding_matches ty k key])"

definition enqueue :: "string \<Rightarrow> string \<Rightarrow> broker \<Rightarrow> broker" where
  "enqueue m q b =
     (case br_queues b q of
        None \<Rightarrow> b
      | Some qu \<Rightarrow> b\<lparr>br_queues := (br_queues b)(q \<mapsto> qu\<lparr>bq_ready := bq_ready qu @ [(m, False)]\<rparr>)\<rparr>)"

definition broker_publish :: "string \<Rightarrow> string \<Rightarrow> string \<Rightarrow> broker \<Rightarrow> broker" where
  "broker_publish ex key m b = fold (enqueue m) (broker_route b ex key) b"

section \<open>The client\<close>

record declare_settings =
  ds_exchange :: string
  ds_exchange_type :: string
  ds_queue :: string
  ds_binding_key :: string
  ds_delayed_ttl_ms :: int

definition dlx_exchange :: "declare_settings \<Rightarrow> string" where
  "dlx_exchange st = ''dlx_'' @ ds_exchange st"

definition dlx_queue :: "declare_settings \<Rightarrow> string" where
  "dlx_queue st = ''dlx_'' @ ds_queue st"

definition dlx_binding_key :: "declare_settings \<Rightarrow> string" where
  "dlx_binding_key st = ''dlx_'' @ ds_binding_key st"

definition exchange_type :: "string \<Rightarrow> exchange_kind" where
  "exchange_type ty =
     (if ty = ''direct'' then Ex_direct else if ty = ''fanout'' then Ex_fanout else if ty = ''topic'' then Ex_topic
      else if ty = ''headers'' then Ex_headers else if ty = ''delayed'' then Ex_direct else Ex_direct)"

text \<open>The channel of a client and the broker: an error answer closes the channel, and nothing works on a closed one.\<close>

type_synonym channel = "bool \<times> broker"

definition on_channel :: "(broker \<Rightarrow> bool \<times> broker) \<Rightarrow> channel \<Rightarrow> bool \<times> channel" where
  "on_channel f ch = (if \<not> fst ch then (False, ch) else case f (snd ch) of (ok, b) \<Rightarrow> (ok, ok, b))"

definition declare_exchange_only :: "string \<Rightarrow> exchange_kind \<Rightarrow> channel \<Rightarrow> bool \<times> channel" where
  "declare_exchange_only ex ty = on_channel (declare_exchange ex ty)"

definition declare_chain :: "declare_settings \<Rightarrow> amqp_table \<Rightarrow> bool \<Rightarrow> channel \<Rightarrow> bool \<times> channel" where
  "declare_chain st args is_dlx ch =
     (let ex = (if is_dlx then dlx_exchange st else ds_exchange st);
          q = (if is_dlx then dlx_queue st else ds_queue st);
          k = (if is_dlx then dlx_binding_key st else ds_binding_key st);
          ty = (if is_dlx then Ex_direct else exchange_type (ds_exchange_type st))
      in case on_channel (declare_exchange ex ty) ch of
           (False, ch1) \<Rightarrow> (False, ch1)
         | (True, ch1) \<Rightarrow>
             (case on_channel (declare_queue q args) ch1 of
                (False, ch2) \<Rightarrow> (False, ch2)
              | (True, ch2) \<Rightarrow> on_channel (bind_queue ex q k) ch2))"

definition delayed_args :: "declare_settings \<Rightarrow> amqp_table" where
  "delayed_args st =
     [(''x-message-ttl'', Arg_int (ds_delayed_ttl_ms st)), (''x-dead-letter-exchange'', Arg_str (dlx_exchange st)),
      (''x-dead-letter-routing-key'', Arg_str (dlx_binding_key st))]"

text \<open>\<open>declare\<close> gives no result: a failed declaration is only logged.\<close>

definition MQClient_declare :: "declare_settings \<Rightarrow> channel \<Rightarrow> channel" where
  "MQClient_declare st ch =
     (if ds_queue st = [] then snd (declare_exchange_only (ds_exchange st) (exchange_type (ds_exchange_type st)) ch)
      else if ds_exchange_type st = ''delayed'' then snd (declare_chain st (delayed_args st) False (snd (declare_chain st [] True ch)))
      else snd (declare_chain st [] False ch))"

datatype publish_status = Acked | Nacked | Lost | Error

text \<open>What the link does to a publication: nothing, or it breaks before or after the broker has the message.\<close>

datatype link = Link_up | Breaks_before | Breaks_after

definition publish_confirm :: "link \<Rightarrow> string \<Rightarrow> string \<Rightarrow> string \<Rightarrow> channel \<Rightarrow> publish_status \<times> channel" where
  "publish_confirm lk ex key m ch =
     (if \<not> fst ch then (Error, ch)
      else if lk = Breaks_before then (Lost, False, snd ch)
      else if br_exchanges (snd ch) ex = None then (Error, False, snd ch)
      else if lk = Breaks_after then (Lost, False, broker_publish ex key m (snd ch))
      else (Acked, True, broker_publish ex key m (snd ch)))"

definition Publisher_publish_confirm :: "link \<Rightarrow> declare_settings \<Rightarrow> string \<Rightarrow> channel \<Rightarrow> publish_status \<times> channel" where
  "Publisher_publish_confirm lk st m ch = publish_confirm lk (ds_exchange st) (ds_binding_key st) m ch"

definition subscriber_queue :: "declare_settings \<Rightarrow> string" where
  "subscriber_queue st = (if ds_exchange_type st = ''delayed'' then dlx_queue st else ds_queue st)"

definition kDefaultPrefetch :: nat where
  "kDefaultPrefetch = 64"

definition set_queue :: "string \<Rightarrow> broker_queue \<Rightarrow> broker \<Rightarrow> broker" where
  "set_queue q qu b = b\<lparr>br_queues := (br_queues b)(q \<mapsto> qu)\<rparr>"

text \<open>A message is handed to a consumer while fewer than the prefetch count are with it.\<close>

definition deliver :: "string \<Rightarrow> broker \<Rightarrow> broker" where
  "deliver q b =
     (case br_queues b q of
        None \<Rightarrow> b
      | Some qu \<Rightarrow>
          (case bq_ready qu of
             [] \<Rightarrow> b
           | m # ms \<Rightarrow>
               if length (bq_unacked qu) < kDefaultPrefetch
               then set_queue q (qu\<lparr>bq_ready := ms, bq_unacked := bq_unacked qu @ [m]\<rparr>) b else b))"

definition arg_str :: "string \<Rightarrow> amqp_table \<Rightarrow> string option" where
  "arg_str k args = (case map_of args k of Some (Arg_str s) \<Rightarrow> Some s | _ \<Rightarrow> None)"

definition dead_letter :: "amqp_table \<Rightarrow> string \<Rightarrow> broker \<Rightarrow> broker" where
  "dead_letter args m b =
     (case (arg_str ''x-dead-letter-exchange'' args, arg_str ''x-dead-letter-routing-key'' args) of
        (Some ex, Some key) \<Rightarrow> broker_publish ex key m b
      | _ \<Rightarrow> b)"

definition broker_ack :: "string \<Rightarrow> broker \<Rightarrow> broker" where
  "broker_ack q b =
     (case br_queues b q of
        Some qu \<Rightarrow> (case bq_unacked qu of [] \<Rightarrow> b | m # ms \<Rightarrow> set_queue q (qu\<lparr>bq_unacked := ms\<rparr>) b)
      | None \<Rightarrow> b)"

definition broker_reject :: "bool \<Rightarrow> string \<Rightarrow> broker \<Rightarrow> broker" where
  "broker_reject requeue q b =
     (case br_queues b q of
        Some qu \<Rightarrow>
          (case bq_unacked qu of
             [] \<Rightarrow> b
           | m # ms \<Rightarrow>
               if requeue then set_queue q (qu\<lparr>bq_unacked := ms, bq_ready := (fst m, True) # bq_ready qu\<rparr>) b
               else dead_letter (bq_args qu) (fst m) (set_queue q (qu\<lparr>bq_unacked := ms\<rparr>) b))
      | None \<Rightarrow> b)"

text \<open>The message callback returns an action or throws; then the oldest delivered message is settled accordingly.\<close>

datatype callback_result = Returns ConsumeAction | Throws

definition on_message :: "callback_result \<Rightarrow> string \<Rightarrow> broker \<Rightarrow> broker" where
  "on_message r q b =
     (case r of
        Returns Ack \<Rightarrow> broker_ack q b
      | Returns NackRequeue \<Rightarrow> broker_reject True q b
      | Returns NackDiscard \<Rightarrow> broker_reject False q b
      | Throws \<Rightarrow> broker_reject True q b)"

text \<open>When the consumer's connection ends the broker puts back what it had; a message older than the queue's limit leaves it.\<close>

definition consumer_gone :: "string \<Rightarrow> broker \<Rightarrow> broker" where
  "consumer_gone q b =
     (case br_queues b q of
        None \<Rightarrow> b
      | Some qu \<Rightarrow> set_queue q (qu\<lparr>bq_unacked := [], bq_ready := map (\<lambda>m. (fst m, True)) (bq_unacked qu) @ bq_ready qu\<rparr>) b)"

definition expire :: "string \<Rightarrow> broker \<Rightarrow> broker" where
  "expire q b =
     (case br_queues b q of
        None \<Rightarrow> b
      | Some qu \<Rightarrow>
          (case (bq_ready qu, map_of (bq_args qu) ''x-message-ttl'') of
             (m # ms, Some _) \<Rightarrow> dead_letter (bq_args qu) (fst m) (set_queue q (qu\<lparr>bq_ready := ms\<rparr>) b)
           | _ \<Rightarrow> b))"

section \<open>Runs\<close>

text \<open>Any number of clients, each with its channel; what happens at the broker and in the callbacks comes in any order.\<close>

record mq_sys =
  ms_open :: "nat \<Rightarrow> bool"
  ms_broker :: broker

datatype mq_event =
    E_declare nat declare_settings
  | E_publish nat link declare_settings string
  | E_deliver string
  | E_callback string callback_result
  | E_consumer_gone string
  | E_expire string

definition with_channel :: "nat \<Rightarrow> (channel \<Rightarrow> channel) \<Rightarrow> mq_sys \<Rightarrow> mq_sys" where
  "with_channel i f s = (case f (ms_open s i, ms_broker s) of (opn, b) \<Rightarrow> \<lparr>ms_open = (ms_open s)(i := opn), ms_broker = b\<rparr>)"

fun mq_step :: "mq_event \<Rightarrow> mq_sys \<Rightarrow> mq_sys" where
  "mq_step (E_declare i st) s = with_channel i (MQClient_declare st) s"
| "mq_step (E_publish i lk st m) s = with_channel i (snd \<circ> Publisher_publish_confirm lk st m) s"
| "mq_step (E_deliver q) s = s\<lparr>ms_broker := deliver q (ms_broker s)\<rparr>"
| "mq_step (E_callback q r) s = s\<lparr>ms_broker := on_message r q (ms_broker s)\<rparr>"
| "mq_step (E_consumer_gone q) s = s\<lparr>ms_broker := consumer_gone q (ms_broker s)\<rparr>"
| "mq_step (E_expire q) s = s\<lparr>ms_broker := expire q (ms_broker s)\<rparr>"

definition mq_run :: "mq_event list \<Rightarrow> mq_sys \<Rightarrow> mq_sys" where
  "mq_run evs s = fold mq_step evs s"

definition new_mq :: mq_sys where
  "new_mq = \<lparr>ms_open = (\<lambda>_. True), ms_broker = new_broker\<rparr>"

definition queue_msgs :: "broker_queue \<Rightarrow> string list" where
  "queue_msgs qu = map fst (bq_ready qu @ bq_unacked qu)"

definition queue_holds :: "string \<Rightarrow> string \<Rightarrow> broker \<Rightarrow> bool" where
  "queue_holds q m b = (case br_queues b q of None \<Rightarrow> False | Some qu \<Rightarrow> m \<in> set (queue_msgs qu))"

text \<open>The events that take a copy of a message out of a queue: a callback that returned with an ack or a discard, and expiry.\<close>

definition takes :: "string \<Rightarrow> string \<Rightarrow> mq_event \<Rightarrow> broker \<Rightarrow> bool" where
  "takes q m ev b =
     (case br_queues b q of
        None \<Rightarrow> False
      | Some qu \<Rightarrow>
          (case ev of
             E_callback q' (Returns a) \<Rightarrow>
               q' = q \<and> a \<noteq> NackRequeue \<and> bq_unacked qu \<noteq> [] \<and> fst (hd (bq_unacked qu)) = m
           | E_expire q' \<Rightarrow> q' = q \<and> map_of (bq_args qu) ''x-message-ttl'' \<noteq> None \<and> bq_ready qu \<noteq> [] \<and> fst (hd (bq_ready qu)) = m
           | _ \<Rightarrow> False))"

fun never_taken :: "string \<Rightarrow> string \<Rightarrow> mq_event list \<Rightarrow> mq_sys \<Rightarrow> bool" where
  "never_taken q m [] s = True"
| "never_taken q m (ev # evs) s = (\<not> takes q m ev (ms_broker s) \<and> never_taken q m evs (mq_step ev s))"

section \<open>What stays\<close>

text \<open>Exchanges keep their kind, bindings and queues stay.\<close>

definition extends :: "broker \<Rightarrow> broker \<Rightarrow> bool" where
  "extends b b' =
     (br_exchanges b \<subseteq>\<^sub>m br_exchanges b' \<and> set (br_bindings b) \<subseteq> set (br_bindings b')
      \<and> (\<forall>q. br_queues b q \<noteq> None \<longrightarrow> br_queues b' q \<noteq> None))"

lemma extends_refl [simp]: "extends b b"
  by (simp add: extends_def)

lemma extends_trans: "extends a b \<Longrightarrow> extends b c \<Longrightarrow> extends a c"
  unfolding extends_def by (meson map_le_trans order_trans)

lemma extends_set_queue: "extends b b' \<Longrightarrow> extends b (set_queue q qu b')"
  by (simp add: extends_def set_queue_def)

lemma extends_enqueue: "extends b (enqueue m q b)"
  by (auto simp: extends_def enqueue_def split: option.splits)

lemma extends_fold_enqueue: "extends b (fold (enqueue m) qs b)"
  by (induction qs arbitrary: b) (auto intro: extends_trans extends_enqueue)

lemma extends_publish [simp]: "extends b (broker_publish ex key m b)"
  by (simp add: broker_publish_def extends_fold_enqueue)

lemma extends_dead_letter: "extends b b' \<Longrightarrow> extends b (dead_letter args m b')"
  by (auto simp: dead_letter_def intro: extends_trans split: option.splits)

lemma extends_declarations [simp]:
  "extends b (snd (declare_exchange ex ty b))" "extends b (snd (declare_queue q args b))" "extends b (snd (bind_queue ex q k b))"
  by (auto simp: extends_def declare_exchange_def declare_queue_def bind_queue_def map_le_def split: option.splits)

text \<open>What the three declarations keep, a declaration of the client keeps.\<close>

lemma on_channel_keeps: "(\<And>b. P b \<Longrightarrow> P (snd (f b))) \<Longrightarrow> P (snd ch) \<Longrightarrow> P (snd (snd (on_channel f ch)))"
  by (simp add: on_channel_def prod.case_eq_if)

lemma declare_chain_steps:
  "declare_chain st args d ch =
     (let ex = (if d then dlx_exchange st else ds_exchange st);
          q = (if d then dlx_queue st else ds_queue st);
          r1 = on_channel (declare_exchange ex (if d then Ex_direct else exchange_type (ds_exchange_type st))) ch;
          r2 = on_channel (declare_queue q args) (snd r1);
          r3 = on_channel (bind_queue ex q (if d then dlx_binding_key st else ds_binding_key st)) (snd r2)
      in if fst r1 then if fst r2 then r3 else r2 else r1)"
proof -
  have bs: "(case r of (False, c1) \<Rightarrow> (False, c1) | (True, c1) \<Rightarrow> g c1) = (if fst r then g (snd r) else r)" for r :: "bool \<times> channel" and g
    by (cases r) (auto split: bool.splits)
  show ?thesis unfolding declare_chain_def Let_def bs by (rule refl)
qed

lemma declare_chain_keeps:
  assumes ops: "\<And>ex ty b. P b \<Longrightarrow> P (snd (declare_exchange ex ty b))" "\<And>q a b. P b \<Longrightarrow> P (snd (declare_queue q a b))"
      "\<And>ex q k b. P b \<Longrightarrow> P (snd (bind_queue ex q k b))" and "P (snd ch)"
  shows "P (snd (snd (declare_chain st args d ch)))"
  using assms by (simp add: declare_chain_steps Let_def on_channel_keeps)

lemma declare_keeps:
  assumes "\<And>ex ty b. P b \<Longrightarrow> P (snd (declare_exchange ex ty b))" "\<And>q a b. P b \<Longrightarrow> P (snd (declare_queue q a b))"
      "\<And>ex q k b. P b \<Longrightarrow> P (snd (bind_queue ex q k b))" and "P (snd ch)"
  shows "P (snd (MQClient_declare st ch))"
  using assms by (simp add: MQClient_declare_def declare_exchange_only_def on_channel_keeps declare_chain_keeps)

lemma publish_confirm_keeps:
  "(\<And>b. P b \<Longrightarrow> P (broker_publish ex key m b)) \<Longrightarrow> P (snd ch) \<Longrightarrow> P (snd (snd (publish_confirm lk ex key m ch)))"
  by (simp add: publish_confirm_def)

lemma with_channel_broker: "ms_broker (with_channel i f s) = snd (f (ms_open s i, ms_broker s))"
  by (simp add: with_channel_def prod.case_eq_if)

lemma extends_step: "extends b (ms_broker s) \<Longrightarrow> extends b (ms_broker (mq_step ev s))"
proof (cases ev)
  case (E_declare i st)
  assume "extends b (ms_broker s)"
  then show ?thesis
    unfolding E_declare
    by (simp add: with_channel_broker, intro declare_keeps [where P = "extends b"]) (auto intro: extends_trans)
next
  case (E_publish i lk st m)
  assume "extends b (ms_broker s)"
  then show ?thesis
    unfolding E_publish
    by (simp add: with_channel_broker Publisher_publish_confirm_def, intro publish_confirm_keeps [where P = "extends b"])
      (auto intro: extends_trans)
qed (auto simp: deliver_def on_message_def broker_ack_def broker_reject_def consumer_gone_def expire_def
    intro!: extends_set_queue extends_dead_letter split: option.splits list.splits callback_result.splits ConsumeAction.splits)

lemma extends_run: "extends (ms_broker s) (ms_broker (mq_run evs s))"
proof -
  have "extends b (ms_broker s) \<Longrightarrow> extends b (ms_broker (fold mq_step evs s))" for b
    by (induction evs arbitrary: s) (simp_all add: extends_step)
  then show ?thesis by (simp add: mq_run_def)
qed

text \<open>A message that no event takes stays in its queue.\<close>

lemma queue_holds_set_queue [simp]:
  "queue_holds q m (set_queue q' qu b) = (if q = q' then m \<in> set (queue_msgs qu) else queue_holds q m b)"
  by (simp add: queue_holds_def set_queue_def)

lemma queue_holds_enqueue: "queue_holds q m b \<Longrightarrow> queue_holds q m (enqueue m' q' b)"
  by (auto simp: queue_holds_def enqueue_def queue_msgs_def split: option.splits if_splits)

lemma queue_holds_fold_enqueue: "queue_holds q m b \<Longrightarrow> queue_holds q m (fold (enqueue m') qs b)"
  by (induction qs arbitrary: b) (simp_all add: queue_holds_enqueue)

lemma queue_holds_publish: "queue_holds q m b \<Longrightarrow> queue_holds q m (broker_publish ex key m' b)"
  by (simp add: broker_publish_def queue_holds_fold_enqueue)

lemma queue_holds_dead_letter: "queue_holds q m b \<Longrightarrow> queue_holds q m (dead_letter args m' b)"
  by (auto simp: dead_letter_def queue_holds_publish split: option.splits)

lemma queue_holds_declarations:
  "queue_holds q m b \<Longrightarrow> queue_holds q m (snd (declare_exchange ex ty b))"
  "queue_holds q m b \<Longrightarrow> queue_holds q m (snd (declare_queue q' args b))"
  "queue_holds q m b \<Longrightarrow> queue_holds q m (snd (bind_queue ex q' k b))"
  by (auto simp: queue_holds_def declare_exchange_def declare_queue_def bind_queue_def split: option.splits)

lemma queue_holds_callback:
  assumes "queue_holds q m b" and "\<not> takes q m (E_callback q' r) b"
  shows "queue_holds q m (on_message r q' b)"
proof -
  have "queue_holds q m (broker_reject True q' b)"
    using assms(1) by (auto simp: broker_reject_def queue_holds_def queue_msgs_def set_queue_def split: option.splits list.splits)
  moreover have "queue_holds q m (broker_ack q' b)" if "r = Returns Ack"
    using assms that
    by (auto simp: broker_ack_def queue_holds_def takes_def queue_msgs_def set_queue_def split: option.splits list.splits)
  moreover have "queue_holds q m (broker_reject False q' b)" if "r = Returns NackDiscard"
    using assms that
    by (auto simp: broker_reject_def takes_def queue_msgs_def intro!: queue_holds_dead_letter split: option.splits list.splits)
      (auto simp: queue_holds_def queue_msgs_def)
  ultimately show ?thesis
    by (cases r) (auto simp: on_message_def split: ConsumeAction.splits)
qed

lemma queue_holds_expire:
  assumes "queue_holds q m b" and "\<not> takes q m (E_expire q') b"
  shows "queue_holds q m (expire q' b)"
  using assms
  by (auto simp: expire_def takes_def queue_msgs_def intro!: queue_holds_dead_letter split: option.splits list.splits)
    (auto simp: queue_holds_def queue_msgs_def)

lemma queue_holds_step:
  assumes p: "queue_holds q m (ms_broker s)" and n: "\<not> takes q m ev (ms_broker s)"
  shows "queue_holds q m (ms_broker (mq_step ev s))"
proof (cases ev)
  case (E_declare i st)
  then show ?thesis
    using p by (simp add: with_channel_broker declare_keeps [where P = "queue_holds q m"] queue_holds_declarations)
next
  case (E_publish i lk st m')
  then show ?thesis
    using p
    by (simp add: with_channel_broker Publisher_publish_confirm_def publish_confirm_keeps [where P = "queue_holds q m"] queue_holds_publish)
next
  case (E_deliver q')
  then show ?thesis
    using p by (auto simp: deliver_def queue_holds_def set_queue_def queue_msgs_def split: option.splits list.splits)
next
  case (E_consumer_gone q')
  then show ?thesis
    using p by (force simp: consumer_gone_def queue_holds_def set_queue_def queue_msgs_def split: option.splits)
qed (use p n in \<open>simp_all add: queue_holds_callback queue_holds_expire\<close>)

lemma queue_holds_run: "queue_holds q m (ms_broker s) \<Longrightarrow> never_taken q m evs s \<Longrightarrow> queue_holds q m (ms_broker (mq_run evs s))"
  unfolding mq_run_def by (induction evs arbitrary: s) (simp_all add: queue_holds_step)

section \<open>A confirmed message reaches its subscriber\<close>

definition bound :: "string \<Rightarrow> exchange_kind \<Rightarrow> string \<Rightarrow> string \<Rightarrow> broker \<Rightarrow> bool" where
  "bound ex ty q k b = (br_exchanges b ex = Some ty \<and> br_queues b q \<noteq> None \<and> (ex, q, k) \<in> set (br_bindings b))"

lemma extends_on_channel: "(\<And>b. extends b (snd (f b))) \<Longrightarrow> extends (snd ch) (snd (snd (on_channel f ch)))"
  by (simp add: on_channel_def prod.case_eq_if)

lemma extends_exchange: "extends b b' \<Longrightarrow> br_exchanges b ex = Some ty \<Longrightarrow> br_exchanges b' ex = Some ty"
  by (auto simp: extends_def map_le_def dom_def)

lemma bound_extends: "bound ex ty q k b \<Longrightarrow> extends b b' \<Longrightarrow> bound ex ty q k b'"
  unfolding bound_def extends_def by (auto simp: map_le_def dom_def)

lemma on_channel_ok: "fst (on_channel f ch) \<Longrightarrow> fst (f (snd ch)) \<and> snd (snd (on_channel f ch)) = snd (f (snd ch))"
  by (simp add: on_channel_def prod.case_eq_if split: if_splits)

lemma declarations_ok:
  "fst (declare_exchange ex ty b) \<Longrightarrow> br_exchanges (snd (declare_exchange ex ty b)) ex = Some ty"
  "fst (bind_queue ex q k b) \<Longrightarrow> br_queues (snd (bind_queue ex q k b)) q \<noteq> None \<and> (ex, q, k) \<in> set (br_bindings (snd (bind_queue ex q k b)))"
  by (auto simp: declare_exchange_def bind_queue_def split: option.splits if_splits)

lemma declare_chain_binds:
  assumes "fst (declare_chain st args False ch)"
  shows "bound (ds_exchange st) (exchange_type (ds_exchange_type st)) (ds_queue st) (ds_binding_key st) (snd (snd (declare_chain st args False ch)))"
proof -
  let ?ex = "ds_exchange st" and ?ty = "exchange_type (ds_exchange_type st)"
  define r1 where "r1 = on_channel (declare_exchange ?ex ?ty) ch"
  define r2 where "r2 = on_channel (declare_queue (ds_queue st) args) (snd r1)"
  define r3 where "r3 = on_channel (bind_queue ?ex (ds_queue st) (ds_binding_key st)) (snd r2)"
  have d: "declare_chain st args False ch = (if fst r1 then if fst r2 then r3 else r2 else r1)"
    unfolding declare_chain_steps Let_def r1_def r2_def r3_def by simp
  with assms have ok: "fst r1" "fst r2" "fst r3" by (auto split: if_splits)
  have "br_exchanges (snd (snd r1)) ?ex = Some ?ty"
    using ok(1) on_channel_ok declarations_ok(1) unfolding r1_def by metis
  moreover have "extends (snd (snd r1)) (snd (snd r2))" "extends (snd (snd r2)) (snd (snd r3))"
    unfolding r2_def r3_def by (simp_all add: extends_on_channel)
  ultimately have "br_exchanges (snd (snd r3)) ?ex = Some ?ty"
    by (meson extends_exchange)
  moreover have "br_queues (snd (snd r3)) (ds_queue st) \<noteq> None \<and> (?ex, ds_queue st, ds_binding_key st) \<in> set (br_bindings (snd (snd r3)))"
    using ok(3) on_channel_ok declarations_ok(2) unfolding r3_def by metis
  ultimately show ?thesis using ok d by (simp add: bound_def)
qed

lemma fold_enqueue_adds: "q \<in> set qs \<Longrightarrow> br_queues b q \<noteq> None \<Longrightarrow> queue_holds q m (fold (enqueue m) qs b)"
proof (induction qs arbitrary: b)
  case (Cons q' qs)
  show ?case
  proof (cases "q' = q")
    case True
    then have "queue_holds q m (enqueue m q' b)"
      using Cons.prems(2) by (auto simp: queue_holds_def enqueue_def queue_msgs_def)
    then show ?thesis by (simp add: queue_holds_fold_enqueue)
  next
    case False
    with Cons.prems have "q \<in> set qs" "br_queues (enqueue m q' b) q \<noteq> None"
      by (auto simp: enqueue_def split: option.splits)
    then show ?thesis using Cons.IH by simp
  qed
qed simp

lemma publish_reaches:
  assumes "bound ex ty q k b" and "binding_matches ty k key"
  shows "queue_holds q m (broker_publish ex key m b)"
  using assms unfolding broker_publish_def
  by (intro fold_enqueue_adds) (auto simp: bound_def broker_route_def intro!: bexI [of _ "(ex, q, k)"])


section \<open>The services at start\<close>

text \<open>The transmite service declares no queue, whatever the configuration says.\<close>

definition transmite_settings :: "string \<Rightarrow> declare_settings" where
  "transmite_settings ex =
     \<lparr>ds_exchange = ex, ds_exchange_type = ''fanout'', ds_queue = [], ds_binding_key = [], ds_delayed_ttl_ms = 5000\<rparr>"

text \<open>The two queues the message service binds to that exchange.\<close>

definition message_queue_settings :: "string \<Rightarrow> string \<Rightarrow> string \<Rightarrow> declare_settings" where
  "message_queue_settings ex q k =
     \<lparr>ds_exchange = ex, ds_exchange_type = ''fanout'', ds_queue = q, ds_binding_key = k, ds_delayed_ttl_ms = 5000\<rparr>"

definition message_mq_objects :: "string \<Rightarrow> string \<Rightarrow> string \<Rightarrow> string \<Rightarrow> string \<Rightarrow> declare_settings list" where
  "message_mq_objects ex queue_db queue_es key_db key_es =
     [message_queue_settings ex queue_db key_db, message_queue_settings ex queue_es key_es]"

text \<open>The push publisher, the index publisher and subscriber, and the push service's subscriber have direct exchanges.\<close>

definition direct_settings :: "string \<Rightarrow> string \<Rightarrow> string \<Rightarrow> declare_settings" where
  "direct_settings ex q k =
     \<lparr>ds_exchange = ex, ds_exchange_type = ''direct'', ds_queue = q, ds_binding_key = k, ds_delayed_ttl_ms = 5000\<rparr>"

definition make_push_publisher :: "string \<Rightarrow> string \<Rightarrow> string \<Rightarrow> declare_settings" where
  "make_push_publisher ex q k = direct_settings ex q k"

definition make_es_publisher :: "string \<Rightarrow> string \<Rightarrow> string \<Rightarrow> declare_settings" where
  "make_es_publisher ex q k = direct_settings ex q k"

definition make_es_index_subscriber :: "string \<Rightarrow> string \<Rightarrow> string \<Rightarrow> declare_settings" where
  "make_es_index_subscriber ex q k = direct_settings ex q k"

definition push_mq_object :: "string \<Rightarrow> string \<Rightarrow> string \<Rightarrow> declare_settings" where
  "push_mq_object ex q k = direct_settings ex q k"

text \<open>The names of a deployment: three exchanges and the queues and keys of the services.\<close>

record mq_names =
  mn_msg_exchange :: string
  mn_queue_db :: string
  mn_queue_es :: string
  mn_key_db :: string
  mn_key_es :: string
  mn_push_exchange :: string
  mn_push_queue :: string
  mn_push_key :: string
  mn_es_exchange :: string
  mn_es_queue :: string
  mn_es_key :: string

definition start_settings :: "mq_names \<Rightarrow> declare_settings list" where
  "start_settings n =
     transmite_settings (mn_msg_exchange n)
     # message_mq_objects (mn_msg_exchange n) (mn_queue_db n) (mn_queue_es n) (mn_key_db n) (mn_key_es n)
     @ [make_push_publisher (mn_push_exchange n) (mn_push_queue n) (mn_push_key n),
        make_es_publisher (mn_es_exchange n) (mn_es_queue n) (mn_es_key n),
        make_es_index_subscriber (mn_es_exchange n) (mn_es_queue n) (mn_es_key n),
        push_mq_object (mn_push_exchange n) (mn_push_queue n) (mn_push_key n)]"

definition default_names :: mq_names where
  "default_names =
     \<lparr>mn_msg_exchange = ''chat_msg_exchange'', mn_queue_db = ''msg_queue_db'', mn_queue_es = ''msg_queue_es'',
      mn_key_db = [], mn_key_es = ''msg_queue_es_index'', mn_push_exchange = ''chat_push_exchange'',
      mn_push_queue = ''msg_push_queue'', mn_push_key = ''push'', mn_es_exchange = ''es_index_exchange'',
      mn_es_queue = ''msg_queue_es_index'', mn_es_key = ''msg_queue_es_index''\<rparr>"

text \<open>The kind every service gives an exchange, and that no queue has arguments.\<close>

definition agreed_kind :: "mq_names \<Rightarrow> string \<Rightarrow> exchange_kind" where
  "agreed_kind n ex = (if ex = mn_msg_exchange n then Ex_fanout else Ex_direct)"

definition agreed :: "mq_names \<Rightarrow> broker \<Rightarrow> bool" where
  "agreed n b =
     ((\<forall>ex ty. br_exchanges b ex = Some ty \<longrightarrow> ty = agreed_kind n ex)
      \<and> (\<forall>q qu. br_queues b q = Some qu \<longrightarrow> bq_args qu = []))"

lemma agreed_declarations:
  "agreed n b \<Longrightarrow> ty = agreed_kind n ex \<Longrightarrow>
     fst (declare_exchange ex ty b) \<and> agreed n (snd (declare_exchange ex ty b))"
  "agreed n b \<Longrightarrow> fst (declare_queue q [] b) \<and> agreed n (snd (declare_queue q [] b)) \<and> br_queues (snd (declare_queue q [] b)) q \<noteq> None
     \<and> br_exchanges (snd (declare_queue q [] b)) = br_exchanges b"
  "agreed n b \<Longrightarrow> br_exchanges b ex \<noteq> None \<Longrightarrow> br_queues b q \<noteq> None \<Longrightarrow>
     fst (bind_queue ex q k b) \<and> agreed n (snd (bind_queue ex q k b))"
  by (auto simp: agreed_def declare_exchange_def declare_queue_def bind_queue_def split: option.splits)

lemma on_open_channel: "fst (f b) \<Longrightarrow> on_channel f (True, b) = (True, True, snd (f b))"
  by (simp add: on_channel_def prod.case_eq_if)

lemma agreed_declare_chain:
  assumes "agreed n b" and "exchange_type (ds_exchange_type st) = agreed_kind n (ds_exchange st)"
  obtains b' where "declare_chain st [] False (True, b) = (True, True, b')" and "agreed n b'"
proof -
  let ?ty = "exchange_type (ds_exchange_type st)"
  let ?b1 = "snd (declare_exchange (ds_exchange st) ?ty b)"
  let ?b2 = "snd (declare_queue (ds_queue st) [] ?b1)"
  let ?b3 = "snd (bind_queue (ds_exchange st) (ds_queue st) (ds_binding_key st) ?b2)"
  note 1 = agreed_declarations(1) [OF assms]
  note 2 = agreed_declarations(2) [of n ?b1 "ds_queue st"]
  have "br_exchanges ?b2 (ds_exchange st) \<noteq> None"
    using 1 2 declarations_ok(1) [of "ds_exchange st" ?ty b] by simp
  then have 3: "fst (bind_queue (ds_exchange st) (ds_queue st) (ds_binding_key st) ?b2)" "agreed n ?b3"
    using agreed_declarations(3) [of n ?b2 "ds_exchange st" "ds_queue st" "ds_binding_key st"] 1 2 by auto
  have "declare_chain st [] False (True, b) = (True, True, ?b3)"
    using 1 2 3 by (simp add: declare_chain_steps Let_def on_open_channel)
  with 3 show thesis using that by blast
qed

lemma agreed_declare:
  assumes "agreed n b" and "exchange_type (ds_exchange_type st) = agreed_kind n (ds_exchange st)" and "ds_exchange_type st \<noteq> ''delayed''"
  shows "fst (MQClient_declare st (True, b)) \<and> agreed n (snd (MQClient_declare st (True, b)))
    \<and> (ds_queue st \<noteq> [] \<longrightarrow> bound (ds_exchange st) (exchange_type (ds_exchange_type st)) (ds_queue st) (ds_binding_key st)
          (snd (MQClient_declare st (True, b))))"
proof (cases "ds_queue st = []")
  case True
  then show ?thesis
    using agreed_declarations(1) [OF assms(1,2)] by (simp add: MQClient_declare_def declare_exchange_only_def on_open_channel)
next
  case False
  obtain b' where d: "declare_chain st [] False (True, b) = (True, True, b')" "agreed n b'"
    using agreed_declare_chain [OF assms(1,2)] .
  then show ?thesis
    using declare_chain_binds [of st "[]" "(True, b)"] False assms(3) by (simp add: MQClient_declare_def)
qed

lemma start_settings_agree:
  assumes "mn_push_exchange n \<noteq> mn_msg_exchange n" and "mn_es_exchange n \<noteq> mn_msg_exchange n" and "st \<in> set (start_settings n)"
  shows "exchange_type (ds_exchange_type st) = agreed_kind n (ds_exchange st) \<and> ds_exchange_type st \<noteq> ''delayed''"
  using assms
  by (auto simp: start_settings_def message_mq_objects_def message_queue_settings_def transmite_settings_def direct_settings_def
      make_push_publisher_def make_es_publisher_def make_es_index_subscriber_def push_mq_object_def exchange_type_def agreed_kind_def)

definition start_all :: "(nat \<times> declare_settings) list \<Rightarrow> mq_sys" where
  "start_all starts = mq_run (map (\<lambda>(i, st). E_declare i st) starts) new_mq"

lemma start_all_agreed:
  assumes "mn_push_exchange n \<noteq> mn_msg_exchange n" and "mn_es_exchange n \<noteq> mn_msg_exchange n" and "snd ` set starts \<subseteq> set (start_settings n)"
  shows "(\<forall>i. ms_open (start_all starts) i) \<and> agreed n (ms_broker (start_all starts))
    \<and> (\<forall>st\<in>snd ` set starts. ds_queue st \<noteq> [] \<longrightarrow>
        bound (ds_exchange st) (exchange_type (ds_exchange_type st)) (ds_queue st) (ds_binding_key st) (ms_broker (start_all starts)))"
  using assms(3)
proof (induction starts rule: rev_induct)
  case Nil
  then show ?case by (simp add: start_all_def mq_run_def new_mq_def new_broker_def agreed_def)
next
  case (snoc x starts)
  obtain i st where x: "x = (i, st)" by (cases x)
  let ?s = "start_all starts" and ?t = "mq_step (E_declare i st) (start_all starts)"
  have run: "start_all (starts @ [x]) = ?t" by (simp add: start_all_def mq_run_def x)
  have ih: "\<forall>i. ms_open ?s i" "agreed n (ms_broker ?s)" using snoc by auto
  have st: "exchange_type (ds_exchange_type st) = agreed_kind n (ds_exchange st)" "ds_exchange_type st \<noteq> ''delayed''"
    using start_settings_agree [OF assms(1,2)] snoc.prems by (auto simp: x)
  note new = agreed_declare [OF ih(2) st]
  have old: "bound ex ty q k (ms_broker ?s) \<Longrightarrow> bound ex ty q k (ms_broker ?t)" for ex ty q k
    using bound_extends extends_step [OF extends_refl] by blast
  have "ms_open ?t j" for j
    using ih(1) new by (simp add: with_channel_def prod.case_eq_if)
  moreover have "agreed n (ms_broker ?t)" using ih(1) new by (simp add: with_channel_broker)
  moreover have "ds_queue st \<noteq> [] \<Longrightarrow> bound (ds_exchange st) (exchange_type (ds_exchange_type st)) (ds_queue st) (ds_binding_key st) (ms_broker ?t)"
    using ih(1) new by (simp add: with_channel_broker)
  ultimately show ?case using snoc old unfolding run by (auto simp: x)
qed

text \<open>
  The services agree on the topology. However many instances of the transmite, message and push
  service start, in whatever order, and whatever names are configured as long as the exchange for messages is
  not one of the two others, no declaration is refused, so every channel stays usable, and every queue of a
  service that has started is bound to its exchange.
\<close>
theorem services_agree_on_topology:
  assumes "mn_push_exchange n \<noteq> mn_msg_exchange n" and "mn_es_exchange n \<noteq> mn_msg_exchange n" and "snd ` set starts \<subseteq> set (start_settings n)"
  shows "ms_open (start_all starts) i
    \<and> (\<forall>st\<in>snd ` set starts. ds_queue st \<noteq> [] \<longrightarrow>
        bound (ds_exchange st) (exchange_type (ds_exchange_type st)) (ds_queue st) (ds_binding_key st) (ms_broker (start_all starts)))"
  using start_all_agreed [OF assms] by blast

theorem services_agree_on_topology_witness:
  "ms_open (start_all [(0, make_push_publisher ''chat_push_exchange'' ''msg_push_queue'' ''push''), (1, transmite_settings ''chat_msg_exchange''),
     (2, push_mq_object ''chat_push_exchange'' ''msg_push_queue'' ''push'')]) 2"
  by (rule conjunct1 [OF services_agree_on_topology [where n = default_names]])
    (simp_all add: default_names_def start_settings_def)

section \<open>A message sent too early\<close>

lemma nothing_pending_declare:
  assumes "\<And>q. \<not> queue_holds q m (ms_broker s)"
  shows "\<not> queue_holds q m (ms_broker (mq_step (E_declare i st) s))"
  using assms
  by (simp add: with_channel_broker, intro declare_keeps [where P = "\<lambda>b. \<not> queue_holds q m b"])
    (auto simp: queue_holds_def declare_exchange_def declare_queue_def bind_queue_def queue_msgs_def split: option.splits)

lemma nothing_pending_declares:
  "(\<And>q. \<not> queue_holds q m (ms_broker s)) \<Longrightarrow> \<not> queue_holds q m (ms_broker (mq_run (map (\<lambda>(i, st). E_declare i st) starts) s))"
  unfolding mq_run_def
  by (induction starts arbitrary: s q) (auto simp del: mq_step.simps intro!: nothing_pending_declare)

text \<open>
  Claim C38. A message confirmed before the message service has ever started is lost. When the transmite
  service has declared its exchange on a fresh broker and publishes a message, the broker confirms it - the
  sender is told the message was accepted - although no queue is bound; whatever services start afterwards,
  the message is in no queue.
\<close>
theorem confirmed_before_subscribers_is_lost:
  "let s = mq_step (E_declare i (transmite_settings ex)) new_mq
   in fst (Publisher_publish_confirm Link_up (transmite_settings ex) m (ms_open s i, ms_broker s)) = Acked
     \<and> \<not> queue_holds q m (ms_broker (mq_run (map (\<lambda>(i, st). E_declare i st) starts)
           (mq_step (E_publish i Link_up (transmite_settings ex) m) s)))"
proof -
  let ?s = "mq_step (E_declare i (transmite_settings ex)) new_mq"
  have b: "ms_broker ?s = \<lparr>br_exchanges = [ex \<mapsto> Ex_fanout], br_queues = (\<lambda>_. None), br_bindings = []\<rparr>" and o: "ms_open ?s i"
    by (simp_all add: with_channel_def MQClient_declare_def transmite_settings_def declare_exchange_only_def on_channel_def
        declare_exchange_def new_mq_def new_broker_def exchange_type_def)
  have "\<not> queue_holds q m (ms_broker (mq_step (E_publish i Link_up (transmite_settings ex) m) ?s))" for q
    unfolding mq_step.simps(2) with_channel_broker b o
    by (simp add: b o Publisher_publish_confirm_def publish_confirm_def broker_publish_def broker_route_def queue_holds_def transmite_settings_def)
  then have "\<not> queue_holds q m (ms_broker (mq_run (map (\<lambda>(i, st). E_declare i st) starts)
           (mq_step (E_publish i Link_up (transmite_settings ex) m) ?s)))"
    by (rule nothing_pending_declares)
  moreover have "fst (Publisher_publish_confirm Link_up (transmite_settings ex) m (ms_open ?s i, ms_broker ?s)) = Acked"
    unfolding b by (simp only: o) (simp add: Publisher_publish_confirm_def publish_confirm_def transmite_settings_def)
  ultimately show ?thesis by (simp only: Let_def) simp
qed


section \<open>Delayed queues\<close>

text \<open>
  A delayed message leaves its own queue when its time is over and is then in the queue the subscriber consumes:
  the three dead-letter names of the declaration and of the subscriber agree.
\<close>

lemma delayed_message_reaches_subscriber:
  assumes "ds_exchange_type st = ''delayed''" and "ds_queue st \<noteq> []"
  shows "queue_holds (subscriber_queue st) m (ms_broker (mq_run [E_declare i st, E_publish j Link_up st m, E_expire (ds_queue st)] new_mq))"
  using assms
  by (simp add: mq_run_def with_channel_def MQClient_declare_def declare_chain_steps Let_def on_channel_def declare_exchange_def
      declare_queue_def bind_queue_def new_mq_def new_broker_def Publisher_publish_confirm_def publish_confirm_def broker_publish_def
      broker_route_def enqueue_def expire_def dead_letter_def arg_str_def delayed_args_def set_queue_def queue_holds_def queue_msgs_def
      subscriber_queue_def dlx_exchange_def dlx_queue_def dlx_binding_key_def exchange_type_def)

end
