(* ===== verification/Local_Rate_Limiter.thy ===== *)
theory Local_Rate_Limiter
  imports Rate_Limiter "HOL-Library.AList" Complex_Main
begin

text \<open>
  The in-process token buckets of common/utils/local_rate_limiter.hpp, the limiter that answers
  while Redis is unavailable (the argument \<open>local\<close> of \<open>RateLimiter_allow\<close>). Tokens are
  double-precision numbers; every arithmetic operation on them is followed by the rounding \<open>rnd\<close>, an
  argument of the model of which only documented facts of IEEE rounding are used: it is monotone and
  leaves zero and the integers below \<open>2 ^ 53\<close> alone. The hash of a key is an argument. Calls run one
  after the other, as they do on one shard.

  Shown: the counter of buckets is the number of buckets in the shards and never exceeds 65536,
  however many keys are used; within one millisecond a key admits no more calls than its capacity.
\<close>

record lbucket =
  lb_tokens :: rat
  lb_refill_ms :: int
  lb_seen_ms :: int

record local_limiter =
  ll_shards :: "nat \<Rightarrow> (string \<times> lbucket) list"
  ll_bucket_count :: nat
  ll_operations :: nat
  ll_reclaim_cursor :: nat

definition kShardCount :: nat where "kShardCount = 64"
definition kMaxBuckets :: nat where "kMaxBuckets = 65536"
definition kReclaimScan :: nat where "kReclaimScan = 8"

definition new_limiter :: local_limiter where
  "new_limiter = \<lparr>ll_shards = \<lambda>_. [], ll_bucket_count = 0, ll_operations = 0, ll_reclaim_cursor = 0\<rparr>"

section \<open>Operations\<close>

definition consume :: "(rat \<Rightarrow> rat) \<Rightarrow> int \<Rightarrow> int \<Rightarrow> int \<Rightarrow> lbucket \<Rightarrow> bool \<times> lbucket" where
  "consume rnd capacity window_sec now_ms b =
     (let elapsed_ms = (if now_ms > lb_refill_ms b then now_ms - lb_refill_ms b else 0);
          refill = rnd (rnd (of_int elapsed_ms * of_int capacity) / rnd (of_int window_sec * 1000));
          tokens = min (of_int capacity) (rnd (lb_tokens b + refill));
          b1 = b\<lparr>lb_tokens := tokens, lb_refill_ms := now_ms, lb_seen_ms := now_ms\<rparr>
      in if tokens < 1 then (False, b1) else (True, b1\<lparr>lb_tokens := rnd (tokens - 1)\<rparr>))"

definition reserve_bucket :: "local_limiter \<Rightarrow> bool \<times> local_limiter" where
  "reserve_bucket s =
     (if ll_bucket_count s < kMaxBuckets then (True, s\<lparr>ll_bucket_count := ll_bucket_count s + 1\<rparr>) else (False, s))"

definition idle :: "int \<Rightarrow> int \<Rightarrow> lbucket \<Rightarrow> bool" where
  "idle now_ms window_sec b = (now_ms > lb_seen_ms b \<and> now_ms - lb_seen_ms b > window_sec * 2000)"

definition cleanup :: "nat \<Rightarrow> int \<Rightarrow> int \<Rightarrow> local_limiter \<Rightarrow> local_limiter" where
  "cleanup i now_ms window_sec s =
     (let kept = filter (\<lambda>(k, b). \<not> idle now_ms window_sec b) (ll_shards s i);
          removed = length (ll_shards s i) - length kept
      in s\<lparr>ll_shards := (ll_shards s)(i := kept), ll_bucket_count := ll_bucket_count s - removed\<rparr>)"

fun reclaim_scan :: "nat \<Rightarrow> int \<Rightarrow> int \<Rightarrow> nat list \<Rightarrow> local_limiter \<Rightarrow> local_limiter" where
  "reclaim_scan target now_ms window_sec [] s = s"
| "reclaim_scan target now_ms window_sec (i # is) s =
     (if i = target then reclaim_scan target now_ms window_sec is s
      else let s1 = cleanup i now_ms window_sec s
           in if ll_bucket_count s1 < kMaxBuckets then s1 else reclaim_scan target now_ms window_sec is s1)"

definition reclaim_idle_bounded :: "nat \<Rightarrow> int \<Rightarrow> int \<Rightarrow> local_limiter \<Rightarrow> local_limiter" where
  "reclaim_idle_bounded target now_ms window_sec s =
     (let start = ll_reclaim_cursor s
      in reclaim_scan target now_ms window_sec (map (\<lambda>offset. (start + offset) mod kShardCount) [0..<kReclaimScan])
           (s\<lparr>ll_reclaim_cursor := start + kReclaimScan\<rparr>))"

definition set_bucket :: "nat \<Rightarrow> string \<Rightarrow> lbucket \<Rightarrow> local_limiter \<Rightarrow> local_limiter" where
  "set_bucket i key b s = s\<lparr>ll_shards := (ll_shards s)(i := AList.update key b (ll_shards s i))\<rparr>"

text \<open>A reservation, if necessary after cleaning this shard and then up to eight others.\<close>

definition reserve_or_reclaim :: "nat \<Rightarrow> int \<Rightarrow> int \<Rightarrow> local_limiter \<Rightarrow> bool \<times> local_limiter" where
  "reserve_or_reclaim i now_ms window_sec s =
     (case reserve_bucket s of
        (True, s1) \<Rightarrow> (True, s1)
      | (False, s1) \<Rightarrow>
          (case reserve_bucket (cleanup i now_ms window_sec s1) of
             (True, s2) \<Rightarrow> (True, s2)
           | (False, s2) \<Rightarrow> reserve_bucket (reclaim_idle_bounded i now_ms window_sec s2)))"

definition local_allow ::
  "(rat \<Rightarrow> rat) \<Rightarrow> (string \<Rightarrow> nat) \<Rightarrow> string \<Rightarrow> int \<Rightarrow> int \<Rightarrow> int \<Rightarrow> local_limiter \<Rightarrow> bool \<times> local_limiter" where
  "local_allow rnd hash key capacity window_sec now_ms s =
     (if capacity \<le> 0 \<or> window_sec \<le> 0 then (True, s)
      else
        let i = hash key mod kShardCount;
            s1 = s\<lparr>ll_operations := ll_operations s + 1\<rparr>;
            s2 = (if ll_operations s1 mod 1024 = 0 then cleanup i now_ms window_sec s1 else s1)
        in case map_of (ll_shards s2 i) key of
             Some b \<Rightarrow> (case consume rnd capacity window_sec now_ms b of (r, b1) \<Rightarrow> (r, set_bucket i key b1 s2))
           | None \<Rightarrow>
               (case reserve_or_reclaim i now_ms window_sec s2 of
                  (False, s3) \<Rightarrow> (False, s3)
                | (True, s3) \<Rightarrow>
                    (True, set_bucket i key \<lparr>lb_tokens = of_int (capacity - 1), lb_refill_ms = now_ms, lb_seen_ms = now_ms\<rparr> s3)))"

fun local_calls :: "(rat \<Rightarrow> rat) \<Rightarrow> (string \<Rightarrow> nat) \<Rightarrow> (string \<times> int \<times> int \<times> int) list \<Rightarrow> local_limiter \<Rightarrow> bool list \<times> local_limiter" where
  "local_calls rnd hash [] s = ([], s)"
| "local_calls rnd hash ((key, capacity, window_sec, now_ms) # cs) s =
     (case local_allow rnd hash key capacity window_sec now_ms s of
        (r, s1) \<Rightarrow> (case local_calls rnd hash cs s1 of (rs, s2) \<Rightarrow> (r # rs, s2)))"

section \<open>The number of buckets\<close>

definition buckets :: "local_limiter \<Rightarrow> nat" where
  "buckets s = sum (\<lambda>i. length (ll_shards s i)) {..<kShardCount}"

text \<open>\<open>n\<close> is the number of reservations whose bucket has not been entered yet.\<close>

definition count_ok :: "nat \<Rightarrow> local_limiter \<Rightarrow> bool" where
  "count_ok n s = (ll_bucket_count s = buckets s + n \<and> ll_bucket_count s \<le> kMaxBuckets)"

lemma buckets_upd:
  "i < kShardCount \<Longrightarrow> buckets (s\<lparr>ll_shards := (ll_shards s)(i := xs)\<rparr>) + length (ll_shards s i) = buckets s + length xs"
proof -
  assume "i < kShardCount"
  then have "sum f {..<kShardCount} = f i + sum f ({..<kShardCount} - {i})" for f :: "nat \<Rightarrow> nat"
    by (intro sum.remove) auto
  moreover have "sum (\<lambda>j. length (((ll_shards s)(i := xs)) j)) ({..<kShardCount} - {i}) = sum (\<lambda>j. length (ll_shards s j)) ({..<kShardCount} - {i})"
    by (intro sum.cong) auto
  ultimately show ?thesis by (simp add: buckets_def)
qed

lemma buckets_other [simp]:
  "buckets (s\<lparr>ll_bucket_count := c\<rparr>) = buckets s" "buckets (s\<lparr>ll_operations := p\<rparr>) = buckets s" "buckets (s\<lparr>ll_reclaim_cursor := q\<rparr>) = buckets s"
  by (simp_all add: buckets_def)

lemma cleanup_ok: "count_ok n s \<Longrightarrow> i < kShardCount \<Longrightarrow> count_ok n (cleanup i now_ms window_sec s)"
proof -
  assume s: "count_ok n s" and i: "i < kShardCount"
  let ?kept = "filter (\<lambda>(k, b). \<not> idle now_ms window_sec b) (ll_shards s i)"
  let ?t = "s\<lparr>ll_shards := (ll_shards s)(i := ?kept)\<rparr>"
  have "length ?kept \<le> length (ll_shards s i)" by (rule length_filter_le)
  then have "ll_bucket_count s - (length (ll_shards s i) - length ?kept) = buckets ?t + n"
    using s buckets_upd [OF i, of s ?kept] unfolding count_ok_def by arith
  moreover have "buckets (cleanup i now_ms window_sec s) = buckets ?t" by (simp add: cleanup_def Let_def buckets_def)
  moreover have "ll_bucket_count (cleanup i now_ms window_sec s) = ll_bucket_count s - (length (ll_shards s i) - length ?kept)"
    by (simp add: cleanup_def Let_def)
  ultimately show ?thesis using s unfolding count_ok_def by linarith
qed

lemma reclaim_scan_ok: "count_ok n s \<Longrightarrow> \<forall>i \<in> set is. i < kShardCount \<Longrightarrow> count_ok n (reclaim_scan target now_ms window_sec is s)"
  by (induction target now_ms window_sec "is" s rule: reclaim_scan.induct) (auto simp: cleanup_ok Let_def)

lemma reclaim_ok: "count_ok n s \<Longrightarrow> count_ok n (reclaim_idle_bounded target now_ms window_sec s)"
  unfolding reclaim_idle_bounded_def Let_def
  by (rule reclaim_scan_ok) (auto simp: count_ok_def kShardCount_def)

lemma reserve_ok: "count_ok 0 s \<Longrightarrow> reserve_bucket s = (r, s') \<Longrightarrow> count_ok (if r then 1 else 0) s'"
  by (auto simp: reserve_bucket_def count_ok_def split: if_splits)

lemma reserve_or_reclaim_ok:
  assumes "count_ok 0 s" and "i < kShardCount" and "reserve_or_reclaim i now_ms window_sec s = (r, s')"
  shows "count_ok (if r then 1 else 0) s'"
proof -
  obtain r1 s1 where r1: "reserve_bucket s = (r1, s1)" by fastforce
  obtain r2 s2 where r2: "reserve_bucket (cleanup i now_ms window_sec s1) = (r2, s2)" by fastforce
  show ?thesis
  proof (cases r1)
    case True
    then show ?thesis using assms(1,3) r1 reserve_ok [OF assms(1) r1] by (simp add: reserve_or_reclaim_def)
  next
    case False
    then have 2: "count_ok (if r2 then 1 else 0) s2"
      using reserve_ok [OF cleanup_ok [OF _ assms(2)] r2] reserve_ok [OF assms(1) r1] by simp
    show ?thesis
    proof (cases r2)
      case True
      then show ?thesis using assms(3) 2 r1 r2 False by (simp add: reserve_or_reclaim_def)
    next
      case F: False
      then have "reserve_bucket (reclaim_idle_bounded i now_ms window_sec s2) = (r, s')"
        using assms(3) r1 r2 False by (simp add: reserve_or_reclaim_def)
      then show ?thesis using reserve_ok [OF reclaim_ok] 2 F by simp
    qed
  qed
qed

text \<open>Entering a bucket of an existing key keeps the number, one of a new key uses up a reservation.\<close>

lemma set_bucket_ok:
  assumes "i < kShardCount"
  shows "map_of (ll_shards s i) key = Some b0 \<Longrightarrow> count_ok n s \<Longrightarrow> count_ok n (set_bucket i key b s)"
    and "map_of (ll_shards s i) key = None \<Longrightarrow> count_ok (Suc n) s \<Longrightarrow> count_ok n (set_bucket i key b s)"
proof -
  have len: "length (AList.update key b xs) = length xs + (if map_of xs key = None then 1 else 0)" for xs :: "(string \<times> lbucket) list"
    by (induction xs) auto
  note upd = buckets_upd [OF assms, of s "AList.update key b (ll_shards s i)", unfolded len]
  show "map_of (ll_shards s i) key = Some b0 \<Longrightarrow> count_ok n s \<Longrightarrow> count_ok n (set_bucket i key b s)"
    and "map_of (ll_shards s i) key = None \<Longrightarrow> count_ok (Suc n) s \<Longrightarrow> count_ok n (set_bucket i key b s)"
    using upd by (simp_all add: count_ok_def set_bucket_def)
qed

text \<open>Cleaning up never brings a key in.\<close>

lemma cleanup_absent: "map_of (ll_shards s j) key = None \<Longrightarrow> map_of (ll_shards (cleanup i now_ms window_sec s) j) key = None"
  by (auto simp: cleanup_def Let_def map_of_eq_None_iff)

lemma reclaim_absent:
  "map_of (ll_shards s j) key = None \<Longrightarrow> map_of (ll_shards (reclaim_scan target now_ms window_sec is s) j) key = None"
  by (induction target now_ms window_sec "is" s rule: reclaim_scan.induct) (simp_all add: cleanup_absent Let_def)

lemma reserve_absent: "ll_shards (snd (reserve_bucket s)) = ll_shards s"
  by (simp add: reserve_bucket_def)

lemma reserve_or_reclaim_absent:
  assumes "map_of (ll_shards s j) key = None"
  shows "map_of (ll_shards (snd (reserve_or_reclaim i now_ms window_sec s)) j) key = None"
proof -
  have r: "map_of (ll_shards (snd (reserve_bucket t)) j) key = None" if "map_of (ll_shards t j) key = None" for t
    using that by (simp add: reserve_absent)
  have "map_of (ll_shards (reclaim_idle_bounded i now_ms window_sec t) j) key = None" if "map_of (ll_shards t j) key = None" for t
    unfolding reclaim_idle_bounded_def Let_def by (rule reclaim_absent) (simp add: that)
  then show ?thesis
    using assms r r [OF cleanup_absent]
    by (simp add: reserve_or_reclaim_def prod.case_eq_if split: bool.split)
qed

lemma shard_less: "h mod kShardCount < kShardCount"
  by (simp add: kShardCount_def)

lemma local_allow_ok:
  assumes "count_ok 0 s" shows "count_ok 0 (snd (local_allow rnd hash key capacity window_sec now_ms s))"
proof (cases "capacity \<le> 0 \<or> window_sec \<le> 0")
  case False
  let ?i = "hash key mod kShardCount"
  let ?s1 = "s\<lparr>ll_operations := ll_operations s + 1\<rparr>"
  let ?s2 = "if ll_operations ?s1 mod 1024 = 0 then cleanup ?i now_ms window_sec ?s1 else ?s1"
  have s1: "count_ok 0 ?s1" using assms by (simp add: count_ok_def)
  then have s2: "count_ok 0 ?s2" using cleanup_ok [OF s1 shard_less] by simp
  show ?thesis
  proof (cases "map_of (ll_shards ?s2 ?i) key")
    case (Some b)
    obtain r b1 where "consume rnd capacity window_sec now_ms b = (r, b1)" by fastforce
    then show ?thesis using False Some set_bucket_ok(1) [OF shard_less Some s2]
      by (simp only: local_allow_def Let_def if_False option.case prod.case snd_conv)
  next
    case None
    obtain r s3 where r: "reserve_or_reclaim ?i now_ms window_sec ?s2 = (r, s3)" by fastforce
    note ok = reserve_or_reclaim_ok [OF s2 shard_less r]
    have "map_of (ll_shards s3 ?i) key = None" using reserve_or_reclaim_absent [OF None] r by (metis snd_conv)
    then show ?thesis using False None r ok set_bucket_ok(2) [OF shard_less, of s3 _ key 0]
      by (cases r) (simp_all only: local_allow_def Let_def if_False if_True option.case prod.case snd_conv bool.case One_nat_def)
  qed
qed (simp add: local_allow_def assms)

text \<open>
  The counter of buckets is exact and bounded: after any calls it is the number of buckets in the 64 shards, at most 65536.
\<close>

lemma local_limiter_bounded:
  "ll_bucket_count (snd (local_calls rnd hash cs new_limiter)) = buckets (snd (local_calls rnd hash cs new_limiter))
   \<and> buckets (snd (local_calls rnd hash cs new_limiter)) \<le> kMaxBuckets"
proof -
  have "count_ok 0 (snd (local_calls rnd hash cs s))" if "count_ok 0 s" for s
    using that
  proof (induction cs arbitrary: s)
    case (Cons c cs)
    obtain key capacity window_sec now_ms where c: "c = (key, capacity, window_sec, now_ms)" by (cases c)
    have "count_ok 0 (snd (local_allow rnd hash key capacity window_sec now_ms s))" using Cons.prems by (rule local_allow_ok)
    then show ?case using Cons.IH by (simp add: c prod.case_eq_if)
  qed simp
  moreover have "count_ok 0 new_limiter" by (simp add: count_ok_def new_limiter_def buckets_def)
  ultimately show ?thesis unfolding count_ok_def by (metis add_0_right)
qed

section \<open>Bursts\<close>

fun consumes :: "(rat \<Rightarrow> rat) \<Rightarrow> int \<Rightarrow> int \<Rightarrow> int \<Rightarrow> nat \<Rightarrow> lbucket \<Rightarrow> bool list" where
  "consumes rnd capacity window_sec now_ms 0 b = []"
| "consumes rnd capacity window_sec now_ms (Suc n) b =
     (case consume rnd capacity window_sec now_ms b of (r, b1) \<Rightarrow> r # consumes rnd capacity window_sec now_ms n b1)"

text \<open>Within one millisecond a bucket with at most \<open>k\<close> tokens admits at most \<open>k\<close> calls, whatever the rounding loses or adds.\<close>

lemma local_burst_bounded:
  assumes "mono rnd" and "\<And>z :: int. \<bar>z\<bar> \<le> 2 ^ 53 \<Longrightarrow> rnd (of_int z) = of_int z"
    and "lb_tokens b \<le> of_int k" and "0 \<le> k" and "k \<le> 2 ^ 53" and "lb_refill_ms b = now_ms"
  shows "int (length (filter (\<lambda>r. r) (consumes rnd capacity window_sec now_ms n b))) \<le> k"
  using assms(3-6)
proof (induction n arbitrary: b k)
  case (Suc n)
  have 0: "rnd 0 = 0" using assms(2) [of 0] by simp
  let ?tok = "min (of_int capacity) (rnd (lb_tokens b))"
  let ?b = "b\<lparr>lb_tokens := ?tok, lb_refill_ms := now_ms, lb_seen_ms := now_ms\<rparr>"
  have le: "?tok \<le> of_int k"
    using monoD [OF assms(1) Suc.prems(1)] assms(2) [of k] Suc.prems(2,3) by (simp add: min_le_iff_disj)
  have step: "consume rnd capacity window_sec now_ms b = (if ?tok < 1 then (False, ?b) else (True, ?b\<lparr>lb_tokens := rnd (?tok - 1)\<rparr>))"
    using Suc.prems(4) by (simp add: consume_def Let_def 0)
  show ?case
  proof (cases "?tok < 1")
    case True
    then show ?thesis using Suc.IH [of ?b k] le Suc.prems(2,3) by (simp add: step)
  next
    case False
    then have k: "1 \<le> k" using le by linarith
    have "rnd (?tok - 1) \<le> rnd (of_int (k - 1))" using le by (intro monoD [OF assms(1)]) simp
    then have "rnd (?tok - 1) \<le> of_int (k - 1)" using assms(2) [of "k - 1"] k Suc.prems(3) by simp
    then have "int (length (filter (\<lambda>r. r) (consumes rnd capacity window_sec now_ms n (?b\<lparr>lb_tokens := rnd (?tok - 1)\<rparr>)))) \<le> k - 1"
      using Suc.IH [of "?b\<lparr>lb_tokens := rnd (?tok - 1)\<rparr>" "k - 1"] k Suc.prems(3) by simp
    then show ?thesis using False by (simp add: step)
  qed
qed simp

end
