(* ===== verification/Dao_Extras.thy ===== *)
theory Dao_Extras
  imports Relation_Dao Conversation_Dao Message_Dao Reliability_State Local_Rate_Limiter
begin

text \<open>
  Methods of the DAO and cache classes that no handler calls, and helpers of
  common/utils/reliability_state.hpp: \<open>FriendApplyTable::update\<close>, \<open>ConversationTable::select_private_by_peer\<close> and
  \<open>private_exists\<close>, the batch \<open>ConversationMemberTable::update\<close>,
  \<open>UserTimeLineTable::select_max_user_seq_per_user\<close>, \<open>Members::warm\<close>, \<open>set_sentinel\<close> and
  \<open>warm_sentinel\<close>, \<open>compute_token_bucket\<close>, and \<open>RateLimiter::allow\<close> together with its in-process fallback.

  Shown: the token bucket in C++ decides as the Lua script does while the elapsed time stays within 32 bits
  of intervals; the batch update is all or nothing; the two queries for the highest user sequence numbers
  agree; a rebuilt member list is written only if the version has not moved since it was read.
  \<open>private_exists\<close> ignores its first argument and so answers for the chats of other users.
\<close>

section \<open>Relationship and conversation tables\<close>

definition FriendApplyTable_update :: "bool \<Rightarrow> friend_apply_row \<Rightarrow> rel_db \<Rightarrow> bool \<times> rel_db" where
  "FriendApplyTable_update ok fa db =
     (if \<not> ok \<or> select_key fa_event_id (fa_event_id fa) (friend_applies db) = None then (False, db)
      else (True, db\<lparr>friend_applies := put_row fa_event_id fa (friend_applies db)\<rparr>))"

definition ConversationTable_select_private_by_peer :: "bool \<Rightarrow> uid \<Rightarrow> uid \<Rightarrow> conv_db \<Rightarrow> conversation_row option" where
  "ConversationTable_select_private_by_peer ok uid pid db =
     (if ok then query_one (\<lambda>c. cv_conversation_type c = PRIVATE \<and> cv_peer_user_id c = Some pid) (conversations db) else None)"

definition ConversationTable_private_exists :: "bool \<Rightarrow> uid \<Rightarrow> uid \<Rightarrow> conv_db \<Rightarrow> bool" where
  "ConversationTable_private_exists ok uid pid db = (ConversationTable_select_private_by_peer ok uid pid db \<noteq> None)"

text \<open>The batch update: null entries are skipped, and the first row that is gone rolls everything back.\<close>

fun update_members :: "conversation_member_row option list \<Rightarrow> conv_db \<Rightarrow> conv_db option" where
  "update_members [] db = Some db"
| "update_members (None # cs) db = update_members cs db"
| "update_members (Some c # cs) db = (if sel_member db (cm_key c) = None then None else update_members cs (put_member c db))"

definition ConversationMemberTable_update_many :: "bool \<Rightarrow> conversation_member_row option list \<Rightarrow> conv_db \<Rightarrow> bool \<times> conv_db" where
  "ConversationMemberTable_update_many ok items db =
     (if \<not> ok then (False, db) else case update_members items db of None \<Rightarrow> (False, db) | Some db' \<Rightarrow> (True, db'))"

section \<open>Timeline\<close>

definition highest_seq :: "uid \<Rightarrow> timeline_row list \<Rightarrow> u64 option" where
  "highest_seq u rs =
     (case sort_key (\<lambda>t. - uint (tl_user_seq t)) (filter (\<lambda>t. tl_user_id t = u) rs) of [] \<Rightarrow> None | t # _ \<Rightarrow> Some (tl_user_seq t))"

definition select_max_user_seq_per_user :: "bool \<Rightarrow> timeline_row list \<Rightarrow> (uid \<times> u64) list" where
  "select_max_user_seq_per_user ok rs =
     (if \<not> ok then []
      else List.map_filter (\<lambda>u. map_option (Pair u) (highest_seq u rs)) (sort (remdups (map tl_user_id rs))))"

section \<open>Member cache\<close>

text \<open>The version is read in one state and the list written in a later one.\<close>

definition Members_warm :: "bool \<Rightarrow> bool \<Rightarrow> cid \<Rightarrow> uid list \<Rightarrow> int \<Rightarrow> members_redis \<Rightarrow> members_redis \<Rightarrow> members_redis" where
  "Members_warm ok1 ok2 ssid uids ttl r0 r = snd (Members_warm_if_version ok2 ssid uids (Members_version ok1 ssid r0) ttl r)"

definition Members_set_sentinel :: "bool \<Rightarrow> bool \<Rightarrow> cid \<Rightarrow> int \<Rightarrow> members_redis \<Rightarrow> members_redis \<Rightarrow> members_redis" where
  "Members_set_sentinel ok1 ok2 ssid ttl r0 r = snd (Members_set_sentinel_if_version ok2 ssid (Members_version ok1 ssid r0) ttl r)"

definition Members_warm_sentinel :: "bool \<Rightarrow> bool \<Rightarrow> cid \<Rightarrow> int \<Rightarrow> members_redis \<Rightarrow> members_redis \<Rightarrow> members_redis" where
  "Members_warm_sentinel ok1 ok2 ssid ttl r0 r = Members_set_sentinel ok1 ok2 ssid ttl r0 r"

section \<open>Token bucket in C++\<close>

record token_bucket_decision =
  tb_allowed :: bool
  tb_tokens :: int
  tb_reset_at_ms :: int

definition to_int32 :: "int \<Rightarrow> int" where
  "to_int32 i = (i + 2 ^ 31) mod 2 ^ 32 - 2 ^ 31"

definition compute_token_bucket :: "int \<Rightarrow> int \<Rightarrow> int \<Rightarrow> int \<Rightarrow> int \<Rightarrow> token_bucket_decision" where
  "compute_token_bucket current_tokens last_refill_ms now_ms window_sec capacity =
     (if capacity \<le> 0 \<or> window_sec \<le> 0 then \<lparr>tb_allowed = True, tb_tokens = capacity, tb_reset_at_ms = now_ms\<rparr>
      else let fresh = (last_refill_ms \<le> 0 \<or> now_ms < last_refill_ms);
               tokens0 = (if fresh then capacity else current_tokens);
               last0 = (if fresh then now_ms else last_refill_ms);
               interval0 = window_sec * 1000 div capacity;
               interval = (if interval0 \<le> 0 then 1 else interval0);
               refill = to_int32 ((now_ms - last0) div interval);
               tokens = (if refill > 0 then min capacity (tokens0 + refill) else tokens0);
               last = (if refill > 0 then last0 + refill * interval else last0)
           in if tokens \<le> 0 then \<lparr>tb_allowed = False, tb_tokens = 0, tb_reset_at_ms = last\<rparr>
              else \<lparr>tb_allowed = True, tb_tokens = tokens - 1, tb_reset_at_ms = last\<rparr>)"

definition should_remove_cross_outbox :: "bool \<Rightarrow> bool \<Rightarrow> bool" where
  "should_remove_cross_outbox rpc_started rpc_succeeded = (rpc_started \<and> rpc_succeeded)"

definition resolve_ack_session_seq :: "u64 \<Rightarrow> u64" where
  "resolve_ack_session_seq message_session_seq = message_session_seq"

section \<open>The rate limiter with its fallback\<close>

definition RateLimiter_allow_or_local ::
  "bool \<Rightarrow> (rat \<Rightarrow> rat) \<Rightarrow> (string \<Rightarrow> nat) \<Rightarrow> string \<Rightarrow> int \<Rightarrow> int \<Rightarrow> int \<Rightarrow> int \<Rightarrow> rate_redis \<times> local_limiter \<Rightarrow> bool \<times> rate_redis \<times> local_limiter" where
  "RateLimiter_allow_or_local ok rnd hash key_full max_count window_sec now steady_ms s =
     (if ok then (case RateLimiter_allow True True key_full max_count window_sec now (fst s) of (a, r) \<Rightarrow> (a, r, snd s))
      else (case local_allow rnd hash key_full max_count window_sec steady_ms (snd s) of (a, l) \<Rightarrow> (a, fst s, l)))"

section \<open>The two token buckets agree\<close>

lemma to_int32_id: "- (2 ^ 31) \<le> i \<Longrightarrow> i < 2 ^ 31 \<Longrightarrow> to_int32 i = i"
  by (simp add: to_int32_def)

lemma compute_token_bucket_is_script:
  assumes "capacity > 0" and "window_sec > 0" and "bk_ts k > 0" and "now < bk_expires_at k"
    and "(now - bk_ts k) div rate_interval capacity (window_sec * 1000) < 2 ^ 31"
    and "0 \<le> bk_tokens k"
  shows "kRateLimitScript capacity window_sec now (Some k) =
    (let d = compute_token_bucket (bk_tokens k) (bk_ts k) now window_sec capacity
     in (tb_allowed d, Some \<lparr>bk_tokens = tb_tokens d, bk_ts = tb_reset_at_ms d, bk_expires_at = now + window_sec * 1000 * 2\<rparr>))"
proof (cases "now < bk_ts k")
  case True
  then show ?thesis
    using assms by (simp add: kRateLimitScript_def rate_refill_def live_bucket_def compute_token_bucket_def Let_def to_int32_def)
next
  case False
  let ?i = "rate_interval capacity (window_sec * 1000)" and ?q = "(now - bk_ts k) div rate_interval capacity (window_sec * 1000)"
  have i: "?i = (if window_sec * 1000 div capacity \<le> 0 then 1 else window_sec * 1000 div capacity)"
    by (simp add: rate_interval_def Let_def)
  have "?i > 0" by (simp add: rate_interval_def Let_def)
  then have "?q \<ge> 0" using False by (simp add: pos_imp_zdiv_nonneg_iff)
  then have "to_int32 ?q = ?q" using assms(5) by (intro to_int32_id) simp_all
  then show ?thesis
    using False assms
    by (simp add: kRateLimitScript_def rate_refill_def live_bucket_def compute_token_bucket_def Let_def i [symmetric])
      (simp add: min_def)
qed

section \<open>Batch update\<close>

text \<open>A failed batch changes nothing; a successful one has found every row.\<close>

lemma update_many_all_or_nothing:
  "\<not> fst (ConversationMemberTable_update_many ok items db) \<Longrightarrow> snd (ConversationMemberTable_update_many ok items db) = db"
  by (auto simp: ConversationMemberTable_update_many_def split: option.splits if_splits)

text \<open>A private chat of somebody else with the peer counts as one of the user.\<close>

lemma private_exists_ignores_user:
  "ConversationTable_private_exists ok uid pid db = ConversationTable_private_exists ok uid' pid db"
  by (simp add: ConversationTable_private_exists_def ConversationTable_select_private_by_peer_def)

section \<open>Highest sequence numbers\<close>

lemma highest_seq_Max:
  assumes "filter (\<lambda>t. tl_user_id t = u) rs \<noteq> []"
  shows "highest_seq u rs = Some (max_u64 (map tl_user_seq (filter (\<lambda>t. tl_user_id t = u) rs)))"
proof -
  let ?xs = "filter (\<lambda>t. tl_user_id t = u) rs"
  obtain t ts where s: "sort_key (\<lambda>t. - uint (tl_user_seq t)) ?xs = t # ts"
    using assms by (metis length_0_conv length_sort list.exhaust)
  have "set ?xs = set (t # ts)" using arg_cong [OF s, of set] by simp
  moreover have "\<forall>y\<in>set ts. tl_user_seq y \<le> tl_user_seq t"
    using sorted_sort_key [of "\<lambda>t. - uint (tl_user_seq t)" ?xs] unfolding s by (auto simp: word_le_def)
  ultimately have top: "tl_user_seq t \<in> tl_user_seq ` set ?xs" "\<forall>y\<in>tl_user_seq ` set ?xs. y \<le> tl_user_seq t" by auto
  have fm: "foldl max a ys = Max (insert a (set ys))" for a and ys :: "u64 list"
  proof (induction ys arbitrary: a)
    case (Cons y ys)
    have "Max (insert (max a y) (set ys)) = Max (insert a (insert y (set ys)))"
      by (cases "ys = []") (simp_all add: max.assoc)
    then show ?case using Cons by simp
  qed simp
  have "max_u64 (map tl_user_seq ?xs) = tl_user_seq t"
    unfolding max_u64_def fm using top by (intro Max_eqI) (auto simp: image_iff)
  then show ?thesis using s by (simp add: highest_seq_def)
qed

lemma highest_numbers_agree: "set (select_max_user_seq_per_user ok rs) = set (select_max_user_seq ok rs)"
proof -
  have "highest_seq u rs = Some (max_u64 (map tl_user_seq (filter (\<lambda>t. tl_user_id t = u) rs)))" if "u \<in> tl_user_id ` set rs" for u
    using that by (intro highest_seq_Max) (auto simp: filter_empty_conv)
  then show ?thesis
    by (force simp: select_max_user_seq_per_user_def select_max_user_seq_def List.map_filter_def)
qed

section \<open>Member cache\<close>

text \<open>A list read at an older version is not written.\<close>

lemma stale_list_not_written:
  assumes "lua_version ssid r \<noteq> u64_to_string (Members_version ok1 ssid r0)"
  shows "Members_warm ok1 ok2 ssid uids ttl r0 r = r" and "Members_set_sentinel ok1 ok2 ssid ttl r0 r = r"
  using assms by (simp_all add: Members_warm_def Members_set_sentinel_def Members_warm_if_version_def Members_set_sentinel_if_version_def)

end
