(* ===== verification/Side_Tables.thy ===== *)
theory Side_Tables
  imports Message_Dao
begin

text \<open>
  Four tables with complete DAO classes that no service uses yet: the devices of a user
  (odb/user_device.hxx, \<open>UserDeviceTable\<close>), the mentions, attachments and read receipts of a message
  (odb/message_mention.hxx, message_attachment.hxx, message_read.hxx and \<open>MessageMentionTable\<close>,
  \<open>MessageAttachmentTable\<close>, \<open>MessageReadTable\<close>). A table is the list of its rows in the order of their ids;
  a transaction that raises changes nothing.

  Shown: every operation keeps the unique indexes; writing mentions and receipts again changes nothing; the
  devices of a user can all be put off line. And three places where the code does not do what it says: an
  empty push token is a value of the unique index, so at most one device can be without a token once it has
  logged in again; a message that mentions a user and everybody is listed twice; a second receipt is answered
  with failure.
\<close>

section \<open>Devices\<close>

datatype DeviceType = Device_UNKNOWN | Device_ANDROID | Device_IOS | Device_WINDOWS | Device_MACOS | Device_LINUX
  | Device_WEB | Device_MINI

datatype OnlineStatus = Online_OFFLINE | Online_ONLINE | Online_AWAY | Online_BUSY | Online_HIDDEN

record user_device =
  dv_user_id :: uid
  dv_device_id :: string
  dv_device_type :: DeviceType
  dv_device_name :: "string option"
  dv_app_version :: "string option"
  dv_os_version :: "string option"
  dv_login_session_id :: string
  dv_push_token :: "string option"
  dv_login_ip :: "string option"
  dv_online_status :: OnlineStatus
  dv_last_active_time :: time
  dv_login_time :: time
  dv_expire_time :: "time option"
  dv_update_time :: time

definition dv_key :: "user_device \<Rightarrow> uid \<times> string" where
  "dv_key d = (dv_user_id d, dv_device_id d)"

text \<open>The getters of nullable text give the empty string for null; the setters never store null.\<close>

definition text_of :: "string option \<Rightarrow> string" where
  "text_of v = (case v of Some s \<Rightarrow> s | None \<Rightarrow> [])"

definition device_conflict :: "user_device \<Rightarrow> user_device \<Rightarrow> bool" where
  "device_conflict d d' =
     (dv_key d = dv_key d' \<or> dv_login_session_id d = dv_login_session_id d'
      \<or> dv_push_token d \<noteq> None \<and> dv_push_token d = dv_push_token d')"

definition persist_device :: "user_device \<Rightarrow> user_device list \<Rightarrow> user_device list option" where
  "persist_device d rs = (if list_ex (device_conflict d) rs then None else Some (rs @ [d]))"

definition update_device :: "user_device \<Rightarrow> user_device list \<Rightarrow> user_device list option" where
  "update_device d rs =
     (if list_ex (\<lambda>r. dv_key r \<noteq> dv_key d \<and> device_conflict d r) rs then None else Some (put_row dv_key d rs))"

fun update_devices :: "user_device list \<Rightarrow> user_device list \<Rightarrow> user_device list option" where
  "update_devices [] rs = Some rs"
| "update_devices (d # ds) rs = (case update_device d rs of None \<Rightarrow> None | Some rs' \<Rightarrow> update_devices ds rs')"

definition committed :: "'r list \<Rightarrow> 'r list option \<Rightarrow> bool \<times> 'r list" where
  "committed rs r = (case r of None \<Rightarrow> (False, rs) | Some rs' \<Rightarrow> (True, rs'))"

definition logged_in :: "time \<Rightarrow> user_device \<Rightarrow> user_device" where
  "logged_in now dev =
     dev\<lparr>dv_login_time := now, dv_last_active_time := now, dv_update_time := now, dv_online_status := Online_ONLINE\<rparr>"

definition login_update :: "time \<Rightarrow> user_device \<Rightarrow> user_device \<Rightarrow> user_device" where
  "login_update now dev ex =
     ex\<lparr>dv_device_type := dv_device_type dev, dv_device_name := Some (text_of (dv_device_name dev)),
        dv_app_version := Some (text_of (dv_app_version dev)), dv_os_version := Some (text_of (dv_os_version dev)),
        dv_login_session_id := dv_login_session_id dev, dv_push_token := Some (text_of (dv_push_token dev)),
        dv_login_ip := Some (text_of (dv_login_ip dev)), dv_online_status := Online_ONLINE, dv_last_active_time := now,
        dv_login_time := now, dv_expire_time := dv_expire_time dev, dv_update_time := now\<rparr>"

definition upsert_login :: "bool \<Rightarrow> time \<Rightarrow> user_device \<Rightarrow> user_device list \<Rightarrow> bool \<times> user_device list" where
  "upsert_login ok now dev0 rs =
     (let dev = logged_in now dev0
      in if \<not> ok then (False, rs)
         else committed rs
           (case query_one (\<lambda>r. dv_user_id r = dv_user_id dev \<and> dv_device_id r = dv_device_id dev) rs of
              Some ex \<Rightarrow> update_device (login_update now dev ex) rs
            | None \<Rightarrow> persist_device dev rs))"

definition update_by_session ::
  "bool \<Rightarrow> string \<Rightarrow> (user_device \<Rightarrow> user_device) \<Rightarrow> user_device list \<Rightarrow> bool \<times> user_device list" where
  "update_by_session ok sid f rs =
     (if \<not> ok then (False, rs)
      else case query_one (\<lambda>r. dv_login_session_id r = sid) rs of
             None \<Rightarrow> (False, rs)
           | Some d \<Rightarrow> committed rs (update_device (f d) rs))"

definition touch_active :: "bool \<Rightarrow> time \<Rightarrow> string \<Rightarrow> user_device list \<Rightarrow> bool \<times> user_device list" where
  "touch_active ok now sid rs =
     update_by_session ok sid (\<lambda>d. d\<lparr>dv_last_active_time := now, dv_online_status := Online_ONLINE\<rparr>) rs"

definition select_by_session :: "bool \<Rightarrow> string \<Rightarrow> user_device list \<Rightarrow> user_device option" where
  "select_by_session ok sid rs = (if ok then query_one (\<lambda>r. dv_login_session_id r = sid) rs else None)"

definition list_active :: "bool \<Rightarrow> uid \<Rightarrow> user_device list \<Rightarrow> user_device list" where
  "list_active ok uid rs = (if ok then filter (\<lambda>r. dv_user_id r = uid \<and> dv_online_status r \<noteq> Online_OFFLINE) rs else [])"

definition put_offline :: "time \<Rightarrow> user_device \<Rightarrow> user_device" where
  "put_offline now d = d\<lparr>dv_online_status := Online_OFFLINE, dv_update_time := now\<rparr>"

definition set_offline_by_session :: "bool \<Rightarrow> time \<Rightarrow> string \<Rightarrow> user_device list \<Rightarrow> bool \<times> user_device list" where
  "set_offline_by_session ok now sid rs = update_by_session ok sid (put_offline now) rs"

definition set_offline_all :: "bool \<Rightarrow> time \<Rightarrow> uid \<Rightarrow> user_device list \<Rightarrow> bool \<times> user_device list" where
  "set_offline_all ok now uid rs =
     (if \<not> ok then (False, rs)
      else committed rs (update_devices
        (map (put_offline now) (filter (\<lambda>d. dv_user_id d = uid \<and> dv_online_status d \<noteq> Online_OFFLINE) rs)) rs))"

definition remove_device :: "bool \<Rightarrow> uid \<Rightarrow> string \<Rightarrow> user_device list \<Rightarrow> bool \<times> user_device list" where
  "remove_device ok uid did rs =
     (if \<not> ok then (False, rs) else (True, filter (\<lambda>r. \<not> (dv_user_id r = uid \<and> dv_device_id r = did)) rs))"

definition without_token :: "time \<Rightarrow> user_device \<Rightarrow> user_device" where
  "without_token now d = d\<lparr>dv_push_token := Some [], dv_update_time := now\<rparr>"

definition clear_push_token_globally :: "bool \<Rightarrow> time \<Rightarrow> string \<Rightarrow> user_device list \<Rightarrow> bool \<times> user_device list" where
  "clear_push_token_globally ok now token rs =
     (if token = [] then (True, rs)
      else if \<not> ok then (False, rs)
      else committed rs (update_devices (map (without_token now) (filter (\<lambda>d. dv_push_token d = Some token) rs)) rs))"

section \<open>Mentions\<close>

record mention_row =
  mm_message_id :: u64
  mm_user_id :: uid

definition mm_key :: "mention_row \<Rightarrow> u64 \<times> uid" where
  "mm_key m = (mm_message_id m, mm_user_id m)"

text \<open>Every row is inserted on its own; one that fails, for whatever reason, is skipped.\<close>

fun persist_each :: "('r \<Rightarrow> 'k) \<Rightarrow> (nat \<Rightarrow> bool) \<Rightarrow> nat \<Rightarrow> 'r list \<Rightarrow> 'r list \<Rightarrow> 'r list" where
  "persist_each key up i [] rs = rs"
| "persist_each key up i (x # xs) rs =
     persist_each key up (Suc i) xs (if up i then case persist key x rs of Some rs' \<Rightarrow> rs' | None \<Rightarrow> rs else rs)"

definition mention_insert ::
  "bool \<Rightarrow> (nat \<Rightarrow> bool) \<Rightarrow> u64 \<Rightarrow> uid list \<Rightarrow> mention_row list \<Rightarrow> db_exn + mention_row list" where
  "mention_insert ok up mid uids rs =
     (if uids = [] then Inr rs
      else if \<not> ok then Inl Database_exception
      else Inr (persist_each mm_key up 0 (map (\<lambda>u. \<lparr>mm_message_id = mid, mm_user_id = u\<rparr>) uids) rs))"

definition insert_at_all :: "bool \<Rightarrow> (nat \<Rightarrow> bool) \<Rightarrow> u64 \<Rightarrow> mention_row list \<Rightarrow> db_exn + mention_row list" where
  "insert_at_all ok up mid rs = mention_insert ok up mid [''*''] rs"

definition mention_list_of :: "bool \<Rightarrow> u64 \<Rightarrow> mention_row list \<Rightarrow> uid list" where
  "mention_list_of ok mid rs = (if ok then map mm_user_id (filter (\<lambda>m. mm_message_id m = mid) rs) else [])"

definition mention_for :: "uid \<Rightarrow> mention_row \<Rightarrow> bool" where
  "mention_for uid m = (mm_user_id m = uid \<or> mm_user_id m = ''*'')"

definition is_mentioned :: "bool \<Rightarrow> u64 \<Rightarrow> uid \<Rightarrow> mention_row list \<Rightarrow> bool" where
  "is_mentioned ok mid uid rs = (ok \<and> query_one (\<lambda>m. mm_message_id m = mid \<and> mention_for uid m) rs \<noteq> None)"

definition list_my_mentions :: "bool \<Rightarrow> uid \<Rightarrow> nat \<Rightarrow> mention_row list \<Rightarrow> u64 list" where
  "list_my_mentions ok uid limit rs =
     (if ok then take limit (map mm_message_id (sort_key (\<lambda>m. - uint (mm_message_id m)) (filter (mention_for uid) rs))) else [])"

definition mention_remove_by_message :: "bool \<Rightarrow> u64 \<Rightarrow> mention_row list \<Rightarrow> bool \<times> mention_row list" where
  "mention_remove_by_message ok mid rs = (if ok then (True, filter (\<lambda>m. mm_message_id m \<noteq> mid) rs) else (False, rs))"

section \<open>Attachments\<close>

datatype AttachmentType = Attachment_UNKNOWN | Attachment_IMAGE | Attachment_VIDEO | Attachment_AUDIO | Attachment_SPEECH
  | Attachment_FILE | Attachment_STICKER

record attachment_row =
  at_message_id :: u64
  at_order_idx :: int
  at_att_type :: AttachmentType
  at_file_id :: string
  at_file_name :: "string option"
  at_file_size :: u64
  at_mime_type :: "string option"
  at_thumb_file_id :: "string option"
  at_width :: "int option"
  at_height :: "int option"
  at_duration_ms :: "int option"
  at_asr_text :: "string option"
  at_create_time :: "time option"

text \<open>A row without a time gets the current one; the table has no unique index.\<close>

definition stamp :: "time \<Rightarrow> attachment_row \<Rightarrow> attachment_row" where
  "stamp now a = (if at_create_time a = None then a\<lparr>at_create_time := Some now\<rparr> else a)"

definition attachment_insert :: "bool \<Rightarrow> time \<Rightarrow> attachment_row \<Rightarrow> attachment_row list \<Rightarrow> db_exn + attachment_row list" where
  "attachment_insert ok now a rs = (if ok then Inr (rs @ [stamp now a]) else Inl Database_exception)"

definition attachment_insert_many ::
  "bool \<Rightarrow> time \<Rightarrow> attachment_row list \<Rightarrow> attachment_row list \<Rightarrow> db_exn + attachment_row list" where
  "attachment_insert_many ok now as rs =
     (if as = [] then Inr rs else if ok then Inr (rs @ map (stamp now) as) else Inl Database_exception)"

definition attachment_list_of :: "bool \<Rightarrow> u64 \<Rightarrow> attachment_row list \<Rightarrow> attachment_row list" where
  "attachment_list_of ok mid rs = (if ok then sort_key at_order_idx (filter (\<lambda>a. at_message_id a = mid) rs) else [])"

text \<open>By message and then by index: a stable sort by the second key, then by the first.\<close>

definition list_of_messages :: "bool \<Rightarrow> u64 list \<Rightarrow> attachment_row list \<Rightarrow> attachment_row list" where
  "list_of_messages ok mids rs =
     (if mids = [] \<or> \<not> ok then []
      else sort_key (\<lambda>a. uint (at_message_id a)) (sort_key at_order_idx (filter (\<lambda>a. at_message_id a \<in> set mids) rs)))"

definition attachment_remove_by_message :: "bool \<Rightarrow> u64 \<Rightarrow> attachment_row list \<Rightarrow> bool \<times> attachment_row list" where
  "attachment_remove_by_message ok mid rs = (if ok then (True, filter (\<lambda>a. at_message_id a \<noteq> mid) rs) else (False, rs))"

section \<open>Read receipts\<close>

record read_row =
  rd_message_id :: u64
  rd_user_id :: uid
  rd_read_time :: time

definition rd_key :: "read_row \<Rightarrow> u64 \<times> uid" where
  "rd_key r = (rd_message_id r, rd_user_id r)"

definition read_ack :: "bool \<Rightarrow> time \<Rightarrow> u64 \<Rightarrow> uid \<Rightarrow> read_row list \<Rightarrow> bool \<times> read_row list" where
  "read_ack ok now mid uid rs =
     (if \<not> ok then (False, rs)
      else committed rs (persist rd_key \<lparr>rd_message_id = mid, rd_user_id = uid, rd_read_time = now\<rparr> rs))"

definition ack_batch :: "bool \<Rightarrow> (nat \<Rightarrow> bool) \<Rightarrow> read_row list \<Rightarrow> read_row list \<Rightarrow> bool \<times> read_row list" where
  "ack_batch ok up acks rs =
     (if acks = [] then (True, rs) else if \<not> ok then (False, rs) else (True, persist_each rd_key up 0 acks rs))"

definition readers_of :: "bool \<Rightarrow> u64 \<Rightarrow> nat \<Rightarrow> read_row list \<Rightarrow> read_row list" where
  "readers_of ok mid limit rs =
     (if ok then take limit (sort_key (\<lambda>r. - rd_read_time r) (filter (\<lambda>r. rd_message_id r = mid) rs)) else [])"

definition reader_count :: "bool \<Rightarrow> u64 \<Rightarrow> read_row list \<Rightarrow> nat" where
  "reader_count ok mid rs = (if ok then length (filter (\<lambda>r. rd_message_id r = mid) rs) else 0)"

definition has_read :: "bool \<Rightarrow> u64 \<Rightarrow> uid \<Rightarrow> read_row list \<Rightarrow> bool" where
  "has_read ok mid uid rs = (ok \<and> query_one (\<lambda>r. rd_message_id r = mid \<and> rd_user_id r = uid) rs \<noteq> None)"

section \<open>The device table keeps its indexes\<close>

definition devices_wf :: "user_device list \<Rightarrow> bool" where
  "devices_wf rs =
     (keys_distinct dv_key rs \<and> (\<forall>d\<in>set rs. \<forall>d'\<in>set rs. dv_key d \<noteq> dv_key d' \<longrightarrow> \<not> device_conflict d d'))"

lemma device_conflict_sym: "device_conflict d d' = device_conflict d' d"
  unfolding device_conflict_def by (cases "dv_push_token d"; cases "dv_push_token d'") auto

lemma devices_wf_persist: "devices_wf rs \<Longrightarrow> persist_device d rs = Some rs' \<Longrightarrow> devices_wf rs'"
  by (auto simp: devices_wf_def persist_device_def list_ex_iff keys_distinct_snoc device_conflict_sym split: if_splits)
    (auto simp: device_conflict_def)

lemma devices_wf_update: "devices_wf rs \<Longrightarrow> update_device d rs = Some rs' \<Longrightarrow> devices_wf rs'"
  by (auto simp: devices_wf_def update_device_def list_ex_iff device_conflict_sym dest!: set_put_rowD split: if_splits)

lemma devices_wf_updates: "devices_wf rs \<Longrightarrow> update_devices ds rs = Some rs' \<Longrightarrow> devices_wf rs'"
  by (induction ds arbitrary: rs) (auto split: option.splits dest: devices_wf_update)

lemma devices_wf_committed: "devices_wf rs \<Longrightarrow> (\<And>rs'. r = Some rs' \<Longrightarrow> devices_wf rs') \<Longrightarrow> devices_wf (snd (committed rs r))"
  by (simp add: committed_def split: option.splits)

lemma device_operations_wf:
  assumes "devices_wf rs"
  shows "devices_wf (snd (upsert_login ok now dev rs))"
    and "devices_wf (snd (touch_active ok now sid rs))"
    and "devices_wf (snd (set_offline_by_session ok now sid rs))"
    and "devices_wf (snd (set_offline_all ok now uid rs))"
    and "devices_wf (snd (remove_device ok uid did rs))"
    and "devices_wf (snd (clear_push_token_globally ok now token rs))"
  using assms
  by (auto simp: upsert_login_def touch_active_def set_offline_by_session_def set_offline_all_def remove_device_def
      clear_push_token_globally_def update_by_session_def Let_def split: option.splits
      intro!: devices_wf_committed intro: devices_wf_persist devices_wf_update devices_wf_updates)
    (auto simp: devices_wf_def keys_distinct_filter)

text \<open>Updates that leave the unique columns alone never fail, and change exactly the rows they are for.\<close>

lemma update_device_kept:
  assumes "devices_wf rs" and "x \<in> set rs"
    and "dv_key (f x) = dv_key x" "dv_login_session_id (f x) = dv_login_session_id x" "dv_push_token (f x) = dv_push_token x"
  shows "update_device (f x) rs = Some (update_where (\<lambda>r. dv_key r = dv_key x) f rs)"
proof -
  have "device_conflict (f x) r = device_conflict x r" for r
    using assms(3-5) by (simp add: device_conflict_def)
  then have "\<not> list_ex (\<lambda>r. dv_key r \<noteq> dv_key (f x) \<and> device_conflict (f x) r) rs"
    using assms(1,2,3) by (auto simp: list_ex_iff devices_wf_def)
  moreover have "r = x" if "r \<in> set rs" "dv_key r = dv_key x" for r
    using that assms(1,2) by (auto simp: devices_wf_def keys_distinct_def distinct_map inj_on_def)
  ultimately show ?thesis
    using assms(3) by (auto simp: update_device_def put_row_def update_where_def)
qed

lemma update_devices_kept:
  assumes keeps: "\<And>x. dv_key (f x) = dv_key x" "\<And>x. dv_login_session_id (f x) = dv_login_session_id x"
      "\<And>x. dv_push_token (f x) = dv_push_token x"
  shows "devices_wf rs \<Longrightarrow> set xs \<subseteq> set rs \<Longrightarrow> distinct (map dv_key xs) \<Longrightarrow>
    update_devices (map f xs) rs = Some (update_where (\<lambda>r. dv_key r \<in> dv_key ` set xs) f rs)"
proof (induction xs arbitrary: rs)
  case Nil
  then show ?case by (simp add: update_where_none)
next
  case (Cons x xs)
  let ?rs1 = "update_where (\<lambda>r. dv_key r = dv_key x) f rs"
  have u: "update_device (f x) rs = Some ?rs1"
    using update_device_kept [of rs x f] Cons.prems keeps by simp
  have "set xs \<subseteq> set ?rs1"
  proof
    fix y assume y: "y \<in> set xs"
    then have "dv_key y \<noteq> dv_key x" using Cons.prems(3) by (metis image_eqI list.set_map list.simps(9) distinct.simps(2))
    with y Cons.prems(2) show "y \<in> set ?rs1" by (force simp: set_update_where)
  qed
  then have "update_devices (map f xs) ?rs1 = Some (update_where (\<lambda>r. dv_key r \<in> dv_key ` set xs) f ?rs1)"
    using Cons devices_wf_update [OF Cons.prems(1) u] by simp
  moreover have "update_where (\<lambda>r. dv_key r \<in> dv_key ` set xs) f ?rs1 = update_where (\<lambda>r. dv_key r \<in> dv_key ` set (x # xs)) f rs"
  proof -
    have "dv_key x \<notin> dv_key ` set xs" using Cons.prems(3) by simp
    then show ?thesis by (auto simp: update_where_def keeps)
  qed
  ultimately show ?case using u by simp
qed

lemma all_devices_offline:
  assumes "devices_wf rs"
  shows "fst (set_offline_all True now uid rs) \<and> list_active True uid (snd (set_offline_all True now uid rs)) = []"
proof -
  let ?xs = "filter (\<lambda>d. dv_user_id d = uid \<and> dv_online_status d \<noteq> Online_OFFLINE) rs"
  have "update_devices (map (put_offline now) ?xs) rs = Some (update_where (\<lambda>r. dv_key r \<in> dv_key ` set ?xs) (put_offline now) rs)"
    by (rule update_devices_kept)
      (use assms in \<open>auto simp: put_offline_def dv_key_def devices_wf_def keys_distinct_def distinct_map_filter\<close>)
  moreover have "\<not> (dv_user_id r = uid \<and> dv_online_status r \<noteq> Online_OFFLINE)"
    if "r \<in> set (update_where (\<lambda>r. dv_key r \<in> dv_key ` set ?xs) (put_offline now) rs)" for r
    using that by (auto simp: set_update_where put_offline_def split: if_splits)
  then have "list_active True uid (update_where (\<lambda>r. dv_key r \<in> dv_key ` set ?xs) (put_offline now) rs) = []"
    unfolding list_active_def by (auto simp only: filter_empty_conv if_True)
  ultimately show ?thesis
    by (simp only: set_offline_all_def committed_def option.case if_False not_True_eq_False fst_conv snd_conv simp_thms)
qed

section \<open>Empty push tokens\<close>

text \<open>
  A device that logs in again without a push token stores the empty string, which the unique index counts as a
  value: while another device has stored it too, the login fails. For the same reason the token of a device
  cannot be cleared, which is how the code means to hand a token over.
\<close>

lemma second_login_without_token_fails:
  assumes "r \<in> set rs" "dv_push_token r = Some []" "dv_key r \<noteq> dv_key dev"
    and "query_one (\<lambda>r. dv_user_id r = dv_user_id dev \<and> dv_device_id r = dv_device_id dev) rs = Some ex" and "dv_push_token dev = None"
  shows "upsert_login ok now dev rs = (False, rs)"
proof -
  have "dv_key ex = dv_key dev" using query_one_Some [OF assms(4)] by (simp add: dv_key_def)
  then have "update_device (login_update now (logged_in now dev) ex) rs = None"
    using assms(1-3,5)
    by (auto simp: update_device_def list_ex_iff login_update_def logged_in_def device_conflict_def text_of_def dv_key_def)
  then show ?thesis using assms(4) by (simp add: upsert_login_def Let_def logged_in_def committed_def)
qed

lemma token_not_cleared:
  assumes "r \<in> set rs" "dv_push_token r = Some []" and "d \<in> set rs" "dv_push_token d = Some token" and "token \<noteq> []" and "devices_wf rs"
  shows "clear_push_token_globally ok now token rs = (False, rs)"
proof -
  have ne: "dv_key r \<noteq> dv_key d" 
    using assms by (auto simp: devices_wf_def keys_distinct_def distinct_map inj_on_def)
  obtain x xs where xs: "filter (\<lambda>d. dv_push_token d = Some token) rs = x # xs"
    using assms(3,4) by (cases "filter (\<lambda>d. dv_push_token d = Some token) rs") (auto simp: filter_empty_conv)
  then have x: "x \<in> set rs" "dv_push_token x = Some token"
    by (metis (mono_tags, lifting) filter_eq_ConsD in_set_conv_decomp)+
  have "dv_key x = dv_key d"
    using x assms(3,4,6) unfolding devices_wf_def device_conflict_def by (metis option.distinct(1))
  then have "update_device (without_token now x) rs = None"
    using assms(1,2) ne
    by (auto simp: update_device_def list_ex_iff without_token_def device_conflict_def dv_key_def)
  then show ?thesis using assms(5) xs by (simp add: clear_push_token_globally_def committed_def)
qed

section \<open>Mentions and receipts\<close>

lemma persist_each_keys: "persist key x rs = Some rs' \<Longrightarrow> key ` set rs' = insert (key x) (key ` set rs)"
  by (drule persist_SomeD) simp

lemma persist_known: "key x \<in> key ` set rs \<Longrightarrow> persist key x rs = None"
  by (simp add: persist_None)

lemma persist_each_known: "key ` set xs \<subseteq> key ` set rs \<Longrightarrow> persist_each key up i xs rs = rs"
  by (induction xs arbitrary: i) (simp_all add: persist_known)

lemma persist_each_all: "key ` set (persist_each key (\<lambda>_. True) i xs rs) = key ` set rs \<union> key ` set xs"
  by (induction xs arbitrary: i rs) (auto simp: persist_None persist_each_keys split: option.splits)

lemma persist_each_distinct: "keys_distinct key rs \<Longrightarrow> keys_distinct key (persist_each key up i xs rs)"
  by (induction xs arbitrary: i rs) (auto simp: keys_distinct_snoc dest!: persist_SomeD split: option.splits)

lemma mentions_written_once:
  assumes "mention_insert True (\<lambda>_. True) mid uids rs = Inr rs'"
  shows "mention_insert True up mid uids rs' = Inr rs'"
  using assms by (auto simp: mention_insert_def persist_each_known persist_each_all split: if_splits)

lemma receipts_written_once:
  "snd (ack_batch True up acks (snd (ack_batch True (\<lambda>_. True) acks rs))) = snd (ack_batch True (\<lambda>_. True) acks rs)"
  by (simp add: ack_batch_def persist_each_known persist_each_all)

text \<open>A message that mentions a user and everybody is listed twice, and counts twice against the limit.\<close>

lemma mentioned_twice_listed_twice:
  "list_my_mentions True u (Suc (Suc n)) [\<lparr>mm_message_id = mid, mm_user_id = u\<rparr>, \<lparr>mm_message_id = mid, mm_user_id = ''*''\<rparr>] = [mid, mid]"
  by (simp add: list_my_mentions_def mention_for_def)

text \<open>A receipt that is already there is answered with failure.\<close>

lemma second_receipt_fails: "read_ack ok t mid uid rs = (True, rs') \<Longrightarrow> read_ack ok t' mid uid rs' = (False, rs')"
  by (auto simp: read_ack_def committed_def persist_None rd_key_def dest!: persist_SomeD split: option.splits if_splits)

end
