(* ===== verification/Redis_Helpers.thy ===== *)
theory Redis_Helpers
  imports Transmite Presence_Redis Jwt
begin

text \<open>
  The small Redis classes of common/dao/data_redis.hpp that stand beside the services: \<open>Session\<close>, \<open>Status\<close>,
  \<open>LastMessage\<close> (strings with an expiry), \<open>DeviceSet\<close> and \<open>ReadAck\<close> (sets with an expiry) and
  \<open>PresenceRedis\<close> (hashes and sets). Every method catches what Redis throws; the flag of a call says whether it
  completed. \<open>ttl\<close> arguments are the values after the jitter of \<open>randomized_ttl\<close>.

  Shown: a drain of read receipts gives every user acknowledged since the last one, once, and starts anew;
  a device is listed from its adding to its removal, under the old and the new key; the migration inside a
  listing can bring a removed device back; a presence device whose id has a colon is not found again.
\<close>

section \<open>Strings with an expiry\<close>

definition kv_del :: "string \<Rightarrow> jwt_redis \<Rightarrow> jwt_redis" where
  "kv_del k m = m(k := None)"

definition kv_expire :: "time \<Rightarrow> string \<Rightarrow> int \<Rightarrow> jwt_redis \<Rightarrow> jwt_redis" where
  "kv_expire now k ttl_sec m = (case kv_get now k m of None \<Rightarrow> m | Some v \<Rightarrow> kv_set now k v ttl_sec m)"

definition kSessionTtl :: int where
  "kSessionTtl = 24 * 3600 * 7"

definition session_key :: "string \<Rightarrow> string" where
  "session_key ssid = ''im:sess:'' @ ssid"

definition Session_append :: "bool \<Rightarrow> time \<Rightarrow> int \<Rightarrow> string \<Rightarrow> uid \<Rightarrow> jwt_redis \<Rightarrow> jwt_redis" where
  "Session_append ok now ttl ssid u m = (if ok then kv_set now (session_key ssid) u ttl m else m)"

definition Session_remove :: "bool \<Rightarrow> string \<Rightarrow> jwt_redis \<Rightarrow> jwt_redis" where
  "Session_remove ok ssid m = (if ok then kv_del (session_key ssid) m else m)"

definition Session_uid :: "bool \<Rightarrow> time \<Rightarrow> string \<Rightarrow> jwt_redis \<Rightarrow> uid option" where
  "Session_uid ok now ssid m = (if ok then kv_get now (session_key ssid) m else None)"

definition Session_touch :: "bool \<Rightarrow> time \<Rightarrow> int \<Rightarrow> string \<Rightarrow> jwt_redis \<Rightarrow> jwt_redis" where
  "Session_touch ok now ttl ssid m = (if ok then kv_expire now (session_key ssid) ttl m else m)"

definition status_key :: "uid \<Rightarrow> string" where
  "status_key u = ''im:status:'' @ u"

definition Status_append :: "bool \<Rightarrow> time \<Rightarrow> int \<Rightarrow> uid \<Rightarrow> jwt_redis \<Rightarrow> jwt_redis" where
  "Status_append ok now ttl u m = (if ok then kv_set now (status_key u) ''1'' ttl m else m)"

definition Status_remove :: "bool \<Rightarrow> uid \<Rightarrow> jwt_redis \<Rightarrow> jwt_redis" where
  "Status_remove ok u m = (if ok then kv_del (status_key u) m else m)"

definition Status_exists :: "bool \<Rightarrow> time \<Rightarrow> uid \<Rightarrow> jwt_redis \<Rightarrow> bool" where
  "Status_exists ok now u m = (ok \<and> kv_get now (status_key u) m \<noteq> None)"

definition Status_touch :: "bool \<Rightarrow> time \<Rightarrow> int \<Rightarrow> uid \<Rightarrow> jwt_redis \<Rightarrow> jwt_redis" where
  "Status_touch ok now ttl u m = (if ok then kv_expire now (status_key u) ttl m else m)"

definition last_message_key :: "cid \<Rightarrow> string" where
  "last_message_key ssid = ''im:last:'' @ ssid"

definition LastMessage_set :: "bool \<Rightarrow> time \<Rightarrow> int \<Rightarrow> cid \<Rightarrow> string \<Rightarrow> jwt_redis \<Rightarrow> jwt_redis" where
  "LastMessage_set ok now ttl ssid preview_json m = (if ok then kv_set now (last_message_key ssid) preview_json ttl m else m)"

definition LastMessage_get :: "bool \<Rightarrow> time \<Rightarrow> cid \<Rightarrow> jwt_redis \<Rightarrow> string option" where
  "LastMessage_get ok now ssid m = (if ok then kv_get now (last_message_key ssid) m else None)"

definition LastMessage_remove :: "bool \<Rightarrow> cid \<Rightarrow> jwt_redis \<Rightarrow> jwt_redis" where
  "LastMessage_remove ok ssid m = (if ok then kv_del (last_message_key ssid) m else m)"

section \<open>Sets with an expiry\<close>

type_synonym set_redis = "string \<Rightarrow> (string list \<times> time option) option"

definition live_set :: "time \<Rightarrow> string \<Rightarrow> set_redis \<Rightarrow> string list" where
  "live_set now k m = (case m k of None \<Rightarrow> [] | Some (xs, x) \<Rightarrow> if (case x of None \<Rightarrow> True | Some t \<Rightarrow> now < t) then xs else [])"

definition live_expiry :: "time \<Rightarrow> string \<Rightarrow> set_redis \<Rightarrow> time option" where
  "live_expiry now k m = (if live_set now k m = [] then None else case m k of None \<Rightarrow> None | Some (xs, x) \<Rightarrow> x)"

definition set_add :: "time \<Rightarrow> string \<Rightarrow> string list \<Rightarrow> set_redis \<Rightarrow> set_redis" where
  "set_add now k vs m = m(k \<mapsto> (fold List.insert vs (live_set now k m), live_expiry now k m))"

definition set_expire :: "time \<Rightarrow> string \<Rightarrow> int \<Rightarrow> set_redis \<Rightarrow> set_redis" where
  "set_expire now k ttl_sec m =
     (if live_set now k m = [] then m else m(k \<mapsto> (live_set now k m, Some (now + ttl_sec * 1000))))"

definition set_rem :: "time \<Rightarrow> string \<Rightarrow> string \<Rightarrow> set_redis \<Rightarrow> set_redis" where
  "set_rem now k v m =
     (let xs = filter (\<lambda>x. x \<noteq> v) (live_set now k m)
      in if xs = [] then m(k := None) else m(k \<mapsto> (xs, live_expiry now k m)))"

subsection \<open>DeviceSet\<close>

definition device_set_key :: "uid \<Rightarrow> string" where
  "device_set_key u = ''im:dev:'' @ hash_tag u"

definition legacy_device_set_key :: "uid \<Rightarrow> string" where
  "legacy_device_set_key u = ''im:dev:'' @ u"

definition kLegacyGraceTtl :: int where
  "kLegacyGraceTtl = 24 * 3600"

definition DeviceSet_add :: "bool \<Rightarrow> time \<Rightarrow> int \<Rightarrow> uid \<Rightarrow> string \<Rightarrow> set_redis \<Rightarrow> set_redis" where
  "DeviceSet_add ok now ttl u did m =
     (if ok \<and> ttl > 0 then set_expire now (device_set_key u) ttl (set_add now (device_set_key u) [did] m) else m)"

definition DeviceSet_touch :: "(nat \<Rightarrow> bool) \<Rightarrow> time \<Rightarrow> int \<Rightarrow> uid \<Rightarrow> set_redis \<Rightarrow> set_redis" where
  "DeviceSet_touch up now ttl u m =
     (let m1 = (if up 0 then set_expire now (device_set_key u) ttl m else m)
      in if up 1 then set_expire now (legacy_device_set_key u) kLegacyGraceTtl m1 else m1)"

definition DeviceSet_remove :: "(nat \<Rightarrow> bool) \<Rightarrow> time \<Rightarrow> uid \<Rightarrow> string \<Rightarrow> set_redis \<Rightarrow> set_redis" where
  "DeviceSet_remove up now u did m =
     (let m1 = (if up 0 then set_rem now (device_set_key u) did m else m)
      in if up 1 then set_rem now (legacy_device_set_key u) did m1 else m1)"

text \<open>A listing reads both keys, then adds what the old one held to the new one.\<close>

definition device_list_read :: "(nat \<Rightarrow> bool) \<Rightarrow> time \<Rightarrow> uid \<Rightarrow> set_redis \<Rightarrow> string list \<times> string list" where
  "device_list_read up now u m =
     (if up 0 then live_set now (device_set_key u) m else [], if up 1 then live_set now (legacy_device_set_key u) m else [])"

definition device_migrate :: "(nat \<Rightarrow> bool) \<Rightarrow> time \<Rightarrow> int \<Rightarrow> uid \<Rightarrow> string list \<Rightarrow> set_redis \<Rightarrow> set_redis" where
  "device_migrate up now ttl u legacy m =
     (if legacy = [] \<or> \<not> up 2 then m
      else let m1 = set_add now (device_set_key u) legacy m
           in if \<not> up 3 then m1
              else let m2 = set_expire now (device_set_key u) ttl m1
                   in if \<not> up 4 then m2 else set_expire now (legacy_device_set_key u) kLegacyGraceTtl m2)"

definition DeviceSet_list :: "(nat \<Rightarrow> bool) \<Rightarrow> time \<Rightarrow> int \<Rightarrow> uid \<Rightarrow> set_redis \<Rightarrow> string list \<times> set_redis" where
  "DeviceSet_list up now ttl u m =
     (case device_list_read up now u m of (res, legacy) \<Rightarrow> (remdups (res @ legacy), device_migrate up now ttl u legacy m))"

definition DeviceSet_any :: "(nat \<Rightarrow> bool) \<Rightarrow> time \<Rightarrow> int \<Rightarrow> uid \<Rightarrow> set_redis \<Rightarrow> bool \<times> set_redis" where
  "DeviceSet_any up now ttl u m = (case DeviceSet_list up now ttl u m of (ds, m') \<Rightarrow> (ds \<noteq> [], m'))"

subsection \<open>ReadAck\<close>

definition read_ack_key :: "u64 \<Rightarrow> string" where
  "read_ack_key mid = ''im:read:'' @ u64_to_string mid"

text \<open>Two commands: a set whose expiry failed has none.\<close>

definition ReadAck_ack :: "(nat \<Rightarrow> bool) \<Rightarrow> time \<Rightarrow> int \<Rightarrow> u64 \<Rightarrow> uid \<Rightarrow> set_redis \<Rightarrow> set_redis" where
  "ReadAck_ack up now ttl mid u m =
     (if \<not> up 0 then m
      else let m1 = set_add now (read_ack_key mid) [u] m
           in if up 1 then set_expire now (read_ack_key mid) ttl m1 else m1)"

definition ReadAck_count :: "bool \<Rightarrow> time \<Rightarrow> u64 \<Rightarrow> set_redis \<Rightarrow> nat" where
  "ReadAck_count ok now mid m = (if ok then length (live_set now (read_ack_key mid) m) else 0)"

definition ReadAck_drain :: "bool \<Rightarrow> time \<Rightarrow> u64 \<Rightarrow> set_redis \<Rightarrow> uid list \<times> set_redis" where
  "ReadAck_drain ok now mid m =
     (if ok then (live_set now (read_ack_key mid) m, m(read_ack_key mid := None)) else ([], m))"

section \<open>PresenceRedis\<close>

definition presence_plain_key :: "uid \<Rightarrow> string" where
  "presence_plain_key u = ''im:presence:'' @ u"

definition PresenceRedis_set_state :: "bool \<Rightarrow> uid \<Rightarrow> string \<Rightarrow> presence_redis \<Rightarrow> presence_redis" where
  "PresenceRedis_set_state ok u st r = (if ok then redis_hset (presence_plain_key u) ''state'' st r else r)"

definition PresenceRedis_get_state :: "bool \<Rightarrow> uid \<Rightarrow> presence_redis \<Rightarrow> string" where
  "PresenceRedis_get_state ok u r =
     (if ok then case redis_hget (presence_plain_key u) ''state'' r of Some v \<Rightarrow> v | None \<Rightarrow> ''offline'' else ''offline'')"

definition PresenceRedis_touch_active :: "bool \<Rightarrow> uid \<Rightarrow> time \<Rightarrow> presence_redis \<Rightarrow> presence_redis" where
  "PresenceRedis_touch_active ok u ts_ms r = (if ok then redis_hset (presence_plain_key u) ''last_active'' (int_to_string ts_ms) r else r)"

definition PresenceRedis_set_custom_status :: "bool \<Rightarrow> uid \<Rightarrow> string \<Rightarrow> presence_redis \<Rightarrow> presence_redis" where
  "PresenceRedis_set_custom_status ok u txt r = (if ok then redis_hset (presence_plain_key u) ''custom_status'' txt r else r)"

definition PresenceRedis_add_device :: "bool \<Rightarrow> uid \<Rightarrow> string \<Rightarrow> presence_redis \<Rightarrow> presence_redis" where
  "PresenceRedis_add_device ok u did r = (if ok then redis_hset (presence_device_key u did) ''state'' ''ONLINE'' r else r)"

text \<open>What follows the last colon of a key.\<close>

fun after_last_colon :: "string \<Rightarrow> string option" where
  "after_last_colon [] = None"
| "after_last_colon (ch # s) =
     (case after_last_colon s of Some t \<Rightarrow> Some t | None \<Rightarrow> if ch = CHR '':'' then Some s else None)"

definition PresenceRedis_get_devices :: "bool \<Rightarrow> uid \<Rightarrow> presence_redis \<Rightarrow> string list" where
  "PresenceRedis_get_devices ok u r =
     (if ok then List.map_filter after_last_colon (scan_hashes (presence_device_prefix u) r) else [])"

definition PresenceRedis_set_typing :: "bool \<Rightarrow> uid \<Rightarrow> cid \<Rightarrow> presence_redis \<Rightarrow> presence_redis" where
  "PresenceRedis_set_typing ok u conv r = (if ok then redis_sadd (''im:presence:typing:'' @ u) conv r else r)"

definition PresenceRedis_subscribe :: "bool \<Rightarrow> uid \<Rightarrow> uid \<Rightarrow> presence_redis \<Rightarrow> presence_redis" where
  "PresenceRedis_subscribe ok u target r = (if ok then redis_sadd (''im:presence:sub:'' @ u) target r else r)"

definition PresenceRedis_unsubscribe :: "bool \<Rightarrow> uid \<Rightarrow> uid \<Rightarrow> presence_redis \<Rightarrow> presence_redis" where
  "PresenceRedis_unsubscribe ok u target r = (if ok then redis_srem (''im:presence:sub:'' @ u) target r else r)"

section \<open>Receipts are drained once\<close>

lemma live_set_add: "set (live_set now k (set_add now k' vs m)) = set (live_set now k m) \<union> (if k = k' then set vs else {})"
proof -
  have f: "set (fold List.insert vs xs) = set xs \<union> set vs" for xs :: "string list"
    by (induction vs arbitrary: xs) auto
  show ?thesis
    unfolding set_add_def live_expiry_def
    by (cases "m k'") (auto simp: live_set_def f split: option.splits if_splits)
qed

lemma live_set_expire [simp]: "ttl > 0 \<Longrightarrow> live_set now k (set_expire now k' ttl m) = live_set now k m"
  by (simp add: set_expire_def live_set_def)

lemma live_set_rem: "set (live_set now k (set_rem now k' v m)) = set (live_set now k m) - (if k = k' then {v} else {})"
proof (cases "k = k'")
  case True
  show ?thesis
    by (cases "filter (\<lambda>x. x \<noteq> v) (live_set now k m) = []"; cases "m k")
      (auto simp: True set_rem_def live_expiry_def Let_def filter_empty_conv live_set_def split: option.splits if_splits)
qed (simp add: set_rem_def Let_def live_set_def)

definition acks :: "time \<Rightarrow> int \<Rightarrow> u64 \<Rightarrow> uid list \<Rightarrow> set_redis \<Rightarrow> set_redis" where
  "acks now ttl mid us m = fold (ReadAck_ack (\<lambda>_. True) now ttl mid) us m"

lemma live_set_acks: "ttl > 0 \<Longrightarrow> set (live_set now (read_ack_key mid) (acks now ttl mid us m)) = set (live_set now (read_ack_key mid) m) \<union> set us"
  unfolding acks_def by (induction us arbitrary: m) (auto simp: ReadAck_ack_def live_set_add)

lemma receipts_drained_once:
  assumes "ttl > 0"
  shows "set (fst (ReadAck_drain True now mid (acks now ttl mid us m))) = set (live_set now (read_ack_key mid) m) \<union> set us
    \<and> fst (ReadAck_drain True now' mid (snd (ReadAck_drain True now mid (acks now ttl mid us m)))) = []"
  using live_set_acks [OF assms] by (simp add: ReadAck_drain_def live_set_def)

section \<open>Devices\<close>

lemma device_keys_differ: "legacy_device_set_key u \<noteq> device_set_key u"
  by (auto simp: legacy_device_set_key_def device_set_key_def hash_tag_def dest: arg_cong [of _ _ length])

lemma added_device_is_listed:
  "ttl > 0 \<Longrightarrow> did \<in> set (fst (DeviceSet_list (\<lambda>_. True) now ttl' u (DeviceSet_add True now ttl u did m)))"
  by (simp add: DeviceSet_list_def device_list_read_def DeviceSet_add_def live_set_add)

lemma removed_device_is_not_listed:
  "did \<notin> set (fst (DeviceSet_list up now ttl u (DeviceSet_remove (\<lambda>_. True) now u did m)))"
  by (simp add: DeviceSet_list_def device_list_read_def DeviceSet_remove_def live_set_rem Let_def device_keys_differ)

text \<open>A device removed between the reads of a listing and its migration is back afterwards.\<close>

lemma removed_device_comes_back:
  assumes "did \<in> set (live_set now (legacy_device_set_key u) m)" and "ttl > 0"
    and "(res, legacy) = device_list_read (\<lambda>_. True) now u m"
  shows "did \<in> set (live_set now (device_set_key u)
    (device_migrate (\<lambda>_. True) now ttl u legacy (DeviceSet_remove (\<lambda>_. True) now u did m)))"
  using assms by (auto simp: device_list_read_def device_migrate_def Let_def kLegacyGraceTtl_def live_set_add)

section \<open>Presence devices\<close>

lemma after_last_colon_None: "CHR '':'' \<notin> set s \<Longrightarrow> after_last_colon s = None"
  by (induction s) auto

lemma after_last_colon_append: "CHR '':'' \<notin> set d \<Longrightarrow> after_last_colon (p @ CHR '':'' # d) = Some d"
  by (induction p) (simp_all add: after_last_colon_None)

lemma presence_device_found:
  assumes "CHR '':'' \<notin> set did"
  shows "did \<in> set (PresenceRedis_get_devices True u (PresenceRedis_add_device True u did r))"
proof -
  have "after_last_colon (presence_device_key u did) = Some did"
    using after_last_colon_append [OF assms, of "''im:presence:device:'' @ hash_tag u"] by (simp add: presence_device_key_def)
  moreover have "presence_device_key u did \<in> set (scan_hashes (presence_device_prefix u) (PresenceRedis_add_device True u did r))"
    by (simp add: set_scan_hashes PresenceRedis_add_device_def redis_hset_def)
  ultimately show ?thesis
    by (force simp: PresenceRedis_get_devices_def List.map_filter_def)
qed

lemma presence_device_with_colon_lost:
  "PresenceRedis_get_devices True ''u'' (PresenceRedis_add_device True ''u'' ''web:1'' no_presence) = [''1'']"
  by code_simp

end
