(* ===== verification/User_Info_Batch.thy ===== *)
theory User_Info_Batch
  imports User_Info_Cache
begin

text \<open>
  The batch operations of \<open>UserInfoCache\<close> (common/dao/data_redis.hpp) with the bucket of a user
  (\<open>fnv1a_32\<close> and \<open>user_info_bucket\<close> of common/utils/redis_keys.hpp): the keys of a bucket live on one cluster
  node and are read by one MGET and written by one script. The order in which a hash map is walked is an
  argument. Shown: with Redis up, the batch read gives for every user what the single read and the single
  read of the generation give, and the batch write leaves what single fenced writes leave; a bucket whose
  call fails becomes misses without a generation, so that nothing is written back for it.
\<close>

section \<open>Buckets\<close>

definition fnv1a_32 :: "string \<Rightarrow> 32 word" where
  "fnv1a_32 s = foldl (\<lambda>h ch. (xor h (of_nat (of_char ch))) * 16777619) 2166136261 s"

definition user_info_bucket :: "uid \<Rightarrow> 32 word" where
  "user_info_bucket u = fnv1a_32 u mod 64"

definition user_info_key :: "uid \<Rightarrow> string" where
  "user_info_key u = ''im:user:{'' @ nat_to_string (unat (user_info_bucket u)) @ ''}:'' @ u"

definition user_info_generation_key :: "uid \<Rightarrow> string" where
  "user_info_generation_key u = ''im:user-gen:{'' @ nat_to_string (unat (user_info_bucket u)) @ ''}:'' @ u"

text \<open>The groups in the order in which the map of buckets is walked.\<close>

definition bucket_groups :: "(32 word list \<Rightarrow> 32 word list) \<Rightarrow> ('e \<Rightarrow> uid) \<Rightarrow> 'e list \<Rightarrow> 'e list list" where
  "bucket_groups order key es =
     map (\<lambda>b. filter (\<lambda>e. user_info_bucket (key e) = b) es) (order (remdups (map (user_info_bucket \<circ> key) es)))"

section \<open>Reading\<close>

record batch_result =
  br_hits :: "uid \<Rightarrow> string option"
  br_misses :: "(uid \<times> u64 option) list"

definition batch_entry :: "user_info_redis \<Rightarrow> uid \<Rightarrow> batch_result \<Rightarrow> batch_result" where
  "batch_entry r u res =
     (case ur_value r u of
        Some v \<Rightarrow> res\<lparr>br_hits := (br_hits res)(u \<mapsto> v)\<rparr>
      | None \<Rightarrow> res\<lparr>br_misses := br_misses res @ [(u, case ur_generation r u of None \<Rightarrow> Some 0 | Some raw \<Rightarrow> stoull raw)]\<rparr>)"

definition batch_group :: "bool \<Rightarrow> user_info_redis \<Rightarrow> uid list \<Rightarrow> batch_result \<Rightarrow> batch_result" where
  "batch_group ok r us res =
     (if ok then fold (batch_entry r) us res else res\<lparr>br_misses := br_misses res @ map (\<lambda>u. (u, None)) us\<rparr>)"

fun batch_groups :: "(nat \<Rightarrow> bool) \<Rightarrow> nat \<Rightarrow> user_info_redis \<Rightarrow> uid list list \<Rightarrow> batch_result \<Rightarrow> batch_result" where
  "batch_groups up i r [] res = res"
| "batch_groups up i r (g # gs) res = batch_groups up (Suc i) r gs (batch_group (up i) r g res)"

definition UserInfoCache_batch_get ::
  "(32 word list \<Rightarrow> 32 word list) \<Rightarrow> (nat \<Rightarrow> bool) \<Rightarrow> uid list \<Rightarrow> user_info_redis \<Rightarrow> batch_result" where
  "UserInfoCache_batch_get order up uids r =
     batch_groups up 0 r (bucket_groups order (\<lambda>u. u) (take 2000 uids)) \<lparr>br_hits = (\<lambda>_. None), br_misses = []\<rparr>"

section \<open>Writing\<close>

record fenced_value =
  fv_serialized :: string
  fv_generation :: u64

text \<open>
  The script checks every entry before it writes any: generations are what INCR has written. Then it
  writes the entries whose generation is the observed one.
\<close>

definition batch_write_entry :: "uid \<times> fenced_value \<Rightarrow> nat \<times> user_info_redis \<Rightarrow> nat \<times> user_info_redis" where
  "batch_write_entry e nr =
     (if lua_generation (fst e) (snd nr) = Some (unat (fv_generation (snd e)))
      then (fst nr + 1, (snd nr)\<lparr>ur_value := (ur_value (snd nr))(fst e \<mapsto> fv_serialized (snd e))\<rparr>) else nr)"

definition batch_write :: "bool \<Rightarrow> (uid \<times> fenced_value) list \<Rightarrow> nat \<times> user_info_redis \<Rightarrow> nat \<times> user_info_redis" where
  "batch_write ok es nr =
     (if \<not> ok \<or> list_ex (\<lambda>e. lua_generation (fst e) (snd nr) = None) es then nr else fold batch_write_entry es nr)"

fun batch_writes :: "(nat \<Rightarrow> bool) \<Rightarrow> nat \<Rightarrow> (uid \<times> fenced_value) list list \<Rightarrow> nat \<times> user_info_redis \<Rightarrow> nat \<times> user_info_redis" where
  "batch_writes up i [] nr = nr"
| "batch_writes up i (g # gs) nr = batch_writes up (Suc i) gs (batch_write (up i) g nr)"

definition UserInfoCache_batch_set ::
  "(32 word list \<Rightarrow> 32 word list) \<Rightarrow> (nat \<Rightarrow> bool) \<Rightarrow> (uid \<times> fenced_value) list \<Rightarrow> user_info_redis \<Rightarrow> nat \<times> user_info_redis" where
  "UserInfoCache_batch_set order up vals r = batch_writes up 0 (bucket_groups order fst (take 2000 vals)) (0, r)"

section \<open>A batch is its single operations\<close>

text \<open>A walk over a map meets every bucket once.\<close>

definition walks_all :: "(32 word list \<Rightarrow> 32 word list) \<Rightarrow> bool" where
  "walks_all order = (\<forall>bs. distinct bs \<longrightarrow> distinct (order bs) \<and> set (order bs) = set bs)"

lemma set_bucket_groups:
  assumes "walks_all order"
  shows "set (concat (bucket_groups order key es)) = set es"
proof -
  have "set (order (remdups (map (user_info_bucket \<circ> key) es))) = (user_info_bucket \<circ> key) ` set es"
    using assms by (simp add: walks_all_def)
  then show ?thesis by (auto simp: bucket_groups_def)
qed

lemma batch_groups_up: "batch_groups (\<lambda>_. True) i r gs res = fold (batch_entry r) (concat gs) res"
  by (induction gs arbitrary: i res) (simp_all add: batch_group_def fold_append)

lemma batch_entries_hits: "br_hits (fold (batch_entry r) us res) u = (if u \<in> set us \<and> ur_value r u \<noteq> None then ur_value r u else br_hits res u)"
  by (induction us arbitrary: res) (auto simp: batch_entry_def split: option.splits)

lemma batch_entries_misses:
  "set (br_misses (fold (batch_entry r) us res)) =
     set (br_misses res) \<union> {(u, UserInfoCache_generation True u r) | u. u \<in> set us \<and> ur_value r u = None}"
proof (induction us arbitrary: res)
  case (Cons a us)
  then show ?case
    by (cases "ur_value r a") (auto simp: batch_entry_def UserInfoCache_generation_def)
qed simp

lemma batch_get_is_single_gets:
  assumes "walks_all order" and "length uids \<le> 2000"
  shows "br_hits (UserInfoCache_batch_get order (\<lambda>_. True) uids r) u = (if u \<in> set uids then UserInfoCache_get True u r else None)"
    and "set (br_misses (UserInfoCache_batch_get order (\<lambda>_. True) uids r)) =
      {(u, UserInfoCache_generation True u r) | u. u \<in> set uids \<and> UserInfoCache_get True u r = None}"
  using set_bucket_groups [OF assms(1), of "\<lambda>u. u" uids] assms(2)
  by (auto simp: UserInfoCache_batch_get_def batch_groups_up batch_entries_hits batch_entries_misses UserInfoCache_get_def)

text \<open>Without Redis everything is a miss without a generation.\<close>

lemma batch_get_down:
  assumes "walks_all order" and "length uids \<le> 2000"
  shows "set (br_misses (UserInfoCache_batch_get order (\<lambda>_. False) uids r)) = (\<lambda>u. (u, None)) ` set uids"
proof -
  have "set (br_misses (batch_groups (\<lambda>_. False) i r gs res)) = set (br_misses res) \<union> (\<lambda>u. (u, None)) ` set (concat gs)" for i gs res
    by (induction gs arbitrary: i res) (auto simp: batch_group_def)
  then show ?thesis
    using set_bucket_groups [OF assms(1), of "\<lambda>u. u" uids] assms(2) by (simp add: UserInfoCache_batch_get_def)
qed

lemma lua_generation_value [simp]: "lua_generation u (r\<lparr>ur_value := f\<rparr>) = lua_generation u r"
  by (simp add: lua_generation_def)

lemma batch_write_entry_lua [simp]: "lua_generation u (snd (batch_write_entry e nr)) = lua_generation u (snd nr)"
  by (simp add: batch_write_entry_def)

lemma fold_batch_write_lua [simp]: "lua_generation u (snd (fold batch_write_entry es nr)) = lua_generation u (snd nr)"
  by (induction es arbitrary: nr) simp_all

lemma batch_writes_up:
  assumes "\<And>e. e \<in> set (concat gs) \<Longrightarrow> lua_generation (fst e) (snd nr) \<noteq> None"
  shows "batch_writes (\<lambda>_. True) i gs nr = fold batch_write_entry (concat gs) nr"
  using assms
proof (induction gs arbitrary: i nr)
  case (Cons g gs)
  have "\<not> list_ex (\<lambda>e. lua_generation (fst e) (snd nr) = None) g"
    using Cons.prems by (fastforce simp: list_ex_iff)
  then have "batch_write True g nr = fold batch_write_entry g nr" by (simp add: batch_write_def)
  then show ?case using Cons by simp
qed simp

lemma fold_batch_write_value:
  assumes "distinct (map fst es)"
  shows "ur_value (snd (fold batch_write_entry es nr)) u =
    (case map_of es u of
       Some v \<Rightarrow> if lua_generation u (snd nr) = Some (unat (fv_generation v)) then Some (fv_serialized v) else ur_value (snd nr) u
     | None \<Rightarrow> ur_value (snd nr) u)"
  using assms
proof (induction es arbitrary: nr)
  case (Cons e es)
  then have n: "fst e = u \<Longrightarrow> map_of es u = None" by (auto simp: map_of_eq_None_iff)
  show ?case
    using Cons n by (cases "fst e = u") (auto simp: batch_write_entry_def split: option.splits)
qed simp

lemma distinct_bucket_groups:
  assumes "walks_all order" and "distinct (map fst es)"
  shows "distinct (map fst (concat (bucket_groups order fst es)))"
proof -
  have "distinct bs \<Longrightarrow> distinct (map fst (concat (map (\<lambda>b. filter (\<lambda>e. user_info_bucket (fst e) = b) es) bs)))" for bs
  proof (induction bs)
    case (Cons b bs)
    then show ?case using assms(2) by (auto simp: distinct_map_filter)
  qed simp
  then show ?thesis using assms(1) by (simp add: bucket_groups_def walks_all_def)
qed

lemma batch_set_is_single_sets:
  assumes w: "walks_all order" and "length vals \<le> 2000" and d: "distinct (map fst vals)"
    and "\<And>e. e \<in> set vals \<Longrightarrow> lua_generation (fst e) r \<noteq> None"
  shows "ur_value (snd (UserInfoCache_batch_set order (\<lambda>_. True) vals r)) u =
    (case map_of vals u of
       None \<Rightarrow> ur_value r u
     | Some v \<Rightarrow> ur_value (snd (UserInfoCache_set_if_generation True u (fv_serialized v) (fv_generation v) r)) u)"
proof -
  let ?es = "concat (bucket_groups order fst vals)"
  have "map_of ?es = map_of vals"
    using map_of_inject_set [OF distinct_bucket_groups [OF w d] d] set_bucket_groups [OF w, of fst vals] by blast
  moreover have "UserInfoCache_batch_set order (\<lambda>_. True) vals r = fold batch_write_entry ?es (0, r)"
    unfolding UserInfoCache_batch_set_def using assms(2,4) set_bucket_groups [OF w, of fst vals]
    by (subst batch_writes_up) (auto simp del: set_concat)
  ultimately show ?thesis
    using fold_batch_write_value [OF distinct_bucket_groups [OF w d], of "(0, r)" u]
    by (auto simp: UserInfoCache_set_if_generation_def split: option.splits)
qed

end
