(* ===== verification/Spec2Isabelle.thy ===== *)
theory Spec2Isabelle
  imports Relationship Conversation_Props Transmite_Props Seq_Backfill Presence_Props Gateway_Props Media_Rpc
    Worker_Start Circuit_Breaker Single_Flight Logging Es_Query Mq Cross_Reaper Side_Tables Redis_Helpers User_Info_Batch
begin

text \<open>
  ChatNow is an instant-messaging backend. A client speaks HTTP to the gateway and keeps a WebSocket to the push
  service; seven services behind them hold accounts (identity), friends (relationship), chats and their members
  (conversation), messages (transmite accepts them, message stores them), files (media) and who is online
  (presence). They call each other by brpc, share MySQL and Redis, search in Elasticsearch, pass messages through
  RabbitMQ and find each other in etcd. This theory holds what spans components; everything else is in the
  theories below. Sources are named relative to the repository.

  \<^bold>\<open>The way of a message.\<close> The gateway verifies the bearer token and forwards the call as the user of the token
  (\<open>Gateway\<close>). \<open>SendMessage\<close> claims the idempotency key of the client's message id, asks the rate limiter,
  resolves the members through two caches, draws a sequence number for the conversation and one per recipient,
  draws a snowflake id and publishes with confirmation (\<open>Transmite\<close>). The broker copies the message to the queues
  of the message and the push service (\<open>Mq\<close>). The message service stores it with one inbox row per recipient and
  indexes its text (\<open>Message_Service\<close>); the push service enters it into the ledger of each device and sends it, here or
  through another instance, until the device acknowledges it (\<open>Push\<close>, \<open>Push_Clients\<close>). The properties follow this
  path: at most one acknowledged message per idempotency key, numbers without repetition, a confirmed message
  stays with its queue until it is settled, it is stored once and changes only by recall, only members send and
  read, an acknowledged push is in the ledger and only the device's own acknowledgement takes it out.

  \<^bold>\<open>Shared ground.\<close>
  \<^item> \<open>Prelude\<close>: identifiers, times, 64-bit counters; a MySQL table as the list of its rows with the operations the ODB
    library gives the DAO classes; the call oracle; reachable states. Locales \<open>unique_table\<close> (a table with a unique
    index) and \<open>invariant_system\<close> (a step relation with an inductive invariant).
  \<^item> \<open>Cpp_Strings\<close>: \<open>std::to_string\<close>, \<open>std::stoi\<close> with their round trip.
  \<^item> \<open>Rpc\<close>: common/error and common/auth/auth_context.hpp: error codes, the exceptions of a handler body, \<open>extract_auth\<close>
    and the macro \<open>HANDLE_RPC\<close> as \<open>handle_rpc\<close>.
  \<^item> \<open>Proto\<close>, \<open>Message_Proto\<close>, \<open>Notify_Proto\<close>: the protobuf messages of proto/ as records and datatypes.
  \<^item> \<open>Redis_Hash\<close>: a Redis hash.

  \<^bold>\<open>Stores and caches.\<close>
  \<^item> \<open>Relation_Dao\<close>, \<open>Conversation_Dao\<close>, \<open>Message_Dao\<close>, \<open>Identity_Dao\<close>, \<open>Media_Dao\<close>, \<open>Side_Tables\<close>, \<open>Dao_Extras\<close>: the
    tables of odb/ and the DAO classes of common/dao/mysql_*.hpp, one definition per method with its catch
    branch. The interpretations \<open>relation_table\<close>, \<open>apply_table\<close>, \<open>block_table\<close>, \<open>conversation_table\<close> and
    \<open>member_table\<close> of \<open>unique_table\<close> are there. \<open>Side_Tables\<close> and most of \<open>Dao_Extras\<close> are methods no handler calls.
  \<^item> \<open>Members_Cache\<close>, \<open>Members_Race\<close>: the member lists in Redis, kept apart by a version that every change raises
    (common/utils/cache_version.hpp, class \<open>Members\<close> of common/dao/data_redis.hpp). The locale \<open>versioned_cache\<close> states
    the contract, interpreted as \<open>members\<close>; the race theory interleaves readers, writers and expiry.
  \<^item> \<open>User_Info_Cache\<close>, \<open>User_Info_Batch\<close>, \<open>Redis_Helpers\<close>, \<open>Presence_Redis\<close>, \<open>Push_Redis\<close>: the other Redis classes
    of common/dao/data_redis.hpp with their Lua scripts.
  \<^item> \<open>Local_Cache\<close>: the LRU cache of common/utils/local_cache.hpp, hash map and recency list; the locale \<open>keyed_cache\<close>
    states what its clients rely on, and the refinement says that a lookup finds the last value set or nothing.
  \<^item> \<open>Es_Outbox\<close>, \<open>Es_Query\<close>: search indexes, their outboxes with retry and reaper, and the query builder of
    common/infra/icsearch.hpp with the meaning of the bodies it builds.

  \<^bold>\<open>Infrastructure.\<close>
  \<^item> \<open>Snowflake\<close>, \<open>Worker_Id\<close>, \<open>Leader_Election\<close>, \<open>Leases\<close>, \<open>Worker_Start\<close>: message ids and the worker ids that keep
    them apart (common/infra/snowflake.hpp, leader_election.hpp, common/utils/worker_id.hpp, redis_mutex.hpp). The
    locale \<open>lease\<close> proves the exclusion window once; it is interpreted on the Redis mutex, the cleanup lease, the worker
    slots and the etcd key of the election.
  \<^item> \<open>Reliability_State\<close>, \<open>Rate_Limiter\<close>, \<open>Local_Rate_Limiter\<close>, \<open>Circuit_Breaker\<close>, \<open>Single_Flight\<close>: the idempotency
    values, the token buckets in Redis and in the process (locale \<open>metered\<close>: what a window can admit), the breaker
    around Redis and the in-flight registry, the last two with any number of interleaved threads.
  \<^item> \<open>Service_Manager\<close>, \<open>Mq\<close>, \<open>Logging\<close>: channel pools and discovery (common/mq/channel.hpp, common/infra/etcd.hpp),
    the queue client with the topology of the services (common/mq/rabbitmq.hpp), log lines and trace headers.
  \<^item> \<open>Jwt\<close>: tokens, the revocation list and the rotation chain of refresh tokens (common/auth).

  \<^bold>\<open>Services.\<close> Each handler is one definition that maps the environment of a request, the authenticated user and the
  request to an outcome and the new state; a raised \<open>ServiceError\<close> is a value.
  \<^item> \<open>Relationship\<close> (relationship/source/relationship_server.h): nine RPCs; friendship is symmetric and consented.
  \<^item> \<open>Conversation\<close>, \<open>Conversation_Writes\<close>, \<open>Conversation_Props\<close> (conversation/source/conversation_server.h): eighteen
    RPCs; \<open>conv_write\<close> collects what a request of one user can do to the tables, and the invariants (one owner at
    most, counts, cursors) are proved over it and reach the handlers through the interpretation \<open>conv_system\<close>.
  \<^item> \<open>Transmite\<close>, \<open>Send_Race\<close>, \<open>Transmite_Props\<close> (transmite/source/transmite_server.h): \<open>SendMessage\<close>, whole and cut into the
    pieces between its calls of Redis and the broker; \<open>send_runs\<close> shows that an undisturbed run of the pieces is the
    handler.
  \<^item> \<open>Message_Service\<close>, \<open>Message_Props\<close>, \<open>Message_Store\<close>, \<open>Seq_Backfill\<close> (message/source/message_server.h): fifteen RPCs, two
    consumers, the reapers and the restoration of the sequence counters from the database.
  \<^item> \<open>Connection_Table\<close>, \<open>Push\<close>, \<open>Push_Clients\<close>, \<open>Push_Props\<close>, \<open>Cross_Reaper\<close> (push/source): several instances over one
    Redis; the ledger of unacknowledged pushes refines a finite map from sequence numbers to entries.
  \<^item> \<open>Presence\<close>, \<open>Presence_Props\<close> (presence/source/presence_server.h): aggregation against a reference definition, and
    what the service makes of the records the push service writes.
  \<^item> \<open>Identity\<close>, \<open>Refresh_Race\<close>, \<open>Identity_Props\<close> (identity/source/identity_server.h): accounts, profiles, tokens; the
    refresh also as single Redis steps of concurrent requests.
  \<^item> \<open>Media\<close>, \<open>Media_Props\<close>, \<open>Media_Rpc\<close> (media/source): uploads, multipart uploads, downloads, quota and the cleanup
    tasks over an object store.
  \<^item> \<open>Gateway\<close>, \<open>Gateway_Props\<close> (gateway/source): the route table, bearer authentication, forwarding; with the identity
    service, that a logout ends the session.

  \<^bold>\<open>This theory.\<close> \<open>create_conversation_call\<close> connects the relationship and the conversation service: accepting a
  friend request opens a private chat that both friends share.

  \<^bold>\<open>What is assumed.\<close>
  \<^item> A request carries the outcome of its middleware calls: the fields named \<open>up\<close>, \<open>ok\<close> or \<open>calls\<close> of an environment say
    which of them complete. A call that fails takes the branch the code has for it, and where the code has none the
    outcome says that an exception left the handler.
  \<^item> A request has one clock reading unless the source reads the clock in a loop (\<open>Snowflake\<close>). Times are
    milliseconds.
  \<^item> \<open>query_one\<close> gives the first matching row. Identifiers compare byte by byte; the user table, whose keys are text
    that people choose, takes the collation as an argument.
  \<^item> Lua scripts, SQL transactions, sections under a mutex and atomic variables are single steps. Expiry of a Redis key is
    a step or a comparison with the clock.
  \<^item> Code outside the repository is an argument with named hypotheses: protobuf, jsoncpp, bcrypt, the JWT library,
    base64, random draws, the ranking of Elasticsearch, signed URLs, IEEE rounding. Redis, MySQL, etcd, AMQP and S3
    behave as documented, as far as the definitions write it down. Each property with a hypothesis on such an argument
    has a witness with a concrete function.

  \<^bold>\<open>Bounds and fuel.\<close> 64-bit counters that can wrap are words (\<open>Snowflake\<close>, sequence numbers, versions); counters that
  cannot reach their width are natural numbers, with the reason at the definition. Loops are structural recursions
  over the list or the number of attempts the code has. The one loop without a bound, the wait of the id generator
  for its clock, is an option: \<open>snowflake_next_returns\<close> shows that it returns once the clock passes the last
  timestamp. Loops of background threads are modelled as the step that a turn of the loop is.

  \<^bold>\<open>Where the code falls short.\<close> Some theorems show behaviour its authors will not want: a wrong size claimed for
  known content deletes the object of other files, a search for users always sends a malformed query, a message
  confirmed before the consumers have declared their queues is lost, a leader can outlive its lease.

  \<^bold>\<open>Not modelled.\<close> Forwarding of commands to redis-plus-plus, brpc, curl, spdlog, etcd and the AWS client, whose
  effects are the operations above; the connection factories; construction of servers and parsing of flags and
  configuration; metrics; threads and timers beyond the step they run; speech recognition, which no service uses;
  the mapping documents of the search indexes; generated code (protoc, odb) and the vendored libraries under third/;
  gateway/source/connection.hpp, which nothing includes; tests, scripts and deployment.
\<close>

section \<open>Friendship and private chat\<close>

text \<open>
  The call that HandleFriendRequest makes to \<open>ConversationService.CreateConversation\<close>: the
  relationship service forwards the metadata of the incoming request, so the conversation service
  sees the same user.
\<close>

definition create_conversation_call :: "conv_env \<Rightarrow> rpc_metadata option \<Rightarrow> conv_state conv_rpc" where
  "create_conversation_call ce md req w =
     (case handle_rpc md (ccq_request_id req) (\<lambda>auth. CreateConversation ce auth req) w of
        ((h, r), w') \<Rightarrow> (Rpc_reply h r, w'))"

lemma private_conversation_req_to [simp]: "private_req_to u (private_conversation_req rid u)"
  by (simp add: private_req_to_def private_conversation_req_def)

lemma create_private_up:
  assumes "conv_inv (cs_db w)" and "ce_up ce = all_up" and "private_req_to b req" and "user_id auth \<noteq> b"
    and "x = private_id_of (user_id auth) b" and "sel_conv (cs_db w) x = None"
  shows "\<exists>w'. CreateConversation ce auth req w =
      (Inr (created_rsp ce req (stored_entity ce (user_id auth) req x)), w') \<and>
    ConversationMemberTable_members True x (cs_db w') = [user_id auth, b]"
proof -
  let ?a = "user_id auth"
  have none: "sel_member (cs_db w) (x, v) = None" for v
    using conv_invD(2) [OF assms(1), of x v] assms(6) by (cases "sel_member (cs_db w) (x, v)") auto
  obtain r w' where c: "CreateConversation ce auth req w = (r, w')" by fastforce
  let ?ins = "ConversationTable_insert True (ce_now ce) (new_entity ce ?a req x) (cs_db w)"
  let ?rows = "new_member_rows ce ?a req x"
  have ins: "?ins = ((True, stored_entity ce ?a req x), add_conv (stored_entity ce ?a req x) (cs_db w))"
    using assms(6) by (auto simp: ConversationTable_insert_def Let_def stored_entity_def new_entity_def Conversation_def
        persist_def sel_conv_def select_key_None add_conv_def)
  have app: "ConversationMemberTable_append_after_create True (ce_now ce) ?rows (add_conv (stored_entity ce ?a req x) (cs_db w)) =
      (True, add_rows ?rows (add_conv (stored_entity ce ?a req x) (cs_db w)))"
  proof -
    have "distinct (map cm_key ?rows) \<and> cm_key ` set ?rows \<inter> cm_key ` set (conversation_members (cs_db w)) = {}"
      using none [of ?a] none [of b] assms(4)
      by (auto simp: private_rows [OF assms(3,4)] ConversationMember_def cm_key_def sel_member_def select_key_None)
    then have "persist_all cm_key ?rows (conversation_members (cs_db w)) = Some (conversation_members (cs_db w) @ ?rows)"
      by (simp add: persist_all_Some_iff)
    moreover have "?rows \<noteq> []" by (simp add: new_member_rows_def)
    ultimately show ?thesis
      by (simp add: ConversationMemberTable_append_after_create_def default_join_new_rows add_rows_def add_conv_def)
  qed
  have r: "r = Inr (created_rsp ce req (stored_entity ce ?a req x))"
    and w': "cs_db w' = add_rows ?rows (add_conv (stored_entity ce ?a req x) (cs_db w))"
    using c ins app assms(2,3,5,6)
    by (auto simp: CreateConversation_def Let_def private_req_to_def ConversationTable_exists_def)
  have "ConversationMemberTable_members True x (cs_db w') = [?a, b]"
    using active_rows_absent [OF assms(1,6)]
    by (simp add: ConversationMemberTable_members_def w' active_rows_def add_rows_def add_conv_def
        private_rows [OF assms(3,4)] ConversationMember_def)
  with c r show ?thesis by blast
qed



end
